(* ===== verification/Prelude.thy ===== *)
theory Prelude
  imports Main "HOL-Library.Word"
begin

text \<open>
  What every component shares: the types that name the program's data (identifiers,
  instants, 64-bit integers), the PostgreSQL session the repositories talk to, and the
  generic lemmas.

  The database. A repository method of the program is a sequence of SQL statements on a
  connection pool (\<open>pgxpool.Pool\<close>), some of them grouped in a transaction. The model keeps
  the tables in a record of the component's own, wrapped in \<open>pgs\<close> together with the
  server's clock (\<open>now()\<close> of a statement) and with the fate of the statements to come:
  a statement runs (\<open>Runs\<close>), is lost before it reaches the server (\<open>Lost_before\<close>), or
  runs but its answer is lost (\<open>Lost_after\<close>). The pool, the driver and the network are not
  code of the repository, so every theorem holds for all fates. An exhausted list of fates is
  a healthy connection.

  A failed statement leaves the tables as they were. A transaction works on its own copy and
  puts the tables back unless its commit runs, which is what \<open>defer tx.Rollback(ctx)\<close> and
  \<open>tx.Commit(ctx)\<close> do.
\<close>

named_theorems pg_simps \<open>unfolding of the statement and transaction combinators\<close>
named_theorems store_defs \<open>definitions of the repository methods\<close>

subsection \<open>Types\<close>

type_synonym uuid = nat
type_synonym time = int
type_synonym int64 = "64 word"

abbreviation (input) uuid_Nil :: uuid where "uuid_Nil \<equiv> 0"

abbreviation max_int64 :: int where "max_int64 \<equiv> 9223372036854775807"
abbreviation min_int64 :: int where "min_int64 \<equiv> - 9223372036854775808"

subsection \<open>Errors of a SQL statement\<close>

datatype sqlerr =
    ConnLost
  | NoRows
  | UniqueViolation string
  | ForeignKeyViolation string
  | CheckViolation string
  | NotNullViolation string
  | NumericOutOfRange
  | InvalidOffset
  | UnknownColumnValue string

subsection \<open>The session\<close>

datatype fate = Runs | Lost_before | Lost_after

record 'd pgs =
  tables :: 'd
  fates :: "fate list"
  pg_now :: time

definition next_fate :: "('d, 'z) pgs_scheme \<Rightarrow> fate" where
  "next_fate w = (case fates w of [] \<Rightarrow> Runs | f # _ \<Rightarrow> f)"

definition pop_fate :: "('d, 'z) pgs_scheme \<Rightarrow> ('d, 'z) pgs_scheme" where
  "pop_fate w = w\<lparr>fates := tl (fates w)\<rparr>"

text \<open>One statement outside or inside a transaction.\<close>

definition pg_stmt ::
  "('d \<Rightarrow> sqlerr + 'a \<times> 'd) \<Rightarrow> ('d, 'z) pgs_scheme \<Rightarrow> (sqlerr + 'a) \<times> ('d, 'z) pgs_scheme" where
  "pg_stmt f w =
     (case next_fate w of
        Lost_before \<Rightarrow> (Inl ConnLost, pop_fate w)
      | Lost_after \<Rightarrow>
          (Inl ConnLost,
           (case f (tables w) of
              Inl e \<Rightarrow> pop_fate w
            | Inr (a, d) \<Rightarrow> (pop_fate w)\<lparr>tables := d\<rparr>))
      | Runs \<Rightarrow>
          (case f (tables w) of
             Inl e \<Rightarrow> (Inl e, pop_fate w)
           | Inr (a, d) \<Rightarrow> (Inr a, (pop_fate w)\<lparr>tables := d\<rparr>)))"

text \<open>A statement that only reads.\<close>

definition pg_query ::
  "('d \<Rightarrow> sqlerr + 'a) \<Rightarrow> ('d, 'z) pgs_scheme \<Rightarrow> (sqlerr + 'a) \<times> ('d, 'z) pgs_scheme" where
  "pg_query f = pg_stmt (\<lambda>d. case f d of Inl e \<Rightarrow> Inl e | Inr a \<Rightarrow> Inr (a, d))"

text \<open>
  A transaction: \<open>BEGIN\<close>, the body, \<open>COMMIT\<close>. \<open>on_begin\<close> and \<open>on_commit\<close> are the errors
  the code returns when \<open>BEGIN\<close> or \<open>COMMIT\<close> fails. A body that fails is rolled back; a
  commit whose answer is lost has happened on the server.
\<close>

definition pg_tx ::
  "'e \<Rightarrow> 'e \<Rightarrow> (('d, 'z) pgs_scheme \<Rightarrow> ('e + 'a) \<times> ('d, 'z) pgs_scheme)
    \<Rightarrow> ('d, 'z) pgs_scheme \<Rightarrow> ('e + 'a) \<times> ('d, 'z) pgs_scheme" where
  "pg_tx on_begin on_commit body w =
     (if next_fate w \<noteq> Runs then (Inl on_begin, pop_fate w)
      else (case body (pop_fate w) of
        (Inl e, w') \<Rightarrow> (Inl e, w'\<lparr>tables := tables w\<rparr>)
      | (Inr a, w') \<Rightarrow>
          (case next_fate w' of
             Runs \<Rightarrow> (Inr a, pop_fate w')
           | Lost_before \<Rightarrow> (Inl on_commit, (pop_fate w')\<lparr>tables := tables w\<rparr>)
           | Lost_after \<Rightarrow> (Inl on_commit, pop_fate w'))))"

lemma next_fate_Nil [simp]: "fates w = [] \<Longrightarrow> next_fate w = Runs"
  by (simp add: next_fate_def)

lemma next_fate_Cons [simp]: "fates w = f # fs \<Longrightarrow> next_fate w = f"
  by (simp add: next_fate_def)

lemma pop_fate_simps [simp]:
  "tables (pop_fate w) = tables w"
  "pg_now (pop_fate w) = pg_now w"
  "fates (pop_fate w) = tl (fates w)"
  by (simp_all add: pop_fate_def)

lemma next_fate_tables [simp]: "next_fate (w\<lparr>tables := d\<rparr>) = next_fate w"
  by (simp add: next_fate_def)

lemma pop_fate_healthy [simp]: "fates w = [] \<Longrightarrow> pop_fate w = w"
  by (simp add: pop_fate_def)

lemma pgs_tables_id [simp]: "w\<lparr>tables := tables w\<rparr> = w"
  by (cases w) simp

lemma pgs_fates_id: "fates w = [] \<Longrightarrow> w\<lparr>fates := [], tables := tables w\<rparr> = w"
  by (cases w) simp

text \<open>The clock never moves within a call.\<close>

lemma pg_stmt_now [simp]: "pg_now (snd (pg_stmt f w)) = pg_now w"
  by (simp add: pg_stmt_def split: fate.splits sum.splits)

lemma pg_query_now [simp]: "pg_now (snd (pg_query f w)) = pg_now w"
  by (simp add: pg_query_def)

lemma pg_query_tables [simp]: "tables (snd (pg_query f w)) = tables w"
  by (simp add: pg_query_def pg_stmt_def split: fate.splits sum.splits)

text \<open>What the outcome of a statement says about the tables.\<close>

lemma pg_stmt_Inr:
  "pg_stmt f w = (Inr a, w') \<longleftrightarrow>
     next_fate w = Runs \<and> (\<exists>d. f (tables w) = Inr (a, d) \<and> w' = (pop_fate w)\<lparr>tables := d\<rparr>)"
  by (auto simp: pg_stmt_def split: fate.splits sum.splits)

lemma pg_stmt_Inl_tables:
  "pg_stmt f w = (Inl e, w') \<Longrightarrow>
     tables w' = tables w \<or> (\<exists>a. f (tables w) = Inr (a, tables w'))"
  by (auto simp: pg_stmt_def split: fate.splits sum.splits)

lemma pg_query_Inr:
  "pg_query f w = (Inr a, w') \<longleftrightarrow>
     next_fate w = Runs \<and> f (tables w) = Inr a \<and> w' = pop_fate w"
  by (auto simp: pg_query_def pg_stmt_Inr pop_fate_def split: sum.splits)

lemma pg_query_snd: "pg_query f w = (r, w') \<Longrightarrow> w' = pop_fate w"
  by (auto simp: pg_query_def pg_stmt_def pop_fate_def split: fate.splits sum.splits)

lemma pg_query_healthy [pg_simps]:
  "fates w = [] \<Longrightarrow> pg_query f w = (f (tables w), w)"
  by (auto simp: pg_query_def pg_stmt_def pop_fate_def split: sum.splits)

lemma pg_stmt_healthy [pg_simps]:
  "fates w = [] \<Longrightarrow> pg_stmt f w =
     (case f (tables w) of Inl e \<Rightarrow> (Inl e, w) | Inr (a, d) \<Rightarrow> (Inr a, w\<lparr>tables := d\<rparr>))"
  by (auto simp: pg_stmt_def pop_fate_def split: sum.splits)

lemma pg_tx_Inr:
  "pg_tx b c body w = (Inr a, w') \<Longrightarrow>
     \<exists>w1. body (pop_fate w) = (Inr a, w1) \<and> w' = pop_fate w1"
  by (auto simp: pg_tx_def split: if_splits prod.splits sum.splits fate.splits)

text \<open>All or nothing: a failed transaction has left no trace or its whole effect.\<close>

lemma pg_tx_Inl_tables:
  "pg_tx b c body w = (Inl e, w') \<Longrightarrow>
     tables w' = tables w \<or>
     (e = c \<and> (\<exists>a w1. body (pop_fate w) = (Inr a, w1) \<and> tables w' = tables w1))"
  by (auto simp: pg_tx_def split: if_splits prod.splits sum.splits fate.splits)

lemma pg_tx_healthy [pg_simps]:
  assumes "fates w = []" and "fates (snd (body w)) = []"
  shows "pg_tx b c body w =
     (case body w of (Inl e, w') \<Rightarrow> (Inl e, w'\<lparr>tables := tables w\<rparr>) | (Inr a, w') \<Rightarrow> (Inr a, w'))"
proof -
  have "pop_fate w = w" using assms(1) by (simp add: pop_fate_def)
  moreover have "pop_fate (snd (body w)) = snd (body w)" using assms(2) by (simp add: pop_fate_def)
  ultimately show ?thesis using assms
    by (auto simp: pg_tx_def split: prod.splits sum.splits)
qed

lemma pg_tx_now:
  "(\<And>v. pg_now (snd (body v)) = pg_now v) \<Longrightarrow> pg_now (snd (pg_tx b c body w)) = pg_now w"
proof -
  assume h: "\<And>v. pg_now (snd (body v)) = pg_now v"
  have "pg_now (snd (body (pop_fate w))) = pg_now w" by (simp add: h)
  then show ?thesis
    by (auto simp: pg_tx_def split: prod.splits sum.splits fate.splits)
qed

subsection \<open>Lists\<close>

text \<open>\<open>LIMIT l OFFSET o\<close>.\<close>

definition sql_page :: "nat \<Rightarrow> nat \<Rightarrow> 'a list \<Rightarrow> 'a list" where
  "sql_page l off xs = take l (drop off xs)"

lemma length_sql_page: "length (sql_page l off xs) \<le> l"
  by (simp add: sql_page_def)

lemma set_sql_page: "set (sql_page l off xs) \<subseteq> set xs"
  by (auto simp: sql_page_def dest: in_set_takeD in_set_dropD)

lemma concat_pages:
  assumes "0 < l"
  shows "concat (map (\<lambda>i. sql_page l (i * l) xs) [0..<n]) = take (n * l) xs"
proof (induction n)
  case 0
  then show ?case by simp
next
  case (Suc n)
  then show ?case
    by (simp add: sql_page_def take_add add.commute [of l])
qed

lemma concat_pages_all:
  assumes "0 < l" and "length xs \<le> n * l"
  shows "concat (map (\<lambda>i. sql_page l (i * l) xs) [0..<n]) = xs"
  using assms by (simp add: concat_pages)

lemma find_SomeD: "find P xs = Some x \<Longrightarrow> x \<in> set xs \<and> P x"
  by (induction xs) (auto split: if_splits)

lemma find_NoneD: "find P xs = None \<Longrightarrow> x \<in> set xs \<Longrightarrow> \<not> P x"
  by (induction xs) (auto split: if_splits)

lemma set_map_filter_iff: "y \<in> set (List.map_filter f xs) \<longleftrightarrow> (\<exists>x \<in> set xs. f x = Some y)"
  by (force simp: List.map_filter_def)

subsection \<open>Signed 64-bit integers\<close>

lemma sint64_range: "min_int64 \<le> sint (x :: int64) \<and> sint x \<le> max_int64"
  using sint_ge [of x] sint_lt [of x] by simp

lemma sint64_uminus:
  assumes "sint (x :: int64) \<noteq> min_int64"
  shows "sint (- x) = - sint x"
proof -
  have r: "min_int64 \<le> - sint x" "- sint x \<le> max_int64"
    using sint64_range [of x] assms by linarith+
  have "sint (- x) = signed_take_bit 63 (- sint x)"
    by (simp add: sint_word_ariths)
  also have "\<dots> = - sint x"
    using r by (intro signed_take_bit_int_eq_self) simp_all
  finally show ?thesis .
qed

lemma sint64_word_of_int:
  assumes "min_int64 \<le> i" and "i \<le> max_int64"
  shows "sint (word_of_int i :: int64) = i"
  unfolding int_word_sint using assms by (simp add: mod_pos_pos_trivial)

lemma sint64_add_word_of_int:
  assumes "min_int64 \<le> i + sint a" and "i + sint a \<le> max_int64"
  shows "sint (word_of_int i + a :: int64) = i + sint a"
  using sint64_word_of_int [OF assms] by simp

end
