(* ===== verification/CoinModel.thy ===== *)
theory CoinModel
  imports Prelude
begin

text \<open>
  The data of the coin component (\<open>internal/coin/model.go\<close>) and its errors: realms, the
  registry of biz types that says which owner may carry which kind of entry and with which
  sign, the wallet snapshot and the ledger entry. Amounts are the program's \<open>int64\<close>, read
  as signed values with \<open>sint\<close>.
\<close>

subsection \<open>Realms, directions, origins\<close>

type_synonym realm = string

abbreviation (input) RealmWeb :: realm where "RealmWeb \<equiv> ''web''"
abbreviation (input) RealmAdmin :: realm where "RealmAdmin \<equiv> ''admin''"

definition realm_valid :: "realm \<Rightarrow> bool" where
  "realm_valid r \<longleftrightarrow> r = RealmWeb \<or> r = RealmAdmin"

datatype direction = DirIncome | DirExpense

datatype origin = OriginUser | OriginSystem | OriginBackoffi

type_synonym biz_type = string

record biz_meta =
  bm_dir :: direction
  bm_origin :: origin
  bm_roles :: "string list"

subsection \<open>The registry\<close>

definition webLearners :: "string list" where
  "webLearners = [''web:student'', ''web:teacher'']"

definition webStudent :: "string list" where
  "webStudent = [''web:student'']"

definition coinAdmin :: "string list" where
  "coinAdmin = [''admin:admin'']"

definition anyHolder :: "string list" where
  "anyHolder = [''web:student'', ''web:teacher'', ''admin:admin'']"

abbreviation (input) BizPlatformGrant :: biz_type where "BizPlatformGrant \<equiv> ''platform_grant''"
abbreviation (input) BizPlatformDeduct :: biz_type where "BizPlatformDeduct \<equiv> ''platform_deduct''"

definition meta :: "direction \<Rightarrow> origin \<Rightarrow> string list \<Rightarrow> biz_meta" where
  "meta d og rs = \<lparr>bm_dir = d, bm_origin = og, bm_roles = rs\<rparr>"

definition bizRegistry :: "biz_type \<rightharpoonup> biz_meta" where
  "bizRegistry = map_of
    [(''first_login'', meta DirIncome OriginSystem webLearners),
     (''platform_recharge'', meta DirIncome OriginSystem webLearners),
     (''wordlist_tip_received'', meta DirIncome OriginSystem webLearners),
     (''invite_friend'', meta DirIncome OriginSystem webLearners),
     (''invited'', meta DirIncome OriginSystem webLearners),
     (''daily_task'', meta DirIncome OriginSystem webStudent),
     (''create_word'', meta DirIncome OriginSystem coinAdmin),
     (''create_wordlist'', meta DirIncome OriginSystem coinAdmin),
     (BizPlatformGrant, meta DirIncome OriginBackoffi anyHolder),
     (''create_custom_entry'', meta DirExpense OriginUser webLearners),
     (''give_tip'', meta DirExpense OriginUser webLearners),
     (''change_dialect'', meta DirExpense OriginUser webLearners),
     (BizPlatformDeduct, meta DirExpense OriginBackoffi anyHolder),
     (''withdrawal'', meta DirExpense OriginUser coinAdmin)]"

subsection \<open>Wallets and ledger entries\<close>

record wallet =
  w_realm :: realm
  w_owner :: uuid
  w_balance :: int64
  w_version :: int64

record ledger_entry =
  le_id :: uuid
  le_realm :: realm
  le_owner :: uuid
  le_amount :: int64
  le_balance_after :: int64
  le_biz :: biz_type
  le_note :: string
  le_reversal_of :: "uuid option"
  le_created_by :: "uuid option"
  le_created_at :: time

text \<open>\<open>LedgerEntry.Direction\<close>: the sign of the amount.\<close>

definition entry_direction :: "ledger_entry \<Rightarrow> direction" where
  "entry_direction e = (if sint (le_amount e) < 0 then DirExpense else DirIncome)"

text \<open>\<open>LedgerFilter\<close>: no direction means both; no instant means unbounded.\<close>

record ledger_filter =
  lf_direction :: "direction option"
  lf_from :: "time option"
  lf_to :: "time option"
  lf_page :: int64
  lf_size :: int64

subsection \<open>Errors\<close>

text \<open>
  The sentinel errors of \<open>service.go\<close> and \<open>repository.go\<close>; \<open>CoinSql ctx e\<close> is a driver error
  wrapped with the prefix \<open>ctx\<close> (empty where the code returns it as it is).
\<close>

datatype coin_err =
    ErrUnknownBizType biz_type
  | ErrBizTypeNotAllowed biz_type string
  | ErrAmountSign
  | ErrLedgerNotFound
  | ErrInsufficientBalance
  | ErrAlreadyReversed
  | ErrCannotReverseReversal
  | CoinSql string sqlerr

end
