(* ===== verification/GoStrings.thy ===== *)
theory GoStrings
  imports Prelude
begin

text \<open>
  Go strings. A Go string is a sequence of bytes, here a \<open>string\<close> (a list of 8-bit
  characters) that holds the UTF-8 encoding of its text. The functions are those of the
  standard library the program calls.
\<close>

subsection \<open>\<open>strings.HasPrefix\<close>, \<open>strings.Contains\<close>\<close>

fun has_prefix :: "string \<Rightarrow> string \<Rightarrow> bool" where
  "has_prefix [] _ = True"
| "has_prefix (_ # _) [] = False"
| "has_prefix (p # ps) (x # xs) = (p = x \<and> has_prefix ps xs)"

fun contains_sub :: "string \<Rightarrow> string \<Rightarrow> bool" where
  "contains_sub [] sub = has_prefix sub []"
| "contains_sub (x # xs) sub = (has_prefix sub (x # xs) \<or> contains_sub xs sub)"

subsection \<open>\<open>strings.TrimSpace\<close>\<close>

text \<open>The UTF-8 encodings of the characters \<open>unicode.IsSpace\<close> accepts.\<close>

definition space_runes :: "string list" where
  "space_runes =
     map (\<lambda>n. [char_of n]) [9, 10, 11, 12, 13, 32 :: nat] @
     [[CHR 0xC2, CHR 0x85], [CHR 0xC2, CHR 0xA0], [CHR 0xE1, CHR 0x9A, CHR 0x80]] @
     map (\<lambda>n. [CHR 0xE2, CHR 0x80, char_of n])
       [128, 129, 130, 131, 132, 133, 134, 135, 136, 137, 138, 168, 169, 175 :: nat] @
     [[CHR 0xE2, CHR 0x81, CHR 0x9F], [CHR 0xE3, CHR 0x80, CHR 0x80]]"

definition starts_with_space :: "string list \<Rightarrow> string \<Rightarrow> string option" where
  "starts_with_space ws s = find (\<lambda>w. take (length w) s = w \<and> w \<noteq> []) ws"

function trim_left :: "string list \<Rightarrow> string \<Rightarrow> string" where
  "trim_left ws s = (case starts_with_space ws s of None \<Rightarrow> s | Some w \<Rightarrow> trim_left ws (drop (length w) s))"
  by pat_completeness auto
termination
proof (relation "measure (\<lambda>(ws, s). length s)")
  fix ws s w assume "starts_with_space ws s = Some w"
  then have w: "take (length w) s = w" "w \<noteq> []" by (auto simp: starts_with_space_def dest: find_SomeD)
  then have "s \<noteq> []" by auto
  with w show "((ws, drop (length w) s), (ws, s)) \<in> measure (\<lambda>(ws, s). length s)" by simp
qed simp

declare trim_left.simps [simp del]

definition TrimSpace :: "string \<Rightarrow> string" where
  "TrimSpace s = rev (trim_left (map rev space_runes) (rev (trim_left space_runes s)))"

lemma trim_left_fixed: "starts_with_space ws s = None \<Longrightarrow> trim_left ws s = s"
  by (subst trim_left.simps) simp

lemma trim_left_done: "starts_with_space ws (trim_left ws s) = None"
proof (induction ws s rule: trim_left.induct)
  case (1 ws s)
  then show ?case
    by (cases "starts_with_space ws s") (simp_all add: trim_left.simps [of ws s])
qed

lemma trim_left_suffix: "\<exists>p. s = p @ trim_left ws s"
proof (induction ws s rule: trim_left.induct)
  case (1 ws s)
  show ?case
  proof (cases "starts_with_space ws s")
    case None
    then show ?thesis by (simp add: trim_left_fixed)
  next
    case (Some w)
    with 1 obtain p where "drop (length w) s = p @ trim_left ws (drop (length w) s)" by blast
    then have "s = (take (length w) s @ p) @ trim_left ws (drop (length w) s)"
      by (metis append.assoc append_take_drop_id)
    with Some show ?thesis by (metis (no_types, lifting) option.simps(5) trim_left.simps)
  qed
qed

text \<open>A prefix of a string that does not start with a space does not either.\<close>

lemma starts_with_space_prefix:
  assumes "starts_with_space ws (p @ q) = None"
  shows "starts_with_space ws p = None"
proof (cases "starts_with_space ws p")
  case (Some w)
  then have w: "w \<in> set ws" "take (length w) p = w" "w \<noteq> []"
    by (auto simp: starts_with_space_def dest: find_SomeD)
  then have "length w \<le> length p" by (metis length_take min.cobounded1)
  with w have "take (length w) (p @ q) = w" by simp
  moreover have "\<not> (take (length w) (p @ q) = w \<and> w \<noteq> [])"
    using find_NoneD [OF assms [unfolded starts_with_space_def] w(1)] by simp
  ultimately show ?thesis using w(3) by simp
qed simp

lemma trim_left_nil [simp]: "trim_left ws [] = []"
  using trim_left_suffix [of "[]" ws] by auto

lemma TrimSpace_nil [simp]: "TrimSpace [] = []"
  by (simp add: TrimSpace_def)

lemma TrimSpace_idem: "TrimSpace (TrimSpace s) = TrimSpace s"
proof -
  let ?l = "trim_left space_runes s" and ?r = "map rev space_runes"
  obtain q where q: "rev ?l = q @ trim_left ?r (rev ?l)" using trim_left_suffix by blast
  then have "?l = TrimSpace s @ rev q" unfolding TrimSpace_def by (metis rev_append rev_rev_ident)
  then have "starts_with_space space_runes (TrimSpace s) = None"
    using starts_with_space_prefix [of space_runes "TrimSpace s" "rev q"]
      trim_left_done [of space_runes s] by metis
  then have "trim_left space_runes (TrimSpace s) = TrimSpace s" by (rule trim_left_fixed)
  moreover have "trim_left ?r (rev (TrimSpace s)) = rev (TrimSpace s)"
    by (simp add: TrimSpace_def trim_left_fixed trim_left_done)
  ultimately show ?thesis by (simp add: TrimSpace_def [of "TrimSpace s"])
qed

text \<open>A text whose first and last bytes are ASCII and not white space is trimmed already.\<close>

definition plain_char :: "char \<Rightarrow> bool" where
  "plain_char c \<longleftrightarrow> (of_char c :: nat) < 128 \<and> (of_char c :: nat) \<notin> {9, 10, 11, 12, 13, 32}"

lemma starts_with_space_plain:
  assumes "\<forall>w \<in> set ws. w \<noteq> [] \<longrightarrow> \<not> plain_char (hd w)" and "s \<noteq> []" and "plain_char (hd s)"
  shows "starts_with_space ws s = None"
proof -
  have "\<not> (take (length w) s = w \<and> w \<noteq> [])" if "w \<in> set ws" for w
  proof
    assume w: "take (length w) s = w \<and> w \<noteq> []"
    then have "hd w = hd s" using assms(2) by (metis hd_take length_greater_0_conv)
    with assms(1,3) that w show False by auto
  qed
  then show ?thesis by (simp add: starts_with_space_def find_None_iff)
qed

lemma TrimSpace_plain:
  assumes "s \<noteq> []" and "plain_char (hd s)" and "plain_char (last s)"
  shows "TrimSpace s = s"
proof -
  have "\<forall>w \<in> set space_runes. w \<noteq> [] \<longrightarrow> \<not> plain_char (hd w)"
    by (simp add: space_runes_def plain_char_def of_char_of)
  then have "starts_with_space space_runes s = None" using assms(1,2) by (rule starts_with_space_plain)
  moreover have "\<forall>w \<in> set (map rev space_runes). w \<noteq> [] \<longrightarrow> \<not> plain_char (hd w)"
    by (simp add: space_runes_def plain_char_def of_char_of)
  then have "starts_with_space (map rev space_runes) (rev s) = None"
    using assms(1,3) by (intro starts_with_space_plain) (simp_all add: hd_rev)
  ultimately show ?thesis by (simp add: TrimSpace_def trim_left_fixed)
qed

text \<open>Trimming removes nothing but white space.\<close>

lemma trim_left_keeps:
  "\<forall>w \<in> set ws. c \<notin> set w \<Longrightarrow> c \<in> set (trim_left ws s) \<longleftrightarrow> c \<in> set s"
proof (induction ws s rule: trim_left.induct)
  case (1 ws s)
  show ?case
  proof (cases "starts_with_space ws s")
    case None
    then show ?thesis by (simp add: trim_left_fixed)
  next
    case (Some w)
    then have w: "w \<in> set ws" "take (length w) s = w" by (auto simp: starts_with_space_def dest: find_SomeD)
    have "set s = set w \<union> set (drop (length w) s)" by (metis append_take_drop_id set_append w(2))
    with w(1) 1 Some show ?thesis by (simp add: trim_left.simps [of ws s])
  qed
qed

lemma TrimSpace_keeps:
  assumes "\<forall>w \<in> set space_runes. c \<notin> set w"
  shows "c \<in> set (TrimSpace s) \<longleftrightarrow> c \<in> set s"
  using assms by (simp add: TrimSpace_def trim_left_keeps)

subsection \<open>\<open>strings.ToLower\<close>\<close>

text \<open>
  An ASCII string is lowered byte by byte; any other goes through the Unicode case tables,
  which are data of the standard library and a parameter \<open>uni\<close> here. \<open>lower\<close> of the database is
  the same function with the tables of its collation.
\<close>

definition is_ascii :: "string \<Rightarrow> bool" where
  "is_ascii s \<longleftrightarrow> (\<forall>c \<in> set s. of_char c < (128 :: nat))"

definition ascii_lower :: "char \<Rightarrow> char" where
  "ascii_lower c = (if 65 \<le> (of_char c :: nat) \<and> (of_char c :: nat) \<le> 90 then char_of (of_char c + 32 :: nat) else c)"

definition ToLower :: "(string \<Rightarrow> string) \<Rightarrow> string \<Rightarrow> string" where
  "ToLower uni s = (if is_ascii s then map ascii_lower s else uni s)"

lemma ascii_lower_code:
  "(of_char (ascii_lower c) :: nat) =
     (if 65 \<le> (of_char c :: nat) \<and> (of_char c :: nat) \<le> 90 then of_char c + 32 else of_char c)"
  by (simp add: ascii_lower_def of_char_of)

lemma ascii_lower_idem: "ascii_lower (ascii_lower c) = ascii_lower c"
proof -
  have "\<not> (65 \<le> (of_char (ascii_lower c) :: nat) \<and> (of_char (ascii_lower c) :: nat) \<le> 90)"
    unfolding ascii_lower_code by auto
  then show ?thesis unfolding ascii_lower_def [of "ascii_lower c"] by auto
qed

lemma is_ascii_lower: "is_ascii s \<Longrightarrow> is_ascii (map ascii_lower s)"
  by (fastforce simp: is_ascii_def ascii_lower_code)

lemma ToLower_idem:
  assumes "\<And>s. ToLower uni (uni s) = uni s"
  shows "ToLower uni (ToLower uni s) = ToLower uni s"
  using assms is_ascii_lower by (simp add: ToLower_def ascii_lower_idem o_def)

end
