(* ===== verification/CoinRepo.thy ===== *)
theory CoinRepo
  imports CoinModel GoStrings "HOL-Library.Product_Lexorder"
begin

text \<open>
  The ledger repository (\<open>internal/coin/repository.go\<close>) over the two tables of migration
  \<open>000019\<close>: the wallets, keyed by realm and owner, and the append-only ledger in insertion
  order with each row's idempotency key. Every statement is a function on the tables that
  checks the constraints of the migration; \<open>post\<close> and \<open>reverse\<close> are the transactions of the
  code, branch by branch. Identifiers drawn by \<open>uuid.New()\<close> are arguments.
\<close>

record wallet_row =
  wr_balance :: int
  wr_version :: int

record ledger_row =
  lr_entry :: ledger_entry
  lr_idem :: "string option"

record coin_db =
  coin_wallet :: "(realm \<times> uuid) \<rightharpoonup> wallet_row"
  coin_ledger :: "ledger_row list"

subsection \<open>Statements\<close>

definition in_bigint :: "int \<Rightarrow> bool" where
  "in_bigint i \<longleftrightarrow> min_int64 \<le> i \<and> i \<le> max_int64"

definition sql_ensure_wallet :: "realm \<Rightarrow> uuid \<Rightarrow> coin_db \<Rightarrow> sqlerr + unit \<times> coin_db" where
  "sql_ensure_wallet r ow d =
     (if \<not> realm_valid r then Inl (CheckViolation ''coin_wallet_owner_realm_check'')
      else case coin_wallet d (r, ow) of
        Some _ \<Rightarrow> Inr ((), d)
      | None \<Rightarrow> Inr ((), d\<lparr>coin_wallet := (coin_wallet d)((r, ow) \<mapsto> \<lparr>wr_balance = 0, wr_version = 0\<rparr>)\<rparr>))"

text \<open>
  The conditional update: \<open>balance + $3\<close> is computed in \<open>BIGINT\<close>, where overflow is an
  error; a row that fails \<open>balance + $3 >= 0\<close> is not updated and \<open>RETURNING\<close> has no row.
\<close>

definition sql_apply_delta ::
  "realm \<Rightarrow> uuid \<Rightarrow> int64 \<Rightarrow> coin_db \<Rightarrow> sqlerr + int \<times> coin_db" where
  "sql_apply_delta r ow delta d =
     (case coin_wallet d (r, ow) of
        None \<Rightarrow> Inl NoRows
      | Some wr \<Rightarrow>
          (let nb = wr_balance wr + sint delta in
           if \<not> in_bigint nb then Inl NumericOutOfRange
           else if nb < 0 then Inl NoRows
           else if \<not> in_bigint (wr_version wr + 1) then Inl NumericOutOfRange
           else Inr (nb, d\<lparr>coin_wallet := (coin_wallet d)((r, ow) \<mapsto>
                             \<lparr>wr_balance = nb, wr_version = wr_version wr + 1\<rparr>)\<rparr>)))"

definition ledger_ids :: "coin_db \<Rightarrow> uuid list" where
  "ledger_ids d = map (le_id \<circ> lr_entry) (coin_ledger d)"

definition reversed_ids :: "coin_db \<Rightarrow> uuid list" where
  "reversed_ids d = List.map_filter (le_reversal_of \<circ> lr_entry) (coin_ledger d)"

definition idem_keys :: "coin_db \<Rightarrow> string list" where
  "idem_keys d = List.map_filter lr_idem (coin_ledger d)"

text \<open>
  \<open>INSERT INTO coin_ledger\<close>: the row's checks, then the unique indexes in the order of their
  creation, then the foreign key of \<open>reversal_of\<close>. \<open>created_at\<close> is the server's clock.
\<close>

definition sql_insert_ledger ::
  "ledger_entry \<Rightarrow> string option \<Rightarrow> time \<Rightarrow> coin_db \<Rightarrow> sqlerr + time \<times> coin_db" where
  "sql_insert_ledger e idem now d =
     (if le_amount e = 0 then Inl (CheckViolation ''coin_ledger_amount_check'')
      else if \<not> realm_valid (le_realm e) then Inl (CheckViolation ''coin_ledger_owner_realm_check'')
      else if le_id e \<in> set (ledger_ids d) then Inl (UniqueViolation ''coin_ledger_pkey'')
      else if (\<exists>k. idem = Some k \<and> k \<in> set (idem_keys d))
        then Inl (UniqueViolation ''coin_ledger_idem_uniq'')
      else if (\<exists>i. le_reversal_of e = Some i \<and> i \<in> set (reversed_ids d))
        then Inl (UniqueViolation ''coin_ledger_reversal_uniq'')
      else if (\<exists>i. le_reversal_of e = Some i \<and> i \<notin> set (ledger_ids d) \<and> i \<noteq> le_id e)
        then Inl (ForeignKeyViolation ''coin_ledger_reversal_of_fkey'')
      else Inr (now, d\<lparr>coin_ledger := coin_ledger d @
                  [\<lparr>lr_entry = e\<lparr>le_created_at := now\<rparr>, lr_idem = idem\<rparr>]\<rparr>))"

definition sql_by_idem :: "string \<Rightarrow> coin_db \<Rightarrow> sqlerr + ledger_entry" where
  "sql_by_idem k d =
     (case find (\<lambda>r. lr_idem r = Some k) (coin_ledger d) of
        None \<Rightarrow> Inl NoRows | Some r \<Rightarrow> Inr (lr_entry r))"

definition sql_by_id :: "uuid \<Rightarrow> coin_db \<Rightarrow> sqlerr + ledger_entry" where
  "sql_by_id i d =
     (case find (\<lambda>r. le_id (lr_entry r) = i) (coin_ledger d) of
        None \<Rightarrow> Inl NoRows | Some r \<Rightarrow> Inr (lr_entry r))"

definition sql_is_reversed :: "uuid \<Rightarrow> coin_db \<Rightarrow> sqlerr + bool" where
  "sql_is_reversed i d = Inr (i \<in> set (reversed_ids d))"

subsection \<open>Helpers of the transactions\<close>

definition applyDeltaTx ::
  "realm \<Rightarrow> uuid \<Rightarrow> int64 \<Rightarrow> coin_db pgs \<Rightarrow> (coin_err + int64) \<times> coin_db pgs" where
  "applyDeltaTx r ow delta w =
     (case pg_stmt (sql_ensure_wallet r ow) w of
        (Inl e, w1) \<Rightarrow> (Inl (CoinSql ''ensure wallet'' e), w1)
      | (Inr _, w1) \<Rightarrow>
          (case pg_stmt (sql_apply_delta r ow delta) w1 of
             (Inl e, w2) \<Rightarrow>
               (Inl (if e = NoRows then ErrInsufficientBalance else CoinSql ''apply delta'' e), w2)
           | (Inr b, w2) \<Rightarrow> (Inr (word_of_int b), w2)))"

definition insertLedgerTx ::
  "ledger_entry \<Rightarrow> string option \<Rightarrow> coin_db pgs \<Rightarrow> (coin_err + ledger_entry) \<times> coin_db pgs" where
  "insertLedgerTx e idem w =
     (case pg_stmt (sql_insert_ledger e idem (pg_now w)) w of
        (Inl er, w1) \<Rightarrow> (Inl (CoinSql ''insert ledger'' er), w1)
      | (Inr t, w1) \<Rightarrow> (Inr (e\<lparr>le_created_at := t\<rparr>), w1))"

fun isUniqueViolation :: "coin_err \<Rightarrow> string \<Rightarrow> bool" where
  "isUniqueViolation (CoinSql _ (UniqueViolation c)) frag = contains_sub c frag"
| "isUniqueViolation _ _ = False"

subsection \<open>Post\<close>

text \<open>
  A body that lost the idempotency race asks for a rollback and a second look
  (\<open>PostRace\<close>); any other failure is returned (\<open>PostFail\<close>).
\<close>

datatype post_exit = PostFail coin_err | PostRace string

definition post_book ::
  "ledger_entry \<Rightarrow> string option \<Rightarrow> uuid \<Rightarrow> coin_db pgs \<Rightarrow> (post_exit + ledger_entry) \<times> coin_db pgs" where
  "post_book e idem nid w =
     (case applyDeltaTx (le_realm e) (le_owner e) (le_amount e) w of
        (Inl er, w1) \<Rightarrow> (Inl (PostFail er), w1)
      | (Inr bal, w1) \<Rightarrow>
          (case insertLedgerTx (e\<lparr>le_id := nid, le_balance_after := bal\<rparr>) idem w1 of
             (Inl er, w2) \<Rightarrow>
               (Inl (case idem of
                       Some k \<Rightarrow> if isUniqueViolation er ''idem'' then PostRace k else PostFail er
                     | None \<Rightarrow> PostFail er), w2)
           | (Inr e', w2) \<Rightarrow> (Inr e', w2)))"

definition post_body ::
  "ledger_entry \<Rightarrow> string option \<Rightarrow> uuid \<Rightarrow> coin_db pgs \<Rightarrow> (post_exit + ledger_entry) \<times> coin_db pgs" where
  "post_body e idem nid w =
     (case idem of
        None \<Rightarrow> post_book e idem nid w
      | Some k \<Rightarrow>
          (case pg_query (sql_by_idem k) w of
             (Inr old, w1) \<Rightarrow> (Inr old, w1)
           | (Inl er, w1) \<Rightarrow>
               (if er = NoRows then post_book e idem nid w1
                else (Inl (PostFail (CoinSql [] er)), w1))))"

definition getByIdem :: "string \<Rightarrow> coin_db pgs \<Rightarrow> (coin_err + ledger_entry) \<times> coin_db pgs" where
  "getByIdem k w =
     (case pg_query (sql_by_idem k) w of
        (Inl er, w1) \<Rightarrow> (Inl (CoinSql [] er), w1)
      | (Inr e, w1) \<Rightarrow> (Inr e, w1))"

definition repo_post ::
  "uuid \<Rightarrow> ledger_entry \<Rightarrow> string option \<Rightarrow> coin_db pgs \<Rightarrow> (coin_err + ledger_entry) \<times> coin_db pgs" where
  "repo_post nid e idem w =
     (case pg_tx (PostFail (CoinSql ''begin tx'' ConnLost)) (PostFail (CoinSql ''commit tx'' ConnLost))
             (post_body e idem nid) w of
        (Inr x, w1) \<Rightarrow> (Inr x, w1)
      | (Inl (PostFail er), w1) \<Rightarrow> (Inl er, w1)
      | (Inl (PostRace k), w1) \<Rightarrow> getByIdem k w1)"

subsection \<open>Reverse\<close>

text \<open>The note of a reversal: the UTF-8 bytes of its two-character Chinese prefix, then the id.\<close>

definition reversal_note :: "(uuid \<Rightarrow> string) \<Rightarrow> uuid \<Rightarrow> string" where
  "reversal_note show_id i =
     [CHR 0xE7, CHR 0xBA, CHR 0xA2, CHR 0xE5, CHR 0x86, CHR 0xB2] @ '' #'' @ show_id i"

definition reverse_book ::
  "(uuid \<Rightarrow> string) \<Rightarrow> uuid \<Rightarrow> uuid \<Rightarrow> uuid \<Rightarrow> ledger_entry \<Rightarrow> coin_db pgs
    \<Rightarrow> (coin_err + ledger_entry) \<times> coin_db pgs" where
  "reverse_book show_id nid lid by_id orig w =
     (case applyDeltaTx (le_realm orig) (le_owner orig) (- le_amount orig) w of
        (Inl er, w1) \<Rightarrow> (Inl er, w1)
      | (Inr bal, w1) \<Rightarrow>
          (case insertLedgerTx
                  \<lparr>le_id = nid, le_realm = le_realm orig, le_owner = le_owner orig,
                   le_amount = - le_amount orig, le_balance_after = bal, le_biz = le_biz orig,
                   le_note = reversal_note show_id lid, le_reversal_of = Some lid,
                   le_created_by = Some by_id, le_created_at = 0\<rparr> None w1 of
             (Inl er, w2) \<Rightarrow>
               (Inl (if isUniqueViolation er ''reversal'' then ErrAlreadyReversed else er), w2)
           | (Inr rv, w2) \<Rightarrow> (Inr rv, w2)))"

definition reverse_body ::
  "(uuid \<Rightarrow> string) \<Rightarrow> uuid \<Rightarrow> uuid \<Rightarrow> uuid \<Rightarrow> coin_db pgs
    \<Rightarrow> (coin_err + ledger_entry) \<times> coin_db pgs" where
  "reverse_body show_id nid lid by_id w =
     (case pg_query (sql_by_id lid) w of
        (Inl er, w1) \<Rightarrow>
          (Inl (if er = NoRows then ErrLedgerNotFound else CoinSql ''load original'' er), w1)
      | (Inr orig, w1) \<Rightarrow>
          (if le_reversal_of orig \<noteq> None then (Inl ErrCannotReverseReversal, w1)
           else case pg_query (sql_is_reversed lid) w1 of
             (Inl er, w2) \<Rightarrow> (Inl (CoinSql ''check reversed'' er), w2)
           | (Inr True, w2) \<Rightarrow> (Inl ErrAlreadyReversed, w2)
           | (Inr False, w2) \<Rightarrow> reverse_book show_id nid lid by_id orig w2))"

definition repo_reverse ::
  "(uuid \<Rightarrow> string) \<Rightarrow> uuid \<Rightarrow> uuid \<Rightarrow> uuid \<Rightarrow> coin_db pgs
    \<Rightarrow> (coin_err + ledger_entry) \<times> coin_db pgs" where
  "repo_reverse show_id nid lid by_id w =
     pg_tx (CoinSql ''begin tx'' ConnLost) (CoinSql ''commit tx'' ConnLost)
       (reverse_body show_id nid lid by_id) w"

subsection \<open>Reads\<close>

definition sql_wallet :: "realm \<Rightarrow> uuid \<Rightarrow> coin_db \<Rightarrow> sqlerr + wallet_row" where
  "sql_wallet r ow d = (case coin_wallet d (r, ow) of None \<Rightarrow> Inl NoRows | Some wr \<Rightarrow> Inr wr)"

definition repo_get_wallet ::
  "realm \<Rightarrow> uuid \<Rightarrow> coin_db pgs \<Rightarrow> (coin_err + wallet) \<times> coin_db pgs" where
  "repo_get_wallet r ow w =
     (case pg_query (sql_wallet r ow) w of
        (Inl er, w1) \<Rightarrow>
          (if er = NoRows
           then (Inr \<lparr>w_realm = r, w_owner = ow, w_balance = 0, w_version = 0\<rparr>, w1)
           else (Inl (CoinSql ''query wallet'' er), w1))
      | (Inr wr, w1) \<Rightarrow>
          (Inr \<lparr>w_realm = r, w_owner = ow, w_balance = word_of_int (wr_balance wr),
               w_version = word_of_int (wr_version wr)\<rparr>, w1))"

text \<open>\<open>pageBounds\<close>, in Go's 64-bit \<open>int\<close>: the product wraps around.\<close>

definition pageBounds :: "int64 \<Rightarrow> int64 \<Rightarrow> int64 \<times> int64" where
  "pageBounds page sz =
     (let size1 = (if sint sz \<le> 0 then 20 else sz);
          size2 = (if 100 < sint size1 then 100 else size1);
          page1 = (if sint page \<le> 0 then 1 else page)
      in (size2, (page1 - 1) * size2))"

definition ledger_match :: "realm \<Rightarrow> uuid \<Rightarrow> ledger_filter \<Rightarrow> ledger_entry \<Rightarrow> bool" where
  "ledger_match r ow f e \<longleftrightarrow>
     le_realm e = r \<and> le_owner e = ow \<and>
     (case lf_direction f of
        None \<Rightarrow> True
      | Some DirIncome \<Rightarrow> 0 < sint (le_amount e)
      | Some DirExpense \<Rightarrow> sint (le_amount e) < 0) \<and>
     (case lf_from f of None \<Rightarrow> True | Some t \<Rightarrow> t \<le> le_created_at e) \<and>
     (case lf_to f of None \<Rightarrow> True | Some t \<Rightarrow> le_created_at e \<le> t)"

text \<open>\<open>ORDER BY created_at DESC, id DESC\<close>: identifiers are unique, so the order is total.\<close>

definition ledger_matches :: "realm \<Rightarrow> uuid \<Rightarrow> ledger_filter \<Rightarrow> coin_db \<Rightarrow> ledger_entry list" where
  "ledger_matches r ow f d =
     rev (sort_key (\<lambda>e. (le_created_at e, le_id e))
           (filter (ledger_match r ow f) (map lr_entry (coin_ledger d))))"

definition sql_ledger_page ::
  "realm \<Rightarrow> uuid \<Rightarrow> ledger_filter \<Rightarrow> int64 \<times> int64 \<Rightarrow> coin_db \<Rightarrow> sqlerr + ledger_entry list" where
  "sql_ledger_page r ow f lo d =
     (if sint (snd lo) < 0 then Inl InvalidOffset
      else Inr (sql_page (nat (sint (fst lo))) (nat (sint (snd lo))) (ledger_matches r ow f d)))"

definition repo_list_by_owner ::
  "realm \<Rightarrow> uuid \<Rightarrow> ledger_filter \<Rightarrow> coin_db pgs
    \<Rightarrow> (coin_err + ledger_entry list \<times> nat) \<times> coin_db pgs" where
  "repo_list_by_owner r ow f w =
     (case pg_query (\<lambda>d. Inr (length (filter (ledger_match r ow f) (map lr_entry (coin_ledger d))))) w of
        (Inl er, w1) \<Rightarrow> (Inl (CoinSql ''count ledger'' er), w1)
      | (Inr cnt, w1) \<Rightarrow>
          (case pg_query (sql_ledger_page r ow f (pageBounds (lf_page f) (lf_size f))) w1 of
             (Inl er, w2) \<Rightarrow> (Inl (CoinSql ''query ledger'' er), w2)
           | (Inr out, w2) \<Rightarrow> (Inr (out, cnt), w2)))"

end
