(* ===== verification/CoinInv.thy ===== *)
theory CoinInv
  imports CoinRepo
begin

text \<open>
  What the coin tables promise. \<open>coin_inv\<close> says that the wallets are exactly what the ledger
  adds up to, never negative, and that the ledger's own links are sound; \<open>booked\<close> is the
  abstract effect of one booking. Every transaction of \<open>CoinRepo\<close> either changes nothing or
  books one entry, and booking keeps the invariant.
\<close>

named_theorems coin_defs \<open>unfolding of the coin transactions\<close>

declare sql_ensure_wallet_def [coin_defs] sql_apply_delta_def [coin_defs]
  sql_insert_ledger_def [coin_defs] applyDeltaTx_def [coin_defs] insertLedgerTx_def [coin_defs]
  post_book_def [coin_defs] post_body_def [coin_defs] reverse_book_def [coin_defs]
  reverse_body_def [coin_defs]

subsection \<open>Vocabulary\<close>

definition owner_key :: "ledger_entry \<Rightarrow> realm \<times> uuid" where
  "owner_key e = (le_realm e, le_owner e)"

text \<open>What the ledger says an owner holds.\<close>

definition ledger_sum :: "realm \<times> uuid \<Rightarrow> ledger_row list \<Rightarrow> int" where
  "ledger_sum k rows =
     sum_list (map (sint \<circ> le_amount) (filter (\<lambda>e. owner_key e = k) (map lr_entry rows)))"

definition owner_count :: "realm \<times> uuid \<Rightarrow> ledger_row list \<Rightarrow> nat" where
  "owner_count k rows = length (filter (\<lambda>e. owner_key e = k) (map lr_entry rows))"

definition wallet_balance :: "coin_db \<Rightarrow> realm \<times> uuid \<Rightarrow> int" where
  "wallet_balance d k = (case coin_wallet d k of None \<Rightarrow> 0 | Some wr \<Rightarrow> wr_balance wr)"

definition wallet_version :: "coin_db \<Rightarrow> realm \<times> uuid \<Rightarrow> int" where
  "wallet_version d k = (case coin_wallet d k of None \<Rightarrow> 0 | Some wr \<Rightarrow> wr_version wr)"

text \<open>The entry \<open>e\<close> with idempotency key \<open>idem\<close> has been booked on top of \<open>d\<close>.\<close>

definition booked :: "coin_db \<Rightarrow> ledger_entry \<Rightarrow> string option \<Rightarrow> coin_db \<Rightarrow> bool" where
  "booked d e idem d' \<longleftrightarrow>
     (let nb = wallet_balance d (owner_key e) + sint (le_amount e) in
      0 \<le> nb \<and> nb \<le> max_int64 \<and> le_amount e \<noteq> 0 \<and> realm_valid (le_realm e) \<and>
      sint (le_balance_after e) = nb \<and>
      le_id e \<notin> set (ledger_ids d) \<and>
      (\<forall>k. idem = Some k \<longrightarrow> k \<notin> set (idem_keys d)) \<and>
      (\<forall>i. le_reversal_of e = Some i \<longrightarrow> i \<notin> set (reversed_ids d)) \<and>
      coin_ledger d' = coin_ledger d @ [\<lparr>lr_entry = e, lr_idem = idem\<rparr>] \<and>
      coin_wallet d' = (coin_wallet d)(owner_key e \<mapsto>
        \<lparr>wr_balance = nb, wr_version = wallet_version d (owner_key e) + 1\<rparr>))"

definition chain_ok :: "ledger_row list \<Rightarrow> bool" where
  "chain_ok rows \<longleftrightarrow>
     (\<forall>i < length rows. sint (le_balance_after (lr_entry (rows ! i))) =
        ledger_sum (owner_key (lr_entry (rows ! i))) (take (Suc i) rows))"

definition reverses :: "ledger_entry \<Rightarrow> ledger_entry \<Rightarrow> bool" where
  "reverses rv orig \<longleftrightarrow>
     le_reversal_of rv = Some (le_id orig) \<and> le_reversal_of orig = None \<and>
     owner_key rv = owner_key orig \<and> le_biz rv = le_biz orig \<and>
     sint (le_amount rv) = - sint (le_amount orig)"

definition wallets_ok :: "coin_db \<Rightarrow> bool" where
  "wallets_ok d \<longleftrightarrow>
     (\<forall>k. wallet_balance d k = ledger_sum k (coin_ledger d) \<and>
          0 \<le> wallet_balance d k \<and> wallet_balance d k \<le> max_int64 \<and>
          wallet_version d k = int (owner_count k (coin_ledger d)))"

definition entries_ok :: "coin_db \<Rightarrow> bool" where
  "entries_ok d \<longleftrightarrow>
     (\<forall>r \<in> set (coin_ledger d).
        le_amount (lr_entry r) \<noteq> 0 \<and> sint (le_amount (lr_entry r)) \<noteq> min_int64 \<and>
        realm_valid (le_realm (lr_entry r)) \<and>
        (le_reversal_of (lr_entry r) \<noteq> None \<longrightarrow>
           (\<exists>o' \<in> set (coin_ledger d). reverses (lr_entry r) (lr_entry o'))))"

definition coin_inv :: "coin_db \<Rightarrow> bool" where
  "coin_inv d \<longleftrightarrow>
     wallets_ok d \<and> entries_ok d \<and> chain_ok (coin_ledger d) \<and>
     distinct (ledger_ids d) \<and> distinct (reversed_ids d) \<and> distinct (idem_keys d)"

definition empty_coin_db :: coin_db where
  "empty_coin_db = \<lparr>coin_wallet = Map.empty, coin_ledger = []\<rparr>"

subsection \<open>Appending one row\<close>

lemma ledger_sum_snoc:
  "ledger_sum k (rows @ [r]) =
     ledger_sum k rows + (if owner_key (lr_entry r) = k then sint (le_amount (lr_entry r)) else 0)"
  by (simp add: ledger_sum_def)

lemma owner_count_snoc:
  "owner_count k (rows @ [r]) =
     owner_count k rows + (if owner_key (lr_entry r) = k then 1 else 0)"
  by (simp add: owner_count_def)

lemma chain_ok_snoc:
  "chain_ok (rows @ [r]) \<longleftrightarrow> chain_ok rows \<and>
     sint (le_balance_after (lr_entry r)) = ledger_sum (owner_key (lr_entry r)) (rows @ [r])"
proof
  assume a: "chain_ok (rows @ [r])"
  show "chain_ok rows \<and>
     sint (le_balance_after (lr_entry r)) = ledger_sum (owner_key (lr_entry r)) (rows @ [r])"
  proof
    show "chain_ok rows"
      unfolding chain_ok_def
    proof (intro allI impI)
      fix i assume i: "i < length rows"
      then have "i < length (rows @ [r])" by simp
      with a have "sint (le_balance_after (lr_entry ((rows @ [r]) ! i))) =
        ledger_sum (owner_key (lr_entry ((rows @ [r]) ! i))) (take (Suc i) (rows @ [r]))"
        unfolding chain_ok_def by blast
      with i show "sint (le_balance_after (lr_entry (rows ! i))) =
        ledger_sum (owner_key (lr_entry (rows ! i))) (take (Suc i) rows)"
        by (simp add: nth_append)
    qed
    from a show "sint (le_balance_after (lr_entry r)) = ledger_sum (owner_key (lr_entry r)) (rows @ [r])"
      unfolding chain_ok_def by (auto dest: spec [of _ "length rows"])
  qed
next
  assume "chain_ok rows \<and>
     sint (le_balance_after (lr_entry r)) = ledger_sum (owner_key (lr_entry r)) (rows @ [r])"
  then show "chain_ok (rows @ [r])"
    by (auto simp: chain_ok_def nth_append less_Suc_eq)
qed

lemma booked_lists:
  assumes "booked d e idem d'"
  shows "ledger_ids d' = ledger_ids d @ [le_id e]"
    and "reversed_ids d' = reversed_ids d @ (case le_reversal_of e of None \<Rightarrow> [] | Some i \<Rightarrow> [i])"
    and "idem_keys d' = idem_keys d @ (case idem of None \<Rightarrow> [] | Some k \<Rightarrow> [k])"
  using assms
  by (auto simp: booked_def Let_def ledger_ids_def reversed_ids_def idem_keys_def
      List.map_filter_def split: option.splits)

subsection \<open>Booking keeps the invariant\<close>

lemma wallets_okD:
  assumes "wallets_ok d"
  shows "wallet_balance d k = ledger_sum k (coin_ledger d)"
    and "0 \<le> wallet_balance d k" and "wallet_balance d k \<le> max_int64"
    and "wallet_version d k = int (owner_count k (coin_ledger d))"
  using assms unfolding wallets_ok_def by blast+

lemma booked_wallet:
  assumes "booked d e idem d'"
  shows "wallet_balance d' k = wallet_balance d k + (if owner_key e = k then sint (le_amount e) else 0)"
    and "wallet_version d' k = wallet_version d k + (if owner_key e = k then 1 else 0)"
    and "coin_ledger d' = coin_ledger d @ [\<lparr>lr_entry = e, lr_idem = idem\<rparr>]"
    and "sint (le_balance_after e) = wallet_balance d' (owner_key e)"
    and "0 \<le> wallet_balance d' (owner_key e)" and "wallet_balance d' (owner_key e) \<le> max_int64"
  using assms
  by (auto simp: booked_def Let_def wallet_balance_def wallet_version_def split: option.splits)

lemma booked_wallets_ok:
  assumes "wallets_ok d" and "booked d e idem d'"
  shows "wallets_ok d'"
  unfolding wallets_ok_def
proof
  fix k
  note w = wallets_okD [OF assms(1), of k] and b = booked_wallet [OF assms(2)]
  have "0 \<le> wallet_balance d' k \<and> wallet_balance d' k \<le> max_int64"
    using w(2,3) b(1) [of k] b(5,6) by (cases "owner_key e = k") auto
  moreover have "wallet_balance d' k = ledger_sum k (coin_ledger d')"
    using w(1) b(1) [of k] by (simp add: b(3) ledger_sum_snoc)
  moreover have "wallet_version d' k = int (owner_count k (coin_ledger d'))"
    using w(4) b(2) [of k] by (simp add: b(3) owner_count_snoc)
  ultimately show "wallet_balance d' k = ledger_sum k (coin_ledger d') \<and> 0 \<le> wallet_balance d' k \<and>
    wallet_balance d' k \<le> max_int64 \<and> wallet_version d' k = int (owner_count k (coin_ledger d'))"
    by blast
qed

text \<open>An entry that may be booked: not the one amount without a negation, and a sound link.\<close>

definition bookable :: "coin_db \<Rightarrow> ledger_entry \<Rightarrow> bool" where
  "bookable d e \<longleftrightarrow>
     sint (le_amount e) \<noteq> min_int64 \<and>
     (le_reversal_of e \<noteq> None \<longrightarrow> (\<exists>o' \<in> set (coin_ledger d). reverses e (lr_entry o')))"

lemma booked_entries_ok:
  assumes "entries_ok d" and "booked d e idem d'" and "bookable d e"
  shows "entries_ok d'"
  using assms by (fastforce simp: entries_ok_def booked_def Let_def bookable_def)

lemma booked_chain_ok:
  assumes "chain_ok (coin_ledger d)" and "wallets_ok d" and "booked d e idem d'"
  shows "chain_ok (coin_ledger d')"
  using assms(1) booked_wallet(3,4) [OF assms(3)]
    wallets_okD(1) [OF booked_wallets_ok [OF assms(2,3)], of "owner_key e"]
  by (simp add: chain_ok_snoc)

lemma booked_inv:
  assumes "coin_inv d" and "booked d e idem d'" and "bookable d e"
  shows "coin_inv d'"
proof -
  have "distinct (ledger_ids d') \<and> distinct (reversed_ids d') \<and> distinct (idem_keys d')"
    using assms(1,2) booked_lists [OF assms(2)]
    by (auto simp: coin_inv_def booked_def Let_def split: option.splits)
  then show ?thesis
    using assms booked_wallets_ok booked_entries_ok booked_chain_ok
    unfolding coin_inv_def by blast
qed

lemma coin_inv_empty: "coin_inv empty_coin_db"
  by (simp add: coin_inv_def empty_coin_db_def wallets_ok_def entries_ok_def chain_ok_def
      wallet_balance_def wallet_version_def ledger_sum_def owner_count_def ledger_ids_def
      reversed_ids_def idem_keys_def List.map_filter_def)

subsection \<open>The transactions book one entry or change nothing\<close>

lemma applyDeltaTx_Inr:
  assumes "applyDeltaTx r ow delta w = (Inr bal, w1)"
  defines "nb \<equiv> wallet_balance (tables w) (r, ow) + sint delta"
  shows "0 \<le> nb \<and> nb \<le> max_int64 \<and> realm_valid r \<and> sint bal = nb \<and>
    tables w1 = (tables w)\<lparr>coin_wallet := (coin_wallet (tables w))((r, ow) \<mapsto>
       \<lparr>wr_balance = nb, wr_version = wallet_version (tables w) (r, ow) + 1\<rparr>)\<rparr> \<and>
    pg_now w1 = pg_now w"
  using assms
  by (auto simp: applyDeltaTx_def pg_stmt_Inr sql_ensure_wallet_def sql_apply_delta_def Let_def
      wallet_balance_def wallet_version_def in_bigint_def sint64_add_word_of_int
      split: prod.splits sum.splits if_splits option.splits)

lemma insertLedgerTx_Inr:
  assumes "insertLedgerTx e idem w = (Inr x, w1)"
  shows "x = e\<lparr>le_created_at := pg_now w\<rparr> \<and> pg_now w1 = pg_now w \<and>
    le_amount e \<noteq> 0 \<and> le_id e \<notin> set (ledger_ids (tables w)) \<and>
    (\<forall>k. idem = Some k \<longrightarrow> k \<notin> set (idem_keys (tables w))) \<and>
    (\<forall>i. le_reversal_of e = Some i \<longrightarrow> i \<notin> set (reversed_ids (tables w))) \<and>
    tables w1 = (tables w)\<lparr>coin_ledger := coin_ledger (tables w) @ [\<lparr>lr_entry = x, lr_idem = idem\<rparr>]\<rparr>"
  using assms
  by (auto simp: insertLedgerTx_def pg_stmt_Inr sql_insert_ledger_def
      split: prod.splits sum.splits if_splits)

lemma book_booked:
  assumes "applyDeltaTx (le_realm e) (le_owner e) (le_amount e) w = (Inr bal, w1)"
    and "insertLedgerTx e idem w1 = (Inr x, w2)" and "le_balance_after e = bal"
  shows "booked (tables w) x idem (tables w2) \<and> x = e\<lparr>le_created_at := pg_now w\<rparr>"
  using applyDeltaTx_Inr [OF assms(1)] insertLedgerTx_Inr [OF assms(2)] assms(3)
  by (auto simp: booked_def Let_def owner_key_def ledger_ids_def reversed_ids_def idem_keys_def)

lemma sql_by_idem_Inr:
  "sql_by_idem k d = Inr x \<Longrightarrow> \<exists>r \<in> set (coin_ledger d). lr_idem r = Some k \<and> lr_entry r = x"
  by (auto simp: sql_by_idem_def dest: find_SomeD split: option.splits)

lemma sql_by_id_Inr:
  "sql_by_id i d = Inr x \<Longrightarrow> \<exists>r \<in> set (coin_ledger d). lr_entry r = x \<and> le_id x = i"
  by (auto simp: sql_by_id_def dest: find_SomeD split: option.splits)

lemma sql_by_id_Inl:
  "sql_by_id i d = Inl e \<Longrightarrow> e = NoRows \<and> i \<notin> set (ledger_ids d)"
  by (auto simp: sql_by_id_def ledger_ids_def dest: find_NoneD split: option.splits)

lemma sql_by_idem_Inl:
  "sql_by_idem k d = Inl e \<Longrightarrow> e = NoRows \<and> k \<notin> set (idem_keys d)"
  by (auto simp: sql_by_idem_def idem_keys_def set_map_filter_iff dest: find_NoneD
      split: option.splits)

text \<open>A row that already carries the key.\<close>

definition replayed :: "coin_db \<Rightarrow> string option \<Rightarrow> ledger_entry \<Rightarrow> bool" where
  "replayed d idem x \<longleftrightarrow>
     (\<exists>k. idem = Some k \<and> (\<exists>r \<in> set (coin_ledger d). lr_idem r = Some k \<and> lr_entry r = x))"

text \<open>The entry a post writes for the request \<open>e\<close>.\<close>

definition posted_as :: "ledger_entry \<Rightarrow> uuid \<Rightarrow> time \<Rightarrow> ledger_entry \<Rightarrow> bool" where
  "posted_as e nid now x \<longleftrightarrow>
     x = e\<lparr>le_id := nid, le_balance_after := le_balance_after x, le_created_at := now\<rparr>"

lemma post_book_Inr:
  assumes "post_book e idem nid w = (Inr x, w1)"
  shows "booked (tables w) x idem (tables w1) \<and> posted_as e nid (pg_now w) x"
proof -
  obtain bal v where a: "applyDeltaTx (le_realm e) (le_owner e) (le_amount e) w = (Inr bal, v)"
    and i: "insertLedgerTx (e\<lparr>le_id := nid, le_balance_after := bal\<rparr>) idem v = (Inr x, w1)"
    using assms by (auto simp: post_book_def split: prod.splits sum.splits)
  from a have "applyDeltaTx (le_realm (e\<lparr>le_id := nid, le_balance_after := bal\<rparr>))
      (le_owner (e\<lparr>le_id := nid, le_balance_after := bal\<rparr>))
      (le_amount (e\<lparr>le_id := nid, le_balance_after := bal\<rparr>)) w = (Inr bal, v)" by simp
  from book_booked [OF this i] show ?thesis by (auto simp: posted_as_def)
qed

lemma post_body_Inr:
  assumes "post_body e idem nid w = (Inr x, w1)"
  shows "(replayed (tables w) idem x \<and> tables w1 = tables w) \<or>
    (booked (tables w) x idem (tables w1) \<and> posted_as e nid (pg_now w) x)"
proof (cases idem)
  case None
  with assms have "post_book e idem nid w = (Inr x, w1)" by (simp add: post_body_def)
  then show ?thesis by (blast dest: post_book_Inr)
next
  case (Some k)
  show ?thesis
  proof (cases "pg_query (sql_by_idem k) w")
    case (Pair r v)
    note v = pg_query_snd [OF Pair]
    show ?thesis
    proof (cases r)
      case (Inr old)
      with assms Some Pair v have "sql_by_idem k (tables w) = Inr x \<and> tables w1 = tables w"
        by (auto simp: post_body_def pg_query_Inr)
      with Some show ?thesis by (auto simp: replayed_def dest: sql_by_idem_Inr)
    next
      case (Inl er)
      with assms Some Pair have "post_book e idem nid v = (Inr x, w1)"
        by (auto simp: post_body_def split: if_splits)
      from post_book_Inr [OF this] v show ?thesis by simp
    qed
  qed
qed

lemma getByIdem_Inr:
  "getByIdem k w = (Inr x, w') \<Longrightarrow> replayed (tables w) (Some k) x \<and> tables w' = tables w"
  by (auto simp: getByIdem_def pg_query_Inr replayed_def dest: sql_by_idem_Inr
      split: prod.splits sum.splits)

lemma getByIdem_tables: "getByIdem k w = (r, w') \<Longrightarrow> tables w' = tables w"
  by (auto simp: getByIdem_def dest: pg_query_snd split: prod.splits sum.splits)

lemma repo_post_Inr:
  assumes "repo_post nid e idem w = (Inr x, w')"
  shows "(replayed (tables w) idem x \<and> tables w' = tables w) \<or>
    (booked (tables w) x idem (tables w') \<and> posted_as e nid (pg_now w) x)"
proof (cases "pg_tx (PostFail (CoinSql ''begin tx'' ConnLost)) (PostFail (CoinSql ''commit tx'' ConnLost))
             (post_body e idem nid) w")
  case (Pair r v)
  show ?thesis
  proof (cases r)
    case (Inr y)
    from pg_tx_Inr [OF Pair [unfolded Inr]]
    obtain w1 where "post_body e idem nid (pop_fate w) = (Inr y, w1)" "v = pop_fate w1" by blast
    with post_body_Inr [of e idem nid "pop_fate w" y w1] assms Pair Inr show ?thesis
      by (auto simp: repo_post_def)
  next
    case (Inl er)
    then obtain k where k: "er = PostRace k" and g: "getByIdem k v = (Inr x, w')"
      using assms Pair by (cases er) (auto simp: repo_post_def)
    from pg_tx_Inl_tables [OF Pair [unfolded Inl]] k have "tables v = tables w" by auto
    moreover have "idem = Some k"
      using Pair Inl k by (auto simp: pg_tx_def post_body_def post_book_def
          split: if_splits prod.splits sum.splits option.splits fate.splits)
    ultimately show ?thesis using getByIdem_Inr [OF g] by simp
  qed
qed

lemma repo_post_Inl:
  assumes "repo_post nid e idem w = (Inl er, w')"
  shows "tables w' = tables w \<or>
    (er = CoinSql ''commit tx'' ConnLost \<and>
     (\<exists>x. booked (tables w) x idem (tables w') \<and> posted_as e nid (pg_now w) x))"
proof (cases "pg_tx (PostFail (CoinSql ''begin tx'' ConnLost)) (PostFail (CoinSql ''commit tx'' ConnLost))
             (post_body e idem nid) w")
  case (Pair r v)
  with assms obtain ex where r: "r = Inl ex"
    by (auto simp: repo_post_def split: sum.splits)
  note t = pg_tx_Inl_tables [OF Pair [unfolded r]]
  show ?thesis
  proof (cases ex)
    case (PostFail er')
    with assms Pair r have "er' = er" "v = w'" by (auto simp: repo_post_def)
    with t PostFail show ?thesis
      using post_body_Inr [of e idem nid "pop_fate w"] by auto
  next
    case (PostRace k)
    with assms Pair r have "getByIdem k v = (Inl er, w')" by (auto simp: repo_post_def)
    then have "tables w' = tables v" by (rule getByIdem_tables)
    with t PostRace show ?thesis by auto
  qed
qed

text \<open>The entry a reversal of \<open>orig\<close> writes.\<close>

definition reversed_as ::
  "(uuid \<Rightarrow> string) \<Rightarrow> uuid \<Rightarrow> uuid \<Rightarrow> uuid \<Rightarrow> time \<Rightarrow> ledger_entry \<Rightarrow> ledger_entry \<Rightarrow> bool" where
  "reversed_as show_id nid lid by_id now orig x \<longleftrightarrow>
     x = \<lparr>le_id = nid, le_realm = le_realm orig, le_owner = le_owner orig,
          le_amount = - le_amount orig, le_balance_after = le_balance_after x,
          le_biz = le_biz orig, le_note = reversal_note show_id lid,
          le_reversal_of = Some lid, le_created_by = Some by_id, le_created_at = now\<rparr>"

definition reversal_booked ::
  "(uuid \<Rightarrow> string) \<Rightarrow> uuid \<Rightarrow> uuid \<Rightarrow> uuid \<Rightarrow> time \<Rightarrow> coin_db \<Rightarrow> ledger_entry \<Rightarrow> coin_db \<Rightarrow> bool" where
  "reversal_booked show_id nid lid by_id now d x d' \<longleftrightarrow>
     booked d x None d' \<and>
     (\<exists>r \<in> set (coin_ledger d).
        le_id (lr_entry r) = lid \<and> le_reversal_of (lr_entry r) = None \<and>
        reversed_as show_id nid lid by_id now (lr_entry r) x)"

lemma reverse_book_Inr:
  assumes "reverse_book show_id nid lid by_id orig w = (Inr x, w1)"
  shows "booked (tables w) x None (tables w1) \<and>
    reversed_as show_id nid lid by_id (pg_now w) orig x"
proof -
  define rv where "rv bal = \<lparr>le_id = nid, le_realm = le_realm orig, le_owner = le_owner orig,
         le_amount = - le_amount orig, le_balance_after = bal, le_biz = le_biz orig,
         le_note = reversal_note show_id lid, le_reversal_of = Some lid,
         le_created_by = Some by_id, le_created_at = 0\<rparr>" for bal
  obtain bal v where a: "applyDeltaTx (le_realm (rv bal)) (le_owner (rv bal)) (le_amount (rv bal)) w = (Inr bal, v)"
    and i: "insertLedgerTx (rv bal) None v = (Inr x, w1)" and b: "le_balance_after (rv bal) = bal"
    using assms by (auto simp: reverse_book_def rv_def split: prod.splits sum.splits)
  from book_booked [OF a i b] show ?thesis by (auto simp: reversed_as_def rv_def)
qed

lemma reverse_body_Inr:
  assumes "reverse_body show_id nid lid by_id w = (Inr x, w1)"
  shows "reversal_booked show_id nid lid by_id (pg_now w) (tables w) x (tables w1)"
proof (cases "pg_query (sql_by_id lid) w")
  case (Pair r v)
  with assms obtain orig where orig: "r = Inr orig"
    by (auto simp: reverse_body_def split: sum.splits)
  with Pair have q: "sql_by_id lid (tables w) = Inr orig" and v: "v = pop_fate w"
    by (auto simp: pg_query_Inr)
  from assms Pair orig have n: "le_reversal_of orig = None"
    by (auto simp: reverse_body_def split: if_splits)
  obtain r2 v2 where p2: "pg_query (sql_is_reversed lid) v = (r2, v2)" by (cases "pg_query (sql_is_reversed lid) v")
  with assms Pair orig n have "reverse_book show_id nid lid by_id orig v2 = (Inr x, w1)"
    by (auto simp: reverse_body_def split: sum.splits bool.splits)
  from reverse_book_Inr [OF this] pg_query_snd [OF p2] v
  have "booked (tables w) x None (tables w1) \<and> reversed_as show_id nid lid by_id (pg_now w) orig x"
    by simp
  with sql_by_id_Inr [OF q] n show ?thesis by (auto simp: reversal_booked_def)
qed

lemma repo_reverse_Inr:
  assumes "repo_reverse show_id nid lid by_id w = (Inr x, w')"
  shows "reversal_booked show_id nid lid by_id (pg_now w) (tables w) x (tables w')"
  using pg_tx_Inr [OF assms [unfolded repo_reverse_def]] reverse_body_Inr
  by (metis pop_fate_simps(1) pop_fate_simps(2))

lemma repo_reverse_Inl:
  assumes "repo_reverse show_id nid lid by_id w = (Inl er, w')"
  shows "tables w' = tables w \<or>
    (er = CoinSql ''commit tx'' ConnLost \<and>
     (\<exists>x. reversal_booked show_id nid lid by_id (pg_now w) (tables w) x (tables w')))"
  using pg_tx_Inl_tables [OF assms [unfolded repo_reverse_def]]
  by (metis pop_fate_simps(1) pop_fate_simps(2) reverse_body_Inr)

lemma reversal_bookable:
  assumes "entries_ok d" and "reversal_booked show_id nid lid by_id now d x d'"
  shows "bookable d x"
proof -
  obtain r where r: "r \<in> set (coin_ledger d)" "le_id (lr_entry r) = lid"
      "le_reversal_of (lr_entry r) = None"
      "reversed_as show_id nid lid by_id now (lr_entry r) x"
    using assms(2) by (auto simp: reversal_booked_def)
  have x: "le_amount x = - le_amount (lr_entry r)" "le_realm x = le_realm (lr_entry r)"
      "le_owner x = le_owner (lr_entry r)" "le_biz x = le_biz (lr_entry r)"
      "le_reversal_of x = Some lid"
    using r(4) unfolding reversed_as_def by (metis ledger_entry.select_convs)+
  from assms(1) r(1) have m: "sint (le_amount (lr_entry r)) \<noteq> min_int64"
    by (simp add: entries_ok_def)
  have s: "sint (le_amount x) = - sint (le_amount (lr_entry r))"
    using sint64_uminus [OF m] x(1) by simp
  have "reverses x (lr_entry r)"
    using x r s by (simp add: reverses_def owner_key_def)
  moreover have "sint (le_amount x) \<noteq> min_int64"
    using s sint64_range [of "le_amount (lr_entry r)"] by linarith
  ultimately show ?thesis using r(1) by (auto simp: bookable_def)
qed

end
