(* ===== verification/CoinService.thy ===== *)
theory CoinService
  imports CoinInv
begin

text \<open>
  The coin service (\<open>internal/coin/service.go\<close>). It validates a request against the registry,
  derives the sign from the direction and delegates to its \<open>Store\<close>. The store is a record of
  operations, as the Go interface value is; \<open>coin_repo\<close> is the repository of \<open>CoinRepo\<close>.
  The locale \<open>coin_store_laws\<close> states what the service relies on: an operation books one
  entry, replays one, or leaves the tables alone. The service's own lemmas are proved there
  once, and \<open>repo\<close> interprets it on the repository.
\<close>

record 's coin_store =
  st_post :: "uuid \<Rightarrow> ledger_entry \<Rightarrow> string option \<Rightarrow> 's \<Rightarrow> (coin_err + ledger_entry) \<times> 's"
  st_reverse :: "uuid \<Rightarrow> uuid \<Rightarrow> uuid \<Rightarrow> 's \<Rightarrow> (coin_err + ledger_entry) \<times> 's"
  st_get_wallet :: "realm \<Rightarrow> uuid \<Rightarrow> 's \<Rightarrow> (coin_err + wallet) \<times> 's"
  st_list_by_owner :: "realm \<Rightarrow> uuid \<Rightarrow> ledger_filter \<Rightarrow> 's
    \<Rightarrow> (coin_err + ledger_entry list \<times> nat) \<times> 's"

record owner =
  ow_realm :: realm
  ow_id :: uuid
  ow_role :: string

definition roleKey :: "owner \<Rightarrow> string" where
  "roleKey ow = ow_realm ow @ '':'' @ ow_role ow"

definition validate :: "owner \<Rightarrow> biz_type \<Rightarrow> int64 \<Rightarrow> coin_err + biz_meta" where
  "validate ow bt magnitude =
     (case bizRegistry bt of
        None \<Rightarrow> Inl (ErrUnknownBizType bt)
      | Some m \<Rightarrow>
          (if roleKey ow \<notin> set (bm_roles m) then Inl (ErrBizTypeNotAllowed bt (roleKey ow))
           else if sint magnitude \<le> 0 then Inl ErrAmountSign
           else Inr m))"

definition signed_amount :: "biz_meta \<Rightarrow> int64 \<Rightarrow> int64" where
  "signed_amount m magnitude = (if bm_dir m = DirExpense then - magnitude else magnitude)"

definition post_request ::
  "owner \<Rightarrow> biz_type \<Rightarrow> int64 \<Rightarrow> string \<Rightarrow> uuid option \<Rightarrow> ledger_entry" where
  "post_request ow bt amount memo by_id =
     \<lparr>le_id = uuid_Nil, le_realm = ow_realm ow, le_owner = ow_id ow, le_amount = amount,
      le_balance_after = 0, le_biz = bt, le_note = memo, le_reversal_of = None,
      le_created_by = by_id, le_created_at = 0\<rparr>"

definition svc_post ::
  "'s coin_store \<Rightarrow> uuid \<Rightarrow> owner \<Rightarrow> biz_type \<Rightarrow> int64 \<Rightarrow> string \<Rightarrow> uuid option \<Rightarrow> string option
    \<Rightarrow> 's \<Rightarrow> (coin_err + ledger_entry) \<times> 's" where
  "svc_post st nid ow bt magnitude memo by_id idem s =
     (case validate ow bt magnitude of
        Inl e \<Rightarrow> (Inl e, s)
      | Inr m \<Rightarrow> st_post st nid (post_request ow bt (signed_amount m magnitude) memo by_id) idem s)"

definition svc_grant ::
  "'s coin_store \<Rightarrow> uuid \<Rightarrow> owner \<Rightarrow> int64 \<Rightarrow> string \<Rightarrow> uuid \<Rightarrow> 's \<Rightarrow> (coin_err + ledger_entry) \<times> 's" where
  "svc_grant st nid ow magnitude memo by_id s =
     svc_post st nid ow BizPlatformGrant magnitude memo (Some by_id) None s"

definition svc_deduct ::
  "'s coin_store \<Rightarrow> uuid \<Rightarrow> owner \<Rightarrow> int64 \<Rightarrow> string \<Rightarrow> uuid \<Rightarrow> 's \<Rightarrow> (coin_err + ledger_entry) \<times> 's" where
  "svc_deduct st nid ow magnitude memo by_id s =
     svc_post st nid ow BizPlatformDeduct magnitude memo (Some by_id) None s"

definition svc_reverse ::
  "'s coin_store \<Rightarrow> uuid \<Rightarrow> uuid \<Rightarrow> uuid \<Rightarrow> 's \<Rightarrow> (coin_err + ledger_entry) \<times> 's" where
  "svc_reverse st nid lid by_id s = st_reverse st nid lid by_id s"

definition svc_balance ::
  "'s coin_store \<Rightarrow> realm \<Rightarrow> uuid \<Rightarrow> 's \<Rightarrow> (coin_err + wallet) \<times> 's" where
  "svc_balance st r ow s = st_get_wallet st r ow s"

definition svc_ledger ::
  "'s coin_store \<Rightarrow> realm \<Rightarrow> uuid \<Rightarrow> ledger_filter \<Rightarrow> 's
    \<Rightarrow> (coin_err + ledger_entry list \<times> nat) \<times> 's" where
  "svc_ledger st r ow f s = st_list_by_owner st r ow f s"

definition coin_repo :: "(uuid \<Rightarrow> string) \<Rightarrow> coin_db pgs coin_store" where
  "coin_repo show_id =
     \<lparr>st_post = repo_post, st_reverse = repo_reverse show_id,
      st_get_wallet = repo_get_wallet, st_list_by_owner = repo_list_by_owner\<rparr>"

subsection \<open>What the service may post\<close>

lemma validate_Inr:
  assumes "validate ow bt magnitude = Inr m"
  shows "bizRegistry bt = Some m" and "roleKey ow \<in> set (bm_roles m)" and "0 < sint magnitude"
  using assms by (auto simp: validate_def split: option.splits if_splits)

lemma signed_amount_sint:
  assumes "0 < sint magnitude"
  shows "sint (signed_amount m magnitude) =
    (if bm_dir m = DirExpense then - sint magnitude else sint magnitude)"
proof -
  have "sint magnitude \<noteq> min_int64" using assms by linarith
  from sint64_uminus [OF this] show ?thesis by (simp add: signed_amount_def)
qed

lemma signed_amount_bookable:
  assumes "0 < sint magnitude"
  shows "bookable d (post_request ow bt (signed_amount m magnitude) memo by_id)"
  using signed_amount_sint [OF assms, of m] assms sint64_range [of magnitude]
  by (auto simp: bookable_def post_request_def)

lemma posted_as_bookable:
  assumes "posted_as e nid now x" and "bookable d e" and "le_reversal_of e = None"
  shows "bookable d x"
proof -
  have "le_amount x = le_amount e" "le_reversal_of x = None"
    using assms(1,3) unfolding posted_as_def by (metis ledger_entry.surjective ledger_entry.update_convs(1,5,10) ledger_entry.select_convs)+
  then show ?thesis using assms(2) by (simp add: bookable_def)
qed

subsection \<open>The contract of the store\<close>

locale coin_store_laws =
  fixes st :: "'s coin_store" and db :: "'s \<Rightarrow> coin_db" and now :: "'s \<Rightarrow> time"
    and show_id :: "uuid \<Rightarrow> string"
  assumes post_Inr: "st_post st nid e idem s = (Inr x, s') \<Longrightarrow>
      (replayed (db s) idem x \<and> db s' = db s) \<or>
      (booked (db s) x idem (db s') \<and> posted_as e nid (now s) x)"
    and post_Inl: "st_post st nid e idem s = (Inl er, s') \<Longrightarrow>
      db s' = db s \<or> (\<exists>x. booked (db s) x idem (db s') \<and> posted_as e nid (now s) x)"
    and reverse_Inr: "st_reverse st nid lid by_id s = (Inr x, s') \<Longrightarrow>
      reversal_booked show_id nid lid by_id (now s) (db s) x (db s')"
    and reverse_Inl: "st_reverse st nid lid by_id s = (Inl er, s') \<Longrightarrow>
      db s' = db s \<or> (\<exists>x. reversal_booked show_id nid lid by_id (now s) (db s) x (db s'))"
    and reads: "db (snd (st_get_wallet st r ow s)) = db s"
      "db (snd (st_list_by_owner st r ow f s)) = db s"
begin

lemma post_effect:
  assumes "st_post st nid e idem s = (r, s')"
  shows "db s' = db s \<or> (\<exists>x. booked (db s) x idem (db s') \<and> posted_as e nid (now s) x)"
  using assms by (cases r) (blast dest: post_Inr post_Inl)+

lemma reverse_effect:
  assumes "st_reverse st nid lid by_id s = (r, s')"
  shows "db s' = db s \<or> (\<exists>x. reversal_booked show_id nid lid by_id (now s) (db s) x (db s'))"
  using assms by (cases r) (blast dest: reverse_Inr reverse_Inl)+

lemma svc_post_effect:
  assumes "svc_post st nid ow bt magnitude memo by_id idem s = (r, s')"
  shows "db s' = db s \<or>
    (\<exists>m x. validate ow bt magnitude = Inr m \<and> booked (db s) x idem (db s') \<and>
       posted_as (post_request ow bt (signed_amount m magnitude) memo by_id) nid (now s) x)"
  using assms by (auto simp: svc_post_def split: sum.splits dest!: post_effect)

lemma svc_post_inv:
  assumes "coin_inv (db s)" and "svc_post st nid ow bt magnitude memo by_id idem s = (r, s')"
  shows "coin_inv (db s')"
  using svc_post_effect [OF assms(2)]
proof
  assume "\<exists>m x. validate ow bt magnitude = Inr m \<and> booked (db s) x idem (db s') \<and>
       posted_as (post_request ow bt (signed_amount m magnitude) memo by_id) nid (now s) x"
  then obtain m x where v: "validate ow bt magnitude = Inr m" and b: "booked (db s) x idem (db s')"
    and p: "posted_as (post_request ow bt (signed_amount m magnitude) memo by_id) nid (now s) x"
    by blast
  have "bookable (db s) x"
    using posted_as_bookable [OF p signed_amount_bookable [OF validate_Inr(3) [OF v]]]
    by (simp add: post_request_def)
  with assms(1) b show ?thesis by (blast intro: booked_inv)
qed (use assms(1) in simp)

lemma svc_reverse_inv:
  assumes "coin_inv (db s)" and "svc_reverse st nid lid by_id s = (r, s')"
  shows "coin_inv (db s')"
  using reverse_effect [OF assms(2) [unfolded svc_reverse_def]]
proof
  assume "\<exists>x. reversal_booked show_id nid lid by_id (now s) (db s) x (db s')"
  then obtain x where x: "reversal_booked show_id nid lid by_id (now s) (db s) x (db s')" by blast
  from assms(1) have "entries_ok (db s)" by (simp add: coin_inv_def)
  from reversal_bookable [OF this x] x show ?thesis
    using booked_inv [OF assms(1)] by (auto simp: reversal_booked_def)
qed (use assms(1) in simp)

lemma svc_post_appends:
  assumes "svc_post st nid ow bt magnitude memo by_id idem s = (r, s')"
  shows "\<exists>more. coin_ledger (db s') = coin_ledger (db s) @ more \<and> length more \<le> 1"
  using svc_post_effect [OF assms] booked_wallet(3) by fastforce

lemma svc_reverse_appends:
  assumes "svc_reverse st nid lid by_id s = (r, s')"
  shows "\<exists>more. coin_ledger (db s') = coin_ledger (db s) @ more \<and> length more \<le> 1"
  using reverse_effect [OF assms [unfolded svc_reverse_def]] booked_wallet(3)
  by (fastforce simp: reversal_booked_def)

end

lemma repo_get_wallet_tables: "tables (snd (repo_get_wallet r ow w)) = tables w"
  by (auto simp: repo_get_wallet_def dest!: pg_query_snd split: prod.splits sum.splits)

lemma repo_list_tables: "tables (snd (repo_list_by_owner r ow f w)) = tables w"
  by (auto simp: repo_list_by_owner_def dest!: pg_query_snd split: prod.splits sum.splits)

interpretation repo: coin_store_laws "coin_repo show_id" tables pg_now show_id for show_id
proof unfold_locales
  fix nid e idem s x s'
  assume "st_post (coin_repo show_id) nid e idem s = (Inr x, s')"
  then show "(replayed (tables s) idem x \<and> tables s' = tables s) \<or>
      (booked (tables s) x idem (tables s') \<and> posted_as e nid (pg_now s) x)"
    by (simp add: coin_repo_def repo_post_Inr)
next
  fix nid e idem s er s'
  assume "st_post (coin_repo show_id) nid e idem s = (Inl er, s')"
  then show "tables s' = tables s \<or>
      (\<exists>x. booked (tables s) x idem (tables s') \<and> posted_as e nid (pg_now s) x)"
    by (auto simp: coin_repo_def dest!: repo_post_Inl)
next
  fix nid lid by_id s x s'
  assume "st_reverse (coin_repo show_id) nid lid by_id s = (Inr x, s')"
  then show "reversal_booked show_id nid lid by_id (pg_now s) (tables s) x (tables s')"
    by (simp add: coin_repo_def repo_reverse_Inr)
next
  fix nid lid by_id s er s'
  assume "st_reverse (coin_repo show_id) nid lid by_id s = (Inl er, s')"
  then show "tables s' = tables s \<or>
      (\<exists>x. reversal_booked show_id nid lid by_id (pg_now s) (tables s) x (tables s'))"
    by (auto simp: coin_repo_def dest!: repo_reverse_Inl)
qed (simp_all add: coin_repo_def repo_get_wallet_tables repo_list_tables)

end
