(* ===== verification/CoinProps.thy ===== *)
theory CoinProps
  imports CoinService
begin

text \<open>
  The properties of the coin component: the ledger is the source of truth in every reachable
  state, a booking is all or nothing, an idempotency key books once, a reversal nets its
  original to zero and happens at most once, and the listing pages cover the ledger.
\<close>

subsection \<open>Reachable states\<close>

text \<open>
  Any number of service calls with any arguments, any fate of any statement, and any
  movement of the server's clock between calls.
\<close>

inductive coin_reach :: "(uuid \<Rightarrow> string) \<Rightarrow> coin_db pgs \<Rightarrow> bool" for show_id where
  start: "coin_reach show_id \<lparr>tables = empty_coin_db, fates = fs, pg_now = t\<rparr>"
| environment: "coin_reach show_id w \<Longrightarrow> coin_reach show_id (w\<lparr>fates := fs, pg_now := t\<rparr>)"
| posting: "coin_reach show_id w \<Longrightarrow>
    svc_post (coin_repo show_id) nid ow bt magnitude memo by_id idem w = (r, w') \<Longrightarrow>
    coin_reach show_id w'"
| granting: "coin_reach show_id w \<Longrightarrow>
    svc_grant (coin_repo show_id) nid ow magnitude memo a w = (r, w') \<Longrightarrow> coin_reach show_id w'"
| deducting: "coin_reach show_id w \<Longrightarrow>
    svc_deduct (coin_repo show_id) nid ow magnitude memo a w = (r, w') \<Longrightarrow> coin_reach show_id w'"
| reversing: "coin_reach show_id w \<Longrightarrow>
    svc_reverse (coin_repo show_id) nid lid a w = (r, w') \<Longrightarrow> coin_reach show_id w'"
| balance: "coin_reach show_id w \<Longrightarrow>
    svc_balance (coin_repo show_id) rl o' w = (b, w') \<Longrightarrow> coin_reach show_id w'"
| listing: "coin_reach show_id w \<Longrightarrow>
    svc_ledger (coin_repo show_id) rl o' f w = (l, w') \<Longrightarrow> coin_reach show_id w'"

lemma coin_reach_inv: "coin_reach show_id w \<Longrightarrow> coin_inv (tables w)"
proof (induction rule: coin_reach.induct)
  case (balance w rl o' b w')
  then have "tables w' = tables w"
    using repo_get_wallet_tables [of rl o' w] by (simp add: svc_balance_def coin_repo_def)
  with balance.IH show ?case by simp
next
  case (listing w rl o' f l w')
  then have "tables w' = tables w"
    using repo_list_tables [of rl o' f w] by (simp add: svc_ledger_def coin_repo_def)
  with listing.IH show ?case by simp
qed (auto simp: coin_inv_empty svc_grant_def svc_deduct_def
      intro: repo.svc_post_inv repo.svc_reverse_inv)

subsection \<open>The repository on a healthy connection\<close>

text \<open>What a booking of amount \<open>a\<close> for owner \<open>k\<close> answers when no statement is lost.\<close>

definition post_verdict :: "coin_db \<Rightarrow> realm \<times> uuid \<Rightarrow> int64 \<Rightarrow> coin_err option" where
  "post_verdict d k a =
     (let nb = wallet_balance d k + sint a in
      if nb < 0 then Some ErrInsufficientBalance
      else if max_int64 < nb then Some (CoinSql ''apply delta'' NumericOutOfRange)
      else None)"

lemma applyDeltaTx_healthy:
  assumes "fates w = []" and "realm_valid r" and "coin_inv (tables w)"
    and "int (length (coin_ledger (tables w))) < max_int64"
  shows "case post_verdict (tables w) (r, ow) a of
      Some er \<Rightarrow> \<exists>w1. applyDeltaTx r ow a w = (Inl er, w1) \<and> fates w1 = []
    | None \<Rightarrow> \<exists>bal w1. applyDeltaTx r ow a w = (Inr bal, w1) \<and> fates w1 = []"
proof -
  have w: "wallets_ok (tables w)" using assms(3) by (simp add: coin_inv_def)
  have "owner_count (r, ow) (coin_ledger (tables w)) \<le> length (coin_ledger (tables w))"
    by (simp add: owner_count_def)
  then have "0 \<le> wallet_version (tables w) (r, ow)"
    and "wallet_version (tables w) (r, ow) < max_int64"
    using wallets_okD(4) [OF w, of "(r, ow)"] assms(4) by auto
  moreover note wallets_okD(2,3) [OF w, of "(r, ow)"] sint64_range [of a]
  ultimately show ?thesis using assms(1,2)
    by (cases "coin_wallet (tables w) (r, ow)")
      (auto simp: post_verdict_def Let_def applyDeltaTx_def pg_stmt_healthy sql_ensure_wallet_def
        sql_apply_delta_def wallet_balance_def wallet_version_def in_bigint_def)
qed

lemma insertLedgerTx_healthy:
  assumes "fates w = []" and "realm_valid (le_realm e)" and "le_amount e \<noteq> 0"
    and "le_id e \<notin> set (ledger_ids (tables w))"
    and "\<forall>k. idem = Some k \<longrightarrow> k \<notin> set (idem_keys (tables w))"
    and "le_reversal_of e = None \<or> (\<exists>i. le_reversal_of e = Some i \<and>
           i \<notin> set (reversed_ids (tables w)) \<and> i \<in> set (ledger_ids (tables w)))"
  shows "\<exists>x w1. insertLedgerTx e idem w = (Inr x, w1) \<and> fates w1 = []"
  using assms by (auto simp: insertLedgerTx_def pg_stmt_healthy sql_insert_ledger_def)

lemma applyDeltaTx_ledger:
  "applyDeltaTx r ow a w = (Inr bal, w1) \<Longrightarrow> coin_ledger (tables w1) = coin_ledger (tables w)"
  using applyDeltaTx_Inr [of r ow a w bal w1] by simp

lemma post_book_healthy:
  assumes "fates w = []" and "coin_inv (tables w)" and "realm_valid (le_realm e)"
    and "le_amount e \<noteq> 0" and "le_reversal_of e = None"
    and "nid \<notin> set (ledger_ids (tables w))"
    and "\<forall>k. idem = Some k \<longrightarrow> k \<notin> set (idem_keys (tables w))"
    and "int (length (coin_ledger (tables w))) < max_int64"
  shows "case post_verdict (tables w) (owner_key e) (le_amount e) of
      Some er \<Rightarrow> \<exists>w1. post_book e idem nid w = (Inl (PostFail er), w1) \<and> fates w1 = []
    | None \<Rightarrow> \<exists>x w1. post_book e idem nid w = (Inr x, w1) \<and> fates w1 = []"
proof (cases "post_verdict (tables w) (owner_key e) (le_amount e)")
  case None
  with applyDeltaTx_healthy [OF assms(1,3,2,8), of "le_owner e" "le_amount e"]
  obtain bal v where a: "applyDeltaTx (le_realm e) (le_owner e) (le_amount e) w = (Inr bal, v)"
    and v: "fates v = []" by (auto simp: owner_key_def)
  have l: "coin_ledger (tables v) = coin_ledger (tables w)" using a by (rule applyDeltaTx_ledger)
  have "\<exists>x w1. insertLedgerTx (e\<lparr>le_id := nid, le_balance_after := bal\<rparr>) idem v = (Inr x, w1) \<and> fates w1 = []"
    using assms l by (intro insertLedgerTx_healthy [OF v]) (simp_all add: ledger_ids_def idem_keys_def)
  with a None show ?thesis by (auto simp: post_book_def)
next
  case (Some er)
  with applyDeltaTx_healthy [OF assms(1,3,2,8), of "le_owner e" "le_amount e"]
  obtain v where "applyDeltaTx (le_realm e) (le_owner e) (le_amount e) w = (Inl er, v)" "fates v = []"
    by (auto simp: owner_key_def)
  with Some show ?thesis by (auto simp: post_book_def)
qed

lemma repo_post_healthy:
  assumes "fates w = []" and "coin_inv (tables w)" and "realm_valid (le_realm e)"
    and "le_amount e \<noteq> 0" and "le_reversal_of e = None"
    and "nid \<notin> set (ledger_ids (tables w))"
    and "\<forall>k. idem = Some k \<longrightarrow> k \<notin> set (idem_keys (tables w))"
    and "int (length (coin_ledger (tables w))) < max_int64"
  shows "case post_verdict (tables w) (owner_key e) (le_amount e) of
      Some er \<Rightarrow> \<exists>w1. repo_post nid e idem w = (Inl er, w1) \<and> tables w1 = tables w
    | None \<Rightarrow> \<exists>x w1. repo_post nid e idem w = (Inr x, w1) \<and> booked (tables w) x idem (tables w1)"
proof -
  have body: "post_body e idem nid w = post_book e idem nid w"
  proof (cases idem)
    case (Some k)
    with assms(7) have "k \<notin> set (idem_keys (tables w))" by simp
    then have "sql_by_idem k (tables w) = Inl NoRows"
      by (cases "sql_by_idem k (tables w)")
        (auto simp: idem_keys_def set_map_filter_iff dest: sql_by_idem_Inl sql_by_idem_Inr)
    with Some assms(1) show ?thesis by (simp add: post_body_def pg_query_healthy)
  qed (simp add: post_body_def)
  note b = post_book_healthy [OF assms]
  show ?thesis
  proof (cases "post_verdict (tables w) (owner_key e) (le_amount e)")
    case None
    with b body obtain x v where v: "post_body e idem nid w = (Inr x, v)" "fates v = []" by auto
    then have p: "repo_post nid e idem w = (Inr x, v)"
      using assms(1) by (simp add: repo_post_def pg_tx_def)
    have "\<not> replayed (tables w) idem x"
      using assms(7) by (auto simp: replayed_def idem_keys_def set_map_filter_iff)
    with repo_post_Inr [OF p] p None show ?thesis by auto
  next
    case (Some er)
    with b body obtain v where "post_body e idem nid w = (Inl (PostFail er), v)" "fates v = []" by auto
    with Some assms(1) show ?thesis by (auto simp: repo_post_def pg_tx_def)
  qed
qed

subsection \<open>Owners and roles\<close>

lemma roleKey_realm:
  assumes "bizRegistry bt = Some m" and "roleKey ow \<in> set (bm_roles m)"
  shows "realm_valid (ow_realm ow)"
proof -
  have "roleKey ow \<in> set anyHolder"
    using assms by (auto simp: bizRegistry_def meta_def webLearners_def webStudent_def coinAdmin_def
        anyHolder_def split: if_splits)
  then show ?thesis
    by (auto simp: roleKey_def anyHolder_def realm_valid_def append_eq_Cons_conv)
qed

text \<open>
  The biz type of an entry fits its sign and its realm: a debit carries a biz type of
  expenses, a credit one of incomes, and some role of the entry's realm may hold it.
  A reversal carries the opposite sign.
\<close>

definition entry_fits :: "ledger_entry \<Rightarrow> bool" where
  "entry_fits e \<longleftrightarrow>
     (\<exists>m role. bizRegistry (le_biz e) = Some m \<and>
        le_realm e @ '':'' @ role \<in> set (bm_roles m) \<and>
        (if le_reversal_of e = None then entry_direction e = bm_dir m
         else entry_direction e \<noteq> bm_dir m))"

definition fits_inv :: "coin_db \<Rightarrow> bool" where
  "fits_inv d \<longleftrightarrow> (\<forall>r \<in> set (coin_ledger d). entry_fits (lr_entry r))"

lemma posted_as_fields:
  assumes "posted_as e nid now x"
  shows "le_id x = nid" "le_realm x = le_realm e" "le_owner x = le_owner e"
    "le_amount x = le_amount e" "le_biz x = le_biz e" "le_note x = le_note e"
    "le_reversal_of x = le_reversal_of e" "le_created_by x = le_created_by e"
    "le_created_at x = now"
proof -
  obtain b where x: "x = e\<lparr>le_id := nid, le_balance_after := b, le_created_at := now\<rparr>"
    using assms by (auto simp: posted_as_def)
  show "le_id x = nid" "le_realm x = le_realm e" "le_owner x = le_owner e"
    "le_amount x = le_amount e" "le_biz x = le_biz e" "le_note x = le_note e"
    "le_reversal_of x = le_reversal_of e" "le_created_by x = le_created_by e"
    "le_created_at x = now"
    by (simp_all add: x)
qed

lemma reversed_as_fields:
  assumes "reversed_as show_id nid lid by_id now orig x"
  shows "le_id x = nid" "le_realm x = le_realm orig" "le_owner x = le_owner orig"
    "le_amount x = - le_amount orig" "le_biz x = le_biz orig"
    "le_reversal_of x = Some lid" "le_created_by x = Some by_id" "le_created_at x = now"
proof -
  obtain b where x: "x = \<lparr>le_id = nid, le_realm = le_realm orig, le_owner = le_owner orig,
          le_amount = - le_amount orig, le_balance_after = b,
          le_biz = le_biz orig, le_note = reversal_note show_id lid,
          le_reversal_of = Some lid, le_created_by = Some by_id, le_created_at = now\<rparr>"
    using assms by (auto simp: reversed_as_def)
  show "le_id x = nid" "le_realm x = le_realm orig" "le_owner x = le_owner orig"
    "le_amount x = - le_amount orig" "le_biz x = le_biz orig"
    "le_reversal_of x = Some lid" "le_created_by x = Some by_id" "le_created_at x = now"
    by (simp_all add: x)
qed

lemma svc_post_fits:
  assumes "fits_inv (tables w)" and "svc_post (coin_repo show_id) nid ow bt magnitude memo by_id idem w = (r, w')"
  shows "fits_inv (tables w')"
  using repo.svc_post_effect [OF assms(2)]
proof
  assume "\<exists>m x. validate ow bt magnitude = Inr m \<and> booked (tables w) x idem (tables w') \<and>
       posted_as (post_request ow bt (signed_amount m magnitude) memo by_id) nid (pg_now w) x"
  then obtain m x where v: "validate ow bt magnitude = Inr m" and b: "booked (tables w) x idem (tables w')"
    and p: "posted_as (post_request ow bt (signed_amount m magnitude) memo by_id) nid (pg_now w) x"
    by blast
  note f = posted_as_fields [OF p]
  have "bizRegistry (le_biz x) = Some m" "le_realm x @ '':'' @ ow_role ow \<in> set (bm_roles m)"
    using validate_Inr [OF v] f by (simp_all add: post_request_def roleKey_def)
  moreover have "le_reversal_of x = None" using f by (simp add: post_request_def)
  moreover have "entry_direction x = bm_dir m"
    using f signed_amount_sint [OF validate_Inr(3) [OF v], of m] validate_Inr(3) [OF v]
    by (cases "bm_dir m") (auto simp: entry_direction_def post_request_def)
  ultimately have "entry_fits x" by (auto simp: entry_fits_def)
  with assms(1) booked_wallet(3) [OF b] show ?thesis by (simp add: fits_inv_def)
qed (use assms(1) in simp)

lemma svc_reverse_fits:
  assumes "coin_inv (tables w)" and "fits_inv (tables w)"
    and "svc_reverse (coin_repo show_id) nid lid by_id w = (r, w')"
  shows "fits_inv (tables w')"
  using repo.reverse_effect [OF assms(3) [unfolded svc_reverse_def]]
proof
  assume "\<exists>x. reversal_booked show_id nid lid by_id (pg_now w) (tables w) x (tables w')"
  then obtain x o' where b: "booked (tables w) x None (tables w')"
    and o': "o' \<in> set (coin_ledger (tables w))" "le_reversal_of (lr_entry o') = None"
    and ra: "reversed_as show_id nid lid by_id (pg_now w) (lr_entry o') x"
    by (auto simp: reversal_booked_def)
  note f = reversed_as_fields [OF ra]
  have amt: "le_amount (lr_entry o') \<noteq> 0" "sint (le_amount (lr_entry o')) \<noteq> min_int64"
    using assms(1) o'(1) by (auto simp: coin_inv_def entries_ok_def)
  have "sint (le_amount (lr_entry o')) \<noteq> 0" using amt(1) signed_eq_0_iff by blast
  then have d: "entry_direction x \<noteq> entry_direction (lr_entry o')"
    using f(4) sint64_uminus [OF amt(2)] by (auto simp: entry_direction_def)
  have "entry_fits (lr_entry o')" using assms(2) o'(1) by (simp add: fits_inv_def)
  with o'(2) d f have "entry_fits x" by (auto simp: entry_fits_def)
  with assms(2) booked_wallet(3) [OF b] show ?thesis by (simp add: fits_inv_def)
qed (use assms(2) in simp)

lemma fits_inv_empty: "fits_inv empty_coin_db"
  by (simp add: fits_inv_def empty_coin_db_def)

lemma coin_reach_fits: "coin_reach show_id w \<Longrightarrow> fits_inv (tables w)"
proof (induction rule: coin_reach.induct)
  case (balance w rl o' b w')
  then have "tables w' = tables w"
    using repo_get_wallet_tables [of rl o' w] by (simp add: svc_balance_def coin_repo_def)
  with balance.IH show ?case by simp
next
  case (listing w rl o' f l w')
  then have "tables w' = tables w"
    using repo_list_tables [of rl o' f w] by (simp add: svc_ledger_def coin_repo_def)
  with listing.IH show ?case by simp
qed (auto simp: fits_inv_empty svc_grant_def svc_deduct_def
      intro: svc_post_fits svc_reverse_fits dest: coin_reach_inv)

subsection \<open>Rows found by their keys\<close>

lemma keyed_row_unique:
  assumes "distinct (List.map_filter f xs)" and "r \<in> set xs" and "f r = Some k"
  shows "filter (\<lambda>r. f r = Some k) xs = [r]"
  using assms
proof (induction xs)
  case (Cons y ys)
  have none: "filter (\<lambda>r. f r = Some k) ys = []" if "k \<notin> set (List.map_filter f ys)"
    using that by (auto simp: filter_empty_conv set_map_filter_iff)
  show ?case
  proof (cases "f y = Some k")
    case True
    with Cons.prems have "k \<notin> set (List.map_filter f ys)" by (simp add: List.map_filter_simps)
    with True Cons.prems none show ?thesis by (auto simp: filter_empty_conv)
  next
    case False
    with Cons show ?thesis by (cases "f y") (auto simp: List.map_filter_simps)
  qed
qed simp

lemma replayed_row:
  assumes "replayed d (Some k) x"
  shows "\<lparr>lr_entry = x, lr_idem = Some k\<rparr> \<in> set (coin_ledger d)"
proof -
  obtain r where "r \<in> set (coin_ledger d)" "lr_idem r = Some k" "lr_entry r = x"
    using assms by (auto simp: replayed_def)
  moreover from this(2,3) have "r = \<lparr>lr_entry = x, lr_idem = Some k\<rparr>" by (cases r) simp
  ultimately show ?thesis by simp
qed

lemma in_idem_keys:
  "\<lparr>lr_entry = x, lr_idem = Some k\<rparr> \<in> set (coin_ledger d) \<Longrightarrow> k \<in> set (idem_keys d)"
  by (force simp: idem_keys_def set_map_filter_iff)

lemma svc_post_Inr:
  assumes "svc_post (coin_repo show_id) nid ow bt magnitude memo by_id idem w = (Inr x, w')"
  shows "(replayed (tables w) idem x \<and> tables w' = tables w) \<or>
    (\<exists>m. validate ow bt magnitude = Inr m \<and> booked (tables w) x idem (tables w') \<and>
       posted_as (post_request ow bt (signed_amount m magnitude) memo by_id) nid (pg_now w) x)"
  using assms by (auto simp: svc_post_def coin_repo_def split: sum.splits dest!: repo_post_Inr)

lemma svc_post_keyed:
  assumes "svc_post (coin_repo show_id) nid ow bt magnitude memo by_id (Some k) w = (Inr x, w')"
  shows "\<lparr>lr_entry = x, lr_idem = Some k\<rparr> \<in> set (coin_ledger (tables w'))"
    and "k \<in> set (idem_keys (tables w)) \<Longrightarrow> tables w' = tables w"
proof -
  have *: "(replayed (tables w) (Some k) x \<and> tables w' = tables w) \<or>
      booked (tables w) x (Some k) (tables w')"
    using svc_post_Inr [OF assms] by blast
  show "\<lparr>lr_entry = x, lr_idem = Some k\<rparr> \<in> set (coin_ledger (tables w'))"
    using * replayed_row booked_wallet(3) by fastforce
  show "tables w' = tables w" if "k \<in> set (idem_keys (tables w))"
    using * that unfolding booked_def Let_def by blast
qed

lemma svc_post_valid:
  "validate ow bt magnitude = Inr m \<Longrightarrow>
     svc_post (coin_repo show_id) nid ow bt magnitude memo by_id idem w =
     repo_post nid (post_request ow bt (signed_amount m magnitude) memo by_id) idem w"
  by (simp add: svc_post_def coin_repo_def)

lemma post_request_fields [simp]:
  "le_realm (post_request ow bt a memo by_id) = ow_realm ow"
  "le_owner (post_request ow bt a memo by_id) = ow_id ow"
  "le_amount (post_request ow bt a memo by_id) = a"
  "le_reversal_of (post_request ow bt a memo by_id) = None"
  "owner_key (post_request ow bt a memo by_id) = (ow_realm ow, ow_id ow)"
  by (simp_all add: post_request_def owner_key_def)

lemma sql_by_id_unique:
  assumes "distinct (ledger_ids d)" and "r \<in> set (coin_ledger d)"
  shows "sql_by_id (le_id (lr_entry r)) d = Inr (lr_entry r)"
proof (cases "sql_by_id (le_id (lr_entry r)) d")
  case (Inl e)
  with sql_by_id_Inl have "le_id (lr_entry r) \<notin> set (ledger_ids d)" by blast
  with assms(2) show ?thesis by (simp add: ledger_ids_def)
next
  case (Inr e)
  then obtain r' where r': "r' \<in> set (coin_ledger d)" "lr_entry r' = e" "le_id e = le_id (lr_entry r)"
    using sql_by_id_Inr by blast
  have "inj_on (le_id \<circ> lr_entry) (set (coin_ledger d))"
    using assms(1) by (simp add: ledger_ids_def distinct_map)
  then have "r' = r" using r' assms(2) by (auto simp: inj_on_def)
  with r' Inr show ?thesis by simp
qed

subsection \<open>Properties\<close>

text \<open>C3: in every reachable state the ledger is the source of truth. Each owner's wallet
  balance is the sum of the owner's ledger amounts, lies between zero and the largest
  \<open>int64\<close>, and its version counts the owner's entries; every entry's \<open>balance_after\<close> is the
  owner's running sum; ids and idempotency keys are unique.\<close>

theorem ledger_is_truth:
  assumes "coin_reach show_id w"
  shows "(\<forall>k. wallet_balance (tables w) k = ledger_sum k (coin_ledger (tables w)) \<and>
             0 \<le> wallet_balance (tables w) k \<and> wallet_balance (tables w) k \<le> max_int64 \<and>
             wallet_version (tables w) k = int (owner_count k (coin_ledger (tables w)))) \<and>
         chain_ok (coin_ledger (tables w)) \<and>
         distinct (ledger_ids (tables w)) \<and> distinct (idem_keys (tables w))"
  using coin_reach_inv [OF assms] unfolding coin_inv_def wallets_ok_def by blast

definition demo_owner :: owner where
  "demo_owner = \<lparr>ow_realm = ''web'', ow_id = 7, ow_role = ''student''\<rparr>"

definition demo_w0 :: "coin_db pgs" where
  "demo_w0 = \<lparr>tables = empty_coin_db, fates = [], pg_now = 100\<rparr>"

text \<open>A student has earned 30 coins under the key \<open>k\<close>.\<close>

definition demo_entry :: ledger_entry where
  "demo_entry = \<lparr>le_id = 1, le_realm = ''web'', le_owner = 7, le_amount = 30,
     le_balance_after = 30, le_biz = ''daily_task'', le_note = [], le_reversal_of = None,
     le_created_by = None, le_created_at = 100\<rparr>"

definition demo_w1 :: "coin_db pgs" where
  "demo_w1 = \<lparr>tables = \<lparr>coin_wallet = [(''web'', 7) \<mapsto> \<lparr>wr_balance = 30, wr_version = 1\<rparr>],
       coin_ledger = [\<lparr>lr_entry = demo_entry, lr_idem = Some ''k''\<rparr>]\<rparr>,
     fates = [], pg_now = 100\<rparr>"

lemma demo_reach0: "coin_reach show_id demo_w0"
  unfolding demo_w0_def by (rule coin_reach.start)

lemma demo_post:
  "svc_post (coin_repo show_id) 1 demo_owner ''daily_task'' 30 [] None (Some ''k'') demo_w0 =
     (Inr demo_entry, demo_w1)"
  by (simp add: svc_post_def validate_def bizRegistry_def meta_def webStudent_def roleKey_def
      demo_owner_def coin_repo_def signed_amount_def post_request_def repo_post_def pg_tx_def
      post_body_def pg_query_healthy sql_by_idem_def post_book_def applyDeltaTx_def pg_stmt_healthy
      sql_ensure_wallet_def realm_valid_def sql_apply_delta_def insertLedgerTx_def
      sql_insert_ledger_def ledger_ids_def reversed_ids_def idem_keys_def in_bigint_def
      demo_w0_def demo_w1_def demo_entry_def empty_coin_db_def List.map_filter_def)

lemma demo_reach1: "coin_reach show_id demo_w1"
  using coin_reach.posting [OF demo_reach0 demo_post] .

theorem ledger_is_truth_witness:
  "wallet_balance (tables demo_w1) (''web'', 7) = 30 \<and>
   ledger_sum (''web'', 7) (coin_ledger (tables demo_w1)) = 30"
  using ledger_is_truth [OF demo_reach1 [of "\<lambda>_. []"], THEN conjunct1, THEN spec, of "(''web'', 7)"]
  by (simp add: wallet_balance_def demo_w1_def)

text \<open>C19: a post is all or nothing, whatever statement fails and however. A success has
  booked exactly the requested entry, or returns the entry already booked under its key and
  touches nothing; a failure has touched nothing, but for a commit whose answer was lost,
  which may have booked the whole entry.\<close>

theorem post_all_or_nothing:
  assumes "svc_post (coin_repo show_id) nid ow bt magnitude memo by_id idem w = (r, w')"
  shows "case r of
      Inr x \<Rightarrow> (replayed (tables w) idem x \<and> tables w' = tables w) \<or>
        (\<exists>m. validate ow bt magnitude = Inr m \<and> booked (tables w) x idem (tables w') \<and>
           posted_as (post_request ow bt (signed_amount m magnitude) memo by_id) nid (pg_now w) x)
    | Inl er \<Rightarrow> tables w' = tables w \<or>
        (er = CoinSql ''commit tx'' ConnLost \<and>
         (\<exists>m x. validate ow bt magnitude = Inr m \<and> booked (tables w) x idem (tables w') \<and>
           posted_as (post_request ow bt (signed_amount m magnitude) memo by_id) nid (pg_now w) x))"
  using assms svc_post_Inr [of show_id nid ow bt magnitude memo by_id idem w _ w']
  by (auto simp: svc_post_def coin_repo_def split: sum.splits dest!: repo_post_Inl)

theorem post_all_or_nothing_witness:
  "(replayed (tables demo_w0) (Some ''k'') demo_entry \<and> tables demo_w1 = tables demo_w0) \<or>
   (\<exists>m. validate demo_owner ''daily_task'' 30 = Inr m \<and>
      booked (tables demo_w0) demo_entry (Some ''k'') (tables demo_w1) \<and>
      posted_as (post_request demo_owner ''daily_task'' (signed_amount m 30) [] None) 1 (pg_now demo_w0) demo_entry)"
  using post_all_or_nothing [OF demo_post [of "\<lambda>_. []"]] by (simp only: sum.case)

text \<open>What a valid post with a fresh id and key answers on a healthy connection. A debit
  beyond the balance is refused with \<open>ErrInsufficientBalance\<close>, a credit beyond \<open>BIGINT\<close> with
  the database's error, both leaving the tables alone; anything else is booked.\<close>

theorem post_answer:
  assumes "coin_reach show_id w" and "fates w = []"
    and "validate ow bt magnitude = Inr m"
    and "nid \<notin> set (ledger_ids (tables w))"
    and "\<forall>k. idem = Some k \<longrightarrow> k \<notin> set (idem_keys (tables w))"
    and "int (length (coin_ledger (tables w))) < max_int64"
  shows "case post_verdict (tables w) (ow_realm ow, ow_id ow) (signed_amount m magnitude) of
      Some er \<Rightarrow> \<exists>w1. svc_post (coin_repo show_id) nid ow bt magnitude memo by_id idem w = (Inl er, w1) \<and>
        tables w1 = tables w
    | None \<Rightarrow> \<exists>x w1. svc_post (coin_repo show_id) nid ow bt magnitude memo by_id idem w = (Inr x, w1) \<and>
        booked (tables w) x idem (tables w1)"
proof -
  note v = validate_Inr [OF assms(3)]
  have r: "realm_valid (ow_realm ow)" by (rule roleKey_realm [OF v(1,2)])
  have a: "signed_amount m magnitude \<noteq> 0"
    using signed_amount_sint [OF v(3), of m] v(3) by (auto split: if_splits)
  show ?thesis
    unfolding svc_post_valid [OF assms(3)]
    using repo_post_healthy [OF assms(2) coin_reach_inv [OF assms(1)], of
        "post_request ow bt (signed_amount m magnitude) memo by_id" nid idem] r a assms(4-6)
    by (simp only: post_request_fields simp_thms)
qed

theorem post_answer_witness:
  "\<exists>w1. svc_post (coin_repo (\<lambda>_. [])) 2 demo_owner ''give_tip'' 31 [] None None demo_w1 =
      (Inl ErrInsufficientBalance, w1) \<and> tables w1 = tables demo_w1"
proof -
  have v: "validate demo_owner ''give_tip'' 31 = Inr (meta DirExpense OriginUser webLearners)"
    by (simp add: validate_def bizRegistry_def meta_def webLearners_def roleKey_def demo_owner_def)
  have p: "post_verdict (tables demo_w1) (ow_realm demo_owner, ow_id demo_owner)
      (signed_amount (meta DirExpense OriginUser webLearners) 31) = Some ErrInsufficientBalance"
    by (simp add: post_verdict_def wallet_balance_def demo_w1_def demo_owner_def signed_amount_def meta_def)
  show ?thesis
    using post_answer [OF demo_reach1 _ v, of 2 None "\<lambda>_. []" "[]" None] p
    by (simp add: demo_w1_def ledger_ids_def demo_entry_def)
qed

lemma post_keyed_twice:
  assumes "coin_reach show_id w"
    and "svc_post (coin_repo show_id) nid ow bt magnitude memo by_id (Some k) w = (r1, w1)"
    and "svc_post (coin_repo show_id) nid2 ow2 bt2 magnitude2 memo2 by_id2 (Some k)
           (w1\<lparr>fates := fs, pg_now := t\<rparr>) = (Inr x, w2)"
  shows "filter (\<lambda>r. lr_idem r = Some k) (coin_ledger (tables w2)) =
           [\<lparr>lr_entry = x, lr_idem = Some k\<rparr>]"
    and "(\<forall>y. r1 \<noteq> Inr y) \<or> (r1 = Inr x \<and> tables w2 = tables w1)"
    and "tables w1 = tables w \<or> tables w2 = tables w1"
proof -
  let ?v = "w1\<lparr>fates := fs, pg_now := t\<rparr>"
  have r1: "coin_reach show_id w1" by (rule coin_reach.posting [OF assms(1,2)])
  have "coin_reach show_id w2"
    by (rule coin_reach.posting [OF coin_reach.environment [OF r1] assms(3)])
  then have d2: "distinct (List.map_filter lr_idem (coin_ledger (tables w2)))"
    using coin_reach_inv by (auto simp: coin_inv_def idem_keys_def)
  note k2 = svc_post_keyed [OF assms(3)]
  show one: "filter (\<lambda>r. lr_idem r = Some k) (coin_ledger (tables w2)) =
           [\<lparr>lr_entry = x, lr_idem = Some k\<rparr>]"
    by (rule keyed_row_unique [OF d2 k2(1)]) simp
  have same: "tables w2 = tables w1" if "k \<in> set (idem_keys (tables w1))"
    using k2(2) that by simp
  show "(\<forall>y. r1 \<noteq> Inr y) \<or> (r1 = Inr x \<and> tables w2 = tables w1)"
  proof (cases r1)
    case (Inr y)
    from svc_post_keyed(1) [OF assms(2) [unfolded Inr]]
    have y: "\<lparr>lr_entry = y, lr_idem = Some k\<rparr> \<in> set (coin_ledger (tables w1))" .
    then have t: "tables w2 = tables w1" by (intro same in_idem_keys)
    with y have "\<lparr>lr_entry = y, lr_idem = Some k\<rparr> \<in>
        set (filter (\<lambda>r. lr_idem r = Some k) (coin_ledger (tables w2)))" by simp
    with one t Inr show ?thesis by simp
  qed simp
  show "tables w1 = tables w \<or> tables w2 = tables w1"
  proof (cases "tables w1 = tables w")
    case False
    with repo.post_effect [of show_id nid _ "Some k" w r1 w1] repo.svc_post_effect [OF assms(2)]
    obtain y where "booked (tables w) y (Some k) (tables w1)" by blast
    from booked_lists(3) [OF this] have "k \<in> set (idem_keys (tables w1))" by simp
    then show ?thesis using same by simp
  qed simp
qed

text \<open>C6: an idempotency key books exactly once. When a post with a key is followed by a
  successful retry with the same key, at any later instant and whatever happened to the first
  attempt, the ledger holds one entry with that key and the retry returns it. A first attempt
  that booked, even one whose answer was lost, is not booked again.\<close>

theorem post_exactly_once:
  assumes "coin_reach show_id w"
    and "svc_post (coin_repo show_id) nid ow bt magnitude memo by_id (Some k) w = (r1, w1)"
    and "svc_post (coin_repo show_id) nid2 ow2 bt2 magnitude2 memo2 by_id2 (Some k)
           (w1\<lparr>fates := fs, pg_now := t\<rparr>) = (Inr x, w2)"
  shows "filter (\<lambda>r. lr_idem r = Some k) (coin_ledger (tables w2)) =
           [\<lparr>lr_entry = x, lr_idem = Some k\<rparr>] \<and>
    ((\<forall>y. r1 \<noteq> Inr y) \<or> (r1 = Inr x \<and> tables w2 = tables w1)) \<and>
    (tables w1 = tables w \<or> tables w2 = tables w1)"
  using post_keyed_twice [OF assms] by blast

theorem post_exactly_once_witness:
  "\<exists>x w2. svc_post (coin_repo (\<lambda>_. [])) 9 demo_owner ''daily_task'' 30 [] None (Some ''k'')
      (demo_w1\<lparr>fates := [], pg_now := 200\<rparr>) = (Inr x, w2) \<and> tables w2 = tables demo_w1"
proof -
  have "svc_post (coin_repo (\<lambda>_. [])) 9 demo_owner ''daily_task'' 30 [] None (Some ''k'')
      (demo_w1\<lparr>fates := [], pg_now := 200\<rparr>) = (Inr demo_entry, demo_w1\<lparr>fates := [], pg_now := 200\<rparr>)"
    by (simp add: svc_post_def validate_def bizRegistry_def meta_def webStudent_def roleKey_def
      demo_owner_def coin_repo_def signed_amount_def post_request_def repo_post_def pg_tx_def
      post_body_def pg_query_healthy sql_by_idem_def demo_w1_def)
  from post_exactly_once [OF demo_reach0 demo_post this] this show ?thesis by auto
qed

text \<open>C20: a successful reversal nets its original to zero and keeps it on the books: one entry
  with the opposite amount of the same owner is appended, and the balance moves back by it.\<close>

theorem reverse_nets_to_zero:
  assumes "coin_reach show_id w"
    and "svc_reverse (coin_repo show_id) nid lid by_id w = (Inr x, w')"
  shows "\<exists>r \<in> set (coin_ledger (tables w)). le_id (lr_entry r) = lid \<and> reverses x (lr_entry r) \<and>
      coin_ledger (tables w') = coin_ledger (tables w) @ [\<lparr>lr_entry = x, lr_idem = None\<rparr>] \<and>
      wallet_balance (tables w') (owner_key x) =
        wallet_balance (tables w) (owner_key x) - sint (le_amount (lr_entry r)) \<and>
      0 \<le> wallet_balance (tables w') (owner_key x)"
proof -
  have rb: "reversal_booked show_id nid lid by_id (pg_now w) (tables w) x (tables w')"
    using repo.reverse_Inr assms(2) unfolding svc_reverse_def by blast
  then obtain r where r: "r \<in> set (coin_ledger (tables w))" "le_id (lr_entry r) = lid"
      "le_reversal_of (lr_entry r) = None"
      "reversed_as show_id nid lid by_id (pg_now w) (lr_entry r) x"
    and b: "booked (tables w) x None (tables w')" by (auto simp: reversal_booked_def)
  note f = reversed_as_fields [OF r(4)]
  have "sint (le_amount (lr_entry r)) \<noteq> min_int64"
    using coin_reach_inv [OF assms(1)] r(1) by (auto simp: coin_inv_def entries_ok_def)
  then have s: "sint (le_amount x) = - sint (le_amount (lr_entry r))"
    using sint64_uminus f(4) by simp
  then have "reverses x (lr_entry r)" using f r(2,3) by (simp add: reverses_def owner_key_def)
  then have "le_id (lr_entry r) = lid \<and> reverses x (lr_entry r) \<and>
      coin_ledger (tables w') = coin_ledger (tables w) @ [\<lparr>lr_entry = x, lr_idem = None\<rparr>] \<and>
      wallet_balance (tables w') (owner_key x) =
        wallet_balance (tables w) (owner_key x) - sint (le_amount (lr_entry r)) \<and>
      0 \<le> wallet_balance (tables w') (owner_key x)"
    using r(2) s booked_wallet(1) [OF b, of "owner_key x"] booked_wallet(3,5) [OF b] by simp
  with r(1) show ?thesis by blast
qed

definition demo_reversal :: ledger_entry where
  "demo_reversal = \<lparr>le_id = 2, le_realm = ''web'', le_owner = 7, le_amount = - 30,
     le_balance_after = 0, le_biz = ''daily_task'', le_note = reversal_note (\<lambda>_. []) 1,
     le_reversal_of = Some 1, le_created_by = Some 5, le_created_at = 100\<rparr>"

definition demo_w2 :: "coin_db pgs" where
  "demo_w2 = \<lparr>tables = \<lparr>coin_wallet = [(''web'', 7) \<mapsto> \<lparr>wr_balance = 0, wr_version = 2\<rparr>],
       coin_ledger = [\<lparr>lr_entry = demo_entry, lr_idem = Some ''k''\<rparr>,
         \<lparr>lr_entry = demo_reversal, lr_idem = None\<rparr>]\<rparr>,
     fates = [], pg_now = 100\<rparr>"

lemma demo_reverse:
  "svc_reverse (coin_repo (\<lambda>_. [])) 2 1 5 demo_w1 = (Inr demo_reversal, demo_w2)"
  by (simp add: svc_reverse_def coin_repo_def repo_reverse_def reverse_body_def pg_tx_def
      pg_query_healthy sql_by_id_def sql_is_reversed_def reverse_book_def applyDeltaTx_def
      pg_stmt_healthy sql_ensure_wallet_def realm_valid_def sql_apply_delta_def insertLedgerTx_def
      sql_insert_ledger_def ledger_ids_def reversed_ids_def idem_keys_def in_bigint_def
      demo_w1_def demo_w2_def demo_entry_def demo_reversal_def List.map_filter_def)

theorem reverse_nets_to_zero_witness:
  "\<exists>r \<in> set (coin_ledger (tables demo_w1)). le_id (lr_entry r) = 1 \<and> reverses demo_reversal (lr_entry r)"
  using reverse_nets_to_zero [OF demo_reach1 demo_reverse] by blast

text \<open>An entry is reversed at most once. After a successful reversal, a second reversal of
  the same entry and a reversal of the reversal are refused with their own errors on a
  healthy connection, at any later instant, and neither changes anything.\<close>

theorem reverse_once:
  assumes "coin_reach show_id w"
    and "svc_reverse (coin_repo show_id) nid lid by_id w = (Inr x, w1)"
  shows "svc_reverse (coin_repo show_id) nid2 lid by2 (w1\<lparr>fates := [], pg_now := t\<rparr>) =
           (Inl ErrAlreadyReversed, w1\<lparr>fates := [], pg_now := t\<rparr>) \<and>
         svc_reverse (coin_repo show_id) nid2 nid by2 (w1\<lparr>fates := [], pg_now := t\<rparr>) =
           (Inl ErrCannotReverseReversal, w1\<lparr>fates := [], pg_now := t\<rparr>)"
proof -
  have rb: "reversal_booked show_id nid lid by_id (pg_now w) (tables w) x (tables w1)"
    using repo.reverse_Inr assms(2) unfolding svc_reverse_def by blast
  then obtain r where r: "r \<in> set (coin_ledger (tables w))" "le_id (lr_entry r) = lid"
      "le_reversal_of (lr_entry r) = None"
      "reversed_as show_id nid lid by_id (pg_now w) (lr_entry r) x"
    and b: "booked (tables w) x None (tables w1)" by (auto simp: reversal_booked_def)
  note f = reversed_as_fields [OF r(4)]
  have "coin_inv (tables w1)"
    by (rule repo.svc_reverse_inv [OF coin_reach_inv [OF assms(1)] assms(2)])
  then have d: "distinct (ledger_ids (tables w1))" by (simp add: coin_inv_def)
  have l: "coin_ledger (tables w1) = coin_ledger (tables w) @ [\<lparr>lr_entry = x, lr_idem = None\<rparr>]"
    using booked_wallet(3) [OF b] .
  have i1: "sql_by_id lid (tables w1) = Inr (lr_entry r)"
    using sql_by_id_unique [OF d, of r] r(1,2) l by simp
  have i2: "sql_by_id nid (tables w1) = Inr x"
    using sql_by_id_unique [OF d, of "\<lparr>lr_entry = x, lr_idem = None\<rparr>"] l f(1) by simp
  have rev: "lid \<in> set (reversed_ids (tables w1))"
    using l f(6) by (auto simp: reversed_ids_def set_map_filter_iff)
  let ?v = "w1\<lparr>fates := [], pg_now := t\<rparr>"
  have "reverse_body show_id nid2 lid by2 ?v = (Inl ErrAlreadyReversed, ?v)"
    using i1 r(3) rev by (simp add: reverse_body_def pg_query_healthy sql_is_reversed_def)
  moreover have "reverse_body show_id nid2 nid by2 ?v = (Inl ErrCannotReverseReversal, ?v)"
    using i2 f(6) by (simp add: reverse_body_def pg_query_healthy)
  ultimately show ?thesis
    by (simp add: svc_reverse_def coin_repo_def repo_reverse_def pg_tx_healthy)
qed

theorem reverse_once_witness:
  "svc_reverse (coin_repo (\<lambda>_. [])) 3 1 5 (demo_w2\<lparr>fates := [], pg_now := 9\<rparr>) =
     (Inl ErrAlreadyReversed, demo_w2\<lparr>fates := [], pg_now := 9\<rparr>)"
  using reverse_once [OF demo_reach1 demo_reverse] by blast

text \<open>The ledger is append-only. A post or a reversal, failed or not, leaves every entry
  on the books as it was, in its place, and adds at most one at the end.\<close>

theorem ledger_append_only:
  "(\<forall>nid ow bt magnitude memo by_id idem.
      \<exists>more. length more \<le> 1 \<and> coin_ledger (tables (snd
        (svc_post (coin_repo show_id) nid ow bt magnitude memo by_id idem w))) =
        coin_ledger (tables w) @ more) \<and>
   (\<forall>nid lid by_id.
      \<exists>more. length more \<le> 1 \<and> coin_ledger (tables (snd
        (svc_reverse (coin_repo show_id) nid lid by_id w))) = coin_ledger (tables w) @ more)"
  using repo.svc_post_appends [OF prod.collapse [symmetric]]
    repo.svc_reverse_appends [OF prod.collapse [symmetric]] by blast

text \<open>Every entry of every reachable ledger fits the registry. Its biz type is registered,
  some role of its owner's realm may hold it, and its sign is the one the registry gives it
  (the opposite one for a reversal).\<close>

theorem biz_types_fit:
  assumes "coin_reach show_id w"
  shows "fits_inv (tables w)"
  by (rule coin_reach_fits [OF assms])

theorem biz_types_fit_witness: "fits_inv (tables demo_w1)"
  using biz_types_fit [OF demo_reach1] .

subsection \<open>Pages\<close>

lemma pageBounds_small:
  assumes "0 < sz" and "sz \<le> 100" and "i < 10000000000000000"
  shows "pageBounds (of_nat (Suc i)) (of_nat sz) = (of_nat sz, of_nat (i * sz))"
    and "sint (of_nat sz :: int64) = int sz"
    and "sint (of_nat (i * sz) :: int64) = int (i * sz)"
proof -
  show s: "sint (of_nat sz :: int64) = int sz"
    using assms(2) sint64_word_of_int [of "int sz"] by simp
  have "i * sz \<le> 10000000000000000 * 100" using assms by (intro mult_mono) simp_all
  then have "int (i * sz) \<le> max_int64" "min_int64 \<le> int (i * sz)" by linarith+
  then show "sint (of_nat (i * sz) :: int64) = int (i * sz)"
    using sint64_word_of_int [of "int (i * sz)"] by (simp del: of_nat_mult)
  have "sint (of_nat (Suc i) :: int64) = int (Suc i)"
    using assms(3) sint64_word_of_int [of "int (Suc i)"] by simp
  then show "pageBounds (of_nat (Suc i)) (of_nat sz) = (of_nat sz, of_nat (i * sz))"
    using s assms(1,2) by (simp add: pageBounds_def Let_def)
qed

definition nth_page :: "ledger_filter \<Rightarrow> nat \<Rightarrow> nat \<Rightarrow> ledger_filter" where
  "nth_page f sz i = f\<lparr>lf_page := of_nat (Suc i), lf_size := of_nat sz\<rparr>"

lemma ledger_matches_set:
  "set (ledger_matches r ow f d) = {e. ledger_match r ow f e \<and> (\<exists>x \<in> set (coin_ledger d). lr_entry x = e)}"
  by (auto simp: ledger_matches_def)

lemma ledger_match_nth_page [simp]:
  "ledger_match r ow (nth_page f sz i) = ledger_match r ow f"
  "ledger_matches r ow (nth_page f sz i) = ledger_matches r ow f"
proof -
  show m: "ledger_match r ow (nth_page f sz i) = ledger_match r ow f"
    by (simp add: nth_page_def ledger_match_def fun_eq_iff)
  show "ledger_matches r ow (nth_page f sz i) = ledger_matches r ow f"
    by (simp add: ledger_matches_def m fun_eq_iff)
qed

lemma svc_ledger_page:
  assumes "fates w = []" and "0 < sz" and "sz \<le> 100" and "i < 10000000000000000"
  shows "svc_ledger (coin_repo show_id) r ow (nth_page f sz i) w =
    (Inr (sql_page sz (i * sz) (ledger_matches r ow f (tables w)),
          length (ledger_matches r ow f (tables w))), w)"
proof -
  note b = pageBounds_small [OF assms(2-4)]
  have p: "pageBounds (lf_page (nth_page f sz i)) (lf_size (nth_page f sz i)) =
      (of_nat sz, of_nat (i * sz))" using b(1) by (simp add: nth_page_def)
  have "sql_ledger_page r ow (nth_page f sz i) (of_nat sz, of_nat (i * sz)) (tables w) =
      Inr (sql_page sz (i * sz) (ledger_matches r ow f (tables w)))"
    using b(2,3)
    by (simp del: of_nat_mult add: sql_ledger_page_def)
  with p assms(1) show ?thesis
    by (simp add: svc_ledger_def coin_repo_def repo_list_by_owner_def pg_query_healthy ledger_matches_def)
qed

text \<open>C21: the pages of a listing partition it. On a healthy connection, for a page size the
  code accepts, the pages read one after the other are the whole list of matching entries,
  newest first, none lost and none repeated, and each page reports its length.\<close>

theorem ledger_pages:
  assumes "fates w = []" and "0 < sz" and "sz \<le> 100" and "n < 10000000000000000"
    and "length (ledger_matches r ow f (tables w)) \<le> n * sz"
  shows "\<exists>pages.
    (\<forall>i. i < n \<longrightarrow> svc_ledger (coin_repo show_id) r ow (nth_page f sz i) w =
       (Inr (pages i, length (ledger_matches r ow f (tables w))), w)) \<and>
    concat (map pages [0..<n]) = ledger_matches r ow f (tables w) \<and>
    set (ledger_matches r ow f (tables w)) =
      {e. ledger_match r ow f e \<and> (\<exists>x \<in> set (coin_ledger (tables w)). lr_entry x = e)} \<and>
    sorted (rev (map (\<lambda>e. (le_created_at e, le_id e)) (ledger_matches r ow f (tables w))))"
proof (intro exI conjI allI impI)
  fix i assume "i < n"
  then show "svc_ledger (coin_repo show_id) r ow (nth_page f sz i) w =
       (Inr (sql_page sz (i * sz) (ledger_matches r ow f (tables w)),
          length (ledger_matches r ow f (tables w))), w)"
    using assms(4) by (intro svc_ledger_page [OF assms(1-3)]) simp
next
  show "concat (map (\<lambda>i. sql_page sz (i * sz) (ledger_matches r ow f (tables w))) [0..<n]) =
      ledger_matches r ow f (tables w)"
    by (rule concat_pages_all [OF assms(2,5)])
  show "sorted (rev (map (\<lambda>e. (le_created_at e, le_id e)) (ledger_matches r ow f (tables w))))"
    by (simp add: ledger_matches_def rev_map)
qed (rule ledger_matches_set)

definition any_filter :: ledger_filter where
  "any_filter = \<lparr>lf_direction = None, lf_from = None, lf_to = None, lf_page = 0, lf_size = 0\<rparr>"

theorem ledger_pages_witness:
  "\<exists>pages. concat (map pages [0..<2]) = ledger_matches ''web'' 7 any_filter (tables demo_w2) \<and>
     svc_ledger (coin_repo (\<lambda>_. [])) ''web'' 7 (nth_page any_filter 1 0) demo_w2 =
       (Inr (pages 0, 2), demo_w2)"
proof -
  have l: "length (ledger_matches ''web'' 7 any_filter (tables demo_w2)) = 2"
    by (simp add: ledger_matches_def ledger_match_def any_filter_def demo_w2_def demo_entry_def demo_reversal_def)
  have "fates demo_w2 = []" by (simp add: demo_w2_def)
  from ledger_pages [OF this, of 1 2 "''web''" 7 any_filter "\<lambda>_. []"] l show ?thesis by auto
qed

text \<open>\<open>pageBounds\<close> always yields a limit between 1 and 100, and within the range where
  the 64-bit product does not wrap around an offset that is the number of rows before the
  page.\<close>

theorem pageBounds_ok:
  "1 \<le> sint (fst (pageBounds page sz)) \<and> sint (fst (pageBounds page sz)) \<le> 100 \<and>
   (sint page \<le> 92233720368547758 \<longrightarrow>
      sint (snd (pageBounds page sz)) =
        (max 1 (sint page) - 1) * sint (fst (pageBounds page sz)))"
proof -
  let ?l = "fst (pageBounds page sz)"
  have l: "1 \<le> sint ?l" "sint ?l \<le> 100" by (auto simp: pageBounds_def Let_def)
  define p where "p = (if sint page \<le> 0 then 1 else page)"
  have p: "1 \<le> sint p" "sint p = max 1 (sint page)" by (auto simp: p_def)
  have "sint (p - 1) = sint p - 1"
    using sint64_add_word_of_int [of "sint p" "- 1"] p(1) sint64_range [of p] by simp
  moreover have "sint ((p - 1) * ?l) = sint (p - 1) * sint ?l"
    if b: "sint page \<le> 92233720368547758"
  proof -
    have "0 \<le> sint (p - 1)" "sint (p - 1) \<le> 92233720368547757"
      using p b calculation by auto
    then have "0 \<le> sint (p - 1) * sint ?l" "sint (p - 1) * sint ?l \<le> 92233720368547757 * 100"
      using l mult_mono [of "sint (p - 1)" 92233720368547757 "sint ?l" 100] by simp_all
    then show ?thesis using sint64_word_of_int [of "sint (p - 1) * sint ?l"] by simp
  qed
  moreover have "snd (pageBounds page sz) = (p - 1) * ?l" by (simp add: pageBounds_def Let_def p_def)
  ultimately show ?thesis using l p by simp
qed

theorem pageBounds_ok_witness:
  "sint (snd (pageBounds 3 0)) = 40"
  using pageBounds_ok [of 3 0] by (simp add: pageBounds_def)

text \<open>The limit and the row number a page starts at, in exact arithmetic.\<close>

definition page_limit :: "ledger_filter \<Rightarrow> int" where
  "page_limit f = (if sint (lf_size f) \<le> 0 then 20 else min 100 (sint (lf_size f)))"

definition page_start :: "ledger_filter \<Rightarrow> int" where
  "page_start f = (max 1 (sint (lf_page f)) - 1) * page_limit f"

lemma pageBounds_exact:
  "sint (fst (pageBounds (lf_page f) (lf_size f))) = page_limit f"
  "snd (pageBounds (lf_page f) (lf_size f)) = word_of_int (page_start f)"
proof -
  let ?l = "fst (pageBounds (lf_page f) (lf_size f))"
  show l: "sint ?l = page_limit f" by (simp add: pageBounds_def Let_def page_limit_def min_def)
  define p where "p = (if sint (lf_page f) \<le> 0 then 1 else lf_page f)"
  have "word_of_int (max 1 (sint (lf_page f)) - 1) = p - 1" by (auto simp: p_def max_def)
  moreover have "word_of_int (page_limit f) = ?l" unfolding l [symmetric] by simp
  moreover have "snd (pageBounds (lf_page f) (lf_size f)) = (p - 1) * ?l"
    by (simp add: pageBounds_def Let_def p_def)
  ultimately show "snd (pageBounds (lf_page f) (lf_size f)) = word_of_int (page_start f)"
    by (simp add: page_start_def)
qed

lemma sint_wrapped:
  fixes i :: int
  shows "sint (word_of_int i :: int64) =
    (if i mod 2 ^ 64 \<le> max_int64 then i mod 2 ^ 64 else i mod 2 ^ 64 - 2 ^ 64)"
proof -
  have m: "0 \<le> i mod 2 ^ 64" "i mod 2 ^ 64 < 2 ^ 64" by simp_all
  have w: "(word_of_int i :: int64) = word_of_int (i mod 2 ^ 64)"
    by (simp add: word_of_int_eq_iff take_bit_eq_mod)
  show ?thesis
  proof (cases "i mod 2 ^ 64 \<le> max_int64")
    case True
    with m(1) show ?thesis unfolding w by (subst sint64_word_of_int) simp_all
  next
    case False
    let ?j = "i mod 2 ^ 64 - 2 ^ 64"
    have "(word_of_int i :: int64) = word_of_int ?j" unfolding w by simp
    moreover have "sint (word_of_int ?j :: int64) = ?j"
      by (rule sint64_word_of_int) (use False m in simp_all)
    ultimately show ?thesis using False by (simp only: if_False)
  qed
qed

text \<open>C22: what a listing returns for any page and page size. On a healthy connection the page
  is the one that starts at row \<open>(page - 1) * size\<close> modulo \<open>2 ^ 64\<close>, or the database's error when
  that remainder is past the largest \<open>int64\<close>. So a page whose first row is out of the range of
  \<open>int64\<close>, which is empty, is answered with an error or with whatever rows the remainder hits.\<close>

theorem ledger_page_wraps:
  assumes "fates w = []"
  shows "svc_ledger (coin_repo show_id) r ow f w =
    (if page_start f mod 2 ^ 64 < 2 ^ 63
     then Inr (take (nat (page_limit f)) (drop (nat (page_start f mod 2 ^ 64)) (ledger_matches r ow f (tables w))),
               length (ledger_matches r ow f (tables w)))
     else Inl (CoinSql ''query ledger'' InvalidOffset), w)"
proof -
  have "sint (snd (pageBounds (lf_page f) (lf_size f))) =
    (if page_start f mod 2 ^ 64 < 2 ^ 63 then page_start f mod 2 ^ 64 else page_start f mod 2 ^ 64 - 2 ^ 64)"
    unfolding pageBounds_exact(2) sint_wrapped by simp
  moreover have "page_start f mod 2 ^ 64 < 2 ^ 64" by simp
  ultimately show ?thesis using assms
    by (simp add: svc_ledger_def coin_repo_def repo_list_by_owner_def pg_query_healthy sql_ledger_page_def
        pageBounds_exact(1) sql_page_def ledger_matches_def)
qed

theorem ledger_page_wraps_witness:
  "fst (svc_ledger (coin_repo (\<lambda>_. [])) ''web'' 7 (any_filter\<lparr>lf_page := 9223372036854775807, lf_size := 100\<rparr>) demo_w2) =
     Inl (CoinSql ''query ledger'' InvalidOffset) \<and>
   svc_ledger (coin_repo (\<lambda>_. [])) ''web'' 7 (any_filter\<lparr>lf_page := 4611686018427387905, lf_size := 4\<rparr>) demo_w2 =
     (Inr ([demo_reversal, demo_entry], 2), demo_w2)"
proof -
  have f: "fates demo_w2 = []" by (simp add: demo_w2_def)
  have l: "ledger_matches ''web'' 7 (any_filter\<lparr>lf_page := 4611686018427387905, lf_size := 4\<rparr>) (tables demo_w2) =
      [demo_reversal, demo_entry]"
    by (simp add: ledger_matches_def ledger_match_def any_filter_def demo_w2_def demo_entry_def demo_reversal_def)
  show ?thesis
    using ledger_page_wraps [OF f, of "\<lambda>_. []" "''web''" 7 "any_filter\<lparr>lf_page := 9223372036854775807, lf_size := 100\<rparr>"]
      ledger_page_wraps [OF f, of "\<lambda>_. []" "''web''" 7 "any_filter\<lparr>lf_page := 4611686018427387905, lf_size := 4\<rparr>"]
    by (simp add: page_start_def page_limit_def l)
qed

end
