(* ===== verification/GoErrors.thy ===== *)
theory GoErrors
  imports GoStrings
begin

text \<open>
  Go errors as values. A package's \<open>errors.New\<close> value is a \<open>Sentinel\<close> named after its
  variable, \<open>fmt.Errorf\<close> with \<open>%w\<close> is \<open>Wrapped\<close>, a driver error is \<open>PgErr\<close>, and an error
  with no identity of its own is \<open>Plain\<close>. \<open>errors_is\<close> and \<open>errors_as_pg\<close> walk the chain as
  \<open>errors.Is\<close> and \<open>errors.As(err, &pgErr)\<close> do.
\<close>

datatype goerr =
    Sentinel string
  | Wrapped string goerr
  | PgErr sqlerr
  | Plain string

fun errors_is :: "goerr \<Rightarrow> goerr \<Rightarrow> bool" where
  "errors_is (Wrapped c e) t = (Wrapped c e = t \<or> errors_is e t)"
| "errors_is e t = (e = t)"

text \<open>The server's error in the chain: a lost connection or an empty result is not one.\<close>

fun errors_as_pg :: "goerr \<Rightarrow> sqlerr option" where
  "errors_as_pg (Wrapped _ e) = errors_as_pg e"
| "errors_as_pg (PgErr e) = (if e = ConnLost \<or> e = NoRows then None else Some e)"
| "errors_as_pg _ = None"

fun unique_violation :: "goerr \<Rightarrow> string option" where
  "unique_violation e =
     (case errors_as_pg e of Some (UniqueViolation c) \<Rightarrow> Some c | _ \<Rightarrow> None)"

lemma errors_is_refl [simp]: "errors_is e e"
  by (cases e) simp_all

text \<open>A method that runs one statement and wraps its error.\<close>

definition wrap_err :: "string \<Rightarrow> (sqlerr + 'a) \<times> 's \<Rightarrow> (goerr + 'a) \<times> 's" where
  "wrap_err c rw = (case rw of (Inl e, w) \<Rightarrow> (Inl (Wrapped c (PgErr e)), w) | (Inr a, w) \<Rightarrow> (Inr a, w))"

lemma wrap_err_Inr [simp]: "wrap_err c rw = (Inr a, w) \<longleftrightarrow> rw = (Inr a, w)"
  by (auto simp: wrap_err_def split: prod.splits sum.splits)

lemma wrap_err_Inl:
  "wrap_err c rw = (Inl er, w) \<longleftrightarrow> (\<exists>e. rw = (Inl e, w) \<and> er = Wrapped c (PgErr e))"
  by (auto simp: wrap_err_def split: prod.splits sum.splits)

end
