(* ===== verification/IdentityDb.thy ===== *)
theory IdentityDb
  imports GoErrors
begin

text \<open>
  The tables of the two identity realms (migrations \<open>000001\<close> to \<open>000016\<close>): users with their
  roles and role profiles, back-office accounts, one table of refresh tokens per realm, and the
  verification codes. Rows are kept in insertion order; a nullable column is an option.
  Instants have the resolution the database stores.
\<close>

subsection \<open>Rows\<close>

record user_row =
  ur_id :: uuid
  ur_phone :: "string option"
  ur_email :: "string option"
  ur_hash :: string
  ur_name :: string
  ur_avatar :: string
  ur_status :: string
  ur_last_role :: "string option"
  ur_created :: time
  ur_updated :: time

record student_row =
  sp_user :: uuid
  sp_level :: "string option"
  sp_variant :: "string option"

record admin_row =
  ar_id :: uuid
  ar_phone :: string
  ar_email :: "string option"
  ar_hash :: string
  ar_name :: string
  ar_level :: string
  ar_status :: string
  ar_created :: time
  ar_updated :: time

text \<open>\<open>session.Token\<close>, which is also a row of either token table.\<close>

record token =
  t_id :: uuid
  t_user :: uuid
  t_hash :: string
  t_expires :: time
  t_revoked :: "time option"
  t_created :: time

text \<open>\<open>otp.Code\<close>, a row of \<open>verification_codes\<close>.\<close>

record otp_code =
  c_id :: uuid
  c_target :: string
  c_channel :: string
  c_purpose :: string
  c_code :: string
  c_expires :: time
  c_consumed :: "time option"
  c_attempts :: int
  c_created :: time

subsection \<open>Tables\<close>

record id_db =
  users :: "user_row list"
  user_roles :: "(uuid \<times> string) list"
  student_profiles :: "student_row list"
  teacher_profiles :: "uuid list"
  refresh_tokens :: "token list"
  verification_codes :: "otp_code list"
  admins :: "admin_row list"
  admin_refresh_tokens :: "token list"

definition empty_id_db :: id_db where
  "empty_id_db = \<lparr>users = [], user_roles = [], student_profiles = [], teacher_profiles = [],
     refresh_tokens = [], verification_codes = [], admins = [], admin_refresh_tokens = []\<rparr>"

end
