(* ===== verification/GoCrypto.thy ===== *)
theory GoCrypto
  imports Prelude
begin

text \<open>
  The parts of Go's standard library behind the refresh tokens: \<open>crypto/sha256\<close>,
  \<open>encoding/hex\<close> and the unpadded URL alphabet of \<open>encoding/base64\<close>. They are written out
  over 8- and 32-bit words; the random source itself is an argument of the code that uses it.
\<close>

unbundle bit_operations_syntax

type_synonym byte = "8 word"

definition bytes_of :: "string \<Rightarrow> byte list" where
  "bytes_of s = map (\<lambda>c. of_nat (of_char c)) s"

subsection \<open>SHA-256\<close>

text \<open>The round constants, the first 32 bits of the fractions of the cube roots of the first 64
  primes, written in decimal.\<close>

definition sha_k :: "32 word list" where
  "sha_k =
    [1116352408, 1899447441, 3049323471, 3921009573, 961987163, 1508970993, 2453635748, 2870763221,
     3624381080, 310598401, 607225278, 1426881987, 1925078388, 2162078206, 2614888103, 3248222580,
     3835390401, 4022224774, 264347078, 604807628, 770255983, 1249150122, 1555081692, 1996064986,
     2554220882, 2821834349, 2952996808, 3210313671, 3336571891, 3584528711, 113926993, 338241895,
     666307205, 773529912, 1294757372, 1396182291, 1695183700, 1986661051, 2177026350, 2456956037,
     2730485921, 2820302411, 3259730800, 3345764771, 3516065817, 3600352804, 4094571909, 275423344,
     430227734, 506948616, 659060556, 883997877, 958139571, 1322822218, 1537002063, 1747873779,
     1955562222, 2024104815, 2227730452, 2361852424, 2428436474, 2756734187, 3204031479, 3329325298]"

definition sha_init :: "32 word list" where
  "sha_init =
    [0x6a09e667, 0xbb67ae85, 0x3c6ef372, 0xa54ff53a, 0x510e527f, 0x9b05688c, 0x1f83d9ab, 0x5be0cd19]"

definition be_bytes :: "nat \<Rightarrow> 'a::len word \<Rightarrow> byte list" where
  "be_bytes n x = map (\<lambda>i. ucast (drop_bit (8 * i) x)) (rev [0..<n])"

definition sha_pad :: "byte list \<Rightarrow> byte list" where
  "sha_pad m = m @ [0x80] @ replicate ((119 - length m mod 64) mod 64) 0 @
     be_bytes 8 (of_nat (8 * length m) :: 64 word)"

fun be_words :: "byte list \<Rightarrow> 32 word list" where
  "be_words (a # b # c # d # bs) =
     (push_bit 24 (ucast a) OR push_bit 16 (ucast b) OR push_bit 8 (ucast c) OR ucast d) # be_words bs"
| "be_words _ = []"

fun chunks :: "nat \<Rightarrow> 'a list \<Rightarrow> 'a list list" where
  "chunks n xs = (if n = 0 \<or> xs = [] then [] else take n xs # chunks n (drop n xs))"

declare chunks.simps [simp del]

definition sha_sched_step :: "32 word list \<Rightarrow> 32 word list" where
  "sha_sched_step w =
     (let n = length w; x = w ! (n - 15); y = w ! (n - 2);
          s0 = word_rotr 7 x XOR word_rotr 18 x XOR drop_bit 3 x;
          s1 = word_rotr 17 y XOR word_rotr 19 y XOR drop_bit 10 y
      in w @ [w ! (n - 16) + s0 + w ! (n - 7) + s1])"

definition sha_round :: "32 word \<times> 32 word \<Rightarrow> 32 word list \<Rightarrow> 32 word list" where
  "sha_round kw st =
     (case st of
        [a, b, c, d, e, f, g, h] \<Rightarrow>
          (let s1 = word_rotr 6 e XOR word_rotr 11 e XOR word_rotr 25 e;
               ch = (e AND f) XOR (NOT e AND g);
               t1 = h + s1 + ch + fst kw + snd kw;
               s0 = word_rotr 2 a XOR word_rotr 13 a XOR word_rotr 22 a;
               maj = (a AND b) XOR (a AND c) XOR (b AND c)
           in [t1 + s0 + maj, a, b, c, d + t1, e, f, g])
      | _ \<Rightarrow> st)"

definition sha_block :: "byte list \<Rightarrow> 32 word list \<Rightarrow> 32 word list" where
  "sha_block blk st =
     map2 (+) st (fold sha_round (zip sha_k ((sha_sched_step ^^ 48) (be_words blk))) st)"

definition sha256 :: "byte list \<Rightarrow> byte list" where
  "sha256 m = concat (map (be_bytes 4) (fold sha_block (chunks 64 (sha_pad m)) sha_init))"

subsection \<open>Hexadecimal\<close>

definition hex_digit :: "nat \<Rightarrow> char" where
  "hex_digit n = ''0123456789abcdef'' ! n"

definition hex_encode :: "byte list \<Rightarrow> string" where
  "hex_encode bs = concat (map (\<lambda>b. [hex_digit (unat b div 16), hex_digit (unat b mod 16)]) bs)"

subsection \<open>Base64, URL alphabet, no padding\<close>

definition b64_alphabet :: string where
  "b64_alphabet = ''ABCDEFGHIJKLMNOPQRSTUVWXYZabcdefghijklmnopqrstuvwxyz0123456789-_''"

definition b64_char :: "nat \<Rightarrow> char" where
  "b64_char n = b64_alphabet ! (n mod 64)"

fun b64_encode :: "byte list \<Rightarrow> string" where
  "b64_encode (a # b # c # bs) =
     (let n = 65536 * unat a + 256 * unat b + unat c in
      [b64_char (n div 262144), b64_char (n div 4096), b64_char (n div 64), b64_char n] @ b64_encode bs)"
| "b64_encode [a, b] =
     (let n = 65536 * unat a + 256 * unat b in
      [b64_char (n div 262144), b64_char (n div 4096), b64_char (n div 64)])"
| "b64_encode [a] = (let n = 65536 * unat a in [b64_char (n div 262144), b64_char (n div 4096)])"
| "b64_encode [] = []"

lemma hex_encode_length: "length (hex_encode bs) = 2 * length bs"
  by (induction bs) (simp_all add: hex_encode_def)

lemma b64_alphabet_distinct: "distinct b64_alphabet"
  by (simp add: b64_alphabet_def)

lemma b64_alphabet_length: "length b64_alphabet = 64"
  by (simp add: b64_alphabet_def)

lemma b64_char_inj: "b64_char i = b64_char j \<longleftrightarrow> i mod 64 = j mod 64"
  using nth_eq_iff_index_eq [OF b64_alphabet_distinct, of "i mod 64" "j mod 64"]
  by (simp add: b64_char_def b64_alphabet_length)

lemma b64_char_alphabet: "b64_char i \<in> set b64_alphabet"
  by (simp add: b64_char_def b64_alphabet_length)

lemma b64_encode_alphabet: "set (b64_encode bs) \<subseteq> set b64_alphabet"
  by (induction bs rule: b64_encode.induct) (auto simp: Let_def b64_char_alphabet)

lemma b64_encode_length: "length (b64_encode bs) = (4 * length bs + 2) div 3"
  by (induction bs rule: b64_encode.induct) (auto simp: Let_def)

lemma div_mod_eqI: "m div k = n div k \<Longrightarrow> m mod k = n mod k \<Longrightarrow> m = (n :: nat)"
  by (metis div_mult_mod_eq)

lemma nat_digits_24:
  fixes m n :: nat
  assumes "m < 16777216" and "n < 16777216"
    and "m div 262144 mod 64 = n div 262144 mod 64" and "m div 4096 mod 64 = n div 4096 mod 64"
    and "m div 64 mod 64 = n div 64 mod 64" and "m mod 64 = n mod 64"
  shows "m = n"
proof -
  have d: "x div 4096 = x div 64 div 64" "x div 262144 = x div 64 div 64 div 64" for x :: nat
    by (simp_all add: div_mult2_eq [symmetric])
  have "m div 262144 < 64" "n div 262144 < 64" using assms(1,2) by simp_all
  then have "m div 64 div 64 div 64 = n div 64 div 64 div 64" using assms(3) by (simp add: d)
  then have "m div 64 div 64 = n div 64 div 64" by (rule div_mod_eqI) (use assms(4) in \<open>simp add: d\<close>)
  then have "m div 64 = n div 64" by (rule div_mod_eqI) (use assms(5) in simp)
  then show ?thesis by (rule div_mod_eqI) (use assms(6) in simp)
qed

lemma byte_lt: "unat (a :: byte) < 256"
  using unsigned_less [of a] by simp

lemma base256_inj:
  fixes x y c d :: nat
  assumes "256 * x + c = 256 * y + d" and "c < 256" and "d < 256"
  shows "x = y \<and> c = d"
proof -
  have "(256 * x + c) mod 256 = (256 * y + d) mod 256" using assms(1) by simp
  then have "c = d" using assms(2,3) by simp
  with assms(1) show ?thesis by simp
qed

lemma mod_64_simps:
  "(65536 * a + 256 * b) mod 64 = (0 :: nat)"
  "65536 * a mod 64 = (0 :: nat)"
  "65536 * a div 64 mod 64 = (0 :: nat)"
proof -
  have *: "65536 * a + 256 * b = 64 * (1024 * a + 4 * b)" for a b :: nat by simp
  show "(65536 * a + 256 * b) mod 64 = (0 :: nat)" unfolding * by simp
  have **: "65536 * a = 64 * (64 * (16 * a))" for a :: nat by simp
  show "65536 * a mod 64 = (0 :: nat)" "65536 * a div 64 mod 64 = (0 :: nat)"
    unfolding ** by simp_all
qed

lemma bytes3_inj:
  fixes a b c a' b' c' :: byte
  assumes "65536 * unat a + 256 * unat b + unat c = 65536 * unat a' + 256 * unat b' + unat c'"
  shows "a = a' \<and> b = b' \<and> c = c'"
proof -
  have "256 * (256 * unat a + unat b) + unat c = 256 * (256 * unat a' + unat b') + unat c'"
    using assms by simp
  from base256_inj [OF this byte_lt byte_lt] base256_inj [OF _ byte_lt byte_lt]
  have "unat a = unat a' \<and> unat b = unat b' \<and> unat c = unat c'" by blast
  then show ?thesis by (simp add: word_unat_eq_iff)
qed

lemma b64_encode_inj:
  "b64_encode xs = b64_encode ys \<Longrightarrow> length xs = length ys \<Longrightarrow> xs = ys"
proof (induction xs arbitrary: ys rule: b64_encode.induct)
  case (1 a b c bs)
  have "length ys = Suc (Suc (Suc (length bs)))" using 1(3) by simp
  then obtain a' b' c' bs' where ys: "ys = a' # b' # c' # bs'"
    by (metis length_Suc_conv)
  let ?m = "65536 * unat a + 256 * unat b + unat c"
  let ?n = "65536 * unat a' + 256 * unat b' + unat c'"
  have lt: "?m < 16777216" "?n < 16777216"
    using byte_lt [of a] byte_lt [of b] byte_lt [of c]
      byte_lt [of a'] byte_lt [of b'] byte_lt [of c'] by linarith+
  have "?m = ?n"
    using 1(2) unfolding ys by (intro nat_digits_24 [OF lt]) (simp_all add: Let_def b64_char_inj)
  with bytes3_inj have "a = a' \<and> b = b' \<and> c = c'" by blast
  moreover have "bs = bs'"
    by (rule 1(1) [OF refl]) (use 1(2,3) in \<open>simp_all add: ys Let_def\<close>)
  ultimately show ?case by (simp add: ys)
next
  case (2 a b)
  have "length ys = Suc (Suc 0)" using 2(2) by simp
  then obtain a' b' where ys: "ys = [a', b']"
    by (metis length_Suc_conv length_0_conv)
  let ?m = "65536 * unat a + 256 * unat b + unat (0 :: byte)"
  let ?n = "65536 * unat a' + 256 * unat b' + unat (0 :: byte)"
  have lt: "?m < 16777216" "?n < 16777216"
    using byte_lt [of a] byte_lt [of b] byte_lt [of a'] byte_lt [of b'] by simp_all
  have "?m = ?n"
    using 2(1) unfolding ys by (intro nat_digits_24 [OF lt]) (simp_all add: Let_def b64_char_inj mod_64_simps)
  with bytes3_inj have "a = a' \<and> b = b'" by blast
  with ys show ?case by simp
next
  case (3 a)
  have "length ys = Suc 0" using 3(2) by simp
  then obtain a' where ys: "ys = [a']" by (metis length_Suc_conv length_0_conv)
  let ?m = "65536 * unat a + 256 * unat (0 :: byte) + unat (0 :: byte)"
  let ?n = "65536 * unat a' + 256 * unat (0 :: byte) + unat (0 :: byte)"
  have lt: "?m < 16777216" "?n < 16777216"
    using byte_lt [of a] byte_lt [of a'] by simp_all
  have "?m = ?n"
    using 3(1) unfolding ys by (intro nat_digits_24 [OF lt]) (simp_all add: Let_def b64_char_inj mod_64_simps)
  with bytes3_inj have "a = a'" by blast
  with ys show ?case by simp
next
  case 4
  then show ?case by simp
qed

end
