(* ===== verification/Session.thy ===== *)
theory Session
  imports IdentityDb GoCrypto
begin

text \<open>
  Refresh tokens (\<open>internal/session\<close> and \<open>internal/admin/sessionrepo.go\<close>). The two
  repositories run the same four statements over two tables; \<open>token_table\<close> says which table,
  which owner it references and how its errors are worded, and \<open>web_tokens\<close> and
  \<open>admin_tokens\<close> are the two tables. The service works over a record of store operations. The
  locale \<open>session_store_laws\<close> is the contract of the store; it is interpreted on both
  repositories. \<open>uuid.New()\<close>, \<open>time.Now()\<close> and the bytes of \<open>rand.Read\<close> (\<open>None\<close> when it
  fails) are arguments.
\<close>

subsection \<open>The repositories\<close>

record token_table =
  tt_rows :: "id_db \<Rightarrow> token list"
  tt_put :: "token list \<Rightarrow> id_db \<Rightarrow> id_db"
  tt_owner :: "id_db \<Rightarrow> uuid list"
  tt_name :: string
  tt_fkey :: string
  tt_label :: string

definition web_tokens :: token_table where
  "web_tokens = \<lparr>tt_rows = refresh_tokens, tt_put = (\<lambda>ts d. d\<lparr>refresh_tokens := ts\<rparr>),
     tt_owner = (\<lambda>d. map ur_id (users d)), tt_name = ''refresh_tokens'', tt_fkey = ''refresh_tokens_user_id_fkey'', tt_label = []\<rparr>"

definition admin_tokens :: token_table where
  "admin_tokens = \<lparr>tt_rows = admin_refresh_tokens, tt_put = (\<lambda>ts d. d\<lparr>admin_refresh_tokens := ts\<rparr>),
     tt_owner = (\<lambda>d. map ar_id (admins d)), tt_name = ''admin_refresh_tokens'', tt_fkey = ''admin_refresh_tokens_admin_id_fkey'',
     tt_label = ''admin ''\<rparr>"

text \<open>\<open>INSERT\<close>: primary key, unique hash, then the foreign key. The insert writes four
  columns; \<open>revoked_at\<close> is null and \<open>created_at\<close> is the server's clock.\<close>

definition stored_token :: "token \<Rightarrow> time \<Rightarrow> token" where
  "stored_token t now = t\<lparr>t_revoked := None, t_created := now\<rparr>"

definition sql_token_insert :: "token_table \<Rightarrow> token \<Rightarrow> time \<Rightarrow> id_db \<Rightarrow> sqlerr + time \<times> id_db" where
  "sql_token_insert T t now d =
     (if t_id t \<in> set (map t_id (tt_rows T d)) then Inl (UniqueViolation (tt_name T @ ''_pkey''))
      else if t_hash t \<in> set (map t_hash (tt_rows T d)) then Inl (UniqueViolation (tt_name T @ ''_hash''))
      else if t_user t \<notin> set (tt_owner T d) then Inl (ForeignKeyViolation (tt_fkey T))
      else Inr (now, tt_put T (tt_rows T d @ [stored_token t now]) d))"

definition sql_token_by_hash :: "token_table \<Rightarrow> string \<Rightarrow> id_db \<Rightarrow> sqlerr + token" where
  "sql_token_by_hash T h d =
     (case find (\<lambda>t. t_hash t = h) (tt_rows T d) of None \<Rightarrow> Inl NoRows | Some t \<Rightarrow> Inr t)"

text \<open>\<open>UPDATE ... SET revoked_at = now() WHERE ... AND revoked_at IS NULL\<close>.\<close>

definition stamp :: "(token \<Rightarrow> bool) \<Rightarrow> time \<Rightarrow> token \<Rightarrow> token" where
  "stamp P now t = (if P t \<and> t_revoked t = None then t\<lparr>t_revoked := Some now\<rparr> else t)"

definition sql_token_revoke ::
  "token_table \<Rightarrow> (token \<Rightarrow> bool) \<Rightarrow> time \<Rightarrow> id_db \<Rightarrow> sqlerr + unit \<times> id_db" where
  "sql_token_revoke T P now d = Inr ((), tt_put T (map (stamp P now) (tt_rows T d)) d)"

abbreviation (input) session_ErrNotFound :: goerr where
  "session_ErrNotFound \<equiv> Sentinel ''session.ErrNotFound''"

abbreviation (input) ErrInvalidRefreshToken :: goerr where
  "ErrInvalidRefreshToken \<equiv> Sentinel ''session.ErrInvalidRefreshToken''"

definition token_save :: "token_table \<Rightarrow> token \<Rightarrow> (id_db, 'z) pgs_scheme \<Rightarrow> (goerr + token) \<times> (id_db, 'z) pgs_scheme" where
  "token_save T t w =
     (case pg_stmt (sql_token_insert T t (pg_now w)) w of
        (Inl e, w1) \<Rightarrow> (Inl (Wrapped (''insert '' @ tt_label T @ ''refresh token'') (PgErr e)), w1)
      | (Inr at, w1) \<Rightarrow> (Inr (t\<lparr>t_created := at\<rparr>), w1))"

definition token_find :: "token_table \<Rightarrow> string \<Rightarrow> (id_db, 'z) pgs_scheme \<Rightarrow> (goerr + token) \<times> (id_db, 'z) pgs_scheme" where
  "token_find T h w =
     (case pg_query (sql_token_by_hash T h) w of
        (Inl e, w1) \<Rightarrow>
          (if e = NoRows then (Inl session_ErrNotFound, w1)
           else (Inl (Wrapped (''query '' @ tt_label T @ ''refresh token'') (PgErr e)), w1))
      | (Inr t, w1) \<Rightarrow> (Inr t, w1))"

definition token_revoke :: "token_table \<Rightarrow> uuid \<Rightarrow> (id_db, 'z) pgs_scheme \<Rightarrow> (goerr + unit) \<times> (id_db, 'z) pgs_scheme" where
  "token_revoke T i w =
     wrap_err (''revoke '' @ tt_label T @ ''refresh token'')
       (pg_stmt (sql_token_revoke T (\<lambda>t. t_id t = i) (pg_now w)) w)"

definition token_revoke_all :: "token_table \<Rightarrow> uuid \<Rightarrow> (id_db, 'z) pgs_scheme \<Rightarrow> (goerr + unit) \<times> (id_db, 'z) pgs_scheme" where
  "token_revoke_all T u w =
     wrap_err (''revoke '' @ (if tt_label T = [] then ''user '' else tt_label T) @ ''refresh tokens'')
       (pg_stmt (sql_token_revoke T (\<lambda>t. t_user t = u) (pg_now w)) w)"

subsection \<open>The service\<close>

record 's session_store =
  ss_save :: "token \<Rightarrow> 's \<Rightarrow> (goerr + token) \<times> 's"
  ss_find :: "string \<Rightarrow> 's \<Rightarrow> (goerr + token) \<times> 's"
  ss_revoke :: "uuid \<Rightarrow> 's \<Rightarrow> (goerr + unit) \<times> 's"
  ss_revoke_all :: "uuid \<Rightarrow> 's \<Rightarrow> (goerr + unit) \<times> 's"

definition token_store :: "token_table \<Rightarrow> (id_db, 'z) pgs_scheme session_store" where
  "token_store T = \<lparr>ss_save = token_save T, ss_find = token_find T, ss_revoke = token_revoke T,
     ss_revoke_all = token_revoke_all T\<rparr>"

definition web_session_store :: "(id_db, 'z) pgs_scheme session_store" where
  "web_session_store = token_store web_tokens"

definition admin_session_store :: "(id_db, 'z) pgs_scheme session_store" where
  "admin_session_store = token_store admin_tokens"

text \<open>\<open>generateToken\<close>: 32 random bytes. A failed \<open>rand.Read\<close> is \<open>None\<close>.\<close>

definition generateToken :: "byte list option \<Rightarrow> goerr + string" where
  "generateToken raw = (case raw of None \<Rightarrow> Inl (Plain ''rand'') | Some b \<Rightarrow> Inr (b64_encode (take 32 b)))"

definition hashToken :: "string \<Rightarrow> string" where
  "hashToken raw = hex_encode (sha256 (bytes_of raw))"

text \<open>What one call draws from its environment: the clock, a fresh id, the random bytes.\<close>

record draw =
  dr_now :: time
  dr_id :: uuid
  dr_bytes :: "byte list option"

definition sess_issue_new :: "'s session_store \<Rightarrow> time \<Rightarrow> draw \<Rightarrow> uuid \<Rightarrow> 's \<Rightarrow> (goerr + string) \<times> 's" where
  "sess_issue_new st ttl dr u s =
     (case generateToken (dr_bytes dr) of
        Inl e \<Rightarrow> (Inl (Wrapped ''generate refresh token'' e), s)
      | Inr raw \<Rightarrow>
          (case ss_save st \<lparr>t_id = dr_id dr, t_user = u, t_hash = hashToken raw,
                           t_expires = dr_now dr + ttl, t_revoked = None, t_created = 0\<rparr> s of
             (Inl e, s1) \<Rightarrow> (Inl (Wrapped ''save refresh token'' e), s1)
           | (Inr _, s1) \<Rightarrow> (Inr raw, s1)))"

definition sess_issue :: "'s session_store \<Rightarrow> time \<Rightarrow> draw \<Rightarrow> uuid \<Rightarrow> 's \<Rightarrow> (goerr + string) \<times> 's" where
  "sess_issue st ttl dr u s =
     (case ss_revoke_all st u s of
        (Inl e, s1) \<Rightarrow> (Inl (Wrapped ''revoke existing tokens'' e), s1)
      | (Inr _, s1) \<Rightarrow> sess_issue_new st ttl dr u s1)"

definition sess_rotate ::
  "'s session_store \<Rightarrow> time \<Rightarrow> draw \<Rightarrow> string \<Rightarrow> 's \<Rightarrow> (goerr + uuid \<times> string) \<times> 's" where
  "sess_rotate st ttl dr raw s =
     (case ss_find st (hashToken raw) s of
        (Inl e, s1) \<Rightarrow>
          (if errors_is e session_ErrNotFound then (Inl ErrInvalidRefreshToken, s1)
           else (Inl (Wrapped ''lookup refresh token'' e), s1))
      | (Inr t, s1) \<Rightarrow>
          (if t_revoked t \<noteq> None \<or> t_expires t < dr_now dr then (Inl ErrInvalidRefreshToken, s1)
           else case ss_revoke st (t_id t) s1 of
             (Inl e, s2) \<Rightarrow> (Inl (Wrapped ''revoke rotated token'' e), s2)
           | (Inr _, s2) \<Rightarrow>
               (case sess_issue_new st ttl dr (t_user t) s2 of
                  (Inl e, s3) \<Rightarrow> (Inl e, s3)
                | (Inr newRaw, s3) \<Rightarrow> (Inr (t_user t, newRaw), s3))))"

definition sess_revoke :: "'s session_store \<Rightarrow> string \<Rightarrow> 's \<Rightarrow> (goerr + unit) \<times> 's" where
  "sess_revoke st raw s =
     (case ss_find st (hashToken raw) s of
        (Inl e, s1) \<Rightarrow>
          (if errors_is e session_ErrNotFound then (Inr (), s1)
           else (Inl (Wrapped ''lookup refresh token'' e), s1))
      | (Inr t, s1) \<Rightarrow>
          (case ss_revoke st (t_id t) s1 of
             (Inl e, s2) \<Rightarrow> (Inl (Wrapped ''revoke refresh token'' e), s2)
           | (Inr _, s2) \<Rightarrow> (Inr (), s2)))"

definition sess_revoke_all :: "'s session_store \<Rightarrow> uuid \<Rightarrow> 's \<Rightarrow> (goerr + unit) \<times> 's" where
  "sess_revoke_all st u s =
     (case ss_revoke_all st u s of
        (Inl e, s1) \<Rightarrow> (Inl (Wrapped ''revoke all refresh tokens'' e), s1)
      | (Inr _, s1) \<Rightarrow> (Inr (), s1))"

end
