(* ===== verification/SessionInv.thy ===== *)
theory SessionInv
  imports Session
begin

text \<open>
  The contract of a token store and what follows from it for the session service: at most one
  unrevoked token per owner, and a revoked token never comes back. Both repositories satisfy
  the contract.
\<close>

subsection \<open>Vocabulary\<close>

definition active_of :: "uuid \<Rightarrow> token list \<Rightarrow> token list" where
  "active_of u ts = filter (\<lambda>t. t_user t = u \<and> t_revoked t = None) ts"

definition token_inv :: "token list \<Rightarrow> bool" where
  "token_inv ts \<longleftrightarrow> distinct (map t_id ts) \<and> distinct (map t_hash ts) \<and>
     (\<forall>u. length (active_of u ts) \<le> 1)"

text \<open>The stored hash \<open>h\<close> belongs to a revoked token.\<close>

definition dead :: "string \<Rightarrow> token list \<Rightarrow> bool" where
  "dead h ts \<longleftrightarrow> (\<exists>t \<in> set ts. t_hash t = h \<and> t_revoked t \<noteq> None)"

lemma stamp_simps [simp]:
  "t_id (stamp P now t) = t_id t" "t_user (stamp P now t) = t_user t"
  "t_hash (stamp P now t) = t_hash t" "t_expires (stamp P now t) = t_expires t"
  "t_revoked (stamp P now t) = (if P t \<and> t_revoked t = None then Some now else t_revoked t)"
  by (simp_all add: stamp_def)

lemma stored_token_simps [simp]:
  "t_id (stored_token t now) = t_id t" "t_user (stored_token t now) = t_user t"
  "t_hash (stored_token t now) = t_hash t" "t_expires (stored_token t now) = t_expires t"
  "t_revoked (stored_token t now) = None"
  by (simp_all add: stored_token_def)

lemma map_stamp_keys [simp]:
  "map t_id (map (stamp P now) ts) = map t_id ts"
  "map t_hash (map (stamp P now) ts) = map t_hash ts"
  by (induction ts) simp_all

lemma active_of_stamp:
  "active_of u (map (stamp P now) ts) =
     filter (\<lambda>t. \<not> P t) (active_of u ts)" if "\<forall>t \<in> set ts. \<forall>x. P (t\<lparr>t_revoked := x\<rparr>) = P t"
  using that by (induction ts) (auto simp: active_of_def stamp_def)

lemma active_of_stamp_le: "length (active_of u (map (stamp P now) ts)) \<le> length (active_of u ts)"
  by (induction ts) (auto simp: active_of_def)

lemma token_inv_stamp: "token_inv ts \<Longrightarrow> token_inv (map (stamp P now) ts)"
  unfolding token_inv_def map_stamp_keys using active_of_stamp_le le_trans by blast

lemma dead_stamp: "dead h ts \<Longrightarrow> dead h (map (stamp P now) ts)"
  by (auto simp: dead_def)

lemma dead_append: "dead h ts \<Longrightarrow> dead h (ts @ us)"
  by (auto simp: dead_def)

lemma token_inv_snoc:
  assumes "token_inv ts" and "t_id t \<notin> set (map t_id ts)" and "t_hash t \<notin> set (map t_hash ts)"
    and "active_of (t_user t) ts = []"
  shows "token_inv (ts @ [stored_token t now])"
  using assms by (auto simp: token_inv_def active_of_def)

lemma stamp_all_none: "active_of u (map (stamp (\<lambda>t. t_user t = u) now) ts) = []"
  by (auto simp: active_of_def filter_empty_conv)

lemma stamp_one_none:
  assumes "token_inv ts" and "t \<in> set ts" and "t_revoked t = None"
  shows "active_of (t_user t) (map (stamp (\<lambda>x. t_id x = t_id t) now) ts) = []"
proof -
  have "t \<in> set (active_of (t_user t) ts)" using assms(2,3) by (simp add: active_of_def)
  moreover have "length (active_of (t_user t) ts) \<le> 1" using assms(1) by (simp add: token_inv_def)
  ultimately have a: "active_of (t_user t) ts = [t]"
    by (cases "active_of (t_user t) ts") (auto simp: length_Suc_conv)
  have "x = t" if "x \<in> set ts" "t_user x = t_user t" "t_revoked x = None" for x
  proof -
    have "x \<in> set (active_of (t_user t) ts)" using that by (simp add: active_of_def)
    with a show ?thesis by simp
  qed
  then show ?thesis by (auto simp: active_of_def filter_empty_conv)
qed

lemma dead_unique:
  assumes "token_inv ts" and "dead (t_hash t) ts" and "t \<in> set ts"
  shows "t_revoked t \<noteq> None"
proof -
  obtain t' where t': "t' \<in> set ts" "t_hash t' = t_hash t" "t_revoked t' \<noteq> None"
    using assms(2) by (auto simp: dead_def)
  have "t' = t"
    using assms(1,3) t' by (auto simp: token_inv_def distinct_map dest: inj_onD)
  with t' show ?thesis by simp
qed

subsection \<open>Runs of the service\<close>

text \<open>
  Any sequence of calls of the service, with anything in between that leaves the token table
  alone (users registering, the clock, the fates of statements).
\<close>

inductive sess_run :: "'s session_store \<Rightarrow> ('s \<Rightarrow> token list) \<Rightarrow> time \<Rightarrow> 's \<Rightarrow> 's \<Rightarrow> bool"
  for st rows ttl where
  none: "sess_run st rows ttl s s"
| elsewhere: "sess_run st rows ttl s s1 \<Longrightarrow> rows s2 = rows s1 \<Longrightarrow> sess_run st rows ttl s s2"
| issuing: "sess_run st rows ttl s s1 \<Longrightarrow> sess_issue st ttl dr u s1 = (r, s2) \<Longrightarrow> sess_run st rows ttl s s2"
| rotating: "sess_run st rows ttl s s1 \<Longrightarrow> sess_rotate st ttl dr raw s1 = (p, s2) \<Longrightarrow> sess_run st rows ttl s s2"
| revoking: "sess_run st rows ttl s s1 \<Longrightarrow> sess_revoke st raw s1 = (q, s2) \<Longrightarrow> sess_run st rows ttl s s2"
| revoking_all: "sess_run st rows ttl s s1 \<Longrightarrow> sess_revoke_all st u s1 = (q, s2) \<Longrightarrow> sess_run st rows ttl s s2"

subsection \<open>The contract of the store\<close>

locale session_store_laws =
  fixes st :: "'s session_store" and rows :: "'s \<Rightarrow> token list" and now :: "'s \<Rightarrow> time"
  assumes save_Inr: "ss_save st t s = (Inr t', s') \<Longrightarrow>
      t_id t \<notin> set (map t_id (rows s)) \<and> t_hash t \<notin> set (map t_hash (rows s)) \<and>
      rows s' = rows s @ [stored_token t (now s)]"
    and save_Inl: "ss_save st t s = (Inl e, s') \<Longrightarrow> rows s' = rows s \<or>
      (t_id t \<notin> set (map t_id (rows s)) \<and> t_hash t \<notin> set (map t_hash (rows s)) \<and>
       rows s' = rows s @ [stored_token t (now s)])"
    and find_Inr: "ss_find st h s = (Inr t, s') \<Longrightarrow> t \<in> set (rows s) \<and> t_hash t = h \<and> rows s' = rows s"
    and find_Inl: "ss_find st h s = (Inl e, s') \<Longrightarrow> rows s' = rows s \<and>
      (errors_is e session_ErrNotFound \<longrightarrow> h \<notin> set (map t_hash (rows s)))"
    and revoke: "ss_revoke st i s = (r, s') \<Longrightarrow>
      rows s' = map (stamp (\<lambda>t. t_id t = i) (now s)) (rows s) \<or> (r \<noteq> Inr () \<and> rows s' = rows s)"
    and revoke_all: "ss_revoke_all st u s = (q, s') \<Longrightarrow>
      rows s' = map (stamp (\<lambda>t. t_user t = u) (now s)) (rows s) \<or> (q \<noteq> Inr () \<and> rows s' = rows s)"
begin

lemma revoke_Inr:
  "ss_revoke st i s = (Inr x, s') \<Longrightarrow> rows s' = map (stamp (\<lambda>t. t_id t = i) (now s)) (rows s)"
  using revoke by fastforce

lemma revoke_all_Inr:
  "ss_revoke_all st u s = (Inr x, s') \<Longrightarrow> rows s' = map (stamp (\<lambda>t. t_user t = u) (now s)) (rows s)"
  using revoke_all by fastforce

lemma issue_new_rows:
  assumes "sess_issue_new st ttl dr u s = (r, s')"
  shows "(rows s' = rows s \<and> (\<forall>raw. r \<noteq> Inr raw)) \<or>
    (\<exists>t. t_user t = u \<and> t_id t \<notin> set (map t_id (rows s)) \<and> t_hash t \<notin> set (map t_hash (rows s)) \<and>
       t_expires t = dr_now dr + ttl \<and> rows s' = rows s @ [stored_token t (now s)] \<and>
       (\<forall>raw. r = Inr raw \<longrightarrow> t_hash t = hashToken raw))"
proof (cases "generateToken (dr_bytes dr)")
  case (Inl e)
  with assms show ?thesis by (auto simp: sess_issue_new_def)
next
  case (Inr raw)
  define t where "t = \<lparr>t_id = dr_id dr, t_user = u, t_hash = hashToken raw,
                   t_expires = dr_now dr + ttl, t_revoked = None, t_created = 0\<rparr>"
  have t: "t_user t = u" "t_expires t = dr_now dr + ttl" "t_hash t = hashToken raw"
    by (simp_all add: t_def)
  have "sess_issue_new st ttl dr u s = (case ss_save st t s of
      (Inl e, s1) \<Rightarrow> (Inl (Wrapped ''save refresh token'' e), s1) | (Inr _, s1) \<Rightarrow> (Inr raw, s1))"
    by (simp add: sess_issue_new_def Inr t_def)
  with assms obtain q where q: "ss_save st t s = (q, s')" "\<forall>x. r = Inr x \<longrightarrow> x = raw \<and> (\<exists>y. q = Inr y)"
    by (cases "ss_save st t s") (auto split: sum.splits)
  show ?thesis
  proof (cases q)
    case (Inr y)
    with q(1) have "ss_save st t s = (Inr y, s')" by simp
    from save_Inr [OF this] t q(2) show ?thesis by blast
  next
    case (Inl e)
    with q(1) have "ss_save st t s = (Inl e, s')" by simp
    from save_Inl [OF this] t q(2) Inl show ?thesis by blast
  qed
qed

lemma issue_new_inv:
  assumes "token_inv (rows s)" and "active_of u (rows s) = []"
    and "sess_issue_new st ttl dr u s = (r, s')"
  shows "token_inv (rows s')"
  using issue_new_rows [OF assms(3)] assms(1,2) token_inv_snoc by metis

lemma issue_new_dead:
  assumes "dead h (rows s)" and "sess_issue_new st ttl dr u s = (r, s')"
  shows "dead h (rows s')"
  using issue_new_rows [OF assms(2)] assms(1) dead_append by metis

lemma issue_inv:
  assumes "token_inv (rows s)" and "sess_issue st ttl dr u s = (r, s')"
  shows "token_inv (rows s')"
proof (cases "ss_revoke_all st u s")
  case (Pair q s1)
  show ?thesis
  proof (cases q)
    case (Inl e)
    with assms(2) Pair have "s' = s1" by (simp add: sess_issue_def)
    with revoke_all [OF Pair] assms(1) token_inv_stamp show ?thesis by auto
  next
    case (Inr x)
    with Pair have r1: "rows s1 = map (stamp (\<lambda>t. t_user t = u) (now s)) (rows s)"
      using revoke_all_Inr by blast
    from assms(2) Pair Inr have "sess_issue_new st ttl dr u s1 = (r, s')" by (simp add: sess_issue_def)
    with r1 show ?thesis
      using issue_new_inv token_inv_stamp [OF assms(1)] stamp_all_none by metis
  qed
qed

lemma issue_dead:
  assumes "dead h (rows s)" and "sess_issue st ttl dr u s = (r, s')"
  shows "dead h (rows s')"
proof (cases "ss_revoke_all st u s")
  case (Pair q s1)
  with revoke_all [OF Pair] assms(1) dead_stamp have d: "dead h (rows s1)" by auto
  then show ?thesis
    using assms(2) Pair issue_new_dead [OF d] by (auto simp: sess_issue_def split: sum.splits)
qed

text \<open>A rotation either fails before it touched the presented token, or fails while revoking
  it, or has revoked it and goes on to issue the next one.\<close>

lemma rotate_cases:
  assumes "sess_rotate st ttl dr raw s = (p, s')"
  obtains (same) "rows s' = rows s" "\<forall>x. p \<noteq> Inr x"
  | (spent) t n where "t \<in> set (rows s)" "t_hash t = hashToken raw" "t_revoked t = None" "\<forall>x. p \<noteq> Inr x"
      "rows s' = map (stamp (\<lambda>x. t_id x = t_id t) n) (rows s)"
  | (used) t r s2 n where "t \<in> set (rows s)" "t_hash t = hashToken raw" "t_revoked t = None"
      "dr_now dr \<le> t_expires t"
      "rows s2 = map (stamp (\<lambda>x. t_id x = t_id t) n) (rows s)"
      "sess_issue_new st ttl dr (t_user t) s2 = (r, s')"
      "p = map_sum id (Pair (t_user t)) r"
proof (cases "ss_find st (hashToken raw) s")
  case (Pair f s1)
  show ?thesis
  proof (cases f)
    case (Inl e)
    with find_Inl Pair have "rows s1 = rows s" by blast
    with assms Pair Inl show ?thesis
      by (intro same) (auto simp: sess_rotate_def split: if_splits)
  next
    case (Inr t)
    with find_Inr Pair have t: "t \<in> set (rows s)" "t_hash t = hashToken raw" "rows s1 = rows s" by blast+
    show ?thesis
    proof (cases "t_revoked t \<noteq> None \<or> t_expires t < dr_now dr")
      case True
      with assms Pair Inr t show ?thesis by (intro same) (auto simp: sess_rotate_def)
    next
      case False
      then have live: "t_revoked t = None" "dr_now dr \<le> t_expires t" by auto
      obtain q s2 where rv: "ss_revoke st (t_id t) s1 = (q, s2)" by (cases "ss_revoke st (t_id t) s1")
      note a = assms [unfolded sess_rotate_def Pair Inr]
      show ?thesis
      proof (cases q)
        case (Inl e)
        then have "p = Inl (Wrapped ''revoke rotated token'' e)" "s' = s2" using a rv live by auto
        with revoke [OF rv] t live show ?thesis
          by (elim disjE) (rule spent [of t "now s1"], simp_all, rule same, simp_all)
      next
        case (Inr x)
        obtain r s3 where i: "sess_issue_new st ttl dr (t_user t) s2 = (r, s3)"
          by (cases "sess_issue_new st ttl dr (t_user t) s2")
        have "p = map_sum id (Pair (t_user t)) r" "s3 = s'"
          using a rv live Inr i by (auto split: sum.splits)
        with t live revoke_Inr [of "t_id t" s1 x s2] rv Inr i show ?thesis
          by (intro used [of t s2 "now s1" r]) auto
      qed
    qed
  qed
qed

lemma rotate_inv:
  assumes "token_inv (rows s)" and "sess_rotate st ttl dr raw s = (p, s')"
  shows "token_inv (rows s')"
  using assms(2)
proof (cases rule: rotate_cases)
  case (used t r s2 n)
  have "token_inv (rows s2)" using assms(1) used(5) token_inv_stamp by simp
  moreover have "active_of (t_user t) (rows s2) = []"
    using stamp_one_none [OF assms(1) used(1,3)] used(5) by simp
  ultimately show ?thesis using used(6) issue_new_inv by blast
qed (use assms(1) token_inv_stamp in auto)

lemma rotate_dead:
  assumes "dead h (rows s)" and "sess_rotate st ttl dr raw s = (p, s')"
  shows "dead h (rows s')"
  using assms(2)
proof (cases rule: rotate_cases)
  case (used t r s2 n)
  have "dead h (rows s2)" using assms(1) used(5) dead_stamp by simp
  then show ?thesis using used(6) issue_new_dead by blast
qed (use assms(1) dead_stamp in auto)

lemma sess_revoke_rows:
  assumes "sess_revoke st raw s = (q, s')"
  shows "rows s' = rows s \<or> (\<exists>P n. rows s' = map (stamp P n) (rows s))"
  using assms find_Inr find_Inl revoke unfolding sess_revoke_def
  by (auto split: prod.splits sum.splits if_splits) (metis revoke)+

lemma sess_revoke_all_rows:
  assumes "sess_revoke_all st u s = (q, s')"
  shows "rows s' = rows s \<or> (\<exists>n. rows s' = map (stamp (\<lambda>t. t_user t = u) n) (rows s))"
  using assms unfolding sess_revoke_all_def
  by (auto split: prod.splits sum.splits) (metis revoke_all)+

lemma run_inv:
  assumes "sess_run st rows ttl s s'" and "token_inv (rows s)"
  shows "token_inv (rows s')"
  using assms
proof (induction rule: sess_run.induct)
  case (revoking s1 raw q s2)
  then show ?case using sess_revoke_rows [OF revoking(2)] token_inv_stamp by auto
next
  case (revoking_all s1 u q s2)
  then show ?case using sess_revoke_all_rows [OF revoking_all(2)] token_inv_stamp by auto
qed (auto intro: issue_inv rotate_inv)

lemma run_dead:
  assumes "sess_run st rows ttl s s'" and "dead h (rows s)"
  shows "dead h (rows s')"
  using assms
proof (induction rule: sess_run.induct)
  case (revoking s1 raw q s2)
  then show ?case using sess_revoke_rows [OF revoking(2)] dead_stamp by auto
next
  case (revoking_all s1 u q s2)
  then show ?case using sess_revoke_all_rows [OF revoking_all(2)] dead_stamp by auto
qed (auto intro: issue_dead rotate_dead)

text \<open>A dead token is refused, and nothing is issued for it.\<close>

lemma dead_refused:
  assumes "token_inv (rows s)" and "dead (hashToken raw) (rows s)"
    and "sess_rotate st ttl dr raw s = (p, s')"
  shows "(\<forall>x. p \<noteq> Inr x) \<and> rows s' = rows s"
  using assms(3)
proof (cases rule: rotate_cases)
  case (spent t n)
  with assms(1,2) dead_unique [of "rows s" t] show ?thesis by auto
next
  case (used t r s2 n)
  with assms(1,2) dead_unique [of "rows s" t] show ?thesis by auto
qed simp

text \<open>What makes a token dead.\<close>

lemma rotate_kills:
  assumes "sess_rotate st ttl dr raw s = (Inr x, s')"
  shows "dead (hashToken raw) (rows s')"
  using assms
proof (cases rule: rotate_cases)
  case (used t r s2 n)
  then have "dead (hashToken raw) (rows s2)" by (auto simp: dead_def)
  then show ?thesis using used(6) issue_new_dead by blast
qed auto

lemma revoke_kills:
  assumes "sess_revoke st raw s = (Inr x, s')" and "hashToken raw \<in> set (map t_hash (rows s))"
  shows "dead (hashToken raw) (rows s')"
proof (cases "ss_find st (hashToken raw) s")
  case (Pair f s1)
  show ?thesis
  proof (cases f)
    case (Inl e)
    with Pair assms find_Inl show ?thesis by (auto simp: sess_revoke_def split: if_splits)
  next
    case (Inr t)
    with find_Inr Pair have t: "t \<in> set (rows s)" "t_hash t = hashToken raw" "rows s1 = rows s" by blast+
    from assms(1) Pair Inr obtain y where "ss_revoke st (t_id t) s1 = (Inr y, s')"
      by (auto simp: sess_revoke_def split: prod.splits sum.splits)
    from revoke_Inr [OF this] t show ?thesis by (auto simp: dead_def)
  qed
qed

lemma revoke_all_kills:
  assumes "sess_revoke_all st u s = (Inr x, s')" and "t \<in> set (rows s)" and "t_user t = u"
  shows "dead (t_hash t) (rows s')"
proof -
  from assms(1) obtain y where "ss_revoke_all st u s = (Inr y, s')"
    by (auto simp: sess_revoke_all_def split: prod.splits sum.splits)
  from revoke_all_Inr [OF this] assms(2,3) show ?thesis by (auto simp: dead_def)
qed

lemma issue_kills:
  assumes "sess_issue st ttl dr u s = (Inr raw, s')" and "t \<in> set (rows s)" and "t_user t = u"
  shows "dead (t_hash t) (rows s')"
proof -
  from assms(1) obtain y s1 where r: "ss_revoke_all st u s = (Inr y, s1)"
    and i: "sess_issue_new st ttl dr u s1 = (Inr raw, s')"
    by (auto simp: sess_issue_def split: prod.splits sum.splits)
  from revoke_all_Inr [OF r] assms(2,3) have "dead (t_hash t) (rows s1)" by (auto simp: dead_def)
  then show ?thesis using i issue_new_dead by blast
qed

end

end
