(* ===== verification/SessionProps.thy ===== *)
theory SessionProps
  imports SessionInv
begin

text \<open>
  The contract interpreted on the web and the admin repository, and the properties of the
  refresh tokens: one device at a time, a spent token never works again, a fresh one does,
  and the shape of the token itself.
\<close>

subsection \<open>The repositories satisfy the contract\<close>

lemma token_save_effect:
  assumes put: "\<And>ts d. tt_rows T (tt_put T ts d) = ts" and s: "token_save T t w = (r, w')"
  shows "(tt_rows T (tables w') = tt_rows T (tables w) \<and> (\<forall>x. r \<noteq> Inr x)) \<or>
    (t_id t \<notin> set (map t_id (tt_rows T (tables w))) \<and>
     t_hash t \<notin> set (map t_hash (tt_rows T (tables w))) \<and>
     tt_rows T (tables w') = tt_rows T (tables w) @ [stored_token t (pg_now w)])"
  using s put by (auto simp: token_save_def pg_stmt_def sql_token_insert_def
      split: prod.splits sum.splits fate.splits if_splits)

lemma token_find_effect:
  assumes s: "token_find T h w = (r, w')"
  shows "tables w' = tables w \<and> (\<forall>t. r = Inr t \<longrightarrow> t \<in> set (tt_rows T (tables w)) \<and> t_hash t = h) \<and>
    (\<forall>e. r = Inl e \<longrightarrow> errors_is e session_ErrNotFound \<longrightarrow> h \<notin> set (map t_hash (tt_rows T (tables w))))"
  using s unfolding token_find_def pg_query_def pg_stmt_def sql_token_by_hash_def
  by (auto split: prod.splits sum.splits fate.splits if_splits option.splits
      dest: find_SomeD find_NoneD)

lemma token_update_effect:
  assumes put: "\<And>ts d. tt_rows T (tt_put T ts d) = ts"
    and s: "wrap_err c (pg_stmt (sql_token_revoke T P (pg_now w)) w) = (r, w')"
  shows "tt_rows T (tables w') = map (stamp P (pg_now w)) (tt_rows T (tables w)) \<or>
    (r \<noteq> Inr () \<and> tt_rows T (tables w') = tt_rows T (tables w))"
  using s put by (auto simp: wrap_err_def pg_stmt_def sql_token_revoke_def
      split: prod.splits sum.splits fate.splits)

lemma token_store_laws:
  assumes put: "\<And>ts d. tt_rows T (tt_put T ts d) = ts"
  shows "session_store_laws (token_store T) (\<lambda>w. tt_rows T (tables w)) pg_now"
proof unfold_locales
  fix t s t' s' assume "ss_save (token_store T) t s = (Inr t', s')"
  then show "t_id t \<notin> set (map t_id (tt_rows T (tables s))) \<and>
      t_hash t \<notin> set (map t_hash (tt_rows T (tables s))) \<and>
      tt_rows T (tables s') = tt_rows T (tables s) @ [stored_token t (pg_now s)]"
    using token_save_effect [OF put] by (fastforce simp: token_store_def)
next
  fix t s e s' assume "ss_save (token_store T) t s = (Inl e, s')"
  then show "tt_rows T (tables s') = tt_rows T (tables s) \<or>
      (t_id t \<notin> set (map t_id (tt_rows T (tables s))) \<and>
       t_hash t \<notin> set (map t_hash (tt_rows T (tables s))) \<and>
       tt_rows T (tables s') = tt_rows T (tables s) @ [stored_token t (pg_now s)])"
    using token_save_effect [OF put] by (fastforce simp: token_store_def)
next
  fix h s t s' assume "ss_find (token_store T) h s = (Inr t, s')"
  then show "t \<in> set (tt_rows T (tables s)) \<and> t_hash t = h \<and> tt_rows T (tables s') = tt_rows T (tables s)"
    using token_find_effect by (fastforce simp: token_store_def)
next
  fix h s e s' assume "ss_find (token_store T) h s = (Inl e, s')"
  then show "tt_rows T (tables s') = tt_rows T (tables s) \<and>
      (errors_is e session_ErrNotFound \<longrightarrow> h \<notin> set (map t_hash (tt_rows T (tables s))))"
    using token_find_effect by (fastforce simp: token_store_def)
next
  fix i s r s' assume "ss_revoke (token_store T) i s = (r, s')"
  then show "tt_rows T (tables s') = map (stamp (\<lambda>t. t_id t = i) (pg_now s)) (tt_rows T (tables s)) \<or>
      (r \<noteq> Inr () \<and> tt_rows T (tables s') = tt_rows T (tables s))"
    using token_update_effect [OF put] by (simp add: token_store_def token_revoke_def)
next
  fix u s q s' assume "ss_revoke_all (token_store T) u s = (q, s')"
  then show "tt_rows T (tables s') = map (stamp (\<lambda>t. t_user t = u) (pg_now s)) (tt_rows T (tables s)) \<or>
      (q \<noteq> Inr () \<and> tt_rows T (tables s') = tt_rows T (tables s))"
    using token_update_effect [OF put] by (simp add: token_store_def token_revoke_all_def)
qed

interpretation web: session_store_laws "token_store web_tokens" "\<lambda>w. tt_rows web_tokens (tables w)" pg_now
  by (rule token_store_laws) (simp add: web_tokens_def)

interpretation adm: session_store_laws "token_store admin_tokens" "\<lambda>w. tt_rows admin_tokens (tables w)" pg_now
  by (rule token_store_laws) (simp add: admin_tokens_def)

abbreviation (input) token_run where
  "token_run T ttl \<equiv> sess_run (token_store T) (\<lambda>w. tt_rows T (tables w)) ttl"

text \<open>The events after which a token must not work any more: it was rotated, revoked, its
  owner logged out everywhere, or its owner logged in again.\<close>

definition spent_by ::
  "token_table \<Rightarrow> time \<Rightarrow> string \<Rightarrow> id_db pgs \<Rightarrow> id_db pgs \<Rightarrow> bool" where
  "spent_by T ttl raw w w' \<longleftrightarrow>
     (\<exists>dr x. sess_rotate (token_store T) ttl dr raw w = (Inr x, w')) \<or>
     (\<exists>t \<in> set (tt_rows T (tables w)). t_hash t = hashToken raw \<and>
        (sess_revoke (token_store T) raw w = (Inr (), w') \<or>
         sess_revoke_all (token_store T) (t_user t) w = (Inr (), w') \<or>
         (\<exists>dr n. sess_issue (token_store T) ttl dr (t_user t) w = (Inr n, w'))))"

lemma spent_dead:
  assumes "T \<in> {web_tokens, admin_tokens}" and "spent_by T ttl raw w w'"
  shows "dead (hashToken raw) (tt_rows T (tables w'))"
proof -
  have web: "dead (hashToken raw) (tt_rows web_tokens (tables w'))" if "spent_by web_tokens ttl raw w w'"
    using that unfolding spent_by_def
    by (elim disjE exE bexE conjE)
      (metis web.rotate_kills web.revoke_kills web.revoke_all_kills web.issue_kills image_eqI set_map)+
  have adm: "dead (hashToken raw) (tt_rows admin_tokens (tables w'))" if "spent_by admin_tokens ttl raw w w'"
    using that unfolding spent_by_def
    by (elim disjE exE bexE conjE)
      (metis adm.rotate_kills adm.revoke_kills adm.revoke_all_kills adm.issue_kills image_eqI set_map)+
  show ?thesis using assms web adm by auto
qed

lemma token_run_inv:
  assumes "T \<in> {web_tokens, admin_tokens}" and "token_inv (tt_rows T (tables w))"
    and "token_run T ttl w w'"
  shows "token_inv (tt_rows T (tables w'))"
  using assms web.run_inv [of ttl w w'] adm.run_inv [of ttl w w'] by auto

lemma token_run_dead:
  assumes "T \<in> {web_tokens, admin_tokens}" and "dead h (tt_rows T (tables w))"
    and "token_run T ttl w w'"
  shows "dead h (tt_rows T (tables w'))"
  using assms web.run_dead [of ttl w w'] adm.run_dead [of ttl w w'] by auto

lemma token_issue_inv:
  assumes "T \<in> {web_tokens, admin_tokens}" and "token_inv (tt_rows T (tables w))"
    and "sess_issue (token_store T) ttl dr u w = (r, w')"
  shows "token_inv (tt_rows T (tables w'))"
  using assms web.issue_inv [of w ttl dr u r w'] adm.issue_inv [of w ttl dr u r w'] by auto

lemma spent_inv:
  assumes "T \<in> {web_tokens, admin_tokens}" and "token_inv (tt_rows T (tables w))"
    and "spent_by T ttl raw w w'"
  shows "token_inv (tt_rows T (tables w'))"
proof -
  have "token_run T ttl w w'"
    using assms(3) sess_run.none [of "token_store T" "\<lambda>w. tt_rows T (tables w)" ttl w]
    unfolding spent_by_def by (blast intro: sess_run.intros)
  then show ?thesis using token_run_inv assms(1,2) by blast
qed

subsection \<open>Properties\<close>

text \<open>C8: strict single-device login, in both realms. From an empty token table, after any
  sequence of logins, refreshes and logouts, with any statement lost on the way, every owner
  holds at most one unrevoked refresh token, and ids and stored hashes are unique.\<close>

theorem single_device:
  assumes "T \<in> {web_tokens, admin_tokens}" and "tt_rows T (tables w) = []"
    and "token_run T ttl w w'"
  shows "(\<forall>u. length (active_of u (tt_rows T (tables w'))) \<le> 1) \<and>
    distinct (map t_id (tt_rows T (tables w'))) \<and> distinct (map t_hash (tt_rows T (tables w')))"
proof -
  have "token_inv (tt_rows T (tables w))" using assms(2) by (simp add: token_inv_def active_of_def)
  from token_run_inv [OF assms(1) this assms(3)] show ?thesis by (simp add: token_inv_def)
qed

definition demo_sess :: "id_db pgs" where
  "demo_sess = \<lparr>tables = empty_id_db\<lparr>users := [\<lparr>ur_id = 7, ur_phone = Some ''1'', ur_email = None,
       ur_hash = [], ur_name = [], ur_avatar = [], ur_status = ''active'', ur_last_role = None,
       ur_created = 0, ur_updated = 0\<rparr>]\<rparr>, fates = [], pg_now = 50\<rparr>"

definition demo_raw :: string where
  "demo_raw = b64_encode (replicate 32 0)"

definition demo_token :: token where
  "demo_token = \<lparr>t_id = 1, t_user = 7, t_hash = hashToken demo_raw, t_expires = 60, t_revoked = None,
     t_created = 50\<rparr>"

definition demo_sess1 :: "id_db pgs" where
  "demo_sess1 = demo_sess\<lparr>tables := (tables demo_sess)\<lparr>refresh_tokens := [demo_token]\<rparr>\<rparr>"

definition demo_draw :: draw where
  "demo_draw = \<lparr>dr_now = 50, dr_id = 1, dr_bytes = Some (replicate 32 0)\<rparr>"

lemma demo_issue: "sess_issue (token_store web_tokens) 10 demo_draw 7 demo_sess = (Inr demo_raw, demo_sess1)"
  by (simp add: sess_issue_def token_store_def token_revoke_all_def wrap_err_def pg_stmt_healthy
      sql_token_revoke_def sess_issue_new_def generateToken_def demo_draw_def demo_raw_def [symmetric]
      token_save_def sql_token_insert_def web_tokens_def stored_token_def
      demo_sess_def demo_sess1_def demo_token_def empty_id_db_def)

lemma demo_run: "token_run web_tokens 10 demo_sess demo_sess1"
  by (rule sess_run.issuing [OF sess_run.none demo_issue])

theorem single_device_witness: "length (active_of 7 (tt_rows web_tokens (tables demo_sess1))) \<le> 1"
  using single_device [OF _ _ demo_run, THEN conjunct1, THEN spec, of 7]
  by (simp add: demo_sess_def web_tokens_def empty_id_db_def)

text \<open>C23: a spent refresh token never works again. Once a token was rotated, or its owner
  logged out, logged out everywhere or logged in again, it is refused after any later sequence
  of calls, no new token is issued for it, and the table is left as it was.\<close>

theorem spent_token_refused:
  assumes "T \<in> {web_tokens, admin_tokens}" and "token_inv (tt_rows T (tables w))"
    and "spent_by T ttl raw w w1" and "token_run T ttl w1 w2"
    and "sess_rotate (token_store T) ttl dr raw w2 = (p, w3)"
  shows "(\<forall>x. p \<noteq> Inr x) \<and> tt_rows T (tables w3) = tt_rows T (tables w2)"
proof -
  have i: "token_inv (tt_rows T (tables w2))"
    using token_run_inv [OF assms(1) spent_inv [OF assms(1-3)] assms(4)] .
  have d: "dead (hashToken raw) (tt_rows T (tables w2))"
    using token_run_dead [OF assms(1) spent_dead [OF assms(1,3)] assms(4)] .
  show ?thesis
    using assms(1,5) i d web.dead_refused [of w2 raw ttl dr p w3] adm.dead_refused [of w2 raw ttl dr p w3]
    by auto
qed

theorem spent_token_refused_witness:
  "\<exists>w1. sess_revoke_all (token_store web_tokens) 7 demo_sess1 = (Inr (), w1) \<and>
     (\<forall>x. fst (sess_rotate (token_store web_tokens) 10 demo_draw demo_raw w1) \<noteq> Inr x)"
proof -
  obtain w1 where w1: "sess_revoke_all (token_store web_tokens) 7 demo_sess1 = (Inr (), w1)"
    by (simp add: sess_revoke_all_def token_store_def token_revoke_all_def wrap_err_def
        pg_stmt_healthy sql_token_revoke_def demo_sess1_def demo_sess_def)
  have t: "demo_token \<in> set (tt_rows web_tokens (tables demo_sess1))"
    by (simp add: demo_sess1_def web_tokens_def)
  have "token_inv (tt_rows web_tokens (tables demo_sess1))"
    by (simp add: token_inv_def active_of_def demo_sess1_def web_tokens_def)
  moreover have "spent_by web_tokens 10 demo_raw demo_sess1 w1"
    unfolding spent_by_def using w1
    by (intro disjI2 bexI [OF _ t]) (simp add: demo_token_def)
  ultimately show ?thesis
    using spent_token_refused [OF _ _ _ sess_run.none prod.collapse [symmetric]] w1 by blast
qed

subsection \<open>A healthy connection\<close>

lemma tt_laws:
  assumes "T \<in> {web_tokens, admin_tokens}"
  shows "tt_rows T (tt_put T ts d) = ts" and "tt_owner T (tt_put T ts d) = tt_owner T d"
  using assms by (auto simp: web_tokens_def admin_tokens_def)

lemma find_last: "(\<And>x. x \<in> set xs \<Longrightarrow> \<not> P x) \<Longrightarrow> P y \<Longrightarrow> find P (xs @ [y]) = Some y"
  by (induction xs) auto

definition new_token :: "time \<Rightarrow> draw \<Rightarrow> string \<Rightarrow> uuid \<Rightarrow> time \<Rightarrow> token" where
  "new_token ttl dr raw u now = \<lparr>t_id = dr_id dr, t_user = u, t_hash = hashToken raw,
     t_expires = dr_now dr + ttl, t_revoked = None, t_created = now\<rparr>"

definition drawn :: "draw \<Rightarrow> string" where
  "drawn dr = (case dr_bytes dr of None \<Rightarrow> [] | Some b \<Rightarrow> b64_encode (take 32 b))"

lemma issue_new_healthy:
  assumes "fates w = []" and "u \<in> set (tt_owner T (tables w))" and "dr_bytes dr \<noteq> None"
    and "dr_id dr \<notin> set (map t_id (tt_rows T (tables w)))"
    and "hashToken (drawn dr) \<notin> set (map t_hash (tt_rows T (tables w)))"
  shows "sess_issue_new (token_store T) ttl dr u w = (Inr (drawn dr),
     w\<lparr>tables := tt_put T (tt_rows T (tables w) @ [new_token ttl dr (drawn dr) u (pg_now w)]) (tables w)\<rparr>)"
  using assms
  by (auto simp: sess_issue_new_def generateToken_def token_store_def token_save_def pg_stmt_healthy
      sql_token_insert_def stored_token_def new_token_def drawn_def)

lemma issue_healthy:
  assumes "T \<in> {web_tokens, admin_tokens}" and "fates w = []"
    and "u \<in> set (tt_owner T (tables w))" and "dr_bytes dr \<noteq> None"
    and "dr_id dr \<notin> set (map t_id (tt_rows T (tables w)))"
    and "hashToken (drawn dr) \<notin> set (map t_hash (tt_rows T (tables w)))"
  shows "\<exists>w1 ts. sess_issue (token_store T) ttl dr u w = (Inr (drawn dr), w1) \<and> fates w1 = [] \<and>
     tt_owner T (tables w1) = tt_owner T (tables w) \<and>
     map t_id ts = map t_id (tt_rows T (tables w)) \<and> map t_hash ts = map t_hash (tt_rows T (tables w)) \<and>
     tt_rows T (tables w1) = ts @ [new_token ttl dr (drawn dr) u (pg_now w)]"
proof -
  let ?ts = "map (stamp (\<lambda>t. t_user t = u) (pg_now w)) (tt_rows T (tables w))"
  let ?w = "w\<lparr>tables := tt_put T ?ts (tables w)\<rparr>"
  have r: "ss_revoke_all (token_store T) u w = (Inr (), ?w)"
    using assms(2) by (simp add: token_store_def token_revoke_all_def wrap_err_def pg_stmt_healthy
        sql_token_revoke_def)
  have "sess_issue_new (token_store T) ttl dr u ?w = (Inr (drawn dr),
     ?w\<lparr>tables := tt_put T (tt_rows T (tables ?w) @ [new_token ttl dr (drawn dr) u (pg_now ?w)]) (tables ?w)\<rparr>)"
    using assms(2-6) by (intro issue_new_healthy) (auto simp: tt_laws [OF assms(1)] image_image)
  with r show ?thesis
    using assms(2) map_stamp_keys [of "\<lambda>t. t_user t = u" "pg_now w" "tt_rows T (tables w)"]
    by (simp add: sess_issue_def tt_laws [OF assms(1)])
qed

text \<open>C24: a fresh refresh token works. On a healthy connection a login issues a token, and
  presenting it no later than its expiry yields its owner and a new token (unless the new token
  drawn has the hash of a stored one), while presenting it after its expiry is refused.\<close>

theorem fresh_token_works:
  assumes "T \<in> {web_tokens, admin_tokens}" and "fates w = []"
    and "u \<in> set (tt_owner T (tables w))"
    and "dr_bytes dr \<noteq> None" and "dr_bytes dr2 \<noteq> None"
    and "dr_id dr \<notin> set (map t_id (tt_rows T (tables w)))"
    and "dr_id dr2 \<notin> insert (dr_id dr) (set (map t_id (tt_rows T (tables w))))"
    and "hashToken (drawn dr) \<notin> set (map t_hash (tt_rows T (tables w)))"
  shows "\<exists>w1. sess_issue (token_store T) ttl dr u w = (Inr (drawn dr), w1) \<and>
    (if dr_now dr2 \<le> dr_now dr + ttl
     then hashToken (drawn dr2) \<in> insert (hashToken (drawn dr)) (set (map t_hash (tt_rows T (tables w)))) \<or>
       (\<exists>w2. sess_rotate (token_store T) ttl dr2 (drawn dr) w1 = (Inr (u, drawn dr2), w2))
     else sess_rotate (token_store T) ttl dr2 (drawn dr) w1 = (Inl ErrInvalidRefreshToken, w1))"
proof -
  let ?t = "new_token ttl dr (drawn dr) u (pg_now w)"
  obtain w1 ts where i: "sess_issue (token_store T) ttl dr u w = (Inr (drawn dr), w1)"
    and w1: "fates w1 = []" "tt_owner T (tables w1) = tt_owner T (tables w)"
    and ts: "map t_id ts = map t_id (tt_rows T (tables w))" "map t_hash ts = map t_hash (tt_rows T (tables w))"
      "tt_rows T (tables w1) = ts @ [?t]"
    using issue_healthy [OF assms(1-4,6,8)] by blast
  have t: "t_hash ?t = hashToken (drawn dr)" "t_revoked ?t = None" "t_expires ?t = dr_now dr + ttl"
      "t_user ?t = u" "t_id ?t = dr_id dr" by (simp_all add: new_token_def)
  have "find (\<lambda>t. t_hash t = hashToken (drawn dr)) (ts @ [?t]) = Some ?t"
    using assms(8) ts(2) t(1) by (intro find_last) (metis image_eqI set_map)+
  with w1 ts(3) have f: "ss_find (token_store T) (hashToken (drawn dr)) w1 = (Inr ?t, w1)"
    by (simp add: token_store_def token_find_def pg_query_healthy sql_token_by_hash_def)
  let ?rs = "map (stamp (\<lambda>x. t_id x = t_id ?t) (pg_now w1)) (ts @ [?t])"
  let ?w = "w1\<lparr>tables := tt_put T ?rs (tables w1)\<rparr>"
  have r: "ss_revoke (token_store T) (t_id ?t) w1 = (Inr (), ?w)"
    using w1(1) ts(3) by (simp add: token_store_def token_revoke_def wrap_err_def pg_stmt_healthy
        sql_token_revoke_def)
  have k: "map t_id ?rs = map t_id (ts @ [?t])" "map t_hash ?rs = map t_hash (ts @ [?t])"
    by (rule map_stamp_keys)+
  have e: "tt_rows T (tables ?w) = ?rs" "tt_owner T (tables ?w) = tt_owner T (tables w)" "fates ?w = []"
    using w1 by (simp_all add: tt_laws [OF assms(1)])
  have m: "map t_id (ts @ [?t]) = map t_id (tt_rows T (tables w)) @ [dr_id dr]"
      "map t_hash (ts @ [?t]) = map t_hash (tt_rows T (tables w)) @ [hashToken (drawn dr)]"
    using ts(1,2) t(1,5) by simp_all
  have sets: "set (map t_id ?rs) = insert (dr_id dr) (set (map t_id (tt_rows T (tables w))))"
      "set (map t_hash ?rs) = insert (hashToken (drawn dr)) (set (map t_hash (tt_rows T (tables w))))"
    unfolding k m by simp_all
  have n: "sess_issue_new (token_store T) ttl dr2 u ?w = (Inr (drawn dr2),
     ?w\<lparr>tables := tt_put T (tt_rows T (tables ?w) @ [new_token ttl dr2 (drawn dr2) u (pg_now ?w)]) (tables ?w)\<rparr>)"
    if "hashToken (drawn dr2) \<notin> insert (hashToken (drawn dr)) (set (map t_hash (tt_rows T (tables w))))"
    by (rule issue_new_healthy) (use that assms(3,5,7) in \<open>simp_all only: e sets not_False_eq_True\<close>)
  show ?thesis
    using i n r f t by (auto simp: sess_rotate_def)
qed

theorem fresh_token_works_witness:
  "\<exists>dr2 w1. sess_issue (token_store web_tokens) 10 demo_draw 7 demo_sess = (Inr (drawn demo_draw), w1) \<and>
     sess_rotate (token_store web_tokens) 10 dr2 (drawn demo_draw) w1 = (Inl ErrInvalidRefreshToken, w1)"
proof -
  have "tt_rows web_tokens (tables demo_sess) = []" "tt_owner web_tokens (tables demo_sess) = [7]"
    "fates demo_sess = []"
    by (simp_all add: web_tokens_def demo_sess_def empty_id_db_def)
  then show ?thesis
    using fresh_token_works [of web_tokens demo_sess 7 demo_draw
        "demo_draw\<lparr>dr_now := 61, dr_id := 2\<rparr>" 10]
    by (auto simp: demo_draw_def)
qed

text \<open>The shape of a refresh token. From 32 random bytes \<open>generateToken\<close> makes 43 characters
  of the URL alphabet, and different bytes make different tokens.\<close>

theorem generateToken_ok:
  assumes "length b = 32" and "length b' = 32"
  shows "\<exists>raw. generateToken (Some b) = Inr raw \<and> length raw = 43 \<and> set raw \<subseteq> set b64_alphabet \<and>
    (generateToken (Some b') = Inr raw \<longrightarrow> b' = b)"
  using assms b64_encode_inj [of b' b]
  by (auto simp: generateToken_def b64_encode_length dest: b64_encode_alphabet [THEN subsetD])

theorem generateToken_ok_witness:
  "\<exists>raw. generateToken (Some (replicate 32 0)) = Inr raw \<and> length raw = 43"
  using generateToken_ok [of "replicate 32 0" "replicate 32 0"] by auto

end
