(* ===== verification/Otp.thy ===== *)
theory Otp
  imports IdentityDb "HOL-Library.Word"
begin

text \<open>
  One-time verification codes (\<open>internal/otp\<close>): the repository over \<open>verification_codes\<close>, the
  service that generates, rate-limits, sends and verifies codes, and the mock sender. The
  service works over a record of store operations and a sender. Each \<open>rand.Read\<close> of the code
  generator is one element of a list of reads (\<open>None\<close> when it fails); the generator has no
  result (\<open>None\<close>) while the list has not yielded six digits.
\<close>

subsection \<open>Channels\<close>

abbreviation (input) ChannelSMS :: string where "ChannelSMS \<equiv> ''sms''"
abbreviation (input) ChannelEmail :: string where "ChannelEmail \<equiv> ''email''"

definition ChannelFor :: "string \<Rightarrow> string" where
  "ChannelFor target = (if contains_sub target ''@'' then ChannelEmail else ChannelSMS)"

subsection \<open>The repository\<close>

abbreviation (input) otp_ErrNotFound :: goerr where "otp_ErrNotFound \<equiv> Sentinel ''otp.ErrNotFound''"
abbreviation (input) ErrInvalidCode :: goerr where "ErrInvalidCode \<equiv> Sentinel ''otp.ErrInvalidCode''"
abbreviation (input) ErrRateLimited :: goerr where "ErrRateLimited \<equiv> Sentinel ''otp.ErrRateLimited''"

definition code_purposes :: "string list" where
  "code_purposes = [''login'', ''password_reset'', ''account_deletion'', ''contact_bind'']"

text \<open>\<open>INSERT\<close> writes six columns; \<open>consumed_at\<close> is null, \<open>attempts\<close> is 0 and \<open>created_at\<close> is
  the server's clock.\<close>

definition stored_code :: "otp_code \<Rightarrow> time \<Rightarrow> otp_code" where
  "stored_code c now = c\<lparr>c_consumed := None, c_attempts := 0, c_created := now\<rparr>"

definition sql_code_insert :: "otp_code \<Rightarrow> time \<Rightarrow> id_db \<Rightarrow> sqlerr + time \<times> id_db" where
  "sql_code_insert c now d =
     (if c_channel c \<notin> {ChannelSMS, ChannelEmail}
        then Inl (CheckViolation ''verification_codes_channel_check'')
      else if c_purpose c \<notin> set code_purposes
        then Inl (CheckViolation ''verification_codes_purpose_check'')
      else if c_id c \<in> set (map c_id (verification_codes d))
        then Inl (UniqueViolation ''verification_codes_pkey'')
      else Inr (now, d\<lparr>verification_codes := verification_codes d @ [stored_code c now]\<rparr>))"

definition code_pending :: "string \<Rightarrow> string \<Rightarrow> otp_code \<Rightarrow> bool" where
  "code_pending target purpose c \<longleftrightarrow>
     c_target c = target \<and> c_purpose c = purpose \<and> c_consumed c = None"

text \<open>\<open>ORDER BY created_at DESC LIMIT 1\<close>; of several codes created at the same instant, the one
  inserted last.\<close>

definition sql_latest_unconsumed :: "string \<Rightarrow> string \<Rightarrow> id_db \<Rightarrow> sqlerr + otp_code" where
  "sql_latest_unconsumed target purpose d =
     (case rev (sort_key c_created (filter (code_pending target purpose) (verification_codes d))) of
        [] \<Rightarrow> Inl NoRows | c # _ \<Rightarrow> Inr c)"

definition consume_row :: "uuid \<Rightarrow> time \<Rightarrow> otp_code \<Rightarrow> otp_code" where
  "consume_row i now c = (if c_id c = i then c\<lparr>c_consumed := Some now\<rparr> else c)"

definition sql_mark_consumed :: "uuid \<Rightarrow> time \<Rightarrow> id_db \<Rightarrow> sqlerr + unit \<times> id_db" where
  "sql_mark_consumed i now d =
     Inr ((), d\<lparr>verification_codes := map (consume_row i now) (verification_codes d)\<rparr>)"

text \<open>\<open>attempts\<close> is an \<open>INT\<close> column.\<close>

definition guess_row :: "uuid \<Rightarrow> otp_code \<Rightarrow> otp_code" where
  "guess_row i c = (if c_id c = i then c\<lparr>c_attempts := c_attempts c + 1\<rparr> else c)"

definition sql_increment_attempts :: "uuid \<Rightarrow> id_db \<Rightarrow> sqlerr + unit \<times> id_db" where
  "sql_increment_attempts i d =
     (if \<exists>c \<in> set (verification_codes d). c_id c = i \<and> 2147483647 \<le> c_attempts c
      then Inl NumericOutOfRange
      else Inr ((), d\<lparr>verification_codes := map (guess_row i) (verification_codes d)\<rparr>))"

definition code_since :: "string \<Rightarrow> string \<Rightarrow> time \<Rightarrow> otp_code \<Rightarrow> bool" where
  "code_since target purpose since c \<longleftrightarrow>
     c_target c = target \<and> c_purpose c = purpose \<and> since \<le> c_created c"

definition sql_count_since :: "string \<Rightarrow> string \<Rightarrow> time \<Rightarrow> id_db \<Rightarrow> sqlerr + nat" where
  "sql_count_since target purpose since d =
     Inr (length (filter (code_since target purpose since) (verification_codes d)))"

definition otp_save :: "otp_code \<Rightarrow> (id_db, 'z) pgs_scheme \<Rightarrow> (goerr + otp_code) \<times> (id_db, 'z) pgs_scheme" where
  "otp_save c w =
     (case pg_stmt (sql_code_insert c (pg_now w)) w of
        (Inl e, w1) \<Rightarrow> (Inl (Wrapped ''insert code'' (PgErr e)), w1)
      | (Inr at, w1) \<Rightarrow> (Inr (c\<lparr>c_created := at\<rparr>), w1))"

definition otp_latest ::
  "string \<Rightarrow> string \<Rightarrow> (id_db, 'z) pgs_scheme \<Rightarrow> (goerr + otp_code) \<times> (id_db, 'z) pgs_scheme" where
  "otp_latest target purpose w =
     (case pg_query (sql_latest_unconsumed target purpose) w of
        (Inl e, w1) \<Rightarrow>
          (if e = NoRows then (Inl otp_ErrNotFound, w1)
           else (Inl (Wrapped ''query code'' (PgErr e)), w1))
      | (Inr c, w1) \<Rightarrow> (Inr c, w1))"

definition otp_consume :: "uuid \<Rightarrow> (id_db, 'z) pgs_scheme \<Rightarrow> (goerr + unit) \<times> (id_db, 'z) pgs_scheme" where
  "otp_consume i w = wrap_err ''mark consumed'' (pg_stmt (sql_mark_consumed i (pg_now w)) w)"

definition otp_increment :: "uuid \<Rightarrow> (id_db, 'z) pgs_scheme \<Rightarrow> (goerr + unit) \<times> (id_db, 'z) pgs_scheme" where
  "otp_increment i w = wrap_err ''increment attempts'' (pg_stmt (sql_increment_attempts i) w)"

definition otp_count ::
  "string \<Rightarrow> string \<Rightarrow> time \<Rightarrow> (id_db, 'z) pgs_scheme \<Rightarrow> (goerr + nat) \<times> (id_db, 'z) pgs_scheme" where
  "otp_count target purpose since w =
     wrap_err ''count codes'' (pg_query (sql_count_since target purpose since) w)"

subsection \<open>Generating a code\<close>

definition codeDigits :: nat where "codeDigits = 6"

definition digit_char :: "8 word \<Rightarrow> char" where
  "digit_char v = ''0123456789'' ! (unat v mod 10)"

text \<open>The inner loop over one buffer, with its \<open>continue\<close> and its \<open>break\<close>.\<close>

fun take_digits :: "8 word list \<Rightarrow> string \<Rightarrow> string" where
  "take_digits [] out = out"
| "take_digits (v # vs) out =
     (if 250 \<le> unat v then take_digits vs out
      else let out' = out @ [digit_char v] in
           if length out' = codeDigits then out' else take_digits vs out')"

fun generate_loop :: "8 word list option list \<Rightarrow> string \<Rightarrow> (goerr + string) option" where
  "generate_loop reads out =
     (if codeDigits \<le> length out then Some (Inr out)
      else case reads of
        [] \<Rightarrow> None
      | None # _ \<Rightarrow> Some (Inl (Plain ''rand''))
      | Some buf # rest \<Rightarrow> generate_loop rest (take_digits buf out))"

declare generate_loop.simps [simp del]

definition generateCode :: "8 word list option list \<Rightarrow> (goerr + string) option" where
  "generateCode reads = generate_loop reads []"

subsection \<open>The service\<close>

record 's otp_store =
  os_save :: "otp_code \<Rightarrow> 's \<Rightarrow> (goerr + otp_code) \<times> 's"
  os_latest :: "string \<Rightarrow> string \<Rightarrow> 's \<Rightarrow> (goerr + otp_code) \<times> 's"
  os_consume :: "uuid \<Rightarrow> 's \<Rightarrow> (goerr + unit) \<times> 's"
  os_increment :: "uuid \<Rightarrow> 's \<Rightarrow> (goerr + unit) \<times> 's"
  os_count :: "string \<Rightarrow> string \<Rightarrow> time \<Rightarrow> 's \<Rightarrow> (goerr + nat) \<times> 's"

definition otp_repo :: "(id_db, 'z) pgs_scheme otp_store" where
  "otp_repo = \<lparr>os_save = otp_save, os_latest = otp_latest, os_consume = otp_consume,
     os_increment = otp_increment, os_count = otp_count\<rparr>"

text \<open>\<open>Sender.Send\<close>.\<close>

type_synonym 's sender = "string \<Rightarrow> string \<Rightarrow> string \<Rightarrow> 's \<Rightarrow> (goerr + unit) \<times> 's"

record 's otp_service =
  o_store :: "'s otp_store"
  o_sender :: "'s sender"
  o_ttl :: time
  o_cooldown :: time
  o_daily :: int

text \<open>What one request draws: the two readings of the clock, the new id, the random reads.\<close>

record otp_draw =
  od_check :: time
  od_now :: time
  od_id :: uuid
  od_reads :: "8 word list option list"

abbreviation (input) day24 :: time where "day24 \<equiv> 24 * 60 * 60 * 1000000"

definition checkRateLimit ::
  "'s otp_service \<Rightarrow> time \<Rightarrow> string \<Rightarrow> string \<Rightarrow> 's \<Rightarrow> (goerr + unit) \<times> 's" where
  "checkRateLimit sv now target purpose s =
     (case (if 0 < o_cooldown sv
            then (case os_count (o_store sv) target purpose (now - o_cooldown sv) s of
                    (Inl e, s1) \<Rightarrow> (Inl (Wrapped ''cooldown check'' e), s1)
                  | (Inr n, s1) \<Rightarrow> (if 0 < n then (Inl ErrRateLimited, s1) else (Inr (), s1)))
            else (Inr (), s)) of
        (Inl e, s1) \<Rightarrow> (Inl e, s1)
      | (Inr _, s1) \<Rightarrow>
          (if 0 < o_daily sv
           then (case os_count (o_store sv) target purpose (now - day24) s1 of
                   (Inl e, s2) \<Rightarrow> (Inl (Wrapped ''daily-limit check'' e), s2)
                 | (Inr n, s2) \<Rightarrow> (if o_daily sv \<le> int n then (Inl ErrRateLimited, s2) else (Inr (), s2)))
           else (Inr (), s1)))"

definition RequestCode ::
  "'s otp_service \<Rightarrow> otp_draw \<Rightarrow> string \<Rightarrow> string \<Rightarrow> 's \<Rightarrow> ((goerr + unit) \<times> 's) option" where
  "RequestCode sv dr target purpose s =
     (case checkRateLimit sv (od_check dr) target purpose s of
        (Inl e, s1) \<Rightarrow> Some (Inl e, s1)
      | (Inr _, s1) \<Rightarrow>
          (case generateCode (od_reads dr) of
             None \<Rightarrow> None
           | Some (Inl e) \<Rightarrow> Some (Inl (Wrapped ''generate code'' e), s1)
           | Some (Inr code) \<Rightarrow> Some
               (case os_save (o_store sv)
                       \<lparr>c_id = od_id dr, c_target = target, c_channel = ChannelFor target,
                        c_purpose = purpose, c_code = code, c_expires = od_now dr + o_ttl sv,
                        c_consumed = None, c_attempts = 0, c_created = 0\<rparr> s1 of
                  (Inl e, s2) \<Rightarrow> (Inl (Wrapped ''save code'' e), s2)
                | (Inr _, s2) \<Rightarrow>
                    (case o_sender sv (ChannelFor target) target code s2 of
                       (Inl e, s3) \<Rightarrow> (Inl (Wrapped ''send code'' e), s3)
                     | (Inr _, s3) \<Rightarrow> (Inr (), s3)))))"

definition maxVerifyAttempts :: int where "maxVerifyAttempts = 5"

definition Verify ::
  "'s otp_service \<Rightarrow> time \<Rightarrow> string \<Rightarrow> string \<Rightarrow> string \<Rightarrow> 's \<Rightarrow> (goerr + unit) \<times> 's" where
  "Verify sv now target purpose code s =
     (case os_latest (o_store sv) target purpose s of
        (Inl e, s1) \<Rightarrow>
          (if errors_is e otp_ErrNotFound then (Inl ErrInvalidCode, s1)
           else (Inl (Wrapped ''lookup code'' e), s1))
      | (Inr c, s1) \<Rightarrow>
          (if c_expires c < now then (Inl ErrInvalidCode, s1)
           else if maxVerifyAttempts \<le> c_attempts c then (Inl ErrInvalidCode, s1)
           else if c_code c \<noteq> code then
             (case os_increment (o_store sv) (c_id c) s1 of
                (Inl e, s2) \<Rightarrow> (Inl (Wrapped ''record failed attempt'' e), s2)
              | (Inr _, s2) \<Rightarrow> (Inl ErrInvalidCode, s2))
           else
             (case os_consume (o_store sv) (c_id c) s1 of
                (Inl e, s2) \<Rightarrow> (Inl (Wrapped ''consume code'' e), s2)
              | (Inr _, s2) \<Rightarrow> (Inr (), s2))))"

subsection \<open>The mock sender\<close>

record mock_world = "id_db pgs" +
  last_sent :: "string \<rightharpoonup> string"

definition mock_Send :: "mock_world sender" where
  "mock_Send ch target code w = (Inr (), w\<lparr>last_sent := (last_sent w)(target \<mapsto> code)\<rparr>)"

definition LastCode :: "string \<Rightarrow> mock_world \<Rightarrow> string" where
  "LastCode target w = (case last_sent w target of None \<Rightarrow> [] | Some c \<Rightarrow> c)"

end
