(* ===== verification/OtpInv.thy ===== *)
theory OtpInv
  imports Otp
begin

text \<open>
  The contract of the code store, the lemmas of the code service over it, and the contract
  interpreted on the repository.
\<close>

subsection \<open>Vocabulary\<close>

text \<open>What \<open>Verify\<close> accepts: a pending, live, unlocked code with the submitted digits.\<close>

definition acceptable :: "time \<Rightarrow> string \<Rightarrow> string \<Rightarrow> string \<Rightarrow> otp_code \<Rightarrow> bool" where
  "acceptable now target purpose code c \<longleftrightarrow>
     code_pending target purpose c \<and> now \<le> c_expires c \<and> c_attempts c < maxVerifyAttempts \<and> c_code c = code"

definition codes_inv :: "otp_code list \<Rightarrow> bool" where
  "codes_inv cs \<longleftrightarrow> distinct (map c_id cs) \<and>
     (\<forall>c \<in> set cs. 0 \<le> c_attempts c \<and> c_attempts c \<le> maxVerifyAttempts)"

definition used_code :: "uuid \<Rightarrow> otp_code list \<Rightarrow> bool" where
  "used_code i cs \<longleftrightarrow> (\<exists>c \<in> set cs. c_id c = i \<and> c_consumed c \<noteq> None)"

lemma consume_row_simps [simp]:
  "c_id (consume_row i n c) = c_id c" "c_target (consume_row i n c) = c_target c"
  "c_purpose (consume_row i n c) = c_purpose c" "c_attempts (consume_row i n c) = c_attempts c"
  "c_created (consume_row i n c) = c_created c" "c_code (consume_row i n c) = c_code c"
  "c_expires (consume_row i n c) = c_expires c"
  "c_consumed (consume_row i n c) = (if c_id c = i then Some n else c_consumed c)"
  by (simp_all add: consume_row_def)

lemma guess_row_simps [simp]:
  "c_id (guess_row i c) = c_id c" "c_target (guess_row i c) = c_target c"
  "c_purpose (guess_row i c) = c_purpose c" "c_consumed (guess_row i c) = c_consumed c"
  "c_created (guess_row i c) = c_created c" "c_code (guess_row i c) = c_code c"
  "c_expires (guess_row i c) = c_expires c"
  "c_attempts (guess_row i c) = (if c_id c = i then c_attempts c + 1 else c_attempts c)"
  by (simp_all add: guess_row_def)

lemma stored_code_simps [simp]:
  "c_id (stored_code c n) = c_id c" "c_target (stored_code c n) = c_target c"
  "c_purpose (stored_code c n) = c_purpose c" "c_code (stored_code c n) = c_code c"
  "c_expires (stored_code c n) = c_expires c" "c_consumed (stored_code c n) = None"
  "c_attempts (stored_code c n) = 0" "c_created (stored_code c n) = n"
  by (simp_all add: stored_code_def)

lemma map_row_ids [simp]:
  "map c_id (map (consume_row i n) cs) = map c_id cs"
  "map c_id (map (guess_row i) cs) = map c_id cs"
  by simp_all

lemma codes_inv_consume: "codes_inv cs \<Longrightarrow> codes_inv (map (consume_row i n) cs)"
  unfolding codes_inv_def map_row_ids by simp

lemma codes_inv_guess:
  assumes "codes_inv cs" and "c \<in> set cs" and "c_attempts c < maxVerifyAttempts"
  shows "codes_inv (map (guess_row (c_id c)) cs)"
proof -
  have "c_attempts x < maxVerifyAttempts" if "x \<in> set cs" "c_id x = c_id c" for x
  proof -
    have "x = c" using assms(1,2) that by (auto simp: codes_inv_def distinct_map dest: inj_onD)
    with assms(3) show ?thesis by simp
  qed
  with assms(1) show ?thesis unfolding codes_inv_def map_row_ids by fastforce
qed

lemma codes_inv_snoc:
  "codes_inv cs \<Longrightarrow> c_id c \<notin> set (map c_id cs) \<Longrightarrow> codes_inv (cs @ [stored_code c n])"
  by (auto simp: codes_inv_def maxVerifyAttempts_def)

lemma used_code_consume: "used_code i cs \<Longrightarrow> used_code i (map (consume_row j n) cs)"
  by (auto simp: used_code_def)

lemma used_code_guess: "used_code i cs \<Longrightarrow> used_code i (map (guess_row j) cs)"
  by (auto simp: used_code_def)

lemma used_code_append: "used_code i cs \<Longrightarrow> used_code i (cs @ ds)"
  by (auto simp: used_code_def)

subsection \<open>Runs of the service\<close>

text \<open>
  Any sequence of requests and verifications, with anything in between that leaves the codes
  alone. \<open>ok\<close> may restrict the requests, for instance to those whose clock is not ahead.
\<close>

inductive otp_run ::
  "'s otp_service \<Rightarrow> ('s \<Rightarrow> otp_code list) \<Rightarrow> ('s \<Rightarrow> otp_draw \<Rightarrow> bool) \<Rightarrow> 's \<Rightarrow> 's \<Rightarrow> bool"
  for sv rows ok where
  none: "otp_run sv rows ok s s"
| elsewhere: "otp_run sv rows ok s s1 \<Longrightarrow> rows s2 = rows s1 \<Longrightarrow> otp_run sv rows ok s s2"
| requesting: "otp_run sv rows ok s s1 \<Longrightarrow> ok s1 dr \<Longrightarrow>
    RequestCode sv dr target purpose s1 = Some (r, s2) \<Longrightarrow> otp_run sv rows ok s s2"
| verifying: "otp_run sv rows ok s s1 \<Longrightarrow> Verify sv n target purpose code s1 = (r, s2) \<Longrightarrow>
    otp_run sv rows ok s s2"

text \<open>A code that five wrong guesses have locked while it was pending, and a code that has at
  least \<open>k\<close> of them.\<close>

definition locked_code :: "string \<Rightarrow> string \<Rightarrow> uuid \<Rightarrow> otp_code list \<Rightarrow> bool" where
  "locked_code t p i cs \<longleftrightarrow>
     (\<exists>c \<in> set cs. c_id c = i \<and> code_pending t p c \<and> maxVerifyAttempts \<le> c_attempts c)"

definition guessed_code :: "uuid \<Rightarrow> int \<Rightarrow> otp_code list \<Rightarrow> bool" where
  "guessed_code i k cs \<longleftrightarrow> (\<exists>c \<in> set cs. c_id c = i \<and> k \<le> c_attempts c)"

lemma codes_inv_unique: "codes_inv cs \<Longrightarrow> c \<in> set cs \<Longrightarrow> d \<in> set cs \<Longrightarrow> c_id c = c_id d \<Longrightarrow> c = d"
  by (auto simp: codes_inv_def distinct_map dest: inj_onD)

lemma guessed_code_map:
  "guessed_code i k cs \<Longrightarrow> guessed_code i k (map (consume_row j n) cs)"
  "guessed_code i k cs \<Longrightarrow> guessed_code i k (map (guess_row j) cs)"
  unfolding guessed_code_def by force+

lemma other_row_map:
  assumes "j \<noteq> i"
  shows "filter (\<lambda>c. c_id c = i) (map (consume_row j n) cs) = filter (\<lambda>c. c_id c = i) cs"
    and "filter (\<lambda>c. c_id c = i) (map (guess_row j) cs) = filter (\<lambda>c. c_id c = i) cs"
  using assms by (induction cs) (simp_all add: consume_row_def guess_row_def)

lemma locked_code_filter:
  "locked_code t p i cs \<longleftrightarrow>
     (\<exists>c \<in> set (filter (\<lambda>c. c_id c = i) cs). code_pending t p c \<and> maxVerifyAttempts \<le> c_attempts c)"
  by (auto simp: locked_code_def)

text \<open>\<open>k\<close> wrong guesses at the code \<open>i\<close>, each at its own instant, made while it was live and
  answered as wrong; between them any requests and verifications.\<close>

inductive guess_run ::
  "'s otp_service \<Rightarrow> ('s \<Rightarrow> otp_code list) \<Rightarrow> string \<Rightarrow> string \<Rightarrow> uuid \<Rightarrow> nat \<Rightarrow> 's \<Rightarrow> 's \<Rightarrow> bool"
  for sv rows t p i where
  start: "guess_run sv rows t p i 0 s s"
| meanwhile: "guess_run sv rows t p i k s s1 \<Longrightarrow> otp_run sv rows (\<lambda>_ _. True) s1 s2 \<Longrightarrow>
    guess_run sv rows t p i k s s2"
| guess: "guess_run sv rows t p i k s s1 \<Longrightarrow> os_latest (o_store sv) t p s1 = (Inr c, s0) \<Longrightarrow>
    c_id c = i \<Longrightarrow> n \<le> c_expires c \<Longrightarrow> c_code c \<noteq> g \<Longrightarrow>
    Verify sv n t p g s1 = (Inl ErrInvalidCode, s2) \<Longrightarrow> guess_run sv rows t p i (Suc k) s s2"

text \<open>The rate limit over a table in the order of insertion: when a code was created, no code
  for the same target and purpose was younger than the cooldown, and fewer than the daily
  limit were younger than a day.\<close>

definition earlier_same :: "otp_code list \<Rightarrow> nat \<Rightarrow> otp_code list" where
  "earlier_same cs i =
     filter (\<lambda>d. c_target d = c_target (cs ! i) \<and> c_purpose d = c_purpose (cs ! i)) (take i cs)"

definition rate_limited :: "time \<Rightarrow> int \<Rightarrow> otp_code list \<Rightarrow> bool" where
  "rate_limited cooldown daily cs \<longleftrightarrow>
     (\<forall>i < length cs.
        (0 < cooldown \<longrightarrow> (\<forall>d \<in> set (earlier_same cs i). c_created d < c_created (cs ! i) - cooldown)) \<and>
        (0 < daily \<longrightarrow>
           int (length (filter (\<lambda>d. c_created (cs ! i) - day24 \<le> c_created d) (earlier_same cs i))) < daily))"

lemma earlier_same_map:
  assumes "\<And>c. c_target (f c) = c_target c" "\<And>c. c_purpose (f c) = c_purpose c" and "i < length cs"
  shows "earlier_same (map f cs) i = map f (earlier_same cs i)"
  using assms by (simp add: earlier_same_def take_map filter_map o_def)

lemma rate_limited_map:
  assumes "\<And>c. c_target (f c) = c_target c" "\<And>c. c_purpose (f c) = c_purpose c"
    "\<And>c. c_created (f c) = c_created c"
  shows "rate_limited cd dl (map f cs) = rate_limited cd dl cs"
  unfolding rate_limited_def
  by (intro all_cong1 imp_cong) (simp_all add: assms earlier_same_map filter_map o_def)

lemma rate_limited_snoc:
  assumes "rate_limited cd dl cs" and "m \<le> c_created c"
    and "0 < cd \<longrightarrow> filter (code_since (c_target c) (c_purpose c) (m - cd)) cs = []"
    and "0 < dl \<longrightarrow> int (length (filter (code_since (c_target c) (c_purpose c) (m - day24)) cs)) < dl"
  shows "rate_limited cd dl (cs @ [c])"
  unfolding rate_limited_def
proof (intro allI impI)
  fix i assume "i < length (cs @ [c])"
  then consider "i < length cs" | "i = length cs" by fastforce
  then show "(0 < cd \<longrightarrow> (\<forall>d \<in> set (earlier_same (cs @ [c]) i). c_created d < c_created ((cs @ [c]) ! i) - cd)) \<and>
      (0 < dl \<longrightarrow> int (length (filter (\<lambda>d. c_created ((cs @ [c]) ! i) - day24 \<le> c_created d)
         (earlier_same (cs @ [c]) i))) < dl)"
  proof cases
    case 1
    then have "(cs @ [c]) ! i = cs ! i" "earlier_same (cs @ [c]) i = earlier_same cs i"
      by (simp_all add: earlier_same_def nth_append)
    with 1 assms(1) show ?thesis unfolding rate_limited_def by simp
  next
    case 2
    then have e: "(cs @ [c]) ! i = c"
      "earlier_same (cs @ [c]) i = filter (\<lambda>d. c_target d = c_target c \<and> c_purpose d = c_purpose c) cs"
      by (simp_all add: earlier_same_def)
    have "length (filter (\<lambda>d. c_created c - day24 \<le> c_created d)
        (filter (\<lambda>d. c_target d = c_target c \<and> c_purpose d = c_purpose c) cs)) \<le>
      length (filter (code_since (c_target c) (c_purpose c) (m - day24)) cs)"
      unfolding filter_filter using assms(2)
      by (induction cs) (auto simp: code_since_def)
    moreover have "c_created d < c_created c - cd"
      if "0 < cd" "d \<in> set cs" "c_target d = c_target c" "c_purpose d = c_purpose c" for d
      using assms(2,3) that by (fastforce simp: filter_empty_conv code_since_def)
    ultimately show ?thesis using assms(4) unfolding e by auto
  qed
qed

subsection \<open>The contract of the store\<close>

locale otp_store_laws =
  fixes st :: "'s otp_store" and rows :: "'s \<Rightarrow> otp_code list" and now :: "'s \<Rightarrow> time"
  assumes save_Inr: "os_save st c s = (Inr c', s') \<Longrightarrow>
      c_id c \<notin> set (map c_id (rows s)) \<and> rows s' = rows s @ [stored_code c (now s)]"
    and save_Inl: "os_save st c s = (Inl e, s') \<Longrightarrow> rows s' = rows s \<or>
      (c_id c \<notin> set (map c_id (rows s)) \<and> rows s' = rows s @ [stored_code c (now s)])"
    and latest_Inr: "os_latest st t p s = (Inr c, s') \<Longrightarrow> c \<in> set (rows s) \<and> code_pending t p c \<and>
      (\<forall>d \<in> set (rows s). code_pending t p d \<longrightarrow> c_created d \<le> c_created c) \<and> rows s' = rows s"
    and latest_Inl: "os_latest st t p s = (Inl e, s') \<Longrightarrow> rows s' = rows s \<and>
      (errors_is e otp_ErrNotFound \<longrightarrow> (\<forall>c \<in> set (rows s). \<not> code_pending t p c))"
    and consume: "os_consume st i s = (q, s') \<Longrightarrow>
      (\<exists>n. rows s' = map (consume_row i n) (rows s)) \<or> (q \<noteq> Inr () \<and> rows s' = rows s)"
    and increment: "os_increment st i s = (q, s') \<Longrightarrow>
      rows s' = map (guess_row i) (rows s) \<or> (q \<noteq> Inr () \<and> rows s' = rows s)"
    and count_Inr: "os_count st t p since s = (Inr k, s') \<Longrightarrow>
      k = length (filter (code_since t p since) (rows s)) \<and> rows s' = rows s \<and> now s' = now s"
    and count_Inl: "os_count st t p since s = (Inl e, s') \<Longrightarrow> rows s' = rows s \<and> now s' = now s"
begin

text \<open>A verification touches at most the code it looked at: it accepts and consumes it, counts
  a wrong guess against it, or leaves everything alone.\<close>

lemma verify_cases:
  assumes "o_store sv = st" and "Verify sv n target purpose code s = (q, s')"
  obtains (accept) c m where "c \<in> set (rows s)" "acceptable n target purpose code c"
      "\<forall>d \<in> set (rows s). code_pending target purpose d \<longrightarrow> c_created d \<le> c_created c"
      "rows s' = map (consume_row (c_id c) m) (rows s)"
  | (wrong) c where "q \<noteq> Inr ()" "c \<in> set (rows s)" "code_pending target purpose c"
      "c_code c \<noteq> code" "c_attempts c < maxVerifyAttempts"
      "rows s' = map (guess_row (c_id c)) (rows s)"
  | (same) "q \<noteq> Inr ()" "rows s' = rows s"
proof (cases "os_latest st target purpose s")
  case (Pair f s1)
  note a = assms(2) [unfolded Verify_def assms(1) Pair]
  show ?thesis
  proof (cases f)
    case (Inl e)
    with latest_Inl Pair have "rows s1 = rows s" by blast
    with a Inl show ?thesis by (intro same) (auto split: if_splits)
  next
    case (Inr c)
    with latest_Inr Pair have c: "c \<in> set (rows s)" "code_pending target purpose c"
      "\<forall>d \<in> set (rows s). code_pending target purpose d \<longrightarrow> c_created d \<le> c_created c"
      "rows s1 = rows s" by blast+
    consider "c_expires c < n \<or> maxVerifyAttempts \<le> c_attempts c"
      | "n \<le> c_expires c" "c_attempts c < maxVerifyAttempts" "c_code c \<noteq> code"
      | "n \<le> c_expires c" "c_attempts c < maxVerifyAttempts" "c_code c = code" by linarith
    then show ?thesis
    proof cases
      case 1
      with a Inr c show ?thesis by (intro same) (auto split: if_splits)
    next
      case 2
      obtain g s2 where g: "os_increment st (c_id c) s1 = (g, s2)" by fastforce
      with a Inr 2 have "q \<noteq> Inr ()" "s' = s2" by (auto split: sum.splits)
      with increment [OF g] c 2 show ?thesis using wrong same by metis
    next
      case 3
      obtain g s2 where g: "os_consume st (c_id c) s1 = (g, s2)" by fastforce
      with a Inr 3 have q: "s' = s2" "g \<noteq> Inr () \<longrightarrow> q \<noteq> Inr ()" by (auto split: sum.splits)
      have "acceptable n target purpose code c" using c 3 by (simp add: acceptable_def)
      with consume [OF g] c q show ?thesis using accept same by metis
    qed
  qed
qed

lemma verify_Inr:
  assumes "o_store sv = st" and "Verify sv n target purpose code s = (Inr (), s')"
  shows "\<exists>c m. c \<in> set (rows s) \<and> acceptable n target purpose code c \<and>
    (\<forall>d \<in> set (rows s). code_pending target purpose d \<longrightarrow> c_created d \<le> c_created c) \<and>
    rows s' = map (consume_row (c_id c) m) (rows s)"
  using assms by (cases rule: verify_cases) blast+

lemma verify_inv:
  assumes "o_store sv = st" and "codes_inv (rows s)" and "Verify sv n target purpose code s = (q, s')"
  shows "codes_inv (rows s')"
  using assms(1,3)
  by (cases rule: verify_cases) (use assms(2) codes_inv_consume codes_inv_guess in auto)

lemma verify_used:
  assumes "o_store sv = st" and "used_code i (rows s)" and "Verify sv n target purpose code s = (q, s')"
  shows "used_code i (rows s')"
  using assms(1,3)
  by (cases rule: verify_cases) (use assms(2) used_code_consume used_code_guess in auto)

lemma verify_guessed:
  assumes "o_store sv = st" and "guessed_code i k (rows s)" and "Verify sv n target purpose code s = (q, s')"
  shows "guessed_code i k (rows s')"
  using assms(1,3) by (cases rule: verify_cases) (use assms(2) guessed_code_map in auto)

text \<open>No verification touches a locked code.\<close>

lemma verify_locked:
  assumes "o_store sv = st" and "codes_inv (rows s)" and "locked_code t p i (rows s)"
    and "Verify sv n target purpose code s = (q, s')"
  shows "filter (\<lambda>c. c_id c = i) (rows s') = filter (\<lambda>c. c_id c = i) (rows s) \<and>
    (q = Inr () \<longrightarrow> (\<exists>c \<in> set (rows s). acceptable n target purpose code c \<and> c_id c \<noteq> i))"
proof -
  have other: "c_id c \<noteq> i" if "c \<in> set (rows s)" "c_attempts c < maxVerifyAttempts" for c
    using that assms(3) codes_inv_unique [OF assms(2) that(1)] by (force simp: locked_code_def)
  from assms(1,4) show ?thesis
  proof (cases rule: verify_cases)
    case (accept c m)
    with other [of c] show ?thesis by (auto simp: acceptable_def other_row_map)
  next
    case (wrong c)
    with other [of c] show ?thesis by (simp add: other_row_map)
  qed auto
qed

text \<open>A wrong guess at a live code counts, up to the limit.\<close>

lemma verify_wrong:
  assumes "o_store sv = st" and "os_latest st t p s = (Inr c, s0)" and "n \<le> c_expires c"
    and "c_code c \<noteq> g" and "Verify sv n t p g s = (Inl ErrInvalidCode, s')"
  shows "\<exists>c' \<in> set (rows s'). c_id c' = c_id c \<and> code_pending t p c' \<and>
    min maxVerifyAttempts (c_attempts c + 1) \<le> c_attempts c'"
proof -
  from latest_Inr [OF assms(2)] have c: "c \<in> set (rows s)" "code_pending t p c" "rows s0 = rows s" by auto
  show ?thesis
  proof (cases "maxVerifyAttempts \<le> c_attempts c")
    case True
    then have "s' = s0" using assms by (simp add: Verify_def)
    with c True show ?thesis by (intro bexI [of _ c]) simp_all
  next
    case False
    obtain q s2 where q: "os_increment st (c_id c) s0 = (q, s2)" by fastforce
    with False assms have "q = Inr ()" "s' = s2" by (auto simp: Verify_def split: sum.splits)
    with increment [OF q] c have "rows s' = map (guess_row (c_id c)) (rows s)" by simp
    with c show ?thesis by (intro bexI [of _ "guess_row (c_id c) c"]) (simp_all add: code_pending_def)
  qed
qed

lemma check_rows:
  assumes "o_store sv = st" and "checkRateLimit sv n target purpose s = (q, s')"
  shows "rows s' = rows s \<and> now s' = now s \<and>
    (q = Inr () \<longrightarrow>
      (0 < o_cooldown sv \<longrightarrow> filter (code_since target purpose (n - o_cooldown sv)) (rows s) = []) \<and>
      (0 < o_daily sv \<longrightarrow>
         int (length (filter (code_since target purpose (n - day24)) (rows s))) < o_daily sv))"
proof -
  obtain q1 s1 where p1: "(if 0 < o_cooldown sv
            then (case os_count st target purpose (n - o_cooldown sv) s of
                    (Inl e, s1) \<Rightarrow> (Inl (Wrapped ''cooldown check'' e), s1)
                  | (Inr n, s1) \<Rightarrow> (if 0 < n then (Inl ErrRateLimited, s1) else (Inr (), s1)))
            else (Inr (), s)) = (q1, s1)" (is "?c = _") by (cases ?c)
  have r1: "rows s1 = rows s \<and> now s1 = now s \<and> (q1 = Inr () \<longrightarrow> 0 < o_cooldown sv \<longrightarrow>
      filter (code_since target purpose (n - o_cooldown sv)) (rows s) = [])"
    using p1 count_Inr [of target purpose "n - o_cooldown sv" s]
      count_Inl [of target purpose "n - o_cooldown sv" s]
    by (auto split: if_splits prod.splits sum.splits)
  have c: "checkRateLimit sv n target purpose s = (case (q1, s1) of
        (Inl e, s1) \<Rightarrow> (Inl e, s1)
      | (Inr _, s1) \<Rightarrow>
          (if 0 < o_daily sv
           then (case os_count st target purpose (n - day24) s1 of
                   (Inl e, s2) \<Rightarrow> (Inl (Wrapped ''daily-limit check'' e), s2)
                 | (Inr n, s2) \<Rightarrow> (if o_daily sv \<le> int n then (Inl ErrRateLimited, s2) else (Inr (), s2)))
           else (Inr (), s1)))"
    unfolding checkRateLimit_def assms(1) p1 ..
  show ?thesis
    using assms(2) c r1 count_Inr [of target purpose "n - day24" s1]
      count_Inl [of target purpose "n - day24" s1]
    by (auto split: if_splits prod.splits sum.splits)
qed

end

text \<open>The service adds a sender, which does not touch the codes.\<close>

locale otp_service_laws = otp_store_laws +
  fixes sv :: "'a otp_service"
  assumes store: "o_store sv = st"
    and sender: "o_sender sv ch t c s = (q, s') \<Longrightarrow> rows s' = rows s"
begin

lemma request_rows:
  assumes "RequestCode sv dr target purpose s = Some (r, s')"
  shows "rows s' = rows s \<or>
    (\<exists>c. c_id c \<notin> set (map c_id (rows s)) \<and> c_target c = target \<and> c_purpose c = purpose \<and>
       c_expires c = od_now dr + o_ttl sv \<and> generateCode (od_reads dr) = Some (Inr (c_code c)) \<and>
       rows s' = rows s @ [stored_code c (now s)] \<and>
       (0 < o_cooldown sv \<longrightarrow>
          filter (code_since target purpose (od_check dr - o_cooldown sv)) (rows s) = []) \<and>
       (0 < o_daily sv \<longrightarrow>
          int (length (filter (code_since target purpose (od_check dr - day24)) (rows s))) < o_daily sv))"
proof (cases "checkRateLimit sv (od_check dr) target purpose s")
  case (Pair q s1)
  note ch = check_rows [OF store Pair]
  show ?thesis
  proof (cases "q = Inr () \<and> (\<exists>code. generateCode (od_reads dr) = Some (Inr code))")
    case False
    with assms Pair have "s' = s1" by (auto simp: RequestCode_def split: sum.splits option.splits)
    with ch show ?thesis by simp
  next
    case True
    then obtain code where g: "generateCode (od_reads dr) = Some (Inr code)" and q: "q = Inr ()" by blast
    define c where "c = \<lparr>c_id = od_id dr, c_target = target, c_channel = ChannelFor target,
        c_purpose = purpose, c_code = code, c_expires = od_now dr + o_ttl sv,
        c_consumed = None, c_attempts = 0, c_created = 0\<rparr>"
    have c: "c_target c = target" "c_purpose c = purpose" "c_code c = code"
      "c_expires c = od_now dr + o_ttl sv" by (simp_all add: c_def)
    obtain v s2 where sv: "os_save st c s1 = (v, s2)" by fastforce
    have "rows s' = rows s2"
      using assms sender [of "ChannelFor target" target code s2]
      unfolding RequestCode_def Pair g q store c_def [symmetric] sum.case option.case prod.case sv
      by (auto split: sum.splits prod.splits)
    moreover have "rows s2 = rows s1 \<or>
        (c_id c \<notin> set (map c_id (rows s1)) \<and> rows s2 = rows s1 @ [stored_code c (now s1)])"
      using sv save_Inr [of c s1] save_Inl [of c s1] by (cases v) auto
    ultimately show ?thesis using ch g q c by auto
  qed
qed

lemma request_inv:
  "codes_inv (rows s) \<Longrightarrow> RequestCode sv dr target purpose s = Some (r, s') \<Longrightarrow> codes_inv (rows s')"
  using request_rows [of dr target purpose s r s'] codes_inv_snoc by auto

lemma request_used:
  "used_code i (rows s) \<Longrightarrow> RequestCode sv dr target purpose s = Some (r, s') \<Longrightarrow> used_code i (rows s')"
  using request_rows [of dr target purpose s r s'] used_code_append by auto

lemma run_inv:
  assumes "otp_run sv rows ok s s'" and "codes_inv (rows s)"
  shows "codes_inv (rows s')"
  using assms by (induction rule: otp_run.induct) (auto intro: request_inv verify_inv [OF store])

lemma run_used:
  assumes "otp_run sv rows ok s s'" and "used_code i (rows s)"
  shows "used_code i (rows s')"
  using assms by (induction rule: otp_run.induct) (auto intro: request_used verify_used [OF store])

lemma run_guessed:
  assumes "otp_run sv rows ok s s'" and "guessed_code i k (rows s)"
  shows "guessed_code i k (rows s')"
  using assms
proof (induction rule: otp_run.induct)
  case (requesting s s1 dr target purpose r s2)
  with request_rows [of dr target purpose s1 r s2] show ?case by (auto simp: guessed_code_def)
qed (auto intro: verify_guessed [OF store])

lemma run_locked:
  assumes "otp_run sv rows ok s s'" and "codes_inv (rows s)" and "locked_code t p i (rows s)"
  shows "locked_code t p i (rows s')"
  using assms
proof (induction rule: otp_run.induct)
  case (requesting s s1 dr target purpose r s2)
  with request_rows [of dr target purpose s1 r s2] show ?case by (auto simp: locked_code_def)
next
  case (verifying s s1 n target purpose code r s2)
  then have "codes_inv (rows s1)" by (blast intro: run_inv)
  with verifying verify_locked [OF store _ _ verifying(2)] show ?case by (simp add: locked_code_filter)
qed simp_all

lemma guess_run_locked:
  assumes "guess_run sv rows t p i k s s'" and "codes_inv (rows s)"
  shows "codes_inv (rows s') \<and> (0 < k \<longrightarrow> guessed_code i (min maxVerifyAttempts (int k)) (rows s')) \<and>
    (5 \<le> k \<longrightarrow> locked_code t p i (rows s'))"
  using assms
proof (induction rule: guess_run.induct)
  case (meanwhile k s s1 s2)
  then show ?case by (blast intro: run_inv run_guessed run_locked)
next
  case (guess k s s1 c s0 n g s2)
  note l = guess.hyps(2) [unfolded store]
  have c: "c \<in> set (rows s1)" using latest_Inr [OF l] by blast
  have i: "codes_inv (rows s1)" "codes_inv (rows s2)"
    using guess.IH guess.prems verify_inv [OF store _ guess.hyps(6)] by blast+
  have "0 \<le> c_attempts c" using i(1) c by (simp add: codes_inv_def)
  moreover have "min maxVerifyAttempts (int k) \<le> c_attempts c" if "0 < k"
    using guess.IH guess.prems that codes_inv_unique [OF i(1) _ c] guess.hyps(3) by (auto simp: guessed_code_def)
  ultimately have "min maxVerifyAttempts (int k) \<le> c_attempts c" by (cases "k = 0") simp_all
  moreover obtain c' where "c' \<in> set (rows s2)" "c_id c' = i" "code_pending t p c'"
    "min maxVerifyAttempts (c_attempts c + 1) \<le> c_attempts c'"
    using verify_wrong [OF store l guess.hyps(4-6)] guess.hyps(3) by blast
  ultimately show ?case using i(2) by (auto simp: guessed_code_def locked_code_def maxVerifyAttempts_def)
qed simp

lemma verify_rate_limited:
  assumes "Verify sv n target purpose code s = (q, s')" and "rate_limited cd dl (rows s)"
  shows "rate_limited cd dl (rows s')"
  using store assms(1) by (cases rule: verify_cases) (use assms(2) rate_limited_map in auto)

lemma run_rate_limited:
  assumes "otp_run sv rows (\<lambda>s dr. od_check dr \<le> now s) s s'"
    and "rate_limited (o_cooldown sv) (o_daily sv) (rows s)"
  shows "rate_limited (o_cooldown sv) (o_daily sv) (rows s')"
  using assms
proof (induction rule: otp_run.induct)
  case (requesting s s1 dr target purpose r s2)
  from request_rows [OF requesting(3)] show ?case
  proof
    assume "rows s2 = rows s1"
    with requesting show ?thesis by simp
  next
    assume "\<exists>c. c_id c \<notin> set (map c_id (rows s1)) \<and> c_target c = target \<and> c_purpose c = purpose \<and>
       c_expires c = od_now dr + o_ttl sv \<and> generateCode (od_reads dr) = Some (Inr (c_code c)) \<and>
       rows s2 = rows s1 @ [stored_code c (now s1)] \<and>
       (0 < o_cooldown sv \<longrightarrow>
          filter (code_since target purpose (od_check dr - o_cooldown sv)) (rows s1) = []) \<and>
       (0 < o_daily sv \<longrightarrow>
          int (length (filter (code_since target purpose (od_check dr - day24)) (rows s1))) < o_daily sv)"
    then obtain c where "c_target c = target" "c_purpose c = purpose"
      "rows s2 = rows s1 @ [stored_code c (now s1)]"
      "0 < o_cooldown sv \<longrightarrow> filter (code_since target purpose (od_check dr - o_cooldown sv)) (rows s1) = []"
      "0 < o_daily sv \<longrightarrow>
         int (length (filter (code_since target purpose (od_check dr - day24)) (rows s1))) < o_daily sv"
      by blast
    with requesting show ?thesis
      by (simp only:) (intro rate_limited_snoc [of _ _ _ "od_check dr"], simp_all)
  qed
qed (auto intro: verify_rate_limited)

text \<open>A code is accepted at most once.\<close>

lemma accepted_once:
  assumes "codes_inv (rows s)" and "used_code i (rows s)"
    and "Verify sv n target purpose code s = (Inr (), s')"
  shows "\<exists>c \<in> set (rows s). acceptable n target purpose code c \<and> c_id c \<noteq> i \<and>
    (\<exists>m. rows s' = map (consume_row (c_id c) m) (rows s)) \<and> used_code (c_id c) (rows s')"
  using store assms(3)
proof (cases rule: verify_cases)
  case (accept c m)
  have "c_id c \<noteq> i"
  proof
    assume "c_id c = i"
    then obtain c' where c': "c' \<in> set (rows s)" "c_id c' = c_id c" "c_consumed c' \<noteq> None"
      using assms(2) by (auto simp: used_code_def)
    then have "c' = c" using assms(1) accept(1) by (auto simp: codes_inv_def distinct_map dest: inj_onD)
    with c' accept(2) show False by (simp add: acceptable_def code_pending_def)
  qed
  moreover have "used_code (c_id c) (rows s')" using accept by (auto simp: used_code_def)
  ultimately show ?thesis using accept by blast
qed auto

end

end
