(* ===== verification/OtpProps.thy ===== *)
theory OtpProps
  imports OtpInv
begin

text \<open>
  The contract interpreted on the repository and the wired service (the mock sender, as
  \<open>cmd/server\<close> has it), and the properties of the codes: single use, lock-out, rate limit,
  the digits of a generated code.
\<close>

subsection \<open>The repository satisfies the contract\<close>

lemma otp_save_effect:
  assumes "otp_save c w = (r, w')"
  shows "(verification_codes (tables w') = verification_codes (tables w) \<and> (\<forall>x. r \<noteq> Inr x)) \<or>
    (c_id c \<notin> set (map c_id (verification_codes (tables w))) \<and>
     verification_codes (tables w') = verification_codes (tables w) @ [stored_code c (pg_now w)])"
  using assms by (auto simp: otp_save_def pg_stmt_def sql_code_insert_def
      split: prod.splits sum.splits fate.splits if_splits)

lemma latest_of_sorted:
  assumes s: "sort_key f (filter P xs) = rev cs @ [c]"
  shows "c \<in> set xs \<and> P c \<and> (\<forall>d \<in> set xs. P d \<longrightarrow> (f d :: int) \<le> f c)"
proof -
  have "sorted (map f (rev cs @ [c]))" unfolding s [symmetric] by simp
  then have "\<forall>d \<in> set (rev cs @ [c]). f d \<le> f c" by (auto simp: sorted_append)
  moreover have "set (rev cs @ [c]) = {x \<in> set xs. P x}" unfolding s [symmetric] by simp
  ultimately show ?thesis by auto
qed

lemma otp_latest_effect:
  assumes "otp_latest t p w = (r, w')"
  shows "tables w' = tables w \<and> pg_now w' = pg_now w \<and>
    (\<forall>c. r = Inr c \<longrightarrow> c \<in> set (verification_codes (tables w)) \<and> code_pending t p c \<and>
       (\<forall>d \<in> set (verification_codes (tables w)). code_pending t p d \<longrightarrow> c_created d \<le> c_created c)) \<and>
    (\<forall>e. r = Inl e \<longrightarrow> errors_is e otp_ErrNotFound \<longrightarrow>
       (\<forall>c \<in> set (verification_codes (tables w)). \<not> code_pending t p c))"
proof -
  have n: "\<forall>c \<in> set (verification_codes d). \<not> code_pending t p c"
    if "sort_key c_created (filter (code_pending t p) (verification_codes d)) = []" for d
  proof -
    have "set (sort_key c_created (filter (code_pending t p) (verification_codes d))) = {}"
      using that by simp
    then show ?thesis by auto
  qed
  show ?thesis
    using assms unfolding otp_latest_def pg_query_def pg_stmt_def sql_latest_unconsumed_def
    by (auto split: prod.splits sum.splits fate.splits if_splits list.splits
        dest!: latest_of_sorted n)
qed

interpretation otp: otp_store_laws otp_repo "\<lambda>w. verification_codes (tables w)" pg_now
proof unfold_locales
  fix c s c' s' assume "os_save otp_repo c s = (Inr c', s')"
  then show "c_id c \<notin> set (map c_id (verification_codes (tables s))) \<and>
      verification_codes (tables s') = verification_codes (tables s) @ [stored_code c (pg_now s)]"
    using otp_save_effect by (fastforce simp: otp_repo_def)
next
  fix c s e s' assume "os_save otp_repo c s = (Inl e, s')"
  then show "verification_codes (tables s') = verification_codes (tables s) \<or>
      (c_id c \<notin> set (map c_id (verification_codes (tables s))) \<and>
       verification_codes (tables s') = verification_codes (tables s) @ [stored_code c (pg_now s)])"
    using otp_save_effect by (fastforce simp: otp_repo_def)
next
  fix t p s c s' assume "os_latest otp_repo t p s = (Inr c, s')"
  then show "c \<in> set (verification_codes (tables s)) \<and> code_pending t p c \<and>
      (\<forall>d \<in> set (verification_codes (tables s)). code_pending t p d \<longrightarrow> c_created d \<le> c_created c) \<and>
      verification_codes (tables s') = verification_codes (tables s)"
    using otp_latest_effect by (fastforce simp: otp_repo_def)
next
  fix t p s e s' assume "os_latest otp_repo t p s = (Inl e, s')"
  then show "verification_codes (tables s') = verification_codes (tables s) \<and>
      (errors_is e otp_ErrNotFound \<longrightarrow> (\<forall>c \<in> set (verification_codes (tables s)). \<not> code_pending t p c))"
    using otp_latest_effect by (fastforce simp: otp_repo_def)
next
  fix i s q s' assume "os_consume otp_repo i s = (q, s')"
  then show "(\<exists>n. verification_codes (tables s') = map (consume_row i n) (verification_codes (tables s))) \<or>
      (q \<noteq> Inr () \<and> verification_codes (tables s') = verification_codes (tables s))"
    by (auto simp: otp_repo_def otp_consume_def wrap_err_def pg_stmt_def sql_mark_consumed_def
        split: prod.splits sum.splits fate.splits)
next
  fix i s q s' assume "os_increment otp_repo i s = (q, s')"
  then show "verification_codes (tables s') = map (guess_row i) (verification_codes (tables s)) \<or>
      (q \<noteq> Inr () \<and> verification_codes (tables s') = verification_codes (tables s))"
    by (auto simp: otp_repo_def otp_increment_def wrap_err_def pg_stmt_def sql_increment_attempts_def
        split: prod.splits sum.splits fate.splits if_splits)
next
  fix t p since s k s' assume "os_count otp_repo t p since s = (Inr k, s')"
  then show "k = length (filter (code_since t p since) (verification_codes (tables s))) \<and>
      verification_codes (tables s') = verification_codes (tables s) \<and> pg_now s' = pg_now s"
    by (auto simp: otp_repo_def otp_count_def pg_query_Inr sql_count_since_def)
next
  fix t p since s e s' assume "os_count otp_repo t p since s = (Inl e, s')"
  then show "verification_codes (tables s') = verification_codes (tables s) \<and> pg_now s' = pg_now s"
    by (auto simp: otp_repo_def otp_count_def wrap_err_Inl dest!: pg_query_snd)
qed

text \<open>The service as \<open>cmd/server\<close> wires it.\<close>

definition mock_service :: "time \<Rightarrow> time \<Rightarrow> int \<Rightarrow> mock_world otp_service" where
  "mock_service ttl cooldown daily = \<lparr>o_store = otp_repo, o_sender = mock_Send, o_ttl = ttl,
     o_cooldown = cooldown, o_daily = daily\<rparr>"

interpretation mock: otp_service_laws otp_repo "\<lambda>w :: mock_world. verification_codes (tables w)" pg_now
    "mock_service ttl cooldown daily" for ttl cooldown daily
  by unfold_locales (auto simp: mock_service_def mock_Send_def)

lemma mock_service_simps [simp]:
  "o_store (mock_service ttl cd dl) = otp_repo" "o_cooldown (mock_service ttl cd dl) = cd"
  "o_daily (mock_service ttl cd dl) = dl" "o_ttl (mock_service ttl cd dl) = ttl"
  by (simp_all add: mock_service_def)

abbreviation (input) mock_run where
  "mock_run ttl cd dl ok \<equiv> otp_run (mock_service ttl cd dl) (\<lambda>w. verification_codes (tables w)) ok"

subsection \<open>Single use\<close>

text \<open>C18: a code lets its holder in at most once. A successful verification accepted a pending
  code for the target and purpose, not expired, with fewer than five wrong guesses and the
  submitted digits; a later success, after any requests and verifications and whatever
  statements were lost, accepted a different code.\<close>

theorem code_single_use:
  assumes "codes_inv (verification_codes (tables w))"
    and "Verify (mock_service ttl cd dl) n t p code w = (Inr (), w1)"
    and "mock_run ttl cd dl (\<lambda>_ _. True) w1 w2"
    and "Verify (mock_service ttl cd dl) n' t' p' code' w2 = (Inr (), w3)"
  shows "\<exists>c \<in> set (verification_codes (tables w)). \<exists>c' \<in> set (verification_codes (tables w2)).
    acceptable n t p code c \<and> acceptable n' t' p' code' c' \<and> c_id c' \<noteq> c_id c"
proof -
  from assms(2) obtain c m where c: "c \<in> set (verification_codes (tables w))" "acceptable n t p code c"
      "verification_codes (tables w1) = map (consume_row (c_id c) m) (verification_codes (tables w))"
    using otp.verify_Inr [OF mock.store] by blast
  have "used_code (c_id c) (verification_codes (tables w1))" using c by (auto simp: used_code_def)
  moreover have "codes_inv (verification_codes (tables w1))"
    using c(3) codes_inv_consume [OF assms(1)] by simp
  ultimately have "used_code (c_id c) (verification_codes (tables w2))"
      "codes_inv (verification_codes (tables w2))"
    using mock.run_used [OF assms(3)] mock.run_inv [OF assms(3)] by blast+
  from mock.accepted_once [OF this(2,1) assms(4)] c show ?thesis by blast
qed

subsection \<open>The digits\<close>

definition code_char :: "8 word \<Rightarrow> bool" where "code_char v \<longleftrightarrow> unat v < 250"

lemma take_digits_spec:
  "length out < codeDigits \<Longrightarrow>
     take_digits vs out = take codeDigits (out @ map digit_char (filter code_char vs))"
proof (induction vs arbitrary: out)
  case (Cons v vs)
  show ?case
  proof (cases "250 \<le> unat v")
    case True
    with Cons show ?thesis by (simp add: code_char_def)
  next
    case False
    show ?thesis
    proof (cases "codeDigits = Suc (length out)")
      case True
      then have "codeDigits - length out = Suc 0" by simp
      with True False show ?thesis by (simp add: Let_def code_char_def)
    next
      case more: False
      then have "codeDigits - length out = Suc (codeDigits - Suc (length out))" using Cons.prems by simp
      with more False Cons show ?thesis by (simp add: Let_def code_char_def)
    qed
  qed
qed simp

lemma generate_loop_ok:
  assumes "length out \<le> codeDigits"
    and "codeDigits \<le> length out + length (filter code_char (concat bufs))"
  shows "generate_loop (map Some bufs) out =
    Some (Inr (take codeDigits (out @ map digit_char (filter code_char (concat bufs)))))"
  using assms
proof (induction bufs arbitrary: out)
  case Nil
  then show ?case by (simp add: generate_loop.simps [of "[]"])
next
  case (Cons b bs)
  show ?case
  proof (cases "codeDigits \<le> length out")
    case True
    then show ?thesis using Cons.prems(1) by (simp add: generate_loop.simps [of _ out])
  next
    case False
    let ?o = "take codeDigits (out @ map digit_char (filter code_char b))"
    have t: "take_digits b out = ?o" using False by (intro take_digits_spec) simp
    have l: "length ?o \<le> codeDigits"
      "codeDigits \<le> length ?o + length (filter code_char (concat bs))"
      using Cons.prems False by auto
    have "take codeDigits (?o @ map digit_char (filter code_char (concat bs))) =
        take codeDigits (out @ map digit_char (filter code_char (concat (b # bs))))"
      by (simp add: min_def)
    with Cons.IH [OF l] t False show ?thesis by (simp add: generate_loop.simps [of _ out])
  qed
qed

lemma generateCode_ok_aux:
  assumes "6 \<le> length (filter code_char (concat bufs))"
  shows "generateCode (map Some bufs) =
      Some (Inr (map digit_char (take 6 (filter code_char (concat bufs)))))"
  unfolding generateCode_def using assms
  by (subst generate_loop_ok) (simp_all add: codeDigits_def take_map)

lemma digit_count:
  assumes "d < 10"
  shows "length (filter (\<lambda>v :: 8 word. code_char v \<and> digit_char v = ''0123456789'' ! d)
      (map of_nat [0..<256])) = 25"
proof -
  have "distinct ''0123456789''" by simp
  then have n: "''0123456789'' ! i = ''0123456789'' ! d \<longleftrightarrow> i = d" if "i < 10" for i
    using that assms by (subst nth_eq_iff_index_eq) simp_all
  have u: "unat (of_nat k :: 8 word) = k" if "k < 256" for k
    using that by (simp add: unat_of_nat)
  have "filter (\<lambda>k. code_char (of_nat k) \<and> digit_char (of_nat k) = ''0123456789'' ! d) [0..<256] =
      filter (\<lambda>k. k < 250 \<and> k mod 10 = d) [0..<256]"
    by (rule filter_cong [OF refl]) (simp add: code_char_def digit_char_def u n del: nth_Cons_numeral)
  moreover have "filter (\<lambda>k. k < 250 \<and> k mod 10 = d) [0..<256] = map (\<lambda>j. 10 * j + d) [0..<25]"
  proof (rule sorted_distinct_set_unique)
    show "sorted (filter (\<lambda>k. k < 250 \<and> k mod 10 = d) [0..<256])" by (intro sorted_wrt_filter) simp
    show "set (filter (\<lambda>k. k < 250 \<and> k mod 10 = d) [0..<256]) = set (map (\<lambda>j. 10 * j + d) [0..<25])"
    proof (intro equalityI subsetI)
      fix k assume "k \<in> set (filter (\<lambda>k. k < 250 \<and> k mod 10 = d) [0..<256])"
      then have "k = 10 * (k div 10) + d" "k div 10 \<in> set [0..<25]" by auto
      then show "k \<in> set (map (\<lambda>j. 10 * j + d) [0..<25])" unfolding set_map by (rule image_eqI)
    qed (use assms in auto)
  qed (use assms in \<open>auto simp: distinct_map inj_on_def sorted_map sorted_wrt_upt intro!: sorted_wrt_mono_rel [OF _ sorted_upt]\<close>)
  ultimately show ?thesis using assms by (simp add: filter_map o_def)
qed

text \<open>C26: \<open>generateCode\<close> terminates as soon as its reads have yielded six bytes below 250, and
  its result is then the six-digit code of the first six of them, in order; every digit comes
  from exactly 25 of the accepted byte values, so uniform bytes give a uniform code.\<close>

theorem generateCode_ok:
  assumes "6 \<le> length (filter code_char (concat bufs))"
  shows "generateCode (map Some bufs) =
      Some (Inr (map digit_char (take 6 (filter code_char (concat bufs))))) \<and>
    length (map digit_char (take 6 (filter code_char (concat bufs)))) = 6 \<and>
    (\<forall>d < 10. length (filter (\<lambda>v. code_char v \<and> digit_char v = ''0123456789'' ! d)
        (map of_nat [0..<256])) = 25)"
proof (intro conjI allI impI)
  show "generateCode (map Some bufs) =
      Some (Inr (map digit_char (take 6 (filter code_char (concat bufs)))))"
    by (rule generateCode_ok_aux [OF assms])
  show "length (map digit_char (take 6 (filter code_char (concat bufs)))) = 6" using assms by simp
  show "length (filter (\<lambda>v :: 8 word. code_char v \<and> digit_char v = ''0123456789'' ! d)
      (map of_nat [0..<256])) = 25" if "d < 10" for d
    by (rule digit_count [OF that])
qed

theorem generateCode_ok_witness:
  "generateCode [Some [255, 1, 2, 3, 4, 251], Some [9, 10, 20, 30, 40, 50]] = Some (Inr ''123490'')"
  using generateCode_ok [of "[[255, 1, 2, 3, 4, 251], [9, 10, 20, 30, 40, 50]]"]
  by (simp add: code_char_def digit_char_def)

subsection \<open>Rate limit\<close>

text \<open>C15: the rate limit holds in every reachable state. From an empty table, after any
  requests and verifications whose clock is not ahead of the server's, whatever was lost on the
  way: when a code was created, every earlier code for the same target and purpose was older
  than the cooldown, and fewer than the daily limit were younger than 24 hours.\<close>

theorem otp_rate_limit:
  assumes "verification_codes (tables w) = []"
    and "mock_run ttl cd dl (\<lambda>s dr. od_check dr \<le> pg_now s) w w'"
  shows "rate_limited cd dl (verification_codes (tables w'))"
proof -
  have "rate_limited cd dl (verification_codes (tables w))" using assms(1) by (simp add: rate_limited_def)
  with mock.run_rate_limited [of ttl cd dl w w'] assms(2) show ?thesis by simp
qed

definition demo_otp0 :: mock_world where
  "demo_otp0 = \<lparr>tables = empty_id_db, fates = [], pg_now = 100, last_sent = Map.empty\<rparr>"

definition demo_otp_draw :: "uuid \<Rightarrow> time \<Rightarrow> 8 word \<Rightarrow> otp_draw" where
  "demo_otp_draw i t b = \<lparr>od_check = t, od_now = t, od_id = i, od_reads = [Some [b, b, b, b, b, b]]\<rparr>"

definition demo_code :: "uuid \<Rightarrow> string \<Rightarrow> time \<Rightarrow> time option \<Rightarrow> otp_code" where
  "demo_code i code t used = \<lparr>c_id = i, c_target = ''138'', c_channel = ''sms'', c_purpose = ''login'',
     c_code = code, c_expires = t + 300, c_consumed = used, c_attempts = 0, c_created = t\<rparr>"

definition demo_otp :: "otp_code list \<Rightarrow> time \<Rightarrow> string \<Rightarrow> mock_world" where
  "demo_otp cs t code = \<lparr>tables = empty_id_db\<lparr>verification_codes := cs\<rparr>, fates = [], pg_now = t,
     last_sent = [''138'' \<mapsto> code]\<rparr>"

lemma demo_generate:
  "generateCode [Some [1, 1, 1, 1, 1, 1]] = Some (Inr ''111111'')"
  "generateCode [Some [2, 2, 2, 2, 2, 2]] = Some (Inr ''222222'')"
  using generateCode_ok_aux [of "[[1, 1, 1, 1, 1, 1]]"] generateCode_ok_aux [of "[[2, 2, 2, 2, 2, 2]]"]
  by (simp_all add: code_char_def digit_char_def)

lemma demo_request1:
  "RequestCode (mock_service 300 60 10) (demo_otp_draw 1 100 1) ''138'' ''login'' demo_otp0 =
     Some (Inr (), demo_otp [demo_code 1 ''111111'' 100 None] 100 ''111111'')"
  by (simp add: RequestCode_def checkRateLimit_def otp_repo_def otp_count_def pg_query_healthy
      sql_count_since_def wrap_err_def demo_otp0_def empty_id_db_def mock_service_def demo_otp_draw_def
      demo_generate otp_save_def pg_stmt_healthy sql_code_insert_def ChannelFor_def code_purposes_def
      stored_code_def mock_Send_def demo_otp_def demo_code_def)

theorem otp_rate_limit_witness:
  "rate_limited 60 10 (verification_codes (tables (demo_otp [demo_code 1 ''111111'' 100 None] 100 ''111111'')))"
proof (rule otp_rate_limit [of demo_otp0 300])
  show "verification_codes (tables demo_otp0) = []" by (simp add: demo_otp0_def empty_id_db_def)
  show "mock_run 300 60 10 (\<lambda>s dr. od_check dr \<le> pg_now s) demo_otp0
      (demo_otp [demo_code 1 ''111111'' 100 None] 100 ''111111'')"
    by (rule otp_run.requesting [OF otp_run.none _ demo_request1])
      (simp add: demo_otp_draw_def demo_otp0_def)
qed

subsection \<open>A superseded code\<close>

lemma demo_verify:
  "Verify (mock_service 300 60 10) 210 ''138'' ''login'' ''222222''
     (demo_otp [demo_code 1 ''111111'' 100 None, demo_code 2 ''222222'' 200 None] 210 ''222222'') =
     (Inr (), demo_otp [demo_code 1 ''111111'' 100 None, demo_code 2 ''222222'' 200 (Some 210)] 210 ''222222'')"
  "Verify (mock_service 300 60 10) 220 ''138'' ''login'' ''111111''
     (demo_otp [demo_code 1 ''111111'' 100 None, demo_code 2 ''222222'' 200 (Some 210)] 220 ''222222'') =
     (Inr (), demo_otp [demo_code 1 ''111111'' 100 (Some 220), demo_code 2 ''222222'' 200 (Some 210)] 220 ''222222'')"
  "Verify (mock_service 300 60 10) 205 ''138'' ''login'' ''111111''
     (demo_otp [demo_code 1 ''111111'' 100 None, demo_code 2 ''222222'' 200 None] 205 ''222222'') =
     (Inl ErrInvalidCode, demo_otp [demo_code 1 ''111111'' 100 None,
        (demo_code 2 ''222222'' 200 None)\<lparr>c_attempts := 1\<rparr>] 205 ''222222'')"
  by (simp_all add: Verify_def otp_repo_def otp_latest_def pg_query_healthy sql_latest_unconsumed_def
      wrap_err_def empty_id_db_def mock_service_def pg_stmt_healthy demo_otp_def demo_code_def
      code_pending_def maxVerifyAttempts_def otp_consume_def otp_increment_def sql_mark_consumed_def
      sql_increment_attempts_def consume_row_def guess_row_def)

theorem code_single_use_witness:
  "\<exists>c c'. acceptable 210 ''138'' ''login'' ''222222'' c \<and> acceptable 220 ''138'' ''login'' ''111111'' c' \<and>
     c_id c' \<noteq> c_id c"
proof -
  let ?cs = "[demo_code 1 ''111111'' 100 None, demo_code 2 ''222222'' 200 None]"
  let ?ds = "[demo_code 1 ''111111'' 100 None, demo_code 2 ''222222'' 200 (Some 210)]"
  have i: "codes_inv (verification_codes (tables (demo_otp ?cs 210 ''222222'')))"
    by (simp add: codes_inv_def demo_otp_def demo_code_def maxVerifyAttempts_def)
  have r: "mock_run 300 60 10 (\<lambda>_ _. True) (demo_otp ?ds 210 ''222222'') (demo_otp ?ds 220 ''222222'')"
    by (rule otp_run.elsewhere [OF otp_run.none]) (simp add: demo_otp_def)
  from code_single_use [OF i demo_verify(1) r demo_verify(2)] show ?thesis by blast
qed

lemma pending_consumed:
  "filter (code_pending t p) (map (consume_row i n) cs) =
   filter (\<lambda>c. c_id c \<noteq> i) (filter (code_pending t p) cs)"
  by (induction cs) (simp_all add: code_pending_def consume_row_def)

lemma latest_pending:
  "rev (sort_key c_created (filter (code_pending t p) (verification_codes d))) = c # cs \<Longrightarrow>
     sql_latest_unconsumed t p d = Inr c"
  by (simp add: sql_latest_unconsumed_def)

lemma accept_healthy:
  assumes "fates w = []" and "sql_latest_unconsumed t p (tables w) = Inr c"
    and "n \<le> c_expires c" and "c_attempts c < maxVerifyAttempts"
  shows "Verify (mock_service ttl cd dl) n t p (c_code c) w =
    (Inr (), w\<lparr>tables := (tables w)\<lparr>verification_codes :=
       map (consume_row (c_id c) (pg_now w)) (verification_codes (tables w))\<rparr>\<rparr>)"
  using assms by (simp add: Verify_def otp_repo_def otp_latest_def pg_query_healthy wrap_err_def
      otp_consume_def pg_stmt_healthy sql_mark_consumed_def)

lemma wrong_healthy:
  assumes "fates w = []" and "codes_inv (verification_codes (tables w))"
    and "sql_latest_unconsumed t p (tables w) = Inr c" and "c_code c \<noteq> g"
  shows "fst (Verify (mock_service ttl cd dl) n t p g w) = Inl ErrInvalidCode"
proof -
  have "\<not> (\<exists>x \<in> set (verification_codes (tables w)). c_id x = c_id c \<and> 2147483647 \<le> c_attempts x)"
    using assms(2) by (fastforce simp: codes_inv_def maxVerifyAttempts_def)
  then show ?thesis
    using assms by (auto simp: Verify_def otp_repo_def otp_latest_def pg_query_healthy wrap_err_def
        otp_increment_def pg_stmt_healthy sql_increment_attempts_def)
qed

text \<open>C27: a superseded code comes back. Whenever two or more codes of a target and purpose are
  pending and the connection is healthy: the digits of the second newest are refused at any time;
  the newest, while live and not locked, lets its holder in; and once it has, in any state with
  the codes it left behind, the second newest lets its holder in, if it is live and not locked.\<close>

theorem superseded_code_revives:
  assumes "fates w = []" and "codes_inv (verification_codes (tables w))"
    and "rev (sort_key c_created (filter (code_pending t p) (verification_codes (tables w)))) = d # c # older"
    and "c_code c \<noteq> c_code d"
    and "n1 \<le> c_expires d" and "c_attempts d < maxVerifyAttempts"
    and "n2 \<le> c_expires c" and "c_attempts c < maxVerifyAttempts"
  shows "fst (Verify (mock_service ttl cd dl) n0 t p (c_code c) w) = Inl ErrInvalidCode \<and>
    (\<exists>w1. Verify (mock_service ttl cd dl) n1 t p (c_code d) w = (Inr (), w1) \<and>
       (\<forall>w2. verification_codes (tables w2) = verification_codes (tables w1) \<and> fates w2 = [] \<longrightarrow>
          fst (Verify (mock_service ttl cd dl) n2 t p (c_code c) w2) = Inr ()))"
proof (intro conjI exI allI impI)
  let ?cs = "verification_codes (tables w)"
  let ?w1 = "w\<lparr>tables := (tables w)\<lparr>verification_codes := map (consume_row (c_id d) (pg_now w)) ?cs\<rparr>\<rparr>"
  note d = latest_pending [OF assms(3)]
  show "fst (Verify (mock_service ttl cd dl) n0 t p (c_code c) w) = Inl ErrInvalidCode"
    by (rule wrong_healthy [OF assms(1,2) d]) (use assms(4) in simp)
  show "Verify (mock_service ttl cd dl) n1 t p (c_code d) w = (Inr (), ?w1)"
    by (rule accept_healthy [OF assms(1) d assms(5,6)])
  fix w2 :: mock_world
  assume w2: "verification_codes (tables w2) = verification_codes (tables ?w1) \<and> fates w2 = []"
  have s: "{c, d} \<subseteq> set ?cs"
    using arg_cong [OF assms(3), of set] by auto
  then have ne: "c_id c \<noteq> c_id d" using codes_inv_unique [OF assms(2), of c d] assms(4) by auto
  have "rev (sort_key c_created (filter (code_pending t p) (verification_codes (tables w2)))) =
      rev (filter (\<lambda>c. c_id c \<noteq> c_id d) (sort_key c_created (filter (code_pending t p) ?cs)))"
    using w2 by (simp only: filter_sort) (simp add: pending_consumed del: filter_filter)
  also have "\<dots> = filter (\<lambda>c. c_id c \<noteq> c_id d) (d # c # older)"
    by (simp only: rev_filter assms(3))
  also have "\<dots> = c # filter (\<lambda>c. c_id c \<noteq> c_id d) older" using ne by simp
  finally have "sql_latest_unconsumed t p (tables w2) = Inr c" by (rule latest_pending)
  from accept_healthy [OF conjunct2 [OF w2] this assms(7,8)]
  show "fst (Verify (mock_service ttl cd dl) n2 t p (c_code c) w2) = Inr ()" by simp
qed

theorem superseded_code_revives_witness:
  "\<exists>w1. fst (Verify (mock_service 300 60 10) 205 ''138'' ''login'' ''111111''
      (demo_otp [demo_code 1 ''111111'' 100 None, demo_code 2 ''222222'' 200 None] 210 ''222222'')) = Inl ErrInvalidCode \<and>
    Verify (mock_service 300 60 10) 210 ''138'' ''login'' ''222222''
      (demo_otp [demo_code 1 ''111111'' 100 None, demo_code 2 ''222222'' 200 None] 210 ''222222'') = (Inr (), w1) \<and>
    fst (Verify (mock_service 300 60 10) 220 ''138'' ''login'' ''111111'' (w1\<lparr>pg_now := 220\<rparr>)) = Inr ()"
proof -
  let ?w = "demo_otp [demo_code 1 ''111111'' 100 None, demo_code 2 ''222222'' 200 None] 210 ''222222''"
  let ?v = "demo_otp [demo_code 1 ''111111'' 100 None, demo_code 2 ''222222'' 200 (Some 210)] 210 ''222222''"
  have f: "fates ?w = []" "codes_inv (verification_codes (tables ?w))"
    by (simp_all add: codes_inv_def demo_otp_def demo_code_def maxVerifyAttempts_def)
  have l: "rev (sort_key c_created (filter (code_pending ''138'' ''login'') (verification_codes (tables ?w)))) =
      [demo_code 2 ''222222'' 200 None, demo_code 1 ''111111'' 100 None]"
    by (simp add: demo_otp_def demo_code_def code_pending_def)
  have c: "c_code (demo_code i x t u) = x" "c_attempts (demo_code i x t u) = 0"
    "c_expires (demo_code i x t u) = t + 300" for i x t u
    by (simp_all add: demo_code_def)
  have v: "fates (?v\<lparr>pg_now := 220\<rparr>) = []" by (simp add: demo_otp_def)
  from superseded_code_revives [OF f l, of 210 220 300 60 10 205, unfolded c]
  show ?thesis using v by (auto simp: demo_verify(1) maxVerifyAttempts_def simp del: One_nat_def)
qed

subsection \<open>Lock-out\<close>

lemma latest_mem: "sql_latest_unconsumed t p d = Inr c \<Longrightarrow> c \<in> set (verification_codes d)"
  by (auto simp: sql_latest_unconsumed_def split: list.splits dest!: latest_of_sorted)

lemma latest_os:
  assumes "os_latest otp_repo t p w = (Inr c, w')"
  shows "sql_latest_unconsumed t p (tables w) = Inr c"
proof (cases "pg_query (sql_latest_unconsumed t p) w")
  case (Pair r w1)
  with assms show ?thesis
    by (cases r) (simp_all add: otp_repo_def otp_latest_def pg_query_Inr split: if_splits)
qed

lemma locked_latest:
  assumes "c_id c = i" and "c \<in> set (verification_codes (tables w))"
    and "codes_inv (verification_codes (tables w))" and "locked_code t p i (verification_codes (tables w))"
    and "sql_latest_unconsumed t p (tables w) = Inr c"
  shows "fst (Verify (mock_service ttl cd dl) n t p code w) \<noteq> Inr ()"
    and "tables (snd (Verify (mock_service ttl cd dl) n t p code w)) = tables w"
    and "fates w = [] \<Longrightarrow> Verify (mock_service ttl cd dl) n t p code w = (Inl ErrInvalidCode, w)"
proof -
  have a: "maxVerifyAttempts \<le> c_attempts c"
    using assms(1,4) codes_inv_unique [OF assms(3,2)] unfolding locked_code_def by metis
  then show "fates w = [] \<Longrightarrow> Verify (mock_service ttl cd dl) n t p code w = (Inl ErrInvalidCode, w)"
    using assms(5) by (simp add: Verify_def otp_repo_def otp_latest_def pg_query_healthy)
  show "tables (snd (Verify (mock_service ttl cd dl) n t p code w)) = tables w"
    and "fst (Verify (mock_service ttl cd dl) n t p code w) \<noteq> Inr ()"
  proof -
    obtain r w1 where l: "os_latest otp_repo t p w = (r, w1)" by fastforce
    have t: "tables w1 = tables w" using otp_latest_effect [of t p w r w1] l by (simp add: otp_repo_def)
    have "\<exists>e. Verify (mock_service ttl cd dl) n t p code w = (Inl e, w1)"
    proof (cases r)
      case (Inl e)
      with l show ?thesis by (simp add: Verify_def)
    next
      case (Inr d)
      with l have "sql_latest_unconsumed t p (tables w) = Inr d" using latest_os by blast
      with assms(5) Inr l a show ?thesis by (simp add: Verify_def)
    qed
    with t show "tables (snd (Verify (mock_service ttl cd dl) n t p code w)) = tables w"
      and "fst (Verify (mock_service ttl cd dl) n t p code w) \<noteq> Inr ()" by auto
  qed
qed

text \<open>C25: five wrong guesses lock a code for good. After five guesses at a code that were made
  while it was live and answered as wrong, each at its own instant, with any requests and
  verifications and lost statements in between and after: the code is still pending with its
  counter at five; no verification, whatever its target, purpose, digits and clock, changes it or
  accepts it; and while it is the latest one of its target and purpose even the right digits are
  not accepted and change nothing, with the error of a wrong code on a healthy connection.\<close>

theorem guess_lockout:
  assumes "codes_inv (verification_codes (tables w))"
    and "guess_run (mock_service ttl cd dl) (\<lambda>w. verification_codes (tables w)) t p i k w w'" and "5 \<le> k"
  shows "(\<exists>c \<in> set (verification_codes (tables w')). c_id c = i \<and> code_pending t p c \<and> c_attempts c = 5) \<and>
    (\<forall>n t' p' code r w''. Verify (mock_service ttl cd dl) n t' p' code w' = (r, w'') \<longrightarrow>
       filter (\<lambda>c. c_id c = i) (verification_codes (tables w'')) =
         filter (\<lambda>c. c_id c = i) (verification_codes (tables w')) \<and>
       (r = Inr () \<longrightarrow> (\<exists>c \<in> set (verification_codes (tables w')). acceptable n t' p' code c \<and> c_id c \<noteq> i))) \<and>
    (\<forall>n code c. sql_latest_unconsumed t p (tables w') = Inr c \<and> c_id c = i \<longrightarrow>
       fst (Verify (mock_service ttl cd dl) n t p code w') \<noteq> Inr () \<and>
       tables (snd (Verify (mock_service ttl cd dl) n t p code w')) = tables w' \<and>
       (fates w' = [] \<longrightarrow> Verify (mock_service ttl cd dl) n t p code w' = (Inl ErrInvalidCode, w')))"
proof -
  from mock.guess_run_locked [OF assms(2,1)] assms(3)
  have i: "codes_inv (verification_codes (tables w'))" and l: "locked_code t p i (verification_codes (tables w'))"
    by simp_all
  have "\<exists>c \<in> set (verification_codes (tables w')). c_id c = i \<and> code_pending t p c \<and> c_attempts c = 5"
    using l i by (fastforce simp: locked_code_def codes_inv_def maxVerifyAttempts_def)
  moreover have "\<forall>n t' p' code r w''. Verify (mock_service ttl cd dl) n t' p' code w' = (r, w'') \<longrightarrow>
       filter (\<lambda>c. c_id c = i) (verification_codes (tables w'')) =
         filter (\<lambda>c. c_id c = i) (verification_codes (tables w')) \<and>
       (r = Inr () \<longrightarrow> (\<exists>c \<in> set (verification_codes (tables w')). acceptable n t' p' code c \<and> c_id c \<noteq> i))"
    by (intro allI impI) (rule otp.verify_locked [OF mock.store i l])
  moreover have "\<forall>n code c. sql_latest_unconsumed t p (tables w') = Inr c \<and> c_id c = i \<longrightarrow>
       fst (Verify (mock_service ttl cd dl) n t p code w') \<noteq> Inr () \<and>
       tables (snd (Verify (mock_service ttl cd dl) n t p code w')) = tables w' \<and>
       (fates w' = [] \<longrightarrow> Verify (mock_service ttl cd dl) n t p code w' = (Inl ErrInvalidCode, w'))"
    by (intro allI impI conjI locked_latest [OF _ _ i l]) (auto dest: latest_mem)
  ultimately show ?thesis by (intro conjI)
qed

lemma demo_guess:
  assumes "guess_run (mock_service 300 60 10) (\<lambda>w. verification_codes (tables w)) ''138'' ''login'' 1 k s
      (demo_otp [(demo_code 1 ''111111'' 100 None)\<lparr>c_attempts := int k\<rparr>] m x)"
    and "k < 5" and "n \<le> 400" and "g \<noteq> ''111111''"
  shows "guess_run (mock_service 300 60 10) (\<lambda>w. verification_codes (tables w)) ''138'' ''login'' 1 (Suc k) s
      (demo_otp [(demo_code 1 ''111111'' 100 None)\<lparr>c_attempts := int (Suc k)\<rparr>] n x)"
proof -
  let ?c = "(demo_code 1 ''111111'' 100 None)\<lparr>c_attempts := int k\<rparr>"
  let ?w = "demo_otp [?c] n x"
  have r: "mock_run 300 60 10 (\<lambda>_ _. True) (demo_otp [?c] m x) ?w"
    by (rule otp_run.elsewhere [OF otp_run.none]) (simp add: demo_otp_def)
  have l: "os_latest (o_store (mock_service 300 60 10)) ''138'' ''login'' ?w = (Inr ?c, ?w)"
    by (simp add: otp_repo_def otp_latest_def pg_query_healthy sql_latest_unconsumed_def code_pending_def
        demo_otp_def demo_code_def)
  have v: "Verify (mock_service 300 60 10) n ''138'' ''login'' g ?w =
      (Inl ErrInvalidCode, demo_otp [(demo_code 1 ''111111'' 100 None)\<lparr>c_attempts := int (Suc k)\<rparr>] n x)"
    using assms(2-4) l
    by (simp add: Verify_def otp_repo_def otp_increment_def wrap_err_def pg_stmt_healthy
        sql_increment_attempts_def guess_row_def maxVerifyAttempts_def demo_otp_def demo_code_def add.commute)
  show ?thesis
    by (rule guess_run.guess [OF guess_run.meanwhile [OF assms(1) r] l _ _ _ v])
      (use assms(3,4) in \<open>simp_all add: demo_code_def\<close>)
qed

theorem guess_lockout_witness:
  "guess_run (mock_service 300 60 10) (\<lambda>w. verification_codes (tables w)) ''138'' ''login'' 1 5
     (demo_otp [demo_code 1 ''111111'' 100 None] 100 ''111111'')
     (demo_otp [(demo_code 1 ''111111'' 100 None)\<lparr>c_attempts := 5\<rparr>] 160 ''111111'') \<and>
   fst (Verify (mock_service 300 60 10) 170 ''138'' ''login'' ''111111''
     (demo_otp [(demo_code 1 ''111111'' 100 None)\<lparr>c_attempts := 5\<rparr>] 160 ''111111'')) = Inl ErrInvalidCode"
proof -
  let ?v = "demo_otp [(demo_code 1 ''111111'' 100 None)\<lparr>c_attempts := int 0\<rparr>] 100 ''111111''"
  let ?w = "demo_otp [(demo_code 1 ''111111'' 100 None)\<lparr>c_attempts := 5\<rparr>] 160 ''111111''"
  have i: "codes_inv (verification_codes (tables ?v))"
    by (simp add: codes_inv_def demo_otp_def demo_code_def maxVerifyAttempts_def)
  note g = demo_guess [where n = 160 and m = 140 and g = "''4''",
      OF demo_guess [where n = 140 and m = 130 and g = "''3''",
      OF demo_guess [where n = 130 and m = 120 and g = "''2''",
      OF demo_guess [where n = 120 and m = 110 and g = "[]",
      OF demo_guess [where n = 110 and m = 100 and g = "''000000''" and x = "''111111''", OF guess_run.start]]]]]
  have "sql_latest_unconsumed ''138'' ''login'' (tables ?w) = Inr ((demo_code 1 ''111111'' 100 None)\<lparr>c_attempts := 5\<rparr>)"
    "fates ?w = []"
    by (simp_all add: demo_otp_def demo_code_def sql_latest_unconsumed_def code_pending_def)
  moreover have "guess_run (mock_service 300 60 10) (\<lambda>w. verification_codes (tables w)) ''138'' ''login'' 1 5 ?v ?w"
    using g by (simp add: eval_nat_numeral)
  moreover have "?v = demo_otp [demo_code 1 ''111111'' 100 None] 100 ''111111''" by (simp add: demo_code_def)
  ultimately show ?thesis using guess_lockout [OF i] by (auto simp: demo_code_def)
qed

end
