(* ===== verification/Auth.thy ===== *)
theory Auth
  imports GoErrors
begin

text \<open>
  Access tokens (\<open>internal/auth/token.go\<close>). The JWT and UUID libraries are third-party code:
  \<open>jwt_lib\<close> holds the functions of theirs that the token manager calls, and \<open>jwt_laws\<close> is the
  documented behaviour the properties rest on. Instants are microseconds.
\<close>

abbreviation (input) realm_web :: string where "realm_web \<equiv> ''web''"
abbreviation (input) realm_admin :: string where "realm_admin \<equiv> ''admin''"

record claims =
  cl_subject :: uuid
  cl_realm :: string
  cl_role :: string

record token_claims =
  tc_realm :: string
  tc_role :: string
  tc_subject :: string
  tc_issued :: time
  tc_expires :: time

text \<open>
  \<open>jwt_sign\<close> is \<open>NewWithClaims(HS256, claims).SignedString(secret)\<close>; \<open>jwt_parse\<close> is
  \<open>ParseWithClaims\<close> at an instant with a key function from the token's algorithm to the key,
  and yields the claims with the token's \<open>Valid\<close> flag; \<open>jwt_date\<close> is \<open>NewNumericDate\<close>.
\<close>

record jwt_lib =
  jwt_sign :: "string \<Rightarrow> token_claims \<Rightarrow> goerr + string"
  jwt_parse :: "(string \<Rightarrow> goerr + string) \<Rightarrow> time \<Rightarrow> string \<Rightarrow> goerr + token_claims \<times> bool"
  jwt_date :: "time \<Rightarrow> time"
  uuid_string :: "uuid \<Rightarrow> string"
  uuid_parse :: "string \<Rightarrow> goerr + uuid"

record token_manager =
  tm_secret :: string
  tm_ttl :: time
  tm_realm :: string

definition NewTokenManager :: "string \<Rightarrow> time \<Rightarrow> string \<Rightarrow> token_manager" where
  "NewTokenManager secret ttl realm = \<lparr>tm_secret = secret, tm_ttl = ttl, tm_realm = realm\<rparr>"

definition Generate :: "jwt_lib \<Rightarrow> token_manager \<Rightarrow> time \<Rightarrow> uuid \<Rightarrow> string \<Rightarrow> goerr + string" where
  "Generate L m now subject role =
     jwt_sign L (tm_secret m)
       \<lparr>tc_realm = tm_realm m, tc_role = role, tc_subject = uuid_string L subject,
        tc_issued = jwt_date L now, tc_expires = jwt_date L (now + tm_ttl m)\<rparr>"

definition hmac_algs :: "string list" where
  "hmac_algs = [''HS256'', ''HS384'', ''HS512'']"

definition parse_key :: "token_manager \<Rightarrow> string \<Rightarrow> goerr + string" where
  "parse_key m alg =
     (if alg \<notin> set hmac_algs then Inl (Plain (''unexpected signing method: '' @ alg)) else Inr (tm_secret m))"

definition Parse :: "jwt_lib \<Rightarrow> token_manager \<Rightarrow> time \<Rightarrow> string \<Rightarrow> goerr + claims" where
  "Parse L m now tok =
     (case jwt_parse L (parse_key m) now tok of
        Inl e \<Rightarrow> Inl (Wrapped ''invalid token'' e)
      | Inr (c, valid) \<Rightarrow>
          (if \<not> valid then Inl (Plain ''invalid token'')
           else if tc_realm c \<noteq> tm_realm m then Inl (Plain ''token realm does not match'')
           else case uuid_parse L (tc_subject c) of
             Inl e \<Rightarrow> Inl (Wrapped ''invalid token subject'' e)
           | Inr i \<Rightarrow> Inr \<lparr>cl_subject = i, cl_realm = tc_realm c, cl_role = tc_role c\<rparr>))"

subsection \<open>What the libraries document\<close>

text \<open>A dated claim is the instant cut to the second. A token signed with a key parses under a
  key function that yields this key before its expiry, to the signed claims; it does not parse
  under another key, nor at or after its expiry. A token that parses names an algorithm the
  key function accepted. The text of a UUID parses to it.\<close>

definition jwt_laws :: "jwt_lib \<Rightarrow> bool" where
  "jwt_laws L \<longleftrightarrow>
     (\<forall>t. t - 1000000 < jwt_date L t \<and> jwt_date L t \<le> t) \<and>
     (\<forall>k c tok kf now. jwt_sign L k c = Inr tok \<longrightarrow>
        (kf ''HS256'' = Inr k \<and> now < tc_expires c \<longrightarrow> jwt_parse L kf now tok = Inr (c, True)) \<and>
        (kf ''HS256'' \<noteq> Inr k \<or> tc_expires c \<le> now \<longrightarrow> (\<exists>e. jwt_parse L kf now tok = Inl e))) \<and>
     (\<forall>kf now tok c. jwt_parse L kf now tok = Inr (c, True) \<longrightarrow> (\<exists>alg k. kf alg = Inr k)) \<and>
     (\<forall>i. uuid_parse L (uuid_string L i) = Inr i)"

lemma jwt_lawsD:
  assumes "jwt_laws L"
  shows "jwt_date L t \<le> t" and "t - 1000000 < jwt_date L t"
    and "jwt_sign L k c = Inr tok \<Longrightarrow> kf ''HS256'' = Inr k \<Longrightarrow> now < tc_expires c \<Longrightarrow>
           jwt_parse L kf now tok = Inr (c, True)"
    and "jwt_sign L k c = Inr tok \<Longrightarrow> kf ''HS256'' \<noteq> Inr k \<or> tc_expires c \<le> now \<Longrightarrow>
           \<exists>e. jwt_parse L kf now tok = Inl e"
    and "uuid_parse L (uuid_string L i) = Inr i"
proof -
  note l = assms [unfolded jwt_laws_def]
  show "jwt_date L t \<le> t" and "t - 1000000 < jwt_date L t"
    using l [THEN conjunct1, THEN spec, of t] by simp_all
  have k: "jwt_sign L k c = Inr tok \<longrightarrow>
        (kf ''HS256'' = Inr k \<and> now < tc_expires c \<longrightarrow> jwt_parse L kf now tok = Inr (c, True)) \<and>
        (kf ''HS256'' \<noteq> Inr k \<or> tc_expires c \<le> now \<longrightarrow> (\<exists>e. jwt_parse L kf now tok = Inl e))"
    using l [THEN conjunct2, THEN conjunct1] by (elim allE)
  then show "jwt_sign L k c = Inr tok \<Longrightarrow> kf ''HS256'' = Inr k \<Longrightarrow> now < tc_expires c \<Longrightarrow>
           jwt_parse L kf now tok = Inr (c, True)"
    and "jwt_sign L k c = Inr tok \<Longrightarrow> kf ''HS256'' \<noteq> Inr k \<or> tc_expires c \<le> now \<Longrightarrow>
           \<exists>e. jwt_parse L kf now tok = Inl e"
    by simp_all
  show "uuid_parse L (uuid_string L i) = Inr i"
    using l [THEN conjunct2, THEN conjunct2, THEN conjunct2] by (rule spec)
qed

lemma parse_key_HS256: "parse_key m ''HS256'' = Inr (tm_secret m)"
  by (simp add: parse_key_def hmac_algs_def)

lemma Generate_Parse:
  assumes "jwt_laws L" and "Generate L m now subject role = Inr tok"
    and "t \<le> now + tm_ttl m - 1000000"
  shows "Parse L m t tok = Inr \<lparr>cl_subject = subject, cl_realm = tm_realm m, cl_role = role\<rparr>"
proof -
  have "t < jwt_date L (now + tm_ttl m)" using jwt_lawsD(2) [OF assms(1), of "now + tm_ttl m"] assms(3) by linarith
  with jwt_lawsD(3) [OF assms(1) assms(2) [unfolded Generate_def], of "parse_key m" t] show ?thesis
    by (simp add: Parse_def parse_key_HS256 jwt_lawsD(5) [OF assms(1)])
qed

lemma Parse_rejects:
  assumes "jwt_laws L" and "Generate L m now subject role = Inr tok"
    and "tm_secret m' \<noteq> tm_secret m \<or> tm_realm m' \<noteq> tm_realm m \<or> now + tm_ttl m \<le> t"
  shows "\<exists>e. Parse L m' t tok = Inl e"
proof -
  let ?c = "\<lparr>tc_realm = tm_realm m, tc_role = role, tc_subject = uuid_string L subject,
        tc_issued = jwt_date L now, tc_expires = jwt_date L (now + tm_ttl m)\<rparr>"
  have s: "jwt_sign L (tm_secret m) ?c = Inr tok" using assms(2) by (simp add: Generate_def)
  show ?thesis
  proof (cases "tm_secret m' \<noteq> tm_secret m \<or> jwt_date L (now + tm_ttl m) \<le> t")
    case True
    then have "\<exists>e. jwt_parse L (parse_key m') t tok = Inl e"
      by (intro jwt_lawsD(4) [OF assms(1) s]) (auto simp: parse_key_HS256)
    then show ?thesis by (auto simp: Parse_def)
  next
    case False
    with jwt_lawsD(3) [OF assms(1) s, of "parse_key m'" t]
    have "jwt_parse L (parse_key m') t tok = Inr (?c, True)" by (simp add: parse_key_HS256)
    moreover have "tm_realm m' \<noteq> tm_realm m"
      using False assms(3) jwt_lawsD(1) [OF assms(1), of "now + tm_ttl m"] by auto
    ultimately show ?thesis by (simp add: Parse_def)
  qed
qed

subsection \<open>A library that satisfies the laws\<close>

text \<open>It signs one set of claims under one key.\<close>

definition demo_claims :: token_claims where
  "demo_claims = \<lparr>tc_realm = ''web'', tc_role = ''student'', tc_subject = replicate 7 CHR ''i'',
     tc_issued = 0, tc_expires = 900000000\<rparr>"

definition demo_jwt :: jwt_lib where
  "demo_jwt = \<lparr>
     jwt_sign = (\<lambda>k c. if k = ''s1'' \<and> c = demo_claims then Inr ''tok'' else Inl (Plain [])),
     jwt_parse = (\<lambda>kf now tok. if tok = ''tok'' \<and> kf ''HS256'' = Inr ''s1'' \<and> now < 900000000
                    then Inr (demo_claims, True) else Inl (Plain [])),
     jwt_date = (\<lambda>t. t div 1000000 * 1000000),
     uuid_string = (\<lambda>i. replicate i CHR ''i''),
     uuid_parse = (\<lambda>s. Inr (length s))\<rparr>"

lemma demo_jwt_laws: "jwt_laws demo_jwt"
proof -
  have "t - 1000000 < t div 1000000 * 1000000 \<and> t div 1000000 * 1000000 \<le> (t :: int)" for t
    using div_mult_mod_eq [of t 1000000] pos_mod_bound [of 1000000 t] pos_mod_sign [of 1000000 t] by linarith
  then show ?thesis
    by (auto simp: jwt_laws_def demo_jwt_def demo_claims_def split: if_splits)
qed

definition demo_web_tm :: token_manager where
  "demo_web_tm = NewTokenManager ''s1'' 900000000 ''web''"

definition demo_admin_tm :: token_manager where
  "demo_admin_tm = NewTokenManager ''s2'' 900000000 ''admin''"

lemma demo_Generate: "Generate demo_jwt demo_web_tm 0 7 ''student'' = Inr ''tok''"
  by (simp add: Generate_def demo_jwt_def demo_web_tm_def NewTokenManager_def demo_claims_def)

subsection \<open>Properties\<close>

text \<open>A generated token parses back, under its own manager and until a second before its
  time to live is over, to the subject, the realm and the role it was generated for.\<close>

theorem token_roundtrip:
  assumes "jwt_laws L" and "Generate L m now subject role = Inr tok"
    and "t \<le> now + tm_ttl m - 1000000"
  shows "Parse L m t tok = Inr \<lparr>cl_subject = subject, cl_realm = tm_realm m, cl_role = role\<rparr>"
  by (rule Generate_Parse [OF assms])

theorem token_roundtrip_witness:
  "Parse demo_jwt demo_web_tm 5 ''tok'' = Inr \<lparr>cl_subject = 7, cl_realm = ''web'', cl_role = ''student''\<rparr>"
  using token_roundtrip [OF demo_jwt_laws demo_Generate, of 5]
  by (simp add: demo_web_tm_def NewTokenManager_def)

text \<open>The realms are apart. A token is refused by every manager with another secret, by
  every manager of another realm even with the same secret, and by its own once its time to
  live is over.\<close>

theorem token_realm_separation:
  assumes "jwt_laws L" and "Generate L m now subject role = Inr tok"
    and "tm_secret m' \<noteq> tm_secret m \<or> tm_realm m' \<noteq> tm_realm m \<or> now + tm_ttl m \<le> t"
  shows "\<exists>e. Parse L m' t tok = Inl e"
  by (rule Parse_rejects [OF assms])

theorem token_realm_separation_witness: "\<exists>e. Parse demo_jwt demo_admin_tm 5 ''tok'' = Inl e"
  by (rule token_realm_separation [OF demo_jwt_laws demo_Generate])
    (simp add: demo_web_tm_def demo_admin_tm_def NewTokenManager_def)

end
