(* ===== verification/Identity.thy ===== *)
theory Identity
  imports SessionProps OtpProps Auth
begin

text \<open>
  What the user and the admin package share: the normal form of identifiers, nullable columns,
  the session interface of the services with its implementation by the session service, and
  the password hash library (third-party code, a parameter).
\<close>

subsection \<open>Identifiers\<close>

definition isEmail :: "string \<Rightarrow> bool" where
  "isEmail s = contains_sub s ''@''"

definition normalizePhone :: "string \<Rightarrow> string" where
  "normalizePhone phone = TrimSpace phone"

definition normalizeEmail :: "(string \<Rightarrow> string) \<Rightarrow> string \<Rightarrow> string" where
  "normalizeEmail uni email = ToLower uni (TrimSpace email)"

definition normalizeIdentifier :: "(string \<Rightarrow> string) \<Rightarrow> string \<Rightarrow> string" where
  "normalizeIdentifier uni s = (if isEmail s then normalizeEmail uni s else normalizePhone s)"

lemma isEmail_set: "isEmail s \<longleftrightarrow> CHR ''@'' \<in> set s"
proof -
  have "has_prefix [c] ys \<longleftrightarrow> ys \<noteq> [] \<and> hd ys = c" for c ys by (cases ys) auto
  then have "contains_sub xs [c] \<longleftrightarrow> c \<in> set xs" for c xs by (induction xs) auto
  then show ?thesis by (simp add: isEmail_def)
qed

lemma isEmail_normalizePhone [simp]: "isEmail (normalizePhone s) \<longleftrightarrow> isEmail s"
proof -
  have "\<forall>w \<in> set space_runes. CHR ''@'' \<notin> set w"
    by (simp add: space_runes_def char_of_def)
  then show ?thesis by (simp add: isEmail_set normalizePhone_def TrimSpace_keeps)
qed

definition nullable :: "string \<Rightarrow> string option" where
  "nullable s = (if s = [] then None else Some s)"

definition opt_string :: "string option \<Rightarrow> string" where
  "opt_string x = (case x of None \<Rightarrow> [] | Some s \<Rightarrow> s)"

lemma opt_string_nullable [simp]: "opt_string (nullable s) = s"
  by (simp add: opt_string_def nullable_def)

subsection \<open>Sessions\<close>

record 's sessions =
  se_issue :: "draw \<Rightarrow> uuid \<Rightarrow> 's \<Rightarrow> (goerr + string) \<times> 's"
  se_rotate :: "draw \<Rightarrow> string \<Rightarrow> 's \<Rightarrow> (goerr + uuid \<times> string) \<times> 's"
  se_revoke :: "string \<Rightarrow> 's \<Rightarrow> (goerr + unit) \<times> 's"
  se_revoke_all :: "uuid \<Rightarrow> 's \<Rightarrow> (goerr + unit) \<times> 's"

definition session_service :: "'s session_store \<Rightarrow> time \<Rightarrow> 's sessions" where
  "session_service st ttl = \<lparr>se_issue = sess_issue st ttl, se_rotate = sess_rotate st ttl,
     se_revoke = sess_revoke st, se_revoke_all = sess_revoke_all st\<rparr>"

text \<open>What issuing a pair of tokens draws: \<open>time.Now()\<close> of the access token, then the draws of
  the refresh token.\<close>

record issue_draw =
  is_now :: time
  is_sess :: draw

subsection \<open>Password hashes\<close>

text \<open>\<open>bcrypt.GenerateFromPassword\<close> with its random salt and \<open>bcrypt.CompareHashAndPassword\<close>. A
  hash matches the password it was made from. Nothing is said of other passwords: bcrypt reads
  at most 72 bytes of the one it compares, so others may match as well.\<close>

record bcrypt_lib =
  bc_generate :: "nat \<Rightarrow> string \<Rightarrow> goerr + string"
  bc_compare :: "string \<Rightarrow> string \<Rightarrow> bool"

definition bcrypt_laws :: "bcrypt_lib \<Rightarrow> bool" where
  "bcrypt_laws B \<longleftrightarrow> (\<forall>salt pw h. bc_generate B salt pw = Inr h \<longrightarrow> bc_compare B h pw)"

definition demo_bcrypt :: bcrypt_lib where
  "demo_bcrypt = \<lparr>bc_generate = (\<lambda>salt pw. if length pw \<le> 72 then Inr (''h'' @ pw) else Inl (Plain [])),
     bc_compare = (\<lambda>h pw. h = ''h'' @ pw)\<rparr>"

lemma demo_bcrypt_laws: "bcrypt_laws demo_bcrypt"
  by (auto simp: bcrypt_laws_def demo_bcrypt_def split: if_splits)

subsection \<open>The session calls and the rest of the database\<close>

text \<open>Outside its own table a session call leaves the database alone.\<close>

lemma pg_stmt_frame:
  assumes "pg_stmt f w = (r, w')" and "\<And>a d. f (tables w) = Inr (a, d) \<Longrightarrow> P d" and "P (tables w)"
  shows "P (tables w')"
  using assms by (auto simp: pg_stmt_def split: fate.splits sum.splits)

lemma token_ops_frame:
  assumes "\<And>ts d. F (tt_put T ts d) = F d"
  shows "token_save T t w = (r1, w1) \<Longrightarrow> F (tables w1) = F (tables w)"
    and "token_find T h w = (r1, w1) \<Longrightarrow> F (tables w1) = F (tables w)"
    and "token_revoke T i w = (r2, w1) \<Longrightarrow> F (tables w1) = F (tables w)"
    and "token_revoke_all T u w = (r2, w1) \<Longrightarrow> F (tables w1) = F (tables w)"
proof -
  show "token_save T t w = (r1, w1) \<Longrightarrow> F (tables w1) = F (tables w)"
    using assms by (auto simp: token_save_def pg_stmt_def sql_token_insert_def
        split: prod.splits sum.splits fate.splits if_splits)
  show "token_find T h w = (r1, w1) \<Longrightarrow> F (tables w1) = F (tables w)"
    using token_find_effect [of T h w r1 w1] by simp
  show "token_revoke T i w = (r2, w1) \<Longrightarrow> F (tables w1) = F (tables w)"
    and "token_revoke_all T u w = (r2, w1) \<Longrightarrow> F (tables w1) = F (tables w)"
    using assms by (auto simp: token_revoke_def token_revoke_all_def wrap_err_def pg_stmt_def
        sql_token_revoke_def split: prod.splits sum.splits fate.splits)
qed

lemma sess_ops_frame:
  assumes "\<And>ts d. F (tt_put T ts d) = F d"
  shows "sess_issue (token_store T) ttl dr u w = (r1, w1) \<Longrightarrow> F (tables w1) = F (tables w)"
    and "sess_rotate (token_store T) ttl dr raw w = (p1, w1) \<Longrightarrow> F (tables w1) = F (tables w)"
    and "sess_revoke (token_store T) raw w = (q1, w1) \<Longrightarrow> F (tables w1) = F (tables w)"
    and "sess_revoke_all (token_store T) u w = (q1, w1) \<Longrightarrow> F (tables w1) = F (tables w)"
proof -
  note f = token_ops_frame [of F, OF assms]
  have n: "sess_issue_new (token_store T) ttl dr u w = (r1, w1) \<Longrightarrow> F (tables w1) = F (tables w)" for u w r1 w1
    using f(1) by (fastforce simp: sess_issue_new_def token_store_def split: sum.splits prod.splits)
  show "sess_issue (token_store T) ttl dr u w = (r1, w1) \<Longrightarrow> F (tables w1) = F (tables w)"
    using f(4) n by (fastforce simp: sess_issue_def token_store_def split: sum.splits prod.splits)
  show "sess_rotate (token_store T) ttl dr raw w = (p1, w1) \<Longrightarrow> F (tables w1) = F (tables w)"
    using f(2,3) n by (fastforce simp: sess_rotate_def token_store_def split: sum.splits prod.splits if_splits)
  show "sess_revoke (token_store T) raw w = (q1, w1) \<Longrightarrow> F (tables w1) = F (tables w)"
    using f(2,3) by (fastforce simp: sess_revoke_def token_store_def split: sum.splits prod.splits if_splits)
  show "sess_revoke_all (token_store T) u w = (q1, w1) \<Longrightarrow> F (tables w1) = F (tables w)"
    using f(4) by (fastforce simp: sess_revoke_all_def token_store_def split: sum.splits prod.splits)
qed

end
