(* ===== verification/SqlText.thy ===== *)
theory SqlText
  imports GoStrings
begin

text \<open>
  Text matching in SQL: \<open>LIKE\<close> over the characters of UTF-8 texts, with \<open>%\<close>, \<open>_\<close> and the escape
  character, and \<open>ILIKE\<close>, which lowers both sides with the collation's tables (a parameter).
\<close>

text \<open>The characters of a UTF-8 text: a byte that continues a character stays with it.\<close>

definition is_continuation :: "char \<Rightarrow> bool" where
  "is_continuation c \<longleftrightarrow> 128 \<le> (of_char c :: nat) \<and> (of_char c :: nat) < 192"

fun utf8_chars :: "string \<Rightarrow> string list" where
  "utf8_chars [] = []"
| "utf8_chars (c # s) =
     (case utf8_chars s of
        [] \<Rightarrow> [[c]]
      | x # xs \<Rightarrow> if is_continuation (hd x) then (c # x) # xs else [c] # x # xs)"

abbreviation (input) esc_char :: string where "esc_char \<equiv> [CHR 0x5C]"

fun like_match :: "string list \<Rightarrow> string list \<Rightarrow> bool" where
  "like_match [] t = (t = [])"
| "like_match (p # ps) t =
     (if p = ''%'' then like_match ps t \<or> (case t of [] \<Rightarrow> False | _ # t' \<Rightarrow> like_match (p # ps) t')
      else if p = ''_'' then (case t of [] \<Rightarrow> False | _ # t' \<Rightarrow> like_match ps t')
      else if p = esc_char then
        (case ps of [] \<Rightarrow> False
         | q # qs \<Rightarrow> (case t of [] \<Rightarrow> False | c # t' \<Rightarrow> c = q \<and> like_match qs t'))
      else (case t of [] \<Rightarrow> False | c # t' \<Rightarrow> c = p \<and> like_match ps t'))"

definition sql_like :: "string \<Rightarrow> string \<Rightarrow> bool" where
  "sql_like pat s = like_match (utf8_chars pat) (utf8_chars s)"

definition sql_ilike :: "(string \<Rightarrow> string) \<Rightarrow> string \<Rightarrow> string \<Rightarrow> bool" where
  "sql_ilike pgl pat s = sql_like (ToLower pgl pat) (ToLower pgl s)"

end
