(* ===== verification/AdminRepo.thy ===== *)
theory AdminRepo
  imports Identity SqlText
begin

text \<open>
  Back-office accounts (\<open>internal/admin/model.go\<close>, \<open>repository.go\<close>): the account, and every
  method of the repository over the table of migration \<open>000010\<close>. \<open>pgl\<close> is the collation's
  lower-casing of non-ASCII text.
\<close>

subsection \<open>Model\<close>

abbreviation (input) LevelAdmin :: string where "LevelAdmin \<equiv> ''admin''"
abbreviation (input) LevelSuperAdmin :: string where "LevelSuperAdmin \<equiv> ''super_admin''"
abbreviation (input) StatusActive :: string where "StatusActive \<equiv> ''active''"
abbreviation (input) StatusDisabled :: string where "StatusDisabled \<equiv> ''disabled''"

definition level_valid :: "string \<Rightarrow> bool" where
  "level_valid l \<longleftrightarrow> l = LevelAdmin \<or> l = LevelSuperAdmin"

definition status_valid :: "string \<Rightarrow> bool" where
  "status_valid s \<longleftrightarrow> s = StatusActive \<or> s = StatusDisabled"

record admin =
  ad_id :: uuid
  ad_phone :: string
  ad_email :: string
  ad_hash :: string
  ad_name :: string
  ad_level :: string
  ad_status :: string
  ad_created :: time
  ad_updated :: time

abbreviation (input) admin_ErrNotFound :: goerr where "admin_ErrNotFound \<equiv> Sentinel ''admin.ErrNotFound''"
abbreviation (input) admin_ErrEmailTaken :: goerr where "admin_ErrEmailTaken \<equiv> Sentinel ''admin.ErrEmailTaken''"
abbreviation (input) admin_ErrPhoneTaken :: goerr where "admin_ErrPhoneTaken \<equiv> Sentinel ''admin.ErrPhoneTaken''"
abbreviation (input) ErrLastSuperAdmin :: goerr where "ErrLastSuperAdmin \<equiv> Sentinel ''admin.ErrLastSuperAdmin''"

text \<open>\<open>scanAdmin\<close>: a null email reads as the empty string.\<close>

definition scanAdmin :: "admin_row \<Rightarrow> admin" where
  "scanAdmin r = \<lparr>ad_id = ar_id r, ad_phone = ar_phone r, ad_email = opt_string (ar_email r),
     ad_hash = ar_hash r, ad_name = ar_name r, ad_level = ar_level r, ad_status = ar_status r,
     ad_created = ar_created r, ad_updated = ar_updated r\<rparr>"

subsection \<open>Create\<close>

definition sql_admin_insert :: "(string \<Rightarrow> string) \<Rightarrow> admin \<Rightarrow> time \<Rightarrow> id_db \<Rightarrow> sqlerr + admin_row \<times> id_db" where
  "sql_admin_insert pgl a now d =
     (if \<not> level_valid (ad_level a) then Inl (CheckViolation ''admins_level_check'')
      else if ad_id a \<in> set (map ar_id (admins d)) then Inl (UniqueViolation ''admins_pkey'')
      else if ad_phone a \<in> set (map ar_phone (admins d)) then Inl (UniqueViolation ''admins_phone_unique'')
      else if (\<exists>r \<in> set (admins d). \<exists>e. ar_email r = Some e \<and> ad_email a \<noteq> [] \<and>
                 ToLower pgl e = ToLower pgl (ad_email a)) then Inl (UniqueViolation ''admins_email_unique'')
      else
        (let r = \<lparr>ar_id = ad_id a, ar_phone = ad_phone a, ar_email = nullable (ad_email a),
                  ar_hash = ad_hash a, ar_name = ad_name a, ar_level = ad_level a,
                  ar_status = StatusActive, ar_created = now, ar_updated = now\<rparr>
         in Inr (r, d\<lparr>admins := admins d @ [r]\<rparr>)))"

definition admin_create ::
  "(string \<Rightarrow> string) \<Rightarrow> admin \<Rightarrow> (id_db, 'z) pgs_scheme \<Rightarrow> (goerr + admin) \<times> (id_db, 'z) pgs_scheme" where
  "admin_create pgl a w =
     (case pg_stmt (sql_admin_insert pgl a (pg_now w)) w of
        (Inl e, w1) \<Rightarrow>
          (case unique_violation (PgErr e) of
             Some c \<Rightarrow> (Inl (if contains_sub c ''phone'' then admin_ErrPhoneTaken else admin_ErrEmailTaken), w1)
           | None \<Rightarrow> (Inl (Wrapped ''insert admin'' (PgErr e)), w1))
      | (Inr r, w1) \<Rightarrow>
          (Inr (a\<lparr>ad_status := ar_status r, ad_created := ar_created r, ad_updated := ar_updated r\<rparr>), w1))"

subsection \<open>Lookups\<close>

definition sql_admin_where :: "(admin_row \<Rightarrow> bool) \<Rightarrow> id_db \<Rightarrow> sqlerr + admin_row" where
  "sql_admin_where P d = (case find P (admins d) of None \<Rightarrow> Inl NoRows | Some r \<Rightarrow> Inr r)"

definition admin_getOne ::
  "(admin_row \<Rightarrow> bool) \<Rightarrow> (id_db, 'z) pgs_scheme \<Rightarrow> (goerr + admin) \<times> (id_db, 'z) pgs_scheme" where
  "admin_getOne P w =
     (case pg_query (sql_admin_where P) w of
        (Inl e, w1) \<Rightarrow>
          (if e = NoRows then (Inl admin_ErrNotFound, w1)
           else (Inl (Wrapped ''query admin'' (PgErr e)), w1))
      | (Inr r, w1) \<Rightarrow> (Inr (scanAdmin r), w1))"

definition admin_getByID ::
  "uuid \<Rightarrow> (id_db, 'z) pgs_scheme \<Rightarrow> (goerr + admin) \<times> (id_db, 'z) pgs_scheme" where
  "admin_getByID i = admin_getOne (\<lambda>r. ar_id r = i)"

definition admin_getByPhone ::
  "string \<Rightarrow> (id_db, 'z) pgs_scheme \<Rightarrow> (goerr + admin) \<times> (id_db, 'z) pgs_scheme" where
  "admin_getByPhone phone = admin_getOne (\<lambda>r. ar_phone r = phone)"

definition admin_getByEmail ::
  "(string \<Rightarrow> string) \<Rightarrow> string \<Rightarrow> (id_db, 'z) pgs_scheme \<Rightarrow> (goerr + admin) \<times> (id_db, 'z) pgs_scheme" where
  "admin_getByEmail pgl email =
     admin_getOne (\<lambda>r. \<exists>e \<in> set_option (ar_email r). ToLower pgl e = ToLower pgl email)"

subsection \<open>List\<close>

record admin_filter =
  af_level :: string
  af_query :: string
  af_limit :: int64
  af_offset :: int64

definition admin_match :: "(string \<Rightarrow> string) \<Rightarrow> admin_filter \<Rightarrow> admin_row \<Rightarrow> bool" where
  "admin_match pgl f r \<longleftrightarrow>
     (af_level f = [] \<or> ar_level r = af_level f) \<and>
     (af_query f = [] \<or>
      (let pat = ''%'' @ af_query f @ ''%'' in
       sql_ilike pgl pat (ar_phone r) \<or> (\<exists>e \<in> set_option (ar_email r). sql_ilike pgl pat e) \<or>
       sql_ilike pgl pat (ar_name r)))"

definition admin_matches :: "(string \<Rightarrow> string) \<Rightarrow> admin_filter \<Rightarrow> id_db \<Rightarrow> admin_row list" where
  "admin_matches pgl f d = rev (sort_key ar_created (filter (admin_match pgl f) (admins d)))"

definition sql_admin_page ::
  "(string \<Rightarrow> string) \<Rightarrow> admin_filter \<Rightarrow> id_db \<Rightarrow> sqlerr + admin_row list" where
  "sql_admin_page pgl f d =
     (if sint (af_limit f) < 0 \<or> sint (af_offset f) < 0 then Inl InvalidOffset
      else Inr (sql_page (nat (sint (af_limit f))) (nat (sint (af_offset f))) (admin_matches pgl f d)))"

definition admin_list ::
  "(string \<Rightarrow> string) \<Rightarrow> admin_filter \<Rightarrow> (id_db, 'z) pgs_scheme
    \<Rightarrow> (goerr + admin list \<times> nat) \<times> (id_db, 'z) pgs_scheme" where
  "admin_list pgl f w =
     (case pg_query (\<lambda>d. Inr (length (filter (admin_match pgl f) (admins d)))) w of
        (Inl e, w1) \<Rightarrow> (Inl (Wrapped ''count admins'' (PgErr e)), w1)
      | (Inr n, w1) \<Rightarrow>
          (case pg_query (sql_admin_page pgl f) w1 of
             (Inl e, w2) \<Rightarrow> (Inl (Wrapped ''query admins'' (PgErr e)), w2)
           | (Inr rs, w2) \<Rightarrow> (Inr (map scanAdmin rs, n), w2)))"

subsection \<open>Status and level\<close>

definition upd_admin :: "(admin_row \<Rightarrow> admin_row) \<Rightarrow> uuid \<Rightarrow> id_db \<Rightarrow> id_db" where
  "upd_admin f i d = d\<lparr>admins := map (\<lambda>r. if ar_id r = i then f r else r) (admins d)\<rparr>"

text \<open>\<open>UPDATE\<close> of one column: the check of the column fails when a row is updated; the result is
  the number of rows affected.\<close>

definition affected :: "uuid \<Rightarrow> id_db \<Rightarrow> nat" where
  "affected i d = length (filter (\<lambda>r. ar_id r = i) (admins d))"

definition sql_admin_status :: "uuid \<Rightarrow> string \<Rightarrow> time \<Rightarrow> id_db \<Rightarrow> sqlerr + nat \<times> id_db" where
  "sql_admin_status i s now d =
     (if affected i d \<noteq> 0 \<and> \<not> status_valid s then Inl (CheckViolation ''admins_status_check'')
      else Inr (affected i d, upd_admin (\<lambda>r. r\<lparr>ar_status := s, ar_updated := now\<rparr>) i d))"

definition sql_admin_level :: "uuid \<Rightarrow> string \<Rightarrow> time \<Rightarrow> id_db \<Rightarrow> sqlerr + nat \<times> id_db" where
  "sql_admin_level i l now d =
     (if affected i d \<noteq> 0 \<and> \<not> level_valid l then Inl (CheckViolation ''admins_level_check'')
      else Inr (affected i d, upd_admin (\<lambda>r. r\<lparr>ar_level := l, ar_updated := now\<rparr>) i d))"

definition active_super :: "admin_row \<Rightarrow> bool" where
  "active_super r \<longleftrightarrow> ar_level r = LevelSuperAdmin \<and> ar_status r = StatusActive"

definition sql_last_super :: "uuid \<Rightarrow> id_db \<Rightarrow> sqlerr + bool" where
  "sql_last_super i d =
     (case find (\<lambda>r. ar_id r = i) (admins d) of
        None \<Rightarrow> Inl NoRows
      | Some r \<Rightarrow> Inr (active_super r \<and> \<not> (\<exists>x \<in> set (admins d). ar_id x \<noteq> ar_id r \<and> active_super x)))"

text \<open>The advisory lock is taken; who waits for it is the subject of \<open>AdminRace\<close>.\<close>

definition sql_guard_lock :: "id_db \<Rightarrow> sqlerr + unit \<times> id_db" where
  "sql_guard_lock d = Inr ((), d)"

definition disable_body ::
  "uuid \<Rightarrow> string \<Rightarrow> (id_db, 'z) pgs_scheme \<Rightarrow> (goerr + unit) \<times> (id_db, 'z) pgs_scheme" where
  "disable_body i s w =
     (case pg_stmt sql_guard_lock w of
        (Inl e, w1) \<Rightarrow> (Inl (Wrapped ''acquire super admin guard lock'' (PgErr e)), w1)
      | (Inr _, w1) \<Rightarrow>
          (case pg_query (sql_last_super i) w1 of
             (Inl e, w2) \<Rightarrow>
               (if e = NoRows then (Inl admin_ErrNotFound, w2)
                else (Inl (Wrapped ''check last super admin'' (PgErr e)), w2))
           | (Inr lastActiveSuper, w2) \<Rightarrow>
               (if lastActiveSuper then (Inl ErrLastSuperAdmin, w2)
                else case pg_stmt (sql_admin_status i s (pg_now w2)) w2 of
                  (Inl e, w3) \<Rightarrow> (Inl (Wrapped ''set admin status'' (PgErr e)), w3)
                | (Inr _, w3) \<Rightarrow> (Inr (), w3))))"

definition admin_setStatus ::
  "uuid \<Rightarrow> string \<Rightarrow> (id_db, 'z) pgs_scheme \<Rightarrow> (goerr + unit) \<times> (id_db, 'z) pgs_scheme" where
  "admin_setStatus i s w =
     (if s \<noteq> StatusDisabled then
        (case pg_stmt (sql_admin_status i s (pg_now w)) w of
           (Inl e, w1) \<Rightarrow> (Inl (Wrapped ''set admin status'' (PgErr e)), w1)
         | (Inr n, w1) \<Rightarrow> (if n = 0 then (Inl admin_ErrNotFound, w1) else (Inr (), w1)))
      else pg_tx (Wrapped ''begin set status'' (PgErr ConnLost)) (PgErr ConnLost) (disable_body i s) w)"

definition admin_setLevel ::
  "uuid \<Rightarrow> string \<Rightarrow> (id_db, 'z) pgs_scheme \<Rightarrow> (goerr + unit) \<times> (id_db, 'z) pgs_scheme" where
  "admin_setLevel i l w =
     (case pg_stmt (sql_admin_level i l (pg_now w)) w of
        (Inl e, w1) \<Rightarrow> (Inl (Wrapped ''set admin level'' (PgErr e)), w1)
      | (Inr n, w1) \<Rightarrow> (if n = 0 then (Inl admin_ErrNotFound, w1) else (Inr (), w1)))"

end
