(* ===== verification/AdminService.thy ===== *)
theory AdminService
  imports AdminRepo
begin

text \<open>
  The back-office service (\<open>internal/admin/service.go\<close>) over its store, its sessions, its token
  manager and the password hashes; and the bootstrap of the first super admin. The locale
  \<open>admin_store_laws\<close> is the contract of the store, given as the changes of the account table it
  allows.
\<close>

subsection \<open>The service\<close>

record 's admin_store =
  as_create :: "admin \<Rightarrow> 's \<Rightarrow> (goerr + admin) \<times> 's"
  as_getByID :: "uuid \<Rightarrow> 's \<Rightarrow> (goerr + admin) \<times> 's"
  as_getByPhone :: "string \<Rightarrow> 's \<Rightarrow> (goerr + admin) \<times> 's"
  as_getByEmail :: "string \<Rightarrow> 's \<Rightarrow> (goerr + admin) \<times> 's"
  as_list :: "admin_filter \<Rightarrow> 's \<Rightarrow> (goerr + admin list \<times> nat) \<times> 's"
  as_setStatus :: "uuid \<Rightarrow> string \<Rightarrow> 's \<Rightarrow> (goerr + unit) \<times> 's"
  as_setLevel :: "uuid \<Rightarrow> string \<Rightarrow> 's \<Rightarrow> (goerr + unit) \<times> 's"

definition admin_repo :: "(string \<Rightarrow> string) \<Rightarrow> (id_db, 'z) pgs_scheme admin_store" where
  "admin_repo pgl = \<lparr>as_create = admin_create pgl, as_getByID = admin_getByID,
     as_getByPhone = admin_getByPhone, as_getByEmail = admin_getByEmail pgl,
     as_list = admin_list pgl, as_setStatus = admin_setStatus, as_setLevel = admin_setLevel\<rparr>"

record 's admin_service =
  asv_store :: "'s admin_store"
  asv_jwt :: jwt_lib
  asv_token :: token_manager
  asv_sessions :: "'s sessions"
  asv_bcrypt :: bcrypt_lib
  asv_uni :: "string \<Rightarrow> string"

abbreviation (input) admin_ErrInvalidCredentials :: goerr where
  "admin_ErrInvalidCredentials \<equiv> Sentinel ''admin.ErrInvalidCredentials''"
abbreviation (input) admin_ErrInvalidLevel :: goerr where
  "admin_ErrInvalidLevel \<equiv> Sentinel ''admin.ErrInvalidLevel''"
abbreviation (input) admin_ErrInvalidStatus :: goerr where
  "admin_ErrInvalidStatus \<equiv> Sentinel ''admin.ErrInvalidStatus''"
abbreviation (input) admin_ErrAccountDisabled :: goerr where
  "admin_ErrAccountDisabled \<equiv> Sentinel ''admin.ErrAccountDisabled''"

definition admin_issue ::
  "'s admin_service \<Rightarrow> issue_draw \<Rightarrow> admin \<Rightarrow> 's \<Rightarrow> (goerr + admin \<times> string \<times> string) \<times> 's" where
  "admin_issue sv dr a s =
     (case Generate (asv_jwt sv) (asv_token sv) (is_now dr) (ad_id a) (ad_level a) of
        Inl e \<Rightarrow> (Inl (Wrapped ''generate token'' e), s)
      | Inr access \<Rightarrow>
          (case se_issue (asv_sessions sv) (is_sess dr) (ad_id a) s of
             (Inl e, s1) \<Rightarrow> (Inl (Wrapped ''issue refresh token'' e), s1)
           | (Inr refresh, s1) \<Rightarrow> (Inr (a, access, refresh), s1)))"

definition admin_lookup :: "'s admin_service \<Rightarrow> string \<Rightarrow> 's \<Rightarrow> (goerr + admin) \<times> 's" where
  "admin_lookup sv identifier s =
     (if isEmail identifier
      then as_getByEmail (asv_store sv) (normalizeEmail (asv_uni sv) identifier) s
      else as_getByPhone (asv_store sv) (normalizePhone identifier) s)"

definition admin_Login ::
  "'s admin_service \<Rightarrow> issue_draw \<Rightarrow> string \<Rightarrow> string \<Rightarrow> 's
    \<Rightarrow> (goerr + admin \<times> string \<times> string) \<times> 's" where
  "admin_Login sv dr identifier password s =
     (case admin_lookup sv identifier s of
        (Inl e, s1) \<Rightarrow>
          (if errors_is e admin_ErrNotFound then (Inl admin_ErrInvalidCredentials, s1) else (Inl e, s1))
      | (Inr a, s1) \<Rightarrow>
          (if \<not> bc_compare (asv_bcrypt sv) (ad_hash a) password then (Inl admin_ErrInvalidCredentials, s1)
           else if ad_status a = StatusDisabled then (Inl admin_ErrAccountDisabled, s1)
           else admin_issue sv dr a s1))"

definition admin_Refresh ::
  "'s admin_service \<Rightarrow> issue_draw \<Rightarrow> string \<Rightarrow> 's \<Rightarrow> (goerr + string \<times> string) \<times> 's" where
  "admin_Refresh sv dr raw s =
     (case se_rotate (asv_sessions sv) (is_sess dr) raw s of
        (Inl e, s1) \<Rightarrow> (Inl e, s1)
      | (Inr (i, newRefresh), s1) \<Rightarrow>
          (case as_getByID (asv_store sv) i s1 of
             (Inl e, s2) \<Rightarrow> (Inl e, s2)
           | (Inr a, s2) \<Rightarrow>
               (if ad_status a = StatusDisabled then (Inl ErrInvalidRefreshToken, s2)
                else case Generate (asv_jwt sv) (asv_token sv) (is_now dr) (ad_id a) (ad_level a) of
                  Inl e \<Rightarrow> (Inl (Wrapped ''generate token'' e), s2)
                | Inr access \<Rightarrow> (Inr (access, newRefresh), s2))))"

definition admin_Logout :: "'s admin_service \<Rightarrow> string \<Rightarrow> 's \<Rightarrow> (goerr + unit) \<times> 's" where
  "admin_Logout sv raw s = se_revoke (asv_sessions sv) raw s"

definition admin_LogoutAll :: "'s admin_service \<Rightarrow> uuid \<Rightarrow> 's \<Rightarrow> (goerr + unit) \<times> 's" where
  "admin_LogoutAll sv i s = se_revoke_all (asv_sessions sv) i s"

definition admin_GetByID :: "'s admin_service \<Rightarrow> uuid \<Rightarrow> 's \<Rightarrow> (goerr + admin) \<times> 's" where
  "admin_GetByID sv i s = as_getByID (asv_store sv) i s"

text \<open>\<open>nid\<close> and \<open>salt\<close> are the draws of \<open>uuid.New()\<close> and of the hash.\<close>

definition admin_Create ::
  "'s admin_service \<Rightarrow> uuid \<Rightarrow> nat \<Rightarrow> string \<Rightarrow> string \<Rightarrow> string \<Rightarrow> string \<Rightarrow> string \<Rightarrow> 's
    \<Rightarrow> (goerr + admin) \<times> 's" where
  "admin_Create sv nid salt phone email password displayName level s =
     (let lvl = (if level = [] then LevelAdmin else level) in
      if \<not> level_valid lvl then (Inl admin_ErrInvalidLevel, s)
      else case bc_generate (asv_bcrypt sv) salt password of
        Inl e \<Rightarrow> (Inl (Wrapped ''hash password'' e), s)
      | Inr hash \<Rightarrow>
          as_create (asv_store sv)
            \<lparr>ad_id = nid, ad_phone = normalizePhone phone, ad_email = normalizeEmail (asv_uni sv) email,
             ad_hash = hash, ad_name = TrimSpace displayName, ad_level = lvl, ad_status = [],
             ad_created = 0, ad_updated = 0\<rparr> s)"

definition admin_List ::
  "'s admin_service \<Rightarrow> admin_filter \<Rightarrow> 's \<Rightarrow> (goerr + admin list \<times> nat) \<times> 's" where
  "admin_List sv f s = as_list (asv_store sv) f s"

definition admin_SetStatus :: "'s admin_service \<Rightarrow> uuid \<Rightarrow> string \<Rightarrow> 's \<Rightarrow> (goerr + unit) \<times> 's" where
  "admin_SetStatus sv i status s =
     (if status \<noteq> StatusActive \<and> status \<noteq> StatusDisabled then (Inl admin_ErrInvalidStatus, s)
      else as_setStatus (asv_store sv) i status s)"

definition seed_heal :: "'s admin_service \<Rightarrow> admin \<Rightarrow> 's \<Rightarrow> (goerr + admin) \<times> 's" where
  "seed_heal sv a s =
     (case (if ad_level a \<noteq> LevelSuperAdmin
            then (case as_setLevel (asv_store sv) (ad_id a) LevelSuperAdmin s of
                    (Inl e, s1) \<Rightarrow> (Inl e, s1)
                  | (Inr _, s1) \<Rightarrow> (Inr (a\<lparr>ad_level := LevelSuperAdmin\<rparr>), s1))
            else (Inr a, s)) of
        (Inl e, s1) \<Rightarrow> (Inl e, s1)
      | (Inr a1, s1) \<Rightarrow>
          (if ad_status a1 \<noteq> StatusActive
           then (case as_setStatus (asv_store sv) (ad_id a1) StatusActive s1 of
                   (Inl e, s2) \<Rightarrow> (Inl e, s2)
                 | (Inr _, s2) \<Rightarrow> (Inr (a1\<lparr>ad_status := StatusActive\<rparr>), s2))
           else (Inr a1, s1)))"

definition SeedSuperAdmin ::
  "'s admin_service \<Rightarrow> uuid \<Rightarrow> nat \<Rightarrow> string \<Rightarrow> string \<Rightarrow> string \<Rightarrow> 's \<Rightarrow> (goerr + admin) \<times> 's" where
  "SeedSuperAdmin sv nid salt phone password displayName s =
     (case as_getByPhone (asv_store sv) (normalizePhone phone) s of
        (Inl e, s1) \<Rightarrow>
          (if errors_is e admin_ErrNotFound
           then admin_Create sv nid salt (normalizePhone phone) [] password displayName LevelSuperAdmin s1
           else (Inl e, s1))
      | (Inr existing, s1) \<Rightarrow> seed_heal sv existing s1)"

subsection \<open>What may happen to the account table\<close>

definition admin_inv :: "(string \<Rightarrow> string) \<Rightarrow> admin_row list \<Rightarrow> bool" where
  "admin_inv pgl rs \<longleftrightarrow>
     distinct (map ar_id rs) \<and> distinct (map ar_phone rs) \<and>
     distinct (map (ToLower pgl) (List.map_filter ar_email rs)) \<and>
     (\<forall>r \<in> set rs. level_valid (ar_level r) \<and> status_valid (ar_status r) \<and> ar_email r \<noteq> Some [])"

definition upd_row :: "(admin_row \<Rightarrow> admin_row) \<Rightarrow> uuid \<Rightarrow> admin_row list \<Rightarrow> admin_row list" where
  "upd_row f i rs = map (\<lambda>r. if ar_id r = i then f r else r) rs"

definition fresh_admin :: "(string \<Rightarrow> string) \<Rightarrow> admin_row \<Rightarrow> admin_row list \<Rightarrow> bool" where
  "fresh_admin pgl r rs \<longleftrightarrow>
     level_valid (ar_level r) \<and> ar_status r = StatusActive \<and> ar_email r \<noteq> Some [] \<and>
     ar_id r \<notin> set (map ar_id rs) \<and> ar_phone r \<notin> set (map ar_phone rs) \<and>
     (\<forall>e \<in> set_option (ar_email r). ToLower pgl e \<notin> ToLower pgl ` set (List.map_filter ar_email rs))"

text \<open>
  The specification of the table: an account is added, an account is enabled, an account that
  is not the last active super admin is disabled, or an account is promoted.
\<close>

inductive admin_change :: "(string \<Rightarrow> string) \<Rightarrow> admin_row list \<Rightarrow> admin_row list \<Rightarrow> bool" for pgl where
  unchanged: "admin_change pgl rs rs"
| added: "fresh_admin pgl r rs \<Longrightarrow> admin_change pgl rs (rs @ [r])"
| enabled: "admin_change pgl rs (upd_row (\<lambda>r. r\<lparr>ar_status := StatusActive, ar_updated := n\<rparr>) i rs)"
| disabled: "x \<in> set rs \<Longrightarrow> ar_id x = i \<Longrightarrow>
    \<not> (active_super x \<and> \<not> (\<exists>y \<in> set rs. ar_id y \<noteq> i \<and> active_super y)) \<Longrightarrow>
    admin_change pgl rs (upd_row (\<lambda>r. r\<lparr>ar_status := StatusDisabled, ar_updated := n\<rparr>) i rs)"
| promoted: "admin_change pgl rs (upd_row (\<lambda>r. r\<lparr>ar_level := LevelSuperAdmin, ar_updated := n\<rparr>) i rs)"

lemma upd_row_keys:
  assumes "\<And>r. ar_id (f r) = ar_id r" "\<And>r. ar_phone (f r) = ar_phone r" "\<And>r. ar_email (f r) = ar_email r"
  shows "map ar_id (upd_row f i rs) = map ar_id rs" "map ar_phone (upd_row f i rs) = map ar_phone rs"
    "List.map_filter ar_email (upd_row f i rs) = List.map_filter ar_email rs"
  by (induction rs) (simp_all add: upd_row_def assms List.map_filter_simps split: option.splits)

lemma map_filter_snoc:
  "List.map_filter f (xs @ [x]) = List.map_filter f xs @ (case f x of None \<Rightarrow> [] | Some y \<Rightarrow> [y])"
  by (simp add: List.map_filter_def split: option.splits)

lemma admin_change_inv:
  assumes "admin_change pgl rs rs'" and "admin_inv pgl rs"
  shows "admin_inv pgl rs'"
  using assms(1)
proof cases
  case (added r)
  then show ?thesis using assms(2)
    by (cases "ar_email r")
      (simp_all add: admin_inv_def fresh_admin_def status_valid_def map_filter_snoc)
next
  case (enabled n i)
  show ?thesis using assms(2) unfolding enabled admin_inv_def
    by (simp add: upd_row_keys) (auto simp: upd_row_def status_valid_def)
next
  case (disabled x i n)
  show ?thesis using assms(2) unfolding disabled(1) admin_inv_def
    by (simp add: upd_row_keys) (auto simp: upd_row_def status_valid_def)
next
  case (promoted n i)
  show ?thesis using assms(2) unfolding promoted admin_inv_def
    by (simp add: upd_row_keys) (auto simp: upd_row_def level_valid_def)
qed (use assms in simp)

lemma admin_change_super:
  assumes "admin_change pgl rs rs'" and "admin_inv pgl rs" and "\<exists>r \<in> set rs. active_super r"
  shows "\<exists>r \<in> set rs'. active_super r"
  using assms(1)
proof cases
  case (disabled x i n)
  obtain y where y: "y \<in> set rs" "active_super y" using assms(3) by blast
  have "\<exists>y \<in> set rs. ar_id y \<noteq> i \<and> active_super y"
  proof (cases "ar_id y = i")
    case True
    then have "y = x" using assms(2) disabled(2,3) y(1) by (auto simp: admin_inv_def distinct_map dest: inj_onD)
    with disabled(4) y show ?thesis by blast
  qed (use y in blast)
  then obtain z where "z \<in> set rs" "ar_id z \<noteq> i" "active_super z" by blast
  then show ?thesis unfolding disabled(1) upd_row_def
    by (auto intro!: bexI [of _ z] image_eqI [of _ _ z])
next
  case (enabled n i)
  obtain y where y: "y \<in> set rs" "active_super y" using assms(3) by blast
  let ?f = "\<lambda>r. if ar_id r = i then r\<lparr>ar_status := StatusActive, ar_updated := n\<rparr> else r"
  have "?f y \<in> set rs'" "active_super (?f y)"
    using y unfolding enabled upd_row_def by (auto simp: active_super_def)
  then show ?thesis by blast
next
  case (promoted n i)
  obtain y where y: "y \<in> set rs" "active_super y" using assms(3) by blast
  let ?f = "\<lambda>r. if ar_id r = i then r\<lparr>ar_level := LevelSuperAdmin, ar_updated := n\<rparr> else r"
  have "?f y \<in> set rs'" "active_super (?f y)"
    using y unfolding promoted upd_row_def by (auto simp: active_super_def)
  then show ?thesis by blast
qed (use assms(3) in auto)

end
