(* ===== verification/ShaDemo.thy ===== *)
theory ShaDemo
  imports SessionProps
begin

text \<open>
  SHA-256 evaluated in the kernel: rules that run the compression function on numerals, and the
  hashes of the refresh tokens made from 32 zero bytes and from 32 bytes of value one. The
  examples of the back office rest on their being different.
\<close>

subsection \<open>Rules\<close>

lemma rotr_int:
  fixes w :: "32 word"
  assumes "n < 32"
  shows "word_rotr n w = word_of_int (uint w div 2 ^ n + uint w mod 2 ^ n * 2 ^ (32 - n))"
proof -
  have "uint (word_rotr n w) = concat_bit (32 - n) (drop_bit n (uint w)) (uint (take_bit n w))"
    using uint_word_rotr_eq [of n w] assms by simp
  also have "\<dots> = take_bit (32 - n) (drop_bit n (uint w)) + push_bit (32 - n) (take_bit n (uint w))"
    by (simp add: concat_bit_eq unsigned_take_bit_eq)
  also have "take_bit (32 - n) (drop_bit n (uint w)) = drop_bit n (uint w)"
    using assms uint_lt2p [of w] by (simp add: take_bit_drop_bit take_bit_int_eq_self)
  finally have "uint (word_rotr n w) = uint w div 2 ^ n + uint w mod 2 ^ n * 2 ^ (32 - n)"
    by (simp add: drop_bit_eq_div push_bit_eq_mult take_bit_eq_mod)
  then show ?thesis by (metis word_of_int_uint)
qed

lemma rotr_num:
  assumes "n < 32"
  shows "word_rotr n (numeral x :: 32 word) = word_of_int
    (numeral x mod 4294967296 div 2 ^ n + numeral x mod 4294967296 mod 2 ^ n * 2 ^ (32 - n))"
proof -
  have u: "uint (numeral x :: 32 word) = numeral x mod 2 ^ 32"
    using uint_word_of_int [of "numeral x", where 'a = 32] by (simp only: word_of_int_numeral len_of_numeral_defs) simp
  show ?thesis using rotr_int [OF assms, of "numeral x"] unfolding u by simp
qed

lemma choose_word: "NOT e AND g = g XOR (e AND g)" for e g :: "32 word"
  by (rule bit_word_eqI) (auto simp: bit_simps)

lemma rotr_const: "word_rotr n (0 :: 32 word) = 0"
  by (rule bit_word_eqI) (simp add: bit_word_rotr_iff)

lemma funpow_fold: "(f ^^ n) x = fold (\<lambda>_. f) [2..<2 + n] x"
  by (induction n) (simp_all add: upt_Suc_append)

lemma replicate_num: "replicate (numeral k) x = x # replicate (pred_numeral k) x"
  by (simp add: numeral_eq_Suc)

lemma be_bytes_num:
  "be_bytes 4 x = [ucast (drop_bit 24 x), ucast (drop_bit 16 x), ucast (drop_bit 8 x), ucast x]"
  "be_bytes 8 y = [ucast (drop_bit 56 y), ucast (drop_bit 48 y), ucast (drop_bit 40 y),
     ucast (drop_bit 32 y), ucast (drop_bit 24 y), ucast (drop_bit 16 y), ucast (drop_bit 8 y), ucast y]"
  by (simp_all add: be_bytes_def upt_rec)

lemmas sha_eval = funpow_fold rotr_num rotr_const choose_word sha_round_def sha_sched_step_def Let_def
  sha_k_def sha_init_def

lemma fold_halves:
  "length xs = length ys \<Longrightarrow> fold f (zip xs ys) s =
     fold f (zip (drop n xs) (drop n ys)) (fold f (zip (take n xs) (take n ys)) s)"
  by (subst (1 2) append_take_drop_id [of n, symmetric], subst zip_append) simp_all

lemma sha256_one_block:
  assumes "sha_pad m = b" and "length b = 64" and "(sha_sched_step ^^ 48) (be_words b) = ws"
    and "length ws = 64"
    and "fold sha_round (zip (take 32 sha_k) (take 32 ws)) sha_init = s"
    and "fold sha_round (zip (drop 32 sha_k) (drop 32 ws)) s = s'"
  shows "sha256 m = concat (map (be_bytes 4) (map2 (+) sha_init s'))"
proof -
  have "chunks 64 b = [b]" using assms(2) by (subst chunks.simps, subst chunks.simps) auto
  moreover have "fold sha_round (zip sha_k ws) sha_init = s'"
    using assms(4-6) by (subst fold_halves [of _ _ _ _ 32]) (simp_all add: sha_k_def)
  ultimately show ?thesis using assms(1,3) by (simp add: sha256_def sha_block_def)
qed

subsection \<open>The token of 32 bytes of value 0\<close>

definition demo_raw0 :: string where "demo_raw0 = ''AAAAAAAAAAAAAAAAAAAAAAAAAAAAAAAAAAAAAAAAAAA''"

definition demo_words0 :: "32 word list" where
  "demo_words0 = [1094795585, 1094795585, 1094795585, 1094795585, 1094795585, 1094795585, 1094795585, 1094795585,
      1094795585, 1094795585, 1094795648, 0, 0, 0, 0, 344, 1568505212, 1577352635, 759379593,
      3451486744, 433790975, 230182214, 138565284, 2831311663, 3687141298, 1160201358, 487885665,
      1688388581, 3801363792, 1104776473, 4115868525, 2135921096, 4120716192, 2418841778, 271150540,
      3400522835, 2517510078, 4115561745, 824255822, 3164255224, 3875649202, 1212031243, 1277139860,
      2150319256, 1888300442, 1301662615, 1622517578, 3668710872, 4130931708, 637832372, 2078635160,
      4177829385, 2590829875, 102076811, 1090170020, 1112255259, 2830255259, 757125227, 2688279947,
      4267839638, 1523297160, 3388733502, 4080784246, 2925366693]"

lemma demo_raw0_drawn: "b64_encode (replicate 32 0) = demo_raw0"
  by (simp add: replicate_num b64_char_def b64_alphabet_def demo_raw0_def)

lemma demo_pad0: "sha_pad (bytes_of demo_raw0) =
    [65, 65, 65, 65, 65, 65, 65, 65, 65, 65, 65, 65, 65, 65, 65, 65, 65, 65, 65, 65, 65, 65, 65, 65,
      65, 65, 65, 65, 65, 65, 65, 65, 65, 65, 65, 65, 65, 65, 65, 65, 65, 65, 65, 128, 0, 0, 0, 0, 0,
      0, 0, 0, 0, 0, 0, 0, 0, 0, 0, 0, 0, 0, 1, 88]"
  by (simp add: demo_raw0_def bytes_of_def sha_pad_def replicate_num be_bytes_num)

lemma demo_sched0: "(sha_sched_step ^^ 48) (be_words (sha_pad (bytes_of demo_raw0))) = demo_words0"
proof -
  have "be_words (sha_pad (bytes_of demo_raw0)) =
      [1094795585, 1094795585, 1094795585, 1094795585, 1094795585, 1094795585, 1094795585, 1094795585,
      1094795585, 1094795585, 1094795648, 0, 0, 0, 0, 344]"
    unfolding demo_pad0 by simp
  then show ?thesis unfolding demo_words0_def by (simp add: sha_eval)
qed

lemma demo_rounds0:
  "fold sha_round (zip (take 32 sha_k) (take 32 demo_words0)) sha_init =
    [3648047794, 903823825, 593163616, 447859329, 2350039408, 3750054387, 1695547267, 2884801813]"
  "fold sha_round (zip (drop 32 sha_k) (drop 32 demo_words0))
    [3648047794, 903823825, 593163616, 447859329, 2350039408, 3750054387, 1695547267, 2884801813] =
    [2767621406, 4220659250, 2990768404, 1616899183, 865227072, 149597252, 2124848801, 2382692353]"
  by (simp_all add: sha_eval demo_words0_def)

lemma demo_hash0: "hashToken demo_raw0 =
    ''0f007385b6f9d4b7eeb2748605afe1a984a0a3bfa3f014d09e2a784ce9e5cd1a''"
proof -
  have "sha256 (bytes_of demo_raw0) =
      [15, 0, 115, 133, 182, 249, 212, 183, 238, 178, 116, 134, 5, 175, 225, 169, 132, 160, 163, 191,
      163, 240, 20, 208, 158, 42, 120, 76, 233, 229, 205, 26]"
    by (subst sha256_one_block [OF refl _ demo_sched0 _ demo_rounds0])
      (simp_all add: demo_pad0 demo_words0_def sha_init_def be_bytes_num)
  then show ?thesis by (simp add: hashToken_def hex_encode_def hex_digit_def)
qed

subsection \<open>The token of 32 bytes of value 1\<close>

definition demo_raw1 :: string where "demo_raw1 = ''AQEBAQEBAQEBAQEBAQEBAQEBAQEBAQEBAQEBAQEBAQE''"

definition demo_words1 :: "32 word list" where
  "demo_words1 = [1095845186, 1095845186, 1095845186, 1095845186, 1095845186, 1095845186, 1095845186, 1095845186,
      1095845186, 1095845186, 1095845248, 0, 0, 0, 0, 344, 1620747514, 1629594936, 641972911,
      91018389, 3377809087, 270719206, 721660385, 3075458901, 573666555, 3704314143, 3685258008,
      2431675881, 1811707243, 1718710366, 463990554, 173790189, 1568085274, 2223187090, 1055876040,
      2675665959, 91682100, 885646136, 636446765, 2449051630, 4063621568, 535697206, 2622386873,
      651446116, 2215156812, 71118848, 987029238, 887451478, 1859018578, 2322643461, 3522490583,
      1137582812, 4265097151, 3384907506, 617860341, 3727697491, 111363832, 97932933, 2299357888,
      3040475802, 2993956778, 3352755216, 2704441811, 471142883]"

lemma demo_raw1_drawn: "b64_encode (replicate 32 1) = demo_raw1"
  by (simp add: replicate_num b64_char_def b64_alphabet_def demo_raw1_def)

lemma demo_pad1: "sha_pad (bytes_of demo_raw1) =
    [65, 81, 69, 66, 65, 81, 69, 66, 65, 81, 69, 66, 65, 81, 69, 66, 65, 81, 69, 66, 65, 81, 69, 66,
      65, 81, 69, 66, 65, 81, 69, 66, 65, 81, 69, 66, 65, 81, 69, 66, 65, 81, 69, 128, 0, 0, 0, 0, 0,
      0, 0, 0, 0, 0, 0, 0, 0, 0, 0, 0, 0, 0, 1, 88]"
  by (simp add: demo_raw1_def bytes_of_def sha_pad_def replicate_num be_bytes_num)

lemma demo_sched1: "(sha_sched_step ^^ 48) (be_words (sha_pad (bytes_of demo_raw1))) = demo_words1"
proof -
  have "be_words (sha_pad (bytes_of demo_raw1)) =
      [1095845186, 1095845186, 1095845186, 1095845186, 1095845186, 1095845186, 1095845186, 1095845186,
      1095845186, 1095845186, 1095845248, 0, 0, 0, 0, 344]"
    unfolding demo_pad1 by simp
  then show ?thesis unfolding demo_words1_def by (simp add: sha_eval)
qed

lemma demo_rounds1:
  "fold sha_round (zip (take 32 sha_k) (take 32 demo_words1)) sha_init =
    [2686868611, 1346844440, 1342281165, 4231131977, 2435940291, 3917319486, 2462927121, 4212346810]"
  "fold sha_round (zip (drop 32 sha_k) (drop 32 demo_words1))
    [2686868611, 1346844440, 1342281165, 4231131977, 2435940291, 3917319486, 2462927121, 4212346810] =
    [3972797452, 2022648002, 2664681159, 2603509866, 1914763770, 1482137759, 4090231215, 3830239043]"
  by (simp_all add: sha_eval demo_words1_def)

lemma demo_hash1: "hashToken demo_raw1 =
    ''56d5fa7333f6d747db42c239407e5da4c32f4c79f35d092b134fd35a402d9c5c''"
proof -
  have "sha256 (bytes_of demo_raw1) =
      [86, 213, 250, 115, 51, 246, 215, 71, 219, 66, 194, 57, 64, 126, 93, 164, 195, 47, 76, 121, 243,
      93, 9, 43, 19, 79, 211, 90, 64, 45, 156, 92]"
    by (subst sha256_one_block [OF refl _ demo_sched1 _ demo_rounds1])
      (simp_all add: demo_pad1 demo_words1_def sha_init_def be_bytes_num)
  then show ?thesis by (simp add: hashToken_def hex_encode_def hex_digit_def)
qed

lemma demo_hashes_differ: "hashToken demo_raw0 \<noteq> hashToken demo_raw1"
  unfolding demo_hash0 demo_hash1 by simp

end
