(* ===== verification/AdminProps.thy ===== *)
theory AdminProps
  imports AdminService ShaDemo
begin

text \<open>
  The contract of the account store with the service's lemmas, its interpretation on the
  repository and on the wired service, and the properties of the back office.
\<close>

subsection \<open>The contract\<close>

locale admin_store_laws =
  fixes st :: "'s admin_store" and rows :: "'s \<Rightarrow> admin_row list" and pgl :: "string \<Rightarrow> string"
  assumes create: "as_create st a s = (r, s') \<Longrightarrow>
      (rows s' = rows s \<and> (\<forall>x. r \<noteq> Inr x)) \<or>
      (\<exists>row. fresh_admin pgl row (rows s) \<and> rows s' = rows s @ [row] \<and>
         (\<forall>x. r = Inr x \<longrightarrow> x = scanAdmin row \<and> ad_phone x = ad_phone a \<and> ad_level x = ad_level a))"
    and by_id: "as_getByID st i s = (r, s') \<Longrightarrow> rows s' = rows s \<and>
      (\<forall>x. r = Inr x \<longrightarrow> (\<exists>row \<in> set (rows s). ar_id row = i \<and> x = scanAdmin row))"
    and by_phone: "as_getByPhone st p s = (r, s') \<Longrightarrow> rows s' = rows s \<and>
      (\<forall>x. r = Inr x \<longrightarrow> (\<exists>row \<in> set (rows s). ar_phone row = p \<and> x = scanAdmin row))"
    and by_email: "as_getByEmail st e s = (r, s') \<Longrightarrow> rows s' = rows s \<and>
      (\<forall>x. r = Inr x \<longrightarrow> (\<exists>row \<in> set (rows s). \<exists>m. ar_email row = Some m \<and>
         ToLower pgl m = ToLower pgl e \<and> x = scanAdmin row))"
    and list_rows: "as_list st f s = (l, s') \<Longrightarrow> rows s' = rows s"
    and set_status: "as_setStatus st i x s = (q, s') \<Longrightarrow> status_valid x \<Longrightarrow>
      admin_change pgl (rows s) (rows s')"
    and set_level: "as_setLevel st i LevelSuperAdmin s = (q, s') \<Longrightarrow> admin_change pgl (rows s) (rows s')"

locale admin_service_laws = admin_store_laws +
  fixes sv :: "'a admin_service"
  assumes store: "asv_store sv = st"
    and sessions:
      "se_issue (asv_sessions sv) d i s = (p1, s') \<Longrightarrow> rows s' = rows s"
      "se_rotate (asv_sessions sv) d raw s = (p2, s') \<Longrightarrow> rows s' = rows s"
      "se_revoke (asv_sessions sv) raw s = (p3, s') \<Longrightarrow> rows s' = rows s"
      "se_revoke_all (asv_sessions sv) i s = (p4, s') \<Longrightarrow> rows s' = rows s"
begin

lemma issue_Inr:
  assumes "admin_issue sv dr a s = (r, s')"
  shows "rows s' = rows s \<and> (\<forall>x acc ref. r = Inr (x, acc, ref) \<longrightarrow> x = a \<and>
    Generate (asv_jwt sv) (asv_token sv) (is_now dr) (ad_id a) (ad_level a) = Inr acc)"
  using assms sessions(1) [of "is_sess dr" "ad_id a" s]
  by (auto simp: admin_issue_def split: sum.splits prod.splits)

lemma lookup_rows:
  assumes "admin_lookup sv identifier s = (r, s')"
  shows "rows s' = rows s \<and> (\<forall>x. r = Inr x \<longrightarrow> (\<exists>row \<in> set (rows s). x = scanAdmin row))"
  using assms by_email by_phone unfolding admin_lookup_def store by (fastforce split: if_splits)

lemma login_rows:
  assumes "admin_Login sv dr identifier password s = (r, s')"
  shows "rows s' = rows s \<and> (\<forall>x acc ref. r = Inr (x, acc, ref) \<longrightarrow>
    (\<exists>row \<in> set (rows s). x = scanAdmin row \<and> ar_status row \<noteq> StatusDisabled \<and>
       bc_compare (asv_bcrypt sv) (ar_hash row) password \<and>
       Generate (asv_jwt sv) (asv_token sv) (is_now dr) (ar_id row) (ar_level row) = Inr acc))"
proof (cases "admin_lookup sv identifier s")
  case (Pair f s1)
  note l = lookup_rows [OF Pair]
  show ?thesis
  proof (cases f)
    case (Inl e)
    with assms Pair l show ?thesis by (auto simp: admin_Login_def split: if_splits)
  next
    case (Inr a)
    with l obtain row where row: "row \<in> set (rows s)" "a = scanAdmin row" by blast
    show ?thesis
    proof (cases "bc_compare (asv_bcrypt sv) (ad_hash a) password \<and> ad_status a \<noteq> StatusDisabled")
      case True
      with assms Pair Inr have "admin_issue sv dr a s1 = (r, s')" by (simp add: admin_Login_def)
      from issue_Inr [OF this] l row True show ?thesis by (auto simp: scanAdmin_def)
    next
      case False
      with assms Pair Inr l show ?thesis by (auto simp: admin_Login_def split: if_splits)
    qed
  qed
qed

lemma refresh_rows:
  assumes "admin_Refresh sv dr raw s = (r, s')"
  shows "rows s' = rows s \<and> (\<forall>acc ref. r = Inr (acc, ref) \<longrightarrow>
    (\<exists>row \<in> set (rows s). ar_status row \<noteq> StatusDisabled \<and>
       fst (se_rotate (asv_sessions sv) (is_sess dr) raw s) = Inr (ar_id row, ref) \<and>
       Generate (asv_jwt sv) (asv_token sv) (is_now dr) (ar_id row) (ar_level row) = Inr acc))"
proof (cases "se_rotate (asv_sessions sv) (is_sess dr) raw s")
  case (Pair f s1)
  note l = sessions(2) [OF Pair]
  show ?thesis
  proof (cases f)
    case (Inl e)
    with assms Pair l show ?thesis by (auto simp: admin_Refresh_def)
  next
    case (Inr p)
    obtain i ref where p: "p = (i, ref)" by fastforce
    obtain g s2 where g: "as_getByID st i s1 = (g, s2)" by fastforce
    note b = by_id [OF g]
    show ?thesis
      using assms Pair Inr p g b l
      by (auto simp: admin_Refresh_def store scanAdmin_def split: sum.splits if_splits)
  qed
qed

lemma create_change:
  assumes "admin_Create sv nid salt phone email password displayName level s = (r, s')"
  shows "admin_change pgl (rows s) (rows s')"
proof -
  have "admin_change pgl (rows s) (rows s')" if "as_create st a s = (r, s')" for a
    using create [OF that] admin_change.unchanged admin_change.added by metis
  then show ?thesis using assms admin_change.unchanged
    by (auto simp: admin_Create_def store Let_def split: if_splits sum.splits)
qed

lemma status_change:
  assumes "admin_SetStatus sv i x s = (q, s')"
  shows "admin_change pgl (rows s) (rows s')"
  using assms set_status [of i x s q s'] admin_change.unchanged
  by (auto simp: admin_SetStatus_def store status_valid_def split: if_splits)

end

subsection \<open>Runs of the service\<close>

inductive admin_run :: "'s admin_service \<Rightarrow> ('s \<Rightarrow> admin_row list) \<Rightarrow> 's \<Rightarrow> 's \<Rightarrow> bool"
  for sv rows where
  none: "admin_run sv rows s s"
| elsewhere: "admin_run sv rows s s1 \<Longrightarrow> rows s2 = rows s1 \<Longrightarrow> admin_run sv rows s s2"
| login: "admin_run sv rows s s1 \<Longrightarrow> admin_Login sv dr ident pw s1 = (l, s2) \<Longrightarrow> admin_run sv rows s s2"
| refresh: "admin_run sv rows s s1 \<Longrightarrow> admin_Refresh sv dr raw s1 = (f, s2) \<Longrightarrow> admin_run sv rows s s2"
| creation: "admin_run sv rows s s1 \<Longrightarrow>
    admin_Create sv nid salt phone email pw nm lv s1 = (c, s2) \<Longrightarrow> admin_run sv rows s s2"
| status: "admin_run sv rows s s1 \<Longrightarrow> admin_SetStatus sv i x s1 = (q, s2) \<Longrightarrow> admin_run sv rows s s2"
| seed: "admin_run sv rows s s1 \<Longrightarrow> SeedSuperAdmin sv nid salt phone pw nm s1 = (c, s2) \<Longrightarrow>
    admin_run sv rows s s2"

context admin_service_laws begin

lemma two_steps:
  "\<exists>m. admin_change pgl r m \<and> admin_change pgl m r"
  "admin_change pgl r r' \<Longrightarrow> \<exists>m. admin_change pgl r m \<and> admin_change pgl m r'"
  using admin_change.unchanged by blast+

lemma heal_steps:
  assumes "seed_heal sv a s = (r, s')"
  shows "\<exists>rs. admin_change pgl (rows s) rs \<and> admin_change pgl rs (rows s')"
proof -
  have lv: "admin_change pgl (rows s) (rows s1)" if "as_setLevel st i LevelSuperAdmin s = (q, s1)" for i q s1
    using set_level [OF that] .
  have sv: "admin_change pgl (rows s1) (rows s2)" if "as_setStatus st i StatusActive s1 = (q, s2)" for i q s1 s2
    using set_status [OF that] by (simp add: status_valid_def)
  show ?thesis
  proof (cases "ad_level a \<noteq> LevelSuperAdmin")
    case True
    obtain q s1 where q: "as_setLevel st (ad_id a) LevelSuperAdmin s = (q, s1)" by fastforce
    show ?thesis
      using assms True q lv [OF q] sv [of "ad_id a" s1]
      by (auto simp: seed_heal_def store intro: two_steps split: sum.splits if_splits prod.splits)
  next
    case False
    then show ?thesis
      using assms sv [of "ad_id a" s]
      by (auto simp: seed_heal_def store intro: two_steps split: sum.splits if_splits prod.splits)
  qed
qed

lemma seed_steps:
  assumes "SeedSuperAdmin sv nid salt phone pw nm s = (r, s')"
  shows "\<exists>rs. admin_change pgl (rows s) rs \<and> admin_change pgl rs (rows s')"
proof (cases "as_getByPhone st (normalizePhone phone) s")
  case (Pair f s1)
  note l = by_phone [OF Pair]
  show ?thesis
  proof (cases f)
    case (Inl e)
    then show ?thesis
      using assms Pair l create_change [of nid salt "normalizePhone phone" "[]" pw nm LevelSuperAdmin s1 r s']
      by (auto simp: SeedSuperAdmin_def store intro: two_steps split: if_splits)
  next
    case (Inr a)
    with assms Pair have "seed_heal sv a s1 = (r, s')" by (simp add: SeedSuperAdmin_def store)
    from heal_steps [OF this] l show ?thesis by simp
  qed
qed

lemma run_super:
  assumes "admin_run sv rows s s'" and "admin_inv pgl (rows s)" and "\<exists>r \<in> set (rows s). active_super r"
  shows "admin_inv pgl (rows s') \<and> (\<exists>r \<in> set (rows s'). active_super r)"
  using assms
proof (induction rule: admin_run.induct)
  case (login s s1 dr ident pw l s2)
  then show ?case using login_rows [OF login(2)] by simp
next
  case (refresh s s1 dr raw f s2)
  then show ?case using refresh_rows [OF refresh(2)] by simp
next
  case (creation s s1 nid salt phone email pw nm lv c s2)
  then show ?case using create_change [OF creation(2)] admin_change_inv admin_change_super by metis
next
  case (status s s1 i x q s2)
  then show ?case using status_change [OF status(2)] admin_change_inv admin_change_super by metis
next
  case (seed s s1 nid salt phone pw nm c s2)
  then show ?case using seed_steps [OF seed(2)] admin_change_inv admin_change_super by metis
qed simp_all

end

subsection \<open>The repository satisfies the contract\<close>

lemma admin_create_effect:
  assumes "admin_create pgl a w = (r, w')"
  shows "(admins (tables w') = admins (tables w) \<and> (\<forall>x. r \<noteq> Inr x)) \<or>
    (\<exists>row. fresh_admin pgl row (admins (tables w)) \<and> admins (tables w') = admins (tables w) @ [row] \<and>
       (\<forall>x. r = Inr x \<longrightarrow> x = scanAdmin row \<and> ad_phone x = ad_phone a \<and> ad_level x = ad_level a))"
proof (cases "sql_admin_insert pgl a (pg_now w) (tables w)")
  case (Inl e)
  with assms show ?thesis
    by (auto simp: admin_create_def pg_stmt_def split: prod.splits sum.splits fate.splits option.splits if_splits)
next
  case (Inr p)
  define row where "row = \<lparr>ar_id = ad_id a, ar_phone = ad_phone a, ar_email = nullable (ad_email a),
      ar_hash = ad_hash a, ar_name = ad_name a, ar_level = ad_level a,
      ar_status = StatusActive, ar_created = pg_now w, ar_updated = pg_now w\<rparr>"
  have p: "p = (row, (tables w)\<lparr>admins := admins (tables w) @ [row]\<rparr>)"
    using Inr by (auto simp: sql_admin_insert_def row_def Let_def split: if_splits)
  have "fresh_admin pgl row (admins (tables w))"
    using Inr by (fastforce simp: sql_admin_insert_def fresh_admin_def row_def nullable_def
        set_map_filter_iff split: if_splits)
  moreover have "a\<lparr>ad_status := ar_status row, ad_created := ar_created row, ad_updated := ar_updated row\<rparr> =
      scanAdmin row" by (simp add: scanAdmin_def row_def)
  moreover have "ad_phone (scanAdmin row) = ad_phone a" "ad_level (scanAdmin row) = ad_level a"
    by (simp_all add: scanAdmin_def row_def)
  ultimately show ?thesis
    using assms Inr p
    by (auto simp: admin_create_def pg_stmt_def split: prod.splits sum.splits fate.splits option.splits if_splits)
qed

lemma admin_getOne_effect:
  assumes "admin_getOne P w = (r, w')"
  shows "tables w' = tables w \<and> (\<forall>x. r = Inr x \<longrightarrow> (\<exists>row \<in> set (admins (tables w)). P row \<and> x = scanAdmin row))"
  using assms
  by (auto simp: admin_getOne_def pg_query_def pg_stmt_def sql_admin_where_def
      split: prod.splits sum.splits fate.splits option.splits if_splits dest!: find_SomeD)

lemma upd_admin_rows: "admins (upd_admin f i d) = upd_row f i (admins d)"
  by (simp add: upd_admin_def upd_row_def)

lemma disable_body_Inr:
  assumes "disable_body i StatusDisabled w = (Inr u, w')"
  shows "admin_change pgl (admins (tables w)) (admins (tables w'))"
proof -
  from assms have "sql_last_super i (tables w) = Inr False"
    and e: "\<exists>n. admins (tables w') =
      upd_row (\<lambda>r. r\<lparr>ar_status := StatusDisabled, ar_updated := n\<rparr>) i (admins (tables w))"
    by (auto simp: disable_body_def pg_stmt_Inr pg_query_Inr sql_guard_lock_def sql_admin_status_def
        upd_admin_rows split: prod.splits sum.splits if_splits)
  then obtain x where x: "x \<in> set (admins (tables w))" "ar_id x = i"
    "\<not> (active_super x \<and> \<not> (\<exists>y \<in> set (admins (tables w)). ar_id y \<noteq> i \<and> active_super y))"
    by (auto simp: sql_last_super_def dest!: find_SomeD split: option.splits)
  from admin_change.disabled [OF x] e show ?thesis by auto
qed

lemma admin_setStatus_effect:
  assumes "admin_setStatus i x w = (q, w')" and "status_valid x"
  shows "admin_change pgl (admins (tables w)) (admins (tables w'))"
proof (cases "x = StatusDisabled")
  case True
  with assms have t: "pg_tx (Wrapped ''begin set status'' (PgErr ConnLost)) (PgErr ConnLost)
      (disable_body i StatusDisabled) w = (q, w')" by (simp add: admin_setStatus_def)
  show ?thesis
  proof (cases q)
    case (Inr u)
    from pg_tx_Inr [OF t [unfolded Inr]]
    obtain w1 where "disable_body i StatusDisabled (pop_fate w) = (Inr u, w1)" "w' = pop_fate w1" by blast
    with disable_body_Inr [of i "pop_fate w" u w1 pgl] show ?thesis by simp
  next
    case (Inl e)
    from pg_tx_Inl_tables [OF t [unfolded Inl]] disable_body_Inr [of i "pop_fate w" _ _ pgl] show ?thesis
      by (auto intro: admin_change.unchanged)
  qed
next
  case False
  with assms(2) have "x = StatusActive" by (simp add: status_valid_def)
  with assms(1) False show ?thesis
    by (auto simp: admin_setStatus_def pg_stmt_def sql_admin_status_def upd_admin_rows
        split: prod.splits sum.splits fate.splits if_splits intro: admin_change.intros)
qed

lemma admin_setLevel_effect:
  assumes "admin_setLevel i LevelSuperAdmin w = (q, w')"
  shows "admin_change pgl (admins (tables w)) (admins (tables w'))"
  using assms
  by (auto simp: admin_setLevel_def pg_stmt_def sql_admin_level_def upd_admin_rows
      split: prod.splits sum.splits fate.splits if_splits intro: admin_change.intros)

interpretation adm_repo: admin_store_laws "admin_repo pgl" "\<lambda>w. admins (tables w)" pgl for pgl
proof unfold_locales
  fix a s r s' assume "as_create (admin_repo pgl) a s = (r, s')"
  then show "(admins (tables s') = admins (tables s) \<and> (\<forall>x. r \<noteq> Inr x)) \<or>
      (\<exists>row. fresh_admin pgl row (admins (tables s)) \<and> admins (tables s') = admins (tables s) @ [row] \<and>
         (\<forall>x. r = Inr x \<longrightarrow> x = scanAdmin row \<and> ad_phone x = ad_phone a \<and> ad_level x = ad_level a))"
    using admin_create_effect by (simp add: admin_repo_def)
next
  fix i s r s' assume "as_getByID (admin_repo pgl) i s = (r, s')"
  then show "admins (tables s') = admins (tables s) \<and>
      (\<forall>x. r = Inr x \<longrightarrow> (\<exists>row \<in> set (admins (tables s)). ar_id row = i \<and> x = scanAdmin row))"
    using admin_getOne_effect by (fastforce simp: admin_repo_def admin_getByID_def)
next
  fix p s r s' assume "as_getByPhone (admin_repo pgl) p s = (r, s')"
  then show "admins (tables s') = admins (tables s) \<and>
      (\<forall>x. r = Inr x \<longrightarrow> (\<exists>row \<in> set (admins (tables s)). ar_phone row = p \<and> x = scanAdmin row))"
    using admin_getOne_effect by (fastforce simp: admin_repo_def admin_getByPhone_def)
next
  fix e s r s' assume "as_getByEmail (admin_repo pgl) e s = (r, s')"
  then show "admins (tables s') = admins (tables s) \<and>
      (\<forall>x. r = Inr x \<longrightarrow> (\<exists>row \<in> set (admins (tables s)). \<exists>m. ar_email row = Some m \<and>
         ToLower pgl m = ToLower pgl e \<and> x = scanAdmin row))"
    using admin_getOne_effect by (fastforce simp: admin_repo_def admin_getByEmail_def)
next
  fix f s l s' assume "as_list (admin_repo pgl) f s = (l, s')"
  then show "admins (tables s') = admins (tables s)"
    by (auto simp: admin_repo_def admin_list_def dest!: pg_query_snd split: prod.splits sum.splits)
next
  fix i x s q s' assume "as_setStatus (admin_repo pgl) i x s = (q, s')" "status_valid x"
  then show "admin_change pgl (admins (tables s)) (admins (tables s'))"
    using admin_setStatus_effect by (simp add: admin_repo_def)
next
  fix i s q s' assume "as_setLevel (admin_repo pgl) i LevelSuperAdmin s = (q, s')"
  then show "admin_change pgl (admins (tables s)) (admins (tables s'))"
    using admin_setLevel_effect by (simp add: admin_repo_def)
qed

text \<open>The service as \<open>cmd/server\<close> wires it, over any libraries.\<close>

definition admin_wired ::
  "jwt_lib \<Rightarrow> token_manager \<Rightarrow> time \<Rightarrow> bcrypt_lib \<Rightarrow> (string \<Rightarrow> string) \<Rightarrow> (string \<Rightarrow> string)
    \<Rightarrow> (id_db, 'z) pgs_scheme admin_service" where
  "admin_wired L tm ttl B uni pgl = \<lparr>asv_store = admin_repo pgl, asv_jwt = L, asv_token = tm,
     asv_sessions = session_service (token_store admin_tokens) ttl, asv_bcrypt = B, asv_uni = uni\<rparr>"

interpretation adm_svc: admin_service_laws "admin_repo pgl" "\<lambda>w. admins (tables w)" pgl
    "admin_wired L tm ttl B uni pgl" for L tm ttl B uni pgl
proof unfold_locales
  have f: "admins (tt_put admin_tokens ts d) = admins d" for ts d by (simp add: admin_tokens_def)
  note fr = sess_ops_frame [of admins, OF f]
  fix d i s p1 s' assume "se_issue (asv_sessions (admin_wired L tm ttl B uni pgl)) d i s = (p1, s')"
  then show "admins (tables s') = admins (tables s)" using fr(1) by (simp add: admin_wired_def session_service_def)
next
  have f: "admins (tt_put admin_tokens ts d) = admins d" for ts d by (simp add: admin_tokens_def)
  note fr = sess_ops_frame [of admins, OF f]
  fix d raw s p2 s' assume "se_rotate (asv_sessions (admin_wired L tm ttl B uni pgl)) d raw s = (p2, s')"
  then show "admins (tables s') = admins (tables s)" using fr(2) by (simp add: admin_wired_def session_service_def)
next
  have f: "admins (tt_put admin_tokens ts d) = admins d" for ts d by (simp add: admin_tokens_def)
  note fr = sess_ops_frame [of admins, OF f]
  fix raw s p3 s' assume "se_revoke (asv_sessions (admin_wired L tm ttl B uni pgl)) raw s = (p3, s')"
  then show "admins (tables s') = admins (tables s)" using fr(3) by (simp add: admin_wired_def session_service_def)
next
  have f: "admins (tt_put admin_tokens ts d) = admins d" for ts d by (simp add: admin_tokens_def)
  note fr = sess_ops_frame [of admins, OF f]
  fix i s p4 s' assume "se_revoke_all (asv_sessions (admin_wired L tm ttl B uni pgl)) i s = (p4, s')"
  then show "admins (tables s') = admins (tables s)" using fr(4) by (simp add: admin_wired_def session_service_def)
qed (simp add: admin_wired_def)

lemma admin_wired_simps [simp]:
  "asv_store (admin_wired L tm ttl B uni pgl) = admin_repo pgl"
  "asv_bcrypt (admin_wired L tm ttl B uni pgl) = B" "asv_jwt (admin_wired L tm ttl B uni pgl) = L"
  "asv_token (admin_wired L tm ttl B uni pgl) = tm" "asv_uni (admin_wired L tm ttl B uni pgl) = uni"
  "asv_sessions (admin_wired L tm ttl B uni pgl) = session_service (token_store admin_tokens) ttl"
  by (simp_all add: admin_wired_def)

subsection \<open>Properties\<close>

text \<open>C7: the back office never loses its last super admin. From a table with an active super
  admin, after any sequence of logins, refreshes, creations, status changes and seedings, with
  any statement lost on the way, there still is one; ids, phones and emails stay unique and
  levels and statuses legal.\<close>

theorem last_super_admin:
  assumes "admin_inv pgl (admins (tables w))" and "\<exists>r \<in> set (admins (tables w)). active_super r"
    and "admin_run (admin_wired L tm ttl B uni pgl) (\<lambda>w. admins (tables w)) w w'"
  shows "(\<exists>r \<in> set (admins (tables w')). active_super r) \<and> admin_inv pgl (admins (tables w'))"
  using adm_svc.run_super [OF assms(3,1,2)] by blast

definition demo_root :: admin_row where
  "demo_root = \<lparr>ar_id = 1, ar_phone = ''100'', ar_email = None, ar_hash = ''hpw'', ar_name = ''root'',
     ar_level = LevelSuperAdmin, ar_status = StatusActive, ar_created = 0, ar_updated = 0\<rparr>"

definition demo_admin_w :: "id_db pgs" where
  "demo_admin_w = \<lparr>tables = empty_id_db\<lparr>admins := [demo_root]\<rparr>, fates = [], pg_now = 5\<rparr>"

abbreviation (input) demo_admin_sv where
  "demo_admin_sv \<equiv> admin_wired demo_jwt demo_admin_tm 10 demo_bcrypt id id"

lemma demo_admin_inv: "admin_inv id (admins (tables demo_admin_w))"
  by (simp add: admin_inv_def demo_admin_w_def demo_root_def level_valid_def status_valid_def
      List.map_filter_def)

lemma demo_disable:
  "admin_SetStatus demo_admin_sv 1 StatusDisabled demo_admin_w = (Inl ErrLastSuperAdmin, demo_admin_w)"
  by (simp add: admin_SetStatus_def admin_repo_def admin_setStatus_def pg_tx_def disable_body_def
      pg_stmt_healthy sql_guard_lock_def pg_query_healthy sql_last_super_def demo_admin_w_def
      demo_root_def active_super_def)

theorem last_super_admin_witness:
  "(\<exists>r \<in> set (admins (tables demo_admin_w)). active_super r) \<and>
   fst (admin_SetStatus demo_admin_sv 1 StatusDisabled demo_admin_w) = Inl ErrLastSuperAdmin"
proof -
  have "admin_run demo_admin_sv (\<lambda>w. admins (tables w)) demo_admin_w demo_admin_w"
    by (rule admin_run.status [OF admin_run.none demo_disable])
  from last_super_admin [OF demo_admin_inv _ this] show ?thesis
    using demo_disable by (simp add: demo_admin_w_def demo_root_def active_super_def)
qed

text \<open>C29: only an enabled account gets tokens, and only for its own level. A login that succeeds
  found an account that is not disabled, whose password hash matches; a refresh that succeeds
  rotated a token of an account that is not disabled. In both cases the access token is one
  generated for that account's id and current level.\<close>

theorem admin_tokens_only_enabled:
  "(\<forall>a access refresh. fst (admin_Login (admin_wired L tm ttl B uni pgl) dr ident pw w) =
      Inr (a, access, refresh) \<longrightarrow>
      (\<exists>row \<in> set (admins (tables w)). a = scanAdmin row \<and> ar_status row \<noteq> StatusDisabled \<and>
         bc_compare B (ar_hash row) pw \<and>
         Generate L tm (is_now dr) (ar_id row) (ar_level row) = Inr access)) \<and>
   (\<forall>access refresh. fst (admin_Refresh (admin_wired L tm ttl B uni pgl) dr raw w) =
      Inr (access, refresh) \<longrightarrow>
      (\<exists>row \<in> set (admins (tables w)). ar_status row \<noteq> StatusDisabled \<and>
         fst (sess_rotate (token_store admin_tokens) ttl (is_sess dr) raw w) = Inr (ar_id row, refresh) \<and>
         Generate L tm (is_now dr) (ar_id row) (ar_level row) = Inr access))"
  using adm_svc.login_rows [OF prod.collapse [symmetric], of L tm ttl B uni pgl dr ident pw w]
    adm_svc.refresh_rows [OF prod.collapse [symmetric], of L tm ttl B uni pgl dr raw w]
  by (simp add: session_service_def)

definition demo_issue_draw :: issue_draw where
  "demo_issue_draw = \<lparr>is_now = 0, is_sess = demo_draw\<rparr>"

text \<open>A library that signs the claims of the super admin \<open>demo_root\<close>, and a state with a refresh token of
  his.\<close>

definition demo_admin_claims :: token_claims where
  "demo_admin_claims = \<lparr>tc_realm = ''admin'', tc_role = LevelSuperAdmin, tc_subject = ''i'',
     tc_issued = 0, tc_expires = 900000000\<rparr>"

definition demo_admin_jwt :: jwt_lib where
  "demo_admin_jwt = demo_jwt\<lparr>
     jwt_sign := (\<lambda>k c. if k = ''s2'' \<and> c = demo_admin_claims then Inr ''adm'' else Inl (Plain [])),
     jwt_parse := (\<lambda>kf now tok. if tok = ''adm'' \<and> kf ''HS256'' = Inr ''s2'' \<and> now < 900000000
                     then Inr (demo_admin_claims, True) else Inl (Plain []))\<rparr>"

lemma demo_admin_jwt_laws: "jwt_laws demo_admin_jwt"
  using demo_jwt_laws by (auto simp: jwt_laws_def demo_admin_jwt_def demo_admin_claims_def demo_jwt_def split: if_splits)

definition demo_admin_w1 :: "id_db pgs" where
  "demo_admin_w1 = demo_admin_w\<lparr>tables := (tables demo_admin_w)\<lparr>admin_refresh_tokens :=
     [\<lparr>t_id = 9, t_user = 1, t_hash = hashToken demo_raw1, t_expires = 60, t_revoked = None, t_created = 3\<rparr>]\<rparr>\<rparr>"

lemma demo_admin_signs: "Generate demo_admin_jwt demo_admin_tm 0 1 LevelSuperAdmin = Inr ''adm''"
  by (simp add: Generate_def demo_admin_jwt_def demo_jwt_def demo_admin_tm_def NewTokenManager_def
      demo_admin_claims_def)

lemma demo_draw_parts: "dr_id demo_draw = 1" "dr_now demo_draw = 50" "dr_bytes demo_draw = Some (replicate 32 0)"
  by (simp_all add: demo_draw_def)

lemma demo_drawn: "drawn demo_draw = demo_raw0"
  by (simp add: drawn_def demo_draw_def demo_raw0_drawn)

lemma demo_admin_login:
  "fst (admin_Login (admin_wired demo_admin_jwt demo_admin_tm 10 demo_bcrypt id id) demo_issue_draw ''100'' ''pw'' demo_admin_w) =
     Inr (scanAdmin demo_root, ''adm'', demo_raw0)"
proof -
  have n: "normalizePhone ''100'' = ''100''" "\<not> isEmail ''100''"
    by (simp_all add: normalizePhone_def TrimSpace_plain plain_char_def isEmail_def)
  have l: "admin_getByPhone ''100'' demo_admin_w = (Inr (scanAdmin demo_root), demo_admin_w)"
    by (simp add: admin_getByPhone_def admin_getOne_def pg_query_healthy sql_admin_where_def demo_admin_w_def
        demo_root_def)
  have "\<exists>w1. sess_issue (token_store admin_tokens) 10 demo_draw 1 demo_admin_w = (Inr (drawn demo_draw), w1)"
    using issue_healthy [of admin_tokens demo_admin_w 1 demo_draw 10]
    by (auto simp: admin_tokens_def demo_admin_w_def demo_root_def empty_id_db_def demo_draw_def)
  then show ?thesis
    by (auto simp: admin_Login_def admin_lookup_def n admin_repo_def l scanAdmin_def demo_root_def demo_bcrypt_def
        admin_issue_def demo_admin_signs [unfolded One_nat_def] demo_issue_draw_def session_service_def demo_drawn)
qed

lemma demo_admin_rotate:
  "\<exists>w1. sess_rotate (token_store admin_tokens) 10 demo_draw demo_raw1 demo_admin_w1 = (Inr (1, demo_raw0), w1) \<and>
     fates w1 = [] \<and> admins (tables w1) = [demo_root]"
proof -
  let ?t = "\<lparr>t_id = 9, t_user = 1, t_hash = hashToken demo_raw1, t_expires = 60, t_revoked = None, t_created = 3\<rparr>"
  let ?w = "demo_admin_w1\<lparr>tables := (tables demo_admin_w1)\<lparr>admin_refresh_tokens := [?t\<lparr>t_revoked := Some 5\<rparr>]\<rparr>\<rparr>"
  have f: "token_find admin_tokens (hashToken demo_raw1) demo_admin_w1 = (Inr ?t, demo_admin_w1)"
    by (simp add: token_find_def pg_query_healthy sql_token_by_hash_def admin_tokens_def demo_admin_w1_def
        demo_admin_w_def)
  have r: "token_revoke admin_tokens 9 demo_admin_w1 = (Inr (), ?w)"
    by (simp add: token_revoke_def wrap_err_def pg_stmt_healthy sql_token_revoke_def stamp_def admin_tokens_def
        demo_admin_w1_def demo_admin_w_def)
  have n: "sess_issue_new (token_store admin_tokens) 10 demo_draw 1 ?w = (Inr (drawn demo_draw),
      ?w\<lparr>tables := tt_put admin_tokens (tt_rows admin_tokens (tables ?w) @ [new_token 10 demo_draw (drawn demo_draw) 1 (pg_now ?w)]) (tables ?w)\<rparr>)"
    by (rule issue_new_healthy)
      (use demo_hashes_differ in \<open>auto simp: demo_drawn demo_draw_parts admin_tokens_def demo_admin_w1_def demo_admin_w_def demo_root_def\<close>)
  show ?thesis
    using f r n by (simp add: sess_rotate_def token_store_def demo_drawn)
      (simp add: demo_draw_parts admin_tokens_def demo_admin_w1_def demo_admin_w_def)
qed

lemma demo_admin_refresh:
  "fst (admin_Refresh (admin_wired demo_admin_jwt demo_admin_tm 10 demo_bcrypt id id) demo_issue_draw demo_raw1 demo_admin_w1) =
     Inr (''adm'', demo_raw0)"
proof -
  obtain w1 where w1: "sess_rotate (token_store admin_tokens) 10 demo_draw demo_raw1 demo_admin_w1 = (Inr (1, demo_raw0), w1)"
    "fates w1 = []" "admins (tables w1) = [demo_root]" using demo_admin_rotate by blast
  have "admin_getByID 1 w1 = (Inr (scanAdmin demo_root), w1)"
    using w1 by (simp add: admin_getByID_def admin_getOne_def pg_query_healthy sql_admin_where_def demo_root_def)
  with w1 show ?thesis
    by (simp add: admin_Refresh_def demo_issue_draw_def session_service_def admin_repo_def scanAdmin_def demo_root_def
        demo_admin_signs [unfolded One_nat_def])
qed

theorem admin_tokens_only_enabled_witness:
  "fst (admin_Login (admin_wired demo_admin_jwt demo_admin_tm 10 demo_bcrypt id id) demo_issue_draw ''100'' ''pw'' demo_admin_w) =
     Inr (scanAdmin demo_root, ''adm'', demo_raw0) \<and>
   (\<exists>row. row \<in> set (admins (tables demo_admin_w)) \<and> scanAdmin row = scanAdmin demo_root \<and> ar_status row \<noteq> StatusDisabled \<and>
      bc_compare demo_bcrypt (ar_hash row) ''pw'' \<and>
      Generate demo_admin_jwt demo_admin_tm 0 (ar_id row) (ar_level row) = Inr ''adm'') \<and>
   fst (admin_Refresh (admin_wired demo_admin_jwt demo_admin_tm 10 demo_bcrypt id id) demo_issue_draw demo_raw1 demo_admin_w1) =
     Inr (''adm'', demo_raw0) \<and>
   (\<exists>row. row \<in> set (admins (tables demo_admin_w1)) \<and> ar_status row \<noteq> StatusDisabled \<and>
      fst (sess_rotate (token_store admin_tokens) 10 demo_draw demo_raw1 demo_admin_w1) = Inr (ar_id row, demo_raw0) \<and>
      Generate demo_admin_jwt demo_admin_tm 0 (ar_id row) (ar_level row) = Inr ''adm'')"
  using demo_admin_login demo_admin_refresh
    admin_tokens_only_enabled [THEN conjunct1, THEN spec, THEN spec, THEN spec, THEN mp, OF demo_admin_login]
    admin_tokens_only_enabled [THEN conjunct2, THEN spec, THEN spec, THEN mp, OF demo_admin_refresh]
  by (auto simp: demo_issue_draw_def)

text \<open>A failed login does not tell which part was wrong. On a healthy connection an
  identifier no account has and a password that does not match its account get the same error,
  and both leave the database alone.\<close>

definition admin_ident :: "(string \<Rightarrow> string) \<Rightarrow> (string \<Rightarrow> string) \<Rightarrow> string \<Rightarrow> admin_row \<Rightarrow> bool" where
  "admin_ident uni pgl ident r \<longleftrightarrow>
     (if isEmail ident
      then \<exists>e \<in> set_option (ar_email r). ToLower pgl e = ToLower pgl (normalizeEmail uni ident)
      else ar_phone r = normalizePhone ident)"

lemma admin_lookup_healthy:
  assumes "fates w = []"
  shows "admin_lookup (admin_wired L tm ttl B uni pgl) ident w =
    (case find (admin_ident uni pgl ident) (admins (tables w)) of
       None \<Rightarrow> (Inl admin_ErrNotFound, w) | Some r \<Rightarrow> (Inr (scanAdmin r), w))"
proof -
  have e: "admin_ident uni pgl ident = (\<lambda>r. \<exists>e \<in> set_option (ar_email r).
      ToLower pgl e = ToLower pgl (normalizeEmail uni ident))" if "isEmail ident"
    using that by (simp add: admin_ident_def fun_eq_iff)
  have p: "admin_ident uni pgl ident = (\<lambda>r. ar_phone r = normalizePhone ident)" if "\<not> isEmail ident"
    using that by (simp add: admin_ident_def fun_eq_iff)
  show ?thesis
    using assms
    by (auto simp: admin_lookup_def admin_repo_def admin_getByEmail_def admin_getByPhone_def
        admin_getOne_def pg_query_healthy sql_admin_where_def e p split: option.splits)
qed

theorem admin_login_uniform:
  assumes "fates w = []"
    and "\<forall>r \<in> set (admins (tables w)). admin_ident uni pgl ident r \<longrightarrow> \<not> bc_compare B (ar_hash r) pw"
  shows "admin_Login (admin_wired L tm ttl B uni pgl) dr ident pw w = (Inl admin_ErrInvalidCredentials, w)"
proof (cases "find (admin_ident uni pgl ident) (admins (tables w))")
  case None
  then show ?thesis by (simp add: admin_Login_def admin_lookup_healthy [OF assms(1)])
next
  case (Some r)
  with assms(2) have "\<not> bc_compare B (ar_hash r) pw" by (blast dest: find_SomeD)
  with Some show ?thesis by (simp add: admin_Login_def admin_lookup_healthy [OF assms(1)] scanAdmin_def)
qed

theorem admin_login_uniform_witness:
  "admin_Login demo_admin_sv demo_issue_draw ''100'' ''nope'' demo_admin_w =
   admin_Login demo_admin_sv demo_issue_draw ''200'' ''pw'' demo_admin_w"
proof -
  have n: "normalizePhone ''100'' = ''100''" "normalizePhone ''200'' = ''200''"
    by (simp_all add: normalizePhone_def TrimSpace_plain plain_char_def)
  have "fates demo_admin_w = []" by (simp add: demo_admin_w_def)
  note l = admin_login_uniform [OF this, of id id _ demo_bcrypt]
  have "admin_Login demo_admin_sv demo_issue_draw ''100'' ''nope'' demo_admin_w = (Inl admin_ErrInvalidCredentials, demo_admin_w)"
    by (rule l) (simp add: demo_admin_w_def demo_root_def demo_bcrypt_def)
  moreover have "admin_Login demo_admin_sv demo_issue_draw ''200'' ''pw'' demo_admin_w = (Inl admin_ErrInvalidCredentials, demo_admin_w)"
    by (rule l) (simp add: demo_admin_w_def demo_root_def admin_ident_def isEmail_def n)
  ultimately show ?thesis by simp
qed

subsection \<open>The bootstrap\<close>

lemma find_unique:
  assumes "distinct (map f xs)" and "x \<in> set xs" and "f x = k"
  shows "find (\<lambda>y. f y = k) xs = Some x"
  using assms by (induction xs) (auto intro: rev_image_eqI)

lemma find_none: "(\<And>x. x \<in> set xs \<Longrightarrow> \<not> P x) \<Longrightarrow> find P xs = None"
  by (induction xs) auto

lemma affected_one:
  assumes "distinct (map ar_id (admins d))" and "r \<in> set (admins d)"
  shows "affected (ar_id r) d = 1"
proof -
  have "filter (\<lambda>x. ar_id x = ar_id r) rs = [r]" if "distinct (map ar_id rs)" "r \<in> set rs" for rs
    using that
  proof (induction rs)
    case (Cons x rs)
    show ?case
    proof (cases "x = r")
      case True
      have "filter (\<lambda>x. ar_id x = ar_id r) rs = []"
        using Cons.prems True by (auto simp: filter_empty_conv) (metis image_eqI)
      with True show ?thesis by simp
    next
      case False
      with Cons.prems have "r \<in> set rs" "ar_id x \<noteq> ar_id r" by auto
      with Cons show ?thesis by simp
    qed
  qed simp
  from this [OF assms] show ?thesis by (simp add: affected_def)
qed

text \<open>The account after the bootstrap has found it.\<close>

definition healed :: "time \<Rightarrow> admin_row \<Rightarrow> admin_row" where
  "healed now r =
     (let r1 = (if ar_level r \<noteq> LevelSuperAdmin then r\<lparr>ar_level := LevelSuperAdmin, ar_updated := now\<rparr> else r)
      in if ar_status r1 \<noteq> StatusActive then r1\<lparr>ar_status := StatusActive, ar_updated := now\<rparr> else r1)"

lemma healed_simps [simp]:
  "ar_id (healed n r) = ar_id r" "ar_phone (healed n r) = ar_phone r" "ar_email (healed n r) = ar_email r"
  "ar_hash (healed n r) = ar_hash r" "active_super (healed n r)" "ar_name (healed n r) = ar_name r"
  by (simp_all add: healed_def Let_def active_super_def)

lemma healed_active: "active_super r \<Longrightarrow> healed n r = r"
  by (simp add: healed_def active_super_def)

lemma upd_row_twice:
  "(\<And>r. ar_id (f r) = ar_id r) \<Longrightarrow> upd_row g i (upd_row f i rs) = upd_row (g \<circ> f) i rs"
  by (simp add: upd_row_def)

lemma upd_row_cong:
  assumes "distinct (map ar_id rs)" and "r \<in> set rs" and "f r = g r"
  shows "upd_row f (ar_id r) rs = upd_row g (ar_id r) rs"
  using assms by (auto simp: upd_row_def distinct_map dest: inj_onD)

lemma upd_row_id: "f = id \<Longrightarrow> upd_row f i rs = rs"
  by (simp add: upd_row_def map_idI)

lemma set_level_healthy:
  assumes "fates w = []" and "distinct (map ar_id (admins (tables w)))" and "r \<in> set (admins (tables w))"
  shows "admin_setLevel (ar_id r) LevelSuperAdmin w = (Inr (), w\<lparr>tables := upd_admin
    (\<lambda>r. r\<lparr>ar_level := LevelSuperAdmin, ar_updated := pg_now w\<rparr>) (ar_id r) (tables w)\<rparr>)"
  using assms affected_one [OF assms(2,3)]
  by (simp add: admin_setLevel_def pg_stmt_healthy sql_admin_level_def level_valid_def)

lemma set_status_healthy:
  assumes "fates w = []" and "distinct (map ar_id (admins (tables w)))" and "r \<in> set (admins (tables w))"
  shows "admin_setStatus (ar_id r) StatusActive w = (Inr (), w\<lparr>tables := upd_admin
    (\<lambda>r. r\<lparr>ar_status := StatusActive, ar_updated := pg_now w\<rparr>) (ar_id r) (tables w)\<rparr>)"
  using assms affected_one [OF assms(2,3)]
  by (simp add: admin_setStatus_def pg_stmt_healthy sql_admin_status_def status_valid_def)

lemma seed_heal_healthy:
  assumes "fates w = []" and "distinct (map ar_id (admins (tables w)))" and "r \<in> set (admins (tables w))"
  shows "\<exists>a w1. seed_heal (admin_wired L tm ttl B uni pgl) (scanAdmin r) w = (Inr a, w1) \<and>
    ad_id a = ar_id r \<and> fates w1 = [] \<and>
    admins (tables w1) = upd_row (healed (pg_now w)) (ar_id r) (admins (tables w))"
proof -
  let ?lv = "\<lambda>r. r\<lparr>ar_level := LevelSuperAdmin, ar_updated := pg_now w\<rparr>"
  let ?st = "\<lambda>r. r\<lparr>ar_status := StatusActive, ar_updated := pg_now w\<rparr>"
  let ?w1 = "w\<lparr>tables := upd_admin ?lv (ar_id r) (tables w)\<rparr>"
  have c: "upd_row f (ar_id r) (admins (tables w)) = upd_row (healed (pg_now w)) (ar_id r) (admins (tables w))"
    if "f r = healed (pg_now w) r" for f by (rule upd_row_cong [where f = f, OF assms(2,3)]) (rule that)
  have r1: "?lv r \<in> set (admins (tables ?w1))" "ar_id (?lv r) = ar_id r"
    using assms(3) by (auto simp: upd_admin_rows upd_row_def)
  have d1: "distinct (map ar_id (admins (tables ?w1)))"
    using assms(2) by (simp add: upd_admin_rows upd_row_keys)
  note lv = set_level_healthy [OF assms]
  note st = set_status_healthy [OF assms]
  have st1: "admin_setStatus (ar_id r) StatusActive ?w1 =
      (Inr (), ?w1\<lparr>tables := upd_admin ?st (ar_id r) (tables ?w1)\<rparr>)"
    using set_status_healthy [OF _ d1 r1(1)] assms(1) r1(2) by simp
  show ?thesis
  proof (cases "ar_level r = LevelSuperAdmin")
    case True
    show ?thesis
    proof (cases "ar_status r = StatusActive")
      case active: True
      have "upd_row id (ar_id r) (admins (tables w)) = upd_row (healed (pg_now w)) (ar_id r) (admins (tables w))"
        by (rule c) (simp add: healed_def True active)
      with True active assms(1) show ?thesis
        by (simp add: seed_heal_def scanAdmin_def upd_row_id)
    next
      case False
      have "upd_row ?st (ar_id r) (admins (tables w)) = upd_row (healed (pg_now w)) (ar_id r) (admins (tables w))"
        by (rule c) (simp add: healed_def True False)
      with True False st assms(1) show ?thesis
        by (simp add: seed_heal_def admin_repo_def scanAdmin_def upd_admin_rows)
    qed
  next
    case False
    show ?thesis
    proof (cases "ar_status r = StatusActive")
      case active: True
      have "upd_row ?lv (ar_id r) (admins (tables w)) = upd_row (healed (pg_now w)) (ar_id r) (admins (tables w))"
        by (rule c) (simp add: healed_def False active)
      with False active lv assms(1) show ?thesis
        by (simp add: seed_heal_def admin_repo_def scanAdmin_def upd_admin_rows)
    next
      case inactive: False
      have "upd_row (?st \<circ> ?lv) (ar_id r) (admins (tables w)) = upd_row (healed (pg_now w)) (ar_id r) (admins (tables w))"
        by (rule c) (simp add: healed_def False inactive)
      with False inactive lv st1 assms(1) show ?thesis
        by (simp add: seed_heal_def admin_repo_def scanAdmin_def upd_admin_rows upd_row_twice)
    qed
  qed
qed

lemma seed_present:
  assumes "fates w = []" and "admin_inv pgl (admins (tables w))" and "r \<in> set (admins (tables w))"
    and "ar_phone r = normalizePhone phone"
  shows "SeedSuperAdmin (admin_wired L tm ttl B uni pgl) nid salt phone pw nm w =
    seed_heal (admin_wired L tm ttl B uni pgl) (scanAdmin r) w"
proof -
  have "find (\<lambda>x. ar_phone x = normalizePhone phone) (admins (tables w)) = Some r"
    using assms(2-4) by (intro find_unique) (simp_all add: admin_inv_def)
  with assms(1) show ?thesis
    by (simp add: SeedSuperAdmin_def admin_repo_def admin_getByPhone_def admin_getOne_def
        pg_query_healthy sql_admin_where_def)
qed

lemma seed_absent:
  assumes "fates w = []" and "\<forall>r \<in> set (admins (tables w)). ar_phone r \<noteq> normalizePhone phone"
    and "nid \<notin> set (map ar_id (admins (tables w)))" and "bc_generate B salt pw = Inr h"
  shows "\<exists>a w1 r. SeedSuperAdmin (admin_wired L tm ttl B uni pgl) nid salt phone pw nm w = (Inr a, w1) \<and>
    fates w1 = [] \<and> admins (tables w1) = admins (tables w) @ [r] \<and> active_super r \<and>
    ar_phone r = normalizePhone phone \<and> ar_hash r = h \<and> ad_id a = ar_id r"
proof -
  have "find (\<lambda>x. ar_phone x = normalizePhone phone) (admins (tables w)) = None"
    using assms(2) by (intro find_none) simp
  moreover have "normalizePhone (normalizePhone phone) = normalizePhone phone"
    by (simp add: normalizePhone_def TrimSpace_idem)
  moreover have "normalizeEmail uni [] = []"
    by (simp add: normalizeEmail_def TrimSpace_nil ToLower_def is_ascii_def)
  ultimately show ?thesis using assms
    by (auto simp: SeedSuperAdmin_def admin_repo_def admin_getByPhone_def admin_getOne_def
        pg_query_healthy sql_admin_where_def admin_Create_def level_valid_def admin_create_def
        pg_stmt_healthy sql_admin_insert_def Let_def active_super_def)
qed

text \<open>The bootstrap always yields a usable super admin, and running it again changes nothing.
  On a healthy connection, for a phone that has no account, a plain one or a disabled one: the
  account of that phone is then an active super admin, every other account is as it was, an
  existing account keeps its password, and a second run, with any other password and name,
  succeeds and leaves the table alone.\<close>

theorem seed_super_admin:
  assumes "fates w = []" and "admin_inv pgl (admins (tables w))"
    and "nid \<notin> set (map ar_id (admins (tables w)))" and "bc_generate B salt pw = Inr h"
    and "w1 = snd (SeedSuperAdmin (admin_wired L tm ttl B uni pgl) nid salt phone pw nm w)"
  shows "\<exists>r \<in> set (admins (tables w1)). ar_phone r = normalizePhone phone \<and> active_super r \<and>
    (\<forall>x \<in> set (admins (tables w)). if ar_phone x = normalizePhone phone
       then ar_id x = ar_id r \<and> ar_hash x = ar_hash r else x \<in> set (admins (tables w1))) \<and>
    (\<exists>a w2. SeedSuperAdmin (admin_wired L tm ttl B uni pgl) nid2 salt2 phone pw2 nm2 w1 = (Inr a, w2) \<and>
       ad_id a = ar_id r \<and> admins (tables w2) = admins (tables w1))"
proof -
  let ?sv = "admin_wired L tm ttl B uni pgl"
  have "\<exists>r \<in> set (admins (tables w1)). ar_phone r = normalizePhone phone \<and> active_super r \<and>
    fates w1 = [] \<and>
    (\<forall>x \<in> set (admins (tables w)). if ar_phone x = normalizePhone phone
       then ar_id x = ar_id r \<and> ar_hash x = ar_hash r else x \<in> set (admins (tables w1)))"
  proof (cases "\<exists>r \<in> set (admins (tables w)). ar_phone r = normalizePhone phone")
    case True
    then obtain r where r: "r \<in> set (admins (tables w))" "ar_phone r = normalizePhone phone" by blast
    have d: "distinct (map ar_id (admins (tables w)))" "distinct (map ar_phone (admins (tables w)))"
      using assms(2) by (simp_all add: admin_inv_def)
    from seed_heal_healthy [OF assms(1) d(1) r(1), of L tm ttl B uni pgl]
      seed_present [OF assms(1,2) r] assms(5)
    have w1: "fates w1 = []" "admins (tables w1) = upd_row (healed (pg_now w)) (ar_id r) (admins (tables w))"
      by auto
    have "healed (pg_now w) r \<in> set (admins (tables w1))" using r w1(2) by (auto simp: upd_row_def)
    moreover have "if ar_phone x = normalizePhone phone
       then ar_id x = ar_id (healed (pg_now w) r) \<and> ar_hash x = ar_hash (healed (pg_now w) r)
       else x \<in> set (admins (tables w1))" if x: "x \<in> set (admins (tables w))" for x
    proof (cases "ar_phone x = normalizePhone phone")
      case True
      then have "x = r" using d(2) x r by (auto simp: distinct_map inj_on_def)
      with True show ?thesis by simp
    next
      case False
      with r(2) have "x \<noteq> r" by auto
      then have "ar_id x \<noteq> ar_id r" using d(1) x r(1) by (auto simp: distinct_map inj_on_def)
      with x w1(2) False show ?thesis by (auto simp: upd_row_def intro!: image_eqI [of _ _ x])
    qed
    ultimately show ?thesis using r(2) w1(1) by (intro bexI [of _ "healed (pg_now w) r"]) simp_all
  next
    case False
    with seed_absent [OF assms(1) _ assms(3,4), of phone L tm ttl uni pgl nm] assms(5)
    obtain r where "admins (tables w1) = admins (tables w) @ [r]" "active_super r" "fates w1 = []"
      "ar_phone r = normalizePhone phone" by auto
    with False show ?thesis by (intro bexI [of _ r]) auto
  qed
  then obtain r where r: "r \<in> set (admins (tables w1))" "ar_phone r = normalizePhone phone" "active_super r"
      "fates w1 = []"
    and o: "\<forall>x \<in> set (admins (tables w)). if ar_phone x = normalizePhone phone
       then ar_id x = ar_id r \<and> ar_hash x = ar_hash r else x \<in> set (admins (tables w1))" by blast
  obtain rs where "admin_change pgl (admins (tables w)) rs" "admin_change pgl rs (admins (tables w1))"
    using adm_svc.seed_steps [OF prod.collapse [symmetric]] unfolding assms(5) by blast
  then have i: "admin_inv pgl (admins (tables w1))" using assms(2) admin_change_inv by blast
  then have d: "distinct (map ar_id (admins (tables w1)))" by (simp add: admin_inv_def)
  have "upd_row (healed (pg_now w1)) (ar_id r) (admins (tables w1)) = upd_row id (ar_id r) (admins (tables w1))"
    by (rule upd_row_cong [OF d r(1)]) (simp add: healed_active [OF r(3)])
  with seed_heal_healthy [OF r(4) d r(1), of L tm ttl B uni pgl] seed_present [OF r(4) i r(1,2), of L tm ttl B uni nid2 salt2 pw2 nm2]
  have "\<exists>a w2. SeedSuperAdmin ?sv nid2 salt2 phone pw2 nm2 w1 = (Inr a, w2) \<and>
       ad_id a = ar_id r \<and> admins (tables w2) = admins (tables w1)" by (auto simp: upd_row_id)
  with r o show ?thesis by blast
qed

theorem seed_super_admin_witness:
  "\<exists>r \<in> set (admins (tables (snd (SeedSuperAdmin demo_admin_sv 2 0 ''200'' ''pw'' ''x'' demo_admin_w)))).
     ar_phone r = normalizePhone ''200'' \<and> active_super r"
proof -
  have w: "fates demo_admin_w = []" "2 \<notin> set (map ar_id (admins (tables demo_admin_w)))"
    "bc_generate demo_bcrypt 0 ''pw'' = Inr ''hpw''"
    by (simp_all add: demo_admin_w_def demo_root_def demo_bcrypt_def)
  from seed_super_admin [OF w(1) demo_admin_inv w(2,3) refl, of demo_jwt demo_admin_tm 10 id "''200''" "''x''"]
  show ?thesis by blast
qed

end
