(* ===== verification/AdminRace.thy ===== *)
theory AdminRace
  imports AdminProps
begin

text \<open>
  Concurrent status changes (\<open>Repository.SetStatus\<close> of \<open>internal/admin\<close>). Any number of
  connections run the disabling transaction statement by statement under READ COMMITTED: a
  statement sees what is committed when it runs, a write is seen by others at its commit, the
  advisory lock has one holder and is freed by commit or rollback. Enabling, promoting and
  creating an account are single statements. The statements are those of \<open>AdminRepo\<close>.
\<close>

datatype disable_pc =
    Idle
  | Begun uuid
  | Locked uuid
  | Checked uuid

record race =
  rc_db :: id_db
  rc_lock :: "nat option"
  rc_pc :: "nat \<Rightarrow> disable_pc"

definition release :: "nat \<Rightarrow> race \<Rightarrow> race" where
  "release c s = s\<lparr>rc_lock := (if rc_lock s = Some c then None else rc_lock s),
     rc_pc := (rc_pc s)(c := Idle)\<rparr>"

inductive race_step :: "(string \<Rightarrow> string) \<Rightarrow> race \<Rightarrow> race \<Rightarrow> bool" for pgl where
  tx_begin: "rc_pc s c = Idle \<Longrightarrow> race_step pgl s (s\<lparr>rc_pc := (rc_pc s)(c := Begun i)\<rparr>)"
| tx_lock: "rc_pc s c = Begun i \<Longrightarrow> rc_lock s = None \<Longrightarrow>
    race_step pgl s (s\<lparr>rc_lock := Some c, rc_pc := (rc_pc s)(c := Locked i)\<rparr>)"
| tx_check: "rc_pc s c = Locked i \<Longrightarrow> sql_last_super i (rc_db s) = Inr False \<Longrightarrow>
    race_step pgl s (s\<lparr>rc_pc := (rc_pc s)(c := Checked i)\<rparr>)"
| tx_commit: "rc_pc s c = Checked i \<Longrightarrow> sql_admin_status i StatusDisabled n (rc_db s) = Inr (k, d) \<Longrightarrow>
    race_step pgl s (release c (s\<lparr>rc_db := d\<rparr>))"
| tx_rollback: "rc_pc s c \<noteq> Idle \<Longrightarrow> race_step pgl s (release c s)"
| enable: "sql_admin_status i StatusActive n (rc_db s) = Inr (k, d) \<Longrightarrow> race_step pgl s (s\<lparr>rc_db := d\<rparr>)"
| promote: "sql_admin_level i LevelSuperAdmin n (rc_db s) = Inr (k, d) \<Longrightarrow> race_step pgl s (s\<lparr>rc_db := d\<rparr>)"
| create: "sql_admin_insert pgl a n (rc_db s) = Inr (r, d) \<Longrightarrow> race_step pgl s (s\<lparr>rc_db := d\<rparr>)"

inductive_cases race_stepE: "race_step pgl s s'"

text \<open>The lock is held by whoever is past it, and whoever has checked still has another active
  super admin to rely on.\<close>

definition other_super :: "uuid \<Rightarrow> id_db \<Rightarrow> bool" where
  "other_super i d \<longleftrightarrow> (\<exists>r \<in> set (admins d). ar_id r \<noteq> i \<and> active_super r)"

definition race_inv :: "race \<Rightarrow> bool" where
  "race_inv s \<longleftrightarrow>
     distinct (map ar_id (admins (rc_db s))) \<and>
     (\<exists>r \<in> set (admins (rc_db s)). active_super r) \<and>
     (\<forall>c i. rc_pc s c = Locked i \<or> rc_pc s c = Checked i \<longrightarrow> rc_lock s = Some c) \<and>
     (\<forall>c i. rc_pc s c = Checked i \<longrightarrow> other_super i (rc_db s))"

text \<open>A statement that only adds active super admins keeps them.\<close>

definition keeps_super :: "id_db \<Rightarrow> id_db \<Rightarrow> bool" where
  "keeps_super d d' \<longleftrightarrow>
     (distinct (map ar_id (admins d)) \<longrightarrow> distinct (map ar_id (admins d'))) \<and>
     (\<forall>r \<in> set (admins d). active_super r \<longrightarrow> (\<exists>r' \<in> set (admins d'). ar_id r' = ar_id r \<and> active_super r'))"

lemma keeps_upd:
  assumes "\<And>r. ar_id (f r) = ar_id r" and "\<And>r. active_super r \<Longrightarrow> active_super (f r)"
  shows "keeps_super d (upd_admin f i d)"
  unfolding keeps_super_def
proof (intro conjI ballI impI)
  show "distinct (map ar_id (admins (upd_admin f i d)))" if "distinct (map ar_id (admins d))"
    using that assms(1) by (simp add: upd_admin_rows upd_row_def o_def if_distrib cong: if_cong)
  fix r assume r: "r \<in> set (admins d)" "active_super r"
  let ?g = "\<lambda>r. if ar_id r = i then f r else r"
  have "?g r \<in> set (admins (upd_admin f i d))" using r(1) by (auto simp: upd_admin_def)
  moreover have "ar_id (?g r) = ar_id r" "active_super (?g r)" using assms r(2) by simp_all
  ultimately show "\<exists>r' \<in> set (admins (upd_admin f i d)). ar_id r' = ar_id r \<and> active_super r'" by blast
qed

lemma keeps_enable: "sql_admin_status i StatusActive n d = Inr (k, d') \<Longrightarrow> keeps_super d d'"
  by (auto simp: sql_admin_status_def active_super_def intro!: keeps_upd split: if_splits)

lemma keeps_promote: "sql_admin_level i LevelSuperAdmin n d = Inr (k, d') \<Longrightarrow> keeps_super d d'"
  by (auto simp: sql_admin_level_def active_super_def intro!: keeps_upd split: if_splits)

lemma keeps_create: "sql_admin_insert pgl a n d = Inr (r, d') \<Longrightarrow> keeps_super d d'"
  by (auto simp: sql_admin_insert_def keeps_super_def Let_def split: if_splits)

lemma race_inv_keeps:
  assumes "race_inv s" and "keeps_super (rc_db s) d"
  shows "race_inv (s\<lparr>rc_db := d\<rparr>)"
proof -
  have o: "other_super i d" if "other_super i (rc_db s)" for i
    using that assms(2) unfolding keeps_super_def other_super_def by metis
  have a: "\<exists>r \<in> set (admins d). active_super r"
    using assms unfolding keeps_super_def race_inv_def by blast
  have "distinct (map ar_id (admins d))"
    using assms unfolding keeps_super_def race_inv_def by blast
  with o a assms(1) show ?thesis by (auto simp: race_inv_def)
qed

lemma race_inv_release: "race_inv s \<Longrightarrow> race_inv (release c s)"
  by (auto simp: race_inv_def release_def)

lemma checked_other:
  assumes "sql_last_super i d = Inr False" and "\<exists>r \<in> set (admins d). active_super r"
    and "distinct (map ar_id (admins d))"
  shows "other_super i d"
proof -
  obtain x where x: "x \<in> set (admins d)" "ar_id x = i" "\<not> active_super x \<or> other_super i d"
    using assms(1) by (auto simp: sql_last_super_def other_super_def dest!: find_SomeD split: option.splits)
  obtain r where r: "r \<in> set (admins d)" "active_super r" using assms(2) by blast
  show ?thesis
  proof (cases "ar_id r = i")
    case True
    then have "r = x" using assms(3) x r by (auto simp: distinct_map inj_on_def)
    with x r show ?thesis by simp
  qed (use r in \<open>auto simp: other_super_def\<close>)
qed

lemma disable_other:
  assumes "sql_admin_status i StatusDisabled n d = Inr (k, d')" and "other_super i d"
  shows "other_super i d'"
  using assms by (fastforce simp: sql_admin_status_def other_super_def upd_admin_def split: if_splits)

lemma disable_ids:
  "sql_admin_status i x n d = Inr (k, d') \<Longrightarrow> map ar_id (admins d') = map ar_id (admins d)"
  by (auto simp: sql_admin_status_def upd_admin_def split: if_splits)

lemma one_holder:
  assumes "race_inv s" and "rc_pc s c = Locked i \<or> rc_pc s c = Checked i"
    and "rc_pc s c' = Locked j \<or> rc_pc s c' = Checked j"
  shows "c' = c"
proof -
  have "rc_lock s = Some c" "rc_lock s = Some c'" using assms unfolding race_inv_def by blast+
  then show ?thesis by simp
qed

lemma race_invI:
  assumes "distinct (map ar_id (admins (rc_db s)))" and "\<exists>r \<in> set (admins (rc_db s)). active_super r"
    and "\<And>c i. rc_pc s c = Locked i \<or> rc_pc s c = Checked i \<Longrightarrow> rc_lock s = Some c"
    and "\<And>c i. rc_pc s c = Checked i \<Longrightarrow> other_super i (rc_db s)"
  shows "race_inv s"
  using assms unfolding race_inv_def by blast

lemma race_invD:
  assumes "race_inv s"
  shows "distinct (map ar_id (admins (rc_db s)))" and "\<exists>r \<in> set (admins (rc_db s)). active_super r"
    and "rc_pc s c = Locked i \<or> rc_pc s c = Checked i \<Longrightarrow> rc_lock s = Some c"
    and "rc_pc s c = Checked i \<Longrightarrow> other_super i (rc_db s)"
  using assms unfolding race_inv_def by blast+

lemma race_step_inv:
  assumes "race_step pgl s s'" and "race_inv s"
  shows "race_inv s'"
  using assms(1)
proof (cases rule: race_step.cases)
  case (tx_begin c i)
  show ?thesis
  proof (rule race_invI)
    fix c' j assume p: "rc_pc s' c' = Locked j \<or> rc_pc s' c' = Checked j"
    then have "rc_pc s c' = Locked j \<or> rc_pc s c' = Checked j" using tx_begin by (cases "c' = c") simp_all
    then show "rc_lock s' = Some c'" using race_invD(3) [OF assms(2)] tx_begin(1) by simp
  next
    fix c' j assume p: "rc_pc s' c' = Checked j"
    then have "rc_pc s c' = Checked j" using tx_begin by (cases "c' = c") simp_all
    then show "other_super j (rc_db s')" using race_invD(4) [OF assms(2)] tx_begin(1) by simp
  qed (use tx_begin(1) race_invD(1,2) [OF assms(2)] in simp_all)
next
  case (tx_lock c i)
  show ?thesis
  proof (rule race_invI)
    have none: "\<not> (rc_pc s c' = Locked j \<or> rc_pc s c' = Checked j)" for c' j
      using race_invD(3) [OF assms(2), of c' j] tx_lock(3) by auto
    fix c' j
    show "rc_lock s' = Some c'" if "rc_pc s' c' = Locked j \<or> rc_pc s' c' = Checked j"
      using that none [of c' j] tx_lock(1) by (cases "c' = c") simp_all
    show "other_super j (rc_db s')" if "rc_pc s' c' = Checked j"
      using that none [of c' j] tx_lock(1) by (cases "c' = c") simp_all
  qed (use tx_lock(1) race_invD(1,2) [OF assms(2)] in simp_all)
next
  case (tx_check c i)
  have o: "other_super i (rc_db s)"
    using checked_other [OF tx_check(3)] race_invD(1,2) [OF assms(2)] by blast
  show ?thesis
  proof (rule race_invI)
    have same: "c' = c" if "rc_pc s' c' = Locked j \<or> rc_pc s' c' = Checked j" for c' j
    proof (cases "c' = c")
      case False
      then have "rc_pc s c' = Locked j \<or> rc_pc s c' = Checked j" using that tx_check(1) by simp
      then show ?thesis using one_holder [OF assms(2), of c i c' j] tx_check(2) by blast
    qed
    fix c' j
    show "rc_lock s' = Some c'" if "rc_pc s' c' = Locked j \<or> rc_pc s' c' = Checked j"
      using same [OF that] race_invD(3) [OF assms(2), of c i] tx_check(1,2) by simp
    show "other_super j (rc_db s')" if p: "rc_pc s' c' = Checked j"
    proof -
      have "c' = c" using same [of c' j] p by blast
      with p have "j = i" using tx_check(1) by simp
      with o show ?thesis using tx_check(1) by simp
    qed
  qed (use tx_check(1) race_invD(1,2) [OF assms(2)] in simp_all)
next
  case (tx_commit c i n k d)
  have o: "other_super i d"
    using disable_other [OF tx_commit(3)] race_invD(4) [OF assms(2) tx_commit(2)] by blast
  show ?thesis
  proof (rule race_invI)
    show "distinct (map ar_id (admins (rc_db s')))"
      using disable_ids [OF tx_commit(3)] race_invD(1) [OF assms(2)] tx_commit(1) by (simp add: release_def)
    show "\<exists>r \<in> set (admins (rc_db s')). active_super r"
      using o tx_commit(1) by (auto simp: other_super_def release_def)
    have none: "\<not> (rc_pc s' c' = Locked j \<or> rc_pc s' c' = Checked j)" for c' j
      using one_holder [OF assms(2), of c i c' j] tx_commit(1,2) by (cases "c' = c") (auto simp: release_def)
    then show "rc_lock s' = Some c'" if "rc_pc s' c' = Locked j \<or> rc_pc s' c' = Checked j" for c' j
      using that by blast
    show "other_super j (rc_db s')" if "rc_pc s' c' = Checked j" for c' j using that none by blast
  qed
next
  case (enable i n k d)
  then show ?thesis using race_inv_keeps [OF assms(2) keeps_enable] by simp
next
  case (promote i n k d)
  then show ?thesis using race_inv_keeps [OF assms(2) keeps_promote] by simp
next
  case (create a n r d)
  then show ?thesis using race_inv_keeps [OF assms(2) keeps_create] by simp
next
  case (tx_rollback c)
  then show ?thesis using race_inv_release assms(2) by simp
qed

text \<open>C28: concurrent disables cannot remove the last super admin either. Whatever the
  interleaving of any number of disabling transactions with enables, promotions and creations,
  from a state with an active super admin and no transaction open, there always is one.\<close>

theorem concurrent_disables_safe:
  assumes "\<exists>r \<in> set (admins (rc_db s)). active_super r" and "rc_lock s = None"
    and "\<forall>c. rc_pc s c = Idle" and "distinct (map ar_id (admins (rc_db s)))" and "(race_step pgl)\<^sup>*\<^sup>* s s'"
  shows "\<exists>r \<in> set (admins (rc_db s')). active_super r"
proof -
  have "race_inv s" using assms(1-4) by (auto simp: race_inv_def)
  with assms(5) have "race_inv s'" by (induction rule: rtranclp_induct) (auto intro: race_step_inv)
  then show ?thesis by (simp add: race_inv_def)
qed

definition demo_race :: race where
  "demo_race = \<lparr>rc_db = tables demo_admin_w, rc_lock = None, rc_pc = (\<lambda>_. Idle)\<rparr>"

theorem concurrent_disables_safe_witness:
  "\<exists>s'. race_step id demo_race s' \<and> (\<exists>r \<in> set (admins (rc_db s')). active_super r)"
proof -
  have s: "race_step id demo_race (demo_race\<lparr>rc_pc := (rc_pc demo_race)(0 := Begun 1)\<rparr>)"
    by (rule race_step.tx_begin) (simp add: demo_race_def)
  then have "(race_step id)\<^sup>*\<^sup>* demo_race (demo_race\<lparr>rc_pc := (rc_pc demo_race)(0 := Begun 1)\<rparr>)" ..
  from concurrent_disables_safe [OF _ _ _ _ this] s show ?thesis
    by (intro exI conjI) (auto simp: demo_race_def demo_admin_w_def demo_root_def active_super_def)
qed

end
