(* ===== verification/JsUtf8.thy ===== *)
theory JsUtf8
  imports GoCrypto
begin

text \<open>
  The UTF-8 codec of the \<open>buffer\<close> module in \<open>swagger-ui-bundle.js\<close> (\<open>utf8ToBytes\<close>,
  \<open>utf8Slice\<close>, \<open>decodeCodePointsArray\<close>). A string is the sequence of its UTF-16 units and a
  \<open>Uint8Array\<close> the sequence of its bytes. Numbers are naturals, and budgets, which go below
  zero, integers: every operand of a bitwise operator here is below \<open>2 ^ 31\<close>, where
  \<open>ToInt32\<close> changes nothing.
\<close>

unbundle bit_operations_syntax

type_synonym js_string = "16 word list"

datatype js_error = InvalidLength | RangeError | InvalidCodePoint

definition js :: "string \<Rightarrow> js_string" where
  "js s = map (\<lambda>c. of_nat (of_char c)) s"

subsection \<open>Encoding\<close>

text \<open>The budget \<open>s\<close> counts down with every push, wanted or not; \<open>None\<close> is \<open>Infinity\<close>.\<close>

type_synonym units = "int option"

definition spend :: "int \<Rightarrow> units \<Rightarrow> units" where
  "spend n s = map_option (\<lambda>u. u - n) s"

definition in_budget :: "units \<Rightarrow> bool" where
  "in_budget s = (case s of None \<Rightarrow> True | Some u \<Rightarrow> - 1 < u)"

definition push_replacement :: "units \<Rightarrow> byte list \<Rightarrow> units \<times> byte list" where
  "push_replacement s w =
     (let s' = spend 3 s in (s', if in_budget s' then w @ [239, 191, 189] else w))"

text \<open>What one code unit does to the pending lead surrogate: the iteration ends with a new lead
  (\<open>continue\<close>), or it goes on with a code point.\<close>

definition surrogate ::
  "nat \<Rightarrow> bool \<Rightarrow> units \<Rightarrow> nat option \<Rightarrow> byte list \<Rightarrow> (units \<times> byte list) \<times> (nat option + nat)" where
  "surrogate i final s lead w =
     (if 55295 < i \<and> i < 57344 then
        (case lead of
           None \<Rightarrow>
             (if 56319 < i then (push_replacement s w, Inl None)
              else if final then (push_replacement s w, Inl None)
              else ((s, w), Inl (Some i)))
         | Some l \<Rightarrow>
             (if i < 56320 then (push_replacement s w, Inl (Some i))
              else ((s, w), Inr (65536 + (push_bit 10 (l - 55296) OR (i - 56320))))))
      else (case lead of
              None \<Rightarrow> ((s, w), Inr i)
            | Some _ \<Rightarrow> (push_replacement s w, Inr i)))"

text \<open>The bytes of a code point; \<open>None\<close> is the \<open>break\<close> of an exhausted budget.\<close>

definition push_code :: "nat \<Rightarrow> units \<Rightarrow> byte list \<Rightarrow> js_error + (units \<times> byte list) option" where
  "push_code i s w =
     (let push = (\<lambda>n bs. let s' = spend n s in
                    Inr (if in_budget s' then Some (s', w @ map of_nat bs) else None)) in
      if i < 128 then push 1 [i]
      else if i < 2048 then push 2 [drop_bit 6 i OR 192, (63 AND i) OR 128]
      else if i < 65536 then push 3 [drop_bit 12 i OR 224, (drop_bit 6 i AND 63) OR 128, (63 AND i) OR 128]
      else if \<not> i < 1114112 then Inl InvalidCodePoint
      else push 4 [drop_bit 18 i OR 240, (drop_bit 12 i AND 63) OR 128, (drop_bit 6 i AND 63) OR 128,
                   (63 AND i) OR 128])"

fun utf8_loop :: "js_string \<Rightarrow> units \<Rightarrow> nat option \<Rightarrow> byte list \<Rightarrow> js_error + byte list" where
  "utf8_loop [] s lead w = Inr w"
| "utf8_loop (c # cs) s lead w =
     (case surrogate (unat c) (cs = []) s lead w of
        ((s1, w1), Inl lead1) \<Rightarrow> utf8_loop cs s1 lead1 w1
      | ((s1, w1), Inr i) \<Rightarrow>
          (case push_code i s1 w1 of
             Inl e \<Rightarrow> Inl e
           | Inr None \<Rightarrow> Inr w1
           | Inr (Some (s2, w2)) \<Rightarrow> utf8_loop cs s2 None w2))"

definition utf8ToBytes :: "js_string \<Rightarrow> units \<Rightarrow> js_error + byte list" where
  "utf8ToBytes str s = utf8_loop str (if s = Some 0 then None else s) None []"

subsection \<open>Decoding\<close>

definition bytesPerSequence :: "nat \<Rightarrow> nat" where
  "bytesPerSequence s = (if 239 < s then 4 else if 223 < s then 3 else if 191 < s then 2 else 1)"

definition tail_byte :: "nat \<Rightarrow> bool" where
  "tail_byte b \<longleftrightarrow> 192 AND b = 128"

definition sequence_value :: "nat \<Rightarrow> nat \<Rightarrow> nat list \<Rightarrow> nat option" where
  "sequence_value x s r =
     (if x = 1 then (if s < 128 then Some s else None)
      else if x = 2 then
        (let j = push_bit 6 (31 AND s) OR (63 AND r ! 0) in
         if tail_byte (r ! 0) \<and> 127 < j then Some j else None)
      else if x = 3 then
        (let j = push_bit 12 (15 AND s) OR push_bit 6 (63 AND r ! 0) OR (63 AND r ! 1) in
         if tail_byte (r ! 0) \<and> tail_byte (r ! 1) \<and> 2047 < j \<and> (j < 55296 \<or> 57343 < j) then Some j else None)
      else
        (let j = push_bit 18 (15 AND s) OR push_bit 12 (63 AND r ! 0) OR push_bit 6 (63 AND r ! 1) OR (63 AND r ! 2) in
         if tail_byte (r ! 0) \<and> tail_byte (r ! 1) \<and> tail_byte (r ! 2) \<and> 65535 < j \<and> j < 1114112
         then Some j else None))"

definition push_units :: "nat \<Rightarrow> nat list" where
  "push_units w =
     (if 65535 < w
      then [(drop_bit 10 (w - 65536) AND 1023) OR 55296, 56320 OR (1023 AND (w - 65536))]
      else [w])"

text \<open>The argument is the window of the array from the cursor to the end; reads past it are
  excluded by the length test in front of them.\<close>

fun utf8_units :: "nat list \<Rightarrow> nat list" where
  "utf8_units [] = []"
| "utf8_units (s # r) =
     (let x = bytesPerSequence s in
      case (if x \<le> Suc (length r) then sequence_value x s r else None) of
        None \<Rightarrow> push_units 65533 @ utf8_units r
      | Some w \<Rightarrow> push_units w @ utf8_units (drop (x - 1) r))"

definition fromCharCode :: "nat list \<Rightarrow> js_string" where
  "fromCharCode us = map of_nat us"

function decode_chunks_from :: "nat list \<Rightarrow> nat \<Rightarrow> js_string \<Rightarrow> js_string" where
  "decode_chunks_from us u i =
     (if u < length us
      then decode_chunks_from us (u + 4096) (i @ fromCharCode (take 4096 (drop u us)))
      else i)"
  by pat_completeness auto
termination by (relation "measure (\<lambda>(us, u, _). length us - u)") auto

declare decode_chunks_from.simps [simp del]

definition decodeCodePointsArray :: "nat list \<Rightarrow> js_string" where
  "decodeCodePointsArray us =
     (if length us \<le> 4096 then fromCharCode us else decode_chunks_from us 0 [])"

definition utf8Slice :: "byte list \<Rightarrow> nat \<Rightarrow> nat \<Rightarrow> js_string" where
  "utf8Slice buf s i =
     decodeCodePointsArray (utf8_units (map unat (drop s (take (min (length buf) i) buf))))"


subsection \<open>What UTF-8 is\<close>

text \<open>The scalar values of a string, if every surrogate is paired; their encodings.\<close>

fun scalars :: "js_string \<Rightarrow> nat list option" where
  "scalars [] = Some []"
| "scalars (c # cs) =
     (if 55296 \<le> unat c \<and> unat c \<le> 57343 then
        (case cs of
           [] \<Rightarrow> None
         | d # ds \<Rightarrow>
             (if unat c \<le> 56319 \<and> 56320 \<le> unat d \<and> unat d \<le> 57343
              then map_option (Cons (65536 + (unat c - 55296) * 1024 + (unat d - 56320))) (scalars ds)
              else None))
      else map_option (Cons (unat c)) (scalars cs))"

definition utf8_bytes :: "nat \<Rightarrow> nat list" where
  "utf8_bytes p =
     (if p < 128 then [p]
      else if p < 2048 then [192 + p div 64, 128 + p mod 64]
      else if p < 65536 then [224 + p div 4096, 128 + p div 64 mod 64, 128 + p mod 64]
      else [240 + p div 262144, 128 + p div 4096 mod 64, 128 + p div 64 mod 64, 128 + p mod 64])"

definition utf16_units :: "nat \<Rightarrow> nat list" where
  "utf16_units p =
     (if p < 65536 then [p] else [55296 + (p - 65536) div 1024, 56320 + (p - 65536) mod 1024])"

definition scalar :: "nat \<Rightarrow> bool" where
  "scalar p \<longleftrightarrow> p < 55296 \<or> 57343 < p \<and> p < 1114112"

subsection \<open>Bit operations on naturals\<close>

lemma and_low: "x AND (2 ^ k - 1) = x mod (2 :: nat) ^ k"
  by (simp add: take_bit_eq_mod [symmetric] take_bit_eq_mask mask_eq_exp_minus_1)

lemma and_lows:
  fixes x :: nat
  shows "x AND 15 = x mod 16" "x AND 31 = x mod 32" "x AND 63 = x mod 64" "x AND 255 = x mod 256"
    "x AND 1023 = x mod 1024"
    "15 AND x = x mod 16" "31 AND x = x mod 32" "63 AND x = x mod 64" "255 AND x = x mod 256"
    "1023 AND x = x mod 1024"
  using and_low [of x 4] and_low [of x 5] and_low [of x 6] and_low [of x 8] and_low [of x 10]
  by (simp_all add: and.commute)

lemma or_high:
  fixes x m :: nat
  assumes "x < 2 ^ k"
  shows "m * 2 ^ k OR x = m * 2 ^ k + x"
proof -
  have "push_bit k m AND x = 0"
  proof (rule bit_eqI)
    fix n
    have "\<not> bit x n" if "k \<le> n" using assms that
      by (metis bit_take_bit_iff leD take_bit_nat_eq_self)
    then show "bit (push_bit k m AND x) n = bit 0 n" by (auto simp: bit_simps)
  qed
  then have "push_bit k m OR x = push_bit k m + x"
    by (rule disjunctive_add_eq_or [symmetric])
  then show ?thesis by (simp add: push_bit_eq_mult)
qed

lemma or_tags:
  fixes x :: nat
  shows "x < 64 \<Longrightarrow> x OR 128 = 128 + x" "x < 32 \<Longrightarrow> x OR 192 = 192 + x" "x < 16 \<Longrightarrow> x OR 224 = 224 + x"
    "x < 8 \<Longrightarrow> x OR 240 = 240 + x" "x < 1024 \<Longrightarrow> x OR 55296 = 55296 + x" "x < 1024 \<Longrightarrow> 56320 OR x = 56320 + x"
  using or_high [of x 6 2] or_high [of x 5 6] or_high [of x 4 14] or_high [of x 3 30] or_high [of x 10 54]
    or_high [of x 10 55]
  by (simp_all add: or.commute)

lemma or_push:
  fixes x m :: nat
  assumes "x < 2 ^ k"
  shows "push_bit k m OR x = m * 2 ^ k + x"
  using or_high [OF assms] by (simp add: push_bit_eq_mult)

lemma tail_byte_iff:
  assumes "b < 256"
  shows "tail_byte b \<longleftrightarrow> 128 \<le> b \<and> b < 192"
proof -
  have "push_bit 6 m AND b = push_bit 6 (m AND drop_bit 6 b)" for m
    by (rule bit_eqI) (auto simp: bit_simps)
  from this [of 3] have "192 AND b = 64 * (b div 64 mod 4)"
    using and_low [of "b div 64" 2] by (simp add: push_bit_eq_mult drop_bit_eq_div and.commute)
  moreover have "b div 64 < 4" using assms by simp
  ultimately show ?thesis unfolding tail_byte_def by simp linarith
qed

subsection \<open>The encoder\<close>

definition covers :: "units \<Rightarrow> nat \<Rightarrow> bool" where
  "covers s n \<longleftrightarrow> (case s of None \<Rightarrow> True | Some u \<Rightarrow> int n \<le> u)"

lemma covers_spend: "covers s (m + n) \<Longrightarrow> in_budget (spend (int m) s) \<and> covers (spend (int m) s) n"
  by (auto simp: covers_def in_budget_def spend_def split: option.splits)

lemma spend_spend: "spend m (spend n s) = spend (n + m) s"
  by (cases s) (simp_all add: spend_def)

lemma utf8_bytes_push:
  assumes "p < 1114112"
  shows "push_code p s w =
    (let s' = spend (int (length (utf8_bytes p))) s in
     Inr (if in_budget s' then Some (s', w @ map of_nat (utf8_bytes p)) else None))"
proof -
  have b: "drop_bit k p = p div 2 ^ k" for k by (simp add: drop_bit_eq_div)
  consider "p < 128" | "128 \<le> p" "p < 2048" | "2048 \<le> p" "p < 65536" | "65536 \<le> p" by linarith
  then show ?thesis
  proof cases
    case 1
    then show ?thesis by (simp add: push_code_def utf8_bytes_def Let_def)
  next
    case 2
    then have "p div 64 < 32" by simp
    with 2 show ?thesis by (simp add: push_code_def utf8_bytes_def Let_def b and_lows or_tags)
  next
    case 3
    then have "p div 4096 < 16" by simp
    with 3 show ?thesis by (simp add: push_code_def utf8_bytes_def Let_def b and_lows or_tags)
  next
    case 4
    then have "p div 262144 < 8" using assms by simp
    with 4 assms show ?thesis by (simp add: push_code_def utf8_bytes_def Let_def b and_lows or_tags)
  qed
qed

lemma push_code_covers:
  assumes "p < 1114112" and "covers s (length (utf8_bytes p) + n)"
  shows "\<exists>s'. push_code p s w = Inr (Some (s', w @ map of_nat (utf8_bytes p))) \<and> covers s' n"
  using assms covers_spend [OF assms(2)] by (simp add: utf8_bytes_push Let_def)

lemma scalars_scalar: "scalars s = Some ps \<Longrightarrow> p \<in> set ps \<Longrightarrow> scalar p"
proof (induction s arbitrary: ps rule: scalars.induct)
  case (2 c cs)
  have "unat c < 65536" using unsigned_less [of c] by simp
  with 2 show ?case by (fastforce simp: scalar_def split: if_splits list.splits)
qed simp

lemma utf8_loop_scalars:
  "scalars str = Some ps \<Longrightarrow> covers s (length (concat (map utf8_bytes ps))) \<Longrightarrow>
   utf8_loop str s None w = Inr (w @ map of_nat (concat (map utf8_bytes ps)))"
proof (induction str arbitrary: ps w s rule: scalars.induct)
  case (2 c cs)
  have c: "unat c < 65536" using unsigned_less [of c] by simp
  show ?case
  proof (cases "55296 \<le> unat c \<and> unat c \<le> 57343")
    case False
    then obtain qs where qs: "scalars cs = Some qs" "ps = unat c # qs" using 2(3) by (auto split: if_splits)
    then obtain s' where s': "push_code (unat c) s w = Inr (Some (s', w @ map of_nat (utf8_bytes (unat c))))"
      "covers s' (length (concat (map utf8_bytes qs)))"
      using push_code_covers [of "unat c" s "length (concat (map utf8_bytes qs))" w] c 2(4) by auto
    have "surrogate (unat c) (cs = []) s None w = ((s, w), Inr (unat c))"
      using False by (auto simp: surrogate_def)
    with s' 2(2) [OF False qs(1) s'(2)] qs(2) show ?thesis by simp
  next
    case True
    then obtain d ds qs where d: "cs = d # ds" "unat c \<le> 56319" "56320 \<le> unat d" "unat d \<le> 57343"
      "scalars ds = Some qs" "ps = (65536 + (unat c - 55296) * 1024 + (unat d - 56320)) # qs"
      using 2(3) by (auto split: if_splits list.splits)
    let ?p = "65536 + (unat c - 55296) * 1024 + (unat d - 56320)"
    have s1: "surrogate (unat c) (cs = []) s None w = ((s, w), Inl (Some (unat c)))"
      using True d(1,2) by (simp add: surrogate_def)
    have "unat d - 56320 < 2 ^ 10" using d(4) by simp
    then have s2: "surrogate (unat d) (ds = []) s (Some (unat c)) w = ((s, w), Inr ?p)"
      using d(3,4) or_push [of "unat d - 56320" 10 "unat c - 55296"] by (simp add: surrogate_def)
    have "?p < 1114112" using d by linarith
    then obtain s' where s': "push_code ?p s w = Inr (Some (s', w @ map of_nat (utf8_bytes ?p)))"
      "covers s' (length (concat (map utf8_bytes qs)))"
      using push_code_covers [of ?p s "length (concat (map utf8_bytes qs))" w] d(6) 2(4) by auto
    from s1 s2 s' 2(1) [OF True d(1) _ d(5) s'(2)] d show ?thesis by simp
  qed
qed simp

lemma utf8ToBytes_scalars:
  assumes "scalars str = Some ps" and "covers s (length (concat (map utf8_bytes ps)))"
  shows "utf8ToBytes str s = Inr (map of_nat (concat (map utf8_bytes ps)))"
proof -
  have "covers (if s = Some 0 then None else s) (length (concat (map utf8_bytes ps)))"
    using assms(2) by (simp add: covers_def)
  then show ?thesis by (simp add: utf8ToBytes_def utf8_loop_scalars [OF assms(1)])
qed

subsection \<open>The decoder\<close>

lemma utf8_units_sequence:
  assumes "sequence_value (bytesPerSequence s) s (t @ r) = Some p" and "bytesPerSequence s = Suc (length t)"
  shows "utf8_units (s # t @ r) = push_units p @ utf8_units r"
  using assms by (simp add: Let_def)

lemma digits_64:
  fixes p :: nat
  shows "p div 64 * 64 + p mod 64 = p"
    and "p div 4096 * 4096 + (p div 64 mod 64 * 64 + p mod 64) = p"
    and "p div 262144 * 262144 + (p div 4096 mod 64 * 4096 + (p div 64 mod 64 * 64 + p mod 64)) = p"
proof -
  have d: "p div 4096 = p div 64 div 64" "p div 262144 = p div 64 div 64 div 64"
    by (simp_all add: div_mult2_eq [symmetric])
  show "p div 64 * 64 + p mod 64 = p" by simp
  show "p div 4096 * 4096 + (p div 64 mod 64 * 64 + p mod 64) = p"
    unfolding d using div_mult_mod_eq [of p 64] div_mult_mod_eq [of "p div 64" 64] by linarith
  show "p div 262144 * 262144 + (p div 4096 mod 64 * 4096 + (p div 64 mod 64 * 64 + p mod 64)) = p"
    unfolding d using div_mult_mod_eq [of p 64] div_mult_mod_eq [of "p div 64" 64]
      div_mult_mod_eq [of "p div 64 div 64" 64] by linarith
qed

lemma sequence_value_utf8:
  assumes "scalar p"
  shows "\<exists>s t. utf8_bytes p = s # t \<and> bytesPerSequence s = Suc (length t) \<and>
    (\<forall>r. sequence_value (bytesPerSequence s) s (t @ r) = Some p)"
proof -
  have tag: "tail_byte (128 + x)" "(128 + x) mod 64 = x" if "x < 64" for x
    using that tail_byte_iff [of "128 + x"] mod_add_left_eq [of 128 64 x] by simp_all
  have lt: "x mod 64 < 64" for x :: nat by simp
  note tags = tag [OF lt]
  have or2: "push_bit 6 x OR y = x * 64 + y" if "y < 64" for x y :: nat using or_push [of y 6 x] that by simp
  have or3: "push_bit 12 x OR y = x * 4096 + y" if "y < 4096" for x y :: nat using or_push [of y 12 x] that by simp
  have or4: "push_bit 18 x OR y = x * 262144 + y" if "y < 262144" for x y :: nat using or_push [of y 18 x] that by simp
  have b2: "x mod 64 * 64 + y mod 64 < 4096" for x y :: nat
    using lt [of x] lt [of y] by linarith
  have b3: "x mod 64 * 4096 + (y mod 64 * 64 + z mod 64) < 262144" for x y z :: nat
    using lt [of x] lt [of y] lt [of z] by linarith
  consider "p < 128" | "128 \<le> p" "p < 2048" | "2048 \<le> p" "p < 65536" | "65536 \<le> p" by linarith
  then show ?thesis
  proof cases
    case 1
    then show ?thesis by (simp add: utf8_bytes_def bytesPerSequence_def sequence_value_def)
  next
    case 2
    then have x: "p div 64 < 32" by simp
    then have "(192 + p div 64) mod 32 = p div 64" by (simp add: mod_add_left_eq [symmetric, of 192])
    with 2 x show ?thesis
      by (simp add: utf8_bytes_def bytesPerSequence_def sequence_value_def and_lows tags or2 digits_64 Let_def)
  next
    case 3
    then have x: "p div 4096 < 16" by simp
    then have "(224 + p div 4096) mod 16 = p div 4096" by (simp add: mod_add_left_eq [symmetric, of 224])
    with 3 x assms show ?thesis
      by (simp add: utf8_bytes_def bytesPerSequence_def sequence_value_def and_lows tags or2 or3 b2 digits_64 Let_def
          scalar_def) 
  next
    case 4
    then have x: "p div 262144 < 8" using assms by (simp add: scalar_def)
    then have "(240 + p div 262144) mod 16 = p div 262144" by (simp add: mod_add_left_eq [symmetric, of 240])
    with 4 x assms show ?thesis
      by (simp add: utf8_bytes_def bytesPerSequence_def sequence_value_def and_lows tags or2 or3 or4 b2 b3 digits_64 Let_def
          scalar_def)
  qed
qed

lemma push_units_utf16:
  assumes "scalar p"
  shows "push_units p = utf16_units p"
proof (cases "p < 65536")
  case False
  then have "(p - 65536) div 1024 < 1024" using assms by (simp add: scalar_def)
  with False show ?thesis
    by (simp add: push_units_def utf16_units_def drop_bit_eq_div and_lows or_tags)
qed (simp add: push_units_def utf16_units_def)

lemma utf8_units_bytes:
  "\<forall>p \<in> set ps. scalar p \<Longrightarrow> utf8_units (concat (map utf8_bytes ps)) = concat (map utf16_units ps)"
proof (induction ps)
  case (Cons p ps)
  then obtain s t where st: "utf8_bytes p = s # t" "bytesPerSequence s = Suc (length t)"
    "sequence_value (bytesPerSequence s) s (t @ concat (map utf8_bytes ps)) = Some p"
    using sequence_value_utf8 [of p] by auto
  from utf8_units_sequence [OF st(3,2)] st(1) Cons show ?case by (simp add: push_units_utf16)
qed simp

lemma scalars_utf16: "scalars s = Some ps \<Longrightarrow> concat (map utf16_units ps) = map unat s"
proof (induction s arbitrary: ps rule: scalars.induct)
  case (2 c cs)
  have c: "unat c < 65536" using unsigned_less [of c] by simp
  show ?case
  proof (cases "55296 \<le> unat c \<and> unat c \<le> 57343")
    case False
    with 2 c show ?thesis by (auto simp: utf16_units_def)
  next
    case True
    then obtain d ds qs where d: "cs = d # ds" "unat c \<le> 56319" "56320 \<le> unat d" "unat d \<le> 57343"
      "scalars ds = Some qs" "ps = (65536 + (unat c - 55296) * 1024 + (unat d - 56320)) # qs"
      using 2(3) by (auto split: if_splits list.splits)
    let ?x = "unat c - 55296" and ?y = "unat d - 56320"
    have "?y < 1024" using d(4) by simp
    then have "(?x * 1024 + ?y) div 1024 = ?x" "(?x * 1024 + ?y) mod 1024 = ?y" by simp_all
    then have "utf16_units (65536 + ?x * 1024 + ?y) = [unat c, unat d]"
      using True d(3) by (simp add: utf16_units_def add.assoc del: div_mult_self3 mod_mult_self3)
    with 2(1) [OF True d(1)] d show ?thesis by simp
  qed
qed simp


text \<open>Two leads at the end of a string become one replacement character, as one does: the second
  stays pending and nothing flushes it after the loop.\<close>

lemma last_lead_lost:
  assumes "55296 \<le> unat h" and "unat h \<le> 56319" and "55296 \<le> unat k" and "unat k \<le> 56319"
  shows "utf8ToBytes [h, k] None = Inr [239, 191, 189] \<and> utf8ToBytes [h] None = Inr [239, 191, 189]"
  using assms by (simp add: utf8ToBytes_def surrogate_def push_replacement_def spend_def in_budget_def Let_def)

end
