(* ===== verification/JsBuffer.thy ===== *)
theory JsBuffer
  imports JsUtf8
begin

text \<open>
  Strings to buffers and back: \<open>Buffer.from(s, 'utf8')\<close> with the functions it calls
  (\<open>fromString\<close>, \<open>byteLength\<close>, \<open>createBuffer\<close>, \<open>write\<close>, \<open>utf8Write\<close>, \<open>blitBuffer\<close>) and
  \<open>toString\<close>.
\<close>

definition to_int32 :: "nat \<Rightarrow> int" where
  "to_int32 n = sint (of_nat n :: 32 word)"

definition createBuffer :: "int \<Rightarrow> js_error + byte list" where
  "createBuffer n = (if 2147483647 < n \<or> n < 0 then Inl RangeError else Inr (replicate (nat n) 0))"

text \<open>\<open>src\<close> is copied to \<open>dst\<close> at \<open>i\<close> until \<open>u\<close> bytes are copied or either ends.\<close>

fun blit_from :: "byte list \<Rightarrow> byte list \<Rightarrow> nat \<Rightarrow> nat \<Rightarrow> nat \<Rightarrow> byte list \<times> nat" where
  "blit_from [] dst i u k = (dst, k)"
| "blit_from (b # src) dst i u k =
     (if k < u \<and> k + i < length dst then blit_from src (dst[k + i := b]) i u (Suc k) else (dst, k))"

definition blitBuffer :: "byte list \<Rightarrow> byte list \<Rightarrow> nat \<Rightarrow> nat \<Rightarrow> byte list \<times> nat" where
  "blitBuffer src dst i u = blit_from src dst i u 0"

definition utf8Write :: "byte list \<Rightarrow> js_string \<Rightarrow> nat \<Rightarrow> nat \<Rightarrow> js_error + byte list \<times> nat" where
  "utf8Write buf str i u =
     (case utf8ToBytes str (Some (int (length buf) - int i)) of
        Inl e \<Rightarrow> Inl e
      | Inr bs \<Rightarrow> Inr (blitBuffer bs buf i u))"

definition fromString :: "js_string \<Rightarrow> js_error + byte list" where
  "fromString str =
     (case (if str = [] then Inr [] else utf8ToBytes str None) of
        Inl e \<Rightarrow> Inl e
      | Inr bs \<Rightarrow>
          (let i = to_int32 (length bs) in
           case createBuffer i of
             Inl e \<Rightarrow> Inl e
           | Inr u \<Rightarrow>
               (case utf8Write u str 0 (length u) of
                  Inl e \<Rightarrow> Inl e
                | Inr (u', actual) \<Rightarrow> Inr (if int actual \<noteq> i then take actual u' else u'))))"

definition buffer_toString :: "byte list \<Rightarrow> js_string" where
  "buffer_toString buf = (if buf = [] then [] else utf8Slice buf 0 (length buf))"

subsection \<open>Lemmas\<close>

lemma decode_chunks_eq: "decode_chunks_from us u i = i @ fromCharCode (drop u us)"
proof (induction us u i rule: decode_chunks_from.induct)
  case (1 us u i)
  have "drop u us = take 4096 (drop u us) @ drop (u + 4096) us"
    by (metis append_take_drop_id drop_drop add.commute)
  then have "fromCharCode (drop u us) = fromCharCode (take 4096 (drop u us)) @ fromCharCode (drop (u + 4096) us)"
    by (metis fromCharCode_def map_append)
  with 1 show ?case by (subst decode_chunks_from.simps) (simp add: fromCharCode_def)
qed

text \<open>The chunked conversion is the plain one.\<close>

lemma decodeCodePointsArray_eq: "decodeCodePointsArray us = fromCharCode us"
  by (simp add: decodeCodePointsArray_def decode_chunks_eq)

lemma utf8_bytes_lt: "scalar p \<Longrightarrow> b \<in> set (utf8_bytes p) \<Longrightarrow> b < 256"
proof -
  assume p: "scalar p" and b: "b \<in> set (utf8_bytes p)"
  have m: "x mod 64 < 64" for x :: nat by simp
  have d: "p < 2048 \<Longrightarrow> p div 64 < 32" "p < 65536 \<Longrightarrow> p div 4096 < 16" "p < 1114112 \<Longrightarrow> p div 262144 < 16"
    by simp_all
  show "b < 256"
    using b p d m [of p] m [of "p div 64"] m [of "p div 4096"]
    by (auto simp: utf8_bytes_def scalar_def split: if_splits)
qed

lemma unat_utf8_bytes:
  assumes "\<forall>p \<in> set ps. scalar p"
  shows "map (unat \<circ> (of_nat :: nat \<Rightarrow> byte)) (concat (map utf8_bytes ps)) = concat (map utf8_bytes ps)"
proof (rule map_idI)
  fix b assume "b \<in> set (concat (map utf8_bytes ps))"
  then have "b < 256" using assms utf8_bytes_lt by fastforce
  then show "(unat \<circ> (of_nat :: nat \<Rightarrow> byte)) b = b" by (simp add: unsigned_of_nat take_bit_nat_eq_self)
qed

lemma utf8_roundtrip:
  assumes "scalars str = Some ps"
  shows "utf8Slice (map of_nat (concat (map utf8_bytes ps))) 0 (length (concat (map utf8_bytes ps))) = str"
proof -
  have sc: "\<forall>p \<in> set ps. scalar p" using scalars_scalar [OF assms] by blast
  have "utf8_units (map unat (map (of_nat :: nat \<Rightarrow> byte) (concat (map utf8_bytes ps)))) = map unat str"
    unfolding map_map unat_utf8_bytes [OF sc] using utf8_units_bytes [OF sc] scalars_utf16 [OF assms] by simp
  then show ?thesis
    by (simp add: utf8Slice_def decodeCodePointsArray_eq fromCharCode_def o_def)
qed

lemma blit_from_all:
  "length src + k \<le> u \<Longrightarrow> length src + k \<le> length dst \<Longrightarrow>
   blit_from src dst 0 u k = (take k dst @ src @ drop (k + length src) dst, k + length src)"
proof (induction src dst "0 :: nat" u k rule: blit_from.induct)
  case (2 b src dst u k)
  then have "k < length dst" by simp
  then have "take (Suc k) (dst[k := b]) = take k dst @ [b]"
    by (simp add: take_Suc_conv_app_nth)
  with 2 show ?case by simp
qed simp

lemma blitBuffer_all: "length src = length dst \<Longrightarrow> blitBuffer src dst 0 (length dst) = (src, length src)"
  by (simp add: blitBuffer_def blit_from_all)

lemma fromString_scalars:
  assumes "scalars str = Some ps" and "length (concat (map utf8_bytes ps)) \<le> 2147483647"
  shows "fromString str = Inr (map of_nat (concat (map utf8_bytes ps)))"
proof -
  obtain bs where bs: "bs = concat (map utf8_bytes ps)" by simp
  have i: "to_int32 (length bs) = int (length bs)"
    using assms(2) unfolding to_int32_def bs by (simp add: signed_take_bit_int_eq_self signed_of_nat del: length_concat)
  have "utf8ToBytes str None = Inr (map of_nat bs)" "utf8ToBytes str (Some (int (length bs))) = Inr (map of_nat bs)"
    using utf8ToBytes_scalars [OF assms(1)] by (simp_all add: covers_def bs)
  moreover from this have "(if str = [] then Inr [] else utf8ToBytes str None) = Inr (map of_nat bs)"
    using assms(1) bs by auto
  ultimately show ?thesis
    using assms(2) blitBuffer_all [of "map of_nat bs" "replicate (length bs) 0"]
    unfolding bs [symmetric] fromString_def by (simp add: i createBuffer_def utf8Write_def Let_def)
qed

end
