(* ===== verification/JsBase64.thy ===== *)
theory JsBase64
  imports JsBuffer
begin

text \<open>
  The \<open>base64-js\<close> module of \<open>swagger-ui-bundle.js\<close> (\<open>fromByteArray\<close>, \<open>toByteArray\<close>,
  \<open>byteLength\<close>, \<open>getLens\<close>, \<open>encodeChunk\<close>), what \<open>buffer\<close> puts around it (\<open>base64clean\<close>,
  \<open>base64ToBytes\<close>, \<open>base64Slice\<close>) and \<open>btoa\<close> of the UI's helpers, with which it builds the
  \<open>Authorization: Basic\<close> header. A read past the end is \<open>undefined\<close>, which a bitwise operator
  takes as 0 and a string concatenation as the word; a write past the end of a \<open>Uint8Array\<close>
  does nothing, as a list update does.
\<close>

subsection \<open>Tables\<close>

definition code_alphabet :: js_string where
  "code_alphabet = js ''ABCDEFGHIJKLMNOPQRSTUVWXYZabcdefghijklmnopqrstuvwxyz0123456789+/''"

definition lookup_char :: "nat \<Rightarrow> js_string" where
  "lookup_char n = (if n < 64 then [code_alphabet ! n] else js ''undefined'')"

definition revLookup :: "nat \<Rightarrow> nat option" where
  "revLookup =
     (fold (\<lambda>x m. m(unat (code_alphabet ! x) \<mapsto> x)) [0..<64] Map.empty)
       (of_char (CHR ''-'') \<mapsto> 62, of_char (CHR ''_'') \<mapsto> 63)"

definition rev_at :: "js_string \<Rightarrow> nat \<Rightarrow> nat" where
  "rev_at str k =
     (if k < length str then (case revLookup (unat (str ! k)) of None \<Rightarrow> 0 | Some x \<Rightarrow> x) else 0)"

definition byte_at :: "byte list \<Rightarrow> nat \<Rightarrow> nat" where
  "byte_at buf k = (if k < length buf then unat (buf ! k) else 0)"

subsection \<open>Encoding\<close>

definition tripletToBase64 :: "nat \<Rightarrow> js_string" where
  "tripletToBase64 t =
     lookup_char (drop_bit 18 t AND 63) @ lookup_char (drop_bit 12 t AND 63) @
     lookup_char (drop_bit 6 t AND 63) @ lookup_char (63 AND t)"

function encodeChunk :: "byte list \<Rightarrow> nat \<Rightarrow> nat \<Rightarrow> js_string" where
  "encodeChunk buf s u =
     (if s < u
      then tripletToBase64 ((push_bit 16 (byte_at buf s) AND 16711680) +
             (push_bit 8 (byte_at buf (s + 1)) AND 65280) + (255 AND byte_at buf (s + 2))) @
           encodeChunk buf (s + 3) u
      else [])"
  by pat_completeness auto
termination by (relation "measure (\<lambda>(buf, s, u). u - s)") auto

definition maxChunkLength :: nat where
  "maxChunkLength = 16383"

function encode_chunks :: "byte list \<Rightarrow> nat \<Rightarrow> nat \<Rightarrow> js_string" where
  "encode_chunks buf c j =
     (if c < j
      then encodeChunk buf c (if j < c + maxChunkLength then j else c + maxChunkLength) @
           encode_chunks buf (c + maxChunkLength) j
      else [])"
  by pat_completeness auto
termination by (relation "measure (\<lambda>(buf, c, j). j - c)") (auto simp: maxChunkLength_def)

declare encodeChunk.simps [simp del] encode_chunks.simps [simp del]

definition fromByteArray :: "byte list \<Rightarrow> js_string" where
  "fromByteArray buf =
     (let u = length buf; extra = u mod 3 in
      encode_chunks buf 0 (u - extra) @
      (if extra = 1 then
         (let s = byte_at buf (u - 1) in
          lookup_char (drop_bit 2 s) @ lookup_char (push_bit 4 s AND 63) @ js ''=='')
       else if extra = 2 then
         (let s = push_bit 8 (byte_at buf (u - 2)) + byte_at buf (u - 1) in
          lookup_char (drop_bit 10 s) @ lookup_char (drop_bit 4 s AND 63) @
          lookup_char (push_bit 2 s AND 63) @ js ''='')
       else []))"

subsection \<open>Decoding\<close>

definition equals_sign :: "16 word" where
  "equals_sign = of_nat (of_char (CHR ''=''))"

definition getLens :: "js_string \<Rightarrow> js_error + nat \<times> nat" where
  "getLens str =
     (let s = length str in
      if 0 < s mod 4 then Inl InvalidLength
      else (let i = length (takeWhile (\<lambda>c. c \<noteq> equals_sign) str) in
            Inr (i, if i = s then 0 else 4 - i mod 4)))"

definition lens_bytes :: "nat \<Rightarrow> nat \<Rightarrow> int" where
  "lens_bytes v p = 3 * (int v + int p) div 4 - int p"

definition base64_byteLength :: "js_string \<Rightarrow> js_error + int" where
  "base64_byteLength str =
     (case getLens str of Inl e \<Rightarrow> Inl e | Inr (v, p) \<Rightarrow> Inr (lens_bytes v p))"

function decode_groups :: "js_string \<Rightarrow> nat \<Rightarrow> int \<Rightarrow> byte list \<Rightarrow> nat \<Rightarrow> byte list \<times> nat \<times> nat" where
  "decode_groups str i b arr l =
     (if int i < b
      then (let s = push_bit 18 (rev_at str i) OR push_bit 12 (rev_at str (i + 1)) OR
                    push_bit 6 (rev_at str (i + 2)) OR rev_at str (i + 3)
            in decode_groups str (i + 4) b
                 (arr[l := of_nat (drop_bit 16 s AND 255), l + 1 := of_nat (drop_bit 8 s AND 255),
                      l + 2 := of_nat (255 AND s)]) (l + 3))
      else (arr, l, i))"
  by pat_completeness auto
termination by (relation "measure (\<lambda>(str, i, b, arr, l). nat (b - int i))") auto

declare decode_groups.simps [simp del]

definition toByteArray :: "js_string \<Rightarrow> js_error + byte list" where
  "toByteArray str =
     (case getLens str of
        Inl e \<Rightarrow> Inl e
      | Inr (v, p) \<Rightarrow>
          (if lens_bytes v p < 0 then Inl RangeError
           else
             (let b = (if 0 < p then int v - 4 else int v);
                  (arr, l, i) = decode_groups str 0 b (replicate (nat (lens_bytes v p)) 0) 0;
                  arr1 = (if p = 2
                          then arr[l := of_nat (255 AND (push_bit 2 (rev_at str i) OR drop_bit 4 (rev_at str (i + 1))))]
                          else arr)
              in Inr (if p = 1
                      then (let s = push_bit 10 (rev_at str i) OR push_bit 4 (rev_at str (i + 1)) OR
                                    drop_bit 2 (rev_at str (i + 2))
                            in arr1[l := of_nat (drop_bit 8 s AND 255), l + 1 := of_nat (255 AND s)])
                      else arr1))))"

subsection \<open>The buffer around it\<close>

definition js_space :: "16 word \<Rightarrow> bool" where
  "js_space c \<longleftrightarrow>
     unat c \<in> {9, 10, 11, 12, 13, 32, 160, 5760, 8232, 8233, 8239, 8287, 12288, 65279} \<or>
     8192 \<le> unat c \<and> unat c \<le> 8202"

definition js_trim :: "js_string \<Rightarrow> js_string" where
  "js_trim str = rev (dropWhile js_space (rev (dropWhile js_space str)))"

definition base64_unit :: "16 word \<Rightarrow> bool" where
  "base64_unit c \<longleftrightarrow>
     (let n = unat c in
      n = of_char (CHR ''+'') \<or> n = of_char (CHR ''/'') \<or> of_char (CHR ''0'') \<le> n \<and> n \<le> of_char (CHR ''9'') \<or>
      of_char (CHR ''A'') \<le> n \<and> n \<le> of_char (CHR ''Z'') \<or> of_char (CHR ''a'') \<le> n \<and> n \<le> of_char (CHR ''z'') \<or>
      n = of_char (CHR ''-'') \<or> n = of_char (CHR ''_''))"

function pad_base64 :: "js_string \<Rightarrow> js_string" where
  "pad_base64 str = (if length str mod 4 \<noteq> 0 then pad_base64 (str @ [equals_sign]) else str)"
  by pat_completeness auto
termination by (relation "measure (\<lambda>str. (4 - length str mod 4) mod 4)") (auto simp: mod_Suc)

declare pad_base64.simps [simp del]

definition base64clean :: "js_string \<Rightarrow> js_string" where
  "base64clean str =
     (let s = filter base64_unit (js_trim (takeWhile (\<lambda>c. c \<noteq> equals_sign) str)) in
      if length s < 2 then [] else pad_base64 s)"

definition base64ToBytes :: "js_string \<Rightarrow> js_error + byte list" where
  "base64ToBytes str = toByteArray (base64clean str)"

definition base64Slice :: "byte list \<Rightarrow> nat \<Rightarrow> nat \<Rightarrow> js_string" where
  "base64Slice buf s i =
     (if s = 0 \<and> i = length buf then fromByteArray buf else fromByteArray (drop s (take i buf)))"

definition utils_btoa :: "js_string \<Rightarrow> js_error + js_string" where
  "utils_btoa str =
     (case fromString str of
        Inl e \<Rightarrow> Inl e
      | Inr buf \<Rightarrow> Inr (if buf = [] then [] else base64Slice buf 0 (length buf)))"

subsection \<open>The tables\<close>

definition codes :: "nat list" where
  "codes = [65..<91] @ [97..<123] @ [48..<58] @ [43, 47]"

lemma codes_alphabet: "code_alphabet = map of_nat codes"
proof -
  have "map of_char ''ABCDEFGHIJKLMNOPQRSTUVWXYZabcdefghijklmnopqrstuvwxyz0123456789+/'' = codes"
    unfolding codes_def by (simp add: upt_conv_Cons del: upt_Suc)
  moreover have "js s = map of_nat (map of_char s)" for s by (simp add: js_def)
  ultimately show ?thesis unfolding code_alphabet_def by metis
qed

lemma codes_length: "length codes = 64"
  by (simp add: codes_def)

lemma codes_distinct: "distinct codes"
  by (auto simp: codes_def)

lemma codes_range: "c \<in> set codes \<Longrightarrow> 65 \<le> c \<and> c \<le> 90 \<or> 97 \<le> c \<and> c \<le> 122 \<or> 48 \<le> c \<and> c \<le> 57 \<or> c = 43 \<or> c = 47"
  by (auto simp: codes_def)

lemma unat_code: "c < 65536 \<Longrightarrow> unat (of_nat c :: 16 word) = c"
  by (simp add: unsigned_of_nat take_bit_nat_eq_self)

lemma alphabet_nth: "n < 64 \<Longrightarrow> unat (code_alphabet ! n) = codes ! n"
  using codes_range [of "codes ! n"] by (auto simp: codes_alphabet codes_length unat_code)

lemma fold_table:
  "k \<notin> f ` set xs \<Longrightarrow> fold (\<lambda>x m. m(f x \<mapsto> x)) xs m k = m k"
  by (induction xs arbitrary: m) auto

lemma fold_table_inj:
  "inj_on f (set xs) \<Longrightarrow> distinct xs \<Longrightarrow> x \<in> set xs \<Longrightarrow> fold (\<lambda>x m. m(f x \<mapsto> x)) xs m (f x) = Some x"
proof (induction xs arbitrary: m)
  case (Cons y xs)
  show ?case
  proof (cases "x = y")
    case True
    with Cons have "f x \<notin> f ` set xs" by (auto simp: inj_on_def)
    then have "fold (\<lambda>x m. m(f x \<mapsto> x)) xs (m(f x \<mapsto> x)) (f x) = (m(f x \<mapsto> x)) (f x)"
      by (rule fold_table)
    with True show ?thesis by (simp only: fold.simps o_apply fun_upd_same)
  qed (use Cons in auto)
qed simp

lemma revLookup_alphabet:
  assumes "n < 64"
  shows "revLookup (unat (code_alphabet ! n)) = Some n"
proof -
  let ?f = "\<lambda>x. unat (code_alphabet ! x)"
  have inj: "inj_on ?f (set [0..<64])"
    using codes_distinct by (auto simp: inj_on_def alphabet_nth nth_eq_iff_index_eq codes_length)
  have "?f n \<noteq> 45" "?f n \<noteq> 95"
    using codes_range [of "codes ! n"] assms by (auto simp: alphabet_nth codes_length)
  then show ?thesis using fold_table_inj [OF inj, of n Map.empty] assms by (simp add: revLookup_def)
qed

lemma alphabet_unit:
  assumes "c \<in> set code_alphabet"
  shows "c \<noteq> equals_sign \<and> base64_unit c \<and> \<not> js_space c"
proof -
  obtain k where k: "k \<in> set codes" "c = of_nat k" using assms by (auto simp: codes_alphabet)
  have u: "unat c = k" unfolding k(2) by (rule unat_code) (use codes_range [OF k(1)] in auto)
  have "unat equals_sign = 61" by (simp add: equals_sign_def)
  then have "c \<noteq> equals_sign" using u codes_range [OF k(1)] by auto
  moreover have "base64_unit c" using codes_range [OF k(1)] by (auto simp: base64_unit_def u)
  moreover have "\<not> js_space c" using codes_range [OF k(1)] by (auto simp: js_space_def u)
  ultimately show ?thesis by blast
qed

lemma lookup_char_in: "n < 64 \<Longrightarrow> lookup_char n = [code_alphabet ! n] \<and> code_alphabet ! n \<in> set code_alphabet"
  by (simp add: lookup_char_def codes_alphabet codes_length)

lemma rev_at_append:
  "n < 64 \<Longrightarrow> k = length pre \<Longrightarrow> rev_at (pre @ code_alphabet ! n # post) k = n"
  by (simp add: rev_at_def revLookup_alphabet)


subsection \<open>A reference encoder, and its equivalence\<close>

definition code_chars :: "nat list \<Rightarrow> js_string" where
  "code_chars ds = map (\<lambda>d. code_alphabet ! d) ds"

definition sextets :: "nat \<Rightarrow> nat list" where
  "sextets t = [t div 262144 mod 64, t div 4096 mod 64, t div 64 mod 64, t mod 64]"

text \<open>Base64 as RFC 4648 describes it, three bytes at a time.\<close>

fun base64_ref :: "byte list \<Rightarrow> js_string" where
  "base64_ref (a # b # c # bs) =
     code_chars (sextets (65536 * unat a + 256 * unat b + unat c)) @ base64_ref bs"
| "base64_ref [a, b] = code_chars (take 3 (sextets (65536 * unat a + 256 * unat b))) @ [equals_sign]"
| "base64_ref [a] = code_chars (take 2 (sextets (65536 * unat a))) @ [equals_sign, equals_sign]"
| "base64_ref [] = []"

lemma lookup_sextet: "lookup_char (x mod 64) = code_chars [x mod 64]"
  by (simp add: lookup_char_def code_chars_def)

lemma triplet_sextets: "tripletToBase64 t = code_chars (sextets t)"
  by (simp add: tripletToBase64_def and_lows drop_bit_eq_div lookup_sextet sextets_def code_chars_def)

lemma byte_at_less: "byte_at buf k < 256"
  by (simp add: byte_at_def byte_lt)

lemma triple_value:
  "(push_bit 16 (byte_at buf s) AND 16711680) + (push_bit 8 (byte_at buf (s + 1)) AND 65280) +
     (255 AND byte_at buf (s + 2)) =
   65536 * byte_at buf s + 256 * byte_at buf (s + 1) + byte_at buf (s + 2)"
proof -
  have m: "push_bit k x AND push_bit k 255 = push_bit k x" if "x < 256" for x k :: nat
    using that and_low [of x 8] by (simp flip: push_bit_and)
  have "push_bit 16 x AND 16711680 = 65536 * x" "push_bit 8 x AND 65280 = 256 * x" if "x < 256" for x :: nat
    using m [OF that, of 16] m [OF that, of 8] by (simp_all add: push_bit_eq_mult)
  then show ?thesis using byte_at_less and_lows(9) by simp
qed

lemma byte_at_append: "byte_at (pre @ b # post) (length pre) = unat b"
  by (simp add: byte_at_def)

lemma encodeChunk_append:
  "s \<le> m \<Longrightarrow> m \<le> u \<Longrightarrow> (m - s) mod 3 = 0 \<Longrightarrow> encodeChunk buf s u = encodeChunk buf s m @ encodeChunk buf m u"
proof (induction buf s m rule: encodeChunk.induct)
  case (1 buf s m)
  show ?case
  proof (cases "s < m")
    case True
    then have "s + 3 \<le> m \<and> (m - (s + 3)) mod 3 = 0" using 1(4) by presburger
    with 1(1) [OF True] 1(3) True show ?thesis
      by (subst (1 2) encodeChunk.simps) simp
  next
    case False
    with 1(2) have "s = m" by simp
    then show ?thesis by (subst (2) encodeChunk.simps) simp
  qed
qed

text \<open>Cutting the input into chunks of 16383 bytes changes nothing, for 3 divides it.\<close>

lemma encode_chunks_eq: "(j - c) mod 3 = 0 \<Longrightarrow> encode_chunks buf c j = encodeChunk buf c j"
proof (induction buf c j rule: encode_chunks.induct)
  case (1 buf c j)
  show ?case
  proof (cases "c < j")
    case True
    show ?thesis
    proof (cases "j < c + maxChunkLength")
      case True
      with \<open>c < j\<close> show ?thesis
        by (subst encode_chunks.simps) (simp add: encode_chunks.simps)
    next
      case False
      then have "(j - (c + maxChunkLength)) mod 3 = 0" using 1(2) unfolding maxChunkLength_def by presburger
      with 1(1) [OF \<open>c < j\<close>] encodeChunk_append [of c "c + maxChunkLength" j buf] False True show ?thesis
        by (subst encode_chunks.simps) (simp add: maxChunkLength_def)
    qed
  qed (simp add: encode_chunks.simps encodeChunk.simps)
qed


lemma js_equals: "js ''='' = [equals_sign]" "js ''=='' = [equals_sign, equals_sign]"
  by (simp_all add: js_def equals_sign_def)

definition encode_rest :: "byte list \<Rightarrow> js_string" where
  "encode_rest buf =
     (let u = length buf; extra = u mod 3 in
      if extra = 1 then
        (let s = byte_at buf (u - 1) in
         lookup_char (drop_bit 2 s) @ lookup_char (push_bit 4 s AND 63) @ js ''=='')
      else if extra = 2 then
        (let s = push_bit 8 (byte_at buf (u - 2)) + byte_at buf (u - 1) in
         lookup_char (drop_bit 10 s) @ lookup_char (drop_bit 4 s AND 63) @
         lookup_char (push_bit 2 s AND 63) @ js ''='')
      else [])"

lemma encode_rest_1: "length pre mod 3 = 0 \<Longrightarrow> encode_rest (pre @ [a]) = base64_ref [a]"
proof -
  assume p: "length pre mod 3 = 0"
  then have e: "length (pre @ [a]) mod 3 = 1" by (simp add: mod_Suc)
  have a: "byte_at (pre @ [a]) (length pre) = unat a" by (rule byte_at_append)
  have d: "65536 * unat a div 262144 = unat a div 4" "65536 * unat a div 4096 = 16 * unat a"
    using div_mult_mult1 [of 65536 "unat a" 4] by simp_all
  have q: "unat a div 4 < 64" using byte_lt [of a] by simp
  with e p show ?thesis
    unfolding base64_ref.simps sextets_def d
    by (simp add: encode_rest_def a drop_bit_eq_div push_bit_eq_mult and_lows js_equals lookup_sextet
        lookup_char_def code_chars_def Let_def mult.commute)
qed

lemma encode_rest_2: "length pre mod 3 = 0 \<Longrightarrow> encode_rest (pre @ [a, b]) = base64_ref [a, b]"
proof -
  assume p: "length pre mod 3 = 0"
  then have e: "length (pre @ [a, b]) mod 3 = 2" by (simp add: mod_Suc)
  have a: "byte_at (pre @ [a, b]) (length pre) = unat a" "byte_at (pre @ [a, b]) (Suc (length pre)) = unat b"
    using byte_at_append [of pre a "[b]"] byte_at_append [of "pre @ [a]" b "[]"] by simp_all
  let ?s = "256 * unat a + unat b"
  have s: "?s < 65536" using byte_lt [of a] byte_lt [of b] by linarith
  have t: "65536 * unat a + 256 * unat b = ?s * 256" by simp
  have d: "?s * 256 div 262144 = ?s div 1024" "?s * 256 div 4096 = ?s div 16" "?s * 256 div 64 = ?s * 4"
    using div_mult2_eq [of "?s * 256" 256 1024] div_mult2_eq [of "?s * 256" 256 16]
      div_mult_mult2 [of 64 "?s * 4" 1] by simp_all
  have "?s div 1024 < 64" using s by simp
  with e p show ?thesis
    unfolding base64_ref.simps t sextets_def d
    by (simp add: encode_rest_def a drop_bit_eq_div push_bit_eq_mult and_lows js_equals lookup_sextet
        lookup_char_def code_chars_def Let_def mult.commute)
qed

lemma encode_from_ref:
  "length pre mod 3 = 0 \<Longrightarrow>
   encodeChunk (pre @ bs) (length pre) (length (pre @ bs) - length (pre @ bs) mod 3) @ encode_rest (pre @ bs) = base64_ref bs"
proof (induction bs arbitrary: pre rule: base64_ref.induct)
  case (1 a b c bs)
  let ?pre = "pre @ [a, b, c]" and ?buf = "pre @ a # b # c # bs"
  have at: "byte_at ?buf (length pre) = unat a" "byte_at ?buf (length pre + 1) = unat b"
    "byte_at ?buf (length pre + 2) = unat c"
    using byte_at_append [of pre a "b # c # bs"] byte_at_append [of "pre @ [a]" b "c # bs"]
      byte_at_append [of "pre @ [a, b]" c bs] by simp_all
  have l: "length pre < length ?buf - length ?buf mod 3" using 1(2) by simp
  have "length ?pre mod 3 = 0" using 1(2) by (simp add: mod_Suc)
  have memo: "encodeChunk (?pre @ bs) (length ?pre) (length (?pre @ bs) - length (?pre @ bs) mod 3) @
      encode_rest (?pre @ bs) = base64_ref bs"
    by (rule 1(1)) fact
  have "encodeChunk ?buf (length pre) u =
      code_chars (sextets (65536 * unat a + 256 * unat b + unat c)) @ encodeChunk ?buf (length pre + 3) u"
    if "length pre < u" for u
    by (subst encodeChunk.simps, simp only: that if_True triple_value triplet_sextets) (simp only: at)
  with l have "encodeChunk ?buf (length pre) (length ?buf - length ?buf mod 3) @ encode_rest ?buf =
      code_chars (sextets (65536 * unat a + 256 * unat b + unat c)) @ base64_ref bs"
    using memo by (simp only: append_assoc length_append append.simps list.size add_0_right add_Suc_right add_Suc
      numeral_3_eq_3)
  then show ?case by simp
next
  case (2 a b)
  then show ?case using encode_rest_2 [OF 2] by (subst encodeChunk.simps) (simp add: mod_Suc)
next
  case (3 a)
  then show ?case using encode_rest_1 [OF 3] by (subst encodeChunk.simps) (simp add: mod_Suc)
next
  case 4
  then show ?case by (simp add: encodeChunk.simps encode_rest_def)
qed

lemma fromByteArray_ref: "fromByteArray buf = base64_ref buf"
proof -
  have "(length buf - length buf mod 3 - 0) mod 3 = 0" by simp
  from encode_chunks_eq [OF this] encode_from_ref [of "[]" buf]
  show ?thesis by (simp add: fromByteArray_def encode_rest_def Let_def)
qed


subsection \<open>The decoder inverts it\<close>

lemma code_chars_in: "\<forall>d \<in> set ds. d < 64 \<Longrightarrow> set (code_chars ds) \<subseteq> set code_alphabet"
  by (auto simp: code_chars_def codes_alphabet codes_length)

lemma sextets_lt: "d \<in> set (sextets t) \<Longrightarrow> d < 64"
  by (auto simp: sextets_def)

lemma code_chars_sextets: "set (code_chars (take n (sextets t))) \<subseteq> set code_alphabet"
  by (rule code_chars_in) (meson in_set_takeD sextets_lt)

text \<open>The data characters and the padding.\<close>

fun base64_data :: "byte list \<Rightarrow> js_string" where
  "base64_data (a # b # c # bs) =
     code_chars (sextets (65536 * unat a + 256 * unat b + unat c)) @ base64_data bs"
| "base64_data [a, b] = code_chars (take 3 (sextets (65536 * unat a + 256 * unat b)))"
| "base64_data [a] = code_chars (take 2 (sextets (65536 * unat a)))"
| "base64_data [] = []"

definition padding :: "byte list \<Rightarrow> nat" where
  "padding bs = (3 - length bs mod 3) mod 3"

lemma base64_split: "base64_ref bs = base64_data bs @ replicate (padding bs) equals_sign"
  by (induction bs rule: base64_ref.induct) (simp_all add: padding_def numeral_2_eq_2 Let_def mod_Suc)

lemma base64_data_in: "set (base64_data bs) \<subseteq> set code_alphabet"
proof (induction bs rule: base64_data.induct)
  case (1 a b c bs)
  then show ?case using code_chars_sextets [of 4] by (simp add: sextets_def)
next
  case (2 a b)
  then show ?case using code_chars_sextets [of 3] by simp
next
  case (3 a)
  then show ?case using code_chars_sextets [of 2] by simp
qed simp

lemma base64_data_length: "length (base64_data bs) + padding bs = 4 * ((length bs + 2) div 3)"
proof (induction bs rule: base64_data.induct)
  case (1 a b c bs)
  have "padding (a # b # c # bs) = padding bs" by (simp add: padding_def)
  moreover have "(length (a # b # c # bs) + 2) div 3 = (length bs + 2) div 3 + 1" by simp
  ultimately show ?case using 1 by (simp add: code_chars_def sextets_def)
qed (simp_all add: code_chars_def sextets_def padding_def)

lemma takeWhile_data:
  "takeWhile (\<lambda>c. c \<noteq> equals_sign) (base64_data bs @ replicate n equals_sign) = base64_data bs"
proof -
  have "takeWhile (\<lambda>c. c \<noteq> equals_sign) (base64_data bs @ replicate n equals_sign) =
      base64_data bs @ takeWhile (\<lambda>c. c \<noteq> equals_sign) (replicate n equals_sign)"
    by (rule takeWhile_append2) (use base64_data_in alphabet_unit in blast)
  then show ?thesis by (cases n) simp_all
qed

lemma padding_lt: "padding bs < 3"
  by (simp add: padding_def)

lemma pad_arith: "n + p = 4 * k \<Longrightarrow> 0 < p \<Longrightarrow> p < 3 \<Longrightarrow> 4 - n mod 4 = (p :: nat)"
  by presburger

lemma getLens_ref: "getLens (base64_ref bs) = Inr (length (base64_data bs), padding bs)"
proof -
  let ?str = "base64_data bs @ replicate (padding bs) equals_sign"
  have "length ?str = 4 * ((length bs + 2) div 3)" using base64_data_length [of bs] by simp
  then have "\<not> 0 < length ?str mod 4" by simp
  moreover have "(if length (base64_data bs) = length ?str then 0 else 4 - length (base64_data bs) mod 4) = padding bs"
    using pad_arith [OF base64_data_length _ padding_lt] by simp
  ultimately show ?thesis
    unfolding getLens_def base64_split takeWhile_data Let_def by (simp only: if_False)
qed

lemma triple_arith: "3 * ((n + 2) div 3) = n + (3 - n mod 3) mod (3 :: nat)"
proof -
  obtain q r where n: "n = 3 * q + r" "r < 3"
    using div_mult_mod_eq [of n 3] by (metis mult.commute mod_less_divisor zero_less_numeral)
  then have "r = 0 \<or> r = 1 \<or> r = 2" by auto
  with n(1) show ?thesis by auto
qed

lemma lens_ref: "lens_bytes (length (base64_data bs)) (padding bs) = int (length bs)"
proof -
  have "int (length (base64_data bs)) + int (padding bs) = int (4 * ((length bs + 2) div 3))"
    unfolding base64_data_length [symmetric] by (rule of_nat_add [symmetric])
  then have "lens_bytes (length (base64_data bs)) (padding bs) = int (3 * ((length bs + 2) div 3)) - int (padding bs)"
    unfolding lens_bytes_def by simp
  then show ?thesis unfolding triple_arith padding_def by simp
qed

lemma rev_at_code:
  assumes "drop i str = code_chars ds @ rest" and "k < length ds" and "ds ! k < 64"
  shows "rev_at str (i + k) = ds ! k"
proof -
  have "drop (i + k) str = drop k (drop i str)" by (simp add: add.commute)
  also have "\<dots> = code_alphabet ! (ds ! k) # code_chars (drop (Suc k) ds) @ rest"
    using assms(1,2) by (simp add: code_chars_def drop_map Cons_nth_drop_Suc [symmetric])
  finally have d: "drop (i + k) str = code_alphabet ! (ds ! k) # code_chars (drop (Suc k) ds) @ rest" .
  then have "i + k < length str" by (metis drop_eq_Nil2 leI list.distinct(1))
  then have "str = take (i + k) str @ code_alphabet ! (ds ! k) # code_chars (drop (Suc k) ds) @ rest"
    "length (take (i + k) str) = i + k"
    using d append_take_drop_id [of "i + k" str] by simp_all
  then show ?thesis using rev_at_append [OF assms(3)] by metis
qed

lemma byte_ops:
  fixes s :: nat
  shows "drop_bit 16 s AND 255 = s div 65536 mod 256" "drop_bit 8 s AND 255 = s div 256 mod 256"
  by (simp_all add: and_lows drop_bit_eq_div)

lemma sextets_nth:
  "sextets t ! 0 = t div 262144 mod 64" "sextets t ! 1 = t div 4096 mod 64"
  "sextets t ! 2 = t div 64 mod 64" "sextets t ! 3 = t mod 64"
  by (simp_all add: sextets_def)

lemma sextets_length: "length (sextets t) = 4"
  by (simp add: sextets_def)

lemma sextets_less: "k < 4 \<Longrightarrow> sextets t ! k < 64"
  by (rule sextets_lt, rule nth_mem) (simp only: sextets_length)

lemma sextets_join:
  assumes "t < 16777216"
  shows "push_bit 18 (sextets t ! 0) OR push_bit 12 (sextets t ! 1) OR push_bit 6 (sextets t ! 2) OR sextets t ! 3 = t"
proof -
  have m: "x mod 64 < 64" for x :: nat by simp
  have "t div 64 mod 64 * 64 + t mod 64 < 4096" "t div 4096 mod 64 * 4096 + (t div 64 mod 64 * 64 + t mod 64) < 262144"
    using m [of t] m [of "t div 64"] m [of "t div 4096"] by linarith+
  moreover have "t div 262144 mod 64 = t div 262144" using assms by simp
  ultimately show ?thesis
    using or_push [of "t mod 64" 6 "t div 64 mod 64"] m [of t]
      or_push [of "t div 64 mod 64 * 64 + t mod 64" 12 "t div 4096 mod 64"]
      or_push [of "t div 4096 mod 64 * 4096 + (t div 64 mod 64 * 64 + t mod 64)" 18 "t div 262144"]
      digits_64(3) [of t]
    unfolding sextets_nth by simp
qed

lemma mult_256: "z < 256 \<Longrightarrow> (w * 256 + z) mod 256 = z" "z < 256 \<Longrightarrow> (w * 256 + z) div 256 = (w :: nat)"
  by simp_all

lemma triple_bytes:
  fixes x y z :: byte
  defines "t \<equiv> 65536 * unat x + 256 * unat y + unat z"
  shows "t < 16777216" and "of_nat (t div 65536 mod 256) = x" and "of_nat (t div 256 mod 256) = y"
    and "of_nat (t mod 256) = z"
proof -
  have lt: "unat x < 256" "unat y < 256" "unat z < 256" by (simp_all add: byte_lt)
  then show "t < 16777216" unfolding t_def by linarith
  have "t = (256 * unat x + unat y) * 256 + unat z" unfolding t_def by simp
  then have "t mod 256 = unat z" "t div 256 = 256 * unat x + unat y" by (simp_all only: mult_256 lt)
  moreover have "t div 65536 = t div 256 div 256" by (simp add: div_mult2_eq [symmetric])
  moreover have "(256 * unat x + unat y) mod 256 = unat y" "(256 * unat x + unat y) div 256 = unat x"
    using mult_256 [OF lt(2), of "unat x"] by (simp_all add: mult.commute)
  ultimately show "of_nat (t div 65536 mod 256) = x" "of_nat (t div 256 mod 256) = y" "of_nat (t mod 256) = z"
    using lt by simp_all
qed


lemma decode_groups_data:
  assumes "length bs mod 3 = 0"
  shows "drop i str = base64_data bs @ rest \<Longrightarrow> b \<le> int i + int (length (base64_data bs)) \<Longrightarrow>
    int i + int (length (base64_data bs)) < b + 4 \<Longrightarrow> l + length bs \<le> length arr \<Longrightarrow>
    decode_groups str i b arr l =
      (take l arr @ bs @ drop (l + length bs) arr, l + length bs, i + length (base64_data bs))"
  using assms
proof (induction bs arbitrary: i l arr rule: base64_data.induct)
  case (1 x y z bs)
  let ?t = "65536 * unat x + 256 * unat y + unat z"
  let ?arr = "arr[l := x, l + 1 := y, l + 2 := z]"
  have d: "drop i str = code_chars (sextets ?t) @ base64_data bs @ rest" using 1(2) by simp
  have r: "rev_at str (i + k) = sextets ?t ! k" if "k < 4" for k
    using rev_at_code [OF d, of k] sextets_less [OF that] that by (simp only: sextets_length)
  have s: "push_bit 18 (rev_at str i) OR push_bit 12 (rev_at str (i + 1)) OR
      push_bit 6 (rev_at str (i + 2)) OR rev_at str (i + 3) = ?t"
    using r [of 0] r [of 1] r [of 2] r [of 3] sextets_join [OF triple_bytes(1) [of x y z]]
    by (simp only: add_0_right zero_less_numeral one_less_numeral_iff numeral_less_iff semiring_norm simp_thms)
  have step: "decode_groups str i b arr l = decode_groups str (i + 4) b ?arr (l + 3)" if "int i < b"
    by (subst decode_groups.simps) (simp only: that if_True s Let_def byte_ops and_lows(9) triple_bytes)
  have "length (base64_data (x # y # z # bs)) = 4 + length (base64_data bs)" by (simp add: code_chars_def sextets_def)
  then have b: "int i < b" "b \<le> int (i + 4) + int (length (base64_data bs))"
    "int (i + 4) + int (length (base64_data bs)) < b + 4" using 1(3,4) by simp_all
  have "drop (i + 4) str = drop 4 (drop i str)" by (simp add: add.commute)
  also have "\<dots> = base64_data bs @ rest" unfolding d by (simp add: code_chars_def sextets_def)
  finally have "drop (i + 4) str = base64_data bs @ rest" .
  then have "decode_groups str (i + 4) b ?arr (l + 3) =
      (take (l + 3) ?arr @ bs @ drop (l + 3 + length bs) ?arr, l + 3 + length bs, i + 4 + length (base64_data bs))"
    by (rule 1(1) [OF _ b(2,3)]) (use 1(5,6) in simp_all)
  moreover have "take (l + 3) ?arr = take l arr @ [x, y, z]" using 1(5)
    by (simp add: take_Suc_conv_app_nth numeral_3_eq_3 numeral_2_eq_2)
  ultimately show ?case using step [OF b(1)] by (simp add: code_chars_def sextets_def numeral_3_eq_3)
next
  case 4
  then show ?case by (subst decode_groups.simps) simp
qed simp_all


lemma base64_data_append:
  "length bs mod 3 = 0 \<Longrightarrow> base64_data (bs @ cs) = base64_data bs @ base64_data cs"
  by (induction bs rule: base64_data.induct) simp_all

lemma tail_one: "rev_at str i = sextets (65536 * unat a) ! 0 \<Longrightarrow> rev_at str (i + 1) = sextets (65536 * unat a) ! 1 \<Longrightarrow>
  of_nat (255 AND (push_bit 2 (rev_at str i) OR drop_bit 4 (rev_at str (i + 1)))) = (a :: byte)"
proof -
  assume r: "rev_at str i = sextets (65536 * unat a) ! 0" "rev_at str (i + 1) = sextets (65536 * unat a) ! 1"
  have d: "65536 * unat a div 262144 = unat a div 4" "65536 * unat a div 4096 = 16 * unat a"
    using div_mult_mult1 [of 65536 "unat a" 4] by simp_all
  have lt: "unat a < 256" by (rule byte_lt)
  then have "unat a div 4 mod 64 = unat a div 4" by simp
  moreover have "16 * unat a mod 64 div 16 = unat a mod 4"
    using mod_mult_mult1 [of 16 "unat a" 4] by simp
  ultimately have "push_bit 2 (rev_at str i) OR drop_bit 4 (rev_at str (i + 1)) = unat a"
    using or_push [of "unat a mod 4" 2 "unat a div 4"]
    unfolding r sextets_nth d by (simp add: drop_bit_eq_div)
  with lt show ?thesis by (simp add: and_lows)
qed

lemma tail_two:
  fixes a b :: byte
  defines "t \<equiv> 65536 * unat a + 256 * unat b"
  assumes "rev_at str i = sextets t ! 0" and "rev_at str (i + 1) = sextets t ! 1" and "rev_at str (i + 2) = sextets t ! 2"
  shows "push_bit 10 (rev_at str i) OR push_bit 4 (rev_at str (i + 1)) OR drop_bit 2 (rev_at str (i + 2)) =
    256 * unat a + unat b"
proof -
  define s where "s = 256 * unat a + unat b"
  have s: "s < 65536" using byte_lt [of a] byte_lt [of b] unfolding s_def by linarith
  have t: "t = s * 256" unfolding t_def s_def by simp
  have d: "s * 256 div 262144 = s div 1024" "s * 256 div 4096 = s div 16" "s * 256 div 64 = s * 4"
    using div_mult2_eq [of "s * 256" 256 1024] div_mult2_eq [of "s * 256" 256 16]
      div_mult_mult2 [of 64 "s * 4" 1] by simp_all
  have "s div 1024 mod 64 = s div 1024" using s by simp
  moreover have "s * 4 mod 64 div 4 = s mod 16"
    using mod_mult_mult2 [of s 4 16] by simp
  moreover have "push_bit 4 (s div 16 mod 64) OR s mod 16 = s div 16 mod 64 * 16 + s mod 16"
    using or_push [of "s mod 16" 4 "s div 16 mod 64"] by simp
  moreover have "s div 16 mod 64 * 16 + s mod 16 = s mod 1024"
    using mod_mult2_eq [of s 16 64] by simp
  moreover have "push_bit 10 (s div 1024) OR s mod 1024 = s"
    using or_push [of "s mod 1024" 10 "s div 1024"] by simp
  ultimately show ?thesis
    unfolding assms(2-4) t sextets_nth d s_def [symmetric] by (simp only: drop_bit_eq_div power2_eq_square) simp
qed

lemma toByteArray_ref: "toByteArray (base64_ref bs) = Inr bs"
proof -
  define n where "n = length bs - length bs mod 3"
  define pre post where "pre = take n bs" and "post = drop n bs"
  have bs: "bs = pre @ post" by (simp add: pre_def post_def)
  have pre: "length pre mod 3 = 0" "length pre = n" by (simp_all add: pre_def n_def)
  have post: "length post = length bs mod 3" by (simp add: post_def n_def)
  then have pad: "padding bs = padding post" by (simp add: padding_def)
  let ?v = "length (base64_data bs)" and ?p = "padding bs" and ?str = "base64_ref bs"
  let ?b = "if 0 < ?p then int ?v - 4 else int ?v"
  let ?arr = "replicate (length bs) (0 :: byte)"
  have data: "base64_data bs = base64_data pre @ base64_data post"
    unfolding bs by (rule base64_data_append [OF pre(1)])
  have str: "?str = base64_data pre @ (base64_data post @ replicate ?p equals_sign)"
    by (simp add: base64_split data)
  have p: "post = [] \<and> ?p = 0 \<or> (\<exists>a. post = [a]) \<and> ?p = 2 \<or> (\<exists>a b. post = [a, b]) \<and> ?p = 1"
  proof -
    have "length post < 3" unfolding post by simp
    then consider "post = []" | a where "post = [a]" | a b where "post = [a, b]"
      by (cases post rule: base64_data.cases) auto
    then show ?thesis unfolding pad by cases (simp_all add: padding_def)
  qed
  have g: "decode_groups ?str 0 ?b ?arr 0 =
      (pre @ drop (length pre) ?arr, length pre, length (base64_data pre))"
  proof -
    have "?b \<le> int 0 + int (length (base64_data pre))" "int 0 + int (length (base64_data pre)) < ?b + 4"
      using p unfolding data by (auto simp: code_chars_def sextets_def)
    from decode_groups_data [OF pre(1) _ this, of ?str _ 0 ?arr] show ?thesis
      using str bs by simp
  qed
  have u: "toByteArray ?str =
     (let arr = pre @ drop (length pre) ?arr; l = length pre; i = length (base64_data pre);
          arr1 = (if ?p = 2
                  then arr[l := of_nat (255 AND (push_bit 2 (rev_at ?str i) OR drop_bit 4 (rev_at ?str (i + 1))))]
                  else arr)
      in Inr (if ?p = 1
              then (let s = push_bit 10 (rev_at ?str i) OR push_bit 4 (rev_at ?str (i + 1)) OR
                            drop_bit 2 (rev_at ?str (i + 2))
                    in arr1[l := of_nat (drop_bit 8 s AND 255), l + 1 := of_nat (255 AND s)])
              else arr1))"
    unfolding toByteArray_def getLens_ref by (simp add: lens_ref g Let_def)
  have arr: "drop (length pre) ?arr = replicate (length post) 0" using bs by simp
  have d: "drop (length (base64_data pre)) ?str = base64_data post @ replicate ?p equals_sign" by (simp add: str)
  from p show ?thesis
  proof (elim disjE conjE exE)
    assume "post = []" "?p = 0"
    then show ?thesis unfolding u arr using bs by simp
  next
    fix a assume a: "post = [a]" "?p = 2"
    have r: "rev_at ?str (length (base64_data pre) + k) = sextets (65536 * unat a) ! k" if "k < 2" for k
      using rev_at_code [of _ ?str "take 2 (sextets (65536 * unat a))" _ k] d a(1) that sextets_less [of k]
      by (simp add: sextets_length)
    show ?thesis
      unfolding u arr a(2) Let_def using tail_one [of ?str "length (base64_data pre)" a] r [of 0] r [of 1] bs a(1)
      by simp
  next
    fix a b assume a: "post = [a, b]" "?p = 1"
    let ?t = "65536 * unat a + 256 * unat b"
    have r: "rev_at ?str (length (base64_data pre) + k) = sextets ?t ! k" if "k < 3" for k
      using rev_at_code [of _ ?str "take 3 (sextets ?t)" _ k] d a(1) that sextets_less [of k]
      by (simp add: sextets_length)
    have s: "push_bit 10 (rev_at ?str (length (base64_data pre))) OR
        push_bit 4 (rev_at ?str (length (base64_data pre) + 1)) OR
        drop_bit 2 (rev_at ?str (length (base64_data pre) + 2)) = 256 * unat a + unat b"
      using tail_two [of ?str "length (base64_data pre)" a b] r [of 0] r [of 1] r [of 2] by simp
    have "of_nat (drop_bit 8 (256 * unat a + unat b) AND 255) = a" "of_nat (255 AND (256 * unat a + unat b)) = b"
      using byte_lt [of a]
      by (simp_all only: byte_ops and_lows(9) mult.commute [of 256] mult_256 byte_lt mod_less) simp_all
    then show ?thesis unfolding u arr a(2) Let_def s using bs a(1) by (simp add: list_update_append)
  qed
qed


lemma trim_data: "js_trim (base64_data bs) = base64_data bs"
proof -
  have "dropWhile js_space s = s" if "set s \<subseteq> set code_alphabet" for s
    using that alphabet_unit by (cases s) auto
  from this [OF base64_data_in] this [of "rev (base64_data bs)"] base64_data_in show ?thesis
    by (simp add: js_trim_def)
qed

lemma pad_data: "n \<le> padding bs \<Longrightarrow>
   pad_base64 (base64_data bs @ replicate n equals_sign) = base64_ref bs"
proof (induction "padding bs - n" arbitrary: n)
  case 0
  then have "n = padding bs" by simp
  then have "length (base64_data bs @ replicate n equals_sign) mod 4 = 0"
    using base64_data_length [of bs] by simp
  with \<open>n = padding bs\<close> show ?case by (subst pad_base64.simps) (simp add: base64_split)
next
  case (Suc m)
  have l: "length (base64_data bs) + padding bs = 4 * ((length bs + 2) div 3)" by (rule base64_data_length)
  have "length (base64_data bs @ replicate n equals_sign) mod 4 \<noteq> 0"
  proof
    assume "length (base64_data bs @ replicate n equals_sign) mod 4 = 0"
    then have "(padding bs - n) mod 4 = 0" using l Suc(2,3) by (simp add: mod_eq_0_iff_dvd) presburger
    then show False using padding_lt [of bs] Suc(2) by simp
  qed
  moreover have "(base64_data bs @ replicate n equals_sign) @ [equals_sign] = base64_data bs @ replicate (Suc n) equals_sign"
    by (simp add: replicate_append_same)
  ultimately show ?case using Suc by (subst pad_base64.simps) (simp del: replicate.simps)
qed

lemma js_trim_nil: "js_trim [] = []"
  by (simp add: js_trim_def)

lemma padding_nil: "padding [] = 0"
  by (simp add: padding_def)

lemma base64clean_ref: "base64clean (base64_ref bs) = base64_ref bs"
proof -
  have "filter base64_unit (base64_data bs) = base64_data bs"
    using base64_data_in alphabet_unit by (intro filter_True) blast
  moreover have "length (base64_data bs) < 2 \<longleftrightarrow> bs = []"
    by (cases bs rule: base64_data.cases) (simp_all add: code_chars_def sextets_def)
  ultimately show ?thesis
    using pad_data [of 0 bs] base64_split [of bs]
    by (cases "bs = []") (auto simp: base64clean_def base64_split takeWhile_data trim_data Let_def js_trim_nil padding_nil)
qed

subsection \<open>Properties\<close>

text \<open>C2: the chunked encoder of the bundle computes RFC 4648 base64: for every input, whatever
  its length and however many chunks it is cut into, it is the three-bytes-at-a-time encoding.\<close>

theorem base64_reference: "fromByteArray buf = base64_ref buf"
  by (rule fromByteArray_ref)

text \<open>C1: decoding inverts encoding. \<open>toByteArray\<close>, and \<open>base64ToBytes\<close> with its cleaning and
  re-padding in front, give back every byte sequence, \<open>byteLength\<close> says its length, and a text
  whose length is no multiple of four is refused.\<close>

theorem base64_roundtrip:
  "toByteArray (fromByteArray buf) = Inr buf \<and> base64ToBytes (fromByteArray buf) = Inr buf \<and>
   base64_byteLength (fromByteArray buf) = Inr (int (length buf)) \<and>
   (toByteArray str = Inl InvalidLength \<longleftrightarrow> length str mod 4 \<noteq> 0)"
proof (intro conjI)
  show "base64_byteLength (fromByteArray buf) = Inr (int (length buf))"
    by (simp add: base64_byteLength_def fromByteArray_ref getLens_ref lens_ref)
  show "toByteArray str = Inl InvalidLength \<longleftrightarrow> length str mod 4 \<noteq> 0"
    by (cases "length str mod 4 = 0") (auto simp: toByteArray_def getLens_def Let_def split: prod.splits)
qed (simp_all add: fromByteArray_ref toByteArray_ref base64ToBytes_def base64clean_ref)

text \<open>The \<open>btoa\<close> of the UI loses nothing. For every string with paired surrogates whose
  UTF-8 form has at most \<open>2 ^ 31 - 1\<close> bytes, the buffer made of it holds exactly its UTF-8 form,
  and decoding the base64 text of \<open>btoa\<close> as UTF-8 gives the string back.\<close>

theorem btoa_roundtrip:
  assumes "scalars str = Some ps" and "length (concat (map utf8_bytes ps)) \<le> 2147483647"
  shows "fromString str = Inr (map of_nat (concat (map utf8_bytes ps))) \<and>
    (\<exists>t buf. utils_btoa str = Inr t \<and> base64ToBytes t = Inr buf \<and> buffer_toString buf = str)"
proof -
  obtain buf :: "byte list" where buf: "buf = map of_nat (concat (map utf8_bytes ps))" by simp
  have f: "fromString str = Inr buf" unfolding buf by (rule fromString_scalars [OF assms])
  have "utf8Slice buf 0 (length buf) = str" using utf8_roundtrip [OF assms(1)] by (simp add: buf)
  then have s: "buffer_toString buf = str"
    by (auto simp: buffer_toString_def utf8Slice_def decodeCodePointsArray_eq fromCharCode_def)
  have "base64ToBytes (if buf = [] then [] else base64Slice buf 0 (length buf)) = Inr buf"
    using base64clean_ref [of buf] toByteArray_ref [of buf]
    by (cases "buf = []") (simp_all add: base64Slice_def fromByteArray_ref base64ToBytes_def)
  with f s show ?thesis unfolding buf [symmetric] by (simp add: utils_btoa_def)
qed


theorem btoa_roundtrip_witness:
  "\<exists>t buf. utils_btoa [0x41, 0xD83D, 0xDE00] = Inr t \<and> base64ToBytes t = Inr buf \<and>
     buffer_toString buf = [0x41, 0xD83D, 0xDE00]"
  using btoa_roundtrip [of "[0x41, 0xD83D, 0xDE00]" "[0x41, 0x1F600]"] by (simp add: utf8_bytes_def)

end
