(* ===== verification/UserRepo.thy ===== *)
theory UserRepo
  imports Identity "HOL-Library.List_Lexorder" "HOL-Library.Char_ord"
begin

text \<open>
  Web accounts (\<open>internal/user/model.go\<close>, \<open>repository.go\<close>): the account, its roles and learning
  settings, and every method of the repository over the tables of migrations \<open>000001\<close>,
  \<open>000004\<close>, \<open>000006\<close>, \<open>000008\<close> and \<open>000014\<close>. The server checks \<open>CHECK\<close> constraints in the
  order of their names, then the unique indexes in the order of their creation (\<open>000014\<close>
  recreates the one on phones), then the foreign keys. \<open>pgl\<close> is the collation's lower-casing
  of non-ASCII text.
\<close>

subsection \<open>Model\<close>

abbreviation (input) RoleStudent :: string where "RoleStudent \<equiv> ''student''"
abbreviation (input) RoleTeacher :: string where "RoleTeacher \<equiv> ''teacher''"
abbreviation (input) UserActive :: string where "UserActive \<equiv> ''active''"
abbreviation (input) UserDisabled :: string where "UserDisabled \<equiv> ''disabled''"

definition role_valid :: "string \<Rightarrow> bool" where
  "role_valid r \<longleftrightarrow> r = RoleStudent \<or> r = RoleTeacher"

definition user_status_valid :: "string \<Rightarrow> bool" where
  "user_status_valid s \<longleftrightarrow> s = UserActive \<or> s = UserDisabled"

definition cefr_valid :: "string \<Rightarrow> bool" where
  "cefr_valid l \<longleftrightarrow> l \<in> {''A1'', ''A2'', ''B1'', ''B2'', ''C1'', ''C2''}"

definition variant_valid :: "string \<Rightarrow> bool" where
  "variant_valid v \<longleftrightarrow> v = ''BrE'' \<or> v = ''AmE''"

record user =
  us_id :: uuid
  us_phone :: string
  us_email :: string
  us_hash :: string
  us_name :: string
  us_avatar :: string
  us_status :: string
  us_roles :: "string list"
  us_last :: string
  us_created :: time
  us_updated :: time

record learning_settings =
  ls_level :: string
  ls_variant :: string

abbreviation (input) user_ErrNotFound :: goerr where "user_ErrNotFound \<equiv> Sentinel ''user.ErrNotFound''"
abbreviation (input) user_ErrEmailTaken :: goerr where "user_ErrEmailTaken \<equiv> Sentinel ''user.ErrEmailTaken''"
abbreviation (input) user_ErrPhoneTaken :: goerr where "user_ErrPhoneTaken \<equiv> Sentinel ''user.ErrPhoneTaken''"
abbreviation (input) ErrRoleTaken :: goerr where "ErrRoleTaken \<equiv> Sentinel ''user.ErrRoleTaken''"
abbreviation (input) ErrNoStudentProfile :: goerr where
  "ErrNoStudentProfile \<equiv> Sentinel ''user.ErrNoStudentProfile''"
abbreviation (input) ErrInvalidContact :: goerr where "ErrInvalidContact \<equiv> Sentinel ''user.ErrInvalidContact''"

abbreviation (input) ContactChannelPhone :: string where "ContactChannelPhone \<equiv> ''phone''"
abbreviation (input) ContactChannelEmail :: string where "ContactChannelEmail \<equiv> ''email''"

subsection \<open>Statements\<close>

definition same_email :: "(string \<Rightarrow> string) \<Rightarrow> string option \<Rightarrow> user_row \<Rightarrow> bool" where
  "same_email pgl e r \<longleftrightarrow> (\<exists>x \<in> set_option e. \<exists>y \<in> set_option (ur_email r). ToLower pgl x = ToLower pgl y)"

definition same_phone :: "string option \<Rightarrow> user_row \<Rightarrow> bool" where
  "same_phone p r \<longleftrightarrow> p \<noteq> None \<and> ur_phone r = p"

text \<open>\<open>INSERT INTO users ... RETURNING created_at, updated_at\<close>; the other columns take their
  defaults.\<close>

definition sql_user_insert ::
  "(string \<Rightarrow> string) \<Rightarrow> user \<Rightarrow> string \<Rightarrow> time \<Rightarrow> id_db \<Rightarrow> sqlerr + (time \<times> time) \<times> id_db" where
  "sql_user_insert pgl u role now d =
     (let r = \<lparr>ur_id = us_id u, ur_phone = nullable (us_phone u), ur_email = nullable (us_email u),
               ur_hash = us_hash u, ur_name = us_name u, ur_avatar = [], ur_status = UserActive,
               ur_last_role = Some role, ur_created = now, ur_updated = now\<rparr> in
      if \<not> role_valid role then Inl (CheckViolation ''users_last_active_role_check'')
      else if ur_phone r = None \<and> ur_email r = None then Inl (CheckViolation ''users_phone_or_email_present'')
      else if ur_id r \<in> set (map ur_id (users d)) then Inl (UniqueViolation ''users_pkey'')
      else if list_ex (same_email pgl (ur_email r)) (users d) then Inl (UniqueViolation ''users_email_unique'')
      else if list_ex (same_phone (ur_phone r)) (users d) then Inl (UniqueViolation ''users_phone_unique'')
      else Inr ((now, now), d\<lparr>users := users d @ [r]\<rparr>))"

definition sql_role_insert :: "uuid \<Rightarrow> string \<Rightarrow> id_db \<Rightarrow> sqlerr + unit \<times> id_db" where
  "sql_role_insert i role d =
     (if \<not> role_valid role then Inl (CheckViolation ''user_roles_role_check'')
      else if (i, role) \<in> set (user_roles d) then Inl (UniqueViolation ''user_roles_pkey'')
      else if i \<notin> set (map ur_id (users d)) then Inl (ForeignKeyViolation ''user_roles_user_id_fkey'')
      else Inr ((), d\<lparr>user_roles := user_roles d @ [(i, role)]\<rparr>))"

definition sql_student_insert :: "uuid \<Rightarrow> id_db \<Rightarrow> sqlerr + unit \<times> id_db" where
  "sql_student_insert i d =
     (if i \<in> set (map sp_user (student_profiles d)) then Inl (UniqueViolation ''student_profiles_pkey'')
      else if i \<notin> set (map ur_id (users d)) then Inl (ForeignKeyViolation ''student_profiles_user_id_fkey'')
      else Inr ((), d\<lparr>student_profiles := student_profiles d @
        [\<lparr>sp_user = i, sp_level = None, sp_variant = None\<rparr>]\<rparr>))"

definition sql_teacher_insert :: "uuid \<Rightarrow> id_db \<Rightarrow> sqlerr + unit \<times> id_db" where
  "sql_teacher_insert i d =
     (if i \<in> set (teacher_profiles d) then Inl (UniqueViolation ''teacher_profiles_pkey'')
      else if i \<notin> set (map ur_id (users d)) then Inl (ForeignKeyViolation ''teacher_profiles_user_id_fkey'')
      else Inr ((), d\<lparr>teacher_profiles := teacher_profiles d @ [i]\<rparr>))"

text \<open>\<open>UPDATE users SET ... WHERE id = $1\<close>: the column's check fails only when a row is updated;
  the result is the number of rows affected.\<close>

definition upd_user :: "(user_row \<Rightarrow> user_row) \<Rightarrow> uuid \<Rightarrow> id_db \<Rightarrow> id_db" where
  "upd_user f i d = d\<lparr>users := map (\<lambda>r. if ur_id r = i then f r else r) (users d)\<rparr>"

definition user_count :: "uuid \<Rightarrow> id_db \<Rightarrow> nat" where
  "user_count i d = length (filter (\<lambda>r. ur_id r = i) (users d))"

definition sql_user_update ::
  "sqlerr option \<Rightarrow> (user_row \<Rightarrow> user_row) \<Rightarrow> uuid \<Rightarrow> time \<Rightarrow> id_db \<Rightarrow> sqlerr + nat \<times> id_db" where
  "sql_user_update chk f i now d =
     (if user_count i d = 0 then Inr (0, d)
      else case chk of
        Some e \<Rightarrow> Inl e
      | None \<Rightarrow> Inr (user_count i d, upd_user (\<lambda>r. (f r)\<lparr>ur_updated := now\<rparr>) i d))"

definition sql_user_contact ::
  "(string \<Rightarrow> string) \<Rightarrow> uuid \<Rightarrow> string \<Rightarrow> string \<Rightarrow> time \<Rightarrow> id_db \<Rightarrow> sqlerr + nat \<times> id_db" where
  "sql_user_contact pgl i channel v now d =
     (let others = filter (\<lambda>r. ur_id r \<noteq> i) (users d) in
      if channel = ContactChannelEmail then
        sql_user_update (if list_ex (same_email pgl (Some v)) others
            then Some (UniqueViolation ''users_email_unique'') else None)
          (\<lambda>r. r\<lparr>ur_email := Some v\<rparr>) i now d
      else
        sql_user_update (if list_ex (same_phone (Some v)) others
            then Some (UniqueViolation ''users_phone_unique'') else None)
          (\<lambda>r. r\<lparr>ur_phone := Some v\<rparr>) i now d)"

text \<open>\<open>DELETE FROM users\<close> with the cascades of the four tables that reference it.\<close>

definition sql_user_delete :: "uuid \<Rightarrow> id_db \<Rightarrow> sqlerr + nat \<times> id_db" where
  "sql_user_delete i d = Inr (user_count i d,
     d\<lparr>users := filter (\<lambda>r. ur_id r \<noteq> i) (users d),
       user_roles := filter (\<lambda>(j, _). j \<noteq> i) (user_roles d),
       student_profiles := filter (\<lambda>p. sp_user p \<noteq> i) (student_profiles d),
       teacher_profiles := filter (\<lambda>j. j \<noteq> i) (teacher_profiles d),
       refresh_tokens := filter (\<lambda>t. t_user t \<noteq> i) (refresh_tokens d)\<rparr>)"

definition sql_settings_update ::
  "uuid \<Rightarrow> learning_settings \<Rightarrow> id_db \<Rightarrow> sqlerr + nat \<times> id_db" where
  "sql_settings_update i ls d =
     (let n = length (filter (\<lambda>p. sp_user p = i) (student_profiles d)) in
      if n = 0 then Inr (0, d)
      else if \<not> cefr_valid (ls_level ls) then Inl (CheckViolation ''student_profiles_cefr_level_check'')
      else if \<not> variant_valid (ls_variant ls) then Inl (CheckViolation ''student_profiles_english_variant_check'')
      else Inr (n, d\<lparr>student_profiles := map (\<lambda>p. if sp_user p = i
             then p\<lparr>sp_level := Some (ls_level ls), sp_variant := Some (ls_variant ls)\<rparr> else p)
           (student_profiles d)\<rparr>))"

definition sql_user_where :: "(user_row \<Rightarrow> bool) \<Rightarrow> id_db \<Rightarrow> sqlerr + user_row" where
  "sql_user_where P d = (case find P (users d) of None \<Rightarrow> Inl NoRows | Some r \<Rightarrow> Inr r)"

definition sql_roles :: "uuid \<Rightarrow> id_db \<Rightarrow> string list" where
  "sql_roles i d = sort (map snd (filter (\<lambda>(j, _). j = i) (user_roles d)))"

definition sql_settings :: "uuid \<Rightarrow> id_db \<Rightarrow> sqlerr + string option \<times> string option" where
  "sql_settings i d =
     (case find (\<lambda>p. sp_user p = i) (student_profiles d) of
        None \<Rightarrow> Inl NoRows | Some p \<Rightarrow> Inr (sp_level p, sp_variant p))"

subsection \<open>Create and AddRole\<close>

definition addRoleTx ::
  "uuid \<Rightarrow> string \<Rightarrow> (id_db, 'z) pgs_scheme \<Rightarrow> (goerr + unit) \<times> (id_db, 'z) pgs_scheme" where
  "addRoleTx i role w =
     (case pg_stmt (sql_role_insert i role) w of
        (Inl e, w1) \<Rightarrow>
          (if unique_violation (PgErr e) \<noteq> None then (Inl ErrRoleTaken, w1)
           else (Inl (Wrapped ''insert role'' (PgErr e)), w1))
      | (Inr _, w1) \<Rightarrow>
          (if role = RoleStudent then wrap_err ''insert role profile'' (pg_stmt (sql_student_insert i) w1)
           else if role = RoleTeacher then wrap_err ''insert role profile'' (pg_stmt (sql_teacher_insert i) w1)
           else (Inl (Plain ''unknown role''), w1)))"

definition create_body ::
  "(string \<Rightarrow> string) \<Rightarrow> user \<Rightarrow> string \<Rightarrow> (id_db, 'z) pgs_scheme
    \<Rightarrow> (goerr + time \<times> time) \<times> (id_db, 'z) pgs_scheme" where
  "create_body pgl u role w =
     (case pg_stmt (sql_user_insert pgl u role (pg_now w)) w of
        (Inl e, w1) \<Rightarrow>
          (case unique_violation (PgErr e) of
             Some c \<Rightarrow> (Inl (if contains_sub c ''phone'' then user_ErrPhoneTaken else user_ErrEmailTaken), w1)
           | None \<Rightarrow> (Inl (Wrapped ''insert user'' (PgErr e)), w1))
      | (Inr at, w1) \<Rightarrow>
          (case addRoleTx (us_id u) role w1 of
             (Inl e, w2) \<Rightarrow> (Inl e, w2)
           | (Inr _, w2) \<Rightarrow> (Inr at, w2)))"

text \<open>The user the method was given, with what it writes back.\<close>

definition user_create ::
  "(string \<Rightarrow> string) \<Rightarrow> user \<Rightarrow> string \<Rightarrow> (id_db, 'z) pgs_scheme
    \<Rightarrow> (goerr + user) \<times> (id_db, 'z) pgs_scheme" where
  "user_create pgl u role w =
     (case pg_tx (Wrapped ''begin tx'' (PgErr ConnLost)) (Wrapped ''commit tx'' (PgErr ConnLost))
             (create_body pgl u role) w of
        (Inl e, w1) \<Rightarrow> (Inl e, w1)
      | (Inr (c, m), w1) \<Rightarrow>
          (Inr (u\<lparr>us_roles := [role], us_last := role, us_created := c, us_updated := m\<rparr>), w1))"

definition user_addRole ::
  "uuid \<Rightarrow> string \<Rightarrow> (id_db, 'z) pgs_scheme \<Rightarrow> (goerr + unit) \<times> (id_db, 'z) pgs_scheme" where
  "user_addRole i role w =
     pg_tx (Wrapped ''begin tx'' (PgErr ConnLost)) (Wrapped ''commit tx'' (PgErr ConnLost)) (addRoleTx i role) w"

subsection \<open>Updates\<close>

definition user_setActiveRole ::
  "uuid \<Rightarrow> string \<Rightarrow> (id_db, 'z) pgs_scheme \<Rightarrow> (goerr + unit) \<times> (id_db, 'z) pgs_scheme" where
  "user_setActiveRole i role w =
     (case pg_stmt (sql_user_update
             (if role_valid role then None else Some (CheckViolation ''users_last_active_role_check''))
             (\<lambda>r. r\<lparr>ur_last_role := Some role\<rparr>) i (pg_now w)) w of
        (Inl e, w1) \<Rightarrow> (Inl (Wrapped ''set active role'' (PgErr e)), w1)
      | (Inr _, w1) \<Rightarrow> (Inr (), w1))"

definition user_setStatus ::
  "uuid \<Rightarrow> string \<Rightarrow> (id_db, 'z) pgs_scheme \<Rightarrow> (goerr + unit) \<times> (id_db, 'z) pgs_scheme" where
  "user_setStatus i s w =
     (case pg_stmt (sql_user_update
             (if user_status_valid s then None else Some (CheckViolation ''users_status_check''))
             (\<lambda>r. r\<lparr>ur_status := s\<rparr>) i (pg_now w)) w of
        (Inl e, w1) \<Rightarrow> (Inl (Wrapped ''set status'' (PgErr e)), w1)
      | (Inr _, w1) \<Rightarrow> (Inr (), w1))"

text \<open>The common tail of the four methods that report a missing row.\<close>

definition must_affect :: "string \<Rightarrow> goerr \<Rightarrow> (sqlerr + nat) \<times> 's \<Rightarrow> (goerr + unit) \<times> 's" where
  "must_affect c missing rw =
     (case rw of
        (Inl e, w1) \<Rightarrow> (Inl (Wrapped c (PgErr e)), w1)
      | (Inr n, w1) \<Rightarrow> (if n = 0 then (Inl missing, w1) else (Inr (), w1)))"

definition user_setPassword ::
  "uuid \<Rightarrow> string \<Rightarrow> (id_db, 'z) pgs_scheme \<Rightarrow> (goerr + unit) \<times> (id_db, 'z) pgs_scheme" where
  "user_setPassword i h w = must_affect ''set password'' user_ErrNotFound
     (pg_stmt (sql_user_update None (\<lambda>r. r\<lparr>ur_hash := h\<rparr>) i (pg_now w)) w)"

definition user_setDisplayName ::
  "uuid \<Rightarrow> string \<Rightarrow> (id_db, 'z) pgs_scheme \<Rightarrow> (goerr + unit) \<times> (id_db, 'z) pgs_scheme" where
  "user_setDisplayName i n w = must_affect ''set display name'' user_ErrNotFound
     (pg_stmt (sql_user_update None (\<lambda>r. r\<lparr>ur_name := n\<rparr>) i (pg_now w)) w)"

definition user_setContact ::
  "(string \<Rightarrow> string) \<Rightarrow> uuid \<Rightarrow> string \<Rightarrow> string \<Rightarrow> (id_db, 'z) pgs_scheme
    \<Rightarrow> (goerr + unit) \<times> (id_db, 'z) pgs_scheme" where
  "user_setContact pgl i channel v w =
     (if channel \<noteq> ContactChannelEmail \<and> channel \<noteq> ContactChannelPhone then (Inl ErrInvalidContact, w)
      else case pg_stmt (sql_user_contact pgl i channel v (pg_now w)) w of
        (Inl e, w1) \<Rightarrow>
          (if unique_violation (PgErr e) \<noteq> None
           then (Inl (if channel = ContactChannelEmail then user_ErrEmailTaken else user_ErrPhoneTaken), w1)
           else (Inl (Wrapped ''set contact'' (PgErr e)), w1))
      | (Inr n, w1) \<Rightarrow> (if n = 0 then (Inl user_ErrNotFound, w1) else (Inr (), w1)))"

definition user_delete ::
  "uuid \<Rightarrow> (id_db, 'z) pgs_scheme \<Rightarrow> (goerr + unit) \<times> (id_db, 'z) pgs_scheme" where
  "user_delete i w = must_affect ''delete user'' user_ErrNotFound (pg_stmt (sql_user_delete i) w)"

subsection \<open>Lookups\<close>

definition user_hasRole ::
  "uuid \<Rightarrow> string \<Rightarrow> (id_db, 'z) pgs_scheme \<Rightarrow> (goerr + bool) \<times> (id_db, 'z) pgs_scheme" where
  "user_hasRole i role w =
     wrap_err ''check role'' (pg_query (\<lambda>d. Inr ((i, role) \<in> set (user_roles d))) w)"

definition loadRoles ::
  "uuid \<Rightarrow> (id_db, 'z) pgs_scheme \<Rightarrow> (goerr + string list) \<times> (id_db, 'z) pgs_scheme" where
  "loadRoles i w = wrap_err ''query roles'' (pg_query (\<lambda>d. Inr (sql_roles i d)) w)"

definition scanUser :: "user_row \<Rightarrow> string list \<Rightarrow> user" where
  "scanUser r roles = \<lparr>us_id = ur_id r, us_phone = opt_string (ur_phone r), us_email = opt_string (ur_email r),
     us_hash = ur_hash r, us_name = ur_name r, us_avatar = ur_avatar r, us_status = ur_status r,
     us_roles = roles, us_last = opt_string (ur_last_role r), us_created = ur_created r,
     us_updated = ur_updated r\<rparr>"

definition user_getOne ::
  "(user_row \<Rightarrow> bool) \<Rightarrow> (id_db, 'z) pgs_scheme \<Rightarrow> (goerr + user) \<times> (id_db, 'z) pgs_scheme" where
  "user_getOne P w =
     (case pg_query (sql_user_where P) w of
        (Inl e, w1) \<Rightarrow>
          (if e = NoRows then (Inl user_ErrNotFound, w1)
           else (Inl (Wrapped ''query user'' (PgErr e)), w1))
      | (Inr r, w1) \<Rightarrow>
          (case loadRoles (ur_id r) w1 of
             (Inl e, w2) \<Rightarrow> (Inl e, w2)
           | (Inr roles, w2) \<Rightarrow> (Inr (scanUser r roles), w2)))"

definition user_getByEmail ::
  "(string \<Rightarrow> string) \<Rightarrow> string \<Rightarrow> (id_db, 'z) pgs_scheme \<Rightarrow> (goerr + user) \<times> (id_db, 'z) pgs_scheme" where
  "user_getByEmail pgl email = user_getOne (same_email pgl (Some email))"

definition user_getByPhone ::
  "string \<Rightarrow> (id_db, 'z) pgs_scheme \<Rightarrow> (goerr + user) \<times> (id_db, 'z) pgs_scheme" where
  "user_getByPhone phone = user_getOne (same_phone (Some phone))"

definition user_getByID ::
  "uuid \<Rightarrow> (id_db, 'z) pgs_scheme \<Rightarrow> (goerr + user) \<times> (id_db, 'z) pgs_scheme" where
  "user_getByID i = user_getOne (\<lambda>r. ur_id r = i)"

subsection \<open>Learning settings\<close>

definition user_getSettings ::
  "uuid \<Rightarrow> (id_db, 'z) pgs_scheme \<Rightarrow> (goerr + learning_settings option) \<times> (id_db, 'z) pgs_scheme" where
  "user_getSettings i w =
     (case pg_query (sql_settings i) w of
        (Inl e, w1) \<Rightarrow>
          (if e = NoRows then (Inr None, w1)
           else (Inl (Wrapped ''query learning settings'' (PgErr e)), w1))
      | (Inr (level, variant), w1) \<Rightarrow>
          (case (level, variant) of
             (Some l, Some v) \<Rightarrow> (Inr (Some \<lparr>ls_level = l, ls_variant = v\<rparr>), w1)
           | _ \<Rightarrow> (Inr None, w1)))"

definition user_setSettings ::
  "uuid \<Rightarrow> learning_settings \<Rightarrow> (id_db, 'z) pgs_scheme \<Rightarrow> (goerr + unit) \<times> (id_db, 'z) pgs_scheme" where
  "user_setSettings i ls w = must_affect ''update learning settings'' ErrNoStudentProfile
     (pg_stmt (sql_settings_update i ls) w)"

end
