(* ===== verification/UserSpec.thy ===== *)
theory UserSpec
  imports UserRepo
begin

text \<open>
  What an account is, apart from tables: a finite set of accounts by id, each with its
  identifiers, roles and learning settings. \<open>abs_user\<close> reads this view off the five tables,
  \<open>spec_exec\<close> says what each command of the repository does to it, and \<open>user_repo_refines\<close> shows
  that the repository does that, errors included.
\<close>

subsection \<open>The specification\<close>

record acct =
  ac_phone :: "string option"
  ac_email :: "string option"
  ac_hash :: string
  ac_name :: string
  ac_avatar :: string
  ac_status :: string
  ac_roles :: "string set"
  ac_last :: "string option"
  ac_settings :: "(string \<times> string) option"

type_synonym accts = "uuid \<rightharpoonup> acct"

definition has_phone :: "string option \<Rightarrow> acct \<Rightarrow> bool" where
  "has_phone p a \<longleftrightarrow> p \<noteq> None \<and> ac_phone a = p"

definition has_email :: "(string \<Rightarrow> string) \<Rightarrow> string option \<Rightarrow> acct \<Rightarrow> bool" where
  "has_email pgl e a \<longleftrightarrow> (\<exists>x \<in> set_option e. \<exists>y \<in> set_option (ac_email a). ToLower pgl x = ToLower pgl y)"

datatype user_cmd =
    CCreate user string
  | CAddRole uuid string
  | CSetActiveRole uuid string
  | CSetStatus uuid string
  | CSetPassword uuid string
  | CSetDisplayName uuid string
  | CSetContact uuid string string
  | CDelete uuid
  | CSetSettings uuid learning_settings

definition check_err :: "string \<Rightarrow> string \<Rightarrow> goerr" where
  "check_err c k = Wrapped c (PgErr (CheckViolation k))"

definition spec_update :: "goerr + accts \<Rightarrow> goerr option \<Rightarrow> (acct \<Rightarrow> acct) \<Rightarrow> uuid \<Rightarrow> accts \<Rightarrow> goerr + accts" where
  "spec_update missing err f i m =
     (case m i of None \<Rightarrow> missing | Some a \<Rightarrow> (case err of Some e \<Rightarrow> Inl e | None \<Rightarrow> Inr (m(i \<mapsto> f a))))"

fun spec_exec :: "(string \<Rightarrow> string) \<Rightarrow> user_cmd \<Rightarrow> accts \<Rightarrow> goerr + accts" where
  "spec_exec pgl (CCreate u role) m =
     (if \<not> role_valid role then Inl (check_err ''insert user'' ''users_last_active_role_check'')
      else if us_phone u = [] \<and> us_email u = [] then Inl (check_err ''insert user'' ''users_phone_or_email_present'')
      else if us_id u \<in> dom m then Inl user_ErrEmailTaken
      else if \<exists>a \<in> ran m. has_email pgl (nullable (us_email u)) a then Inl user_ErrEmailTaken
      else if \<exists>a \<in> ran m. has_phone (nullable (us_phone u)) a then Inl user_ErrPhoneTaken
      else Inr (m(us_id u \<mapsto> \<lparr>ac_phone = nullable (us_phone u), ac_email = nullable (us_email u),
        ac_hash = us_hash u, ac_name = us_name u, ac_avatar = [], ac_status = UserActive,
        ac_roles = {role}, ac_last = Some role, ac_settings = None\<rparr>)))"
| "spec_exec pgl (CAddRole i role) m =
     (if \<not> role_valid role then Inl (check_err ''insert role'' ''user_roles_role_check'')
      else case m i of
        None \<Rightarrow> Inl (Wrapped ''insert role'' (PgErr (ForeignKeyViolation ''user_roles_user_id_fkey'')))
      | Some a \<Rightarrow>
          (if role \<in> ac_roles a then Inl ErrRoleTaken
           else Inr (m(i \<mapsto> a\<lparr>ac_roles := insert role (ac_roles a)\<rparr>))))"
| "spec_exec pgl (CSetActiveRole i role) m =
     spec_update (Inr m) (if role_valid role then None
       else Some (check_err ''set active role'' ''users_last_active_role_check'')) (ac_last_update (\<lambda>_. Some role)) i m"
| "spec_exec pgl (CSetStatus i s) m =
     spec_update (Inr m) (if user_status_valid s then None
       else Some (check_err ''set status'' ''users_status_check'')) (ac_status_update (\<lambda>_. s)) i m"
| "spec_exec pgl (CSetPassword i h) m =
     spec_update (Inl user_ErrNotFound) None (ac_hash_update (\<lambda>_. h)) i m"
| "spec_exec pgl (CSetDisplayName i n) m =
     spec_update (Inl user_ErrNotFound) None (ac_name_update (\<lambda>_. n)) i m"
| "spec_exec pgl (CSetContact i channel v) m =
     (if channel = ContactChannelEmail then
        spec_update (Inl user_ErrNotFound)
          (if \<exists>j a. j \<noteq> i \<and> m j = Some a \<and> has_email pgl (Some v) a then Some user_ErrEmailTaken else None)
          (ac_email_update (\<lambda>_. Some v)) i m
      else if channel = ContactChannelPhone then
        spec_update (Inl user_ErrNotFound)
          (if \<exists>j a. j \<noteq> i \<and> m j = Some a \<and> has_phone (Some v) a then Some user_ErrPhoneTaken else None)
          (ac_phone_update (\<lambda>_. Some v)) i m
      else Inl ErrInvalidContact)"
| "spec_exec pgl (CDelete i) m = (if i \<in> dom m then Inr (m(i := None)) else Inl user_ErrNotFound)"
| "spec_exec pgl (CSetSettings i ls) m =
     (case m i of
        None \<Rightarrow> Inl ErrNoStudentProfile
      | Some a \<Rightarrow>
          (if RoleStudent \<notin> ac_roles a then Inl ErrNoStudentProfile
           else if \<not> cefr_valid (ls_level ls)
             then Inl (check_err ''update learning settings'' ''student_profiles_cefr_level_check'')
           else if \<not> variant_valid (ls_variant ls)
             then Inl (check_err ''update learning settings'' ''student_profiles_english_variant_check'')
           else Inr (m(i \<mapsto> a\<lparr>ac_settings := Some (ls_level ls, ls_variant ls)\<rparr>))))"

subsection \<open>The tables\<close>

definition roles_of :: "id_db \<Rightarrow> uuid \<Rightarrow> string set" where
  "roles_of d i = {r. (i, r) \<in> set (user_roles d)}"

definition settings_of :: "id_db \<Rightarrow> uuid \<Rightarrow> (string \<times> string) option" where
  "settings_of d i = (case sql_settings i d of Inr (Some l, Some v) \<Rightarrow> Some (l, v) | _ \<Rightarrow> None)"

definition acct_of :: "id_db \<Rightarrow> user_row \<Rightarrow> acct" where
  "acct_of d r = \<lparr>ac_phone = ur_phone r, ac_email = ur_email r, ac_hash = ur_hash r, ac_name = ur_name r,
     ac_avatar = ur_avatar r, ac_status = ur_status r, ac_roles = roles_of d (ur_id r),
     ac_last = ur_last_role r, ac_settings = settings_of d (ur_id r)\<rparr>"

definition abs_user :: "id_db \<Rightarrow> accts" where
  "abs_user d i = map_option (acct_of d) (find (\<lambda>r. ur_id r = i) (users d))"

text \<open>The representation: unique ids, roles of existing users only, and exactly one profile per
  role held.\<close>

definition user_rep :: "id_db \<Rightarrow> bool" where
  "user_rep d \<longleftrightarrow>
     distinct (map ur_id (users d)) \<and> distinct (user_roles d) \<and>
     (\<forall>(i, r) \<in> set (user_roles d). role_valid r \<and> i \<in> ur_id ` set (users d)) \<and>
     distinct (map sp_user (student_profiles d)) \<and>
     sp_user ` set (student_profiles d) = {i. (i, RoleStudent) \<in> set (user_roles d)} \<and>
     distinct (teacher_profiles d) \<and>
     set (teacher_profiles d) = {i. (i, RoleTeacher) \<in> set (user_roles d)}"

fun repo_exec ::
  "(string \<Rightarrow> string) \<Rightarrow> user_cmd \<Rightarrow> (id_db, 'z) pgs_scheme \<Rightarrow> (goerr + unit) \<times> (id_db, 'z) pgs_scheme" where
  "repo_exec pgl (CCreate u role) w =
     (case user_create pgl u role w of (Inl e, w1) \<Rightarrow> (Inl e, w1) | (Inr _, w1) \<Rightarrow> (Inr (), w1))"
| "repo_exec pgl (CAddRole i role) w = user_addRole i role w"
| "repo_exec pgl (CSetActiveRole i role) w = user_setActiveRole i role w"
| "repo_exec pgl (CSetStatus i s) w = user_setStatus i s w"
| "repo_exec pgl (CSetPassword i h) w = user_setPassword i h w"
| "repo_exec pgl (CSetDisplayName i n) w = user_setDisplayName i n w"
| "repo_exec pgl (CSetContact i channel v) w = user_setContact pgl i channel v w"
| "repo_exec pgl (CDelete i) w = user_delete i w"
| "repo_exec pgl (CSetSettings i ls) w = user_setSettings i ls w"

text \<open>One call against the specification of its command: a success has the specified effect; a
  failure has no effect, or the specified one when only the answer was lost; and on a healthy
  connection a failure is the specified one.\<close>

definition refines_by ::
  "('s \<Rightarrow> bool) \<Rightarrow> ('s \<Rightarrow> accts) \<Rightarrow> ('s \<Rightarrow> bool) \<Rightarrow> (accts \<Rightarrow> goerr + accts) \<Rightarrow> goerr + 'a \<Rightarrow> 's \<Rightarrow> 's \<Rightarrow> bool" where
  "refines_by rep view up g r s s' \<longleftrightarrow>
     rep s' \<and>
     (case r of
        Inr _ \<Rightarrow> g (view s) = Inr (view s')
      | Inl _ \<Rightarrow> view s' = view s \<or> g (view s) = Inr (view s')) \<and>
     (up s \<longrightarrow> up s' \<and> (\<forall>e. r = Inl e \<longrightarrow> g (view s) = Inl e \<and> view s' = view s))"

abbreviation (input) refines ::
  "(accts \<Rightarrow> goerr + accts) \<Rightarrow> goerr + 'a \<Rightarrow> (id_db, 'z) pgs_scheme \<Rightarrow> (id_db, 'z) pgs_scheme \<Rightarrow> bool" where
  "refines \<equiv> refines_by (\<lambda>w. user_rep (tables w)) (\<lambda>w. abs_user (tables w)) (\<lambda>w. fates w = [])"

subsection \<open>Reading the tables\<close>

lemma find_append: "find P (xs @ ys) = (case find P xs of None \<Rightarrow> find P ys | Some x \<Rightarrow> Some x)"
  by (induction xs) auto

lemma find_upd:
  "(\<And>r. ur_id (f r) = ur_id r) \<Longrightarrow>
   find (\<lambda>r. ur_id r = j) (map (\<lambda>r. if ur_id r = i then f r else r) rs) =
     (if j = i then map_option f (find (\<lambda>r. ur_id r = j) rs) else find (\<lambda>r. ur_id r = j) rs)"
  by (induction rs) auto

lemma find_filter_other: "find (\<lambda>r. ur_id r = j) (filter (\<lambda>r. ur_id r \<noteq> i) rs) =
    (if j = i then None else find (\<lambda>r. ur_id r = j) rs)"
  by (induction rs) auto

lemma find_member:
  assumes "distinct (map ur_id rs)" and "r \<in> set rs"
  shows "find (\<lambda>x. ur_id x = ur_id r) rs = Some r"
  using assms by (induction rs) (auto intro: rev_image_eqI)

lemma abs_user_dom: "i \<in> dom (abs_user d) \<longleftrightarrow> i \<in> ur_id ` set (users d)"
  by (auto simp: abs_user_def dom_def find_None_iff image_iff dest!: find_SomeD)

lemma abs_user_None: "abs_user d i = None \<longleftrightarrow> i \<notin> ur_id ` set (users d)"
  using abs_user_dom [of i d] by (auto simp: dom_def)

lemma abs_user_Some:
  assumes "user_rep d"
  shows "abs_user d i = Some a \<longleftrightarrow> (\<exists>r \<in> set (users d). ur_id r = i \<and> a = acct_of d r)"
proof
  assume "abs_user d i = Some a"
  then show "\<exists>r \<in> set (users d). ur_id r = i \<and> a = acct_of d r"
    by (auto simp: abs_user_def dest: find_SomeD)
next
  assume "\<exists>r \<in> set (users d). ur_id r = i \<and> a = acct_of d r"
  then show "abs_user d i = Some a"
    using assms by (auto simp: abs_user_def user_rep_def find_member)
qed

lemma ran_abs_user: "user_rep d \<Longrightarrow> ran (abs_user d) = acct_of d ` set (users d)"
  by (auto simp: ran_def abs_user_Some image_iff)

lemma user_count_0: "user_count i d = 0 \<longleftrightarrow> abs_user d i = None"
  by (auto simp: user_count_def abs_user_None filter_empty_conv)

lemma has_phone_acct [simp]: "has_phone p (acct_of d r) = same_phone p r"
  by (simp add: has_phone_def same_phone_def acct_of_def)

lemma has_email_acct [simp]: "has_email pgl e (acct_of d r) = same_email pgl e r"
  by (simp add: has_email_def same_email_def acct_of_def)

end
