(* ===== verification/UserRefine.thy ===== *)
theory UserRefine
  imports UserSpec
begin

text \<open>
  The repository against the specification of \<open>UserSpec\<close>: the effect of every statement on the
  view, the lift to a call with its fates, and the refinement of every command.
\<close>

subsection \<open>Statements\<close>

lemma acct_of_users [simp]: "acct_of (d\<lparr>users := us\<rparr>) r = acct_of d r"
  by (simp add: acct_of_def roles_of_def settings_of_def sql_settings_def)

lemma acct_of_users_fun [simp]: "acct_of (d\<lparr>users := us\<rparr>) = acct_of d"
  by (simp add: fun_eq_iff)

lemma user_rep_users:
  "map ur_id us = map ur_id (users d) \<Longrightarrow> user_rep (d\<lparr>users := us\<rparr>) = user_rep d"
proof -
  assume "map ur_id us = map ur_id (users d)"
  then have "ur_id ` set us = ur_id ` set (users d)" by (metis list.set_map)
  with \<open>map ur_id us = map ur_id (users d)\<close> show ?thesis by (simp add: user_rep_def)
qed

lemma upd_user_ids: "(\<And>r. ur_id (f r) = ur_id r) \<Longrightarrow> map ur_id (users (upd_user f i d)) = map ur_id (users d)"
  by (simp add: upd_user_def)

lemma abs_upd_user:
  assumes "\<And>r. ur_id (f r) = ur_id r" and "\<And>r. acct_of d (f r) = g (acct_of d r)" and "abs_user d i = Some a"
  shows "abs_user (upd_user f i d) = (abs_user d)(i \<mapsto> g a)"
proof
  fix j
  show "abs_user (upd_user f i d) j = ((abs_user d)(i \<mapsto> g a)) j"
    using assms(3) by (auto simp: abs_user_def upd_user_def find_upd [where f = f, OF assms(1)] assms(2))
qed

text \<open>An \<open>UPDATE\<close> of one account, against \<open>spec_update\<close>.\<close>

lemma update_sim:
  assumes "user_rep d" and "\<And>r. ur_id (f r) = ur_id r" and "\<And>d r. acct_of d (f r) = g (acct_of d r)"
    and "sql_user_update chk f i now d = x"
  shows "case x of
      Inl e \<Rightarrow> chk = Some e \<and> abs_user d i \<noteq> None
    | Inr (n, d') \<Rightarrow> user_rep d' \<and>
        (if n = 0 then abs_user d i = None \<and> d' = d
         else chk = None \<and> (\<exists>a. abs_user d i = Some a \<and> abs_user d' = (abs_user d)(i \<mapsto> g a)))"
proof (cases "abs_user d i")
  case None
  then have "user_count i d = 0" by (simp add: user_count_0)
  with assms(1,4) None show ?thesis by (auto simp: sql_user_update_def)
next
  case (Some a)
  then have n: "user_count i d \<noteq> 0" by (simp add: user_count_0)
  let ?f = "\<lambda>r. (f r)\<lparr>ur_updated := now\<rparr>"
  have f: "ur_id (?f r) = ur_id r" "acct_of d (?f r) = g (acct_of d r)" for r
    using assms(2) [of r] assms(3) [of d r] by (simp_all add: acct_of_def)
  have "user_rep (upd_user ?f i d)"
    using assms(1) user_rep_users [OF upd_user_ids [of ?f i d, OF f(1)]] by (simp add: upd_user_def)
  moreover have "abs_user (upd_user ?f i d) = (abs_user d)(i \<mapsto> g a)"
    by (rule abs_upd_user [OF f(1) f(2) Some])
  ultimately show ?thesis using assms(4) n Some
    by (cases chk) (auto simp: sql_user_update_def)
qed

subsection \<open>From a statement to a call\<close>

lemma stmt_refines:
  assumes "user_rep (tables w)" and "pg_stmt f w = (x, w')"
    and "\<exists>e. k (Inl ConnLost) = Inl e"
    and "\<And>e. f (tables w) = Inl e \<Longrightarrow> \<exists>e'. k (Inl e) = Inl e' \<and> g (abs_user (tables w)) = Inl e'"
    and "\<And>a d. f (tables w) = Inr (a, d) \<Longrightarrow> user_rep d \<and>
      (case k (Inr a) of Inr _ \<Rightarrow> g (abs_user (tables w)) = Inr (abs_user d)
       | Inl e \<Rightarrow> abs_user d = abs_user (tables w) \<and> g (abs_user (tables w)) = Inl e)"
  shows "refines g (k x) w w'"
proof (cases "f (tables w)")
  case (Inl e)
  with assms show ?thesis
    by (auto simp: refines_by_def pg_stmt_def next_fate_def split: fate.splits list.splits)
next
  case (Inr p)
  obtain a d where p: "p = (a, d)" by fastforce
  note s = assms(5) [OF Inr [unfolded p]]
  show ?thesis
    using assms(1-3) Inr p s
    by (auto simp: refines_by_def pg_stmt_def next_fate_def split: fate.splits list.splits sum.splits)
qed

lemma must_affect_eq: "must_affect c m (x, w) =
    (case x of Inl e \<Rightarrow> Inl (Wrapped c (PgErr e)) | Inr n \<Rightarrow> if n = 0 then Inl m else Inr (), w)"
  by (simp add: must_affect_def split: sum.splits)

lemma update_refines:
  assumes "user_rep (tables w)" and "\<And>r. ur_id (f r) = ur_id r"
    and "\<And>d r. acct_of d (f r) = h (acct_of d r)"
    and "must_affect c m (pg_stmt (sql_user_update None f i now) w) = (r, w')"
  shows "refines (spec_update (Inl m) None h i) r w w'"
proof -
  obtain x where x: "pg_stmt (sql_user_update None f i now) w = (x, w')"
    and r: "r = (case x of Inl e \<Rightarrow> Inl (Wrapped c (PgErr e)) | Inr n \<Rightarrow> if n = 0 then Inl m else Inr ())"
    using assms(4) by (cases "pg_stmt (sql_user_update None f i now) w") (auto simp: must_affect_eq)
  note s = update_sim [OF assms(1-3) refl, of None i now]
  show ?thesis unfolding r
  proof (rule stmt_refines [OF assms(1) x, where
        k = "\<lambda>x. case x of Inl e \<Rightarrow> Inl (Wrapped c (PgErr e)) | Inr n \<Rightarrow> if n = 0 then Inl m else Inr ()"])
    fix e assume "sql_user_update None f i now (tables w) = Inl e"
    with s show "\<exists>e'. (case Inl e of Inl e \<Rightarrow> Inl (Wrapped c (PgErr e)) | Inr n \<Rightarrow> if n = 0 then Inl m else Inr ()) = Inl e' \<and>
      spec_update (Inl m) None h i (abs_user (tables w)) = Inl e'" by simp
  next
    fix n d assume "sql_user_update None f i now (tables w) = Inr (n, d)"
    with s show "user_rep d \<and> (case (case Inr n of Inl e \<Rightarrow> Inl (Wrapped c (PgErr e)) | Inr n \<Rightarrow> if n = 0 then Inl m else Inr ()) of
        Inr _ \<Rightarrow> spec_update (Inl m) None h i (abs_user (tables w)) = Inr (abs_user d)
      | Inl e \<Rightarrow> abs_user d = abs_user (tables w) \<and> spec_update (Inl m) None h i (abs_user (tables w)) = Inl e)"
      by (auto simp: spec_update_def split: if_splits)
  qed simp
qed

text \<open>The two updates that do not mind a missing row.\<close>

lemma silent_update_refines:
  assumes "user_rep (tables w)" and "\<And>r. ur_id (f r) = ur_id r"
    and "\<And>d r. acct_of d (f r) = h (acct_of d r)"
    and "(case pg_stmt (sql_user_update (if b then None else Some (CheckViolation v)) f i now) w of
        (Inl e, w1) \<Rightarrow> (Inl (Wrapped c (PgErr e)), w1) | (Inr _, w1) \<Rightarrow> (Inr (), w1)) = (r, w')"
  shows "refines (\<lambda>m. spec_update (Inr m) (if b then None else Some (check_err c v)) h i m) r w w'"
proof -
  let ?f = "sql_user_update (if b then None else Some (CheckViolation v)) f i now"
  let ?k = "\<lambda>x :: sqlerr + nat. case x of Inl e \<Rightarrow> Inl (Wrapped c (PgErr e)) | Inr n \<Rightarrow> Inr ()"
  obtain x where x: "pg_stmt ?f w = (x, w')" and r: "r = ?k x"
    using assms(4) by (cases "pg_stmt ?f w") (auto split: sum.splits)
  note s = update_sim [OF assms(1-3) refl, of "if b then None else Some (CheckViolation v)" i now]
  show ?thesis unfolding r
  proof (rule stmt_refines [OF assms(1) x, where k = ?k])
    fix e assume "?f (tables w) = Inl e"
    with s show "\<exists>e'. ?k (Inl e) = Inl e' \<and> spec_update (Inr (abs_user (tables w)))
        (if b then None else Some (check_err c v)) h i (abs_user (tables w)) = Inl e'"
      by (auto simp: spec_update_def check_err_def split: if_splits)
  next
    fix n d assume "?f (tables w) = Inr (n, d)"
    with s show "user_rep d \<and> (case ?k (Inr n) of
        Inr _ \<Rightarrow> spec_update (Inr (abs_user (tables w))) (if b then None else Some (check_err c v)) h i
          (abs_user (tables w)) = Inr (abs_user d)
      | Inl e \<Rightarrow> abs_user d = abs_user (tables w) \<and> spec_update (Inr (abs_user (tables w)))
          (if b then None else Some (check_err c v)) h i (abs_user (tables w)) = Inl e)"
      by (auto simp: spec_update_def split: if_splits)
  qed simp
qed

subsection \<open>Contacts\<close>

lemma others_acct:
  "list_ex P (filter (\<lambda>r. ur_id r \<noteq> i) (users d)) \<longleftrightarrow>
    (\<exists>j. j \<noteq> i \<and> (\<exists>r \<in> set (users d). ur_id r = j \<and> P r))"
  by (auto simp: list_ex_iff)

lemma others_email:
  assumes "user_rep d"
  shows "list_ex (same_email pgl (Some v)) (filter (\<lambda>r. ur_id r \<noteq> i) (users d)) \<longleftrightarrow>
    (\<exists>j a. j \<noteq> i \<and> abs_user d j = Some a \<and> has_email pgl (Some v) a)"
  unfolding others_acct abs_user_Some [OF assms] by fastforce

lemma others_phone:
  assumes "user_rep d"
  shows "list_ex (same_phone (Some v)) (filter (\<lambda>r. ur_id r \<noteq> i) (users d)) \<longleftrightarrow>
    (\<exists>j a. j \<noteq> i \<and> abs_user d j = Some a \<and> has_phone (Some v) a)"
  unfolding others_acct abs_user_Some [OF assms] by fastforce

lemma sum_case_mono:
  assumes "case x of Inl e \<Rightarrow> A e | Inr (n, d) \<Rightarrow> B n d"
    and "\<And>e. A e \<Longrightarrow> A' e" and "\<And>n d. B n d \<Longrightarrow> B' n d"
  shows "case x of Inl e \<Rightarrow> A' e | Inr (n, d) \<Rightarrow> B' n d"
  using assms by (auto split: sum.splits)

lemma contact_sim:
  assumes "user_rep d" and "channel = ContactChannelEmail \<or> channel = ContactChannelPhone"
  shows "case sql_user_contact pgl i channel v now d of
      Inl e \<Rightarrow> (\<exists>c. e = UniqueViolation c) \<and> spec_exec pgl (CSetContact i channel v) (abs_user d) =
        Inl (if channel = ContactChannelEmail then user_ErrEmailTaken else user_ErrPhoneTaken)
    | Inr (n, d') \<Rightarrow> user_rep d' \<and>
        (if n = 0 then d' = d \<and> spec_exec pgl (CSetContact i channel v) (abs_user d) = Inl user_ErrNotFound
         else spec_exec pgl (CSetContact i channel v) (abs_user d) = Inr (abs_user d'))"
proof (cases "channel = ContactChannelEmail")
  case True
  let ?c = "if list_ex (same_email pgl (Some v)) (filter (\<lambda>r. ur_id r \<noteq> i) (users d))
       then Some (UniqueViolation ''users_email_unique'') else None"
  have a: "acct_of d (r\<lparr>ur_email := Some v\<rparr>) = ac_email_update (\<lambda>_. Some v) (acct_of d r)" for d r
    by (simp add: acct_of_def)
  have q: "sql_user_contact pgl i channel v now d = sql_user_update ?c (\<lambda>r. r\<lparr>ur_email := Some v\<rparr>) i now d"
    by (simp add: sql_user_contact_def True)
  note u = update_sim [OF assms(1) _ a refl, of ?c i now]
  have s: "spec_exec pgl (CSetContact i channel v) (abs_user d) = spec_update (Inl user_ErrNotFound)
      (map_option (\<lambda>_. user_ErrEmailTaken) ?c) (ac_email_update (\<lambda>_. Some v)) i (abs_user d)"
    by (auto simp: True others_email [OF assms(1)])
  show ?thesis unfolding q s
    by (rule sum_case_mono [OF u]) (auto simp: True spec_update_def split: if_splits)
next
  case False
  with assms(2) have ch: "channel = ContactChannelPhone" by simp
  let ?c = "if list_ex (same_phone (Some v)) (filter (\<lambda>r. ur_id r \<noteq> i) (users d))
       then Some (UniqueViolation ''users_phone_unique'') else None"
  have a: "acct_of d (r\<lparr>ur_phone := Some v\<rparr>) = ac_phone_update (\<lambda>_. Some v) (acct_of d r)" for d r
    by (simp add: acct_of_def)
  have q: "sql_user_contact pgl i channel v now d = sql_user_update ?c (\<lambda>r. r\<lparr>ur_phone := Some v\<rparr>) i now d"
    by (simp add: sql_user_contact_def ch)
  note u = update_sim [OF assms(1) _ a refl, of ?c i now]
  have s: "spec_exec pgl (CSetContact i channel v) (abs_user d) = spec_update (Inl user_ErrNotFound)
      (map_option (\<lambda>_. user_ErrPhoneTaken) ?c) (ac_phone_update (\<lambda>_. Some v)) i (abs_user d)"
    by (auto simp: ch others_phone [OF assms(1)])
  show ?thesis unfolding q s
    by (rule sum_case_mono [OF u]) (auto simp: ch spec_update_def split: if_splits)
qed

lemma setContact_refines:
  assumes "user_rep (tables w)" and "user_setContact pgl i channel v w = (r, w')"
  shows "refines (spec_exec pgl (CSetContact i channel v)) r w w'"
proof (cases "channel = ContactChannelEmail \<or> channel = ContactChannelPhone")
  case False
  with assms show ?thesis by (auto simp: user_setContact_def refines_by_def)
next
  case True
  let ?f = "sql_user_contact pgl i channel v (pg_now w)"
  let ?k = "\<lambda>x :: sqlerr + nat. case x of
      Inl e \<Rightarrow> if unique_violation (PgErr e) \<noteq> None
        then Inl (if channel = ContactChannelEmail then user_ErrEmailTaken else user_ErrPhoneTaken)
        else Inl (Wrapped ''set contact'' (PgErr e))
    | Inr n \<Rightarrow> if n = 0 then Inl user_ErrNotFound else Inr ()"
  obtain x where x: "pg_stmt ?f w = (x, w')" and r: "r = ?k x"
    using assms(2) True by (cases "pg_stmt ?f w") (auto simp: user_setContact_def split: sum.splits if_splits)
  note s = contact_sim [OF assms(1) True, of pgl i v "pg_now w"]
  show ?thesis unfolding r
  proof (rule stmt_refines [OF assms(1) x, where k = ?k])
    fix e assume "?f (tables w) = Inl e"
    with s show "\<exists>e'. ?k (Inl e) = Inl e' \<and> spec_exec pgl (CSetContact i channel v) (abs_user (tables w)) = Inl e'"
      by (auto simp del: spec_exec.simps)
  next
    fix n d assume "?f (tables w) = Inr (n, d)"
    with s show "user_rep d \<and> (case ?k (Inr n) of
        Inr _ \<Rightarrow> spec_exec pgl (CSetContact i channel v) (abs_user (tables w)) = Inr (abs_user d)
      | Inl e \<Rightarrow> abs_user d = abs_user (tables w) \<and> spec_exec pgl (CSetContact i channel v) (abs_user (tables w)) = Inl e)"
      by (simp del: spec_exec.simps split: if_splits)
  qed simp
qed

subsection \<open>Deletion\<close>

lemma find_other: "(\<And>x. P x \<Longrightarrow> Q x) \<Longrightarrow> find P (filter Q xs) = find P xs"
  by (induction xs) auto

lemma delete_sim:
  assumes "user_rep d" and "sql_user_delete i d = Inr (n, d')"
  shows "user_rep d' \<and> abs_user d' = (abs_user d)(i := None) \<and> (n = 0 \<longleftrightarrow> i \<notin> dom (abs_user d)) \<and>
    (n = 0 \<longrightarrow> abs_user d' = abs_user d)"
proof -
  have d': "d' = d\<lparr>users := filter (\<lambda>r. ur_id r \<noteq> i) (users d),
       user_roles := filter (\<lambda>(j, _). j \<noteq> i) (user_roles d),
       student_profiles := filter (\<lambda>p. sp_user p \<noteq> i) (student_profiles d),
       teacher_profiles := filter (\<lambda>j. j \<noteq> i) (teacher_profiles d),
       refresh_tokens := filter (\<lambda>t. t_user t \<noteq> i) (refresh_tokens d)\<rparr>" and n: "n = user_count i d"
    using assms(2) by (simp_all add: sql_user_delete_def)
  have "user_rep d'"
    using assms(1) unfolding user_rep_def d'
    by (auto simp: distinct_map_filter)
  moreover have "abs_user d' j = ((abs_user d)(i := None)) j" for j
  proof (cases "j = i")
    case True
    then show ?thesis by (simp add: abs_user_def d' find_filter_other)
  next
    case False
    have "find (\<lambda>p. sp_user p = j) (filter (\<lambda>p. sp_user p \<noteq> i) (student_profiles d)) =
        find (\<lambda>p. sp_user p = j) (student_profiles d)"
      by (rule find_other) (use False in simp)
    then have "acct_of d' r = acct_of d r" if "ur_id r = j" for r
      using that False by (simp add: acct_of_def d' roles_of_def settings_of_def sql_settings_def)
    with False show ?thesis
      by (cases "find (\<lambda>r. ur_id r = j) (users d)") (auto simp: abs_user_def d' find_filter_other dest: find_SomeD)
  qed
  ultimately have "user_rep d' \<and> abs_user d' = (abs_user d)(i := None)" by blast
  then show ?thesis using user_count_0 [of i d] by (auto simp: n)
qed

lemma delete_refines:
  assumes "user_rep (tables w)" and "user_delete i w = (r, w')"
  shows "refines (spec_exec pgl (CDelete i)) r w w'"
proof -
  let ?k = "\<lambda>x :: sqlerr + nat. case x of Inl e \<Rightarrow> Inl (Wrapped ''delete user'' (PgErr e))
    | Inr n \<Rightarrow> if n = 0 then Inl user_ErrNotFound else Inr ()"
  obtain x where x: "pg_stmt (sql_user_delete i) w = (x, w')" and r: "r = ?k x"
    using assms(2) by (cases "pg_stmt (sql_user_delete i) w") (auto simp: user_delete_def must_affect_eq)
  show ?thesis unfolding r
  proof (rule stmt_refines [OF assms(1) x, where k = ?k])
    fix n d assume "sql_user_delete i (tables w) = Inr (n, d)"
    from delete_sim [OF assms(1) this]
    show "user_rep d \<and> (case ?k (Inr n) of
        Inr _ \<Rightarrow> spec_exec pgl (CDelete i) (abs_user (tables w)) = Inr (abs_user d)
      | Inl e \<Rightarrow> abs_user d = abs_user (tables w) \<and> spec_exec pgl (CDelete i) (abs_user (tables w)) = Inl e)"
      by auto
  qed (simp_all add: sql_user_delete_def)
qed

subsection \<open>Learning settings\<close>

lemma abs_user_roles:
  assumes "user_rep d"
  shows "(i, ro) \<in> set (user_roles d) \<longleftrightarrow> (\<exists>a. abs_user d i = Some a \<and> ro \<in> ac_roles a)"
proof
  assume h: "(i, ro) \<in> set (user_roles d)"
  then have "i \<in> ur_id ` set (users d)" using assms by (auto simp: user_rep_def)
  then obtain a where a: "abs_user d i = Some a" using abs_user_None [of d i] by fastforce
  then have "ac_roles a = roles_of d i" by (auto simp: abs_user_Some [OF assms] acct_of_def)
  with a h show "\<exists>a. abs_user d i = Some a \<and> ro \<in> ac_roles a" by (auto simp: roles_of_def)
qed (auto simp: abs_user_Some [OF assms] acct_of_def roles_of_def)

lemma user_rep_student:
  "user_rep d \<Longrightarrow> i \<in> sp_user ` set (student_profiles d) \<longleftrightarrow>
    (\<exists>a. abs_user d i = Some a \<and> RoleStudent \<in> ac_roles a)"
  using abs_user_roles [of d i RoleStudent] by (simp add: user_rep_def)

lemma user_rep_profiles:
  assumes "map sp_user ps = map sp_user (student_profiles d)"
  shows "user_rep (d\<lparr>student_profiles := ps\<rparr>) = user_rep d"
proof -
  have "sp_user ` set ps = sp_user ` set (student_profiles d)" using assms by (metis list.set_map)
  with assms show ?thesis by (simp add: user_rep_def)
qed

lemma find_profile_upd:
  "find (\<lambda>p. sp_user p = j) (map (\<lambda>p. if sp_user p = i then p\<lparr>sp_level := l, sp_variant := v\<rparr> else p) ps) =
     (if j = i then map_option (\<lambda>p. p\<lparr>sp_level := l, sp_variant := v\<rparr>) (find (\<lambda>p. sp_user p = j) ps)
      else find (\<lambda>p. sp_user p = j) ps)"
  by (induction ps) auto

lemma find_profile_ex: "i \<in> sp_user ` set ps \<Longrightarrow> \<exists>p. find (\<lambda>p. sp_user p = i) ps = Some p"
  by (induction ps) auto

lemma settings_sim:
  assumes "user_rep d" and "i \<in> sp_user ` set (student_profiles d)" and "abs_user d i = Some a"
    and "d' = d\<lparr>student_profiles := map (\<lambda>p. if sp_user p = i
             then p\<lparr>sp_level := Some l, sp_variant := Some v\<rparr> else p) (student_profiles d)\<rparr>"
  shows "user_rep d' \<and> abs_user d' = (abs_user d)(i \<mapsto> a\<lparr>ac_settings := Some (l, v)\<rparr>)"
proof -
  have "user_rep d'" using assms(1) unfolding assms(4) by (subst user_rep_profiles) simp_all
  moreover have "abs_user d' j = ((abs_user d)(i \<mapsto> a\<lparr>ac_settings := Some (l, v)\<rparr>)) j" for j
  proof (cases "j = i")
    case True
    from find_profile_ex [OF assms(2)]
    obtain p where "find (\<lambda>p. sp_user p = i) (student_profiles d) = Some p" by blast
    then have "settings_of d' i = Some (l, v)"
      by (simp add: settings_of_def sql_settings_def assms(4) find_profile_upd)
    with True assms(3) show ?thesis
      by (auto simp: abs_user_def acct_of_def assms(4) roles_of_def dest: find_SomeD)
  next
    case False
    then have "settings_of d' j = settings_of d j"
      by (simp add: settings_of_def sql_settings_def assms(4) find_profile_upd)
    with False show ?thesis
      by (cases "find (\<lambda>r. ur_id r = j) (users d)")
        (auto simp: abs_user_def acct_of_def assms(4) roles_of_def dest: find_SomeD)
  qed
  ultimately show ?thesis by blast
qed

lemma setSettings_refines:
  assumes "user_rep (tables w)" and "user_setSettings i ls w = (r, w')"
  shows "refines (spec_exec pgl (CSetSettings i ls)) r w w'"
proof -
  let ?f = "sql_settings_update i ls"
  let ?k = "\<lambda>x :: sqlerr + nat. case x of Inl e \<Rightarrow> Inl (Wrapped ''update learning settings'' (PgErr e))
    | Inr n \<Rightarrow> if n = 0 then Inl ErrNoStudentProfile else Inr ()"
  obtain x where x: "pg_stmt ?f w = (x, w')" and r: "r = ?k x"
    using assms(2) by (cases "pg_stmt ?f w") (auto simp: user_setSettings_def must_affect_eq)
  have n: "length (filter (\<lambda>p. sp_user p = i) (student_profiles (tables w))) = 0 \<longleftrightarrow>
      i \<notin> sp_user ` set (student_profiles (tables w))"
    by (auto simp: filter_empty_conv)
  show ?thesis
  proof (cases "i \<in> sp_user ` set (student_profiles (tables w))")
    case True
    then obtain a where a: "abs_user (tables w) i = Some a" "RoleStudent \<in> ac_roles a"
      using user_rep_student [OF assms(1)] by blast
    show ?thesis unfolding r
    proof (rule stmt_refines [OF assms(1) x, where k = ?k])
      fix e assume "?f (tables w) = Inl e"
      then show "\<exists>e'. ?k (Inl e) = Inl e' \<and> spec_exec pgl (CSetSettings i ls) (abs_user (tables w)) = Inl e'"
        using True n a by (auto simp: sql_settings_update_def Let_def check_err_def split: if_splits)
    next
      fix m d assume f: "?f (tables w) = Inr (m, d)"
      then have "m \<noteq> 0" "cefr_valid (ls_level ls)" "variant_valid (ls_variant ls)"
        and d: "d = (tables w)\<lparr>student_profiles := map (\<lambda>p. if sp_user p = i
             then p\<lparr>sp_level := Some (ls_level ls), sp_variant := Some (ls_variant ls)\<rparr> else p)
             (student_profiles (tables w))\<rparr>"
        using True n by (auto simp: sql_settings_update_def Let_def split: if_splits)
      with settings_sim [OF assms(1) True a(1) d] a
      show "user_rep d \<and> (case ?k (Inr m) of
          Inr _ \<Rightarrow> spec_exec pgl (CSetSettings i ls) (abs_user (tables w)) = Inr (abs_user d)
        | Inl e \<Rightarrow> abs_user d = abs_user (tables w) \<and>
            spec_exec pgl (CSetSettings i ls) (abs_user (tables w)) = Inl e)" by simp
    qed simp
  next
    case False
    then have "?f (tables w) = Inr (0, tables w)" using n by (simp add: sql_settings_update_def)
    moreover have "spec_exec pgl (CSetSettings i ls) (abs_user (tables w)) = Inl ErrNoStudentProfile"
      using False user_rep_student [OF assms(1), of i] by (auto split: option.splits)
    ultimately show ?thesis unfolding r
      by (intro stmt_refines [OF assms(1) x, where k = ?k]) (use assms(1) in auto)
  qed
qed

subsection \<open>Roles and creation\<close>

text \<open>A transaction against a specification.\<close>

lemma tx_refines:
  assumes "user_rep (tables w)" and "pg_tx on_b on_c body w = (r, w')"
    and "\<And>a v v'. body v = (Inr a, v') \<Longrightarrow> tables v = tables w \<Longrightarrow> pg_now v = pg_now w \<Longrightarrow>
      user_rep (tables v') \<and> g (abs_user (tables w)) = Inr (abs_user (tables v'))"
    and "fates w = [] \<Longrightarrow> fates (snd (body w)) = [] \<and>
      (\<forall>e. fst (body w) = Inl e \<longrightarrow> g (abs_user (tables w)) = Inl e)"
  shows "refines g r w w'"
proof -
  obtain x v where b: "body (pop_fate w) = (x, v)" by fastforce
  have ok: "user_rep (tables v) \<and> g (abs_user (tables w)) = Inr (abs_user (tables v))" if "x = Inr a" for a
    by (rule assms(3) [of "pop_fate w" a v]) (use b that in simp_all)
  show ?thesis
  proof (cases "fates w = []")
    case True
    with b have bw: "body w = (x, v)" by simp
    have fv: "fates v = []" and gv: "\<forall>e. x = Inl e \<longrightarrow> g (abs_user (tables w)) = Inl e"
      using assms(4) [OF True] bw by simp_all
    have "pg_tx on_b on_c body w = (case body w of
        (Inl e, w') \<Rightarrow> (Inl e, w'\<lparr>tables := tables w\<rparr>) | (Inr a, w') \<Rightarrow> (Inr a, w'))"
      by (rule pg_tx_healthy) (simp_all add: True bw fv)
    with assms(2) bw have "(r, w') = (case x of Inl e \<Rightarrow> (Inl e, v\<lparr>tables := tables w\<rparr>) | Inr a \<Rightarrow> (Inr a, v))"
      by simp
    with fv gv ok assms(1) show ?thesis by (cases x) (simp_all add: refines_by_def)
  next
    case False
    show ?thesis
    proof (cases r)
      case (Inr a)
      from pg_tx_Inr [OF assms(2) [unfolded Inr]] b have "x = Inr a" "w' = pop_fate v" by auto
      with ok Inr False show ?thesis by (simp add: refines_by_def)
    next
      case (Inl e)
      from pg_tx_Inl_tables [OF assms(2) [unfolded Inl]] b
      have "tables w' = tables w \<or> (\<exists>a. x = Inr a \<and> tables w' = tables v)" by auto
      with ok Inl False assms(1) show ?thesis by (auto simp: refines_by_def)
    qed
  qed
qed

text \<open>A role with its profile.\<close>

definition with_role :: "uuid \<Rightarrow> string \<Rightarrow> id_db \<Rightarrow> id_db" where
  "with_role i role d =
     (let d1 = d\<lparr>user_roles := user_roles d @ [(i, role)]\<rparr> in
      if role = RoleStudent
      then d1\<lparr>student_profiles := student_profiles d @ [\<lparr>sp_user = i, sp_level = None, sp_variant = None\<rparr>]\<rparr>
      else d1\<lparr>teacher_profiles := teacher_profiles d @ [i]\<rparr>)"

lemma find_profile_append:
  "find (\<lambda>p. sp_user p = j) (ps @ [\<lparr>sp_user = i, sp_level = l, sp_variant = v\<rparr>]) =
     (case find (\<lambda>p. sp_user p = j) ps of
        None \<Rightarrow> if j = i then Some \<lparr>sp_user = i, sp_level = l, sp_variant = v\<rparr> else None
      | Some p \<Rightarrow> Some p)"
  by (simp add: find_append split: option.splits)

lemma with_role_settings: "settings_of (with_role i role d) j = settings_of d j"
  by (simp add: settings_of_def sql_settings_def with_role_def Let_def find_profile_append split: option.splits)

lemma with_role_rep:
  assumes "user_rep d" and "role_valid role" and "(i, role) \<notin> set (user_roles d)" and "i \<in> ur_id ` set (users d)"
  shows "user_rep (with_role i role d)"
  using assms unfolding user_rep_def with_role_def Let_def role_valid_def
  by (auto simp: image_iff)

lemma with_role_abs:
  assumes "abs_user d i = Some a"
  shows "abs_user (with_role i role d) = (abs_user d)(i \<mapsto> a\<lparr>ac_roles := insert role (ac_roles a)\<rparr>)"
proof
  fix j
  have u: "users (with_role i role d) = users d" by (simp add: with_role_def Let_def)
  have r: "roles_of (with_role i role d) k = (if k = i then insert role (roles_of d k) else roles_of d k)" for k
    by (auto simp: with_role_def Let_def roles_of_def)
  show "abs_user (with_role i role d) j = ((abs_user d)(i \<mapsto> a\<lparr>ac_roles := insert role (ac_roles a)\<rparr>)) j"
    using assms
    by (cases "find (\<lambda>r. ur_id r = j) (users d)")
      (auto simp: abs_user_def u r acct_of_def with_role_settings dest: find_SomeD)
qed

lemma addRoleTx_Inr:
  assumes "addRoleTx i role w = (Inr (), w')"
  shows "role_valid role \<and> (i, role) \<notin> set (user_roles (tables w)) \<and> i \<in> ur_id ` set (users (tables w)) \<and>
    tables w' = with_role i role (tables w)"
  using assms
  by (auto simp: addRoleTx_def pg_stmt_Inr sql_role_insert_def sql_student_insert_def sql_teacher_insert_def
      with_role_def role_valid_def Let_def split: prod.splits sum.splits if_splits)

lemma addRole_spec:
  assumes "user_rep (tables w)" and "addRoleTx i role w = (Inr (), w')"
  shows "user_rep (tables w') \<and>
    spec_exec pgl (CAddRole i role) (abs_user (tables w)) = Inr (abs_user (tables w'))"
proof -
  note r = addRoleTx_Inr [OF assms(2)]
  from r obtain a where a: "abs_user (tables w) i = Some a" using abs_user_None [of "tables w" i] by fastforce
  have "role \<notin> ac_roles a" using r a abs_user_roles [OF assms(1), of i role] by auto
  with r a assms(1) with_role_rep [of "tables w" role i] with_role_abs [OF a] show ?thesis by simp
qed

lemma addRoleTx_healthy:
  assumes "user_rep (tables w)" and "fates w = []" and "addRoleTx i role w = (r, w')"
  shows "fates w' = [] \<and> (\<forall>e. r = Inl e \<longrightarrow>
    spec_exec pgl (CAddRole i role) (abs_user (tables w)) = Inl e \<and>
    (role_valid role \<and> i \<in> ur_id ` set (users (tables w)) \<longrightarrow> (i, role) \<in> set (user_roles (tables w))))"
proof (cases "sql_role_insert i role (tables w)")
  case (Inl e)
  have "spec_exec pgl (CAddRole i role) (abs_user (tables w)) = Inl e'"
    if "r = Inl e'" for e'
    using Inl that assms abs_user_roles [OF assms(1), of i role] abs_user_None [of "tables w" i]
    by (auto simp: addRoleTx_def pg_stmt_healthy sql_role_insert_def check_err_def split: if_splits option.splits)
  with Inl assms show ?thesis
    by (auto simp: addRoleTx_def pg_stmt_healthy sql_role_insert_def split: if_splits)
next
  case (Inr p)
  then have v: "role_valid role" "(i, role) \<notin> set (user_roles (tables w))" "i \<in> ur_id ` set (users (tables w))"
    and p: "p = ((), (tables w)\<lparr>user_roles := user_roles (tables w) @ [(i, role)]\<rparr>)"
    by (auto simp: sql_role_insert_def split: if_splits)
  have "i \<notin> sp_user ` set (student_profiles (tables w))" if "role = RoleStudent"
    using that v(2) assms(1) by (simp add: user_rep_def)
  moreover have "i \<notin> set (teacher_profiles (tables w))" if "role = RoleTeacher"
    using that v(2) assms(1) by (simp add: user_rep_def)
  ultimately show ?thesis
    using v Inr p assms(2,3)
    by (auto simp: addRoleTx_def pg_stmt_healthy sql_student_insert_def sql_teacher_insert_def wrap_err_def
        role_valid_def split: if_splits)
qed

lemma addRole_refines:
  assumes "user_rep (tables w)" and "user_addRole i role w = (r, w')"
  shows "refines (spec_exec pgl (CAddRole i role)) r w w'"
proof (rule tx_refines [OF assms(1) assms(2) [unfolded user_addRole_def]])
  fix a and v v' :: "(id_db, 'a) pgs_scheme"
  assume "addRoleTx i role v = (Inr a, v')" "tables v = tables w"
  with addRole_spec [of v i role v' pgl] assms(1)
  show "user_rep (tables v') \<and> spec_exec pgl (CAddRole i role) (abs_user (tables w)) = Inr (abs_user (tables v'))"
    by simp
next
  assume "fates w = []"
  from addRoleTx_healthy [OF assms(1) this prod.collapse [symmetric], of i role pgl]
  show "fates (snd (addRoleTx i role w)) = [] \<and> (\<forall>e. fst (addRoleTx i role w) = Inl e \<longrightarrow>
      spec_exec pgl (CAddRole i role) (abs_user (tables w)) = Inl e)" by blast
qed

lemma phone_in_name:
  "\<not> contains_sub ''users_pkey'' ''phone''" "\<not> contains_sub ''users_email_unique'' ''phone''"
  "contains_sub ''users_phone_unique'' ''phone''"
  by code_simp+

text \<open>How \<open>Create\<close> words the errors of its first statement.\<close>

definition create_err :: "sqlerr \<Rightarrow> goerr" where
  "create_err e =
     (case unique_violation (PgErr e) of
        Some c \<Rightarrow> (if contains_sub c ''phone'' then user_ErrPhoneTaken else user_ErrEmailTaken)
      | None \<Rightarrow> Wrapped ''insert user'' (PgErr e))"

lemma ran_email: "user_rep d \<Longrightarrow> list_ex (same_email pgl e) (users d) \<longleftrightarrow> (\<exists>a \<in> ran (abs_user d). has_email pgl e a)"
  by (auto simp: list_ex_iff ran_abs_user)

lemma ran_phone: "user_rep d \<Longrightarrow> list_ex (same_phone p) (users d) \<longleftrightarrow> (\<exists>a \<in> ran (abs_user d). has_phone p a)"
  by (auto simp: list_ex_iff ran_abs_user)

lemma no_orphans:
  assumes "user_rep d" and "i \<notin> ur_id ` set (users d)"
  shows "roles_of d i = {}" and "settings_of d i = None"
proof -
  show r: "roles_of d i = {}" using assms by (auto simp: user_rep_def roles_of_def)
  then have "i \<notin> sp_user ` set (student_profiles d)" using assms(1) by (auto simp: user_rep_def roles_of_def)
  then have "find (\<lambda>p. sp_user p = i) (student_profiles d) = None" by (auto simp: find_None_iff)
  then show "settings_of d i = None" by (simp add: settings_of_def sql_settings_def)
qed

lemma insert_sim:
  assumes "user_rep d"
  shows "case sql_user_insert pgl u role now d of
      Inl e \<Rightarrow> spec_exec pgl (CCreate u role) (abs_user d) = Inl (create_err e)
    | Inr (at, d1) \<Rightarrow> user_rep d1 \<and> role_valid role \<and> us_id u \<in> ur_id ` set (users d1) \<and>
        (\<forall>r. (us_id u, r) \<notin> set (user_roles d1)) \<and>
        (\<exists>a. abs_user d1 = (abs_user d)(us_id u \<mapsto> a) \<and> ac_roles a = {} \<and>
           spec_exec pgl (CCreate u role) (abs_user d) = Inr ((abs_user d)(us_id u \<mapsto> a\<lparr>ac_roles := {role}\<rparr>)))"
proof (cases "sql_user_insert pgl u role now d")
  case (Inl e)
  have "spec_exec pgl (CCreate u role) (abs_user d) = Inl (create_err e)"
    using Inl abs_user_dom [of "us_id u" d]
    by (auto simp: sql_user_insert_def Let_def create_err_def check_err_def phone_in_name nullable_def
        ran_email [OF assms] ran_phone [OF assms] split: if_splits)
  with Inl show ?thesis by simp
next
  case (Inr p)
  define r where "r = \<lparr>ur_id = us_id u, ur_phone = nullable (us_phone u), ur_email = nullable (us_email u),
               ur_hash = us_hash u, ur_name = us_name u, ur_avatar = [], ur_status = UserActive,
               ur_last_role = Some role, ur_created = now, ur_updated = now\<rparr>"
  define d1 where "d1 = d\<lparr>users := users d @ [r]\<rparr>"
  have p: "p = ((now, now), d1)" and v: "role_valid role" "us_id u \<notin> ur_id ` set (users d)"
    and s: "spec_exec pgl (CCreate u role) (abs_user d) =
      Inr ((abs_user d)(us_id u \<mapsto> (acct_of d r)\<lparr>ac_roles := {role}\<rparr>))"
    using Inr abs_user_dom [of "us_id u" d] no_orphans [OF assms, of "us_id u"]
    by (auto simp: sql_user_insert_def Let_def d1_def r_def nullable_def acct_of_def
        ran_email [OF assms] ran_phone [OF assms] split: if_splits)
  have id: "ur_id r = us_id u" by (simp add: r_def)
  have rep: "user_rep d1" using assms v(2) id by (auto simp: user_rep_def d1_def)
  have "abs_user d1 = (abs_user d)(us_id u \<mapsto> acct_of d r)"
  proof
    have n: "find (\<lambda>r. ur_id r = us_id u) (users d) = None" using v(2) by (auto simp: find_None_iff intro: rev_image_eqI)
    fix j show "abs_user d1 j = ((abs_user d)(us_id u \<mapsto> acct_of d r)) j"
      by (cases "j = us_id u") (auto simp: abs_user_def d1_def find_append id n split: option.splits)
  qed
  moreover have "(us_id u, x) \<notin> set (user_roles d1)" for x
    using no_orphans(1) [OF assms v(2)] by (simp add: d1_def roles_of_def)
  moreover have "ac_roles (acct_of d r) = {}" by (simp add: acct_of_def id no_orphans [OF assms v(2)])
  ultimately show ?thesis using Inr p s rep v(1) id by (auto simp: d1_def)
qed

lemma create_body_Inr:
  assumes "user_rep (tables w)" and "create_body pgl u role w = (Inr at, w')"
  shows "user_rep (tables w') \<and>
    spec_exec pgl (CCreate u role) (abs_user (tables w)) = Inr (abs_user (tables w'))"
proof -
  from assms(2) obtain w1 where i: "pg_stmt (sql_user_insert pgl u role (pg_now w)) w = (Inr at, w1)"
    and a: "addRoleTx (us_id u) role w1 = (Inr (), w')"
    by (auto simp: create_body_def split: prod.splits sum.splits option.splits)
  from i obtain d1 where d1: "sql_user_insert pgl u role (pg_now w) (tables w) = Inr (at, d1)" "tables w1 = d1"
    by (auto simp: pg_stmt_Inr)
  note s = insert_sim [OF assms(1), of pgl u role "pg_now w", unfolded d1(1), simplified]
  then have rep: "user_rep (tables w1)" by (simp add: d1(2))
  from addRole_spec [OF rep a] s show ?thesis by (auto simp: d1(2) split: if_splits)
qed

lemma create_body_healthy:
  assumes "user_rep (tables w)" and "fates w = []" and "create_body pgl u role w = (r, w')"
  shows "fates w' = [] \<and> (\<forall>e. r = Inl e \<longrightarrow>
    spec_exec pgl (CCreate u role) (abs_user (tables w)) = Inl e)"
proof (cases "sql_user_insert pgl u role (pg_now w) (tables w)")
  case (Inl e)
  with insert_sim [OF assms(1), of pgl u role "pg_now w"] assms(2,3) show ?thesis
    by (auto simp: create_body_def pg_stmt_healthy create_err_def split: option.splits)
next
  case (Inr p)
  obtain at d1 where p: "p = (at, d1)" by fastforce
  note s = insert_sim [OF assms(1), of pgl u role "pg_now w", unfolded Inr p, simplified]
  let ?w1 = "w\<lparr>tables := d1\<rparr>"
  obtain q w2 where q: "addRoleTx (us_id u) role ?w1 = (q, w2)" by fastforce
  have "fates w2 = [] \<and> q = Inr ()"
    using addRoleTx_healthy [of ?w1 "us_id u" role q w2 pgl] s assms(2) q by (cases q) auto
  with assms(2,3) Inr p q show ?thesis by (auto simp: create_body_def pg_stmt_healthy)
qed

lemma refines_result:
  assumes "refines g q w w'" and "case q of Inl e \<Rightarrow> r = Inl e | Inr _ \<Rightarrow> \<exists>a. r = Inr a"
  shows "refines g r w w'"
  using assms by (auto simp: refines_by_def split: sum.splits)

lemma create_refines:
  assumes "user_rep (tables w)" and "user_create pgl u role w = (r, w')"
  shows "refines (spec_exec pgl (CCreate u role)) r w w'"
proof -
  let ?b = "Wrapped ''begin tx'' (PgErr ConnLost)" and ?c = "Wrapped ''commit tx'' (PgErr ConnLost)"
  obtain q where q: "pg_tx ?b ?c (create_body pgl u role) w = (q, w')"
    and r: "case q of Inl e \<Rightarrow> r = Inl e | Inr _ \<Rightarrow> \<exists>a. r = Inr a"
    using assms(2) by (auto simp: user_create_def split: prod.splits sum.splits)
  have "refines (spec_exec pgl (CCreate u role)) q w w'"
  proof (rule tx_refines [OF assms(1) q])
    fix a and v v' :: "(id_db, 'a) pgs_scheme"
    assume "create_body pgl u role v = (Inr a, v')" "tables v = tables w"
    with create_body_Inr [of v pgl u role a v'] assms(1)
    show "user_rep (tables v') \<and>
        spec_exec pgl (CCreate u role) (abs_user (tables w)) = Inr (abs_user (tables v'))" by simp
  next
    assume "fates w = []"
    from create_body_healthy [OF assms(1) this prod.collapse [symmetric], of pgl u role]
    show "fates (snd (create_body pgl u role w)) = [] \<and> (\<forall>e. fst (create_body pgl u role w) = Inl e \<longrightarrow>
        spec_exec pgl (CCreate u role) (abs_user (tables w)) = Inl e)" by blast
  qed
  from refines_result [OF this r] show ?thesis .
qed

subsection \<open>Every command\<close>

lemma acct_of_upd:
  "acct_of d (r\<lparr>ur_last_role := x\<rparr>) = ac_last_update (\<lambda>_. x) (acct_of d r)"
  "acct_of d (r\<lparr>ur_status := s\<rparr>) = ac_status_update (\<lambda>_. s) (acct_of d r)"
  "acct_of d (r\<lparr>ur_hash := s\<rparr>) = ac_hash_update (\<lambda>_. s) (acct_of d r)"
  "acct_of d (r\<lparr>ur_name := s\<rparr>) = ac_name_update (\<lambda>_. s) (acct_of d r)"
  by (simp_all add: acct_of_def)

lemma spec_exec_fun:
  "spec_exec pgl (CSetActiveRole i role) = (\<lambda>m. spec_update (Inr m) (if role_valid role then None
       else Some (check_err ''set active role'' ''users_last_active_role_check'')) (ac_last_update (\<lambda>_. Some role)) i m)"
  "spec_exec pgl (CSetStatus i s) = (\<lambda>m. spec_update (Inr m) (if user_status_valid s then None
       else Some (check_err ''set status'' ''users_status_check'')) (ac_status_update (\<lambda>_. s)) i m)"
  "spec_exec pgl (CSetPassword i h) = spec_update (Inl user_ErrNotFound) None (ac_hash_update (\<lambda>_. h)) i"
  "spec_exec pgl (CSetDisplayName i n) = spec_update (Inl user_ErrNotFound) None (ac_name_update (\<lambda>_. n)) i"
  by (simp_all add: fun_eq_iff)

lemma repo_exec_refines:
  assumes "user_rep (tables w)" and "repo_exec pgl c w = (r, w')"
  shows "refines (spec_exec pgl c) r w w'"
proof (cases c)
  case (CCreate u role)
  obtain q where q: "user_create pgl u role w = (q, w')"
    and r: "r = (case q of Inl e \<Rightarrow> Inl e | Inr _ \<Rightarrow> Inr ())"
    using assms(2) CCreate by (auto split: prod.splits sum.splits)
  show ?thesis unfolding CCreate r
    by (rule refines_result [OF create_refines [OF assms(1) q]]) (simp split: sum.split)
next
  case (CAddRole i role)
  with addRole_refines [OF assms(1)] assms(2) show ?thesis by (simp del: spec_exec.simps)
next
  case (CSetActiveRole i role)
  with silent_update_refines [OF assms(1), where f = "\<lambda>r. r\<lparr>ur_last_role := Some role\<rparr>" and
      b = "role_valid role", OF _ acct_of_upd(1)] assms(2) show ?thesis
    by (simp add: user_setActiveRole_def spec_exec_fun)
next
  case (CSetStatus i s)
  with silent_update_refines [OF assms(1), where f = "\<lambda>r. r\<lparr>ur_status := s\<rparr>" and
      b = "user_status_valid s", OF _ acct_of_upd(2)] assms(2) show ?thesis
    by (simp add: user_setStatus_def spec_exec_fun)
next
  case (CSetPassword i h)
  with update_refines [OF assms(1), where f = "\<lambda>r. r\<lparr>ur_hash := h\<rparr>", OF _ acct_of_upd(3)] assms(2)
  show ?thesis by (simp add: user_setPassword_def spec_exec_fun)
next
  case (CSetDisplayName i n)
  with update_refines [OF assms(1), where f = "\<lambda>r. r\<lparr>ur_name := n\<rparr>", OF _ acct_of_upd(4)] assms(2)
  show ?thesis by (simp add: user_setDisplayName_def spec_exec_fun)
next
  case (CSetContact i ch v)
  with setContact_refines [OF assms(1)] assms(2) show ?thesis by (simp del: spec_exec.simps)
next
  case (CDelete i)
  with delete_refines [OF assms(1)] assms(2) show ?thesis by (simp del: spec_exec.simps)
next
  case (CSetSettings i ls)
  with setSettings_refines [OF assms(1)] assms(2) show ?thesis by (simp del: spec_exec.simps)
qed

end
