(* ===== verification/UserService.thy ===== *)
theory UserService
  imports UserSpec
begin

text \<open>
  The service of the web accounts (\<open>internal/user/service.go\<close>): registration, the logins by
  password and by code, password reset, account deletion, sessions, roles, the profile and the
  binding of contacts, over its store, codes, sessions, token manager and password hashes.
  \<open>mail.ParseAddress\<close> is standard library code of some size and a parameter: the address it
  parses, or nothing.
\<close>

subsection \<open>The interfaces\<close>

record 's user_store =
  ust_create :: "user \<Rightarrow> string \<Rightarrow> 's \<Rightarrow> (goerr + user) \<times> 's"
  ust_getByEmail :: "string \<Rightarrow> 's \<Rightarrow> (goerr + user) \<times> 's"
  ust_getByPhone :: "string \<Rightarrow> 's \<Rightarrow> (goerr + user) \<times> 's"
  ust_getByID :: "uuid \<Rightarrow> 's \<Rightarrow> (goerr + user) \<times> 's"
  ust_hasRole :: "uuid \<Rightarrow> string \<Rightarrow> 's \<Rightarrow> (goerr + bool) \<times> 's"
  ust_addRole :: "uuid \<Rightarrow> string \<Rightarrow> 's \<Rightarrow> (goerr + unit) \<times> 's"
  ust_setActiveRole :: "uuid \<Rightarrow> string \<Rightarrow> 's \<Rightarrow> (goerr + unit) \<times> 's"
  ust_getSettings :: "uuid \<Rightarrow> 's \<Rightarrow> (goerr + learning_settings option) \<times> 's"
  ust_setSettings :: "uuid \<Rightarrow> learning_settings \<Rightarrow> 's \<Rightarrow> (goerr + unit) \<times> 's"
  ust_setPassword :: "uuid \<Rightarrow> string \<Rightarrow> 's \<Rightarrow> (goerr + unit) \<times> 's"
  ust_setDisplayName :: "uuid \<Rightarrow> string \<Rightarrow> 's \<Rightarrow> (goerr + unit) \<times> 's"
  ust_setContact :: "uuid \<Rightarrow> string \<Rightarrow> string \<Rightarrow> 's \<Rightarrow> (goerr + unit) \<times> 's"
  ust_delete :: "uuid \<Rightarrow> 's \<Rightarrow> (goerr + unit) \<times> 's"

definition user_repo :: "(string \<Rightarrow> string) \<Rightarrow> (id_db, 'z) pgs_scheme user_store" where
  "user_repo pgl = \<lparr>ust_create = user_create pgl, ust_getByEmail = user_getByEmail pgl,
     ust_getByPhone = user_getByPhone, ust_getByID = user_getByID, ust_hasRole = user_hasRole,
     ust_addRole = user_addRole, ust_setActiveRole = user_setActiveRole,
     ust_getSettings = user_getSettings, ust_setSettings = user_setSettings,
     ust_setPassword = user_setPassword, ust_setDisplayName = user_setDisplayName,
     ust_setContact = user_setContact pgl, ust_delete = user_delete\<rparr>"

record 's codes =
  cd_request :: "otp_draw \<Rightarrow> string \<Rightarrow> string \<Rightarrow> 's \<Rightarrow> ((goerr + unit) \<times> 's) option"
  cd_verify :: "time \<Rightarrow> string \<Rightarrow> string \<Rightarrow> string \<Rightarrow> 's \<Rightarrow> (goerr + unit) \<times> 's"

definition otp_codes :: "'s otp_service \<Rightarrow> 's codes" where
  "otp_codes sv = \<lparr>cd_request = RequestCode sv, cd_verify = Verify sv\<rparr>"

record 's user_service =
  usv_store :: "'s user_store"
  usv_jwt :: jwt_lib
  usv_token :: token_manager
  usv_codes :: "'s codes"
  usv_sessions :: "'s sessions"
  usv_bcrypt :: bcrypt_lib
  usv_uni :: "string \<Rightarrow> string"
  usv_mail :: "string \<Rightarrow> string option"

abbreviation (input) user_ErrInvalidCredentials :: goerr where
  "user_ErrInvalidCredentials \<equiv> Sentinel ''user.ErrInvalidCredentials''"
abbreviation (input) ErrInvalidRole :: goerr where "ErrInvalidRole \<equiv> Sentinel ''user.ErrInvalidRole''"
abbreviation (input) ErrMissingIdentifier :: goerr where
  "ErrMissingIdentifier \<equiv> Sentinel ''user.ErrMissingIdentifier''"
abbreviation (input) ErrRoleNotOwned :: goerr where "ErrRoleNotOwned \<equiv> Sentinel ''user.ErrRoleNotOwned''"
abbreviation (input) ErrInvalidLearningSettings :: goerr where
  "ErrInvalidLearningSettings \<equiv> Sentinel ''user.ErrInvalidLearningSettings''"
abbreviation (input) user_ErrAccountDisabled :: goerr where
  "user_ErrAccountDisabled \<equiv> Sentinel ''user.ErrAccountDisabled''"
abbreviation (input) ErrInvalidResetCode :: goerr where
  "ErrInvalidResetCode \<equiv> Sentinel ''user.ErrInvalidResetCode''"
abbreviation (input) ErrInvalidDeletionCode :: goerr where
  "ErrInvalidDeletionCode \<equiv> Sentinel ''user.ErrInvalidDeletionCode''"
abbreviation (input) ErrChannelUnavailable :: goerr where
  "ErrChannelUnavailable \<equiv> Sentinel ''user.ErrChannelUnavailable''"
abbreviation (input) ErrInvalidChannel :: goerr where "ErrInvalidChannel \<equiv> Sentinel ''user.ErrInvalidChannel''"
abbreviation (input) ErrInvalidDisplayName :: goerr where
  "ErrInvalidDisplayName \<equiv> Sentinel ''user.ErrInvalidDisplayName''"
abbreviation (input) ErrInvalidBindCode :: goerr where
  "ErrInvalidBindCode \<equiv> Sentinel ''user.ErrInvalidBindCode''"

subsection \<open>Tokens\<close>

definition defaultRole :: "string list \<Rightarrow> string" where
  "defaultRole roles = (case roles of [] \<Rightarrow> [] | r # _ \<Rightarrow> r)"

definition activeRole :: "user \<Rightarrow> string" where
  "activeRole u = (if list_ex (\<lambda>r. r = us_last u) (us_roles u) then us_last u else defaultRole (us_roles u))"

definition user_issue ::
  "'s user_service \<Rightarrow> issue_draw \<Rightarrow> user \<Rightarrow> 's \<Rightarrow> (goerr + user \<times> string \<times> string) \<times> 's" where
  "user_issue sv dr u s =
     (case Generate (usv_jwt sv) (usv_token sv) (is_now dr) (us_id u) (activeRole u) of
        Inl e \<Rightarrow> (Inl (Wrapped ''generate token'' e), s)
      | Inr access \<Rightarrow>
          (case se_issue (usv_sessions sv) (is_sess dr) (us_id u) s of
             (Inl e, s1) \<Rightarrow> (Inl (Wrapped ''issue refresh token'' e), s1)
           | (Inr refresh, s1) \<Rightarrow> (Inr (u, access, refresh), s1)))"

definition user_lookup :: "'s user_service \<Rightarrow> string \<Rightarrow> 's \<Rightarrow> (goerr + user) \<times> 's" where
  "user_lookup sv identifier s =
     (if isEmail identifier
      then ust_getByEmail (usv_store sv) (normalizeEmail (usv_uni sv) identifier) s
      else ust_getByPhone (usv_store sv) (normalizePhone identifier) s)"

subsection \<open>Registration and login\<close>

text \<open>\<open>nid\<close> and \<open>salt\<close> are the draws of \<open>uuid.New()\<close> and of the hash.\<close>

definition Register ::
  "'s user_service \<Rightarrow> uuid \<Rightarrow> nat \<Rightarrow> issue_draw \<Rightarrow> string \<Rightarrow> string \<Rightarrow> string \<Rightarrow> string \<Rightarrow> string \<Rightarrow> 's
    \<Rightarrow> (goerr + user \<times> string \<times> string) \<times> 's" where
  "Register sv nid salt dr phone email password displayName role s =
     (if \<not> role_valid role then (Inl ErrInvalidRole, s)
      else let p = normalizePhone phone; e = normalizeEmail (usv_uni sv) email in
        if p = [] \<and> e = [] then (Inl ErrMissingIdentifier, s)
        else case bc_generate (usv_bcrypt sv) salt password of
          Inl e \<Rightarrow> (Inl (Wrapped ''hash password'' e), s)
        | Inr hash \<Rightarrow>
            (case ust_create (usv_store sv)
                    \<lparr>us_id = nid, us_phone = p, us_email = e, us_hash = hash,
                     us_name = TrimSpace displayName, us_avatar = [], us_status = [], us_roles = [],
                     us_last = [], us_created = 0, us_updated = 0\<rparr> role s of
               (Inl e, s1) \<Rightarrow> (Inl e, s1)
             | (Inr u, s1) \<Rightarrow> user_issue sv dr u s1))"

definition LoginPassword ::
  "'s user_service \<Rightarrow> issue_draw \<Rightarrow> string \<Rightarrow> string \<Rightarrow> 's \<Rightarrow> (goerr + user \<times> string \<times> string) \<times> 's" where
  "LoginPassword sv dr identifier password s =
     (case user_lookup sv identifier s of
        (Inl e, s1) \<Rightarrow>
          (if errors_is e user_ErrNotFound then (Inl user_ErrInvalidCredentials, s1) else (Inl e, s1))
      | (Inr u, s1) \<Rightarrow>
          (if \<not> bc_compare (usv_bcrypt sv) (us_hash u) password then (Inl user_ErrInvalidCredentials, s1)
           else if us_status u = UserDisabled then (Inl user_ErrAccountDisabled, s1)
           else user_issue sv dr u s1))"

definition RequestLoginCode ::
  "'s user_service \<Rightarrow> otp_draw \<Rightarrow> string \<Rightarrow> 's \<Rightarrow> ((goerr + unit) \<times> 's) option" where
  "RequestLoginCode sv od identifier s =
     cd_request (usv_codes sv) od (normalizeIdentifier (usv_uni sv) identifier) ''login'' s"

definition LoginCode ::
  "'s user_service \<Rightarrow> time \<Rightarrow> issue_draw \<Rightarrow> string \<Rightarrow> string \<Rightarrow> 's
    \<Rightarrow> (goerr + user \<times> string \<times> string) \<times> 's" where
  "LoginCode sv now dr identifier code s =
     (case user_lookup sv identifier s of
        (Inl e, s1) \<Rightarrow>
          (if errors_is e user_ErrNotFound then (Inl user_ErrInvalidCredentials, s1) else (Inl e, s1))
      | (Inr u, s1) \<Rightarrow>
          (case cd_verify (usv_codes sv) now (normalizeIdentifier (usv_uni sv) identifier) ''login'' code s1 of
             (Inl _, s2) \<Rightarrow> (Inl user_ErrInvalidCredentials, s2)
           | (Inr _, s2) \<Rightarrow>
               (if us_status u = UserDisabled then (Inl user_ErrAccountDisabled, s2)
                else user_issue sv dr u s2)))"

subsection \<open>Password reset\<close>

definition RequestPasswordReset ::
  "'s user_service \<Rightarrow> otp_draw \<Rightarrow> string \<Rightarrow> 's \<Rightarrow> ((goerr + unit) \<times> 's) option" where
  "RequestPasswordReset sv od identifier s =
     cd_request (usv_codes sv) od (normalizeIdentifier (usv_uni sv) identifier) ''password_reset'' s"

definition ResetPassword ::
  "'s user_service \<Rightarrow> time \<Rightarrow> nat \<Rightarrow> string \<Rightarrow> string \<Rightarrow> string \<Rightarrow> 's \<Rightarrow> (goerr + unit) \<times> 's" where
  "ResetPassword sv now salt identifier code newPassword s =
     (case cd_verify (usv_codes sv) now (normalizeIdentifier (usv_uni sv) identifier) ''password_reset'' code s of
        (Inl _, s1) \<Rightarrow> (Inl ErrInvalidResetCode, s1)
      | (Inr _, s1) \<Rightarrow>
          (case user_lookup sv identifier s1 of
             (Inl e, s2) \<Rightarrow>
               (if errors_is e user_ErrNotFound then (Inl ErrInvalidResetCode, s2) else (Inl e, s2))
           | (Inr u, s2) \<Rightarrow>
               (if us_status u = UserDisabled then (Inl user_ErrAccountDisabled, s2)
                else case bc_generate (usv_bcrypt sv) salt newPassword of
                  Inl e \<Rightarrow> (Inl (Wrapped ''hash password'' e), s2)
                | Inr hash \<Rightarrow>
                    (case ust_setPassword (usv_store sv) (us_id u) hash s2 of
                       (Inl e, s3) \<Rightarrow> (Inl e, s3)
                     | (Inr _, s3) \<Rightarrow>
                         (case se_revoke_all (usv_sessions sv) (us_id u) s3 of
                            (Inl e, s4) \<Rightarrow> (Inl (Wrapped ''revoke sessions'' e), s4)
                          | (Inr _, s4) \<Rightarrow> (Inr (), s4))))))"

subsection \<open>Account deletion\<close>

definition deletionTarget :: "user \<Rightarrow> string \<Rightarrow> goerr + string" where
  "deletionTarget u channel =
     (if channel = ''phone'' then (if us_phone u = [] then Inl ErrChannelUnavailable else Inr (us_phone u))
      else if channel = ''email'' then (if us_email u = [] then Inl ErrChannelUnavailable else Inr (us_email u))
      else Inl ErrInvalidChannel)"

definition RequestAccountDeletion ::
  "'s user_service \<Rightarrow> otp_draw \<Rightarrow> uuid \<Rightarrow> string \<Rightarrow> 's \<Rightarrow> ((goerr + unit) \<times> 's) option" where
  "RequestAccountDeletion sv od i channel s =
     (case ust_getByID (usv_store sv) i s of
        (Inl e, s1) \<Rightarrow> Some (Inl e, s1)
      | (Inr u, s1) \<Rightarrow>
          (case deletionTarget u channel of
             Inl e \<Rightarrow> Some (Inl e, s1)
           | Inr target \<Rightarrow> cd_request (usv_codes sv) od target ''account_deletion'' s1))"

definition DeleteAccount ::
  "'s user_service \<Rightarrow> time \<Rightarrow> uuid \<Rightarrow> string \<Rightarrow> string \<Rightarrow> 's \<Rightarrow> (goerr + unit) \<times> 's" where
  "DeleteAccount sv now i channel code s =
     (case ust_getByID (usv_store sv) i s of
        (Inl e, s1) \<Rightarrow> (Inl e, s1)
      | (Inr u, s1) \<Rightarrow>
          (case deletionTarget u channel of
             Inl e \<Rightarrow> (Inl e, s1)
           | Inr target \<Rightarrow>
               (case cd_verify (usv_codes sv) now target ''account_deletion'' code s1 of
                  (Inl _, s2) \<Rightarrow> (Inl ErrInvalidDeletionCode, s2)
                | (Inr _, s2) \<Rightarrow>
                    (case se_revoke_all (usv_sessions sv) (us_id u) s2 of
                       (Inl e, s3) \<Rightarrow> (Inl (Wrapped ''revoke sessions'' e), s3)
                     | (Inr _, s3) \<Rightarrow> ust_delete (usv_store sv) (us_id u) s3))))"

subsection \<open>Sessions\<close>

definition Refresh ::
  "'s user_service \<Rightarrow> issue_draw \<Rightarrow> string \<Rightarrow> 's \<Rightarrow> (goerr + string \<times> string) \<times> 's" where
  "Refresh sv dr raw s =
     (case se_rotate (usv_sessions sv) (is_sess dr) raw s of
        (Inl e, s1) \<Rightarrow> (Inl e, s1)
      | (Inr (i, newRefresh), s1) \<Rightarrow>
          (case ust_getByID (usv_store sv) i s1 of
             (Inl e, s2) \<Rightarrow> (Inl e, s2)
           | (Inr u, s2) \<Rightarrow>
               (if us_status u = UserDisabled then (Inl ErrInvalidRefreshToken, s2)
                else case Generate (usv_jwt sv) (usv_token sv) (is_now dr) i (activeRole u) of
                  Inl e \<Rightarrow> (Inl (Wrapped ''generate token'' e), s2)
                | Inr access \<Rightarrow> (Inr (access, newRefresh), s2))))"

definition Logout :: "'s user_service \<Rightarrow> string \<Rightarrow> 's \<Rightarrow> (goerr + unit) \<times> 's" where
  "Logout sv raw s = se_revoke (usv_sessions sv) raw s"

definition LogoutAll :: "'s user_service \<Rightarrow> uuid \<Rightarrow> 's \<Rightarrow> (goerr + unit) \<times> 's" where
  "LogoutAll sv i s = se_revoke_all (usv_sessions sv) i s"

subsection \<open>Roles\<close>

text \<open>The common tail of \<open>SwitchRole\<close> and \<open>AddRole\<close>.\<close>

definition activate_role ::
  "'s user_service \<Rightarrow> time \<Rightarrow> uuid \<Rightarrow> string \<Rightarrow> 's \<Rightarrow> (goerr + string) \<times> 's" where
  "activate_role sv now i role s =
     (case ust_setActiveRole (usv_store sv) i role s of
        (Inl e, s1) \<Rightarrow> (Inl e, s1)
      | (Inr _, s1) \<Rightarrow>
          (case Generate (usv_jwt sv) (usv_token sv) now i role of
             Inl e \<Rightarrow> (Inl (Wrapped ''generate token'' e), s1)
           | Inr tok \<Rightarrow> (Inr tok, s1)))"

definition SwitchRole ::
  "'s user_service \<Rightarrow> time \<Rightarrow> uuid \<Rightarrow> string \<Rightarrow> 's \<Rightarrow> (goerr + string) \<times> 's" where
  "SwitchRole sv now i role s =
     (if \<not> role_valid role then (Inl ErrInvalidRole, s)
      else case ust_hasRole (usv_store sv) i role s of
        (Inl e, s1) \<Rightarrow> (Inl e, s1)
      | (Inr has, s1) \<Rightarrow>
          (if \<not> has then (Inl ErrRoleNotOwned, s1) else activate_role sv now i role s1))"

definition AddRole ::
  "'s user_service \<Rightarrow> time \<Rightarrow> uuid \<Rightarrow> string \<Rightarrow> 's \<Rightarrow> (goerr + string) \<times> 's" where
  "AddRole sv now i role s =
     (if \<not> role_valid role then (Inl ErrInvalidRole, s)
      else case ust_addRole (usv_store sv) i role s of
        (Inl e, s1) \<Rightarrow> (Inl e, s1)
      | (Inr _, s1) \<Rightarrow> activate_role sv now i role s1)"

subsection \<open>The profile\<close>

definition user_GetByID :: "'s user_service \<Rightarrow> uuid \<Rightarrow> 's \<Rightarrow> (goerr + user) \<times> 's" where
  "user_GetByID sv i s = ust_getByID (usv_store sv) i s"

definition GetLearningSettings ::
  "'s user_service \<Rightarrow> uuid \<Rightarrow> 's \<Rightarrow> (goerr + learning_settings option) \<times> 's" where
  "GetLearningSettings sv i s = ust_getSettings (usv_store sv) i s"

definition SetLearningSettings ::
  "'s user_service \<Rightarrow> uuid \<Rightarrow> string \<Rightarrow> string \<Rightarrow> 's \<Rightarrow> (goerr + learning_settings) \<times> 's" where
  "SetLearningSettings sv i level variant s =
     (if \<not> cefr_valid level \<or> \<not> variant_valid variant then (Inl ErrInvalidLearningSettings, s)
      else let ls = \<lparr>ls_level = level, ls_variant = variant\<rparr> in
        case ust_setSettings (usv_store sv) i ls s of
          (Inl e, s1) \<Rightarrow> (Inl e, s1)
        | (Inr _, s1) \<Rightarrow> (Inr ls, s1))"

definition UpdateDisplayName ::
  "'s user_service \<Rightarrow> uuid \<Rightarrow> string \<Rightarrow> 's \<Rightarrow> (goerr + user) \<times> 's" where
  "UpdateDisplayName sv i displayName s =
     (let name = TrimSpace displayName in
      if name = [] then (Inl ErrInvalidDisplayName, s)
      else case ust_setDisplayName (usv_store sv) i name s of
        (Inl e, s1) \<Rightarrow> (Inl e, s1)
      | (Inr _, s1) \<Rightarrow> ust_getByID (usv_store sv) i s1)"

subsection \<open>Contacts\<close>

text \<open>The length of a phone is its length in bytes.\<close>

definition classifyContact :: "'s user_service \<Rightarrow> string \<Rightarrow> goerr + string \<times> string" where
  "classifyContact sv contact =
     (if isEmail contact then
        (let email = normalizeEmail (usv_uni sv) contact in
         if usv_mail sv email \<noteq> Some email then Inl ErrInvalidContact
         else Inr (ContactChannelEmail, email))
      else
        (let phone = normalizePhone contact in
         if length phone < 5 \<or> 20 < length phone then Inl ErrInvalidContact
         else Inr (ContactChannelPhone, phone)))"

definition ensureContactAvailable ::
  "'s user_service \<Rightarrow> uuid \<Rightarrow> string \<Rightarrow> string \<Rightarrow> 's \<Rightarrow> (goerr + unit) \<times> 's" where
  "ensureContactAvailable sv i channel normalized s =
     (if channel \<noteq> ContactChannelEmail \<and> channel \<noteq> ContactChannelPhone then (Inl ErrInvalidContact, s)
      else case (if channel = ContactChannelEmail
            then ust_getByEmail (usv_store sv) normalized s
            else ust_getByPhone (usv_store sv) normalized s) of
        (Inl e, s1) \<Rightarrow> (if errors_is e user_ErrNotFound then (Inr (), s1) else (Inl e, s1))
      | (Inr existing, s1) \<Rightarrow>
          (if us_id existing = i then (Inr (), s1)
           else (Inl (if channel = ContactChannelEmail then user_ErrEmailTaken else user_ErrPhoneTaken), s1)))"

definition RequestContactBindCode ::
  "'s user_service \<Rightarrow> otp_draw \<Rightarrow> uuid \<Rightarrow> string \<Rightarrow> 's \<Rightarrow> ((goerr + unit) \<times> 's) option" where
  "RequestContactBindCode sv od i contact s =
     (case classifyContact sv contact of
        Inl e \<Rightarrow> Some (Inl e, s)
      | Inr (channel, normalized) \<Rightarrow>
          (case ensureContactAvailable sv i channel normalized s of
             (Inl e, s1) \<Rightarrow> Some (Inl e, s1)
           | (Inr _, s1) \<Rightarrow> cd_request (usv_codes sv) od normalized ''contact_bind'' s1))"

definition BindContact ::
  "'s user_service \<Rightarrow> time \<Rightarrow> uuid \<Rightarrow> string \<Rightarrow> string \<Rightarrow> 's \<Rightarrow> (goerr + user) \<times> 's" where
  "BindContact sv now i contact code s =
     (case classifyContact sv contact of
        Inl e \<Rightarrow> (Inl e, s)
      | Inr (channel, normalized) \<Rightarrow>
          (case ensureContactAvailable sv i channel normalized s of
             (Inl e, s1) \<Rightarrow> (Inl e, s1)
           | (Inr _, s1) \<Rightarrow>
               (case cd_verify (usv_codes sv) now normalized ''contact_bind'' code s1 of
                  (Inl _, s2) \<Rightarrow> (Inl ErrInvalidBindCode, s2)
                | (Inr _, s2) \<Rightarrow>
                    (case ust_setContact (usv_store sv) i channel normalized s2 of
                       (Inl e, s3) \<Rightarrow> (Inl e, s3)
                     | (Inr _, s3) \<Rightarrow> ust_getByID (usv_store sv) i s3))))"

end
