(* ===== verification/UserInv.thy ===== *)
theory UserInv
  imports UserService
begin

text \<open>
  The contract between the web account service and its store, given over the view of
  \<open>UserSpec\<close>, the invariant of the accounts, and the lemmas of the service under the contract.
\<close>

subsection \<open>The invariant of the accounts\<close>

definition acct_ok :: "acct \<Rightarrow> bool" where
  "acct_ok a \<longleftrightarrow>
     (ac_phone a \<noteq> None \<or> ac_email a \<noteq> None) \<and> ac_phone a \<noteq> Some [] \<and> ac_email a \<noteq> Some [] \<and>
     user_status_valid (ac_status a) \<and> (\<forall>r \<in> ac_roles a. role_valid r) \<and>
     (\<exists>r \<in> ac_roles a. ac_last a = Some r) \<and>
     (\<forall>l v. ac_settings a = Some (l, v) \<longrightarrow> cefr_valid l \<and> variant_valid v \<and> RoleStudent \<in> ac_roles a)"

text \<open>Every account has an identifier, a legal status, legal roles, the role it acts as among them,
  and legal learning settings only as a student; no two accounts share a phone or an email.\<close>

definition accts_inv :: "(string \<Rightarrow> string) \<Rightarrow> accts \<Rightarrow> bool" where
  "accts_inv pgl m \<longleftrightarrow>
     (\<forall>i a. m i = Some a \<longrightarrow> acct_ok a) \<and>
     (\<forall>i j a b. m i = Some a \<longrightarrow> m j = Some b \<longrightarrow>
        has_phone (ac_phone a) b \<or> has_email pgl (ac_email a) b \<longrightarrow> i = j)"

lemma has_phone_sym: "has_phone (ac_phone a) b \<longleftrightarrow> has_phone (ac_phone b) a"
  by (auto simp: has_phone_def)

lemma has_email_sym: "has_email pgl (ac_email a) b \<longleftrightarrow> has_email pgl (ac_email b) a"
  by (auto simp: has_email_def)

lemma accts_inv_upd:
  assumes "accts_inv pgl m" and "acct_ok a"
    and "\<And>j b. j \<noteq> i \<Longrightarrow> m j = Some b \<Longrightarrow> \<not> has_phone (ac_phone a) b \<and> \<not> has_email pgl (ac_email a) b"
  shows "accts_inv pgl (m(i \<mapsto> a))"
  unfolding accts_inv_def
proof (intro conjI allI impI)
  fix k b assume "(m(i \<mapsto> a)) k = Some b"
  then show "acct_ok b" using assms(1,2) by (auto simp: accts_inv_def split: if_splits)
next
  fix j k b c
  assume h: "(m(i \<mapsto> a)) j = Some b" "(m(i \<mapsto> a)) k = Some c"
    "has_phone (ac_phone b) c \<or> has_email pgl (ac_email b) c"
  show "j = k"
  proof (cases "j = i \<or> k = i")
    case True
    then show ?thesis
      using h assms(3) [of j b] assms(3) [of k c] has_phone_sym [of a b] has_email_sym [of pgl a b]
      by (auto split: if_splits)
  next
    case False
    with h assms(1) show ?thesis unfolding accts_inv_def by auto
  qed
qed

lemma accts_inv_same:
  assumes "accts_inv pgl m" and "m i = Some a" and "acct_ok a'"
    and "ac_phone a' = ac_phone a" and "ac_email a' = ac_email a"
  shows "accts_inv pgl (m(i \<mapsto> a'))"
proof (rule accts_inv_upd [OF assms(1,3)])
  fix j b assume "j \<noteq> i" "m j = Some b"
  with assms show "\<not> has_phone (ac_phone a') b \<and> \<not> has_email pgl (ac_email a') b"
    unfolding accts_inv_def by metis
qed

text \<open>What the service sees to before it calls the store.\<close>

fun cmd_ok :: "accts \<Rightarrow> user_cmd \<Rightarrow> bool" where
  "cmd_ok m (CSetActiveRole i role) = (\<forall>a. m i = Some a \<longrightarrow> role \<in> ac_roles a)"
| "cmd_ok m (CSetContact i channel v) = (v \<noteq> [])"
| "cmd_ok m c = True"

lemma spec_update_Inr:
  assumes "spec_update missing err f i m = Inr m'" and "missing = Inr m \<or> (\<exists>e. missing = Inl e)"
  shows "m' = m \<or> (\<exists>a. m i = Some a \<and> err = None \<and> m' = m(i \<mapsto> f a))"
  using assms by (auto simp: spec_update_def split: option.splits)

lemma spec_inv:
  assumes "accts_inv pgl m" and "cmd_ok m c" and "spec_exec pgl c m = Inr m'"
  shows "accts_inv pgl m'"
proof -
  have ok: "acct_ok a" if "m i = Some a" for i a using assms(1) that by (auto simp: accts_inv_def)
  show ?thesis
  proof (cases c)
    case (CCreate u role)
    with assms(3) show ?thesis
      by (auto split: if_splits intro!: accts_inv_upd [OF assms(1)]
          simp: acct_ok_def user_status_valid_def nullable_def ran_def has_phone_def has_email_def)
  next
    case (CAddRole i role)
    with assms(3) obtain a where a: "m i = Some a" "role_valid role"
      "m' = m(i \<mapsto> a\<lparr>ac_roles := insert role (ac_roles a)\<rparr>)" by (auto split: if_splits option.splits)
    show ?thesis unfolding a(3)
      by (rule accts_inv_same [OF assms(1) a(1)]) (use ok [OF a(1)] a(2) in \<open>auto simp: acct_ok_def\<close>)
  next
    case (CSetActiveRole i role)
    with assms(3) consider "m' = m" | a where "m i = Some a" "m' = m(i \<mapsto> a\<lparr>ac_last := Some role\<rparr>)"
      using spec_update_Inr by fastforce
    then show ?thesis
    proof cases
      case 2
      show ?thesis unfolding 2(2)
        by (rule accts_inv_same [OF assms(1) 2(1)])
          (use ok [OF 2(1)] 2(1) assms(2) CSetActiveRole in \<open>auto simp: acct_ok_def\<close>)
    qed (use assms(1) in simp)
  next
    case (CSetStatus i s)
    with assms(3) consider "m' = m" | a where "m i = Some a" "user_status_valid s" "m' = m(i \<mapsto> a\<lparr>ac_status := s\<rparr>)"
      using spec_update_Inr by (fastforce split: if_splits)
    then show ?thesis
    proof cases
      case 2
      show ?thesis unfolding 2(3)
        by (rule accts_inv_same [OF assms(1) 2(1)]) (use ok [OF 2(1)] 2(2) in \<open>auto simp: acct_ok_def\<close>)
    qed (use assms(1) in simp)
  next
    case (CSetPassword i h)
    with assms(3) obtain a where a: "m i = Some a" "m' = m(i \<mapsto> a\<lparr>ac_hash := h\<rparr>)"
      by (auto simp: spec_update_def split: option.splits)
    show ?thesis unfolding a(2)
      by (rule accts_inv_same [OF assms(1) a(1)]) (use ok [OF a(1)] in \<open>auto simp: acct_ok_def\<close>)
  next
    case (CSetDisplayName i n)
    with assms(3) obtain a where a: "m i = Some a" "m' = m(i \<mapsto> a\<lparr>ac_name := n\<rparr>)"
      by (auto simp: spec_update_def split: option.splits)
    show ?thesis unfolding a(2)
      by (rule accts_inv_same [OF assms(1) a(1)]) (use ok [OF a(1)] in \<open>auto simp: acct_ok_def\<close>)
  next
    case (CSetContact i ch v)
    show ?thesis
    proof (cases "ch = ContactChannelEmail")
      case True
      with assms(3) CSetContact obtain a where a: "m i = Some a" "m' = m(i \<mapsto> a\<lparr>ac_email := Some v\<rparr>)"
        "\<And>j b. j \<noteq> i \<Longrightarrow> m j = Some b \<Longrightarrow> \<not> has_email pgl (Some v) b"
        by (auto simp: spec_update_def split: option.splits if_splits)
      show ?thesis unfolding a(2)
      proof (rule accts_inv_upd [OF assms(1)])
        show "acct_ok (a\<lparr>ac_email := Some v\<rparr>)"
          using ok [OF a(1)] assms(2) CSetContact by (auto simp: acct_ok_def)
        fix j b assume "j \<noteq> i" "m j = Some b"
        with a assms(1) show "\<not> has_phone (ac_phone (a\<lparr>ac_email := Some v\<rparr>)) b \<and>
            \<not> has_email pgl (ac_email (a\<lparr>ac_email := Some v\<rparr>)) b"
          unfolding accts_inv_def by simp metis
      qed
    next
      case False
      with assms(3) CSetContact obtain a where a: "m i = Some a" "m' = m(i \<mapsto> a\<lparr>ac_phone := Some v\<rparr>)"
        "\<And>j b. j \<noteq> i \<Longrightarrow> m j = Some b \<Longrightarrow> \<not> has_phone (Some v) b"
        by (auto simp: spec_update_def split: option.splits if_splits)
      show ?thesis unfolding a(2)
      proof (rule accts_inv_upd [OF assms(1)])
        show "acct_ok (a\<lparr>ac_phone := Some v\<rparr>)"
          using ok [OF a(1)] assms(2) CSetContact by (auto simp: acct_ok_def)
        fix j b assume "j \<noteq> i" "m j = Some b"
        with a assms(1) show "\<not> has_phone (ac_phone (a\<lparr>ac_phone := Some v\<rparr>)) b \<and>
            \<not> has_email pgl (ac_email (a\<lparr>ac_phone := Some v\<rparr>)) b"
          unfolding accts_inv_def by simp metis
      qed
    qed
  next
    case (CDelete i)
    with assms(1,3) show ?thesis by (auto simp: accts_inv_def split: if_splits)
  next
    case (CSetSettings i ls)
    with assms(3) obtain a where a: "m i = Some a" "RoleStudent \<in> ac_roles a" "cefr_valid (ls_level ls)"
      "variant_valid (ls_variant ls)" "m' = m(i \<mapsto> a\<lparr>ac_settings := Some (ls_level ls, ls_variant ls)\<rparr>)"
      by (auto split: option.splits if_splits)
    show ?thesis unfolding a(5)
      by (rule accts_inv_same [OF assms(1) a(1)]) (use ok [OF a(1)] a(2-4) in \<open>auto simp: acct_ok_def\<close>)
  qed
qed

subsection \<open>Following the branches of an operation\<close>

lemma state_keeps:
  "P (snd x) \<Longrightarrow> (\<And>r s. P s \<Longrightarrow> P (snd (k r s))) \<Longrightarrow> P (snd (case x of (r, s) \<Rightarrow> k r s))"
  "(\<And>e. P (snd (f e))) \<Longrightarrow> (\<And>a. P (snd (g a))) \<Longrightarrow> P (snd (case y of Inl e \<Rightarrow> f e | Inr a \<Rightarrow> g a))"
  "(b \<Longrightarrow> P (snd t)) \<Longrightarrow> (\<not> b \<Longrightarrow> P (snd u)) \<Longrightarrow> P (snd (if b then t else u))"
  "(\<And>c d. P (snd (m c d))) \<Longrightarrow> P (snd (case z of (c, d) \<Rightarrow> m c d))"
  "P s0 \<Longrightarrow> P (snd (v, s0))"
  by (simp_all split: sum.splits prod.splits) (cases x, simp)

subsection \<open>The contract of the store\<close>

text \<open>A call that only reads; a lookup by a criterion \<open>Q\<close>, which on a healthy connection fails
  only for want of an account; and what the user it returns shows.\<close>

definition reads :: "('s \<Rightarrow> bool) \<Rightarrow> ('s \<Rightarrow> accts) \<Rightarrow> ('s \<Rightarrow> bool) \<Rightarrow> 's \<Rightarrow> 's \<Rightarrow> bool" where
  "reads rep view up s s' \<longleftrightarrow> rep s' \<and> view s' = view s \<and> (up s \<longrightarrow> up s')"

definition shows_acct :: "acct \<Rightarrow> user \<Rightarrow> bool" where
  "shows_acct a x \<longleftrightarrow>
     us_phone x = opt_string (ac_phone a) \<and> us_email x = opt_string (ac_email a) \<and>
     us_hash x = ac_hash a \<and> us_name x = ac_name a \<and> us_avatar x = ac_avatar a \<and>
     us_status x = ac_status a \<and> set (us_roles x) = ac_roles a \<and> us_last x = opt_string (ac_last a)"

definition finds ::
  "('s \<Rightarrow> bool) \<Rightarrow> ('s \<Rightarrow> accts) \<Rightarrow> ('s \<Rightarrow> bool) \<Rightarrow> (uuid \<Rightarrow> acct \<Rightarrow> bool) \<Rightarrow> goerr + user \<Rightarrow> 's \<Rightarrow> 's \<Rightarrow> bool" where
  "finds rep view up Q r s s' \<longleftrightarrow>
     reads rep view up s s' \<and>
     (\<forall>x. r = Inr x \<longrightarrow> (\<exists>a. view s (us_id x) = Some a \<and> Q (us_id x) a \<and> shows_acct a x)) \<and>
     (up s \<longrightarrow> (\<forall>e. r = Inl e \<longrightarrow> e = user_ErrNotFound \<and> (\<forall>i a. view s i = Some a \<longrightarrow> \<not> Q i a)))"

definition settings_value :: "acct option \<Rightarrow> learning_settings option" where
  "settings_value x = (case x of None \<Rightarrow> None
     | Some a \<Rightarrow> map_option (\<lambda>(l, v). \<lparr>ls_level = l, ls_variant = v\<rparr>) (ac_settings a))"

definition user_good :: "('s \<Rightarrow> bool) \<Rightarrow> (string \<Rightarrow> string) \<Rightarrow> ('s \<Rightarrow> accts) \<Rightarrow> 's \<Rightarrow> bool" where
  "user_good rep pgl view s \<longleftrightarrow> rep s \<and> accts_inv pgl (view s)"

locale user_store_laws =
  fixes st :: "'s user_store" and rep :: "'s \<Rightarrow> bool" and view :: "'s \<Rightarrow> accts" and up :: "'s \<Rightarrow> bool"
    and pgl :: "string \<Rightarrow> string"
  assumes create: "rep s \<Longrightarrow> ust_create st u role s = (r, s') \<Longrightarrow>
      refines_by rep view up (spec_exec pgl (CCreate u role)) r s s' \<and>
      (\<forall>x. r = Inr x \<longrightarrow> (\<exists>c m. x = u\<lparr>us_roles := [role], us_last := role, us_created := c, us_updated := m\<rparr>))"
    and by_id: "rep s \<Longrightarrow> ust_getByID st i s = (r, s') \<Longrightarrow> finds rep view up (\<lambda>j a. j = i) r s s'"
    and by_phone: "rep s \<Longrightarrow> ust_getByPhone st p s = (r, s') \<Longrightarrow>
      finds rep view up (\<lambda>j a. has_phone (Some p) a) r s s'"
    and by_email: "rep s \<Longrightarrow> ust_getByEmail st e s = (r, s') \<Longrightarrow>
      finds rep view up (\<lambda>j a. has_email pgl (Some e) a) r s s'"
    and has_role: "rep s \<Longrightarrow> ust_hasRole st i role s = (h, s') \<Longrightarrow> reads rep view up s s' \<and>
      (\<forall>b. h = Inr b \<longrightarrow> (b \<longleftrightarrow> (\<exists>a. view s i = Some a \<and> role \<in> ac_roles a))) \<and> (up s \<longrightarrow> (\<exists>b. h = Inr b))"
    and add_role: "rep s \<Longrightarrow> ust_addRole st i role s = (q, s') \<Longrightarrow>
      refines_by rep view up (spec_exec pgl (CAddRole i role)) q s s'"
    and set_active_role: "rep s \<Longrightarrow> ust_setActiveRole st i role s = (q, s') \<Longrightarrow>
      refines_by rep view up (spec_exec pgl (CSetActiveRole i role)) q s s'"
    and get_settings: "rep s \<Longrightarrow> ust_getSettings st i s = (g, s') \<Longrightarrow> reads rep view up s s' \<and>
      (\<forall>x. g = Inr x \<longrightarrow> x = settings_value (view s i)) \<and> (up s \<longrightarrow> (\<exists>x. g = Inr x))"
    and set_settings: "rep s \<Longrightarrow> ust_setSettings st i ls s = (q, s') \<Longrightarrow>
      refines_by rep view up (spec_exec pgl (CSetSettings i ls)) q s s'"
    and set_password: "rep s \<Longrightarrow> ust_setPassword st i x s = (q, s') \<Longrightarrow>
      refines_by rep view up (spec_exec pgl (CSetPassword i x)) q s s'"
    and set_display_name: "rep s \<Longrightarrow> ust_setDisplayName st i x s = (q, s') \<Longrightarrow>
      refines_by rep view up (spec_exec pgl (CSetDisplayName i x)) q s s'"
    and set_contact: "rep s \<Longrightarrow> ust_setContact st i ch x s = (q, s') \<Longrightarrow>
      refines_by rep view up (spec_exec pgl (CSetContact i ch x)) q s s'"
    and delete: "rep s \<Longrightarrow> ust_delete st i s = (q, s') \<Longrightarrow>
      refines_by rep view up (spec_exec pgl (CDelete i)) q s s'"

text \<open>The service over such a store, with codes and sessions that keep off the accounts.
  \<open>mail.ParseAddress\<close> yields no empty address.\<close>

locale user_service_laws = user_store_laws st rep view up pgl
  for st :: "'s user_store" and rep view up pgl +
  fixes sv :: "'s user_service"
  assumes store: "usv_store sv = st"
    and sessions:
      "rep s \<Longrightarrow> se_issue (usv_sessions sv) d i s = (p1, s') \<Longrightarrow> reads rep view up s s'"
      "rep s \<Longrightarrow> se_rotate (usv_sessions sv) d raw s = (p2, s') \<Longrightarrow> reads rep view up s s'"
      "rep s \<Longrightarrow> se_revoke (usv_sessions sv) raw s = (p3, s') \<Longrightarrow> reads rep view up s s'"
      "rep s \<Longrightarrow> se_revoke_all (usv_sessions sv) i s = (p4, s') \<Longrightarrow> reads rep view up s s'"
    and codes:
      "rep s \<Longrightarrow> cd_request (usv_codes sv) od t p s = Some (c1, s') \<Longrightarrow> reads rep view up s s'"
      "rep s \<Longrightarrow> cd_verify (usv_codes sv) now t p c s = (c2, s') \<Longrightarrow> reads rep view up s s'"
    and mail: "usv_mail sv e = Some x \<Longrightarrow> x \<noteq> []"
begin

lemma reads_good: "reads rep view up s s' \<Longrightarrow> user_good rep pgl view s \<Longrightarrow> user_good rep pgl view s'"
  by (simp add: reads_def user_good_def)

lemma finds_good: "finds rep view up Q r s s' \<Longrightarrow> user_good rep pgl view s \<Longrightarrow> user_good rep pgl view s'"
  by (auto simp: finds_def intro: reads_good)

lemma refines_good:
  assumes "refines_by rep view up (spec_exec pgl c) r s s'" and "user_good rep pgl view s" and "cmd_ok (view s) c"
  shows "user_good rep pgl view s'"
  using assms spec_inv [of pgl "view s" c "view s'"]
  by (auto simp: refines_by_def user_good_def split: sum.splits)

lemma good_rep: "user_good rep pgl view s \<Longrightarrow> rep s" by (simp add: user_good_def)

text \<open>The contract, read for the invariant.\<close>

lemma store_good:
  "user_good rep pgl view s \<Longrightarrow> ust_create st u role s = (r, s') \<Longrightarrow> user_good rep pgl view s'"
  "user_good rep pgl view s \<Longrightarrow> ust_getByID st i s = (r, s') \<Longrightarrow> user_good rep pgl view s'"
  "user_good rep pgl view s \<Longrightarrow> ust_getByPhone st x s = (r, s') \<Longrightarrow> user_good rep pgl view s'"
  "user_good rep pgl view s \<Longrightarrow> ust_getByEmail st x s = (r, s') \<Longrightarrow> user_good rep pgl view s'"
  "user_good rep pgl view s \<Longrightarrow> ust_hasRole st i x s = (h, s') \<Longrightarrow> user_good rep pgl view s'"
  "user_good rep pgl view s \<Longrightarrow> ust_addRole st i x s = (q, s') \<Longrightarrow> user_good rep pgl view s'"
  "user_good rep pgl view s \<Longrightarrow> ust_getSettings st i s = (g, s') \<Longrightarrow> user_good rep pgl view s'"
  "user_good rep pgl view s \<Longrightarrow> ust_setSettings st i ls s = (q, s') \<Longrightarrow> user_good rep pgl view s'"
  "user_good rep pgl view s \<Longrightarrow> ust_setPassword st i x s = (q, s') \<Longrightarrow> user_good rep pgl view s'"
  "user_good rep pgl view s \<Longrightarrow> ust_setDisplayName st i x s = (q, s') \<Longrightarrow> user_good rep pgl view s'"
  "user_good rep pgl view s \<Longrightarrow> ust_setContact st i ch x s = (q, s') \<Longrightarrow> x \<noteq> [] \<Longrightarrow> user_good rep pgl view s'"
  "user_good rep pgl view s \<Longrightarrow> ust_delete st i s = (q, s') \<Longrightarrow> user_good rep pgl view s'"
  using create by_id by_phone by_email has_role add_role get_settings set_settings set_password
    set_display_name set_contact delete refines_good finds_good reads_good good_rep
  by (metis cmd_ok.simps)+

lemma env_good:
  "user_good rep pgl view s \<Longrightarrow> se_issue (usv_sessions sv) d i s = (p1, s') \<Longrightarrow> user_good rep pgl view s'"
  "user_good rep pgl view s \<Longrightarrow> se_rotate (usv_sessions sv) d raw s = (p2, s') \<Longrightarrow> user_good rep pgl view s'"
  "user_good rep pgl view s \<Longrightarrow> se_revoke (usv_sessions sv) raw s = (p3, s') \<Longrightarrow> user_good rep pgl view s'"
  "user_good rep pgl view s \<Longrightarrow> se_revoke_all (usv_sessions sv) i s = (p4, s') \<Longrightarrow> user_good rep pgl view s'"
  "user_good rep pgl view s \<Longrightarrow> cd_request (usv_codes sv) od t p s = Some (c1, s') \<Longrightarrow> user_good rep pgl view s'"
  "user_good rep pgl view s \<Longrightarrow> cd_verify (usv_codes sv) now t p c s = (c2, s') \<Longrightarrow> user_good rep pgl view s'"
  using sessions codes reads_good good_rep by metis+

text \<open>The same on the state a call leaves, with rules that follow the branches of an operation.\<close>

lemmas store_keeps = store_good [OF _ prod.collapse [symmetric]]
lemmas env_keeps = env_good(1-4,6) [OF _ prod.collapse [symmetric]]

lemmas branch_keeps = state_keeps [where P = "user_good rep pgl view"]

lemma issue_keeps: "user_good rep pgl view s \<Longrightarrow> user_good rep pgl view (snd (user_issue sv dr u s))"
  unfolding user_issue_def by (intro branch_keeps env_keeps)

lemma lookup_keeps: "user_good rep pgl view s \<Longrightarrow> user_good rep pgl view (snd (user_lookup sv x s))"
  unfolding user_lookup_def store by (intro branch_keeps store_keeps)

lemma activate_good:
  assumes "user_good rep pgl view s" and "activate_role sv now i role s = (r, s')"
    and "\<forall>a. view s i = Some a \<longrightarrow> role \<in> ac_roles a"
  shows "user_good rep pgl view s'"
proof -
  obtain q s1 where q: "ust_setActiveRole st i role s = (q, s1)" by fastforce
  have "user_good rep pgl view s1"
    by (rule refines_good [OF set_active_role [OF good_rep [OF assms(1)] q] assms(1)]) (use assms(3) in simp)
  with assms(2) q show ?thesis by (auto simp: activate_role_def store split: sum.splits)
qed

lemma ensure_keeps:
  "user_good rep pgl view s \<Longrightarrow> user_good rep pgl view (snd (ensureContactAvailable sv i ch x s))"
  unfolding ensureContactAvailable_def store by (intro branch_keeps store_keeps)

lemma classify_nonempty: "classifyContact sv contact = Inr (ch, x) \<Longrightarrow> x \<noteq> []"
  using mail by (auto simp: classifyContact_def Let_def split: if_splits)

end

subsection \<open>Runs of the service\<close>

text \<open>One request with its draws, and the state it leaves. A request for a code whose generator
  is still drawing leaves the state alone.\<close>

datatype user_req =
    QRegister uuid nat issue_draw string string string string string
  | QLoginPassword issue_draw string string
  | QRequestLoginCode otp_draw string
  | QLoginCode time issue_draw string string
  | QRequestPasswordReset otp_draw string
  | QResetPassword time nat string string string
  | QRequestAccountDeletion otp_draw uuid string
  | QDeleteAccount time uuid string string
  | QRefresh issue_draw string
  | QLogout string
  | QLogoutAll uuid
  | QSwitchRole time uuid string
  | QAddRole time uuid string
  | QGetByID uuid
  | QGetLearningSettings uuid
  | QSetLearningSettings uuid string string
  | QUpdateDisplayName uuid string
  | QRequestContactBindCode otp_draw uuid string
  | QBindContact time uuid string string

definition after_request :: "('a \<times> 's) option \<Rightarrow> 's \<Rightarrow> 's" where
  "after_request x s = (case x of None \<Rightarrow> s | Some (_, s') \<Rightarrow> s')"

fun user_do :: "'s user_service \<Rightarrow> user_req \<Rightarrow> 's \<Rightarrow> 's" where
  "user_do sv (QRegister i n dr p e pw nm ro) s = snd (Register sv i n dr p e pw nm ro s)"
| "user_do sv (QLoginPassword dr x pw) s = snd (LoginPassword sv dr x pw s)"
| "user_do sv (QRequestLoginCode od x) s = after_request (RequestLoginCode sv od x s) s"
| "user_do sv (QLoginCode t dr x c) s = snd (LoginCode sv t dr x c s)"
| "user_do sv (QRequestPasswordReset od x) s = after_request (RequestPasswordReset sv od x s) s"
| "user_do sv (QResetPassword t n x c pw) s = snd (ResetPassword sv t n x c pw s)"
| "user_do sv (QRequestAccountDeletion od i ch) s = after_request (RequestAccountDeletion sv od i ch s) s"
| "user_do sv (QDeleteAccount t i ch c) s = snd (DeleteAccount sv t i ch c s)"
| "user_do sv (QRefresh dr raw) s = snd (Refresh sv dr raw s)"
| "user_do sv (QLogout raw) s = snd (Logout sv raw s)"
| "user_do sv (QLogoutAll i) s = snd (LogoutAll sv i s)"
| "user_do sv (QSwitchRole t i ro) s = snd (SwitchRole sv t i ro s)"
| "user_do sv (QAddRole t i ro) s = snd (AddRole sv t i ro s)"
| "user_do sv (QGetByID i) s = snd (user_GetByID sv i s)"
| "user_do sv (QGetLearningSettings i) s = snd (GetLearningSettings sv i s)"
| "user_do sv (QSetLearningSettings i l v) s = snd (SetLearningSettings sv i l v s)"
| "user_do sv (QUpdateDisplayName i n) s = snd (UpdateDisplayName sv i n s)"
| "user_do sv (QRequestContactBindCode od i x) s = after_request (RequestContactBindCode sv od i x s) s"
| "user_do sv (QBindContact t i x c) s = snd (BindContact sv t i x c s)"

context user_service_laws begin

lemma request_keeps:
  assumes "user_good rep pgl view s"
  shows "user_good rep pgl view (after_request (cd_request (usv_codes sv) od t p s) s)"
    and "user_good rep pgl view (after_request (RequestAccountDeletion sv od i ch s) s)"
    and "user_good rep pgl view (after_request (RequestContactBindCode sv od i x s) s)"
proof -
  have r: "user_good rep pgl view s2" if "user_good rep pgl view s1"
    "cd_request (usv_codes sv) od t p s1 = Some (q, s2)" for s1 t p q s2
    using env_good(5) that by blast
  then show "user_good rep pgl view (after_request (cd_request (usv_codes sv) od t p s) s)"
    using assms by (auto simp: after_request_def split: option.splits)
  show "user_good rep pgl view (after_request (RequestAccountDeletion sv od i ch s) s)"
    using r store_good(2) [OF assms, of i] assms
    by (auto simp: after_request_def RequestAccountDeletion_def store split: option.splits sum.splits prod.splits)
  show "user_good rep pgl view (after_request (RequestContactBindCode sv od i x s) s)"
    using r ensure_keeps [OF assms, of i] assms
    by (auto simp: after_request_def RequestContactBindCode_def store split: option.splits sum.splits prod.splits)
      (metis snd_conv)+
qed

text \<open>Each operation keeps the invariant.\<close>

lemma op_keeps:
  assumes "user_good rep pgl view s"
  shows "user_good rep pgl view (snd (Register sv nid n dr p e pw nm ro s))"
    and "user_good rep pgl view (snd (LoginPassword sv dr x pw s))"
    and "user_good rep pgl view (snd (LoginCode sv t dr x c s))"
    and "user_good rep pgl view (snd (Refresh sv dr raw s))"
    and "user_good rep pgl view (snd (ResetPassword sv t n x c pw s))"
    and "user_good rep pgl view (snd (DeleteAccount sv t i ch c s))"
    and "user_good rep pgl view (snd (SetLearningSettings sv i l v s))"
    and "user_good rep pgl view (snd (UpdateDisplayName sv i x s))"
    and "user_good rep pgl view (snd (user_GetByID sv i s))"
    and "user_good rep pgl view (snd (GetLearningSettings sv i s))"
    and "user_good rep pgl view (snd (Logout sv raw s))"
    and "user_good rep pgl view (snd (LogoutAll sv i s))"
  unfolding Register_def LoginPassword_def LoginCode_def Refresh_def ResetPassword_def DeleteAccount_def
    SetLearningSettings_def UpdateDisplayName_def user_GetByID_def GetLearningSettings_def
    Logout_def LogoutAll_def Let_def store
  by (intro branch_keeps store_keeps env_keeps issue_keeps lookup_keeps assms | assumption)+

lemma bind_keeps:
  assumes "user_good rep pgl view s"
  shows "user_good rep pgl view (snd (BindContact sv t i x c s))"
proof (cases "classifyContact sv x")
  case (Inl e)
  with assms show ?thesis by (simp add: BindContact_def)
next
  case (Inr p)
  obtain ch y where p: "p = (ch, y)" by fastforce
  note ne = classify_nonempty [OF Inr [unfolded p]]
  show ?thesis unfolding BindContact_def store Inr p sum.case prod.case
    by (intro branch_keeps store_keeps env_keeps ensure_keeps ne assms)
qed

lemma role_keeps:
  assumes "user_good rep pgl view s"
  shows "user_good rep pgl view (snd (SwitchRole sv t i ro s))"
    and "user_good rep pgl view (snd (AddRole sv t i ro s))"
proof -
  obtain h s1 where h: "ust_hasRole st i ro s = (h, s1)" by fastforce
  note hr = has_role [OF good_rep [OF assms] h] and g = store_good(5) [OF assms h]
  have a: "user_good rep pgl view (snd (activate_role sv t i ro s2))"
    if "user_good rep pgl view s2" "\<forall>a. view s2 i = Some a \<longrightarrow> ro \<in> ac_roles a" for s2
    using activate_good [OF that(1) prod.collapse [symmetric] that(2)] .
  show "user_good rep pgl view (snd (SwitchRole sv t i ro s))"
  proof (cases "h = Inr True")
    case True
    with hr have "\<forall>a. view s1 i = Some a \<longrightarrow> ro \<in> ac_roles a" by (auto simp: reads_def)
    from a [OF g this] True assms h show ?thesis by (simp add: SwitchRole_def store)
  next
    case False
    with assms h g show ?thesis by (auto simp: SwitchRole_def store split: sum.splits)
  qed
  obtain q s2 where q: "ust_addRole st i ro s = (q, s2)" by fastforce
  note ar = add_role [OF good_rep [OF assms] q] and g2 = store_good(6) [OF assms q]
  show "user_good rep pgl view (snd (AddRole sv t i ro s))"
  proof (cases q)
    case (Inr z)
    with ar have "spec_exec pgl (CAddRole i ro) (view s) = Inr (view s2)" by (simp add: refines_by_def)
    then have "\<exists>a. view s2 = (view s)(i \<mapsto> a\<lparr>ac_roles := insert ro (ac_roles a)\<rparr>)"
      by (auto split: option.splits if_splits) (blast intro: sym)
    then have "\<forall>a. view s2 i = Some a \<longrightarrow> ro \<in> ac_roles a" by auto
    from a [OF g2 this] Inr assms q show ?thesis by (simp add: AddRole_def store)
  next
    case (Inl e)
    with assms q g2 show ?thesis by (simp add: AddRole_def store)
  qed
qed

lemma do_good: "user_good rep pgl view s \<Longrightarrow> user_good rep pgl view (user_do sv q s)"
  by (cases q) (simp_all add: op_keeps bind_keeps role_keeps request_keeps RequestLoginCode_def
      RequestPasswordReset_def)

lemma run_good: "user_good rep pgl view s \<Longrightarrow> user_good rep pgl view (fold (user_do sv) qs s)"
  by (induction qs arbitrary: s) (simp_all add: do_good)

end

subsection \<open>Who gets tokens\<close>

text \<open>The account an identifier names.\<close>

definition user_ident :: "(string \<Rightarrow> string) \<Rightarrow> (string \<Rightarrow> string) \<Rightarrow> string \<Rightarrow> acct \<Rightarrow> bool" where
  "user_ident uni pgl x =
     (if isEmail x then has_email pgl (Some (normalizeEmail uni x)) else has_phone (Some (normalizePhone x)))"

text \<open>An access token for an account: it is enabled, and the token acts as its last active role,
  which it holds.\<close>

definition entitled ::
  "jwt_lib \<Rightarrow> token_manager \<Rightarrow> time \<Rightarrow> accts \<Rightarrow> uuid \<Rightarrow> string \<Rightarrow> bool" where
  "entitled L tm now m i access \<longleftrightarrow>
     (\<exists>a role. m i = Some a \<and> ac_status a = UserActive \<and> ac_last a = Some role \<and> role \<in> ac_roles a \<and>
        Generate L tm now i role = Inr access)"

lemma activeRole_last:
  assumes "shows_acct a u" and "acct_ok a"
  shows "ac_last a = Some (activeRole u) \<and> activeRole u \<in> ac_roles a"
  using assms by (auto simp: shows_acct_def acct_ok_def activeRole_def list_ex_iff opt_string_def split: option.splits)

context user_service_laws begin

lemma lookup_Inr:
  assumes "rep s" and "user_lookup sv x s = (r, s1)"
  shows "finds rep view up (\<lambda>j. user_ident (usv_uni sv) pgl x) r s s1"
  using by_email [OF assms(1)] by_phone [OF assms(1)] assms(2)
  by (auto simp: user_lookup_def store user_ident_def split: if_splits)

lemma found:
  assumes "user_good rep pgl view s" and "finds rep view up Q (Inr u) s s1"
  shows "\<exists>a. view s (us_id u) = Some a \<and> Q (us_id u) a \<and> us_hash u = ac_hash a \<and>
    us_status u = ac_status a \<and> ac_last a = Some (activeRole u) \<and> activeRole u \<in> ac_roles a \<and>
    (ac_status a = UserActive \<or> ac_status a = UserDisabled)"
proof -
  from assms(2) obtain a where a: "view s (us_id u) = Some a" "Q (us_id u) a" "shows_acct a u"
    by (auto simp: finds_def)
  then have "acct_ok a" using assms(1) by (auto simp: user_good_def accts_inv_def)
  with a activeRole_last [OF a(3)] show ?thesis
    by (auto simp: shows_acct_def acct_ok_def user_status_valid_def)
qed

lemma issue_Inr:
  assumes "user_issue sv dr u s = (Inr (x, access, refresh), s')"
  shows "x = u \<and> Generate (usv_jwt sv) (usv_token sv) (is_now dr) (us_id u) (activeRole u) = Inr access"
  using assms by (auto simp: user_issue_def split: sum.splits prod.splits)

lemma login_entitled:
  assumes "user_good rep pgl view s" and "LoginPassword sv dr x pw s = (Inr (u, access, refresh), s')"
  shows "\<exists>a. view s (us_id u) = Some a \<and> user_ident (usv_uni sv) pgl x a \<and> bc_compare (usv_bcrypt sv) (ac_hash a) pw \<and>
    entitled (usv_jwt sv) (usv_token sv) (is_now dr) (view s) (us_id u) access"
proof -
  from assms(2) obtain v s1 where l: "user_lookup sv x s = (Inr v, s1)"
    and b: "bc_compare (usv_bcrypt sv) (us_hash v) pw" "us_status v \<noteq> UserDisabled"
    and i: "user_issue sv dr v s1 = (Inr (u, access, refresh), s')"
    by (auto simp: LoginPassword_def split: sum.splits prod.splits if_splits)
  from found [OF assms(1) lookup_Inr [OF good_rep [OF assms(1)] l]] b issue_Inr [OF i]
  show ?thesis by (auto simp: entitled_def)
qed

lemma code_entitled:
  assumes "user_good rep pgl view s" and "LoginCode sv t dr x c s = (Inr (u, access, refresh), s')"
  shows "\<exists>a. view s (us_id u) = Some a \<and> user_ident (usv_uni sv) pgl x a \<and>
    fst (cd_verify (usv_codes sv) t (normalizeIdentifier (usv_uni sv) x) ''login'' c (snd (user_lookup sv x s))) = Inr () \<and>
    entitled (usv_jwt sv) (usv_token sv) (is_now dr) (view s) (us_id u) access"
proof -
  from assms(2) obtain v s1 s2 where l: "user_lookup sv x s = (Inr v, s1)"
    and b: "cd_verify (usv_codes sv) t (normalizeIdentifier (usv_uni sv) x) ''login'' c s1 = (Inr (), s2)"
      "us_status v \<noteq> UserDisabled"
    and i: "user_issue sv dr v s2 = (Inr (u, access, refresh), s')"
    by (auto simp: LoginCode_def split: sum.splits prod.splits if_splits)
  from found [OF assms(1) lookup_Inr [OF good_rep [OF assms(1)] l]] b l issue_Inr [OF i]
  show ?thesis by (auto simp: entitled_def)
qed

lemma refresh_entitled:
  assumes "user_good rep pgl view s" and "Refresh sv dr raw s = (Inr (access, refresh), s')"
  shows "\<exists>i. fst (se_rotate (usv_sessions sv) (is_sess dr) raw s) = Inr (i, refresh) \<and>
    entitled (usv_jwt sv) (usv_token sv) (is_now dr) (view s) i access"
proof -
  from assms(2) obtain i s1 u s2 where r: "se_rotate (usv_sessions sv) (is_sess dr) raw s = (Inr (i, refresh), s1)"
    and g: "ust_getByID st i s1 = (Inr u, s2)" and d: "us_status u \<noteq> UserDisabled"
    and t: "Generate (usv_jwt sv) (usv_token sv) (is_now dr) i (activeRole u) = Inr access"
    by (auto simp: Refresh_def store split: sum.splits prod.splits if_splits)
  have g1: "user_good rep pgl view s1" using env_good(2) [OF assms(1) r] .
  have v: "view s1 = view s" using sessions(2) [OF good_rep [OF assms(1)] r] by (simp add: reads_def)
  from found [OF g1 by_id [OF good_rep [OF g1] g]] d t r v show ?thesis by (auto simp: entitled_def)
qed

end

end
