(* ===== verification/UserProps.thy ===== *)
theory UserProps
  imports UserRefine UserInv
begin

text \<open>
  The repository and the wired service satisfy the contracts of \<open>UserInv\<close>, and the properties of
  the web accounts.
\<close>

subsection \<open>The repository\<close>

abbreviation (input) w_rep :: "(id_db, 'z) pgs_scheme \<Rightarrow> bool" where "w_rep \<equiv> \<lambda>w. user_rep (tables w)"
abbreviation (input) w_view :: "(id_db, 'z) pgs_scheme \<Rightarrow> accts" where "w_view \<equiv> \<lambda>w. abs_user (tables w)"
abbreviation (input) w_up :: "(id_db, 'z) pgs_scheme \<Rightarrow> bool" where "w_up \<equiv> \<lambda>w. fates w = []"

lemma query_reads: "user_rep (tables w) \<Longrightarrow> pg_query f w = (r, w') \<Longrightarrow> reads w_rep w_view w_up w w'"
  by (auto simp: reads_def dest: pg_query_snd)

lemma query_healthy_eq: "fates w = [] \<Longrightarrow> pg_query f w = (r, w') \<Longrightarrow> r = f (tables w) \<and> w' = w"
  by (auto simp: pg_query_healthy)

lemma query_Inl: "pg_query f w = (Inl e, w') \<Longrightarrow> e = ConnLost \<or> f (tables w) = Inl e"
  by (auto simp: pg_query_def pg_stmt_def split: fate.splits sum.splits)

lemma reads_trans: "reads rep view up s s1 \<Longrightarrow> reads rep view up s1 s2 \<Longrightarrow> reads rep view up s s2"
  by (simp add: reads_def)

lemma set_sql_roles: "set (sql_roles i d) = roles_of d i"
  by (auto simp: sql_roles_def roles_of_def image_iff)

lemma shows_scan: "roles = sql_roles (ur_id r) d \<Longrightarrow> shows_acct (acct_of d r) (scanUser r roles)"
  by (simp add: shows_acct_def acct_of_def scanUser_def set_sql_roles)

lemma getOne_finds:
  assumes "user_rep (tables w)" and "user_getOne P w = (r, w')"
    and "\<And>x. P x \<longleftrightarrow> Q (ur_id x) (acct_of (tables w) x)"
  shows "finds w_rep w_view w_up Q r w w'"
proof -
  obtain f w1 where f: "pg_query (sql_user_where P) w = (f, w1)" by fastforce
  note r1 = query_reads [OF assms(1) f]
  then have rep1: "user_rep (tables w1)" by (simp add: reads_def)
  have t1: "tables w1 = tables w" using pg_query_snd [OF f] by simp
  show ?thesis
  proof (cases f)
    case (Inl e)
    with assms(2) f have w': "w' = w1" "r = (if e = NoRows then Inl user_ErrNotFound else Inl (Wrapped ''query user'' (PgErr e)))"
      by (simp_all add: user_getOne_def split: if_splits)
    have "e = NoRows \<and> (\<forall>x \<in> set (users (tables w)). \<not> P x)" if "fates w = []"
      using query_healthy_eq [OF that f] Inl
      by (auto simp: sql_user_where_def find_None_iff split: option.splits)
    with w' r1 assms(3) show ?thesis by (auto simp: finds_def abs_user_Some [OF assms(1)])
  next
    case (Inr x)
    obtain g w2 where g: "loadRoles (ur_id x) w1 = (g, w2)" by fastforce
    obtain h where q: "pg_query (\<lambda>d. Inr (sql_roles (ur_id x) d)) w1 = (h, w2)"
      and gh: "\<forall>l. g = Inr l \<longrightarrow> h = Inr l" "\<forall>e. g = Inl e \<longrightarrow> (\<exists>e'. h = Inl e')"
      using g by (cases "pg_query (\<lambda>d. Inr (sql_roles (ur_id x) d)) w1")
        (auto simp: loadRoles_def wrap_err_def split: sum.splits)
    from f Inr have x: "x \<in> set (users (tables w))" "P x"
      by (auto simp: pg_query_Inr sql_user_where_def split: option.splits dest: find_SomeD)
    have roles: "l = sql_roles (ur_id x) (tables w)" if "g = Inr l" for l
      using gh(1) that q t1 by (auto simp: pg_query_Inr)
    have up: "\<exists>l. g = Inr l" if "fates w = []"
    proof -
      have "fates w1 = []" using r1 that by (simp add: reads_def)
      from query_healthy_eq [OF this q] gh(2) show ?thesis by (cases g) auto
    qed
    have w': "w' = w2" "r = (case g of Inl e \<Rightarrow> Inl e | Inr l \<Rightarrow> Inr (scanUser x l))"
      using assms(2) f Inr g by (auto simp: user_getOne_def split: sum.splits)
    have sh: "us_id (scanUser x l) = ur_id x" for l by (simp add: scanUser_def)
    show ?thesis
      using w' up roles x assms(3) [of x] shows_scan reads_trans [OF r1 query_reads [OF rep1 q]]
      by (cases g) (auto simp: finds_def sh abs_user_Some [OF assms(1)])
  qed
qed

lemma getSettings_reads:
  assumes "user_rep (tables w)" and "user_getSettings i w = (g, w')"
  shows "reads w_rep w_view w_up w w' \<and> (\<forall>x. g = Inr x \<longrightarrow> x = settings_value (abs_user (tables w) i)) \<and>
    (fates w = [] \<longrightarrow> (\<exists>x. g = Inr x))"
proof -
  obtain f where f: "pg_query (sql_settings i) w = (f, w')"
    and g: "g = (case f of Inl e \<Rightarrow> if e = NoRows then Inr None else Inl (Wrapped ''query learning settings'' (PgErr e))
      | Inr (Some l, Some v) \<Rightarrow> Inr (Some \<lparr>ls_level = l, ls_variant = v\<rparr>) | Inr _ \<Rightarrow> Inr None)"
    using assms(2) by (cases "pg_query (sql_settings i) w")
      (auto simp: user_getSettings_def split: sum.splits option.splits if_splits)
  have t: "tables w' = tables w" using pg_query_snd [OF f] by simp
  have s: "settings_value (abs_user (tables w) i) =
      map_option (\<lambda>(l, v). \<lparr>ls_level = l, ls_variant = v\<rparr>) (settings_of (tables w) i)"
  proof (cases "abs_user (tables w) i")
    case None
    with no_orphans(2) [OF assms(1), of i] abs_user_None [of "tables w" i] show ?thesis
      by (simp add: settings_value_def)
  next
    case (Some a)
    then have "ac_settings a = settings_of (tables w) i" by (auto simp: abs_user_Some [OF assms(1)] acct_of_def)
    with Some show ?thesis by (simp add: settings_value_def)
  qed
  show ?thesis
    using query_reads [OF assms(1) f] f g s query_healthy_eq [OF _ f]
    by (auto simp: pg_query_Inr settings_of_def sql_settings_def split: sum.splits option.splits dest!: query_Inl)
qed

interpretation usr_repo: user_store_laws "user_repo pgl" w_rep w_view w_up pgl for pgl
proof unfold_locales
  fix s s' :: "(id_db, 'a) pgs_scheme" and u role r
  assume h: "user_rep (tables s)" "ust_create (user_repo pgl) u role s = (r, s')"
  then have c: "user_create pgl u role s = (r, s')" by (simp add: user_repo_def)
  then have "\<forall>x. r = Inr x \<longrightarrow> (\<exists>c m. x = u\<lparr>us_roles := [role], us_last := role, us_created := c, us_updated := m\<rparr>)"
    by (auto simp: user_create_def split: prod.splits sum.splits)
  with create_refines [OF h(1) c]
  show "refines (spec_exec pgl (CCreate u role)) r s s' \<and>
    (\<forall>x. r = Inr x \<longrightarrow> (\<exists>c m. x = u\<lparr>us_roles := [role], us_last := role, us_created := c, us_updated := m\<rparr>))" by blast
next
  fix s s' :: "(id_db, 'a) pgs_scheme" and i r
  assume "user_rep (tables s)" "ust_getByID (user_repo pgl) i s = (r, s')"
  then show "finds w_rep w_view w_up (\<lambda>j a. j = i) r s s'"
  proof -
    assume h: "user_rep (tables s)" "ust_getByID (user_repo pgl) i s = (r, s')"
    then have "user_getOne (\<lambda>r. ur_id r = i) s = (r, s')" by (simp add: user_repo_def user_getByID_def)
    from getOne_finds [OF h(1) this] show ?thesis by simp
  qed
next
  fix s s' :: "(id_db, 'a) pgs_scheme" and p r
  assume h: "user_rep (tables s)" "ust_getByPhone (user_repo pgl) p s = (r, s')"
  then have "user_getOne (same_phone (Some p)) s = (r, s')" by (simp add: user_repo_def user_getByPhone_def)
  from getOne_finds [OF h(1) this] show "finds w_rep w_view w_up (\<lambda>j a. has_phone (Some p) a) r s s'" by simp
next
  fix s s' :: "(id_db, 'a) pgs_scheme" and e r
  assume h: "user_rep (tables s)" "ust_getByEmail (user_repo pgl) e s = (r, s')"
  then have "user_getOne (same_email pgl (Some e)) s = (r, s')" by (simp add: user_repo_def user_getByEmail_def)
  from getOne_finds [OF h(1) this] show "finds w_rep w_view w_up (\<lambda>j a. has_email pgl (Some e) a) r s s'" by simp
next
  fix s s' :: "(id_db, 'a) pgs_scheme" and i role h
  assume a: "user_rep (tables s)" "ust_hasRole (user_repo pgl) i role s = (h, s')"
  then obtain f where f: "pg_query (\<lambda>d. Inr ((i, role) \<in> set (user_roles d))) s = (f, s')"
    and h: "h = (case f of Inl e \<Rightarrow> Inl (Wrapped ''check role'' (PgErr e)) | Inr b \<Rightarrow> Inr b)"
    by (cases "pg_query (\<lambda>d. Inr ((i, role) \<in> set (user_roles d))) s")
      (auto simp: user_repo_def user_hasRole_def wrap_err_def split: sum.splits)
  show "reads w_rep w_view w_up s s' \<and>
      (\<forall>b. h = Inr b \<longrightarrow> b = (\<exists>a. abs_user (tables s) i = Some a \<and> role \<in> ac_roles a)) \<and>
      (fates s = [] \<longrightarrow> (\<exists>b. h = Inr b))"
    using query_reads [OF a(1) f] query_healthy_eq [OF _ f] abs_user_roles [OF a(1), of i role] f h
    by (auto simp: pg_query_Inr split: sum.splits)
next
  fix s s' :: "(id_db, 'a) pgs_scheme" and i g
  assume "user_rep (tables s)" "ust_getSettings (user_repo pgl) i s = (g, s')"
  then show "reads w_rep w_view w_up s s' \<and> (\<forall>x. g = Inr x \<longrightarrow> x = settings_value (abs_user (tables s) i)) \<and>
      (fates s = [] \<longrightarrow> (\<exists>x. g = Inr x))"
    using getSettings_reads by (simp add: user_repo_def)
next
  fix s s' :: "(id_db, 'a) pgs_scheme" and i role q
  assume "user_rep (tables s)" "ust_addRole (user_repo pgl) i role s = (q, s')"
  then show "refines (spec_exec pgl (CAddRole i role)) q s s'"
    using repo_exec_refines [of s pgl "CAddRole i role"] by (simp add: user_repo_def del: spec_exec.simps)
next
  fix s s' :: "(id_db, 'a) pgs_scheme" and i role q
  assume "user_rep (tables s)" "ust_setActiveRole (user_repo pgl) i role s = (q, s')"
  then show "refines (spec_exec pgl (CSetActiveRole i role)) q s s'"
    using repo_exec_refines [of s pgl "CSetActiveRole i role"] by (simp add: user_repo_def del: spec_exec.simps)
next
  fix s s' :: "(id_db, 'a) pgs_scheme" and i ls q
  assume "user_rep (tables s)" "ust_setSettings (user_repo pgl) i ls s = (q, s')"
  then show "refines (spec_exec pgl (CSetSettings i ls)) q s s'"
    using repo_exec_refines [of s pgl "CSetSettings i ls"] by (simp add: user_repo_def del: spec_exec.simps)
next
  fix s s' :: "(id_db, 'a) pgs_scheme" and i x q
  assume "user_rep (tables s)" "ust_setPassword (user_repo pgl) i x s = (q, s')"
  then show "refines (spec_exec pgl (CSetPassword i x)) q s s'"
    using repo_exec_refines [of s pgl "CSetPassword i x"] by (simp add: user_repo_def del: spec_exec.simps)
next
  fix s s' :: "(id_db, 'a) pgs_scheme" and i x q
  assume "user_rep (tables s)" "ust_setDisplayName (user_repo pgl) i x s = (q, s')"
  then show "refines (spec_exec pgl (CSetDisplayName i x)) q s s'"
    using repo_exec_refines [of s pgl "CSetDisplayName i x"] by (simp add: user_repo_def del: spec_exec.simps)
next
  fix s s' :: "(id_db, 'a) pgs_scheme" and i ch x q
  assume "user_rep (tables s)" "ust_setContact (user_repo pgl) i ch x s = (q, s')"
  then show "refines (spec_exec pgl (CSetContact i ch x)) q s s'"
    using repo_exec_refines [of s pgl "CSetContact i ch x"] by (simp add: user_repo_def del: spec_exec.simps)
next
  fix s s' :: "(id_db, 'a) pgs_scheme" and i q
  assume "user_rep (tables s)" "ust_delete (user_repo pgl) i s = (q, s')"
  then show "refines (spec_exec pgl (CDelete i)) q s s'"
    using repo_exec_refines [of s pgl "CDelete i"] by (simp add: user_repo_def del: spec_exec.simps)
qed

subsection \<open>Codes and sessions keep off the accounts\<close>

definition account_tables :: "id_db \<Rightarrow> user_row list \<times> (uuid \<times> string) list \<times> student_row list \<times> uuid list" where
  "account_tables d = (users d, user_roles d, student_profiles d, teacher_profiles d)"

lemma same_accounts:
  assumes "account_tables d' = account_tables d"
  shows "user_rep d' = user_rep d" and "abs_user d' = abs_user d"
proof -
  have "acct_of d' = acct_of d"
    using assms by (simp add: fun_eq_iff acct_of_def roles_of_def settings_of_def sql_settings_def account_tables_def)
  then show "user_rep d' = user_rep d" and "abs_user d' = abs_user d"
    using assms by (simp_all add: user_rep_def account_tables_def abs_user_def [abs_def])
qed

lemma same_reads:
  assumes "user_rep (tables w)" and "account_tables (tables w') = account_tables (tables w)"
    and "fates w = [] \<Longrightarrow> fates w' = []"
  shows "reads w_rep w_view w_up w w'"
  using assms same_accounts [OF assms(2)] by (simp add: reads_def)

lemma stmt_up: "fates w = [] \<Longrightarrow> fates (snd (pg_stmt f w)) = []" "fates w = [] \<Longrightarrow> fates (snd (pg_query g w)) = []"
  by (simp_all add: pg_stmt_healthy pg_query_healthy split: sum.splits prod.splits)

lemmas up_rules = state_keeps [where P = "\<lambda>w. fates w = []"] stmt_up

lemma token_ops_up:
  assumes "fates w = []"
  shows "fates (snd (token_save T t w)) = []" and "fates (snd (token_find T h w)) = []"
    and "fates (snd (token_revoke T i w)) = []" and "fates (snd (token_revoke_all T u w)) = []"
  unfolding token_save_def token_find_def token_revoke_def token_revoke_all_def wrap_err_def
  by (intro up_rules assms | assumption)+

lemma sess_new_up: "fates w = [] \<Longrightarrow> fates (snd (sess_issue_new (token_store T) ttl dr u w)) = []"
  unfolding sess_issue_new_def token_store_def session_store.simps
  by (intro up_rules token_ops_up | assumption)+

lemma sess_ops_up:
  assumes "fates w = []"
  shows "fates (snd (sess_issue (token_store T) ttl dr u w)) = []"
    and "fates (snd (sess_rotate (token_store T) ttl dr raw w)) = []"
    and "fates (snd (sess_revoke (token_store T) raw w)) = []"
    and "fates (snd (sess_revoke_all (token_store T) u w)) = []"
  unfolding sess_issue_def sess_rotate_def sess_revoke_def sess_revoke_all_def
  by (simp only: token_store_def session_store.simps, intro up_rules token_ops_up
      sess_new_up [unfolded token_store_def] assms | assumption)+

lemma otp_ops_frame:
  assumes "\<And>cs d. F (d\<lparr>verification_codes := cs\<rparr>) = F d"
  shows "otp_save c w = (a, w1) \<Longrightarrow> F (tables w1) = F (tables w) \<and> (fates w = [] \<longrightarrow> fates w1 = [])"
    and "otp_latest t p w = (a, w1) \<Longrightarrow> F (tables w1) = F (tables w) \<and> (fates w = [] \<longrightarrow> fates w1 = [])"
    and "otp_consume i w = (q, w1) \<Longrightarrow> F (tables w1) = F (tables w) \<and> (fates w = [] \<longrightarrow> fates w1 = [])"
    and "otp_increment i w = (q, w1) \<Longrightarrow> F (tables w1) = F (tables w) \<and> (fates w = [] \<longrightarrow> fates w1 = [])"
    and "otp_count t p n w = (k, w1) \<Longrightarrow> F (tables w1) = F (tables w) \<and> (fates w = [] \<longrightarrow> fates w1 = [])"
  using assms
  by (auto simp: otp_save_def otp_latest_def otp_consume_def otp_increment_def otp_count_def wrap_err_def
      pg_query_def pg_stmt_def sql_code_insert_def sql_mark_consumed_def sql_increment_attempts_def
      split: prod.splits sum.splits fate.splits if_splits)

lemma otp_service_frame:
  assumes "\<And>cs d. F (d\<lparr>verification_codes := cs\<rparr>) = F d"
  shows "Verify (mock_service ttl cd dl) now t p c w = (q, w1) \<Longrightarrow>
      F (tables w1) = F (tables w) \<and> (fates w = [] \<longrightarrow> fates w1 = [])"
    and "RequestCode (mock_service ttl cd dl) od t p w = Some (q, w1) \<Longrightarrow>
      F (tables w1) = F (tables w) \<and> (fates w = [] \<longrightarrow> fates w1 = [])"
proof -
  note f = otp_ops_frame [of F, OF assms]
  show "Verify (mock_service ttl cd dl) now t p c w = (q, w1) \<Longrightarrow>
      F (tables w1) = F (tables w) \<and> (fates w = [] \<longrightarrow> fates w1 = [])"
    using f(2-4) by (fastforce simp: Verify_def otp_repo_def split: sum.splits prod.splits if_splits)
  have c: "F (tables w1) = F (tables w) \<and> (fates w = [] \<longrightarrow> fates w1 = [])"
    if "checkRateLimit (mock_service ttl cd dl) n t p w = (q, w1)" for n q w1
    using that f(5) by (fastforce simp: checkRateLimit_def otp_repo_def split: sum.splits prod.splits if_splits)
  have s: "F (tables w1) = F (tables w) \<and> (fates w = [] \<longrightarrow> fates w1 = [])"
    if "o_sender (mock_service ttl cd dl) ch x y w = (q, w1)" for ch x y w q w1
    using that by (auto simp: mock_service_def mock_Send_def)
  show "RequestCode (mock_service ttl cd dl) od t p w = Some (q, w1) \<Longrightarrow>
      F (tables w1) = F (tables w) \<and> (fates w = [] \<longrightarrow> fates w1 = [])"
    using c f(1) s by (fastforce simp: RequestCode_def otp_repo_def split: sum.splits prod.splits option.splits)
qed

subsection \<open>The wired service\<close>

text \<open>As \<open>cmd/server\<close> wires it, over any libraries, with the mock sender.\<close>

record user_env =
  ue_jwt :: jwt_lib
  ue_token :: token_manager
  ue_ttl :: time
  ue_otp :: "mock_world otp_service"
  ue_bcrypt :: bcrypt_lib
  ue_uni :: "string \<Rightarrow> string"
  ue_mail :: "string \<Rightarrow> string option"
  ue_pgl :: "string \<Rightarrow> string"

definition user_wired :: "user_env \<Rightarrow> mock_world user_service" where
  "user_wired E = \<lparr>usv_store = user_repo (ue_pgl E), usv_jwt = ue_jwt E, usv_token = ue_token E,
     usv_codes = otp_codes (ue_otp E), usv_sessions = session_service (token_store web_tokens) (ue_ttl E),
     usv_bcrypt = ue_bcrypt E, usv_uni = ue_uni E, usv_mail = ue_mail E\<rparr>"

text \<open>The codes are those of \<open>internal/otp\<close>; \<open>mail.ParseAddress\<close> yields an address, which is not
  empty.\<close>

definition env_ok :: "user_env \<Rightarrow> bool" where
  "env_ok E \<longleftrightarrow> (\<exists>ttl cd dl. ue_otp E = mock_service ttl cd dl) \<and> (\<forall>e x. ue_mail E e = Some x \<longrightarrow> x \<noteq> [])"

lemma user_wired_simps [simp]:
  "usv_store (user_wired E) = user_repo (ue_pgl E)" "usv_jwt (user_wired E) = ue_jwt E"
  "usv_token (user_wired E) = ue_token E" "usv_codes (user_wired E) = otp_codes (ue_otp E)"
  "usv_sessions (user_wired E) = session_service (token_store web_tokens) (ue_ttl E)"
  "usv_bcrypt (user_wired E) = ue_bcrypt E" "usv_uni (user_wired E) = ue_uni E" "usv_mail (user_wired E) = ue_mail E"
  by (simp_all add: user_wired_def)

lemma session_service_simps [simp]:
  "se_issue (session_service st ttl) = sess_issue st ttl" "se_rotate (session_service st ttl) = sess_rotate st ttl"
  "se_revoke (session_service st ttl) = sess_revoke st" "se_revoke_all (session_service st ttl) = sess_revoke_all st"
  by (simp_all add: session_service_def)

lemma otp_codes_simps [simp]: "cd_request (otp_codes o1) = RequestCode o1" "cd_verify (otp_codes o1) = Verify o1"
  by (simp_all add: otp_codes_def)

lemma sess_reads:
  assumes "user_rep (tables w)"
  shows "sess_issue (token_store web_tokens) ttl dr u w = (r1, w1) \<Longrightarrow> reads w_rep w_view w_up w w1"
    and "sess_rotate (token_store web_tokens) ttl dr raw w = (p1, w1) \<Longrightarrow> reads w_rep w_view w_up w w1"
    and "sess_revoke (token_store web_tokens) raw w = (q1, w1) \<Longrightarrow> reads w_rep w_view w_up w w1"
    and "sess_revoke_all (token_store web_tokens) u w = (q1, w1) \<Longrightarrow> reads w_rep w_view w_up w w1"
proof -
  have f: "account_tables (tt_put web_tokens ts d) = account_tables d" for ts d
    by (simp add: web_tokens_def account_tables_def)
  note fr = sess_ops_frame [of account_tables, OF f] and up = sess_ops_up [where T = web_tokens]
  show "sess_issue (token_store web_tokens) ttl dr u w = (r1, w1) \<Longrightarrow> reads w_rep w_view w_up w w1"
    using same_reads [OF assms] fr(1) [of ttl dr u w r1 w1] up(1) [of w ttl dr u] by simp
  show "sess_rotate (token_store web_tokens) ttl dr raw w = (p1, w1) \<Longrightarrow> reads w_rep w_view w_up w w1"
    using same_reads [OF assms] fr(2) [of ttl dr raw w p1 w1] up(2) [of w ttl dr raw] by simp
  show "sess_revoke (token_store web_tokens) raw w = (q1, w1) \<Longrightarrow> reads w_rep w_view w_up w w1"
    using same_reads [OF assms] fr(3) [of raw w q1 w1] up(3) [of w raw] by simp
  show "sess_revoke_all (token_store web_tokens) u w = (q1, w1) \<Longrightarrow> reads w_rep w_view w_up w w1"
    using same_reads [OF assms] fr(4) [of u w q1 w1] up(4) [of w u] by simp
qed

lemma otp_reads:
  assumes "user_rep (tables w)" and "env_ok E"
  shows "RequestCode (ue_otp E) od t p w = Some (q, w1) \<Longrightarrow> reads w_rep w_view w_up w w1"
    and "Verify (ue_otp E) now t p c w = (q, w1) \<Longrightarrow> reads w_rep w_view w_up w w1"
proof -
  have f: "account_tables (d\<lparr>verification_codes := cs\<rparr>) = account_tables d" for cs d
    by (simp add: account_tables_def)
  from assms(2) obtain ttl cd dl where o1: "ue_otp E = mock_service ttl cd dl" by (auto simp: env_ok_def)
  note fr = otp_service_frame [of account_tables, OF f]
  show "RequestCode (ue_otp E) od t p w = Some (q, w1) \<Longrightarrow> reads w_rep w_view w_up w w1"
    using same_reads [OF assms(1)] fr(2) [of ttl cd dl od t p w q w1] by (simp add: o1)
  show "Verify (ue_otp E) now t p c w = (q, w1) \<Longrightarrow> reads w_rep w_view w_up w w1"
    using same_reads [OF assms(1)] fr(1) [of ttl cd dl now t p c w q w1] by (simp add: o1)
qed

text \<open>The interpretation, over any environment made fit for the contract.\<close>

definition fit_env :: "user_env \<Rightarrow> user_env" where
  "fit_env E = (if env_ok E then E else E\<lparr>ue_otp := mock_service 0 0 0, ue_mail := (\<lambda>_. None)\<rparr>)"

lemma fit_env_ok [simp]: "env_ok (fit_env E)" "env_ok E \<Longrightarrow> fit_env E = E"
  by (auto simp: fit_env_def env_ok_def)

lemma fit_env_pgl [simp]: "ue_pgl (fit_env E) = ue_pgl E"
  by (simp add: fit_env_def)

interpretation usr: user_service_laws "user_repo (ue_pgl E)" w_rep w_view w_up "ue_pgl E" "user_wired (fit_env E)" for E
proof unfold_locales
  show "usv_store (user_wired (fit_env E)) = user_repo (ue_pgl E)" by simp
next
  fix s s' :: mock_world and d i p1
  assume "user_rep (tables s)" "se_issue (usv_sessions (user_wired (fit_env E))) d i s = (p1, s')"
  then show "reads w_rep w_view w_up s s'" using sess_reads(1) by simp
next
  fix s s' :: mock_world and d raw p2
  assume "user_rep (tables s)" "se_rotate (usv_sessions (user_wired (fit_env E))) d raw s = (p2, s')"
  then show "reads w_rep w_view w_up s s'" using sess_reads(2) by simp
next
  fix s s' :: mock_world and raw p3
  assume "user_rep (tables s)" "se_revoke (usv_sessions (user_wired (fit_env E))) raw s = (p3, s')"
  then show "reads w_rep w_view w_up s s'" using sess_reads(3) by simp
next
  fix s s' :: mock_world and i p4
  assume "user_rep (tables s)" "se_revoke_all (usv_sessions (user_wired (fit_env E))) i s = (p4, s')"
  then show "reads w_rep w_view w_up s s'" using sess_reads(4) by simp
next
  fix s s' :: mock_world and od t p c1
  assume "user_rep (tables s)" "cd_request (usv_codes (user_wired (fit_env E))) od t p s = Some (c1, s')"
  then show "reads w_rep w_view w_up s s'" using otp_reads(1) [OF _ fit_env_ok(1)] by simp
next
  fix s s' :: mock_world and now t p c c2
  assume "user_rep (tables s)" "cd_verify (usv_codes (user_wired (fit_env E))) now t p c s = (c2, s')"
  then show "reads w_rep w_view w_up s s'" using otp_reads(2) [OF _ fit_env_ok(1)] by simp
next
  fix e x assume "usv_mail (user_wired (fit_env E)) e = Some x"
  then show "x \<noteq> []" using fit_env_ok(1) [of E] by (auto simp: env_ok_def)
qed

subsection \<open>Properties\<close>

text \<open>C9: the repository of the accounts implements its abstract specification. Every command keeps
  the tables well formed; a success has exactly the specified effect on the accounts; a failure
  has none, or the specified one when only the answer was lost; and on a healthy connection the
  command fails exactly when, and with the error that, the specification says.\<close>

theorem user_repo_refines:
  assumes "user_rep (tables w)" and "repo_exec pgl c w = (r, w')"
  shows "user_rep (tables w') \<and>
    (r = Inr () \<longrightarrow> spec_exec pgl c (abs_user (tables w)) = Inr (abs_user (tables w'))) \<and>
    (r \<noteq> Inr () \<longrightarrow> abs_user (tables w') = abs_user (tables w) \<or>
       spec_exec pgl c (abs_user (tables w)) = Inr (abs_user (tables w'))) \<and>
    (fates w = [] \<longrightarrow> (\<forall>e. r = Inl e \<longleftrightarrow> spec_exec pgl c (abs_user (tables w)) = Inl e))"
  using repo_exec_refines [OF assms] by (cases r) (auto simp: refines_by_def)

text \<open>The invariant, on the rows.\<close>

definition user_inv :: "(string \<Rightarrow> string) \<Rightarrow> id_db \<Rightarrow> bool" where
  "user_inv pgl d \<longleftrightarrow> user_rep d \<and> accts_inv pgl (abs_user d)"

text \<open>C17: no sequence of requests breaks the accounts. Whatever the requests, their draws and the
  statements lost on the way: ids, phones and emails stay unique, every account keeps an
  identifier, legal values, a role profile per role, and the role it acts as among its roles.\<close>

theorem user_invariant:
  assumes "user_inv (ue_pgl E) (tables w)" and "env_ok E"
  shows "user_inv (ue_pgl E) (tables (fold (user_do (user_wired E)) qs w))"
  using usr.run_good [of E w qs] assms by (simp add: user_good_def user_inv_def)

text \<open>C31: tokens only for whom they are meant. A login by password or by code and a refresh that
  succeed yield an access token generated for the account that the identifier names, or that
  owns the refresh token, while it is enabled, acting as its last active role, which it holds;
  the password matched its hash, or the code was accepted.\<close>

theorem user_tokens_entitled:
  assumes "user_inv (ue_pgl E) (tables w)" and "env_ok E"
  shows "(\<forall>u access refresh. fst (LoginPassword (user_wired E) dr x pw w) = Inr (u, access, refresh) \<longrightarrow>
      (\<exists>a. abs_user (tables w) (us_id u) = Some a \<and> user_ident (ue_uni E) (ue_pgl E) x a \<and>
         bc_compare (ue_bcrypt E) (ac_hash a) pw \<and>
         entitled (ue_jwt E) (ue_token E) (is_now dr) (abs_user (tables w)) (us_id u) access)) \<and>
    (\<forall>u access refresh. fst (LoginCode (user_wired E) t dr x code w) = Inr (u, access, refresh) \<longrightarrow>
      (\<exists>a. abs_user (tables w) (us_id u) = Some a \<and> user_ident (ue_uni E) (ue_pgl E) x a \<and>
         fst (Verify (ue_otp E) t (normalizeIdentifier (ue_uni E) x) ''login'' code
           (snd (user_lookup (user_wired E) x w))) = Inr () \<and>
         entitled (ue_jwt E) (ue_token E) (is_now dr) (abs_user (tables w)) (us_id u) access)) \<and>
    (\<forall>access refresh. fst (Refresh (user_wired E) dr raw w) = Inr (access, refresh) \<longrightarrow>
      (\<exists>i. fst (sess_rotate (token_store web_tokens) (ue_ttl E) (is_sess dr) raw w) = Inr (i, refresh) \<and>
         entitled (ue_jwt E) (ue_token E) (is_now dr) (abs_user (tables w)) i access))"
proof -
  have g: "user_good w_rep (ue_pgl E) w_view w" using assms(1) by (simp add: user_good_def user_inv_def)
  note f = fit_env_ok(2) [OF assms(2)]
  show ?thesis
    using usr.login_entitled [OF g, of dr x pw] usr.code_entitled [OF g, of t dr x code]
      usr.refresh_entitled [OF g, of dr raw]
    unfolding f by (fastforce simp: prod_eq_iff)
qed

subsection \<open>An example\<close>

definition demo_student :: user_row where
  "demo_student = \<lparr>ur_id = 7, ur_phone = Some ''13800'', ur_email = None, ur_hash = ''hpw'', ur_name = ''Li'',
     ur_avatar = [], ur_status = UserActive, ur_last_role = Some RoleStudent, ur_created = 0, ur_updated = 0\<rparr>"

definition demo_users :: mock_world where
  "demo_users = \<lparr>tables = empty_id_db\<lparr>users := [demo_student], user_roles := [(7, RoleStudent)],
     student_profiles := [\<lparr>sp_user = 7, sp_level = None, sp_variant = None\<rparr>]\<rparr>,
     fates = [], pg_now = 5, last_sent = Map.empty\<rparr>"

definition demo_uenv :: user_env where
  "demo_uenv = \<lparr>ue_jwt = demo_jwt, ue_token = demo_web_tm, ue_ttl = 10, ue_otp = mock_service 600 60 10,
     ue_bcrypt = demo_bcrypt, ue_uni = id, ue_mail = (\<lambda>e. if e = [] then None else Some e), ue_pgl = id\<rparr>"

lemma demo_uenv_ok: "env_ok demo_uenv"
  by (auto simp: env_ok_def demo_uenv_def)

definition demo_acct :: acct where
  "demo_acct = \<lparr>ac_phone = Some ''13800'', ac_email = None, ac_hash = ''hpw'', ac_name = ''Li'', ac_avatar = [],
     ac_status = UserActive, ac_roles = {RoleStudent}, ac_last = Some RoleStudent, ac_settings = None\<rparr>"

lemma demo_abs: "abs_user (tables demo_users) = [7 \<mapsto> demo_acct]"
  by (rule ext) (simp add: abs_user_def demo_users_def demo_student_def acct_of_def roles_of_def settings_of_def
      sql_settings_def demo_acct_def empty_id_db_def)

lemma demo_rep: "user_rep (tables demo_users)"
  by (auto simp: user_rep_def demo_users_def demo_student_def role_valid_def empty_id_db_def)

lemma demo_user_inv: "user_inv (ue_pgl demo_uenv) (tables demo_users)"
  using demo_rep
  by (auto simp: user_inv_def demo_abs accts_inv_def acct_ok_def demo_acct_def user_status_valid_def role_valid_def
      split: if_splits)

definition demo_draw0 :: issue_draw where
  "demo_draw0 = \<lparr>is_now = 0, is_sess = demo_draw\<rparr>"

theorem user_repo_refines_witness:
  "spec_exec id (CSetContact 7 ''phone'' ''13900'') [7 \<mapsto> demo_acct] =
     Inr (abs_user (tables (snd (repo_exec id (CSetContact 7 ''phone'' ''13900'') demo_users)))) \<and>
   fst (repo_exec id (CAddRole 7 ''boss'') demo_users) =
     Inl (check_err ''insert role'' ''user_roles_role_check'')"
proof
  have "fst (repo_exec id (CSetContact 7 ''phone'' ''13900'') demo_users) = Inr ()"
    by (simp add: user_setContact_def pg_stmt_healthy sql_user_contact_def sql_user_update_def user_count_def
        demo_users_def demo_student_def)
  with user_repo_refines [OF demo_rep prod.collapse [symmetric], of id "CSetContact 7 ''phone'' ''13900''"]
  show "spec_exec id (CSetContact 7 ''phone'' ''13900'') [7 \<mapsto> demo_acct] =
     Inr (abs_user (tables (snd (repo_exec id (CSetContact 7 ''phone'' ''13900'') demo_users))))"
    by (simp add: demo_abs)
  have "fates demo_users = []" by (simp add: demo_users_def)
  with user_repo_refines [OF demo_rep prod.collapse [symmetric], of id "CAddRole 7 ''boss''"]
  show "fst (repo_exec id (CAddRole 7 ''boss'') demo_users) = Inl (check_err ''insert role'' ''user_roles_role_check'')"
    by (simp add: demo_abs role_valid_def del: repo_exec.simps)
qed

theorem user_invariant_witness:
  "user_inv id (tables (fold (user_do (user_wired demo_uenv))
     [QRegister 8 0 demo_draw0 ''13800'' [] ''pw'' ''Wu'' ''teacher'', QSwitchRole 1 7 ''teacher'',
      QAddRole 1 7 ''teacher'', QDeleteAccount 2 7 ''email'' ''000000''] demo_users))"
  using user_invariant [OF demo_user_inv demo_uenv_ok,
      of "[QRegister 8 0 demo_draw0 ''13800'' [] ''pw'' ''Wu'' ''teacher'', QSwitchRole 1 7 ''teacher'',
      QAddRole 1 7 ''teacher'', QDeleteAccount 2 7 ''email'' ''000000'']"]
  by (simp add: demo_uenv_def)

theorem user_tokens_entitled_witness:
  "\<forall>x. fst (LoginPassword (user_wired demo_uenv) demo_draw0 ''13800'' ''nope'' demo_users) \<noteq> Inr x"
proof -
  have "\<not> bc_compare (ue_bcrypt demo_uenv) (ac_hash demo_acct) ''nope''"
    by (simp add: demo_uenv_def demo_bcrypt_def demo_acct_def)
  with user_tokens_entitled [OF demo_user_inv demo_uenv_ok, of demo_draw0 "''13800''" "''nope''" 0 "[]" "[]"]
  show ?thesis by (fastforce simp: demo_abs split: if_splits)
qed

end
