(* ===== verification/UserFlows.thy ===== *)
theory UserFlows
  imports UserProps
begin

text \<open>
  The flows of the web accounts end to end: registration then login, password reset, account
  deletion, and what a failed attempt gives away.
\<close>

subsection \<open>Lookups on the wired service\<close>

lemma getOne_state:
  "user_getOne P w = (r, w') \<Longrightarrow> tables w' = tables w \<and> (fates w = [] \<longrightarrow> w' = w)"
  by (auto simp: user_getOne_def loadRoles_def wrap_err_def pg_query_healthy
      split: prod.splits sum.splits if_splits dest!: pg_query_snd)

lemma lookup_state:
  "user_lookup (user_wired E) x w = (r, w') \<Longrightarrow> tables w' = tables w \<and> (fates w = [] \<longrightarrow> w' = w)"
  by (auto simp: user_lookup_def user_repo_def user_getByEmail_def user_getByPhone_def
      split: if_splits dest!: getOne_state)

lemma getByID_state:
  "ust_getByID (user_repo pgl) i w = (r, w') \<Longrightarrow> tables w' = tables w \<and> (fates w = [] \<longrightarrow> w' = w)"
  by (auto simp: user_repo_def user_getByID_def dest!: getOne_state)

lemma inv_good: "user_inv (ue_pgl E) (tables w) \<longleftrightarrow> user_good w_rep (ue_pgl E) w_view w"
  by (simp add: user_inv_def user_good_def)

text \<open>On a healthy connection an identifier finds its account, or nothing.\<close>

lemma lookup_healthy:
  assumes "user_inv (ue_pgl E) (tables w)" and "env_ok E" and "fates w = []"
  obtains (none) "user_lookup (user_wired E) x w = (Inl user_ErrNotFound, w)"
      "\<forall>i a. abs_user (tables w) i = Some a \<longrightarrow> \<not> user_ident (ue_uni E) (ue_pgl E) x a"
  | (some) u a where "user_lookup (user_wired E) x w = (Inr u, w)"
      "abs_user (tables w) (us_id u) = Some a" "user_ident (ue_uni E) (ue_pgl E) x a"
      "us_hash u = ac_hash a" "us_status u = ac_status a" "ac_last a = Some (activeRole u)"
proof -
  obtain r w' where l: "user_lookup (user_wired E) x w = (r, w')" by fastforce
  note f = fit_env_ok(2) [OF assms(2)]
  have g: "user_good w_rep (ue_pgl E) w_view w" using assms(1) by (simp add: inv_good)
  then have rep: "user_rep (tables w)" by (simp add: user_good_def)
  have fd: "finds w_rep w_view w_up (\<lambda>j. user_ident (ue_uni E) (ue_pgl E) x) r w w'"
    using usr.lookup_Inr [OF rep, of E x r w'] l by (simp add: f)
  have w': "w' = w" using lookup_state [OF l] assms(3) by simp
  show thesis
  proof (cases r)
    case (Inl e)
    with fd assms(3) l w' show thesis by (intro none) (simp_all add: finds_def)
  next
    case (Inr u)
    from usr.found [OF g fd [unfolded Inr]] l w' Inr show thesis by (auto intro: some)
  qed
qed


subsection \<open>Registration and login\<close>



subsection \<open>Password reset\<close>

lemma otp_tokens:
  assumes "env_ok E" and "Verify (ue_otp E) now t p c w = (q, w1)"
  shows "refresh_tokens (tables w1) = refresh_tokens (tables w) \<and> account_tables (tables w1) = account_tables (tables w)"
proof -
  from assms(1) obtain ttl cd dl where o1: "ue_otp E = mock_service ttl cd dl" by (auto simp: env_ok_def)
  show ?thesis
    using otp_service_frame(1) [of refresh_tokens ttl cd dl now t p c w q w1]
      otp_service_frame(1) [of account_tables ttl cd dl now t p c w q w1] assms(2)
    by (simp add: o1 account_tables_def)
qed

lemma update_tokens:
  assumes "must_affect c m (pg_stmt (sql_user_update k f i n) w) = (r, w1)"
  shows "refresh_tokens (tables w1) = refresh_tokens (tables w)"
  using assms by (auto simp: must_affect_def pg_stmt_def sql_user_update_def upd_user_def
      split: prod.splits sum.splits fate.splits if_splits option.splits)

lemma wired_revoke_all:
  assumes "sess_revoke_all (token_store web_tokens) i w = (Inr (), w1)"
  shows "refresh_tokens (tables w1) = map (stamp (\<lambda>t. t_user t = i) (pg_now w)) (refresh_tokens (tables w)) \<and>
    account_tables (tables w1) = account_tables (tables w)"
proof -
  from assms have "ss_revoke_all (token_store web_tokens) i w = (Inr (), w1)"
    by (auto simp: sess_revoke_all_def split: sum.splits prod.splits)
  from web.revoke_all_Inr [OF this] show ?thesis
    using sess_ops_frame(4) [of account_tables web_tokens i w "Inr ()" w1] assms
    by (simp add: web_tokens_def account_tables_def)
qed

lemma reset_Inr:
  assumes "user_inv (ue_pgl E) (tables w)" and "env_ok E"
    and "ResetPassword (user_wired E) now salt x code pw w = (Inr (), w')"
  shows "\<exists>i a h. fst (Verify (ue_otp E) now (normalizeIdentifier (ue_uni E) x) ''password_reset'' code w) = Inr () \<and>
       abs_user (tables w) i = Some a \<and> user_ident (ue_uni E) (ue_pgl E) x a \<and> ac_status a = UserActive \<and>
       bc_generate (ue_bcrypt E) salt pw = Inr h \<and>
       abs_user (tables w') = (abs_user (tables w))(i \<mapsto> a\<lparr>ac_hash := h\<rparr>) \<and>
       (\<forall>t \<in> set (refresh_tokens (tables w')). t_user t = i \<longrightarrow> t_revoked t \<noteq> None) \<and>
       filter (\<lambda>t. t_user t \<noteq> i) (refresh_tokens (tables w')) = filter (\<lambda>t. t_user t \<noteq> i) (refresh_tokens (tables w))"
proof -
  from assms(3) obtain w1 u w2 h w3 where
    v: "Verify (ue_otp E) now (normalizeIdentifier (ue_uni E) x) ''password_reset'' code w = (Inr (), w1)" and
    l: "user_lookup (user_wired E) x w1 = (Inr u, w2)" and d: "us_status u \<noteq> UserDisabled" and
    h: "bc_generate (ue_bcrypt E) salt pw = Inr h" and
    p: "ust_setPassword (user_repo (ue_pgl E)) (us_id u) h w2 = (Inr (), w3)" and
    r: "sess_revoke_all (token_store web_tokens) (us_id u) w3 = (Inr (), w')"
    by (auto simp: ResetPassword_def split: sum.splits prod.splits if_splits)
  note t1 = otp_tokens [OF assms(2) v]
  have t2: "tables w2 = tables w1" using lookup_state [OF l] by simp
  have rep1: "user_inv (ue_pgl E) (tables w1)"
    using assms(1) same_accounts [OF conjunct2 [OF t1]] by (simp add: user_inv_def)
  then have rep2: "user_rep (tables w2)" by (simp add: t2 user_inv_def)
  have g1: "user_good w_rep (ue_pgl E) w_view w1" using rep1 by (simp add: inv_good)
  note fit = fit_env_ok(2) [OF assms(2)]
  have "finds w_rep w_view w_up (\<lambda>j. user_ident (ue_uni E) (ue_pgl E) x) (Inr u) w1 w2"
    using usr.lookup_Inr [of w1 E x "Inr u" w2] rep1 l by (simp add: fit user_inv_def)
  from usr.found [OF g1 this] obtain a where a: "abs_user (tables w) (us_id u) = Some a"
    "user_ident (ue_uni E) (ue_pgl E) x a" "ac_status a = UserActive"
    using d same_accounts [OF conjunct2 [OF t1]] by auto
  have p3: "spec_exec (ue_pgl E) (CSetPassword (us_id u) h) (abs_user (tables w2)) = Inr (abs_user (tables w3))"
    using usr_repo.set_password [OF rep2 p] by (simp add: refines_by_def)
  have tok3: "refresh_tokens (tables w3) = refresh_tokens (tables w)"
    using update_tokens [of _ _ None _ "us_id u" _ w2 "Inr ()" w3] p t1 t2
    by (simp add: user_repo_def user_setPassword_def)
  note r3 = wired_revoke_all [OF r]
  have ab: "abs_user (tables w') = (abs_user (tables w))(us_id u \<mapsto> a\<lparr>ac_hash := h\<rparr>)"
    using p3 a(1) same_accounts [OF conjunct2 [OF r3]] same_accounts [OF conjunct2 [OF t1]]
    by (auto simp: t2 spec_update_def)
  have rv: "t_revoked t \<noteq> None" if "t \<in> set (refresh_tokens (tables w'))" "t_user t = us_id u" for t
    using that by (auto simp: r3 stamp_def)
  have ot: "filter (\<lambda>t. t_user t \<noteq> us_id u) (map (stamp (\<lambda>t. t_user t = us_id u) n) ts) =
      filter (\<lambda>t. t_user t \<noteq> us_id u) ts" for n ts
    by (induction ts) (auto simp: stamp_def)
  have "filter (\<lambda>t. t_user t \<noteq> us_id u) (refresh_tokens (tables w')) =
      filter (\<lambda>t. t_user t \<noteq> us_id u) (refresh_tokens (tables w))"
    by (simp add: r3 tok3 ot)
  with v a ab h rv show ?thesis
    by (intro exI [of _ "us_id u"] exI [of _ a] exI [of _ h]) simp
qed

text \<open>C34: a password reset does what it promises. If it succeeds, the code was accepted for the
  identifier, which names an enabled account; that account has a hash the library made of the
  new password, nothing else of any account has changed, every session of the account is
  revoked and those of the others are as they were.\<close>

theorem password_reset:
  assumes "user_inv (ue_pgl E) (tables w)" and "env_ok E"
    and "ResetPassword (user_wired E) now salt x code pw w = (Inr (), w')"
  shows "fst (Verify (ue_otp E) now (normalizeIdentifier (ue_uni E) x) ''password_reset'' code w) = Inr () \<and>
    (\<exists>i a h. abs_user (tables w) i = Some a \<and> user_ident (ue_uni E) (ue_pgl E) x a \<and> ac_status a = UserActive \<and>
       bc_generate (ue_bcrypt E) salt pw = Inr h \<and>
       abs_user (tables w') = (abs_user (tables w))(i \<mapsto> a\<lparr>ac_hash := h\<rparr>) \<and>
       (\<forall>t \<in> set (refresh_tokens (tables w')). t_user t = i \<longrightarrow> t_revoked t \<noteq> None) \<and>
       filter (\<lambda>t. t_user t \<noteq> i) (refresh_tokens (tables w')) = filter (\<lambda>t. t_user t \<noteq> i) (refresh_tokens (tables w)))"
  using reset_Inr [OF assms] by blast

subsection \<open>A phone that reads as an email\<close>






subsection \<open>Account deletion\<close>

text \<open>C35: deleting an account leaves nothing of it and touches nothing else. If a deletion
  succeeds, the code was accepted for the account's own contact on the chosen channel; its user
  row, roles, profiles and sessions are gone, and those of every other account are exactly as they
  were.\<close>

theorem delete_account:
  assumes "user_inv (ue_pgl E) (tables w)" and "env_ok E"
    and "DeleteAccount (user_wired E) now i channel code w = (Inr (), w')"
  shows "(\<exists>a target w1. abs_user (tables w) i = Some a \<and> tables w1 = tables w \<and>
       (channel = ''phone'' \<and> ac_phone a = Some target \<or> channel = ''email'' \<and> ac_email a = Some target) \<and>
       fst (Verify (ue_otp E) now target ''account_deletion'' code w1) = Inr ()) \<and>
    abs_user (tables w') = (abs_user (tables w))(i := None) \<and>
    users (tables w') = filter (\<lambda>r. ur_id r \<noteq> i) (users (tables w)) \<and>
    user_roles (tables w') = filter (\<lambda>(j, _). j \<noteq> i) (user_roles (tables w)) \<and>
    student_profiles (tables w') = filter (\<lambda>p. sp_user p \<noteq> i) (student_profiles (tables w)) \<and>
    teacher_profiles (tables w') = filter (\<lambda>j. j \<noteq> i) (teacher_profiles (tables w)) \<and>
    refresh_tokens (tables w') = filter (\<lambda>t. t_user t \<noteq> i) (refresh_tokens (tables w))"
proof -
  from assms(3) obtain u w1 target w2 w3 where
    g: "ust_getByID (user_repo (ue_pgl E)) i w = (Inr u, w1)" and dt: "deletionTarget u channel = Inr target" and
    v: "Verify (ue_otp E) now target ''account_deletion'' code w1 = (Inr (), w2)" and
    r: "sess_revoke_all (token_store web_tokens) (us_id u) w2 = (Inr (), w3)" and
    d: "ust_delete (user_repo (ue_pgl E)) (us_id u) w3 = (Inr (), w')"
    by (auto simp: DeleteAccount_def split: sum.splits prod.splits)
  have rep: "user_rep (tables w)" using assms(1) by (simp add: user_inv_def)
  have t1: "tables w1 = tables w" using getByID_state [OF g] by simp
  from usr_repo.by_id [OF rep g] obtain a where u: "us_id u = i" and a: "abs_user (tables w) i = Some a"
    "shows_acct a u" by (auto simp: finds_def)
  have ch: "channel = ''phone'' \<and> ac_phone a = Some target \<or> channel = ''email'' \<and> ac_email a = Some target"
    using dt a(2) by (auto simp: deletionTarget_def shows_acct_def opt_string_def split: if_splits option.splits)
  note t2 = otp_tokens [OF assms(2) v] and t3 = wired_revoke_all [OF r]
  then have at: "account_tables (tables w3) = account_tables (tables w)" by (simp add: t1)
  have "\<exists>n. sql_user_delete i (tables w3) = Inr (n, tables w')"
    using d by (auto simp: user_repo_def user_delete_def must_affect_def pg_stmt_Inr u
        split: prod.splits sum.splits if_splits)
  then obtain n where n: "sql_user_delete i (tables w3) = Inr (n, tables w')" by blast
  have rep3: "user_rep (tables w3)" using rep same_accounts(1) [OF at] by simp
  have ft: "filter (\<lambda>t. t_user t \<noteq> i) (map (stamp (\<lambda>t. t_user t = i) k) ts) = filter (\<lambda>t. t_user t \<noteq> i) ts" for k ts
    by (induction ts) (auto simp: stamp_def)
  have w': "tables w' = (tables w3)\<lparr>users := filter (\<lambda>r. ur_id r \<noteq> i) (users (tables w3)),
       user_roles := filter (\<lambda>(j, _). j \<noteq> i) (user_roles (tables w3)),
       student_profiles := filter (\<lambda>p. sp_user p \<noteq> i) (student_profiles (tables w3)),
       teacher_profiles := filter (\<lambda>j. j \<noteq> i) (teacher_profiles (tables w3)),
       refresh_tokens := filter (\<lambda>t. t_user t \<noteq> i) (refresh_tokens (tables w3))\<rparr>"
    using n unfolding sql_user_delete_def by simp
  have "refresh_tokens (tables w') = filter (\<lambda>t. t_user t \<noteq> i) (refresh_tokens (tables w))"
    using t2 t3 by (simp add: w' ft t1 u)
  moreover have "abs_user (tables w') = (abs_user (tables w))(i := None)"
    using delete_sim [OF rep3 n] same_accounts(2) [OF at] by simp
  moreover have "fst (Verify (ue_otp E) now target ''account_deletion'' code w1) = Inr ()" using v by simp
  moreover have "users (tables w') = filter (\<lambda>r. ur_id r \<noteq> i) (users (tables w)) \<and>
    user_roles (tables w') = filter (\<lambda>(j, _). j \<noteq> i) (user_roles (tables w)) \<and>
    student_profiles (tables w') = filter (\<lambda>p. sp_user p \<noteq> i) (student_profiles (tables w)) \<and>
    teacher_profiles (tables w') = filter (\<lambda>j. j \<noteq> i) (teacher_profiles (tables w))"
    using at by (simp add: w' account_tables_def)
  ultimately show ?thesis using a(1) t1 ch by blast
qed

subsection \<open>What a failure gives away\<close>

text \<open>Failed logins and resets do not tell which accounts exist. On a healthy connection an
  unknown identifier and a wrong password get the same answer from the login and change nothing;
  and a reset without an accepted code and one for an unknown identifier get the same answer.\<close>

theorem user_failures_uniform:
  assumes "user_inv (ue_pgl E) (tables w)" and "env_ok E" and "fates w = []"
  shows "((\<forall>i a. abs_user (tables w) i = Some a \<and> user_ident (ue_uni E) (ue_pgl E) x a \<longrightarrow>
        \<not> bc_compare (ue_bcrypt E) (ac_hash a) pw) \<longrightarrow>
      LoginPassword (user_wired E) dr x pw w = (Inl user_ErrInvalidCredentials, w)) \<and>
    (fst (Verify (ue_otp E) now (normalizeIdentifier (ue_uni E) x) ''password_reset'' code w) \<noteq> Inr () \<or>
      (\<forall>i a. abs_user (tables w) i = Some a \<longrightarrow> \<not> user_ident (ue_uni E) (ue_pgl E) x a) \<longrightarrow>
      fst (ResetPassword (user_wired E) now salt x code pw w) = Inl ErrInvalidResetCode)"
proof (intro conjI impI)
  assume h: "\<forall>i a. abs_user (tables w) i = Some a \<and> user_ident (ue_uni E) (ue_pgl E) x a \<longrightarrow>
        \<not> bc_compare (ue_bcrypt E) (ac_hash a) pw"
  show "LoginPassword (user_wired E) dr x pw w = (Inl user_ErrInvalidCredentials, w)"
    by (cases rule: lookup_healthy [OF assms, of x]) (use h in \<open>auto simp: LoginPassword_def\<close>)
next
  let ?v = "Verify (ue_otp E) now (normalizeIdentifier (ue_uni E) x) ''password_reset'' code w"
  assume h: "fst ?v \<noteq> Inr () \<or> (\<forall>i a. abs_user (tables w) i = Some a \<longrightarrow> \<not> user_ident (ue_uni E) (ue_pgl E) x a)"
  obtain q w1 where v: "?v = (q, w1)" by fastforce
  show "fst (ResetPassword (user_wired E) now salt x code pw w) = Inl ErrInvalidResetCode"
  proof (cases q)
    case (Inl e)
    with v show ?thesis by (simp add: ResetPassword_def)
  next
    case (Inr z)
    have rep: "user_rep (tables w)" using assms(1) by (simp add: user_inv_def)
    from otp_reads(2) [OF rep assms(2) v] assms(1,3)
    have w1: "user_inv (ue_pgl E) (tables w1)" "fates w1 = []" "abs_user (tables w1) = abs_user (tables w)"
      by (auto simp: reads_def user_inv_def)
    show ?thesis
      by (cases rule: lookup_healthy [OF w1(1) assms(2) w1(2), of x])
        (use h v Inr w1(3) in \<open>auto simp: ResetPassword_def\<close>)
  qed
qed

subsection \<open>Examples\<close>

lemma demo_trim:
  "normalizePhone ''13800'' = ''13800''" "normalizePhone ''a@b.c'' = ''a@b.c''"
  "normalizeIdentifier id ''13800'' = ''13800''" "\<not> isEmail ''13800''" "isEmail ''a@b.c''"
  "normalizeEmail id [] = []"
  by (simp_all add: normalizePhone_def TrimSpace_plain plain_char_def normalizeIdentifier_def isEmail_def
      normalizeEmail_def ToLower_def is_ascii_def)



lemma demo_uenv_simps:
  "ue_bcrypt demo_uenv = demo_bcrypt" "ue_uni demo_uenv = id" "ue_pgl demo_uenv = id" "ue_jwt demo_uenv = demo_jwt"
  "ue_token demo_uenv = demo_web_tm" "ue_ttl demo_uenv = 10" "ue_otp demo_uenv = mock_service 600 60 10"
  by (simp_all add: demo_uenv_def)




text \<open>A user with a pending code for a purpose.\<close>

definition demo_pending :: "string \<Rightarrow> mock_world" where
  "demo_pending purpose = demo_users\<lparr>tables := (tables demo_users)\<lparr>verification_codes :=
     [\<lparr>c_id = 1, c_target = ''13800'', c_channel = ''sms'', c_purpose = purpose, c_code = ''123456'',
       c_expires = 100, c_consumed = None, c_attempts = 0, c_created = 1\<rparr>]\<rparr>\<rparr>"

lemma demo_pending_inv: "user_inv (ue_pgl demo_uenv) (tables (demo_pending purpose))"
proof -
  have "account_tables (tables (demo_pending purpose)) = account_tables (tables demo_users)"
    by (simp add: demo_pending_def account_tables_def)
  from same_accounts [OF this] demo_user_inv show ?thesis by (simp add: user_inv_def)
qed

lemma demo_accepted:
  "\<exists>w1. Verify (mock_service 600 60 10) 50 ''13800'' purpose ''123456'' (demo_pending purpose) = (Inr (), w1) \<and>
     fates w1 = [] \<and> account_tables (tables w1) = account_tables (tables demo_users) \<and>
     refresh_tokens (tables w1) = []"
  by (simp add: Verify_def otp_repo_def otp_latest_def pg_query_healthy sql_latest_unconsumed_def code_pending_def
      otp_consume_def wrap_err_def pg_stmt_healthy sql_mark_consumed_def maxVerifyAttempts_def demo_pending_def
      demo_users_def empty_id_db_def account_tables_def)

theorem password_reset_witness:
  "\<exists>w' h. ResetPassword (user_wired demo_uenv) 50 0 ''13800'' ''123456'' ''new'' (demo_pending ''password_reset'') = (Inr (), w') \<and>
    abs_user (tables w') = [7 \<mapsto> demo_acct\<lparr>ac_hash := h\<rparr>] \<and> bc_compare demo_bcrypt h ''new'' \<and> \<not> bc_compare demo_bcrypt h ''pw''"
proof -
  let ?w = "demo_pending ''password_reset''"
  obtain w1 where w1: "Verify (mock_service 600 60 10) 50 ''13800'' ''password_reset'' ''123456'' ?w = (Inr (), w1)"
    "fates w1 = []" "account_tables (tables w1) = account_tables (tables demo_users)"
    using demo_accepted by blast
  have us: "users (tables w1) = [demo_student]" "user_roles (tables w1) = [(7, RoleStudent)]"
    using w1(3) by (simp_all add: account_tables_def demo_users_def)
  have l: "user_lookup (user_wired demo_uenv) ''13800'' w1 = (Inr (scanUser demo_student [RoleStudent]), w1)"
    using w1(2) us
    by (simp add: user_lookup_def demo_uenv_simps demo_trim user_repo_def user_getByPhone_def user_getOne_def
        pg_query_healthy sql_user_where_def same_phone_def loadRoles_def wrap_err_def sql_roles_def demo_student_def)
  have "\<exists>w'. ResetPassword (user_wired demo_uenv) 50 0 ''13800'' ''123456'' ''new'' ?w = (Inr (), w')"
    using w1 l us
    by (simp add: ResetPassword_def demo_uenv_simps demo_trim scanUser_def demo_student_def demo_bcrypt_def
        user_repo_def user_setPassword_def must_affect_def pg_stmt_healthy sql_user_update_def user_count_def
        sess_revoke_all_def token_store_def token_revoke_all_def wrap_err_def sql_token_revoke_def)
  then obtain w' where r: "ResetPassword (user_wired demo_uenv) 50 0 ''13800'' ''123456'' ''new'' ?w = (Inr (), w')" ..
  have ab: "abs_user (tables ?w) = [7 \<mapsto> demo_acct]"
    using same_accounts(2) [of "tables ?w" "tables demo_users"] demo_abs
    by (simp add: demo_pending_def account_tables_def)
  from conjunct2 [OF password_reset [OF demo_pending_inv demo_uenv_ok r], unfolded ab demo_uenv_simps]
  obtain i a h where
    i: "[7 \<mapsto> demo_acct] i = Some a" "abs_user (tables w') = [7 \<mapsto> demo_acct](i \<mapsto> a\<lparr>ac_hash := h\<rparr>)"
    and h: "bc_generate demo_bcrypt 0 ''new'' = Inr h"
    by (elim exE conjE) (rule that, assumption+)
  from i(1) have "i = 7" "a = demo_acct" by (simp_all split: if_splits)
  with i(2) have "abs_user (tables w') = [7 \<mapsto> demo_acct\<lparr>ac_hash := h\<rparr>]" by simp
  moreover have "bc_compare demo_bcrypt h ''new''" "\<not> bc_compare demo_bcrypt h ''pw''"
    using h by (auto simp: demo_bcrypt_def)
  ultimately show ?thesis using r by blast
qed

theorem delete_account_witness:
  "\<exists>w'. DeleteAccount (user_wired demo_uenv) 50 7 ''phone'' ''123456'' (demo_pending ''account_deletion'') = (Inr (), w') \<and>
    abs_user (tables w') = Map.empty \<and> student_profiles (tables w') = []"
proof -
  let ?w = "demo_pending ''account_deletion''"
  obtain w1 where w1: "Verify (mock_service 600 60 10) 50 ''13800'' ''account_deletion'' ''123456'' ?w = (Inr (), w1)"
    "fates w1 = []" "account_tables (tables w1) = account_tables (tables demo_users)"
    using demo_accepted by blast
  have us: "users (tables w1) = [demo_student]" using w1(3) by (simp add: account_tables_def demo_users_def)
  have g: "ust_getByID (user_repo id) 7 ?w = (Inr (scanUser demo_student [RoleStudent]), ?w)"
    by (simp add: user_repo_def user_getByID_def user_getOne_def pg_query_healthy sql_user_where_def loadRoles_def
        wrap_err_def sql_roles_def demo_student_def demo_pending_def demo_users_def)
  have "\<exists>w'. DeleteAccount (user_wired demo_uenv) 50 7 ''phone'' ''123456'' ?w = (Inr (), w')"
    using w1 g us
    by (simp add: DeleteAccount_def demo_uenv_simps scanUser_def demo_student_def deletionTarget_def opt_string_def
        user_repo_def user_delete_def must_affect_def pg_stmt_healthy sql_user_delete_def user_count_def
        sess_revoke_all_def token_store_def token_revoke_all_def wrap_err_def sql_token_revoke_def web_tokens_def)
  then obtain w' where r: "DeleteAccount (user_wired demo_uenv) 50 7 ''phone'' ''123456'' ?w = (Inr (), w')" ..
  have ab: "abs_user (tables ?w) = [7 \<mapsto> demo_acct]" "student_profiles (tables ?w) = [\<lparr>sp_user = 7, sp_level = None, sp_variant = None\<rparr>]"
    using same_accounts(2) [of "tables ?w" "tables demo_users"] demo_abs
    by (simp_all add: demo_pending_def account_tables_def demo_users_def)
  from delete_account [OF demo_pending_inv demo_uenv_ok r] r show ?thesis by (auto simp: ab)
qed

theorem user_failures_uniform_witness:
  "fst (LoginPassword (user_wired demo_uenv) demo_draw0 ''13800'' ''nope'' demo_users) =
   fst (LoginPassword (user_wired demo_uenv) demo_draw0 ''13900'' ''pw'' demo_users)"
proof -
  have f: "fates demo_users = []" by (simp add: demo_users_def)
  have n: "normalizePhone ''13900'' = ''13900''" "\<not> isEmail ''13900''"
    by (simp_all add: normalizePhone_def TrimSpace_plain plain_char_def isEmail_def)
  note u = user_failures_uniform [OF demo_user_inv demo_uenv_ok f]
  have "\<not> bc_compare (ue_bcrypt demo_uenv) (ac_hash demo_acct) ''nope''"
    by (simp add: demo_uenv_simps demo_bcrypt_def demo_acct_def)
  with u [of "''13800''" "''nope''" demo_draw0] have
    1: "LoginPassword (user_wired demo_uenv) demo_draw0 ''13800'' ''nope'' demo_users = (Inl user_ErrInvalidCredentials, demo_users)"
    by (auto simp: demo_abs split: if_splits)
  have "\<not> user_ident (ue_uni demo_uenv) (ue_pgl demo_uenv) ''13900'' demo_acct"
    by (simp add: user_ident_def n has_phone_def demo_acct_def)
  with u [of "''13900''" "''pw''" demo_draw0] have
    "LoginPassword (user_wired demo_uenv) demo_draw0 ''13900'' ''pw'' demo_users = (Inl user_ErrInvalidCredentials, demo_users)"
    by (auto simp: demo_abs split: if_splits)
  with 1 show ?thesis by simp
qed

end
