(* ===== verification/RateLimit.thy ===== *)
theory RateLimit
  imports GoErrors
begin

text \<open>
  The per-IP throttle of the public auth endpoints (\<open>httpserver/ratelimit.go\<close>). The token bucket
  is third-party code (\<open>golang.org/x/time/rate\<close>): \<open>rate_lib\<close> holds the two functions used and
  \<open>rate_laws\<close> says what the limiter relies on.
\<close>

record 'b rate_lib =
  rl_new :: "int \<Rightarrow> int \<Rightarrow> 'b"
  rl_allow :: "time \<Rightarrow> 'b \<Rightarrow> bool \<times> 'b"

record 'b ip_bucket =
  ib_limiter :: 'b
  ib_lastSeen :: time

record 'b ip_limiter =
  il_buckets :: "string \<Rightarrow> 'b ip_bucket option"
  il_lastedAt :: time
  il_perMinute :: int
  il_burst :: int
  il_idleTTL :: time
  il_retryAfter :: string

fun Itoa :: "nat \<Rightarrow> string" where
  "Itoa n = (if n < 10 then [''0123456789'' ! n] else Itoa (n div 10) @ [''0123456789'' ! (n mod 10)])"

declare Itoa.simps [simp del]

text \<open>\<open>math.Ceil(60 / perMinute)\<close>; the limiter is built for positive rates only. The rate is kept
  as the requests per minute it is computed from.\<close>

definition NewIPRateLimiter :: "time \<Rightarrow> int \<Rightarrow> int \<Rightarrow> time \<Rightarrow> 'b ip_limiter" where
  "NewIPRateLimiter now perMinute burst idleTTL =
     \<lparr>il_buckets = (\<lambda>_. None), il_lastedAt = now, il_perMinute = perMinute, il_burst = burst,
      il_idleTTL = idleTTL, il_retryAfter = Itoa (nat ((60 + perMinute - 1) div perMinute))\<rparr>"

definition sweep :: "time \<Rightarrow> 'b ip_limiter \<Rightarrow> 'b ip_limiter" where
  "sweep now l =
     (if now - il_lastedAt l < il_idleTTL l then l
      else l\<lparr>il_lastedAt := now,
             il_buckets := (\<lambda>ip. case il_buckets l ip of
                None \<Rightarrow> None
              | Some b \<Rightarrow> (if il_idleTTL l < now - ib_lastSeen b then None else Some b))\<rparr>)"

definition allow :: "'b rate_lib \<Rightarrow> time \<Rightarrow> string \<Rightarrow> 'b ip_limiter \<Rightarrow> bool \<times> 'b ip_limiter" where
  "allow R now ip l =
     (let l1 = sweep now l;
          b = (case il_buckets l1 ip of
                 None \<Rightarrow> \<lparr>ib_limiter = rl_new R (il_perMinute l1) (il_burst l1), ib_lastSeen = now\<rparr>
               | Some b \<Rightarrow> b\<lparr>ib_lastSeen := now\<rparr>);
          (ok, lim) = rl_allow R now (ib_limiter b)
      in (ok, l1\<lparr>il_buckets := (il_buckets l1)(ip := Some (b\<lparr>ib_limiter := lim\<rparr>))\<rparr>))"

subsection \<open>A run of requests\<close>

fun allow_run :: "'b rate_lib \<Rightarrow> (time \<times> string) list \<Rightarrow> 'b ip_limiter \<Rightarrow> bool list \<times> 'b ip_limiter" where
  "allow_run R [] l = ([], l)"
| "allow_run R ((now, ip) # rs) l =
     (let (ok, l1) = allow R now ip l; (oks, l2) = allow_run R rs l1 in (ok # oks, l2))"

text \<open>The reference: one bucket per IP, never evicted.\<close>

fun reference_run ::
  "'b rate_lib \<Rightarrow> int \<Rightarrow> int \<Rightarrow> (time \<times> string) list \<Rightarrow> (string \<Rightarrow> 'b) \<Rightarrow> bool list" where
  "reference_run R pm bu [] m = []"
| "reference_run R pm bu ((now, ip) # rs) m =
     (let (ok, lim) = rl_allow R now (m ip) in ok # reference_run R pm bu rs (m(ip := lim)))"

fun in_order :: "time \<Rightarrow> (time \<times> string) list \<Rightarrow> bool" where
  "in_order t [] = True"
| "in_order t ((now, ip) # rs) = (t \<le> now \<and> in_order now rs)"

text \<open>What the token bucket documents, for one rate, burst and idle time: a bucket that was last
  asked longer ago than the idle time is full, and so answers, now and from then on, as a new
  one. \<open>reach b t\<close> are the buckets that were last asked at \<open>t\<close>.\<close>

inductive reach :: "'b rate_lib \<Rightarrow> int \<Rightarrow> int \<Rightarrow> 'b \<Rightarrow> time \<Rightarrow> bool" for R pm bu where
  first: "rl_allow R t (rl_new R pm bu) = (ok, b) \<Longrightarrow> reach R pm bu b t"
| again: "reach R pm bu b t \<Longrightarrow> t \<le> t' \<Longrightarrow> rl_allow R t' b = (ok, b') \<Longrightarrow> reach R pm bu b' t'"

definition rate_laws :: "'b rate_lib \<Rightarrow> int \<Rightarrow> int \<Rightarrow> time \<Rightarrow> bool" where
  "rate_laws R pm bu idle \<longleftrightarrow>
     (\<forall>b t now. reach R pm bu b t \<and> idle < now - t \<longrightarrow> rl_allow R now b = rl_allow R now (rl_new R pm bu))"

text \<open>The invariant: every bucket kept was last asked at its \<open>lastSeen\<close>, which is not later
  than now nor earlier than one idle time before the last sweep; an evicted one had been idle.\<close>

definition limiter_inv :: "'b rate_lib \<Rightarrow> time \<Rightarrow> 'b ip_limiter \<Rightarrow> bool" where
  "limiter_inv R t l \<longleftrightarrow> il_lastedAt l \<le> t \<and>
     (\<forall>ip b. il_buckets l ip = Some b \<longrightarrow>
        il_lastedAt l - il_idleTTL l \<le> ib_lastSeen b \<and> ib_lastSeen b \<le> t \<and>
        reach R (il_perMinute l) (il_burst l) (ib_limiter b) (ib_lastSeen b))"

text \<open>A bucket that answers as a new one.\<close>

definition as_new :: "'b rate_lib \<Rightarrow> int \<Rightarrow> int \<Rightarrow> time \<Rightarrow> time \<Rightarrow> 'b \<Rightarrow> bool" where
  "as_new R pm bu idle t b \<longleftrightarrow> b = rl_new R pm bu \<or> (\<exists>u. reach R pm bu b u \<and> idle < t - u)"

text \<open>The reference's bucket of an IP against the kept one.\<close>

definition same_bucket :: "'b rate_lib \<Rightarrow> time \<Rightarrow> 'b ip_limiter \<Rightarrow> (string \<Rightarrow> 'b) \<Rightarrow> bool" where
  "same_bucket R t l m \<longleftrightarrow>
     (\<forall>ip. case il_buckets l ip of
        Some b \<Rightarrow> m ip = ib_limiter b
      | None \<Rightarrow> as_new R (il_perMinute l) (il_burst l) (il_idleTTL l) t (m ip))"

lemma sweep_params [simp]:
  "il_perMinute (sweep now l) = il_perMinute l" "il_burst (sweep now l) = il_burst l"
  "il_idleTTL (sweep now l) = il_idleTTL l"
  by (simp_all add: sweep_def)

lemma sweep_inv: "limiter_inv R t l \<Longrightarrow> t \<le> now \<Longrightarrow> limiter_inv R now (sweep now l)"
  by (fastforce simp: limiter_inv_def sweep_def split: option.splits if_splits)

lemma sweep_bucket:
  "il_buckets (sweep now l) ip = Some b \<Longrightarrow> il_buckets l ip = Some b"
  "il_buckets (sweep now l) ip = None \<Longrightarrow> il_buckets l ip = None \<or>
     (\<exists>b. il_buckets l ip = Some b \<and> il_idleTTL l < now - ib_lastSeen b)"
  by (auto simp: sweep_def split: if_splits option.splits)

lemma as_new_mono: "as_new R pm bu idle t b \<Longrightarrow> t \<le> now \<Longrightarrow> as_new R pm bu idle now b"
  unfolding as_new_def by (metis diff_right_mono order_less_le_trans)

lemma as_new_allow: "rate_laws R pm bu idle \<Longrightarrow> as_new R pm bu idle now b \<Longrightarrow> rl_allow R now b = rl_allow R now (rl_new R pm bu)"
  unfolding as_new_def rate_laws_def by metis

lemma same_bucketI:
  assumes "\<And>ip b. il_buckets l ip = Some b \<Longrightarrow> m ip = ib_limiter b"
    and "\<And>ip. il_buckets l ip = None \<Longrightarrow> as_new R (il_perMinute l) (il_burst l) (il_idleTTL l) t (m ip)"
  shows "same_bucket R t l m"
  unfolding same_bucket_def
proof
  fix ip
  show "case il_buckets l ip of Some b \<Rightarrow> m ip = ib_limiter b
    | None \<Rightarrow> as_new R (il_perMinute l) (il_burst l) (il_idleTTL l) t (m ip)"
    using assms [of ip] by (cases "il_buckets l ip") simp_all
qed

lemma same_bucketD:
  assumes "same_bucket R t l m"
  shows "il_buckets l ip = Some b \<Longrightarrow> m ip = ib_limiter b"
    and "il_buckets l ip = None \<Longrightarrow> as_new R (il_perMinute l) (il_burst l) (il_idleTTL l) t (m ip)"
  using spec [OF assms [unfolded same_bucket_def], of ip] by simp_all

lemma sweep_same:
  assumes "limiter_inv R t l" and "same_bucket R t l m" and "t \<le> now"
  shows "same_bucket R now (sweep now l) m"
proof (rule same_bucketI)
  fix ip b assume "il_buckets (sweep now l) ip = Some b"
  then show "m ip = ib_limiter b" using sweep_bucket(1) same_bucketD(1) [OF assms(2)] by blast
next
  fix ip assume "il_buckets (sweep now l) ip = None"
  from sweep_bucket(2) [OF this]
  show "as_new R (il_perMinute (sweep now l)) (il_burst (sweep now l)) (il_idleTTL (sweep now l)) now (m ip)"
  proof
    assume "il_buckets l ip = None"
    from as_new_mono [OF same_bucketD(2) [OF assms(2) this] assms(3)] show ?thesis by simp
  next
    assume "\<exists>b. il_buckets l ip = Some b \<and> il_idleTTL l < now - ib_lastSeen b"
    then obtain b where b: "il_buckets l ip = Some b" "il_idleTTL l < now - ib_lastSeen b" by blast
    then have "reach R (il_perMinute l) (il_burst l) (ib_limiter b) (ib_lastSeen b)"
      using assms(1) unfolding limiter_inv_def by blast
    with b(2) show ?thesis using same_bucketD(1) [OF assms(2) b(1)] unfolding as_new_def by auto
  qed
qed

text \<open>The bucket a request is charged to.\<close>

definition bucket_for :: "'b rate_lib \<Rightarrow> time \<Rightarrow> string \<Rightarrow> 'b ip_limiter \<Rightarrow> 'b" where
  "bucket_for R now ip l = (case il_buckets (sweep now l) ip of
     None \<Rightarrow> rl_new R (il_perMinute l) (il_burst l) | Some b \<Rightarrow> ib_limiter b)"

lemma allow_bucket:
  assumes "rl_allow R now (bucket_for R now ip l) = (ok, lim)"
  shows "allow R now ip l = (ok, (sweep now l)\<lparr>il_buckets := (il_buckets (sweep now l))
    (ip := Some \<lparr>ib_limiter = lim, ib_lastSeen = now\<rparr>)\<rparr>)"
proof (cases "il_buckets (sweep now l) ip")
  case (Some b)
  then show ?thesis using assms by (cases b) (simp add: allow_def bucket_for_def Let_def)
qed (use assms in \<open>simp add: allow_def bucket_for_def Let_def\<close>)

lemma bucket_reach:
  assumes "limiter_inv R t l" and "t \<le> now" and "rl_allow R now (bucket_for R now ip l) = (ok, lim)"
  shows "reach R (il_perMinute l) (il_burst l) lim now"
proof (cases "il_buckets (sweep now l) ip")
  case None
  with assms(3) show ?thesis by (intro reach.first) (simp add: bucket_for_def)
next
  case (Some b)
  have "il_buckets l ip = Some b" by (rule sweep_bucket(1) [OF Some])
  then have "reach R (il_perMinute l) (il_burst l) (ib_limiter b) (ib_lastSeen b) \<and> ib_lastSeen b \<le> t"
    using assms(1) unfolding limiter_inv_def by blast
  moreover have "rl_allow R now (ib_limiter b) = (ok, lim)" using assms(3) Some by (simp add: bucket_for_def)
  ultimately show ?thesis using reach.again assms(2) by fastforce
qed

lemma allow_inv:
  assumes "limiter_inv R t l" and "t \<le> now" and "0 \<le> il_idleTTL l" and "allow R now ip l = (ok, l')"
  shows "limiter_inv R now l' \<and> il_perMinute l' = il_perMinute l \<and> il_burst l' = il_burst l \<and>
    il_idleTTL l' = il_idleTTL l \<and> now - il_lastedAt l' \<le> il_idleTTL l"
proof -
  obtain ok' lim where r: "rl_allow R now (bucket_for R now ip l) = (ok', lim)" by fastforce
  from assms(4) allow_bucket [OF r] have l': "l' = (sweep now l)\<lparr>il_buckets := (il_buckets (sweep now l))
    (ip := Some \<lparr>ib_limiter = lim, ib_lastSeen = now\<rparr>)\<rparr>" by simp
  have i: "limiter_inv R now (sweep now l)" by (rule sweep_inv [OF assms(1,2)])
  have "now - il_lastedAt l' \<le> il_idleTTL l" using assms(3) by (auto simp: l' sweep_def)
  moreover have "limiter_inv R now l'"
    using i bucket_reach [OF assms(1,2) r] assms(3) by (auto simp: l' limiter_inv_def)
  ultimately show ?thesis by (simp add: l')
qed

lemma allow_same:
  assumes "limiter_inv R t l" and "same_bucket R t l m" and "t \<le> now"
    and "rate_laws R (il_perMinute l) (il_burst l) (il_idleTTL l)"
    and "allow R now ip l = (ok, l')" and "rl_allow R now (m ip) = (ok', lim)"
  shows "ok' = ok \<and> same_bucket R now l' (m(ip := lim))"
proof -
  have s: "same_bucket R now (sweep now l) m" by (rule sweep_same [OF assms(1-3)])
  have "rl_allow R now (bucket_for R now ip l) = rl_allow R now (m ip)"
  proof (cases "il_buckets (sweep now l) ip")
    case None
    with same_bucketD(2) [OF s None] as_new_allow [OF assms(4)] show ?thesis by (simp add: bucket_for_def)
  qed (use same_bucketD(1) [OF s] in \<open>simp add: bucket_for_def\<close>)
  with assms(6) have r: "rl_allow R now (bucket_for R now ip l) = (ok', lim)" by simp
  from assms(5) allow_bucket [OF r] have ok: "ok' = ok" and
    l': "l' = (sweep now l)\<lparr>il_buckets := (il_buckets (sweep now l))
      (ip := Some \<lparr>ib_limiter = lim, ib_lastSeen = now\<rparr>)\<rparr>" by simp_all
  have "same_bucket R now l' (m(ip := lim))"
  proof (rule same_bucketI)
    fix jp b assume "il_buckets l' jp = Some b"
    then show "(m(ip := lim)) jp = ib_limiter b"
      using same_bucketD(1) [OF s, of jp b] by (cases "jp = ip") (auto simp: l')
  next
    fix jp assume "il_buckets l' jp = None"
    then show "as_new R (il_perMinute l') (il_burst l') (il_idleTTL l') now ((m(ip := lim)) jp)"
      using same_bucketD(2) [OF s, of jp] by (cases "jp = ip") (auto simp: l')
  qed
  with ok show ?thesis by blast
qed

subsection \<open>Properties\<close>

lemma allow_run_inv:
  "limiter_inv R t l \<Longrightarrow> 0 \<le> il_idleTTL l \<Longrightarrow> in_order t rs \<Longrightarrow> allow_run R rs l = (oks, l') \<Longrightarrow>
   rs \<noteq> [] \<Longrightarrow> limiter_inv R (fst (last rs)) l' \<and> il_idleTTL l' = il_idleTTL l \<and>
     fst (last rs) - il_lastedAt l' \<le> il_idleTTL l"
proof (induction R rs l arbitrary: t oks rule: allow_run.induct)
  case (2 R now ip rs l)
  obtain ok l1 where a: "allow R now ip l = (ok, l1)" by fastforce
  obtain oks2 where b: "allow_run R rs l1 = (oks2, l')" using 2(5) a by (auto split: prod.splits)
  have i: "limiter_inv R now l1 \<and> il_perMinute l1 = il_perMinute l \<and> il_burst l1 = il_burst l \<and>
    il_idleTTL l1 = il_idleTTL l \<and> now - il_lastedAt l1 \<le> il_idleTTL l"
    by (rule allow_inv [OF 2(2) _ 2(3) a]) (use 2(4) in simp)
  show ?case
  proof (cases "rs = []")
    case True
    with b i show ?thesis by simp
  next
    case False
    from i have "limiter_inv R now l1" "0 \<le> il_idleTTL l1" "in_order now rs" using 2(3,4) by simp_all
    from 2(1) [OF a [symmetric] refl this b False] i False show ?thesis by simp
  qed
qed simp

lemma allow_run_same:
  "limiter_inv R t l \<Longrightarrow> same_bucket R t l m \<Longrightarrow> 0 \<le> il_idleTTL l \<Longrightarrow> in_order t rs \<Longrightarrow>
   rate_laws R (il_perMinute l) (il_burst l) (il_idleTTL l) \<Longrightarrow>
   fst (allow_run R rs l) = reference_run R (il_perMinute l) (il_burst l) rs m"
proof (induction R rs l arbitrary: t m rule: allow_run.induct)
  case (2 R now ip rs l)
  obtain ok l1 where a: "allow R now ip l = (ok, l1)" by fastforce
  obtain ok' lim where r: "rl_allow R now (m ip) = (ok', lim)" by fastforce
  have t: "t \<le> now" "in_order now rs" using 2(5) by simp_all
  note i = allow_inv [OF 2(2) t(1) 2(4) a]
  note s = allow_same [OF 2(2,3) t(1) 2(6) a r]
  have "fst (allow_run R rs l1) = reference_run R (il_perMinute l1) (il_burst l1) rs (m(ip := lim))"
    by (rule 2(1) [OF a [symmetric] refl _ conjunct2 [OF s] _ t(2)]) (use i 2(4,6) in simp_all)
  with a r i s show ?case by (simp add: case_prod_beta)
qed simp

text \<open>C30: evicting idle buckets is not observable and bounds the memory. For a token bucket that is
  full again after the idle time, every request of a sequence in time order gets the answer it
  would get from one bucket per IP that is never evicted; and after any request every bucket
  kept was used within twice the idle time.\<close>

theorem sweep_invisible:
  assumes "in_order t rs" and "0 \<le> idle" and "rate_laws R pm bu idle"
  shows "fst (allow_run R rs (NewIPRateLimiter t pm bu idle)) = reference_run R pm bu rs (\<lambda>_. rl_new R pm bu) \<and>
    (\<forall>b. b \<in> ran (il_buckets (snd (allow_run R rs (NewIPRateLimiter t pm bu idle)))) \<longrightarrow>
       fst (last rs) - ib_lastSeen b \<le> 2 * idle)"
proof
  let ?l = "NewIPRateLimiter t pm bu idle :: 'a ip_limiter"
  have p: "il_perMinute ?l = pm" "il_burst ?l = bu" "il_idleTTL ?l = idle"
    by (simp_all add: NewIPRateLimiter_def)
  have i: "limiter_inv R t ?l" by (simp add: limiter_inv_def NewIPRateLimiter_def)
  have "same_bucket R t ?l (\<lambda>_. rl_new R pm bu)" by (simp add: same_bucket_def as_new_def NewIPRateLimiter_def)
  from allow_run_same [OF i this, of rs] assms p
  show "fst (allow_run R rs ?l) = reference_run R pm bu rs (\<lambda>_. rl_new R pm bu)" by simp
  show "\<forall>b. b \<in> ran (il_buckets (snd (allow_run R rs ?l))) \<longrightarrow> fst (last rs) - ib_lastSeen b \<le> 2 * idle"
  proof (cases "rs = []")
    case True
    then show ?thesis by (simp add: NewIPRateLimiter_def ran_def)
  next
    case False
    obtain oks l' where r: "allow_run R rs ?l = (oks, l')" by fastforce
    from allow_run_inv [OF i _ assms(1) r False] assms(2) p
    have "limiter_inv R (fst (last rs)) l'" "il_idleTTL l' = idle" "fst (last rs) - il_lastedAt l' \<le> idle" by simp_all
    then have "fst (last rs) - ib_lastSeen b \<le> 2 * idle" if "il_buckets l' ip = Some b" for ip b
      using that unfolding limiter_inv_def by fastforce
    then show ?thesis by (auto simp: r ran_def)
  qed
qed

text \<open>A token bucket of burst 1 that refills in one time unit.\<close>

definition demo_rate :: "time option rate_lib" where
  "demo_rate = \<lparr>rl_new = (\<lambda>_ _. None), rl_allow = (\<lambda>now b. case b of None \<Rightarrow> (True, Some now)
     | Some t \<Rightarrow> (if t < now then (True, Some now) else (False, Some t)))\<rparr>"

lemma demo_rate_reach: "reach demo_rate pm bu b t \<Longrightarrow> \<exists>u. b = Some u \<and> u \<le> t"
  by (induction rule: reach.induct) (auto simp: demo_rate_def split: if_splits)

lemma demo_rate_laws: "0 \<le> idle \<Longrightarrow> rate_laws demo_rate pm bu idle"
  by (auto simp: rate_laws_def demo_rate_def dest!: demo_rate_reach [unfolded demo_rate_def])

theorem sweep_invisible_witness:
  "fst (allow_run demo_rate [(5, ''a''), (5, ''a''), (40, ''a'')] (NewIPRateLimiter 0 30 1 10)) = [True, False, True]"
  using sweep_invisible [of 0 "[(5, ''a''), (5, ''a''), (40, ''a'')]" 10 demo_rate 30 1] demo_rate_laws [of 10 30 1]
  by (simp add: demo_rate_def)

end
