(* ===== verification/Http.thy ===== *)
theory Http
  imports Auth RateLimit
begin

text \<open>
  The middleware of the HTTP server (\<open>httpserver/middleware.go\<close>, \<open>ratelimit.go\<close>, \<open>metrics.go\<close>,
  \<open>health.go\<close>) over a request context. The framework (gin) is third-party code; of its context
  the model keeps what the middleware reads and writes. A chain of handlers is a function that
  ends normally or panics; a middleware is a function from the rest of the chain to a chain.
\<close>

subsection \<open>The request context\<close>

datatype gval = GUuid uuid | GStr string

datatype log_level = LevelDebug | LevelInfo | LevelWarn | LevelError

datatype log_line =
    HttpRequest log_level string string nat
  | PanicRecovered string string

record ('w, 'b) gctx =
  gc_method :: string
  gc_path :: string
  gc_fullPath :: string
  gc_headers :: "string \<rightharpoonup> string"
  gc_ip :: string
  gc_now :: time
  gc_requestID :: string
  gc_keys :: "string \<rightharpoonup> gval"
  gc_out :: "string \<rightharpoonup> string"
  gc_status :: nat
  gc_written :: bool
  gc_errors :: "goerr list"
  gc_log :: "(string \<times> log_line) list"
  gc_requests :: "(string \<times> string \<times> nat) list"
  gc_limiter :: "'b ip_limiter"
  gc_world :: 'w

datatype 'c outcome = Done 'c | Panicked 'c

type_synonym ('w, 'b) chain = "('w, 'b) gctx \<Rightarrow> ('w, 'b) gctx outcome"

text \<open>A missing header reads as the empty string; the first status written stays.\<close>

definition GetHeader :: "string \<Rightarrow> ('w, 'b) gctx \<Rightarrow> string" where
  "GetHeader k c = (case gc_headers c k of None \<Rightarrow> [] | Some v \<Rightarrow> v)"

definition write_status :: "nat \<Rightarrow> ('w, 'b) gctx \<Rightarrow> ('w, 'b) gctx" where
  "write_status s c = (if gc_written c then c else c\<lparr>gc_status := s, gc_written := True\<rparr>)"

text \<open>\<open>slog\<close> stamps the line with the request ID of the context.\<close>

definition log_ctx :: "log_line \<Rightarrow> ('w, 'b) gctx \<Rightarrow> ('w, 'b) gctx" where
  "log_ctx l c = c\<lparr>gc_log := gc_log c @ [(gc_requestID c, l)]\<rparr>"

subsection \<open>Middleware\<close>

abbreviation (input) requestIDHeader :: string where "requestIDHeader \<equiv> ''X-Request-ID''"

definition RequestID :: "string \<Rightarrow> ('w, 'b) chain \<Rightarrow> ('w, 'b) chain" where
  "RequestID newID k c =
     (let h = GetHeader requestIDHeader c; i = (if h = [] then newID else h) in
      k (c\<lparr>gc_out := (gc_out c)(requestIDHeader \<mapsto> i), gc_requestID := i\<rparr>))"

definition Recovery :: "('w, 'b) chain \<Rightarrow> ('w, 'b) chain" where
  "Recovery k c =
     (case k c of
        Done c1 \<Rightarrow> Done c1
      | Panicked c1 \<Rightarrow> Done (write_status 500 (log_ctx (PanicRecovered (gc_method c1) (gc_path c1)) c1)))"

definition outcome_level :: "nat \<Rightarrow> log_level" where
  "outcome_level status = (if 500 \<le> status then LevelError else if 400 \<le> status then LevelWarn else LevelInfo)"

definition RequestLogger :: "('w, 'b) chain \<Rightarrow> ('w, 'b) chain" where
  "RequestLogger k c =
     (if gc_path c = ''/healthz'' then k c
      else case k c of
        Panicked c1 \<Rightarrow> Panicked c1
      | Done c1 \<Rightarrow>
          Done (log_ctx (HttpRequest (outcome_level (gc_status c1)) (gc_method c1) (gc_path c1) (gc_status c1)) c1))"

text \<open>\<open>strings.SplitN(s, " ", 2)\<close> and \<open>strings.EqualFold\<close> against an ASCII word without k and s,
  whose only other case-folded letters are its own in the other case.\<close>

fun split_space :: "string \<Rightarrow> string \<times> string option" where
  "split_space [] = ([], None)"
| "split_space (c # cs) =
     (if c = CHR '' '' then ([], Some cs) else (let (a, b) = split_space cs in (c # a, b)))"

definition EqualFold_ascii :: "string \<Rightarrow> string \<Rightarrow> bool" where
  "EqualFold_ascii a b \<longleftrightarrow> map ascii_lower a = map ascii_lower b"

definition bearerToken :: "('w, 'b) gctx \<Rightarrow> string option" where
  "bearerToken c =
     (case split_space (GetHeader ''Authorization'' c) of
        (_, None) \<Rightarrow> None
      | (scheme, Some tok) \<Rightarrow>
          (if \<not> EqualFold_ascii scheme ''Bearer'' \<or> tok = [] then None else Some tok))"

definition AuthRequired :: "jwt_lib \<Rightarrow> token_manager \<Rightarrow> ('w, 'b) chain \<Rightarrow> ('w, 'b) chain" where
  "AuthRequired L tm k c =
     (case bearerToken c of
        None \<Rightarrow> Done (write_status 401 c)
      | Some tok \<Rightarrow>
          (case Parse L tm (gc_now c) tok of
             Inl _ \<Rightarrow> Done (write_status 401 c)
           | Inr cl \<Rightarrow> k (c\<lparr>gc_keys := (gc_keys c)
               (''auth.userID'' \<mapsto> GUuid (cl_subject cl), ''auth.role'' \<mapsto> GStr (cl_role cl))\<rparr>)))"

definition AdminAuthRequired :: "jwt_lib \<Rightarrow> token_manager \<Rightarrow> ('w, 'b) chain \<Rightarrow> ('w, 'b) chain" where
  "AdminAuthRequired L tm k c =
     (case bearerToken c of
        None \<Rightarrow> Done (write_status 401 c)
      | Some tok \<Rightarrow>
          (case Parse L tm (gc_now c) tok of
             Inl _ \<Rightarrow> Done (write_status 401 c)
           | Inr cl \<Rightarrow> k (c\<lparr>gc_keys := (gc_keys c)
               (''auth.adminID'' \<mapsto> GUuid (cl_subject cl), ''auth.adminLevel'' \<mapsto> GStr (cl_role cl))\<rparr>)))"

definition RequireSuperAdmin :: "('w, 'b) chain \<Rightarrow> ('w, 'b) chain" where
  "RequireSuperAdmin k c =
     (if gc_keys c ''auth.adminLevel'' \<noteq> Some (GStr ''super_admin'') then Done (write_status 403 c) else k c)"

definition RateLimit :: "'b rate_lib \<Rightarrow> ('w, 'b) chain \<Rightarrow> ('w, 'b) chain" where
  "RateLimit R k c =
     (let (ok, l) = allow R (gc_now c) (gc_ip c) (gc_limiter c); c1 = c\<lparr>gc_limiter := l\<rparr> in
      if \<not> ok
      then Done (write_status 429 (c1\<lparr>gc_out := (gc_out c1)(''Retry-After'' \<mapsto> il_retryAfter l)\<rparr>))
      else k c1)"

text \<open>The counter of \<open>metrics.go\<close>, labelled by method, route template and status; a panic passes
  it by. The latency histogram is left out.\<close>

definition MetricsMiddleware :: "('w, 'b) chain \<Rightarrow> ('w, 'b) chain" where
  "MetricsMiddleware k c =
     (if gc_fullPath c = ''/metrics'' then k c
      else case k c of
        Panicked c1 \<Rightarrow> Panicked c1
      | Done c1 \<Rightarrow>
          Done (c1\<lparr>gc_requests := gc_requests c1 @
            [(gc_method c1, if gc_fullPath c = [] then ''unmatched'' else gc_fullPath c, gc_status c1)]\<rparr>))"

subsection \<open>Probes\<close>

definition livenessHandler :: "('w, 'b) chain" where
  "livenessHandler c = Done (write_status 200 c)"

text \<open>\<open>ping\<close> is the outcome of the database ping; \<open>None\<close> when no database is wired.\<close>

definition readinessHandler :: "('w \<Rightarrow> bool) option \<Rightarrow> ('w, 'b) chain" where
  "readinessHandler db c =
     (case db of
        None \<Rightarrow> Done (write_status 200 c)
      | Some ping \<Rightarrow> Done (write_status (if ping (gc_world c) then 200 else 503) c))"

subsection \<open>Lemmas\<close>

lemma write_status_simps [simp]:
  "gc_world (write_status s c) = gc_world c" "gc_log (write_status s c) = gc_log c"
  "gc_requests (write_status s c) = gc_requests c" "gc_method (write_status s c) = gc_method c"
  "gc_path (write_status s c) = gc_path c" "gc_fullPath (write_status s c) = gc_fullPath c"
  by (simp_all add: write_status_def)

lemma write_status_status: "\<not> gc_written c \<Longrightarrow> gc_status (write_status s c) = s"
  by (simp add: write_status_def)

lemma split_space_bearer: "split_space (''Bearer '' @ tok) = (''Bearer'', Some tok)"
  by simp

lemma bearerToken_bearer:
  "gc_headers c ''Authorization'' = Some (''Bearer '' @ tok) \<Longrightarrow> tok \<noteq> [] \<Longrightarrow> bearerToken c = Some tok"
  by (simp add: bearerToken_def GetHeader_def EqualFold_ascii_def)

end
