(* ===== verification/Router.thy ===== *)
theory Router
  imports Http
begin

text \<open>
  The route table (\<open>httpserver/router.go\<close>, \<open>swagger.go\<close>): every registered route with the
  middleware in front of its handler, and the dispatch of a request. Which route a path matches
  is the framework's business: \<open>gin_laws\<close> states what it documents.
\<close>

subsection \<open>Routes\<close>

datatype middleware =
    MRequestID | MTracing | MMetrics | MRecovery | MLogger | MAuthLimit | MAuth | MAdminAuth | MSuperAdmin

record route =
  rt_method :: string
  rt_path :: "string list"
  rt_mws :: "middleware list"
  rt_handler :: string

text \<open>A path is the list of its segments; a segment that starts with a colon is a parameter, one
  that starts with a star takes the rest.\<close>

record deps =
  dp_web :: token_manager
  dp_admin :: token_manager
  dp_docs :: bool
  dp_limited :: bool
  dp_metrics :: bool

definition group :: "string list \<Rightarrow> middleware list \<Rightarrow> (string \<times> string list \<times> string) list \<Rightarrow> route list" where
  "group prefix mws rs =
     map (\<lambda>(m, p, h). \<lparr>rt_method = m, rt_path = prefix @ p, rt_mws = mws, rt_handler = h\<rparr>) rs"

definition engine_mws :: "deps \<Rightarrow> middleware list" where
  "engine_mws d = [MRequestID, MTracing] @ (if dp_metrics d then [MMetrics] else []) @ [MRecovery, MLogger]"

text \<open>\<open>registerDocs\<close>; \<open>dp_docs\<close> is \<open>EnableDocs\<close> with a specification that is not empty.\<close>

definition registerDocs :: "deps \<Rightarrow> route list" where
  "registerDocs d = group [''docs''] (engine_mws d)
     [(''GET'', [], ''docs''), (''GET'', [''openapi.yaml''], ''docs.spec''),
      (''GET'', [''static'', ''*filepath''], ''docs.static''), (''HEAD'', [''static'', ''*filepath''], ''docs.static'')]"

definition public_routes :: "deps \<Rightarrow> route list" where
  "public_routes d =
     group [''api'', ''v1'', ''auth''] (engine_mws d @ (if dp_limited d then [MAuthLimit] else []))
       [(''POST'', [''register''], ''user.Register''), (''POST'', [''login''], ''user.Login''),
        (''POST'', [''send-code''], ''user.SendCode''), (''POST'', [''login'', ''code''], ''user.LoginCode''),
        (''POST'', [''refresh''], ''user.Refresh''), (''POST'', [''logout''], ''user.Logout''),
        (''POST'', [''password'', ''forgot''], ''user.ForgotPassword''),
        (''POST'', [''password'', ''reset''], ''user.ResetPassword'')]"

definition authed_routes :: "deps \<Rightarrow> route list" where
  "authed_routes d =
     group [''api'', ''v1''] (engine_mws d @ [MAuth])
       [(''GET'', [''me''], ''user.Me''), (''PATCH'', [''me''], ''user.UpdateProfile''),
        (''POST'', [''me'', ''contact'', ''bind-code''], ''user.RequestContactBindCode''),
        (''POST'', [''me'', ''contact'', ''bind''], ''user.BindContact''),
        (''PUT'', [''me'', ''learning-settings''], ''user.UpdateLearningSettings''),
        (''POST'', [''auth'', ''logout-all''], ''user.LogoutAll''),
        (''POST'', [''auth'', ''switch-role''], ''user.SwitchRole''),
        (''POST'', [''auth'', ''roles''], ''user.AddRole''),
        (''POST'', [''auth'', ''account'', ''deletion-code''], ''user.RequestAccountDeletion''),
        (''DELETE'', [''auth'', ''account''], ''user.DeleteAccount'')]"

definition admin_auth_routes :: "deps \<Rightarrow> route list" where
  "admin_auth_routes d =
     group [''api'', ''v1'', ''admin'', ''auth''] (engine_mws d @ (if dp_limited d then [MAuthLimit] else []))
       [(''POST'', [''login''], ''admin.Login''), (''POST'', [''refresh''], ''admin.Refresh''),
        (''POST'', [''logout''], ''admin.Logout'')]"

definition admin_routes :: "deps \<Rightarrow> route list" where
  "admin_routes d =
     group [''api'', ''v1'', ''admin''] (engine_mws d @ [MAdminAuth])
       [(''POST'', [''auth'', ''logout-all''], ''admin.LogoutAll''), (''GET'', [''profile''], ''admin.Profile'')] @
     group [''api'', ''v1'', ''admin'', ''admins''] (engine_mws d @ [MAdminAuth, MSuperAdmin])
       [(''POST'', [], ''admin.CreateAdmin''), (''GET'', [], ''admin.ListAdmins''),
        (''PATCH'', ['':adminId'', ''status''], ''admin.SetAdminStatus'')] @
     group [''api'', ''v1'', ''admin'', ''words''] (engine_mws d @ [MAdminAuth])
       [(''POST'', [], ''word.Create''), (''GET'', [], ''word.List''), (''GET'', [''stats''], ''word.Stats''),
        (''POST'', [''batch-delete''], ''word.BatchDelete''), (''GET'', [''related-search''], ''word.RelatedSearch''),
        (''GET'', ['':wordId''], ''word.Get''), (''PUT'', ['':wordId'', ''content''], ''word.SaveContent''),
        (''POST'', ['':wordId'', ''publish''], ''word.Publish''), (''DELETE'', ['':wordId''], ''word.Delete'')]"

definition NewRouter :: "deps \<Rightarrow> route list" where
  "NewRouter d =
     group [] (engine_mws d) [(''GET'', [''healthz''], ''liveness''), (''GET'', [''readyz''], ''readiness'')] @
     (if dp_metrics d then group [] (engine_mws d) [(''GET'', [''metrics''], ''metrics'')] else []) @
     (if dp_docs d then registerDocs d else []) @
     public_routes d @ authed_routes d @ admin_auth_routes d @ admin_routes d"

subsection \<open>Dispatch\<close>

text \<open>The outside: the JWT library, the token bucket, the text of a fresh request ID, the tracing
  middleware and the handlers by name.\<close>

record ('w, 'b) env =
  ev_jwt :: jwt_lib
  ev_rate :: "'b rate_lib"
  ev_newID :: string
  ev_tracing :: "('w, 'b) chain \<Rightarrow> ('w, 'b) chain"
  ev_handler :: "string \<Rightarrow> ('w, 'b) chain"

fun apply_mw :: "('w, 'b) env \<Rightarrow> deps \<Rightarrow> middleware \<Rightarrow> ('w, 'b) chain \<Rightarrow> ('w, 'b) chain" where
  "apply_mw E d MRequestID = RequestID (ev_newID E)"
| "apply_mw E d MTracing = ev_tracing E"
| "apply_mw E d MMetrics = MetricsMiddleware"
| "apply_mw E d MRecovery = Recovery"
| "apply_mw E d MLogger = RequestLogger"
| "apply_mw E d MAuthLimit = RateLimit (ev_rate E)"
| "apply_mw E d MAuth = AuthRequired (ev_jwt E) (dp_web d)"
| "apply_mw E d MAdminAuth = AdminAuthRequired (ev_jwt E) (dp_admin d)"
| "apply_mw E d MSuperAdmin = RequireSuperAdmin"

definition run_chain :: "('w, 'b) env \<Rightarrow> deps \<Rightarrow> middleware list \<Rightarrow> ('w, 'b) chain \<Rightarrow> ('w, 'b) chain" where
  "run_chain E d ms h = foldr (apply_mw E d) ms h"

text \<open>A path that differs from a registered one by a trailing slash is redirected, without any
  middleware; one that matches nothing gets a 404 behind the engine's middleware.\<close>

datatype gin_match = Matched route | Redirected nat | NoRoute

type_synonym matcher = "route list \<Rightarrow> string \<Rightarrow> string list \<Rightarrow> gin_match"

definition serve ::
  "('w, 'b) env \<Rightarrow> deps \<Rightarrow> matcher \<Rightarrow> string list \<Rightarrow> ('w, 'b) chain" where
  "serve E d match segs c =
     (case match (NewRouter d) (gc_method c) segs of
        NoRoute \<Rightarrow> run_chain E d (engine_mws d) (\<lambda>c. Done (write_status 404 c)) c
      | Redirected s \<Rightarrow> Done (write_status s c)
      | Matched rt \<Rightarrow> run_chain E d (rt_mws rt) (ev_handler E (rt_handler rt)) c)"

fun path_matches :: "string list \<Rightarrow> string list \<Rightarrow> bool" where
  "path_matches [] segs = (segs = [])"
| "path_matches (p # ps) segs =
     (if has_prefix ''*'' p then True
      else case segs of
        [] \<Rightarrow> False
      | s # ss \<Rightarrow> (if has_prefix '':'' p then s \<noteq> [] else s = p) \<and> path_matches ps ss)"

text \<open>A matched route is a registered one for the method and the path; the tracing middleware runs
  the rest of the chain on the request and passes its outcome on.\<close>

definition gin_laws :: "matcher \<Rightarrow> bool" where
  "gin_laws match \<longleftrightarrow>
     (\<forall>rs m segs rt. match rs m segs = Matched rt \<longrightarrow>
        rt \<in> set rs \<and> rt_method rt = m \<and> path_matches (rt_path rt) segs) \<and>
     (\<forall>rs m segs s. match rs m segs = Redirected s \<longrightarrow> s \<in> {301, 307})"

definition tracing_laws :: "('w, 'b) env \<Rightarrow> bool" where
  "tracing_laws E \<longleftrightarrow> (\<forall>k c. ev_tracing E k c = k c)"

subsection \<open>The engine's middleware\<close>

definition with_id :: "('w, 'b) env \<Rightarrow> ('w, 'b) gctx \<Rightarrow> ('w, 'b) gctx" where
  "with_id E c =
     (let h = GetHeader requestIDHeader c; i = (if h = [] then ev_newID E else h) in
      c\<lparr>gc_out := (gc_out c)(requestIDHeader \<mapsto> i), gc_requestID := i\<rparr>)"

lemma with_id_simps [simp]:
  "gc_world (with_id E c) = gc_world c" "gc_written (with_id E c) = gc_written c"
  "gc_headers (with_id E c) = gc_headers c" "gc_now (with_id E c) = gc_now c"
  "gc_keys (with_id E c) = gc_keys c" "gc_path (with_id E c) = gc_path c"
  "gc_fullPath (with_id E c) = gc_fullPath c" "gc_log (with_id E c) = gc_log c"
  by (simp_all add: with_id_def Let_def)

lemma run_chain_append: "run_chain E d (ms @ ms') h = run_chain E d ms (run_chain E d ms' h)"
  by (simp add: run_chain_def)

lemma run_chain_Cons: "run_chain E d (m # ms) h = apply_mw E d m (run_chain E d ms h)"
  by (simp add: run_chain_def)

lemma engine_run:
  assumes "tracing_laws E"
  shows "run_chain E d (engine_mws d) k c =
    (if dp_metrics d then MetricsMiddleware (Recovery (RequestLogger k)) (with_id E c)
     else Recovery (RequestLogger k) (with_id E c))"
  using assms
  by (simp add: engine_mws_def run_chain_def RequestID_def with_id_def tracing_laws_def Let_def)

lemma engine_done:
  assumes "tracing_laws E" and "k (with_id E c) = Done c2"
  shows "\<exists>c3. run_chain E d (engine_mws d) k c = Done c3 \<and> gc_world c3 = gc_world c2 \<and> gc_status c3 = gc_status c2"
  using assms(2) unfolding engine_run [OF assms(1)]
  by (simp add: MetricsMiddleware_def Recovery_def RequestLogger_def log_ctx_def)

subsection \<open>Who stands in front of the back office\<close>

lemma admin_guarded:
  assumes "rt \<in> set (NewRouter d)" and "path_matches (rt_path rt) (''api'' # ''v1'' # ''admin'' # rest)"
    and "\<not> (rt_method rt = ''POST'' \<and> rest \<in> {[''auth'', ''login''], [''auth'', ''refresh''], [''auth'', ''logout'']})"
  shows "\<exists>ms. rt_mws rt = engine_mws d @ MAdminAuth # ms \<and>
    (rest \<noteq> [] \<and> hd rest = ''admins'' \<longrightarrow> (\<exists>ms'. ms = MSuperAdmin # ms'))"
proof -
  have "rt \<notin> set (group [] mws rs)"
    if "\<forall>(m, p, h) \<in> set rs. p \<noteq> [] \<and> hd p \<in> {''healthz'', ''readyz'', ''metrics''}" for mws rs
    using that assms(2) by (fastforce simp: group_def neq_Nil_conv)
  then have 1: "rt \<notin> set (group [] (engine_mws d) [(''GET'', [''healthz''], ''liveness''), (''GET'', [''readyz''], ''readiness'')])"
    "rt \<notin> set (group [] (engine_mws d) [(''GET'', [''metrics''], ''metrics'')])"
    by (simp_all add: split_beta)
  have 2: "rt \<notin> set (registerDocs d)" "rt \<notin> set (public_routes d)"
    using assms(2) by (auto simp: registerDocs_def public_routes_def group_def)
  have 3: "rt \<notin> set (authed_routes d)"
    using assms(2) by (auto simp: authed_routes_def group_def)
  have 4: "rt \<notin> set (admin_auth_routes d)"
    using assms(2,3) by (auto simp: admin_auth_routes_def group_def split: if_splits list.splits)
  have "rt \<in> set (admin_routes d)" using assms(1) 1 2 3 4 by (auto simp: NewRouter_def split: if_splits)
  then show ?thesis using assms(2) by (auto simp: admin_routes_def group_def split: list.splits)
qed

definition no_admin_token :: "('w, 'b) env \<Rightarrow> deps \<Rightarrow> ('w, 'b) gctx \<Rightarrow> bool" where
  "no_admin_token E d c \<longleftrightarrow>
     (\<forall>tok. bearerToken c = Some tok \<longrightarrow>
        (\<exists>e. Parse (ev_jwt E) (dp_admin d) (gc_now c) tok = Inl e) \<or>
        (\<exists>t u r. Generate (ev_jwt E) (dp_web d) t u r = Inr tok))"

definition super_token :: "('w, 'b) env \<Rightarrow> deps \<Rightarrow> ('w, 'b) gctx \<Rightarrow> bool" where
  "super_token E d c \<longleftrightarrow>
     (\<exists>tok cl. bearerToken c = Some tok \<and> Parse (ev_jwt E) (dp_admin d) (gc_now c) tok = Inr cl \<and>
        cl_role cl = ''super_admin'')"

text \<open>The request ends with one of the statuses, and nothing behind the gate has run.\<close>

definition blocked :: "nat set \<Rightarrow> ('w, 'b) gctx \<Rightarrow> ('w, 'b) gctx outcome \<Rightarrow> bool" where
  "blocked S c out \<longleftrightarrow> (\<exists>c'. out = Done c' \<and> gc_world c' = gc_world c \<and> gc_status c' \<in> S)"

lemma blocked_mono: "blocked S c out \<Longrightarrow> S \<subseteq> T \<Longrightarrow> blocked T c out"
  by (auto simp: blocked_def)

lemma bearer_with_id [simp]: "bearerToken (with_id E c) = bearerToken c"
  by (simp add: bearerToken_def GetHeader_def)

lemma blocked_engine:
  assumes "tracing_laws E" and "k (with_id E c) = Done (write_status s c1)"
    and "gc_world c1 = gc_world c" and "\<not> gc_written c1"
  shows "blocked {s} c (run_chain E d (engine_mws d) k c)"
  using engine_done [of E k c "write_status s c1" d] assms by (auto simp: blocked_def write_status_status)

lemma not_found_blocked:
  assumes "tracing_laws E" and "\<not> gc_written c"
  shows "blocked {404} c (run_chain E d (engine_mws d) (\<lambda>c. Done (write_status 404 c)) c)"
  by (rule blocked_engine [OF assms(1) refl]) (simp_all add: assms(2))

lemma no_token_blocked:
  assumes "tracing_laws E" and "\<not> gc_written c" and "jwt_laws (ev_jwt E)"
    and "tm_realm (dp_web d) \<noteq> tm_realm (dp_admin d)" and "no_admin_token E d c"
  shows "blocked {401} c (run_chain E d (engine_mws d @ MAdminAuth # ms) h c)"
proof -
  have "\<exists>e. Parse (ev_jwt E) (dp_admin d) (gc_now c) tok = Inl e" if "bearerToken c = Some tok" for tok
    using that assms(3-5) Parse_rejects [of "ev_jwt E" "dp_web d" _ _ _ tok "dp_admin d"]
    unfolding no_admin_token_def by metis
  then have "AdminAuthRequired (ev_jwt E) (dp_admin d) (run_chain E d ms h) (with_id E c) =
      Done (write_status 401 (with_id E c))"
    by (cases "bearerToken c") (auto simp: AdminAuthRequired_def)
  then show ?thesis unfolding run_chain_append run_chain_Cons
    by (intro blocked_engine [OF assms(1), of _ _ _ "with_id E c"]) (simp_all add: assms(2))
qed

lemma plain_admin_blocked:
  assumes "tracing_laws E" and "\<not> gc_written c" and "\<not> super_token E d c"
  shows "blocked {401, 403} c (run_chain E d (engine_mws d @ MAdminAuth # MSuperAdmin # ms) h c)"
proof (cases "\<exists>tok cl. bearerToken c = Some tok \<and> Parse (ev_jwt E) (dp_admin d) (gc_now c) tok = Inr cl")
  case True
  then obtain tok cl where t: "bearerToken c = Some tok" "Parse (ev_jwt E) (dp_admin d) (gc_now c) tok = Inr cl" by blast
  let ?c = "(with_id E c)\<lparr>gc_keys := (gc_keys c)(''auth.adminID'' \<mapsto> GUuid (cl_subject cl),
    ''auth.adminLevel'' \<mapsto> GStr (cl_role cl))\<rparr>"
  have "cl_role cl \<noteq> ''super_admin''" using t assms(3) by (auto simp: super_token_def)
  with t have "AdminAuthRequired (ev_jwt E) (dp_admin d) (RequireSuperAdmin (run_chain E d ms h)) (with_id E c) =
      Done (write_status 403 ?c)"
    by (simp add: AdminAuthRequired_def RequireSuperAdmin_def)
  then have "blocked {403} c (run_chain E d (engine_mws d @ MAdminAuth # MSuperAdmin # ms) h c)"
    unfolding run_chain_append run_chain_Cons
    by (intro blocked_engine [OF assms(1), of _ _ _ ?c]) (simp_all add: assms(2))
  then show ?thesis by (rule blocked_mono) simp
next
  case False
  then have "AdminAuthRequired (ev_jwt E) (dp_admin d) (RequireSuperAdmin (run_chain E d ms h)) (with_id E c) =
      Done (write_status 401 (with_id E c))"
    by (cases "bearerToken c") (auto simp: AdminAuthRequired_def split: sum.splits)
  then have "blocked {401} c (run_chain E d (engine_mws d @ MAdminAuth # MSuperAdmin # ms) h c)"
    unfolding run_chain_append run_chain_Cons
    by (intro blocked_engine [OF assms(1), of _ _ _ "with_id E c"]) (simp_all add: assms(2))
  then show ?thesis by (rule blocked_mono) simp
qed

subsection \<open>A concrete server\<close>

definition demo_match :: matcher where
  "demo_match rs m segs =
     (case find (\<lambda>rt. rt_method rt = m \<and> path_matches (rt_path rt) segs) rs of
        None \<Rightarrow> NoRoute | Some rt \<Rightarrow> Matched rt)"

lemma demo_match_laws: "gin_laws demo_match"
  by (auto simp: gin_laws_def demo_match_def split: option.splits dest!: find_SomeD)

definition demo_deps :: deps where
  "demo_deps = \<lparr>dp_web = demo_web_tm, dp_admin = demo_admin_tm, dp_docs = True, dp_limited = True, dp_metrics = True\<rparr>"

text \<open>Its handlers count their calls, the one of the metrics page panics.\<close>

definition demo_env :: "(nat, time option) env" where
  "demo_env = \<lparr>ev_jwt = demo_jwt, ev_rate = demo_rate, ev_newID = ''r1'', ev_tracing = id,
     ev_handler = (\<lambda>n c. if n = ''metrics'' then Panicked c else Done (write_status 200 (c\<lparr>gc_world := Suc (gc_world c)\<rparr>)))\<rparr>"

lemma demo_env_laws: "tracing_laws demo_env" "jwt_laws (ev_jwt demo_env)"
  by (simp_all add: tracing_laws_def demo_env_def demo_jwt_laws)

definition demo_ctx :: "string \<Rightarrow> (nat, time option) gctx" where
  "demo_ctx m = \<lparr>gc_method = m, gc_path = ''/x'', gc_fullPath = ''/x'',
     gc_headers = [''Authorization'' \<mapsto> ''Bearer tok''], gc_ip = ''::1'', gc_now = 5, gc_requestID = [],
     gc_keys = Map.empty, gc_out = Map.empty, gc_status = 200, gc_written = False, gc_errors = [],
     gc_log = [], gc_requests = [], gc_limiter = NewIPRateLimiter 0 30 10 600000000, gc_world = 0\<rparr>"

subsection \<open>Properties\<close>

text \<open>C10: the back office is closed. Whatever the handlers do, a request below \<open>/api/v1/admin\<close>
  other than the three public auth posts changes nothing and gets 401 (or 404, or a redirect of
  its slash) unless its bearer
  token verifies under the admin token manager, which no token of the web manager does; and below
  \<open>/api/v1/admin/admins\<close> it changes nothing unless that token says super admin.\<close>

theorem admin_boundary:
  assumes "gin_laws match" and "tracing_laws E" and "jwt_laws (ev_jwt E)"
    and "tm_realm (dp_web d) \<noteq> tm_realm (dp_admin d)" and "\<not> gc_written c"
    and "\<not> (gc_method c = ''POST'' \<and> rest \<in> {[''auth'', ''login''], [''auth'', ''refresh''], [''auth'', ''logout'']})"
  shows "(no_admin_token E d c \<longrightarrow>
      blocked {401, 404, 301, 307} c (serve E d match (''api'' # ''v1'' # ''admin'' # rest) c)) \<and>
    (\<not> super_token E d c \<and> rest \<noteq> [] \<and> hd rest = ''admins'' \<longrightarrow>
      blocked {401, 403, 404, 301, 307} c (serve E d match (''api'' # ''v1'' # ''admin'' # rest) c))"
proof (cases "match (NewRouter d) (gc_method c) (''api'' # ''v1'' # ''admin'' # rest)")
  case NoRoute
  have "blocked {404} c (serve E d match (''api'' # ''v1'' # ''admin'' # rest) c)"
    using not_found_blocked [OF assms(2,5), of d] by (simp add: serve_def NoRoute)
  then show ?thesis by (blast intro: blocked_mono)
next
  case (Redirected s)
  then have "s \<in> {301, 307}" using assms(1) unfolding gin_laws_def by blast
  then have "blocked {301, 307} c (serve E d match (''api'' # ''v1'' # ''admin'' # rest) c)"
    using assms(5) by (auto simp: serve_def Redirected blocked_def write_status_def)
  then show ?thesis by (blast intro: blocked_mono)
next
  case (Matched rt)
  then have rt: "rt \<in> set (NewRouter d)" "rt_method rt = gc_method c"
    "path_matches (rt_path rt) (''api'' # ''v1'' # ''admin'' # rest)"
    using assms(1) unfolding gin_laws_def by blast+
  obtain ms where ms: "rt_mws rt = engine_mws d @ MAdminAuth # ms"
    "rest \<noteq> [] \<and> hd rest = ''admins'' \<longrightarrow> (\<exists>ms'. ms = MSuperAdmin # ms')"
    using admin_guarded [OF rt(1,3)] assms(6) rt(2) by metis
  have s: "serve E d match (''api'' # ''v1'' # ''admin'' # rest) c =
      run_chain E d (engine_mws d @ MAdminAuth # ms) (ev_handler E (rt_handler rt)) c"
    by (simp add: serve_def Matched ms(1))
  show ?thesis
  proof (intro conjI impI)
    assume "no_admin_token E d c"
    from no_token_blocked [OF assms(2,5,3,4) this] show "blocked {401, 404, 301, 307} c
        (serve E d match (''api'' # ''v1'' # ''admin'' # rest) c)"
      unfolding s by (rule blocked_mono) simp
  next
    assume a: "\<not> super_token E d c \<and> rest \<noteq> [] \<and> hd rest = ''admins''"
    with ms(2) obtain ms' where "ms = MSuperAdmin # ms'" by blast
    with plain_admin_blocked [OF assms(2,5), of d ms'] a show "blocked {401, 403, 404, 301, 307} c
        (serve E d match (''api'' # ''v1'' # ''admin'' # rest) c)"
      unfolding s by (blast intro: blocked_mono)
  qed
qed

theorem admin_boundary_witness:
  "blocked {401, 404, 301, 307} (demo_ctx ''GET'')
     (serve demo_env demo_deps demo_match [''api'', ''v1'', ''admin'', ''profile''] (demo_ctx ''GET'')) \<and>
   blocked {401, 403, 404, 301, 307} (demo_ctx ''GET'')
     (serve demo_env demo_deps demo_match [''api'', ''v1'', ''admin'', ''admins''] (demo_ctx ''GET''))"
proof -
  have b: "bearerToken (demo_ctx ''GET'') = Some ''tok''"
    by (rule bearerToken_bearer) (simp_all add: demo_ctx_def)
  have r: "tm_realm (dp_web demo_deps) \<noteq> tm_realm (dp_admin demo_deps)" "\<not> gc_written (demo_ctx ''GET'')"
    by (simp_all add: demo_deps_def demo_web_tm_def demo_admin_tm_def NewTokenManager_def demo_ctx_def)
  have n: "no_admin_token demo_env demo_deps (demo_ctx ''GET'')"
    using demo_Generate by (auto simp: no_admin_token_def b demo_env_def demo_deps_def)
  have s: "\<not> super_token demo_env demo_deps (demo_ctx ''GET'')"
    by (simp add: super_token_def b demo_env_def demo_deps_def Parse_def demo_jwt_def parse_key_def hmac_algs_def
        demo_admin_tm_def NewTokenManager_def)
  note t = admin_boundary [OF demo_match_laws demo_env_laws r]
  show ?thesis using t [of "[''profile'']"] t [of "[''admins'']"] n s by (simp add: demo_ctx_def)
qed

text \<open>How a panic ends. If the chain behind the engine's middleware panics before a status is
  written, the client gets a 500, the metrics count a 500 for the route, and the log gets the line of
  the panic, stamped with the request ID, but no request line: the logger's frame is unwound.\<close>

theorem panic_outcome:
  assumes "tracing_laws E" and "dp_metrics d" and "gc_fullPath c \<noteq> ''/metrics''"
    and "h (with_id E c) = Panicked c1" and "\<not> gc_written c1"
  shows "\<exists>c2. run_chain E d (engine_mws d) h c = Done c2 \<and> gc_status c2 = 500 \<and>
    gc_log c2 = gc_log c1 @ [(gc_requestID c1, PanicRecovered (gc_method c1) (gc_path c1))] \<and>
    gc_requests c2 = gc_requests c1 @
      [(gc_method c1, if gc_fullPath c = [] then ''unmatched'' else gc_fullPath c, 500)]"
  using assms(2-5) unfolding engine_run [OF assms(1)]
  by (simp add: MetricsMiddleware_def Recovery_def RequestLogger_def log_ctx_def write_status_status)


theorem panic_outcome_witness:
  "\<exists>c2. run_chain demo_env demo_deps (engine_mws demo_deps) Panicked (demo_ctx ''GET'') = Done c2 \<and>
     gc_status c2 = 500 \<and> gc_log c2 = [(''r1'', PanicRecovered ''GET'' ''/x'')]"
proof -
  have i: "gc_requestID (with_id demo_env (demo_ctx ''GET'')) = ''r1''"
    "gc_log (with_id demo_env (demo_ctx ''GET'')) = []" "gc_method (with_id demo_env (demo_ctx ''GET'')) = ''GET''"
    "gc_path (with_id demo_env (demo_ctx ''GET'')) = ''/x''" "\<not> gc_written (with_id demo_env (demo_ctx ''GET''))"
    by (simp_all add: with_id_def Let_def GetHeader_def demo_ctx_def demo_env_def)
  have c: "gc_log (demo_ctx ''GET'') = []" "gc_path (demo_ctx ''GET'') = ''/x''"
    by (simp_all add: demo_ctx_def)
  have m: "dp_metrics demo_deps" "gc_fullPath (demo_ctx ''GET'') \<noteq> ''/metrics''"
    by (simp_all add: demo_deps_def demo_ctx_def)
  show ?thesis
    using panic_outcome [OF demo_env_laws(1) m, of Panicked, OF refl i(5)] by (auto simp: i c)
qed

end
