(* ===== verification/WordModel.thy ===== *)
theory WordModel
  imports GoErrors "HOL-Library.List_Lexorder" "HOL-Library.Char_ord"
begin

text \<open>
  The data of the wordlist (\<open>internal/word/model.go\<close>): the entry tree, rich text with its
  structural check, CEFR levels, and frequencies, which are percent strings with six decimals
  on the outside and \<open>NUMERIC(12,6)\<close> in the database. Go's string enums are strings with a
  validity predicate. A pointer is an option; a slice of marks is an option as well, because
  the code distinguishes nil from empty there.
\<close>

subsection \<open>Enums\<close>

abbreviation (input) KindWord :: string where "KindWord \<equiv> ''word''"
abbreviation (input) KindPhrase :: string where "KindPhrase \<equiv> ''phrase''"
abbreviation (input) StatusDraft :: string where "StatusDraft \<equiv> ''draft''"
abbreviation (input) StatusPublished :: string where "StatusPublished \<equiv> ''published''"
abbreviation (input) ModeDistinguish :: string where "ModeDistinguish \<equiv> ''distinguish''"
abbreviation (input) ModeUnified :: string where "ModeUnified \<equiv> ''unified''"
abbreviation (input) DialectUK :: string where "DialectUK \<equiv> ''uk''"
abbreviation (input) DialectUS :: string where "DialectUS \<equiv> ''us''"
abbreviation (input) DialectCommon :: string where "DialectCommon \<equiv> ''common''"
abbreviation (input) StyleNormal :: string where "StyleNormal \<equiv> ''normal''"
abbreviation (input) FormTypeBase :: string where "FormTypeBase \<equiv> ''base''"
abbreviation (input) DefZH :: string where "DefZH \<equiv> ''zh''"

definition kind_valid :: "string \<Rightarrow> bool" where
  "kind_valid k \<longleftrightarrow> k = KindWord \<or> k = KindPhrase"

definition style_valid :: "string \<Rightarrow> bool" where
  "style_valid s \<longleftrightarrow> s = StyleNormal \<or> s = ''strong'' \<or> s = ''weak''"

definition def_type_valid :: "string \<Rightarrow> bool" where
  "def_type_valid d \<longleftrightarrow> d = DefZH \<or> d = ''en''"

definition relation_valid :: "string \<Rightarrow> bool" where
  "relation_valid r \<longleftrightarrow> r = ''synonym'' \<or> r = ''antonym'' \<or> r = ''derivative''"

definition level_ordinal :: "string \<Rightarrow> nat" where
  "level_ordinal l =
     (if l = ''A1'' then 1 else if l = ''A2'' then 2 else if l = ''B1'' then 3
      else if l = ''B2'' then 4 else if l = ''C1'' then 5 else if l = ''C2'' then 6 else 0)"

definition word_level_valid :: "string \<Rightarrow> bool" where
  "word_level_valid l \<longleftrightarrow> level_ordinal l \<noteq> 0"

definition POSValues :: "string list" where
  "POSValues = [''noun'', ''pronoun'', ''verb'', ''adjective'', ''adverb'', ''preposition'', ''article'',
     ''determiner'', ''conjunction'', ''numeral'', ''interjection'']"

definition FormTypeValues :: "string list" where
  "FormTypeValues = [FormTypeBase, ''present_participle'', ''past_tense'', ''past_participle'',
     ''third_person_singular'', ''plural'', ''comparative'', ''superlative'']"

definition SubPOSValues :: "string list" where
  "SubPOSValues = [''V-T'', ''V-I'', ''V-LINK'', ''AUX'', ''MODAL'', ''N-COUNT'', ''N-UNCOUNT'',
     ''N-PROPER'', ''N-PLURAL'', ''N-SING'', ''ADJ'', ''ADV'', ''PRON'', ''PREP'', ''CONJ'', ''DET'', ''ART'',
     ''NUM'', ''INT'']"

subsection \<open>\<open>utf8.RuneCountInString\<close>\<close>

text \<open>The length a lead byte announces, with the range of the byte after it; a byte that leads
  nothing, and a lead whose sequence is broken, is one rune of width one.\<close>

definition utf8_lead :: "nat \<Rightarrow> (nat \<times> nat \<times> nat) option" where
  "utf8_lead b =
     (if b < 0xC2 then None
      else if b \<le> 0xDF then Some (2, 0x80, 0xBF)
      else if b = 0xE0 then Some (3, 0xA0, 0xBF)
      else if b = 0xED then Some (3, 0x80, 0x9F)
      else if b \<le> 0xEF then Some (3, 0x80, 0xBF)
      else if b = 0xF0 then Some (4, 0x90, 0xBF)
      else if b \<le> 0xF3 then Some (4, 0x80, 0xBF)
      else if b = 0xF4 then Some (4, 0x80, 0x8F)
      else None)"

definition byte_in :: "nat \<Rightarrow> nat \<Rightarrow> char \<Rightarrow> bool" where
  "byte_in lo hi c \<longleftrightarrow> lo \<le> of_char c \<and> of_char c \<le> hi"

definition rune_width :: "string \<Rightarrow> nat" where
  "rune_width s =
     (case s of [] \<Rightarrow> 1
      | c # r \<Rightarrow>
          (case utf8_lead (of_char c) of
             None \<Rightarrow> 1
           | Some (n, lo, hi) \<Rightarrow>
               if n - 1 \<le> length r \<and> byte_in lo hi (hd r) \<and> list_all (byte_in 0x80 0xBF) (drop 1 (take (n - 1) r))
               then n else 1))"

lemma rune_width_pos [simp]: "0 < rune_width s"
  by (auto simp: rune_width_def utf8_lead_def split: list.splits option.splits if_splits)

function RuneCount :: "string \<Rightarrow> nat" where
  "RuneCount s = (if s = [] then 0 else Suc (RuneCount (drop (rune_width s) s)))"
  by pat_completeness auto
termination by (relation "measure length") auto

declare RuneCount.simps [simp del]

lemma RuneCount_Nil [simp]: "RuneCount [] = 0"
  by (simp add: RuneCount.simps)

lemma RuneCount_le_length: "RuneCount s \<le> length s"
proof (induction s rule: RuneCount.induct)
  case (1 s)
  show ?case
  proof (cases "s = []")
    case False
    then have "RuneCount (drop (rune_width s) s) \<le> length s - rune_width s" using 1 by simp
    moreover have "0 < length s" "0 < rune_width s" using False by simp_all
    ultimately have "Suc (RuneCount (drop (rune_width s) s)) \<le> length s" by linarith
    with False show ?thesis by (simp add: RuneCount.simps [of s])
  qed simp
qed

subsection \<open>Rich text\<close>

abbreviation (input) SpanBold :: string where "SpanBold \<equiv> ''bold''"
abbreviation (input) SpanBlue :: string where "SpanBlue \<equiv> ''blue''"

record span =
  span_start :: int
  span_end :: int
  span_type :: string

record rich_text =
  rt_version :: int
  rt_text :: string
  rt_spans :: "span list option"
  rt_liaisons :: "int list option"

abbreviation (input) RichTextVersion :: int where "RichTextVersion \<equiv> 1"
abbreviation (input) maxShortField :: nat where "maxShortField \<equiv> 200"
abbreviation (input) maxRichTextLen :: nat where "maxRichTextLen \<equiv> 5000"
abbreviation (input) maxMarks :: nat where "maxMarks \<equiv> 500"
abbreviation (input) maxTreeNodes :: nat where "maxTreeNodes \<equiv> 5000"

text \<open>The elements of a slice: a nil slice has none.\<close>

definition elems :: "'a list option \<Rightarrow> 'a list" where
  "elems xs = (case xs of None \<Rightarrow> [] | Some ys \<Rightarrow> ys)"

datatype rich_err =
    BadVersion int
  | TextTooLong nat
  | TooManyMarks
  | UnknownSpanType string
  | SpanOutOfBounds int int nat
  | LiaisonOutOfBounds int nat

definition rt_empty :: "rich_text \<Rightarrow> bool" where
  "rt_empty rt \<longleftrightarrow> TrimSpace (rt_text rt) = []"

fun span_error :: "nat \<Rightarrow> span list \<Rightarrow> rich_err option" where
  "span_error n [] = None"
| "span_error n (sp # sps) =
     (if span_type sp \<noteq> SpanBold \<and> span_type sp \<noteq> SpanBlue then Some (UnknownSpanType (span_type sp))
      else if span_start sp < 0 \<or> span_end sp > int n \<or> span_start sp \<ge> span_end sp
        then Some (SpanOutOfBounds (span_start sp) (span_end sp) n)
      else span_error n sps)"

fun liaison_error :: "nat \<Rightarrow> int list \<Rightarrow> rich_err option" where
  "liaison_error n [] = None"
| "liaison_error n (li # lis) =
     (if li < 0 \<or> li \<ge> int n - 1 then Some (LiaisonOutOfBounds li n) else liaison_error n lis)"

definition rt_validate :: "rich_text \<Rightarrow> rich_err option" where
  "rt_validate rt =
     (let n = RuneCount (rt_text rt) in
      if rt_version rt \<noteq> RichTextVersion then Some (BadVersion (rt_version rt))
      else if n > maxRichTextLen then Some (TextTooLong n)
      else if length (elems (rt_spans rt)) > maxMarks \<or> length (elems (rt_liaisons rt)) > maxMarks
        then Some TooManyMarks
      else case span_error n (elems (rt_spans rt)) of
        Some e \<Rightarrow> Some e
      | None \<Rightarrow> liaison_error n (elems (rt_liaisons rt)))"

definition rt_normalize :: "rich_text \<Rightarrow> rich_text" where
  "rt_normalize rt = rt\<lparr>rt_spans := Some (elems (rt_spans rt)), rt_liaisons := Some (elems (rt_liaisons rt))\<rparr>"

lemma elems_Some [simp]: "elems (Some xs) = xs"
  by (simp add: elems_def)

lemma rt_normalize_idem [simp]: "rt_normalize (rt_normalize rt) = rt_normalize rt"
  by (simp add: rt_normalize_def)

lemma rt_normalize_simps [simp]:
  "rt_text (rt_normalize rt) = rt_text rt" "rt_empty (rt_normalize rt) = rt_empty rt"
  "rt_validate (rt_normalize rt) = rt_validate rt"
  by (simp_all add: rt_normalize_def rt_validate_def rt_empty_def Let_def split: option.split)

text \<open>A text that passes, stated without the order of the checks.\<close>

definition rt_ok :: "rich_text \<Rightarrow> bool" where
  "rt_ok rt \<longleftrightarrow> rt_version rt = RichTextVersion \<and> RuneCount (rt_text rt) \<le> maxRichTextLen \<and>
     length (elems (rt_spans rt)) \<le> maxMarks \<and> length (elems (rt_liaisons rt)) \<le> maxMarks \<and>
     (\<forall>sp \<in> set (elems (rt_spans rt)). span_type sp \<in> {SpanBold, SpanBlue} \<and> 0 \<le> span_start sp \<and>
        span_start sp < span_end sp \<and> span_end sp \<le> int (RuneCount (rt_text rt))) \<and>
     (\<forall>li \<in> set (elems (rt_liaisons rt)). 0 \<le> li \<and> li + 1 < int (RuneCount (rt_text rt)))"

lemma span_error_None:
  "span_error n sps = None \<longleftrightarrow>
     (\<forall>sp \<in> set sps. span_type sp \<in> {SpanBold, SpanBlue} \<and> 0 \<le> span_start sp \<and>
        span_start sp < span_end sp \<and> span_end sp \<le> int n)"
  by (induction sps) auto

lemma liaison_error_None:
  "liaison_error n lis = None \<longleftrightarrow> (\<forall>li \<in> set lis. 0 \<le> li \<and> li + 1 < int n)"
  by (induction lis) auto

lemma rt_validate_None: "rt_validate rt = None \<longleftrightarrow> rt_ok rt"
proof (cases "span_error (RuneCount (rt_text rt)) (elems (rt_spans rt))")
  case None
  then show ?thesis
    using span_error_None [of "RuneCount (rt_text rt)" "elems (rt_spans rt)"]
    by (auto simp: rt_validate_def rt_ok_def Let_def liaison_error_None)
next
  case (Some e)
  then have "\<not> rt_ok rt"
    using span_error_None [of "RuneCount (rt_text rt)" "elems (rt_spans rt)"]
    unfolding rt_ok_def by auto
  with Some show ?thesis by (simp add: rt_validate_def Let_def)
qed

subsection \<open>Decimal digits\<close>

definition is_digit :: "char \<Rightarrow> bool" where
  "is_digit c \<longleftrightarrow> (48 :: nat) \<le> of_char c \<and> of_char c \<le> (57 :: nat)"

definition digit_val :: "char \<Rightarrow> nat" where
  "digit_val c = of_char c - 48"

definition dec_char :: "nat \<Rightarrow> char" where
  "dec_char d = char_of (48 + d)"

definition allDigits :: "string \<Rightarrow> bool" where
  "allDigits s = list_all is_digit s"

definition dec_val :: "string \<Rightarrow> nat" where
  "dec_val s = foldl (\<lambda>n c. 10 * n + digit_val c) 0 s"

fun show_nat :: "nat \<Rightarrow> string" where
  "show_nat n = (if n < 10 then [dec_char n] else show_nat (n div 10) @ [dec_char (n mod 10)])"

fun pad_nat :: "nat \<Rightarrow> nat \<Rightarrow> string" where
  "pad_nat 0 n = []"
| "pad_nat (Suc k) n = pad_nat k (n div 10) @ [dec_char (n mod 10)]"

declare show_nat.simps [simp del]

lemma digit_val_less: "is_digit c \<Longrightarrow> digit_val c < 10"
  unfolding is_digit_def digit_val_def by linarith

lemma digit_char_val [simp]: "is_digit c \<Longrightarrow> dec_char (digit_val c) = c"
  by (simp add: is_digit_def digit_val_def dec_char_def)

lemma digit_val_char [simp]: "d < 10 \<Longrightarrow> digit_val (dec_char d) = d"
  by (simp add: digit_val_def dec_char_def of_char_of)

lemma is_digit_char [simp]: "d < 10 \<Longrightarrow> is_digit (dec_char d)"
  by (simp add: is_digit_def dec_char_def of_char_of)

lemma digit_val_eq_iff: "is_digit c \<Longrightarrow> is_digit d \<Longrightarrow> digit_val c = digit_val d \<longleftrightarrow> c = d"
  by (metis digit_char_val)

lemma allDigits_simps [simp]:
  "allDigits []" "allDigits (c # s) \<longleftrightarrow> is_digit c \<and> allDigits s"
  "allDigits (s @ t) \<longleftrightarrow> allDigits s \<and> allDigits t"
  by (simp_all add: allDigits_def)

lemma dec_val_Nil [simp]: "dec_val [] = 0"
  by (simp add: dec_val_def)

lemma dec_val_snoc [simp]: "dec_val (s @ [c]) = 10 * dec_val s + digit_val c"
  by (simp add: dec_val_def)

lemma dec_val_append: "dec_val (s @ t) = dec_val s * 10 ^ length t + dec_val t"
proof (induction t rule: rev_induct)
  case (snoc c t)
  have "dec_val (s @ t @ [c]) = 10 * dec_val (s @ t) + digit_val c"
    using dec_val_snoc [of "s @ t" c] by simp
  with snoc show ?case by (simp add: algebra_simps)
qed simp

lemma dec_val_single [simp]: "dec_val [c] = digit_val c"
  by (simp add: dec_val_def)

lemma dec_val_Cons: "dec_val (c # s) = digit_val c * 10 ^ length s + dec_val s"
  using dec_val_append [of "[c]" s] by simp

lemma dec_val_less: "allDigits s \<Longrightarrow> dec_val s < 10 ^ length s"
proof (induction s rule: rev_induct)
  case (snoc c s)
  then have "dec_val s + 1 \<le> 10 ^ length s" "digit_val c < 10" by (simp_all add: digit_val_less)
  then show ?case by simp
qed simp

lemma show_nat_digits: "allDigits (show_nat n)" and show_nat_nonempty: "show_nat n \<noteq> []"
  by (induction n rule: show_nat.induct; simp add: show_nat.simps)+

lemma dec_val_show [simp]: "dec_val (show_nat n) = n"
proof (induction n rule: show_nat.induct)
  case (1 n)
  show ?case
  proof (cases "n < 10")
    case False
    with 1 have "dec_val (show_nat (n div 10)) = n div 10" by simp
    with False show ?thesis by (subst show_nat.simps) simp
  qed (simp add: show_nat.simps)
qed

lemma pad_nat_simps [simp]: "length (pad_nat k n) = k" "allDigits (pad_nat k n)"
  by (induction k arbitrary: n) simp_all

lemma dec_val_pad: "n < 10 ^ k \<Longrightarrow> dec_val (pad_nat k n) = n"
proof (induction k arbitrary: n)
  case (Suc k)
  then have "n div 10 < 10 ^ k" by (simp add: less_mult_imp_div_less mult.commute)
  with Suc.IH show ?case by simp
qed simp

lemma pad_dec_val: "allDigits s \<Longrightarrow> pad_nat (length s) (dec_val s) = s"
  by (induction s rule: rev_induct) (simp_all add: digit_val_less)

text \<open>No leading zero, or the digit zero itself.\<close>

definition plain_dec :: "string \<Rightarrow> bool" where
  "plain_dec s \<longleftrightarrow> allDigits s \<and> s \<noteq> [] \<and> (hd s = CHR ''0'' \<longrightarrow> length s = 1)"

lemma digit_zero [simp]: "is_digit CHR ''0''" "digit_val CHR ''0'' = 0"
  by (simp_all add: is_digit_def digit_val_def)

lemma plain_dec_pos:
  "plain_dec (c # s) \<Longrightarrow> s \<noteq> [] \<Longrightarrow> 0 < dec_val (c # s)"
proof -
  assume p: "plain_dec (c # s)" "s \<noteq> []"
  then have "is_digit c" "c \<noteq> CHR ''0''" by (auto simp: plain_dec_def)
  then have "digit_val c \<noteq> 0" using digit_val_eq_iff [of c "CHR ''0''"] by simp
  then show ?thesis by (simp add: dec_val_Cons)
qed

lemma show_dec_val: "plain_dec s \<Longrightarrow> show_nat (dec_val s) = s"
proof (induction s rule: rev_induct)
  case (snoc c s)
  then have c: "is_digit c" by (simp add: plain_dec_def)
  show ?case
  proof (cases "s = []")
    case True
    with c show ?thesis by (simp add: show_nat.simps digit_val_less)
  next
    case False
    then obtain d t where s: "s = d # t" by (cases s) auto
    from snoc.prems False have pl: "plain_dec s" "hd s \<noteq> CHR ''0''" by (auto simp: plain_dec_def)
    have pos: "0 < dec_val s"
    proof (cases "t = []")
      case True
      with s pl have "is_digit d" "d \<noteq> CHR ''0''" by (auto simp: plain_dec_def)
      then have "digit_val d \<noteq> 0" using digit_val_eq_iff [of d "CHR ''0''"] by simp
      with s True show ?thesis by simp
    qed (use plain_dec_pos s pl in auto)
    then have "\<not> 10 * dec_val s + digit_val c < 10" by linarith
    moreover have "(10 * dec_val s + digit_val c) div 10 = dec_val s"
      "(10 * dec_val s + digit_val c) mod 10 = digit_val c"
      using digit_val_less [OF c] by simp_all
    ultimately show ?thesis using snoc.IH pl c by (subst show_nat.simps) simp
  qed
qed (simp add: plain_dec_def)

lemma plain_dec_show: "plain_dec (show_nat n)"
proof -
  have "hd (show_nat n) = CHR ''0'' \<longrightarrow> n = 0" for n
  proof (induction n rule: show_nat.induct)
    case (1 n)
    show ?case
    proof (cases "n < 10")
      case True
      then have "dec_char n = CHR ''0'' \<Longrightarrow> n = 0" by (metis digit_val_char digit_zero(2))
      with True show ?thesis by (auto simp: show_nat.simps)
    next
      case False
      with 1 have "hd (show_nat (n div 10)) = CHR ''0'' \<longrightarrow> n div 10 = 0" by simp
      with False show ?thesis using show_nat_nonempty [of "n div 10"] by (subst show_nat.simps) auto
    qed
  qed
  moreover have "length (show_nat 0) = 1" by (simp add: show_nat.simps)
  ultimately show ?thesis using show_nat_digits show_nat_nonempty by (auto simp: plain_dec_def)
qed

text \<open>On digit strings of one length, Go's string order is the numeric order.\<close>

lemma digit_less: "is_digit c \<Longrightarrow> is_digit d \<Longrightarrow> c < d \<longleftrightarrow> digit_val c < digit_val d"
  by (auto simp: is_digit_def digit_val_def less_char_def)

lemma dec_order:
  "length s = length t \<Longrightarrow> allDigits s \<Longrightarrow> allDigits t \<Longrightarrow> s < t \<longleftrightarrow> dec_val s < dec_val t"
proof (induction s t rule: list_induct2)
  case (Cons c s d t)
  have b: "dec_val s < 10 ^ length s" "dec_val t < 10 ^ length t"
    using Cons.prems dec_val_less by auto
  let ?c = "digit_val c" and ?d = "digit_val d"
  have "digit_val c * 10 ^ length s + dec_val s < digit_val d * 10 ^ length t + dec_val t \<longleftrightarrow>
      ?c < ?d \<or> ?c = ?d \<and> dec_val s < dec_val t"
  proof (cases ?c ?d rule: linorder_cases)
    case less
    then have "Suc ?c * 10 ^ length s \<le> ?d * 10 ^ length s" by (intro mult_le_mono1) simp
    with less b Cons.hyps show ?thesis by simp
  next
    case greater
    then have "Suc ?d * 10 ^ length s \<le> ?c * 10 ^ length s" by (intro mult_le_mono1) simp
    with greater b Cons.hyps show ?thesis by simp
  qed (use Cons.hyps in simp)
  with Cons show ?case by (simp add: dec_val_Cons digit_less digit_val_eq_iff)
qed simp

subsection \<open>Frequencies\<close>

datatype freq_err = FreqFormat string | FreqRange string

text \<open>\<open>strings.Cut(s, ".")\<close>; without a dot the second part is empty.\<close>

definition cut_dot :: "string \<Rightarrow> string \<times> string" where
  "cut_dot s = (takeWhile (\<lambda>c. c \<noteq> CHR ''.'') s, drop 1 (dropWhile (\<lambda>c. c \<noteq> CHR ''.'') s))"

definition NormalizeFrequency :: "string \<Rightarrow> freq_err + string" where
  "NormalizeFrequency s0 =
     (let s = TrimSpace s0; intPart = fst (cut_dot s); frac0 = snd (cut_dot s) in
      if intPart = [] \<or> length intPart > 3 \<or> \<not> allDigits intPart \<or> \<not> allDigits frac0 \<or> length frac0 > 6
        then Inl (FreqFormat s)
      else
        let fracPart = frac0 @ replicate (6 - length frac0) CHR ''0'';
            over100 = (length intPart = 3 \<and> intPart > ''100'');
            at100 = (length intPart = 3 \<and> intPart = ''100'') in
        if over100 \<or> (at100 \<and> fracPart \<noteq> ''000000'') then Inl (FreqRange s)
        else
          let trimmed = dropWhile (\<lambda>c. c = CHR ''0'') intPart in
          Inr ((if trimmed = [] then ''0'' else trimmed) @ ''.'' @ fracPart))"

text \<open>
  The column \<open>NUMERIC(12,6)\<close>, as millionths of a percent: the decimal texts it reads, and the
  text it prints.
\<close>

definition numeric_in :: "string \<Rightarrow> nat option" where
  "numeric_in s =
     (let i = fst (cut_dot s); f = snd (cut_dot s) in
      if i = [] \<or> length i > 6 \<or> \<not> allDigits i \<or> \<not> allDigits f \<or> length f > 6 then None
      else Some (dec_val (i @ f @ replicate (6 - length f) CHR ''0'')))"

definition numeric_out :: "nat \<Rightarrow> string" where
  "numeric_out n = show_nat (n div 1000000) @ ''.'' @ pad_nat 6 (n mod 1000000)"

definition freq_ok :: "string \<Rightarrow> bool" where
  "freq_ok s \<longleftrightarrow> (case numeric_in s of None \<Rightarrow> False | Some n \<Rightarrow> n \<le> 100000000 \<and> numeric_out n = s)"

lemma cut_dot_append: "allDigits i \<Longrightarrow> cut_dot (i @ CHR ''.'' # f) = (i, f)"
proof -
  assume "allDigits i"
  then have "\<forall>c \<in> set i. c \<noteq> CHR ''.''"
    by (auto simp: allDigits_def list_all_iff is_digit_def)
  then have "takeWhile (\<lambda>c. c \<noteq> CHR ''.'') (i @ CHR ''.'' # f) = i"
    "dropWhile (\<lambda>c. c \<noteq> CHR ''.'') (i @ CHR ''.'' # f) = CHR ''.'' # f"
    by (simp_all add: takeWhile_append2 dropWhile_append2)
  then show ?thesis by (simp add: cut_dot_def)
qed

lemma dec_val_zeros [simp]: "dec_val (replicate k CHR ''0'') = 0"
proof (induction k)
  case (Suc k)
  then show ?case by (simp add: dec_val_Cons)
qed simp

lemma allDigits_zeros [simp]: "allDigits (replicate k CHR ''0'')"
  by (induction k) simp_all

lemma numeric_in_digits:
  assumes "i \<noteq> []" and "length i \<le> 6" and "allDigits i" and "allDigits f" and "length f = 6"
  shows "numeric_in (i @ ''.'' @ f) = Some (dec_val i * 1000000 + dec_val f)"
  using assms by (simp add: numeric_in_def cut_dot_append dec_val_append)

lemma numeric_out_digits:
  assumes "plain_dec i" and "allDigits f" and "length f = 6"
  shows "numeric_out (dec_val i * 1000000 + dec_val f) = i @ ''.'' @ f"
proof -
  have "dec_val f < 1000000" using dec_val_less [OF assms(2)] assms(3) by simp
  moreover from assms(2,3) have "pad_nat 6 (dec_val f) = f" using pad_dec_val [of f] by simp
  ultimately show ?thesis using show_dec_val [OF assms(1)] by (simp add: numeric_out_def)
qed

lemma freq_okI:
  assumes "plain_dec i" and "length i \<le> 6" and "allDigits f" and "length f = 6"
    and "dec_val i * 1000000 + dec_val f \<le> 100000000"
  shows "freq_ok (i @ ''.'' @ f)"
  using assms numeric_in_digits [of i f] numeric_out_digits [of i f]
  by (simp add: freq_ok_def plain_dec_def)

lemma TrimSpace_digits:
  assumes "allDigits i" and "i \<noteq> []" and "allDigits f" and "f \<noteq> []"
  shows "TrimSpace (i @ CHR ''.'' # f) = i @ CHR ''.'' # f"
proof (rule TrimSpace_plain)
  have d: "is_digit c \<Longrightarrow> plain_char c" for c
    unfolding is_digit_def plain_char_def by auto
  show "plain_char (hd (i @ CHR ''.'' # f))" using assms(1,2) by (cases i) (simp_all add: d)
  have "is_digit (last f)" using assms(3,4) by (simp add: allDigits_def list_all_iff)
  with d assms(4) show "plain_char (last (i @ CHR ''.'' # f))" by simp
qed simp

lemma dec_val_strip: "dec_val (dropWhile (\<lambda>c. c = CHR ''0'') s) = dec_val s"
  by (induction s) (simp_all add: dec_val_Cons)

lemma plain_dec_strip:
  assumes "allDigits s"
  shows "plain_dec (if dropWhile (\<lambda>c. c = CHR ''0'') s = [] then ''0'' else dropWhile (\<lambda>c. c = CHR ''0'') s)"
proof (cases "dropWhile (\<lambda>c. c = CHR ''0'') s = []")
  case False
  have "allDigits (dropWhile (\<lambda>c. c = CHR ''0'') s)"
    using assms set_dropWhileD unfolding allDigits_def list_all_iff by fastforce
  with False hd_dropWhile [OF False] show ?thesis by (simp add: plain_dec_def)
qed (simp add: plain_dec_def)

lemma plain_dec_ge: "plain_dec s \<Longrightarrow> length s \<noteq> 1 \<Longrightarrow> 10 ^ (length s - 1) \<le> dec_val s"
proof (cases s)
  case (Cons c t)
  moreover assume p: "plain_dec s" "length s \<noteq> 1"
  ultimately have "is_digit c" "c \<noteq> CHR ''0''" by (auto simp: plain_dec_def)
  then have "digit_val c \<noteq> 0" using digit_val_eq_iff [of c "CHR ''0''"] by simp
  then have "10 ^ length t \<le> digit_val c * 10 ^ length t" by simp
  then have "10 ^ length t \<le> dec_val s" unfolding Cons dec_val_Cons by (rule trans_le_add1)
  then show ?thesis by (simp add: Cons)
qed (simp add: plain_dec_def)

lemma plain_dec_length: "plain_dec s \<Longrightarrow> dec_val s < 1000 \<Longrightarrow> length s \<le> 3"
proof (rule ccontr)
  assume p: "plain_dec s" "dec_val s < 1000" "\<not> length s \<le> 3"
  then have "10 ^ (length s - 1) \<le> dec_val s" by (intro plain_dec_ge) auto
  moreover have "(10 :: nat) ^ 3 \<le> 10 ^ (length s - 1)" using p(3) by (intro power_increasing) auto
  ultimately show False using p(2) by simp
qed

lemma dec_val_100: "dec_val ''100'' = 100" and allDigits_100: "allDigits ''100''"
  by (simp_all add: dec_val_Cons digit_val_def is_digit_def)

lemma dec_val_inj: "length s = length t \<Longrightarrow> allDigits s \<Longrightarrow> allDigits t \<Longrightarrow> dec_val s = dec_val t \<Longrightarrow> s = t"
  by (metis pad_dec_val)

lemma NormalizeFrequency_ok:
  assumes "NormalizeFrequency s = Inr t"
  shows "freq_ok t"
proof -
  obtain i0 g0 where cut: "cut_dot (TrimSpace s) = (i0, g0)" by fastforce
  let ?i = i0 and ?g = g0
  let ?f = "?g @ replicate (6 - length ?g) CHR ''0''"
  let ?d = "dropWhile (\<lambda>c. c = CHR ''0'') ?i"
  let ?j = "if ?d = [] then ''0'' else ?d"
  note N = assms [unfolded NormalizeFrequency_def Let_def cut fst_conv snd_conv]
  have c1: "\<not> (?i = [] \<or> length ?i > 3 \<or> \<not> allDigits ?i \<or> \<not> allDigits ?g \<or> length ?g > 6)"
    by (rule notI) (use N in \<open>simp only: if_True sum.distinct\<close>)
  then have i: "?i \<noteq> []" "length ?i \<le> 3" "allDigits ?i" "allDigits ?g" "length ?g \<le> 6" by auto
  note N2 = N [unfolded if_not_P [OF c1]]
  have c2: "\<not> ((length ?i = 3 \<and> ?i > ''100'') \<or> (length ?i = 3 \<and> ?i = ''100'') \<and> ?f \<noteq> ''000000'')"
    by (rule notI) (use N2 in \<open>simp only: if_True sum.distinct\<close>)
  then have r: "\<not> (length ?i = 3 \<and> ?i > ''100'')" "?i = ''100'' \<Longrightarrow> ?f = ''000000''" by auto
  have t: "t = ?j @ ''.'' @ ?f" using N2 [unfolded if_not_P [OF c2]] by simp
  have f: "allDigits ?f" "length ?f = 6" using i by simp_all
  have j: "dec_val ?j = dec_val ?i"
    using dec_val_strip [of ?i] by (cases "?d = []") (simp_all del: dropWhile_eq_Nil_conv)
  have "length ?d \<le> length ?i" by (simp add: length_dropWhile_le)
  with i have l: "length ?j \<le> 6" by simp
  have "dec_val ?i * 1000000 + dec_val ?f \<le> 100000000"
  proof (cases "dec_val ?i < 100")
    case True
    with dec_val_less [OF f(1)] f(2) show ?thesis by simp
  next
    case False
    have "length ?i = 3"
    proof (rule ccontr)
      assume "length ?i \<noteq> 3"
      with i(2) have "(10 :: nat) ^ length ?i \<le> 10 ^ 2" by (intro power_increasing) auto
      with dec_val_less [OF i(3)] False show False by simp
    qed
    moreover from this r(1) dec_order [of "''100''" ?i] i(3) have "\<not> dec_val ?i > 100"
      using allDigits_100 dec_val_100 by simp
    ultimately have "?i = ''100''"
      using False dec_val_inj [of ?i "''100''"] i(3) allDigits_100 dec_val_100 by simp
    then have "?f = ''000000''" by (rule r(2))
    then have "dec_val ?f = 0" using dec_val_zeros [of 6] by (simp add: numeral_eq_Suc)
    with \<open>\<not> dec_val ?i > 100\<close> show ?thesis by simp
  qed
  then show ?thesis
    unfolding t using freq_okI [OF plain_dec_strip [OF i(3)] l f] j by simp
qed

lemma freq_ok_shape:
  assumes "freq_ok t"
  obtains i f where "t = i @ ''.'' @ f" and "plain_dec i" and "length i \<le> 3" and "allDigits f" and "length f = 6"
    and "dec_val i < 100 \<or> i = ''100'' \<and> f = ''000000''"
proof -
  from assms obtain n where n: "n \<le> 100000000" "numeric_out n = t"
    by (auto simp: freq_ok_def split: option.splits)
  let ?i = "show_nat (n div 1000000)" and ?f = "pad_nat 6 (n mod 1000000)"
  have p: "plain_dec ?i" by (rule plain_dec_show)
  have l: "length ?i \<le> 3" using n(1) by (intro plain_dec_length [OF p]) simp
  have v: "dec_val ?i < 100 \<or> ?i = ''100'' \<and> ?f = ''000000''"
  proof (cases "n < 100000000")
    case True
    then have "n div 1000000 < 100" by (simp add: less_mult_imp_div_less)
    then have "dec_val ?i < 100" by simp
    then show ?thesis ..
  next
    case False
    with n(1) have "n = 100000000" by simp
    then have "?i = show_nat 100" "?f = pad_nat 6 0" by simp_all
    moreover have "show_nat 100 = ''100''"
      using show_dec_val [of "''100''"] dec_val_100 allDigits_100 by (simp add: plain_dec_def)
    moreover have "length ''000000'' = 6" "dec_val ''000000'' = 0" "allDigits ''000000''"
      by (simp_all add: dec_val_Cons)
    then have "pad_nat 6 0 = ''000000''" using pad_dec_val [of "''000000''"] by metis
    ultimately show ?thesis by simp
  qed
  show ?thesis
  proof (rule that [OF _ p l _ _ v])
    show "t = ?i @ ''.'' @ ?f" by (rule n(2) [symmetric, unfolded numeric_out_def])
  qed (rule pad_nat_simps)+
qed

lemma NormalizeFrequency_fixed:
  assumes "freq_ok t"
  shows "NormalizeFrequency t = Inr t"
proof -
  from assms obtain i f where t: "t = i @ ''.'' @ f" and i: "plain_dec i" "length i \<le> 3"
    and f: "allDigits f" "length f = 6" and v: "dec_val i < 100 \<or> i = ''100'' \<and> f = ''000000''"
    by (rule freq_ok_shape)
  have d: "allDigits i" "i \<noteq> []" using i(1) by (auto simp: plain_dec_def)
  have "f \<noteq> []" using f(2) by auto
  then have trim: "TrimSpace t = t" unfolding t using TrimSpace_digits [OF d f(1)] by simp
  have cut: "cut_dot t = (i, f)" unfolding t using d(1) by (simp add: cut_dot_append)
  have "\<not> (length i = 3 \<and> i > ''100'')"
    using v dec_order [of "''100''" i] d(1) allDigits_100 dec_val_100 by auto
  moreover have "\<not> (i = ''100'' \<and> f \<noteq> ''000000'')" using v dec_val_100 by auto
  moreover have "(if dropWhile (\<lambda>c. c = CHR ''0'') i = [] then ''0'' else dropWhile (\<lambda>c. c = CHR ''0'') i) = i"
    using i(1) by (cases i) (auto simp: plain_dec_def)
  ultimately show ?thesis
    using d i(2) f trim cut by (simp add: NormalizeFrequency_def t)
qed

lemma numeric_roundtrip: "freq_ok s \<Longrightarrow> \<exists>n. numeric_in s = Some n \<and> n \<le> 100000000 \<and> numeric_out n = s"
  by (auto simp: freq_ok_def split: option.splits)

subsection \<open>The entry tree\<close>

text \<open>Slice order is meaning. An optional identifier is a nil-able pointer; empty audio strings
  mean no audio.\<close>

record sense_group =
  sg_id :: uuid
  sg_name :: string

record pronunciation =
  pr_id :: uuid
  pr_dict :: string
  pr_actual :: string
  pr_style :: string
  pr_audio_url :: string
  pr_audio_source :: string

record word_form =
  fm_id :: uuid
  fm_dialect :: string
  fm_type :: string
  fm_spelling :: string
  fm_prons :: "pronunciation list"

record grammar_variant =
  gv_id :: uuid
  gv_dialect :: string
  gv_content :: rich_text
  gv_audio_url :: string
  gv_audio_source :: string

record grammar_structure =
  gs_id :: uuid
  gs_variants :: "grammar_variant list"

record word_definition =
  df_id :: uuid
  df_level :: string
  df_type :: string
  df_text :: rich_text
  df_struct :: "uuid option"
  df_audio_url :: string
  df_audio_source :: string

record sentence =
  st_id :: uuid
  st_example :: "uuid option"
  st_text :: "rich_text option"
  st_audio_url :: string
  st_audio_source :: string

record word_relation =
  rl_id :: uuid
  rl_relation :: string
  rl_word :: "uuid option"
  rl_sense :: "uuid option"
  rl_headword :: string
  rl_gloss :: string
  rl_score :: int

record word_sense =
  sn_id :: uuid
  sn_sub_pos :: string
  sn_level :: string
  sn_group :: "uuid option"
  sn_frequency :: string
  sn_context :: bool
  sn_definitions :: "word_definition list"
  sn_sentences :: "sentence list"
  sn_relations :: "word_relation list"

record word_pos =
  po_id :: uuid
  po_pos :: string
  po_forms :: "word_form list"
  po_structures :: "grammar_structure list"
  po_senses :: "word_sense list"

record word_entry =
  we_id :: uuid
  we_kind :: string
  we_headword :: string
  we_frequency :: string
  we_mode :: string
  we_dialects :: "string list"
  we_status :: string
  we_created_by :: uuid
  we_created_at :: time
  we_updated_at :: time
  we_groups :: "sense_group list"
  we_pos :: "word_pos list"

text \<open>The body of a save.\<close>

record save_input =
  si_base :: time
  si_frequency :: string
  si_mode :: string
  si_dialects :: "string list"
  si_groups :: "sense_group list"
  si_pos :: "word_pos list"

text \<open>The zero \<open>time.Time\<close>, 1 January of year 1, in microseconds from the Unix epoch.\<close>

definition zero_time :: time where
  "zero_time = - 62135596800000000"

subsection \<open>Errors\<close>

text \<open>
  What \<open>invalidf\<close> reports: the node, as the path of slice names and indices the message
  spells out, and the reason. The messages are the \<open>fmt\<close> rendering of these values.
\<close>

type_synonym node_path = "(string \<times> nat) list"

datatype invalid_reason =
    HeadwordRequired
  | HeadwordTooLong
  | BadKind string
  | BadStatus string
  | IdsRequired
  | TooManyIds
  | BaseRequired
  | UnifiedWithDialects
  | DistinguishWithoutDialects
  | BadDialect string
  | DuplicateDialect string
  | BadDialectMode string
  | BadFrequency freq_err
  | MissingId
  | DuplicateId uuid
  | TreeTooLarge
  | FieldTooLong string
  | UnknownPos string
  | DuplicatePos string
  | DialectNotEnabled string
  | UnknownFormType string
  | UnknownStyle string
  | VariantDialectTwice string
  | BadRichText rich_err
  | BadLevel string
  | UnknownSubPos string
  | ForeignSenseGroup uuid
  | BadDefType string
  | ForeignStructure uuid
  | UnknownRelation string
  | SenseWithoutWord
  | ScoreOutOfRange int
  | TargetRequired uuid
  | RemovedWithParent uuid

text \<open>One publish violation per line of the details, with the numbers the line shows.\<close>

datatype violation =
    NeedFrequency
  | BadDialects invalid_reason
  | NeedPos
  | NeedBaseForm string string nat
  | NeedSpelling string nat
  | NeedPronunciation string nat
  | NeedDictPhonetic string nat nat
  | NeedActualPron string nat nat
  | NeedStructure string
  | MissingDialect string nat string
  | EmptyVariant string nat string
  | NeedSense string
  | NeedSubPos string nat
  | NeedSenseFrequency string nat
  | NeedDefinition string nat
  | EmptyDefinition string nat nat
  | NeedTargetSense string nat nat

datatype word_err =
    Plainly goerr
  | ValidationError node_path invalid_reason
  | IncompleteError "violation list"

abbreviation (input) word_ErrNotFound :: word_err where
  "word_ErrNotFound \<equiv> Plainly (Sentinel ''word.ErrNotFound'')"
abbreviation (input) ErrHeadwordTaken :: word_err where
  "ErrHeadwordTaken \<equiv> Plainly (Sentinel ''word.ErrHeadwordTaken'')"
abbreviation (input) ErrStale :: word_err where "ErrStale \<equiv> Plainly (Sentinel ''word.ErrStale'')"
abbreviation (input) ErrIDConflict :: word_err where
  "ErrIDConflict \<equiv> Plainly (Sentinel ''word.ErrIDConflict'')"
abbreviation (input) ErrBadTargetRef :: word_err where
  "ErrBadTargetRef \<equiv> Plainly (Sentinel ''word.ErrBadTargetRef'')"

end
