(* ===== verification/WordTree.thy ===== *)
theory WordTree
  imports WordModel
begin

text \<open>
  The two validations of \<open>internal/word/service.go\<close>: \<open>validateTree\<close>, which every save passes
  and which normalises as it goes, and \<open>publishViolations\<close>, the completeness rules V1 to V10.
  Go walks the tree with nested loops, mutating it and a set of the node ids seen; here a loop
  is \<open>each\<close>, which threads the ids and returns the normalised nodes, and an early return is the
  left of a sum.
\<close>

subsection \<open>Loops with early return\<close>

definition sbind :: "'e + 'a \<Rightarrow> ('a \<Rightarrow> 'e + 'b) \<Rightarrow> 'e + 'b" where
  "sbind m f = (case m of Inl e \<Rightarrow> Inl e | Inr a \<Rightarrow> f a)"

definition ensure :: "bool \<Rightarrow> 'e \<Rightarrow> 'e + 'a \<Rightarrow> 'e + 'a" where
  "ensure b e k = (if b then k else Inl e)"

fun each :: "(nat \<Rightarrow> 'a \<Rightarrow> 's \<Rightarrow> 'e + 'b \<times> 's) \<Rightarrow> nat \<Rightarrow> 'a list \<Rightarrow> 's \<Rightarrow> 'e + 'b list \<times> 's" where
  "each f i [] s = Inr ([], s)"
| "each f i (x # xs) s =
     sbind (f i x s) (\<lambda>(y, s1). sbind (each f (Suc i) xs s1) (\<lambda>(ys, s2). Inr (y # ys, s2)))"

lemma sbind_simps [simp]: "sbind (Inl e) f = Inl e" "sbind (Inr a) f = f a"
  by (simp_all add: sbind_def)

lemma sbind_Inr: "sbind m f = Inr b \<longleftrightarrow> (\<exists>a. m = Inr a \<and> f a = Inr b)"
  by (cases m) simp_all

lemma ensure_Inr [simp]: "ensure b e k = Inr a \<longleftrightarrow> b \<and> k = Inr a"
  by (simp add: ensure_def)

subsection \<open>Draft-level validation\<close>

definition allowedDialects :: "string \<Rightarrow> string list \<Rightarrow> invalid_reason + string list" where
  "allowedDialects mode dialects =
     (if mode = ModeUnified then
        (if dialects \<noteq> [] then Inl UnifiedWithDialects else Inr [DialectCommon])
      else if mode = ModeDistinguish then
        (if dialects = [] then Inl DistinguishWithoutDialects
         else sbind (each (\<lambda>i d seen.
                 ensure (d = DialectUK \<or> d = DialectUS) (BadDialect d)
                   (ensure (d \<notin> set seen) (DuplicateDialect d) (Inr (d, d # seen)))) 0 dialects [])
               (\<lambda>(ds, seen). Inr (filter (\<lambda>d. d \<in> set seen) [DialectUK, DialectUS])))
      else Inl (BadDialectMode mode))"

type_synonym 'a checked = "(node_path \<times> invalid_reason) + 'a \<times> uuid list"

text \<open>\<open>claim\<close>, with the ids seen so far, latest first; the last message names no node.\<close>

definition claim :: "node_path \<Rightarrow> uuid \<Rightarrow> uuid list \<Rightarrow> (node_path \<times> invalid_reason) + uuid list" where
  "claim p i seen =
     (if i = uuid_Nil then Inl (p, MissingId)
      else if i \<in> set seen then Inl (p, DuplicateId i)
      else if Suc (length seen) > maxTreeNodes then Inl ([], TreeTooLarge)
      else Inr (i # seen))"

definition short :: "string \<Rightarrow> bool" where
  "short s \<longleftrightarrow> RuneCount s \<le> maxShortField"

definition check_text :: "node_path \<Rightarrow> rich_text \<Rightarrow> (node_path \<times> invalid_reason) + rich_text" where
  "check_text p rt =
     (case rt_validate rt of Some e \<Rightarrow> Inl (p, BadRichText e) | None \<Rightarrow> Inr (rt_normalize rt))"

definition check_frequency :: "node_path \<Rightarrow> string \<Rightarrow> (node_path \<times> invalid_reason) + string" where
  "check_frequency p s =
     (if s = [] then Inr s
      else case NormalizeFrequency s of Inl e \<Rightarrow> Inl (p, BadFrequency e) | Inr t \<Rightarrow> Inr t)"

definition check_group :: "nat \<Rightarrow> sense_group \<Rightarrow> uuid list \<Rightarrow> sense_group checked" where
  "check_group i g seen =
     (let p = [(''sense_groups'', i)] in
      sbind (claim p (sg_id g) seen) (\<lambda>seen.
      let g = g\<lparr>sg_name := TrimSpace (sg_name g)\<rparr> in
      ensure (short (sg_name g)) (p, FieldTooLong ''name'') (Inr (g, seen))))"

definition check_pron :: "node_path \<Rightarrow> nat \<Rightarrow> pronunciation \<Rightarrow> uuid list \<Rightarrow> pronunciation checked" where
  "check_pron up i pr seen =
     (let p = up @ [(''pronunciations'', i)] in
      sbind (claim p (pr_id pr) seen) (\<lambda>seen.
      let pr = (if pr_style pr = [] then pr\<lparr>pr_style := StyleNormal\<rparr> else pr) in
      ensure (style_valid (pr_style pr)) (p, UnknownStyle (pr_style pr))
      (let pr = pr\<lparr>pr_dict := TrimSpace (pr_dict pr), pr_actual := TrimSpace (pr_actual pr)\<rparr> in
       ensure (short (pr_dict pr)) (p, FieldTooLong ''dict_phonetic'')
       (ensure (short (pr_actual pr)) (p, FieldTooLong ''actual_pron'') (Inr (pr, seen))))))"

definition check_form ::
  "node_path \<Rightarrow> string list \<Rightarrow> nat \<Rightarrow> word_form \<Rightarrow> uuid list \<Rightarrow> word_form checked" where
  "check_form up allowed i f seen =
     (let p = up @ [(''forms'', i)] in
      sbind (claim p (fm_id f) seen) (\<lambda>seen.
      ensure (fm_dialect f \<in> set allowed) (p, DialectNotEnabled (fm_dialect f))
      (ensure (fm_type f \<in> set FormTypeValues) (p, UnknownFormType (fm_type f))
      (let f = f\<lparr>fm_spelling := TrimSpace (fm_spelling f)\<rparr> in
       ensure (short (fm_spelling f)) (p, FieldTooLong ''spelling'')
       (sbind (each (check_pron p) 0 (fm_prons f) seen) (\<lambda>(prs, seen).
        Inr (f\<lparr>fm_prons := prs\<rparr>, seen)))))))"

definition check_variant ::
  "node_path \<Rightarrow> string list \<Rightarrow> nat \<Rightarrow> grammar_variant \<Rightarrow> uuid list \<times> string list
    \<Rightarrow> (node_path \<times> invalid_reason) + grammar_variant \<times> uuid list \<times> string list" where
  "check_variant up allowed i v ss =
     (let p = up @ [(''variants'', i)] in
      sbind (claim p (gv_id v) (fst ss)) (\<lambda>seen.
      ensure (gv_dialect v \<in> set allowed) (p, DialectNotEnabled (gv_dialect v))
      (ensure (gv_dialect v \<notin> set (snd ss)) (p, VariantDialectTwice (gv_dialect v))
      (sbind (check_text p (gv_content v)) (\<lambda>rt.
       Inr (v\<lparr>gv_content := rt\<rparr>, seen, gv_dialect v # snd ss))))))"

definition check_structure ::
  "node_path \<Rightarrow> string list \<Rightarrow> nat \<Rightarrow> grammar_structure \<Rightarrow> uuid list \<Rightarrow> grammar_structure checked" where
  "check_structure up allowed i g seen =
     (let p = up @ [(''grammar_structures'', i)] in
      sbind (claim p (gs_id g) seen) (\<lambda>seen.
      sbind (each (check_variant p allowed) 0 (gs_variants g) (seen, [])) (\<lambda>(vs, seen, dials).
      Inr (g\<lparr>gs_variants := vs\<rparr>, seen))))"

definition check_definition ::
  "node_path \<Rightarrow> uuid list \<Rightarrow> nat \<Rightarrow> word_definition \<Rightarrow> uuid list \<Rightarrow> word_definition checked" where
  "check_definition up structs i d seen =
     (let p = up @ [(''definitions'', i)] in
      sbind (claim p (df_id d) seen) (\<lambda>seen.
      ensure (word_level_valid (df_level d)) (p, BadLevel (df_level d))
      (ensure (def_type_valid (df_type d)) (p, BadDefType (df_type d))
      (sbind (check_text p (df_text d)) (\<lambda>rt.
       let d = d\<lparr>df_text := rt\<rparr> in
       case df_struct d of
         None \<Rightarrow> Inr (d, seen)
       | Some g \<Rightarrow> ensure (g \<in> set structs) (p, ForeignStructure g) (Inr (d, seen)))))))"

definition check_sentence :: "node_path \<Rightarrow> nat \<Rightarrow> sentence \<Rightarrow> uuid list \<Rightarrow> sentence checked" where
  "check_sentence up i t seen =
     (let p = up @ [(''sentences'', i)] in
      sbind (claim p (st_id t) seen) (\<lambda>seen.
      case st_text t of
        None \<Rightarrow> Inr (t, seen)
      | Some rt \<Rightarrow> sbind (check_text p rt) (\<lambda>rt. Inr (t\<lparr>st_text := Some rt\<rparr>, seen))))"

definition check_relation :: "node_path \<Rightarrow> nat \<Rightarrow> word_relation \<Rightarrow> uuid list \<Rightarrow> word_relation checked" where
  "check_relation up i r seen =
     (let p = up @ [(''relations'', i)] in
      sbind (claim p (rl_id r) seen) (\<lambda>seen.
      ensure (relation_valid (rl_relation r)) (p, UnknownRelation (rl_relation r))
      (ensure (\<not> (rl_word r = None \<and> rl_sense r \<noteq> None)) (p, SenseWithoutWord)
      (ensure (\<not> (rl_score r < 0 \<or> rl_score r > 100)) (p, ScoreOutOfRange (rl_score r))
      (Inr (r\<lparr>rl_headword := [], rl_gloss := []\<rparr>, seen))))))"

definition check_sense ::
  "node_path \<Rightarrow> uuid list \<Rightarrow> uuid list \<Rightarrow> nat \<Rightarrow> word_sense \<Rightarrow> uuid list \<Rightarrow> word_sense checked" where
  "check_sense up groups structs i sn seen =
     (let p = up @ [(''senses'', i)] in
      sbind (claim p (sn_id sn) seen) (\<lambda>seen.
      ensure (word_level_valid (sn_level sn)) (p, BadLevel (sn_level sn))
      (let sn = sn\<lparr>sn_sub_pos := TrimSpace (sn_sub_pos sn)\<rparr> in
       ensure (sn_sub_pos sn = [] \<or> sn_sub_pos sn \<in> set SubPOSValues) (p, UnknownSubPos (sn_sub_pos sn))
       (ensure (\<forall>g \<in> set_option (sn_group sn). g \<in> set groups) (p, ForeignSenseGroup (the (sn_group sn)))
       (sbind (check_frequency p (sn_frequency sn)) (\<lambda>fr.
        sbind (each (check_definition p structs) 0 (sn_definitions sn) seen) (\<lambda>(ds, seen).
        sbind (each (check_sentence p) 0 (sn_sentences sn) seen) (\<lambda>(ts, seen).
        sbind (each (check_relation p) 0 (sn_relations sn) seen) (\<lambda>(rs, seen).
        Inr (sn\<lparr>sn_frequency := fr, sn_definitions := ds, sn_sentences := ts, sn_relations := rs\<rparr>, seen))))))))))"

definition check_pos ::
  "string list \<Rightarrow> uuid list \<Rightarrow> nat \<Rightarrow> word_pos \<Rightarrow> uuid list \<times> string list
    \<Rightarrow> (node_path \<times> invalid_reason) + word_pos \<times> uuid list \<times> string list" where
  "check_pos allowed groups i po ss =
     (let p = [(''pos'', i)] in
      sbind (claim p (po_id po) (fst ss)) (\<lambda>seen.
      ensure (po_pos po \<in> set POSValues) (p, UnknownPos (po_pos po))
      (ensure (po_pos po \<notin> set (snd ss)) (p, DuplicatePos (po_pos po))
      (sbind (each (check_form p allowed) 0 (po_forms po) seen) (\<lambda>(fs, seen).
       sbind (each (check_structure p allowed) 0 (po_structures po) seen) (\<lambda>(gs, seen).
       sbind (each (check_sense p groups (map gs_id gs)) 0 (po_senses po) seen) (\<lambda>(sns, seen).
       Inr (po\<lparr>po_forms := fs, po_structures := gs, po_senses := sns\<rparr>, seen, po_pos po # snd ss))))))))"

definition validateTree :: "save_input \<Rightarrow> word_err + save_input" where
  "validateTree inp =
     (case
       (ensure (si_base inp \<noteq> zero_time) ([], BaseRequired)
        (case allowedDialects (si_mode inp) (si_dialects inp) of
           Inl e \<Rightarrow> Inl ([], e)
         | Inr allowed \<Rightarrow>
             sbind (check_frequency [] (si_frequency inp)) (\<lambda>fr.
             sbind (each check_group 0 (si_groups inp) []) (\<lambda>(gs, seen).
             sbind (each (check_pos allowed (map sg_id gs)) 0 (si_pos inp) (seen, [])) (\<lambda>(ps, _).
             Inr (inp\<lparr>si_frequency := fr, si_groups := gs, si_pos := ps\<rparr>))))))
      of Inl (p, e) \<Rightarrow> Inl (ValidationError p e) | Inr out \<Rightarrow> Inr out)"

subsection \<open>Publish completeness\<close>

definition complain :: "bool \<Rightarrow> violation \<Rightarrow> violation list" where
  "complain b v = (if b then [v] else [])"

text \<open>The bodies of the loops; indices in the messages start at one.\<close>

definition form_violations :: "string \<Rightarrow> nat \<Rightarrow> word_form \<Rightarrow> violation list" where
  "form_violations p fi f =
     complain (fm_spelling f = []) (NeedSpelling p fi) @
     complain (fm_prons f = []) (NeedPronunciation p fi) @
     concat (map (\<lambda>(pi, pr).
       complain (pr_dict pr = []) (NeedDictPhonetic p fi pi) @
       complain (pr_actual pr = []) (NeedActualPron p fi pi)) (enumerate 1 (fm_prons f)))"

text \<open>\<open>byDialect\<close> keeps the last variant of a dialect.\<close>

definition by_dialect :: "grammar_structure \<Rightarrow> string \<Rightarrow> grammar_variant option" where
  "by_dialect g d = find (\<lambda>v. gv_dialect v = d) (rev (gs_variants g))"

definition structure_violations ::
  "string list \<Rightarrow> string \<Rightarrow> nat \<Rightarrow> grammar_structure \<Rightarrow> violation list" where
  "structure_violations allowed p gi g =
     concat (map (\<lambda>d.
       case by_dialect g d of
         None \<Rightarrow> [MissingDialect p gi d]
       | Some v \<Rightarrow> complain (rt_empty (gv_content v)) (EmptyVariant p gi d)) allowed)"

definition sense_violations :: "string \<Rightarrow> nat \<Rightarrow> word_sense \<Rightarrow> violation list" where
  "sense_violations p si sn =
     complain (sn_sub_pos sn = []) (NeedSubPos p si) @
     complain (sn_frequency sn = []) (NeedSenseFrequency p si) @
     complain (sn_definitions sn = []) (NeedDefinition p si) @
     concat (map (\<lambda>(di, d). complain (rt_empty (df_text d)) (EmptyDefinition p si di))
       (enumerate 1 (sn_definitions sn))) @
     concat (map (\<lambda>(ri, r). complain (rl_word r \<noteq> None \<and> rl_sense r = None) (NeedTargetSense p si ri))
       (enumerate 1 (sn_relations sn)))"

definition base_count :: "word_pos \<Rightarrow> string \<Rightarrow> nat" where
  "base_count po d = length (filter (\<lambda>f. fm_type f = FormTypeBase \<and> fm_dialect f = d) (po_forms po))"

definition pos_violations :: "string list \<Rightarrow> word_pos \<Rightarrow> violation list" where
  "pos_violations allowed po =
     (let p = po_pos po in
      concat (map (\<lambda>d. complain (base_count po d \<noteq> 1) (NeedBaseForm p d (base_count po d))) allowed) @
      concat (map (\<lambda>(fi, f). form_violations p fi f) (enumerate 1 (po_forms po))) @
      complain (po_structures po = []) (NeedStructure p) @
      concat (map (\<lambda>(gi, g). structure_violations allowed p gi g) (enumerate 1 (po_structures po))) @
      complain (po_senses po = []) (NeedSense p) @
      concat (map (\<lambda>(si, sn). sense_violations p si sn) (enumerate 1 (po_senses po))))"

definition publishViolations ::
  "string \<Rightarrow> string \<Rightarrow> string list \<Rightarrow> word_pos list \<Rightarrow> violation list" where
  "publishViolations frequency mode dialects pos =
     complain (frequency = []) NeedFrequency @
     (case allowedDialects mode dialects of
        Inl e \<Rightarrow> [BadDialects e]
      | Inr allowed \<Rightarrow>
          complain (pos = []) NeedPos @ concat (map (pos_violations allowed) pos))"

subsection \<open>What a loop accepts\<close>

fun steps :: "('b \<Rightarrow> 's \<Rightarrow> 's option) \<Rightarrow> 'b list \<Rightarrow> 's \<Rightarrow> 's option" where
  "steps g [] s = Some s"
| "steps g (y # ys) s = (case g y s of None \<Rightarrow> None | Some s1 \<Rightarrow> steps g ys s1)"

lemma each_iff:
  assumes "\<And>j x s y s'. x \<in> set xs \<Longrightarrow>
    f j x s = Inr (y, s') \<longleftrightarrow> y = h x \<and> ok y \<and> g y s = Some s'"
  shows "each f i xs s = Inr (ys, s') \<longleftrightarrow>
    ys = map h xs \<and> (\<forall>y \<in> set ys. ok y) \<and> steps g ys s = Some s'"
  using assms
proof (induction xs arbitrary: i s ys s')
  case (Cons x xs)
  have x: "f i x s = Inr (y, s1) \<longleftrightarrow> y = h x \<and> ok y \<and> g y s = Some s1" for y s1
    using Cons.prems [of x] by simp
  have IH: "each f (Suc i) xs s1 = Inr (zs, s') \<longleftrightarrow>
      zs = map h xs \<and> (\<forall>y \<in> set zs. ok y) \<and> steps g zs s1 = Some s'" for s1 zs
    by (rule Cons.IH) (use Cons.prems in auto)
  have "each f i (x # xs) s = Inr (ys, s') \<longleftrightarrow>
      (\<exists>y s1 zs. f i x s = Inr (y, s1) \<and> each f (Suc i) xs s1 = Inr (zs, s') \<and> ys = y # zs)"
    by (auto simp: sbind_Inr)
  also have "\<dots> \<longleftrightarrow> ys = map h (x # xs) \<and> (\<forall>y \<in> set ys. ok y) \<and> steps g ys s = Some s'"
    unfolding x IH by (auto split: option.splits)
  finally show ?case .
qed auto

text \<open>Claiming a list of ids one by one.\<close>

definition claimable :: "uuid \<Rightarrow> uuid list \<Rightarrow> bool" where
  "claimable i seen \<longleftrightarrow> i \<noteq> uuid_Nil \<and> i \<notin> set seen \<and> length seen < maxTreeNodes"

fun claim_all :: "uuid list \<Rightarrow> uuid list \<Rightarrow> uuid list option" where
  "claim_all [] seen = Some seen"
| "claim_all (i # is) seen =
     (if claimable i seen then claim_all is (i # seen) else None)"

lemma claim_iff: "claim p i seen = Inr s \<longleftrightarrow> claimable i seen \<and> s = i # seen"
  by (auto simp: claim_def claimable_def)

lemma claims_append: "claim_all (xs @ ys) s = (case claim_all xs s of None \<Rightarrow> None | Some t \<Rightarrow> claim_all ys t)"
  by (induction xs arbitrary: s) simp_all

lemma steps_claims: "steps (\<lambda>y. claim_all (ids y)) ys s = claim_all (concat (map ids ys)) s"
  by (induction ys arbitrary: s) (simp_all add: claims_append split: option.split)

lemma claims_Some:
  "claim_all is s = Some t \<longleftrightarrow> t = rev is @ s \<and> distinct is \<and> set is \<inter> set s = {} \<and> uuid_Nil \<notin> set is \<and>
     (is = [] \<or> length is + length s \<le> maxTreeNodes)"
proof (induction "is" arbitrary: s)
  case (Cons i "is")
  show ?case
    by (cases "is = []") (auto simp: Cons.IH claimable_def)
qed auto

text \<open>A second component that must not repeat.\<close>

lemma steps_pair:
  "steps (\<lambda>y ss. if key y \<in> set (snd ss) then None
       else map_option (\<lambda>s1. (s1, key y # snd ss)) (claim_all (ids y) (fst ss))) ys ss = Some tt \<longleftrightarrow>
     distinct (map key ys) \<and> set (map key ys) \<inter> set (snd ss) = {} \<and>
     claim_all (concat (map ids ys)) (fst ss) = Some (fst tt) \<and> snd tt = rev (map key ys) @ snd ss"
proof (induction ys arbitrary: ss)
  case (Cons y ys)
  show ?case
    by (cases "claim_all (ids y) (fst ss)") (auto simp: claims_append Cons.IH)
qed (auto simp: prod_eq_iff)

subsection \<open>Normal forms and well-formed trees\<close>

text \<open>What validation turns each node into, and which results it lets through.\<close>

definition clean :: "string \<Rightarrow> bool" where
  "clean s \<longleftrightarrow> TrimSpace s = s \<and> short s"

definition text_ok :: "rich_text \<Rightarrow> bool" where
  "text_ok rt \<longleftrightarrow> rt_ok rt \<and> rt_normalize rt = rt"

definition normal_freq :: "string \<Rightarrow> string" where
  "normal_freq s = (if s = [] then s else case NormalizeFrequency s of Inl e \<Rightarrow> s | Inr t \<Rightarrow> t)"

definition normal_group :: "sense_group \<Rightarrow> sense_group" where
  "normal_group g = g\<lparr>sg_name := TrimSpace (sg_name g)\<rparr>"

definition normal_pron :: "pronunciation \<Rightarrow> pronunciation" where
  "normal_pron pr = pr\<lparr>pr_style := (if pr_style pr = [] then StyleNormal else pr_style pr),
     pr_dict := TrimSpace (pr_dict pr), pr_actual := TrimSpace (pr_actual pr)\<rparr>"

definition normal_form :: "word_form \<Rightarrow> word_form" where
  "normal_form f = f\<lparr>fm_spelling := TrimSpace (fm_spelling f), fm_prons := map normal_pron (fm_prons f)\<rparr>"

definition normal_variant :: "grammar_variant \<Rightarrow> grammar_variant" where
  "normal_variant v = v\<lparr>gv_content := rt_normalize (gv_content v)\<rparr>"

definition normal_structure :: "grammar_structure \<Rightarrow> grammar_structure" where
  "normal_structure g = g\<lparr>gs_variants := map normal_variant (gs_variants g)\<rparr>"

definition normal_definition :: "word_definition \<Rightarrow> word_definition" where
  "normal_definition d = d\<lparr>df_text := rt_normalize (df_text d)\<rparr>"

definition normal_sentence :: "sentence \<Rightarrow> sentence" where
  "normal_sentence t = t\<lparr>st_text := map_option rt_normalize (st_text t)\<rparr>"

definition normal_relation :: "word_relation \<Rightarrow> word_relation" where
  "normal_relation r = r\<lparr>rl_headword := [], rl_gloss := []\<rparr>"

definition normal_sense :: "word_sense \<Rightarrow> word_sense" where
  "normal_sense sn = sn\<lparr>sn_sub_pos := TrimSpace (sn_sub_pos sn), sn_frequency := normal_freq (sn_frequency sn),
     sn_definitions := map normal_definition (sn_definitions sn),
     sn_sentences := map normal_sentence (sn_sentences sn),
     sn_relations := map normal_relation (sn_relations sn)\<rparr>"

definition normal_pos :: "word_pos \<Rightarrow> word_pos" where
  "normal_pos po = po\<lparr>po_forms := map normal_form (po_forms po),
     po_structures := map normal_structure (po_structures po),
     po_senses := map normal_sense (po_senses po)\<rparr>"

definition normal_tree :: "save_input \<Rightarrow> save_input" where
  "normal_tree inp = inp\<lparr>si_frequency := normal_freq (si_frequency inp),
     si_groups := map normal_group (si_groups inp), si_pos := map normal_pos (si_pos inp)\<rparr>"

definition group_ok :: "sense_group \<Rightarrow> bool" where
  "group_ok g \<longleftrightarrow> clean (sg_name g)"

definition pron_ok :: "pronunciation \<Rightarrow> bool" where
  "pron_ok pr \<longleftrightarrow> style_valid (pr_style pr) \<and> clean (pr_dict pr) \<and> clean (pr_actual pr)"

definition form_ok :: "string list \<Rightarrow> word_form \<Rightarrow> bool" where
  "form_ok allowed f \<longleftrightarrow> fm_dialect f \<in> set allowed \<and> fm_type f \<in> set FormTypeValues \<and>
     clean (fm_spelling f) \<and> (\<forall>pr \<in> set (fm_prons f). pron_ok pr)"

definition variant_ok :: "string list \<Rightarrow> grammar_variant \<Rightarrow> bool" where
  "variant_ok allowed v \<longleftrightarrow> gv_dialect v \<in> set allowed \<and> text_ok (gv_content v)"

definition structure_ok :: "string list \<Rightarrow> grammar_structure \<Rightarrow> bool" where
  "structure_ok allowed g \<longleftrightarrow> distinct (map gv_dialect (gs_variants g)) \<and>
     (\<forall>v \<in> set (gs_variants g). variant_ok allowed v)"

definition definition_ok :: "uuid list \<Rightarrow> word_definition \<Rightarrow> bool" where
  "definition_ok structs d \<longleftrightarrow> word_level_valid (df_level d) \<and> def_type_valid (df_type d) \<and>
     text_ok (df_text d) \<and> set_option (df_struct d) \<subseteq> set structs"

definition sentence_ok :: "sentence \<Rightarrow> bool" where
  "sentence_ok t \<longleftrightarrow> (\<forall>rt \<in> set_option (st_text t). text_ok rt)"

definition relation_ok :: "word_relation \<Rightarrow> bool" where
  "relation_ok r \<longleftrightarrow> relation_valid (rl_relation r) \<and> (rl_word r = None \<longrightarrow> rl_sense r = None) \<and>
     0 \<le> rl_score r \<and> rl_score r \<le> 100 \<and> rl_headword r = [] \<and> rl_gloss r = []"

definition sense_ok :: "uuid list \<Rightarrow> uuid list \<Rightarrow> word_sense \<Rightarrow> bool" where
  "sense_ok groups structs sn \<longleftrightarrow> word_level_valid (sn_level sn) \<and> TrimSpace (sn_sub_pos sn) = sn_sub_pos sn \<and>
     (sn_sub_pos sn = [] \<or> sn_sub_pos sn \<in> set SubPOSValues) \<and> set_option (sn_group sn) \<subseteq> set groups \<and>
     (sn_frequency sn = [] \<or> freq_ok (sn_frequency sn)) \<and>
     (\<forall>d \<in> set (sn_definitions sn). definition_ok structs d) \<and>
     (\<forall>t \<in> set (sn_sentences sn). sentence_ok t) \<and> (\<forall>r \<in> set (sn_relations sn). relation_ok r)"

definition pos_ok :: "string list \<Rightarrow> uuid list \<Rightarrow> word_pos \<Rightarrow> bool" where
  "pos_ok allowed groups po \<longleftrightarrow> po_pos po \<in> set POSValues \<and> (\<forall>f \<in> set (po_forms po). form_ok allowed f) \<and>
     (\<forall>g \<in> set (po_structures po). structure_ok allowed g) \<and>
     (\<forall>sn \<in> set (po_senses po). sense_ok groups (map gs_id (po_structures po)) sn)"

text \<open>The ids of a tree, in the order validation claims them.\<close>

definition form_ids :: "word_form \<Rightarrow> uuid list" where
  "form_ids f = fm_id f # map pr_id (fm_prons f)"

definition structure_ids :: "grammar_structure \<Rightarrow> uuid list" where
  "structure_ids g = gs_id g # map gv_id (gs_variants g)"

definition sense_ids :: "word_sense \<Rightarrow> uuid list" where
  "sense_ids sn = sn_id sn # map df_id (sn_definitions sn) @ map st_id (sn_sentences sn) @
     map rl_id (sn_relations sn)"

definition pos_ids :: "word_pos \<Rightarrow> uuid list" where
  "pos_ids po = po_id po # concat (map form_ids (po_forms po)) @
     concat (map structure_ids (po_structures po)) @ concat (map sense_ids (po_senses po))"

definition tree_ids :: "save_input \<Rightarrow> uuid list" where
  "tree_ids inp = map sg_id (si_groups inp) @ concat (map pos_ids (si_pos inp))"

definition dialects_ok :: "string \<Rightarrow> string list \<Rightarrow> bool" where
  "dialects_ok mode ds \<longleftrightarrow> mode = ModeUnified \<and> ds = [] \<or>
     mode = ModeDistinguish \<and> ds \<noteq> [] \<and> distinct ds \<and> set ds \<subseteq> {DialectUK, DialectUS}"

definition enabled_dialects :: "string \<Rightarrow> string list \<Rightarrow> string list" where
  "enabled_dialects mode ds =
     (if mode = ModeUnified then [DialectCommon] else filter (\<lambda>d. d \<in> set ds) [DialectUK, DialectUS])"

definition entry_ok :: "string \<Rightarrow> string \<Rightarrow> string list \<Rightarrow> sense_group list \<Rightarrow> word_pos list \<Rightarrow> bool" where
  "entry_ok frequency mode ds groups pos \<longleftrightarrow>
     (frequency = [] \<or> freq_ok frequency) \<and> dialects_ok mode ds \<and> (\<forall>g \<in> set groups. group_ok g) \<and>
     distinct (map po_pos pos) \<and>
     (\<forall>po \<in> set pos. pos_ok (enabled_dialects mode ds) (map sg_id groups) po)"

definition tree_ok :: "save_input \<Rightarrow> bool" where
  "tree_ok inp \<longleftrightarrow> si_base inp \<noteq> zero_time \<and>
     entry_ok (si_frequency inp) (si_mode inp) (si_dialects inp) (si_groups inp) (si_pos inp) \<and>
     distinct (tree_ids inp) \<and> uuid_Nil \<notin> set (tree_ids inp) \<and> length (tree_ids inp) \<le> maxTreeNodes"

lemma subset_pair: "set ds \<subseteq> {a, b} \<longleftrightarrow> (\<forall>y \<in> set ds. y = a \<or> y = b)"
  by auto

lemma allowedDialects_iff:
  "allowedDialects mode ds = Inr A \<longleftrightarrow> dialects_ok mode ds \<and> A = enabled_dialects mode ds"
proof -
  let ?f = "\<lambda>i d seen. ensure (d = DialectUK \<or> d = DialectUS) (BadDialect d)
      (ensure (d \<notin> set seen) (DuplicateDialect d) (Inr (d, d # seen)))"
  let ?g = "\<lambda>d seen. if d \<in> set seen then None else Some (d # seen)"
  have loop: "each ?f 0 ds [] = Inr (ys, t) \<longleftrightarrow>
      ys = map id ds \<and> (\<forall>y \<in> set ys. y = DialectUK \<or> y = DialectUS) \<and> steps ?g ys [] = Some t" for ys t
    by (rule each_iff) auto
  have st: "steps ?g ys s = Some t \<longleftrightarrow> distinct ys \<and> set ys \<inter> set s = {} \<and> t = rev ys @ s" for ys s t
    by (induction ys arbitrary: s) auto
  have run: "each ?f 0 ds [] = Inr (ys, t) \<longleftrightarrow>
      ys = ds \<and> t = rev ds \<and> distinct ds \<and> set ds \<subseteq> {DialectUK, DialectUS}" for ys t
    unfolding loop st list.map_id subset_pair by (simp only: list.set Int_empty_right append_Nil2 simp_thms) (rule iffI; elim conjE; hypsubst?; simp)
  show ?thesis
  proof (cases "mode = ModeDistinguish \<and> ds \<noteq> []")
    case True
    then have m: "mode = ModeDistinguish" "ds \<noteq> []" "mode \<noteq> ModeUnified" by simp_all
    have e: "allowedDialects mode ds =
        sbind (each ?f 0 ds []) (\<lambda>(ys, seen). Inr (filter (\<lambda>d. d \<in> set seen) [DialectUK, DialectUS]))"
      unfolding allowedDialects_def if_not_P [OF m(3)] if_P [OF m(1)] if_not_P [OF m(2)] ..
    have "allowedDialects mode ds = Inr A \<longleftrightarrow> distinct ds \<and> set ds \<subseteq> {DialectUK, DialectUS} \<and>
        A = filter (\<lambda>d. d \<in> set ds) [DialectUK, DialectUS]"
      unfolding e sbind_Inr split_paired_Ex run
      by (simp only: split_conv sum.inject conj_assoc ex_simps simp_thms set_rev eq_commute [of A])
    then show ?thesis
      unfolding dialects_ok_def enabled_dialects_def if_not_P [OF m(3)]
      by (simp only: m(2,3) True simp_thms conj_assoc)
  next
    case False
    then show ?thesis
      unfolding allowedDialects_def dialects_ok_def enabled_dialects_def
      by (cases "mode = ModeUnified"; cases "mode = ModeDistinguish"; cases ds) (simp_all add: eq_commute [of A])
  qed
qed

lemma check_text_iff: "check_text p rt = Inr y \<longleftrightarrow> y = rt_normalize rt \<and> text_ok y"
  using rt_validate_None [of "rt_normalize rt"]
  by (auto simp: check_text_def text_ok_def split: option.splits)

lemma check_frequency_iff:
  "check_frequency p s = Inr y \<longleftrightarrow> y = normal_freq s \<and> (y = [] \<or> freq_ok y)"
proof (cases "s = []")
  case False
  then show ?thesis
  proof (cases "NormalizeFrequency s")
    case (Inl e)
    then have "\<not> freq_ok s" using NormalizeFrequency_fixed [of s] by auto
    with Inl False show ?thesis by (auto simp: check_frequency_def normal_freq_def)
  next
    case (Inr t)
    then have "freq_ok t" by (rule NormalizeFrequency_ok)
    with Inr False show ?thesis by (auto simp: check_frequency_def normal_freq_def)
  qed
qed (auto simp: check_frequency_def normal_freq_def)

lemma normal_ids [simp]:
  "pr_id (normal_pron pr) = pr_id pr" "fm_id (normal_form f) = fm_id f" "gv_id (normal_variant v) = gv_id v"
  "gs_id (normal_structure g) = gs_id g" "df_id (normal_definition d) = df_id d"
  "st_id (normal_sentence t) = st_id t" "rl_id (normal_relation r) = rl_id r"
  "sn_id (normal_sense sn) = sn_id sn" "po_id (normal_pos po) = po_id po" "sg_id (normal_group sg) = sg_id sg"
  by (simp_all add: normal_pron_def normal_form_def normal_variant_def normal_structure_def
      normal_definition_def normal_sentence_def normal_relation_def normal_sense_def normal_pos_def
      normal_group_def)

lemma check_group_iff:
  "check_group i g s = Inr (y, s') \<longleftrightarrow> y = normal_group g \<and> group_ok y \<and> claim_all [sg_id y] s = Some s'"
  by (auto simp: check_group_def Let_def sbind_Inr claim_iff normal_group_def group_ok_def clean_def
      TrimSpace_idem)

lemma check_pron_iff:
  "check_pron p i pr s = Inr (y, s') \<longleftrightarrow> y = normal_pron pr \<and> pron_ok y \<and> claim_all [pr_id y] s = Some s'"
  by (auto simp: check_pron_def Let_def sbind_Inr claim_iff normal_pron_def pron_ok_def clean_def
      TrimSpace_idem)

lemma check_relation_iff:
  "check_relation p i r s = Inr (y, s') \<longleftrightarrow>
     y = normal_relation r \<and> relation_ok y \<and> claim_all [rl_id y] s = Some s'"
  by (auto simp: check_relation_def Let_def sbind_Inr claim_iff normal_relation_def relation_ok_def
      not_less)

lemma check_sentence_iff:
  "check_sentence p i t s = Inr (y, s') \<longleftrightarrow>
     y = normal_sentence t \<and> sentence_ok y \<and> claim_all [st_id y] s = Some s'"
  by (cases "st_text t") (auto simp: check_sentence_def Let_def sbind_Inr claim_iff normal_sentence_def
      sentence_ok_def check_text_iff)

lemma check_definition_iff:
  "check_definition p structs i d s = Inr (y, s') \<longleftrightarrow>
     y = normal_definition d \<and> definition_ok structs y \<and> claim_all [df_id y] s = Some s'"
  by (cases "df_struct d") (auto simp: check_definition_def Let_def sbind_Inr claim_iff
      normal_definition_def definition_ok_def check_text_iff)

text \<open>The loops over children whose only state is the ids.\<close>

lemma each_claims:
  assumes "\<And>j x s y s'. x \<in> set xs \<Longrightarrow>
    f j x s = Inr (y, s') \<longleftrightarrow> y = h x \<and> ok y \<and> claim_all (ids y) s = Some s'"
  shows "each f i xs s = Inr (ys, s') \<longleftrightarrow>
    ys = map h xs \<and> (\<forall>y \<in> set ys. ok y) \<and> claim_all (concat (map ids ys)) s = Some s'"
  unfolding steps_claims [symmetric] by (rule each_iff) (rule assms)

lemma concat_single [simp]: "concat (map (\<lambda>y. [f y]) ys) = map f ys"
  by (induction ys) simp_all

lemmas each_prons = each_claims [where ids = "\<lambda>y. [pr_id y]", OF check_pron_iff, unfolded concat_single]
lemmas each_groups = each_claims [where ids = "\<lambda>y. [sg_id y]", OF check_group_iff, unfolded concat_single]
lemmas each_definitions =
  each_claims [where ids = "\<lambda>y. [df_id y]", OF check_definition_iff, unfolded concat_single]
lemmas each_sentences =
  each_claims [where ids = "\<lambda>y. [st_id y]", OF check_sentence_iff, unfolded concat_single]
lemmas each_relations =
  each_claims [where ids = "\<lambda>y. [rl_id y]", OF check_relation_iff, unfolded concat_single]

lemma claims_append_iff:
  "claim_all (xs @ ys) s = Some t \<longleftrightarrow> (\<exists>u. claim_all xs s = Some u \<and> claim_all ys u = Some t)"
  by (auto simp: claims_append split: option.splits)

lemma check_form_iff:
  "check_form p allowed i f s = Inr (y, s') \<longleftrightarrow>
     y = normal_form f \<and> form_ok allowed y \<and> claim_all (form_ids y) s = Some s'"
  by (auto simp: check_form_def Let_def sbind_Inr claim_iff normal_form_def form_ok_def clean_def
      each_prons TrimSpace_idem form_ids_def)

lemma check_variant_iff:
  "check_variant p allowed i v ss = Inr (y, ss') \<longleftrightarrow>
     y = normal_variant v \<and> variant_ok allowed y \<and>
     (if gv_dialect y \<in> set (snd ss) then None
      else map_option (\<lambda>s1. (s1, gv_dialect y # snd ss)) (claim_all [gv_id y] (fst ss))) = Some ss'"
  by (cases ss') (auto simp: check_variant_def Let_def sbind_Inr claim_iff normal_variant_def variant_ok_def
      check_text_iff)

lemma each_variants:
  "each (check_variant p allowed) i vs ss = Inr (ys, ss') \<longleftrightarrow>
     ys = map normal_variant vs \<and> (\<forall>y \<in> set ys. variant_ok allowed y) \<and>
     distinct (map gv_dialect ys) \<and> set (map gv_dialect ys) \<inter> set (snd ss) = {} \<and>
     claim_all (map gv_id ys) (fst ss) = Some (fst ss') \<and> snd ss' = rev (map gv_dialect ys) @ snd ss"
  by (simp only: each_iff [where f = "check_variant p allowed" and g = "\<lambda>y ss. if gv_dialect y \<in> set (snd ss) then None
       else map_option (\<lambda>s1. (s1, gv_dialect y # snd ss)) (claim_all [gv_id y] (fst ss))"
       and h = normal_variant and ok = "variant_ok allowed", OF check_variant_iff]
    steps_pair [of gv_dialect "\<lambda>y. [gv_id y]"] concat_single)

lemma check_structure_iff:
  "check_structure p allowed i g s = Inr (y, s') \<longleftrightarrow>
     y = normal_structure g \<and> structure_ok allowed y \<and> claim_all (structure_ids y) s = Some s'"
  by (auto simp: check_structure_def Let_def sbind_Inr claim_iff normal_structure_def structure_ok_def
      each_variants structure_ids_def)

lemma check_sense_iff:
  "check_sense p groups structs i sn s = Inr (y, s') \<longleftrightarrow>
     y = normal_sense sn \<and> sense_ok groups structs y \<and> claim_all (sense_ids y) s = Some s'"
proof -
  have g: "(\<forall>g \<in> set_option (sn_group sn). g \<in> set groups) \<longleftrightarrow> set_option (sn_group sn) \<subseteq> set groups"
    by auto
  show ?thesis
    by (auto simp: check_sense_def Let_def sbind_Inr claim_iff normal_sense_def sense_ok_def g
        check_frequency_iff each_definitions each_sentences each_relations TrimSpace_idem sense_ids_def
        claims_append_iff)
qed

lemmas each_forms = each_claims [where ids = form_ids, OF check_form_iff]
lemmas each_structures = each_claims [where ids = structure_ids, OF check_structure_iff]
lemmas each_senses = each_claims [where ids = sense_ids, OF check_sense_iff]

lemma check_pos_iff:
  "check_pos allowed groups i po ss = Inr (y, ss') \<longleftrightarrow>
     y = normal_pos po \<and> pos_ok allowed groups y \<and>
     (if po_pos y \<in> set (snd ss) then None
      else map_option (\<lambda>s1. (s1, po_pos y # snd ss)) (claim_all (pos_ids y) (fst ss))) = Some ss'"
proof -
  have "map gs_id (map normal_structure (po_structures po)) = map gs_id (po_structures po)" by simp
  then show ?thesis
    by (cases ss') (auto simp: check_pos_def Let_def sbind_Inr claim_iff normal_pos_def pos_ok_def
        each_forms each_structures each_senses pos_ids_def
        claims_append_iff)
qed

lemma each_pos:
  "each (check_pos allowed groups) i ps ss = Inr (ys, ss') \<longleftrightarrow>
     ys = map normal_pos ps \<and> (\<forall>y \<in> set ys. pos_ok allowed groups y) \<and>
     distinct (map po_pos ys) \<and> set (map po_pos ys) \<inter> set (snd ss) = {} \<and>
     claim_all (concat (map pos_ids ys)) (fst ss) = Some (fst ss') \<and> snd ss' = rev (map po_pos ys) @ snd ss"
  by (simp only: each_iff [where f = "check_pos allowed groups" and g = "\<lambda>y ss. if po_pos y \<in> set (snd ss) then None
       else map_option (\<lambda>s1. (s1, po_pos y # snd ss)) (claim_all (pos_ids y) (fst ss))"
       and h = normal_pos and ok = "pos_ok allowed groups", OF check_pos_iff]
    steps_pair [of po_pos pos_ids])

lemma tree_ids_normal [simp]: "tree_ids (normal_tree inp) = tree_ids inp"
proof -
  have f: "form_ids (normal_form f) = form_ids f" for f
    by (simp add: form_ids_def normal_form_def)
  have g: "structure_ids (normal_structure g) = structure_ids g" for g
    by (simp add: structure_ids_def normal_structure_def)
  have s: "sense_ids (normal_sense sn) = sense_ids sn" for sn
    by (simp add: sense_ids_def normal_sense_def)
  have "pos_ids (normal_pos po) = pos_ids po" for po
    by (simp add: pos_ids_def normal_pos_def o_def f g s)
  then show ?thesis by (simp add: tree_ids_def normal_tree_def o_def)
qed

lemma normal_tree_sel [simp]:
  "si_base (normal_tree inp) = si_base inp" "si_frequency (normal_tree inp) = normal_freq (si_frequency inp)"
  "si_mode (normal_tree inp) = si_mode inp" "si_dialects (normal_tree inp) = si_dialects inp"
  "si_groups (normal_tree inp) = map normal_group (si_groups inp)"
  "si_pos (normal_tree inp) = map normal_pos (si_pos inp)"
  by (simp_all add: normal_tree_def)

lemma case_sum_Inr_iff:
  "(case m of Inl (p, e) \<Rightarrow> Inl (ValidationError p e) | Inr a \<Rightarrow> Inr a) = Inr b \<longleftrightarrow> m = Inr b"
  by (auto split: sum.splits)

lemma validateTree_iff: "validateTree inp = Inr out \<longleftrightarrow> out = normal_tree inp \<and> tree_ok out"
proof -
  let ?A = "enabled_dialects (si_mode inp) (si_dialects inp)"
  let ?gs = "map normal_group (si_groups inp)" and ?ps = "map normal_pos (si_pos inp)"
  have c: "claim_all (tree_ids (normal_tree inp)) [] = Some t \<longleftrightarrow>
      (\<exists>s. claim_all (map sg_id ?gs) [] = Some s \<and> claim_all (concat (map pos_ids ?ps)) s = Some t)" for t
    by (auto simp: tree_ids_def normal_tree_def claims_append_iff simp del: map_map list.map_comp)
  have "validateTree inp = Inr out \<longleftrightarrow>
      si_base inp \<noteq> zero_time \<and> dialects_ok (si_mode inp) (si_dialects inp) \<and> out = normal_tree inp \<and>
      (normal_freq (si_frequency inp) = [] \<or> freq_ok (normal_freq (si_frequency inp))) \<and>
      (\<forall>g \<in> set ?gs. group_ok g) \<and>
      (\<forall>po \<in> set ?ps. pos_ok ?A (map sg_id ?gs) po) \<and> distinct (map po_pos ?ps) \<and>
      (\<exists>t. claim_all (tree_ids (normal_tree inp)) [] = Some t)"
  proof (cases "dialects_ok (si_mode inp) (si_dialects inp)")
    case True
    then have "allowedDialects (si_mode inp) (si_dialects inp) = Inr ?A" by (simp add: allowedDialects_iff)
    with True show ?thesis
      unfolding c validateTree_def case_sum_Inr_iff
      by (auto simp: sbind_Inr check_frequency_iff each_groups each_pos normal_tree_def
          simp del: map_map list.map_comp)
  next
    case False
    then obtain e where "allowedDialects (si_mode inp) (si_dialects inp) = Inl e"
      using allowedDialects_iff [of "si_mode inp" "si_dialects inp"] by (metis sumE)
    with False show ?thesis by (auto simp: validateTree_def ensure_def split: sum.splits if_splits)
  qed
  also have "(\<exists>t. claim_all (tree_ids (normal_tree inp)) [] = Some t) \<longleftrightarrow>
      distinct (tree_ids inp) \<and> uuid_Nil \<notin> set (tree_ids inp) \<and> length (tree_ids inp) \<le> maxTreeNodes"
    by (auto simp: claims_Some)
  finally have V: "validateTree inp = Inr out \<longleftrightarrow>
      si_base inp \<noteq> zero_time \<and> dialects_ok (si_mode inp) (si_dialects inp) \<and> out = normal_tree inp \<and>
      (normal_freq (si_frequency inp) = [] \<or> freq_ok (normal_freq (si_frequency inp))) \<and>
      (\<forall>g \<in> set ?gs. group_ok g) \<and>
      (\<forall>po \<in> set ?ps. pos_ok ?A (map sg_id ?gs) po) \<and> distinct (map po_pos ?ps) \<and>
      distinct (tree_ids inp) \<and> uuid_Nil \<notin> set (tree_ids inp) \<and> length (tree_ids inp) \<le> maxTreeNodes" .
  have T: "tree_ok (normal_tree inp) \<longleftrightarrow> si_base inp \<noteq> zero_time \<and>
      ((normal_freq (si_frequency inp) = [] \<or> freq_ok (normal_freq (si_frequency inp))) \<and>
       dialects_ok (si_mode inp) (si_dialects inp) \<and> (\<forall>g \<in> set ?gs. group_ok g) \<and>
       distinct (map po_pos ?ps) \<and> (\<forall>po \<in> set ?ps. pos_ok ?A (map sg_id ?gs) po)) \<and>
      distinct (tree_ids inp) \<and> uuid_Nil \<notin> set (tree_ids inp) \<and> length (tree_ids inp) \<le> maxTreeNodes"
    unfolding tree_ok_def tree_ids_normal entry_ok_def normal_tree_sel ..
  show ?thesis unfolding V using T by blast
qed

subsection \<open>What publication asks for\<close>

definition form_complete :: "word_form \<Rightarrow> bool" where
  "form_complete f \<longleftrightarrow> fm_spelling f \<noteq> [] \<and> fm_prons f \<noteq> [] \<and>
     (\<forall>pr \<in> set (fm_prons f). pr_dict pr \<noteq> [] \<and> pr_actual pr \<noteq> [])"

definition structure_complete :: "string list \<Rightarrow> grammar_structure \<Rightarrow> bool" where
  "structure_complete allowed g \<longleftrightarrow>
     (\<forall>d \<in> set allowed. \<exists>v. by_dialect g d = Some v \<and> \<not> rt_empty (gv_content v))"

text \<open>Everything V7 to V9 asks of a sense; V10 is about its links.\<close>

definition sense_complete :: "word_sense \<Rightarrow> bool" where
  "sense_complete sn \<longleftrightarrow> sn_sub_pos sn \<noteq> [] \<and> sn_frequency sn \<noteq> [] \<and> sn_definitions sn \<noteq> [] \<and>
     (\<forall>d \<in> set (sn_definitions sn). \<not> rt_empty (df_text d))"

definition links_complete :: "word_sense \<Rightarrow> bool" where
  "links_complete sn \<longleftrightarrow> (\<forall>r \<in> set (sn_relations sn). rl_word r \<noteq> None \<longrightarrow> rl_sense r \<noteq> None)"

definition pos_complete :: "string list \<Rightarrow> word_pos \<Rightarrow> bool" where
  "pos_complete allowed po \<longleftrightarrow> (\<forall>d \<in> set allowed. base_count po d = 1) \<and> po_structures po \<noteq> [] \<and>
     po_senses po \<noteq> [] \<and> (\<forall>f \<in> set (po_forms po). form_complete f) \<and>
     (\<forall>g \<in> set (po_structures po). structure_complete allowed g) \<and>
     (\<forall>sn \<in> set (po_senses po). sense_complete sn)"

definition content_complete :: "string \<Rightarrow> string \<Rightarrow> string list \<Rightarrow> word_pos list \<Rightarrow> bool" where
  "content_complete frequency mode ds pos \<longleftrightarrow> frequency \<noteq> [] \<and> dialects_ok mode ds \<and> pos \<noteq> [] \<and>
     (\<forall>po \<in> set pos. pos_complete (enabled_dialects mode ds) po)"

definition all_links :: "word_pos list \<Rightarrow> bool" where
  "all_links pos \<longleftrightarrow> (\<forall>po \<in> set pos. \<forall>sn \<in> set (po_senses po). links_complete sn)"

lemma complain_Nil [simp]: "complain b v = [] \<longleftrightarrow> \<not> b"
  by (simp add: complain_def)

lemma ball_enumerate: "(\<forall>p \<in> set (enumerate n xs). P (snd p)) \<longleftrightarrow> (\<forall>x \<in> set xs. P x)"
proof -
  have "set xs = snd ` set (enumerate n xs)"
    by (metis map_snd_enumerate list.set_map)
  then show ?thesis by auto
qed

lemma concat_enumerate_Nil:
  "(\<And>i x. x \<in> set xs \<Longrightarrow> f i x = [] \<longleftrightarrow> P x) \<Longrightarrow>
    concat (map (\<lambda>(i, x). f i x) (enumerate n xs)) = [] \<longleftrightarrow> (\<forall>x \<in> set xs. P x)"
proof (induction xs arbitrary: n)
  case (Cons x xs)
  then show ?case by (auto simp: enumerate_simps)
qed simp

lemma form_violations_Nil: "form_violations p i f = [] \<longleftrightarrow> form_complete f"
proof -
  have "concat (map (\<lambda>(pi, pr). complain (pr_dict pr = []) (NeedDictPhonetic p i pi) @
       complain (pr_actual pr = []) (NeedActualPron p i pi)) (enumerate 1 (fm_prons f))) = [] \<longleftrightarrow>
     (\<forall>pr \<in> set (fm_prons f). pr_dict pr \<noteq> [] \<and> pr_actual pr \<noteq> [])"
    by (rule concat_enumerate_Nil) simp
  then show ?thesis unfolding form_violations_def form_complete_def append_is_Nil_conv complain_Nil by blast
qed

lemma structure_violations_Nil: "structure_violations allowed p i g = [] \<longleftrightarrow> structure_complete allowed g"
  by (auto simp: structure_violations_def structure_complete_def split: option.splits)

lemma sense_violations_Nil: "sense_violations p i sn = [] \<longleftrightarrow> sense_complete sn \<and> links_complete sn"
proof -
  have "concat (map (\<lambda>(di, d). complain (rt_empty (df_text d)) (EmptyDefinition p i di))
       (enumerate 1 (sn_definitions sn))) = [] \<longleftrightarrow> (\<forall>d \<in> set (sn_definitions sn). \<not> rt_empty (df_text d))"
    by (rule concat_enumerate_Nil) simp
  moreover have "concat (map (\<lambda>(ri, r). complain (rl_word r \<noteq> None \<and> rl_sense r = None) (NeedTargetSense p i ri))
       (enumerate 1 (sn_relations sn))) = [] \<longleftrightarrow> links_complete sn"
    unfolding links_complete_def by (rule concat_enumerate_Nil) auto
  ultimately show ?thesis
    unfolding sense_violations_def sense_complete_def append_is_Nil_conv complain_Nil by blast
qed

lemma pos_violations_Nil:
  "pos_violations allowed po = [] \<longleftrightarrow> pos_complete allowed po \<and> (\<forall>sn \<in> set (po_senses po). links_complete sn)"
proof -
  let ?p = "po_pos po"
  have "concat (map (\<lambda>(fi, f). form_violations ?p fi f) (enumerate 1 (po_forms po))) = [] \<longleftrightarrow>
      (\<forall>f \<in> set (po_forms po). form_complete f)"
    by (rule concat_enumerate_Nil) (rule form_violations_Nil)
  moreover have "concat (map (\<lambda>(gi, g). structure_violations allowed ?p gi g) (enumerate 1 (po_structures po))) = [] \<longleftrightarrow>
      (\<forall>g \<in> set (po_structures po). structure_complete allowed g)"
    by (rule concat_enumerate_Nil) (rule structure_violations_Nil)
  moreover have "concat (map (\<lambda>(si, sn). sense_violations ?p si sn) (enumerate 1 (po_senses po))) = [] \<longleftrightarrow>
      (\<forall>sn \<in> set (po_senses po). sense_complete sn \<and> links_complete sn)"
    by (rule concat_enumerate_Nil) (rule sense_violations_Nil)
  moreover have "concat (map (\<lambda>d. complain (base_count po d \<noteq> 1) (NeedBaseForm ?p d (base_count po d))) allowed) = [] \<longleftrightarrow>
      (\<forall>d \<in> set allowed. base_count po d = 1)"
    by auto
  ultimately show ?thesis
    unfolding pos_violations_def Let_def pos_complete_def append_is_Nil_conv complain_Nil by blast
qed

lemma publishViolations_Nil:
  "publishViolations frequency mode ds pos = [] \<longleftrightarrow>
     content_complete frequency mode ds pos \<and> all_links pos"
proof (cases "allowedDialects mode ds")
  case (Inl e)
  then have "\<not> dialects_ok mode ds" using allowedDialects_iff [of mode ds] by auto
  with Inl show ?thesis by (simp add: publishViolations_def content_complete_def)
next
  case (Inr A)
  then have "dialects_ok mode ds" "A = enabled_dialects mode ds" by (simp_all add: allowedDialects_iff)
  with Inr show ?thesis
    by (auto simp: publishViolations_def content_complete_def all_links_def pos_violations_Nil)
qed

end
