(* ===== verification/WordDb.thy ===== *)
theory WordDb
  imports WordTree
begin

text \<open>
  The tables of the wordlist (migration \<open>000018\<close>): an entry's root in \<open>words\<close> and its tree in
  ten child tables. A row of a child table has its primary key, the key of its parent (the
  foreign key with \<open>ON DELETE CASCADE\<close>), its \<open>sort_order\<close> and the other columns. Statements
  check the constraints as the server does, and a delete runs the referential actions. The two
  deferred uniqueness constraints are checked at the commit.
\<close>

subsection \<open>Rows\<close>

record 'a row =
  row_id :: uuid
  row_parent :: uuid
  row_order :: nat
  row_data :: 'a

record word_row =
  ww_id :: uuid
  ww_kind :: string
  ww_headword :: string
  ww_frequency :: "nat option"
  ww_mode :: string
  ww_dialects :: "string list"
  ww_status :: string
  ww_created_by :: uuid
  ww_created_at :: time
  ww_updated_at :: time

record form_cols =
  fc_dialect :: string
  fc_type :: string
  fc_spelling :: string

record pron_cols =
  pc_dict :: string
  pc_actual :: string
  pc_style :: string
  pc_url :: "string option"
  pc_source :: "string option"

record variant_cols =
  vc_dialect :: string
  vc_content :: rich_text
  vc_url :: "string option"
  vc_source :: "string option"

record sense_cols =
  sc_sub_pos :: string
  sc_level :: string
  sc_group :: "uuid option"
  sc_frequency :: "nat option"
  sc_context :: bool

record def_cols =
  dc_level :: string
  dc_type :: string
  dc_text :: rich_text
  dc_struct :: "uuid option"
  dc_url :: "string option"
  dc_source :: "string option"

record sent_cols =
  tc_example :: "uuid option"
  tc_text :: "rich_text option"
  tc_url :: "string option"
  tc_source :: "string option"

record rel_cols =
  rc_relation :: string
  rc_word :: "uuid option"
  rc_sense :: "uuid option"
  rc_headword :: string
  rc_gloss :: string
  rc_score :: int

text \<open>Of the back-office accounts, their id and display name.\<close>

record word_db =
  w_admins :: "(uuid \<times> string) list"
  w_words :: "word_row list"
  w_groups :: "string row list"
  w_pos :: "string row list"
  w_forms :: "form_cols row list"
  w_prons :: "pron_cols row list"
  w_structs :: "unit row list"
  w_variants :: "variant_cols row list"
  w_senses :: "sense_cols row list"
  w_defs :: "def_cols row list"
  w_sents :: "sent_cols row list"
  w_rels :: "rel_cols row list"

definition ids_of :: "'a row list \<Rightarrow> uuid set" where
  "ids_of rows = set (map row_id rows)"

abbreviation word_ids :: "word_db \<Rightarrow> uuid set" where
  "word_ids d \<equiv> set (map ww_id (w_words d))"

subsection \<open>Child tables as data\<close>

text \<open>
  What a statement on a child table needs: its name, its rows, the \<open>CHECK\<close> constraints of a
  row, the keys its parent column may hold, and its other references.
\<close>

record 'a table =
  tb_name :: string
  tb_get :: "word_db \<Rightarrow> 'a row list"
  tb_put :: "'a row list \<Rightarrow> word_db \<Rightarrow> word_db"
  tb_check :: "'a \<Rightarrow> bool"
  tb_parents :: "word_db \<Rightarrow> uuid set"
  tb_refs :: "word_db \<Rightarrow> 'a \<Rightarrow> bool"

definition dialect_check :: "string \<Rightarrow> bool" where
  "dialect_check d \<longleftrightarrow> d \<in> {DialectUK, DialectUS, DialectCommon}"

definition source_check :: "string option \<Rightarrow> bool" where
  "source_check s \<longleftrightarrow> set_option s \<subseteq> {''tts'', ''upload''}"

definition group_tb :: "string table" where
  "group_tb = \<lparr>tb_name = ''word_sense_groups'', tb_get = w_groups, tb_put = (\<lambda>xs d. d\<lparr>w_groups := xs\<rparr>),
     tb_check = (\<lambda>_. True), tb_parents = word_ids, tb_refs = (\<lambda>_ _. True)\<rparr>"

definition pos_tb :: "string table" where
  "pos_tb = \<lparr>tb_name = ''word_pos'', tb_get = w_pos, tb_put = (\<lambda>xs d. d\<lparr>w_pos := xs\<rparr>),
     tb_check = (\<lambda>_. True), tb_parents = word_ids, tb_refs = (\<lambda>_ _. True)\<rparr>"

definition form_tb :: "form_cols table" where
  "form_tb = \<lparr>tb_name = ''word_forms'', tb_get = w_forms, tb_put = (\<lambda>xs d. d\<lparr>w_forms := xs\<rparr>),
     tb_check = (\<lambda>c. dialect_check (fc_dialect c)), tb_parents = (\<lambda>d. ids_of (w_pos d)),
     tb_refs = (\<lambda>_ _. True)\<rparr>"

definition pron_tb :: "pron_cols table" where
  "pron_tb = \<lparr>tb_name = ''word_form_pronunciations'', tb_get = w_prons,
     tb_put = (\<lambda>xs d. d\<lparr>w_prons := xs\<rparr>),
     tb_check = (\<lambda>c. style_valid (pc_style c) \<and> source_check (pc_source c)),
     tb_parents = (\<lambda>d. ids_of (w_forms d)), tb_refs = (\<lambda>_ _. True)\<rparr>"

definition struct_tb :: "unit table" where
  "struct_tb = \<lparr>tb_name = ''word_grammar_structures'', tb_get = w_structs,
     tb_put = (\<lambda>xs d. d\<lparr>w_structs := xs\<rparr>), tb_check = (\<lambda>_. True),
     tb_parents = (\<lambda>d. ids_of (w_pos d)), tb_refs = (\<lambda>_ _. True)\<rparr>"

definition variant_tb :: "variant_cols table" where
  "variant_tb = \<lparr>tb_name = ''word_grammar_structure_variants'', tb_get = w_variants,
     tb_put = (\<lambda>xs d. d\<lparr>w_variants := xs\<rparr>),
     tb_check = (\<lambda>c. dialect_check (vc_dialect c) \<and> source_check (vc_source c)),
     tb_parents = (\<lambda>d. ids_of (w_structs d)), tb_refs = (\<lambda>_ _. True)\<rparr>"

definition sense_tb :: "sense_cols table" where
  "sense_tb = \<lparr>tb_name = ''word_senses'', tb_get = w_senses, tb_put = (\<lambda>xs d. d\<lparr>w_senses := xs\<rparr>),
     tb_check = (\<lambda>c. word_level_valid (sc_level c)), tb_parents = (\<lambda>d. ids_of (w_pos d)),
     tb_refs = (\<lambda>d c. set_option (sc_group c) \<subseteq> ids_of (w_groups d))\<rparr>"

definition def_tb :: "def_cols table" where
  "def_tb = \<lparr>tb_name = ''word_sense_definitions'', tb_get = w_defs, tb_put = (\<lambda>xs d. d\<lparr>w_defs := xs\<rparr>),
     tb_check = (\<lambda>c. word_level_valid (dc_level c) \<and> def_type_valid (dc_type c) \<and> source_check (dc_source c)),
     tb_parents = (\<lambda>d. ids_of (w_senses d)),
     tb_refs = (\<lambda>d c. set_option (dc_struct c) \<subseteq> ids_of (w_structs d))\<rparr>"

definition sent_tb :: "sent_cols table" where
  "sent_tb = \<lparr>tb_name = ''word_sense_sentences'', tb_get = w_sents, tb_put = (\<lambda>xs d. d\<lparr>w_sents := xs\<rparr>),
     tb_check = (\<lambda>c. source_check (tc_source c)), tb_parents = (\<lambda>d. ids_of (w_senses d)),
     tb_refs = (\<lambda>_ _. True)\<rparr>"

definition rel_tb :: "rel_cols table" where
  "rel_tb = \<lparr>tb_name = ''word_sense_relations'', tb_get = w_rels, tb_put = (\<lambda>xs d. d\<lparr>w_rels := xs\<rparr>),
     tb_check = (\<lambda>c. relation_valid (rc_relation c) \<and> 0 \<le> rc_score c \<and> rc_score c \<le> 100),
     tb_parents = (\<lambda>d. ids_of (w_senses d)),
     tb_refs = (\<lambda>d c. set_option (rc_word c) \<subseteq> word_ids d \<and> set_option (rc_sense c) \<subseteq> ids_of (w_senses d))\<rparr>"

lemmas table_defs = group_tb_def pos_tb_def form_tb_def pron_tb_def struct_tb_def variant_tb_def
  sense_tb_def def_tb_def sent_tb_def rel_tb_def

subsection \<open>Statements on a child table\<close>

definition row_error :: "'a table \<Rightarrow> 'a row \<Rightarrow> word_db \<Rightarrow> sqlerr option" where
  "row_error tb r d =
     (if row_parent r \<notin> tb_parents tb d \<or> \<not> tb_refs tb d (row_data r)
      then Some (ForeignKeyViolation (tb_name tb)) else None)"

definition sql_insert :: "'a table \<Rightarrow> 'a row \<Rightarrow> word_db \<Rightarrow> sqlerr + nat \<times> word_db" where
  "sql_insert tb r d =
     (if \<not> tb_check tb (row_data r) then Inl (CheckViolation (tb_name tb))
      else if row_id r \<in> ids_of (tb_get tb d) then Inl (UniqueViolation (tb_name tb @ ''_pkey''))
      else case row_error tb r d of
        Some e \<Rightarrow> Inl e
      | None \<Rightarrow> Inr (1, tb_put tb (tb_get tb d @ [r]) d))"

definition sql_update :: "'a table \<Rightarrow> ('a row \<Rightarrow> 'a row) \<Rightarrow> uuid \<Rightarrow> word_db \<Rightarrow> sqlerr + nat \<times> word_db" where
  "sql_update tb f i d =
     (case find (\<lambda>r. row_id r = i) (tb_get tb d) of
        None \<Rightarrow> Inr (0, d)
      | Some r \<Rightarrow>
          if \<not> tb_check tb (row_data (f r)) then Inl (CheckViolation (tb_name tb))
          else case row_error tb (f r) d of
            Some e \<Rightarrow> Inl e
          | None \<Rightarrow> Inr (1, tb_put tb (map (\<lambda>o'. if row_id o' = i then f o' else o') (tb_get tb d)) d))"

subsection \<open>Deletes and their referential actions\<close>

datatype tbl = T_groups | T_pos | T_forms | T_prons | T_structs | T_variants | T_senses | T_defs
  | T_sents | T_rels

definition without :: "uuid list \<Rightarrow> 'a row list \<Rightarrow> 'a row list" where
  "without is rows = filter (\<lambda>r. row_id r \<notin> set is) rows"

text \<open>The keys of the rows whose parent is one of \<open>ps\<close>, and \<open>ON DELETE CASCADE\<close>.\<close>

definition under :: "uuid list \<Rightarrow> 'a row list \<Rightarrow> uuid list" where
  "under ps rows = map row_id (filter (\<lambda>r. row_parent r \<in> set ps) rows)"

definition cascade :: "uuid list \<Rightarrow> 'a row list \<Rightarrow> 'a row list" where
  "cascade is rows = filter (\<lambda>r. row_parent r \<notin> set is) rows"

text \<open>\<open>ON DELETE SET NULL\<close>.\<close>

definition forget :: "uuid set \<Rightarrow> uuid option \<Rightarrow> uuid option" where
  "forget S x = (case x of None \<Rightarrow> None | Some i \<Rightarrow> if i \<in> S then None else Some i)"

definition on_data :: "('a \<Rightarrow> 'a) \<Rightarrow> 'a row \<Rightarrow> 'a row" where
  "on_data f r = r\<lparr>row_data := f (row_data r)\<rparr>"

definition unlink_sense :: "uuid set \<Rightarrow> rel_cols \<Rightarrow> rel_cols" where
  "unlink_sense S c = c\<lparr>rc_sense := forget S (rc_sense c)\<rparr>"

definition unlink_word :: "uuid set \<Rightarrow> rel_cols \<Rightarrow> rel_cols" where
  "unlink_word S c = c\<lparr>rc_word := forget S (rc_word c)\<rparr>"

definition unlink_struct :: "uuid set \<Rightarrow> def_cols \<Rightarrow> def_cols" where
  "unlink_struct S c = c\<lparr>dc_struct := forget S (dc_struct c)\<rparr>"

definition unlink_group :: "uuid set \<Rightarrow> sense_cols \<Rightarrow> sense_cols" where
  "unlink_group S c = c\<lparr>sc_group := forget S (sc_group c)\<rparr>"

definition del_senses :: "uuid list \<Rightarrow> word_db \<Rightarrow> word_db" where
  "del_senses is d = d\<lparr>w_senses := without is (w_senses d), w_defs := cascade is (w_defs d),
     w_sents := cascade is (w_sents d),
     w_rels := map (on_data (unlink_sense (set is))) (cascade is (w_rels d))\<rparr>"

definition del_structs :: "uuid list \<Rightarrow> word_db \<Rightarrow> word_db" where
  "del_structs is d = d\<lparr>w_structs := without is (w_structs d), w_variants := cascade is (w_variants d),
     w_defs := map (on_data (unlink_struct (set is))) (w_defs d)\<rparr>"

definition del_forms :: "uuid list \<Rightarrow> word_db \<Rightarrow> word_db" where
  "del_forms is d = d\<lparr>w_forms := without is (w_forms d), w_prons := cascade is (w_prons d)\<rparr>"

definition del_pos :: "uuid list \<Rightarrow> word_db \<Rightarrow> word_db" where
  "del_pos is d =
     del_senses (under is (w_senses d))
       (del_structs (under is (w_structs d))
         (del_forms (under is (w_forms d)) (d\<lparr>w_pos := without is (w_pos d)\<rparr>)))"

definition del_groups :: "uuid list \<Rightarrow> word_db \<Rightarrow> word_db" where
  "del_groups is d = d\<lparr>w_groups := without is (w_groups d),
     w_senses := map (on_data (unlink_group (set is))) (w_senses d)\<rparr>"

fun delete_rows :: "tbl \<Rightarrow> uuid list \<Rightarrow> word_db \<Rightarrow> word_db" where
  "delete_rows T_groups is d = del_groups is d"
| "delete_rows T_pos is d = del_pos is d"
| "delete_rows T_forms is d = del_forms is d"
| "delete_rows T_prons is d = d\<lparr>w_prons := without is (w_prons d)\<rparr>"
| "delete_rows T_structs is d = del_structs is d"
| "delete_rows T_variants is d = d\<lparr>w_variants := without is (w_variants d)\<rparr>"
| "delete_rows T_senses is d = del_senses is d"
| "delete_rows T_defs is d = d\<lparr>w_defs := without is (w_defs d)\<rparr>"
| "delete_rows T_sents is d = d\<lparr>w_sents := without is (w_sents d)\<rparr>"
| "delete_rows T_rels is d = d\<lparr>w_rels := without is (w_rels d)\<rparr>"

definition delete_words :: "uuid list \<Rightarrow> word_db \<Rightarrow> word_db" where
  "delete_words is d =
     (let d1 = del_groups (under is (w_groups d)) (del_pos (under is (w_pos d)) d) in
      d1\<lparr>w_words := filter (\<lambda>r. ww_id r \<notin> set is) (w_words d1),
         w_rels := map (on_data (unlink_word (set is))) (w_rels d1)\<rparr>)"

subsection \<open>The rows under one word\<close>

text \<open>\<open>treeScopeQueries\<close>.\<close>

fun scope :: "tbl \<Rightarrow> uuid \<Rightarrow> word_db \<Rightarrow> uuid list" where
  "scope T_groups i d = under [i] (w_groups d)"
| "scope T_pos i d = under [i] (w_pos d)"
| "scope T_forms i d = under (under [i] (w_pos d)) (w_forms d)"
| "scope T_prons i d = under (under (under [i] (w_pos d)) (w_forms d)) (w_prons d)"
| "scope T_structs i d = under (under [i] (w_pos d)) (w_structs d)"
| "scope T_variants i d = under (under (under [i] (w_pos d)) (w_structs d)) (w_variants d)"
| "scope T_senses i d = under (under [i] (w_pos d)) (w_senses d)"
| "scope T_defs i d = under (under (under [i] (w_pos d)) (w_senses d)) (w_defs d)"
| "scope T_sents i d = under (under (under [i] (w_pos d)) (w_senses d)) (w_sents d)"
| "scope T_rels i d = under (under (under [i] (w_pos d)) (w_senses d)) (w_rels d)"

subsection \<open>Integrity\<close>

definition table_ok :: "'a table \<Rightarrow> word_db \<Rightarrow> bool" where
  "table_ok tb d \<longleftrightarrow> distinct (map row_id (tb_get tb d)) \<and>
     (\<forall>r \<in> set (tb_get tb d). row_parent r \<in> tb_parents tb d \<and> tb_refs tb d (row_data r) \<and> tb_check tb (row_data r))"

definition db_ok :: "word_db \<Rightarrow> bool" where
  "db_ok d \<longleftrightarrow> distinct (map ww_id (w_words d)) \<and> table_ok group_tb d \<and> table_ok pos_tb d \<and>
     table_ok form_tb d \<and> table_ok pron_tb d \<and> table_ok struct_tb d \<and> table_ok variant_tb d \<and>
     table_ok sense_tb d \<and> table_ok def_tb d \<and> table_ok sent_tb d \<and> table_ok rel_tb d"

text \<open>Primary keys alone.\<close>

definition keys_ok :: "word_db \<Rightarrow> bool" where
  "keys_ok d \<longleftrightarrow> distinct (map ww_id (w_words d)) \<and> distinct (map row_id (w_groups d)) \<and>
     distinct (map row_id (w_pos d)) \<and> distinct (map row_id (w_forms d)) \<and> distinct (map row_id (w_prons d)) \<and>
     distinct (map row_id (w_structs d)) \<and> distinct (map row_id (w_variants d)) \<and>
     distinct (map row_id (w_senses d)) \<and> distinct (map row_id (w_defs d)) \<and>
     distinct (map row_id (w_sents d)) \<and> distinct (map row_id (w_rels d))"

lemma db_ok_keys: "db_ok d \<Longrightarrow> keys_ok d"
  by (simp add: db_ok_def keys_ok_def table_ok_def table_defs)

subsection \<open>Deleting as pruning\<close>

text \<open>The tables with the rows in \<open>D\<close> gone and the references to them null.\<close>

definition alive :: "uuid set \<Rightarrow> 'a row list \<Rightarrow> 'a row list" where
  "alive S rows = filter (\<lambda>r. row_id r \<notin> S) rows"

definition prune :: "(tbl \<Rightarrow> uuid set) \<Rightarrow> word_db \<Rightarrow> word_db" where
  "prune D d = d\<lparr>
     w_groups := alive (D T_groups) (w_groups d), w_pos := alive (D T_pos) (w_pos d),
     w_forms := alive (D T_forms) (w_forms d), w_prons := alive (D T_prons) (w_prons d),
     w_structs := alive (D T_structs) (w_structs d), w_variants := alive (D T_variants) (w_variants d),
     w_senses := map (on_data (unlink_group (D T_groups))) (alive (D T_senses) (w_senses d)),
     w_defs := map (on_data (unlink_struct (D T_structs))) (alive (D T_defs) (w_defs d)),
     w_sents := alive (D T_sents) (w_sents d),
     w_rels := map (on_data (unlink_sense (D T_senses))) (alive (D T_rels) (w_rels d))\<rparr>"

lemma on_data_sel [simp]:
  "row_id (on_data f r) = row_id r" "row_parent (on_data f r) = row_parent r"
  "row_order (on_data f r) = row_order r" "row_data (on_data f r) = f (row_data r)"
  by (simp_all add: on_data_def)

lemma on_data_comp: "on_data f (on_data g r) = on_data (\<lambda>c. f (g c)) r"
  by (simp add: on_data_def)

lemma on_data_id: "on_data (\<lambda>c. c) r = r"
  by (simp add: on_data_def)

lemma forget_forget: "forget S (forget T x) = forget (T \<union> S) x"
  by (auto simp: forget_def split: option.splits)

lemma forget_empty [simp]: "forget {} x = x"
  by (simp add: forget_def split: option.splits)

lemma unlink_comp:
  "unlink_sense S (unlink_sense T r) = unlink_sense (T \<union> S) r"
  "unlink_word S (unlink_word T r) = unlink_word (T \<union> S) r"
  "unlink_struct S (unlink_struct T c) = unlink_struct (T \<union> S) c"
  "unlink_group S (unlink_group T g) = unlink_group (T \<union> S) g"
  by (simp_all add: unlink_sense_def unlink_word_def unlink_struct_def unlink_group_def forget_forget)

lemma unlink_empty [simp]:
  "unlink_sense {} = (\<lambda>r. r)" "unlink_word {} = (\<lambda>r. r)" "unlink_struct {} = (\<lambda>c. c)" "unlink_group {} = (\<lambda>g. g)"
  by (simp_all add: unlink_sense_def unlink_word_def unlink_struct_def unlink_group_def fun_eq_iff)

lemma alive_simps [simp]:
  "alive {} rows = rows" "alive S (alive T rows) = alive (T \<union> S) rows"
  "alive S (map (on_data f) rows) = map (on_data f) (alive S rows)"
  "set (alive S rows) = {r \<in> set rows. row_id r \<notin> S}"
  by (induction rows) (auto simp: alive_def)

lemma map_on_data [simp]:
  "map (on_data f) (map (on_data g) rows) = map (on_data (\<lambda>c. f (g c))) rows"
  "map (on_data (\<lambda>c. c)) rows = rows"
  "map row_id (map (on_data f) rows) = map row_id rows"
  by (simp_all add: on_data_comp on_data_id map_idI)

lemma prune_prune: "prune E (prune D d) = prune (\<lambda>T. D T \<union> E T) d"
  by (simp add: prune_def unlink_comp del: map_map)

lemma prune_empty: "prune (\<lambda>_. {}) d = d"
  by (simp add: prune_def)

lemma prune_sel [simp]:
  "w_admins (prune D d) = w_admins d" "w_words (prune D d) = w_words d"
  "w_groups (prune D d) = alive (D T_groups) (w_groups d)" "w_pos (prune D d) = alive (D T_pos) (w_pos d)"
  "w_forms (prune D d) = alive (D T_forms) (w_forms d)" "w_prons (prune D d) = alive (D T_prons) (w_prons d)"
  "w_structs (prune D d) = alive (D T_structs) (w_structs d)"
  "w_variants (prune D d) = alive (D T_variants) (w_variants d)"
  "w_senses (prune D d) = map (on_data (unlink_group (D T_groups))) (alive (D T_senses) (w_senses d))"
  "w_defs (prune D d) = map (on_data (unlink_struct (D T_structs))) (alive (D T_defs) (w_defs d))"
  "w_sents (prune D d) = alive (D T_sents) (w_sents d)"
  "w_rels (prune D d) = map (on_data (unlink_sense (D T_senses))) (alive (D T_rels) (w_rels d))"
  by (simp_all add: prune_def)

lemma distinct_alive: "distinct (map row_id rows) \<Longrightarrow> distinct (map row_id (alive S rows))"
  by (simp add: alive_def distinct_map_filter)

lemma keys_prune: "keys_ok d \<Longrightarrow> keys_ok (prune D d)"
  by (simp add: keys_ok_def distinct_alive del: map_map)

lemma without_alive: "without is rows = alive (set is) rows"
  by (simp add: without_def alive_def)

lemma set_under: "set (under ps rows) = {row_id r | r. r \<in> set rows \<and> row_parent r \<in> set ps}"
  by (auto simp: under_def)

lemma cascade_alive:
  assumes "distinct (map row_id rows)"
  shows "cascade is rows = alive (set (under is rows)) rows"
proof -
  have "row_id r \<notin> set (under is rows) \<longleftrightarrow> row_parent r \<notin> set is" if "r \<in> set rows" for r
    using assms that by (auto simp: set_under distinct_map dest: inj_onD)
  then show ?thesis unfolding cascade_def alive_def by (metis (mono_tags, lifting) filter_cong)
qed

lemma under_on_data [simp]: "under ps (map (on_data f) rows) = under ps rows"
  by (simp add: under_def filter_map o_def)

lemma under_alive: "set (under ps (alive S rows)) \<subseteq> set (under ps rows)"
  by (auto simp: set_under)

lemma under_mono: "set ps \<subseteq> set qs \<Longrightarrow> set (under ps rows) \<subseteq> set (under qs rows)"
  by (auto simp: set_under)

text \<open>What a delete of the rows \<open>S\<close> of one table takes with it.\<close>

definition below :: "uuid set \<Rightarrow> 'a row list \<Rightarrow> uuid set" where
  "below S rows = row_id ` {r \<in> set rows. row_parent r \<in> S}"

fun kill :: "tbl \<Rightarrow> uuid set \<Rightarrow> word_db \<Rightarrow> tbl \<Rightarrow> uuid set" where
  "kill T_pos S d U =
     (case U of
        T_pos \<Rightarrow> S
      | T_forms \<Rightarrow> below S (w_forms d)
      | T_prons \<Rightarrow> below (below S (w_forms d)) (w_prons d)
      | T_structs \<Rightarrow> below S (w_structs d)
      | T_variants \<Rightarrow> below (below S (w_structs d)) (w_variants d)
      | T_senses \<Rightarrow> below S (w_senses d)
      | T_defs \<Rightarrow> below (below S (w_senses d)) (w_defs d)
      | T_sents \<Rightarrow> below (below S (w_senses d)) (w_sents d)
      | T_rels \<Rightarrow> below (below S (w_senses d)) (w_rels d)
      | T_groups \<Rightarrow> {})"
| "kill T_forms S d U = (case U of T_forms \<Rightarrow> S | T_prons \<Rightarrow> below S (w_prons d) | _ \<Rightarrow> {})"
| "kill T_structs S d U = (case U of T_structs \<Rightarrow> S | T_variants \<Rightarrow> below S (w_variants d) | _ \<Rightarrow> {})"
| "kill T_senses S d U =
     (case U of T_senses \<Rightarrow> S | T_defs \<Rightarrow> below S (w_defs d) | T_sents \<Rightarrow> below S (w_sents d)
      | T_rels \<Rightarrow> below S (w_rels d) | _ \<Rightarrow> {})"
| "kill T S d U = (if U = T then S else {})"

lemma set_under_below: "set (under ps rows) = below (set ps) rows"
  by (auto simp: under_def below_def)

lemma below_on_data [simp]: "below S (map (on_data f) rows) = below S rows"
proof -
  have "{r \<in> set (map (on_data f) rows). row_parent r \<in> S} = on_data f ` {r \<in> set rows. row_parent r \<in> S}"
    by auto
  then show ?thesis by (simp add: below_def image_image)
qed

lemma del_senses_prune: "keys_ok d \<Longrightarrow> del_senses is d = prune (kill T_senses (set is) d) d"
  by (simp add: del_senses_def prune_def keys_ok_def without_alive cascade_alive set_under_below)

lemma del_structs_prune: "keys_ok d \<Longrightarrow> del_structs is d = prune (kill T_structs (set is) d) d"
  by (simp add: del_structs_def prune_def keys_ok_def without_alive cascade_alive set_under_below)

lemma del_forms_prune: "keys_ok d \<Longrightarrow> del_forms is d = prune (kill T_forms (set is) d) d"
  by (simp add: del_forms_def prune_def keys_ok_def without_alive cascade_alive set_under_below)

lemma del_groups_prune: "keys_ok d \<Longrightarrow> del_groups is d = prune (kill T_groups (set is) d) d"
  by (simp add: del_groups_def prune_def without_alive)

lemma del_pos_prune: "keys_ok d \<Longrightarrow> del_pos is d = prune (kill T_pos (set is) d) d"
proof -
  assume k: "keys_ok d"
  let ?P = "\<lambda>U. if U = T_pos then set is else {}"
  let ?F = "kill T_forms (below (set is) (w_forms d)) d"
  let ?G = "kill T_structs (below (set is) (w_structs d)) d"
  let ?S = "kill T_senses (below (set is) (w_senses d)) d"
  let ?d1 = "prune ?P d" let ?d2 = "prune ?F ?d1" let ?d3 = "prune ?G ?d2"
  note ks = k keys_prune [OF k] keys_prune [OF keys_prune [OF k]] keys_prune [OF keys_prune [OF keys_prune [OF k]]]
  have "d\<lparr>w_pos := without is (w_pos d)\<rparr> = ?d1" by (simp add: prune_def without_alive)
  moreover have "del_forms (under is (w_forms d)) ?d1 = ?d2"
    using del_forms_prune [OF ks(2)] by (simp add: set_under_below)
  moreover have "kill T_structs (below (set is) (w_structs d)) ?d2 = ?G" by (rule ext) (simp split: tbl.split)
  then have "del_structs (under is (w_structs d)) ?d2 = ?d3"
    using del_structs_prune [OF ks(3)] by (simp only: set_under_below)
  moreover have "kill T_senses (below (set is) (w_senses d)) ?d3 = ?S" by (rule ext) (simp split: tbl.split)
  then have "del_senses (under is (w_senses d)) ?d3 = prune ?S ?d3"
    using del_senses_prune [OF ks(4)] by (simp only: set_under_below)
  ultimately have "del_pos is d = prune ?S ?d3" by (simp only: del_pos_def)
  also have "\<dots> = prune (kill T_pos (set is) d) d"
    unfolding prune_prune by (rule arg_cong [where f = "\<lambda>D. prune D d"], rule ext) (simp split: tbl.split)
  finally show ?thesis .
qed

lemma delete_rows_prune: "keys_ok d \<Longrightarrow> delete_rows T is d = prune (kill T (set is) d) d"
  by (cases T) (simp_all only: delete_rows.simps del_senses_prune del_structs_prune del_forms_prune
      del_groups_prune del_pos_prune, simp_all add: prune_def without_alive)

text \<open>Nothing alive hangs under the dead.\<close>

definition closed :: "(tbl \<Rightarrow> uuid set) \<Rightarrow> word_db \<Rightarrow> bool" where
  "closed D d \<longleftrightarrow>
     below (D T_pos) (w_forms d) \<subseteq> D T_forms \<and> below (D T_forms) (w_prons d) \<subseteq> D T_prons \<and>
     below (D T_pos) (w_structs d) \<subseteq> D T_structs \<and> below (D T_structs) (w_variants d) \<subseteq> D T_variants \<and>
     below (D T_pos) (w_senses d) \<subseteq> D T_senses \<and> below (D T_senses) (w_defs d) \<subseteq> D T_defs \<and>
     below (D T_senses) (w_sents d) \<subseteq> D T_sents \<and> below (D T_senses) (w_rels d) \<subseteq> D T_rels"

lemma below_empty [simp]: "below {} rows = {}"
  by (simp add: below_def)

lemma kill_closed: "closed (kill T S d) d"
  by (cases T) (simp_all add: closed_def)

lemma kill_self: "kill T S d T = S"
  by (cases T) simp_all

lemma set_scope:
  "set (scope T_groups i d) = below {i} (w_groups d)" "set (scope T_pos i d) = below {i} (w_pos d)"
  "set (scope T_forms i d) = below (below {i} (w_pos d)) (w_forms d)"
  "set (scope T_prons i d) = below (below (below {i} (w_pos d)) (w_forms d)) (w_prons d)"
  "set (scope T_structs i d) = below (below {i} (w_pos d)) (w_structs d)"
  "set (scope T_variants i d) = below (below (below {i} (w_pos d)) (w_structs d)) (w_variants d)"
  "set (scope T_senses i d) = below (below {i} (w_pos d)) (w_senses d)"
  "set (scope T_defs i d) = below (below (below {i} (w_pos d)) (w_senses d)) (w_defs d)"
  "set (scope T_sents i d) = below (below (below {i} (w_pos d)) (w_senses d)) (w_sents d)"
  "set (scope T_rels i d) = below (below (below {i} (w_pos d)) (w_senses d)) (w_rels d)"
  by (simp_all add: set_under_below)

lemma below_mono: "S \<subseteq> S' \<Longrightarrow> below S rows \<subseteq> below S' rows"
  by (auto simp: below_def)

lemma kill_scope: "S \<subseteq> set (scope T i d) \<Longrightarrow> kill T S d U \<subseteq> set (scope U i d)"
  by (cases T) (auto simp: set_scope simp del: scope.simps split: tbl.split
      dest: below_mono subsetD [OF below_mono] subsetD [OF below_mono [OF below_mono]])

lemma below_alive: "below S (alive A rows) \<subseteq> below S rows"
  by (auto simp: below_def)

lemma below_sub: "S \<subseteq> S' \<Longrightarrow> set rows \<subseteq> set rows' \<Longrightarrow> below S rows \<subseteq> below S' rows'"
  by (auto simp: below_def)

lemma alive_subset: "set (alive A rows) \<subseteq> set rows"
  by auto

lemma scope_prune: "set (scope U i (prune D d)) \<subseteq> set (scope U i d)"
  by (cases U) (simp_all only: set_scope prune_sel below_on_data,
      (intro below_sub subset_refl alive_subset)+)

lemma ids_of_simps [simp]:
  "ids_of (map (on_data f) rows) = ids_of rows" "ids_of (alive S rows) = ids_of rows - S"
  "ids_of [] = {}" "ids_of (r # rows) = insert (row_id r) (ids_of rows)"
  "ids_of (rows @ rows') = ids_of rows \<union> ids_of rows'"
  by (auto simp: ids_of_def)

lemma ids_ofI: "r \<in> set rows \<Longrightarrow> row_id r \<in> ids_of rows"
  by (simp add: ids_of_def)

lemma set_forget: "set_option (forget S x) = set_option x - S"
  by (auto simp: forget_def split: option.splits)

text \<open>The constraints of the ten tables, row by row.\<close>

definition rows_ok :: "uuid set \<Rightarrow> ('a \<Rightarrow> bool) \<Rightarrow> 'a row list \<Rightarrow> bool" where
  "rows_ok P C rows \<longleftrightarrow> (\<forall>r \<in> set rows. row_parent r \<in> P \<and> C (row_data r))"

definition sense_check :: "uuid set \<Rightarrow> sense_cols \<Rightarrow> bool" where
  "sense_check G c \<longleftrightarrow> word_level_valid (sc_level c) \<and> set_option (sc_group c) \<subseteq> G"

definition def_check :: "uuid set \<Rightarrow> def_cols \<Rightarrow> bool" where
  "def_check G c \<longleftrightarrow> word_level_valid (dc_level c) \<and> def_type_valid (dc_type c) \<and> source_check (dc_source c) \<and>
     set_option (dc_struct c) \<subseteq> G"

definition rel_check :: "uuid set \<Rightarrow> uuid set \<Rightarrow> rel_cols \<Rightarrow> bool" where
  "rel_check W S c \<longleftrightarrow> relation_valid (rc_relation c) \<and> 0 \<le> rc_score c \<and> rc_score c \<le> 100 \<and>
     set_option (rc_word c) \<subseteq> W \<and> set_option (rc_sense c) \<subseteq> S"

lemma db_ok_rows:
  "db_ok d \<longleftrightarrow> keys_ok d \<and>
     rows_ok (word_ids d) (\<lambda>_. True) (w_groups d) \<and> rows_ok (word_ids d) (\<lambda>_. True) (w_pos d) \<and>
     rows_ok (ids_of (w_pos d)) (\<lambda>c. dialect_check (fc_dialect c)) (w_forms d) \<and>
     rows_ok (ids_of (w_forms d)) (\<lambda>c. style_valid (pc_style c) \<and> source_check (pc_source c)) (w_prons d) \<and>
     rows_ok (ids_of (w_pos d)) (\<lambda>_. True) (w_structs d) \<and>
     rows_ok (ids_of (w_structs d)) (\<lambda>c. dialect_check (vc_dialect c) \<and> source_check (vc_source c)) (w_variants d) \<and>
     rows_ok (ids_of (w_pos d)) (sense_check (ids_of (w_groups d))) (w_senses d) \<and>
     rows_ok (ids_of (w_senses d)) (def_check (ids_of (w_structs d))) (w_defs d) \<and>
     rows_ok (ids_of (w_senses d)) (\<lambda>c. source_check (tc_source c)) (w_sents d) \<and>
     rows_ok (ids_of (w_senses d)) (rel_check (word_ids d) (ids_of (w_senses d))) (w_rels d)"
  unfolding db_ok_def keys_ok_def table_ok_def table_defs rows_ok_def sense_check_def def_check_def rel_check_def
  by (simp only: table.simps simp_thms) blast

lemma db_okD:
  assumes "db_ok d"
  shows "keys_ok d"
    and "rows_ok (word_ids d) (\<lambda>_. True) (w_groups d)" and "rows_ok (word_ids d) (\<lambda>_. True) (w_pos d)"
    and "rows_ok (ids_of (w_pos d)) (\<lambda>c. dialect_check (fc_dialect c)) (w_forms d)"
    and "rows_ok (ids_of (w_forms d)) (\<lambda>c. style_valid (pc_style c) \<and> source_check (pc_source c)) (w_prons d)"
    and "rows_ok (ids_of (w_pos d)) (\<lambda>_. True) (w_structs d)"
    and "rows_ok (ids_of (w_structs d)) (\<lambda>c. dialect_check (vc_dialect c) \<and> source_check (vc_source c)) (w_variants d)"
    and "rows_ok (ids_of (w_pos d)) (sense_check (ids_of (w_groups d))) (w_senses d)"
    and "rows_ok (ids_of (w_senses d)) (def_check (ids_of (w_structs d))) (w_defs d)"
    and "rows_ok (ids_of (w_senses d)) (\<lambda>c. source_check (tc_source c)) (w_sents d)"
    and "rows_ok (ids_of (w_senses d)) (rel_check (word_ids d) (ids_of (w_senses d))) (w_rels d)"
  using assms unfolding db_ok_rows by blast+

lemma rows_ok_alive:
  assumes "rows_ok P C rows" and "below S rows \<subseteq> A" and "\<And>c. C c \<Longrightarrow> C' (f c)"
  shows "rows_ok (P - S) C' (map (on_data f) (alive A rows))"
  using assms by (auto simp: rows_ok_def below_def)

lemmas rows_ok_alive0 = rows_ok_alive [where f = "\<lambda>c. c", unfolded map_on_data]
lemmas rows_ok_alive1 = rows_ok_alive [where S = "{}", unfolded Diff_empty below_empty, OF _ empty_subsetI]
lemmas rows_ok_alive2 = rows_ok_alive0 [where S = "{}", unfolded Diff_empty below_empty, OF _ empty_subsetI]

lemma db_ok_prune:
  assumes "db_ok d" and "closed D d"
  shows "db_ok (prune D d)"
proof -
  note r = db_okD [OF assms(1)]
  have c: "below (D T_pos) (w_forms d) \<subseteq> D T_forms" "below (D T_forms) (w_prons d) \<subseteq> D T_prons"
    "below (D T_pos) (w_structs d) \<subseteq> D T_structs" "below (D T_structs) (w_variants d) \<subseteq> D T_variants"
    "below (D T_pos) (w_senses d) \<subseteq> D T_senses" "below (D T_senses) (w_defs d) \<subseteq> D T_defs"
    "below (D T_senses) (w_sents d) \<subseteq> D T_sents" "below (D T_senses) (w_rels d) \<subseteq> D T_rels"
    using assms(2) by (auto simp: closed_def)
  have "rows_ok (ids_of (w_pos d) - D T_pos) (sense_check (ids_of (w_groups d) - D T_groups))
      (map (on_data (unlink_group (D T_groups))) (alive (D T_senses) (w_senses d)))"
    by (rule rows_ok_alive [OF r(8) c(5)]) (auto simp: sense_check_def unlink_group_def set_forget)
  moreover have "rows_ok (ids_of (w_senses d) - D T_senses) (def_check (ids_of (w_structs d) - D T_structs))
      (map (on_data (unlink_struct (D T_structs))) (alive (D T_defs) (w_defs d)))"
    by (rule rows_ok_alive [OF r(9) c(6)]) (auto simp: def_check_def unlink_struct_def set_forget)
  moreover have "rows_ok (ids_of (w_senses d) - D T_senses) (rel_check (word_ids d) (ids_of (w_senses d) - D T_senses))
      (map (on_data (unlink_sense (D T_senses))) (alive (D T_rels) (w_rels d)))"
    by (rule rows_ok_alive [OF r(11) c(8)]) (auto simp: rel_check_def unlink_sense_def set_forget)
  ultimately show ?thesis
    unfolding db_ok_rows prune_sel ids_of_simps
    by (intro conjI keys_prune r(1) rows_ok_alive2 [OF r(2)] rows_ok_alive2 [OF r(3)]
        rows_ok_alive0 [OF r(4) c(1)] rows_ok_alive0 [OF r(5) c(2)] rows_ok_alive0 [OF r(6) c(3)]
        rows_ok_alive0 [OF r(7) c(4)] rows_ok_alive0 [OF r(10) c(7)]) simp_all
qed

text \<open>\<open>DELETE FROM words\<close>.\<close>

definition killed_words :: "uuid set \<Rightarrow> word_db \<Rightarrow> tbl \<Rightarrow> uuid set" where
  "killed_words S d U = kill T_pos (below S (w_pos d)) d U \<union> kill T_groups (below S (w_groups d)) d U"

lemma delete_words_prune:
  assumes "keys_ok d"
  shows "delete_words is d = (prune (killed_words (set is) d) d)
    \<lparr>w_words := filter (\<lambda>r. ww_id r \<notin> set is) (w_words d),
     w_rels := map (on_data (unlink_word (set is))) (w_rels (prune (killed_words (set is) d) d))\<rparr>"
proof -
  let ?D = "kill T_pos (set (under is (w_pos d))) d" and ?E = "kill T_groups (set (under is (w_groups d))) d"
  have "kill T_groups (set (under is (w_groups d))) (prune ?D d) = ?E" by (rule ext) simp
  then have "del_groups (under is (w_groups d)) (del_pos (under is (w_pos d)) d) = prune ?E (prune ?D d)"
    by (simp add: del_pos_prune [OF assms] del_groups_prune [OF keys_prune [OF assms]])
  also have "\<dots> = prune (killed_words (set is) d) d"
    unfolding prune_prune by (rule arg_cong [where f = "\<lambda>D. prune D d"], rule ext)
      (simp add: killed_words_def set_under_below)
  finally show ?thesis by (simp add: delete_words_def Let_def)
qed

lemma closed_killed_words: "closed (killed_words S d) d"
  by (auto simp: closed_def killed_words_def)

lemma keys_words: "keys_ok d \<Longrightarrow> keys_ok (d\<lparr>w_words := filter P (w_words d), w_rels := map (on_data f) (w_rels d)\<rparr>)"
  by (simp add: keys_ok_def distinct_map_filter del: map_map)

lemma db_ok_delete_words:
  assumes "db_ok d"
  shows "db_ok (delete_words is d)"
proof -
  let ?d1 = "prune (killed_words (set is) d) d" and ?W = "word_ids d - set is"
  have k: "keys_ok d" using assms by (rule db_ok_keys)
  have ok: "db_ok ?d1" using assms closed_killed_words by (rule db_ok_prune)
  note r = db_okD [OF ok]
  have W: "word_ids (delete_words is d) = ?W" unfolding delete_words_prune [OF k] by auto
  have "rows_ok ?W (\<lambda>_. True) (w_groups ?d1)" "rows_ok ?W (\<lambda>_. True) (w_pos ?d1)"
    using r(2,3) by (auto simp: rows_ok_def killed_words_def below_def)
  moreover have "rows_ok (ids_of (w_senses ?d1)) (rel_check ?W (ids_of (w_senses ?d1)))
      (map (on_data (unlink_word (set is))) (w_rels ?d1))"
    using r(11) by (auto simp: rows_ok_def rel_check_def unlink_word_def set_forget)
  ultimately show ?thesis
    using keys_words [OF r(1), of "unlink_word (set is)" "\<lambda>r. ww_id r \<notin> set is"] r W
    unfolding db_ok_rows W unfolding delete_words_prune [OF k] by simp
qed

subsection \<open>The contract of a child table\<close>

text \<open>
  What the statements rely on: the table holds what was put, and rows that keep the table's own
  constraints and give up no key keep the whole database in order. An insert and an update
  then do.
\<close>

locale child_table =
  fixes tb :: "'a table"
  assumes get_put: "tb_get tb (tb_put tb xs d) = xs"
    and put_ok: "db_ok d \<Longrightarrow> distinct (map row_id xs) \<Longrightarrow> ids_of (tb_get tb d) \<subseteq> ids_of xs \<Longrightarrow>
      rows_ok (tb_parents tb d) (\<lambda>c. tb_refs tb d c \<and> tb_check tb c) xs \<Longrightarrow> db_ok (tb_put tb xs d)"
    and get_ok: "db_ok d \<Longrightarrow> distinct (map row_id (tb_get tb d)) \<and>
      rows_ok (tb_parents tb d) (\<lambda>c. tb_refs tb d c \<and> tb_check tb c) (tb_get tb d)"
begin

lemma insert_Inr:
  assumes "sql_insert tb r d = Inr (n, d')"
  shows "n = 1" and "d' = tb_put tb (tb_get tb d @ [r]) d" and "row_id r \<notin> ids_of (tb_get tb d)"
    and "row_parent r \<in> tb_parents tb d" and "tb_refs tb d (row_data r)" and "tb_check tb (row_data r)"
  using assms by (auto simp: sql_insert_def row_error_def split: if_splits option.splits)

lemma insert_ok:
  assumes "sql_insert tb r d = Inr (n, d')" and "db_ok d"
  shows "db_ok d'"
  unfolding insert_Inr(2) [OF assms(1)]
  by (rule put_ok) (use get_ok [OF assms(2)] insert_Inr [OF assms(1)] assms(2) in
      \<open>auto simp: ids_of_def rows_ok_def\<close>)

lemma update_Inr:
  assumes "sql_update tb f i d = Inr (n, d')"
  obtains "n = 0" and "d' = d" and "i \<notin> ids_of (tb_get tb d)"
  | r where "n = 1" and "r \<in> set (tb_get tb d)" and "row_id r = i"
    and "find (\<lambda>r. row_id r = i) (tb_get tb d) = Some r"
    and "d' = tb_put tb (map (\<lambda>o'. if row_id o' = i then f o' else o') (tb_get tb d)) d"
    and "row_parent (f r) \<in> tb_parents tb d" and "tb_refs tb d (row_data (f r))" and "tb_check tb (row_data (f r))"
proof (cases "find (\<lambda>r. row_id r = i) (tb_get tb d)")
  case None
  then have "i \<notin> ids_of (tb_get tb d)" by (auto simp: find_None_iff ids_of_def)
  with None that(1) assms show ?thesis by (simp add: sql_update_def)
next
  case (Some r)
  then have r: "r \<in> set (tb_get tb d)" "row_id r = i" by (auto dest: find_SomeD)
  have chk: "tb_check tb (row_data (f r))"
    using assms Some by (auto simp: sql_update_def split: if_splits)
  moreover have err: "row_error tb (f r) d = None"
    using assms Some chk by (auto simp: sql_update_def split: option.splits)
  ultimately show ?thesis
    using that(2) [OF _ r Some] assms Some
    by (auto simp: sql_update_def row_error_def split: if_splits)
qed

lemma update_ok:
  assumes "sql_update tb f i d = Inr (n, d')" and "db_ok d" and "\<And>r. row_id r = i \<Longrightarrow> row_id (f r) = i"
  shows "db_ok d'"
  using assms(1)
proof (cases rule: update_Inr)
  case (2 r)
  let ?g = "\<lambda>o'. if row_id o' = i then f o' else o'"
  have ids: "map row_id (map ?g (tb_get tb d)) = map row_id (tb_get tb d)" using assms(3) by simp
  have "rows_ok (tb_parents tb d) (\<lambda>c. tb_refs tb d c \<and> tb_check tb c) (map ?g (tb_get tb d))"
    unfolding rows_ok_def
  proof
    fix r' assume "r' \<in> set (map ?g (tb_get tb d))"
    then obtain q where q: "q \<in> set (tb_get tb d)" "r' = ?g q" by auto
    show "row_parent r' \<in> tb_parents tb d \<and> tb_refs tb d (row_data r') \<and> tb_check tb (row_data r')"
    proof (cases "row_id q = i")
      case True
      with q 2 get_ok [OF assms(2)] have "q = r" by (auto simp: distinct_map dest: inj_onD)
      with True q 2 show ?thesis by simp
    next
      case False
      with q get_ok [OF assms(2)] show ?thesis by (auto simp: rows_ok_def)
    qed
  qed
  with get_ok [OF assms(2)] show ?thesis
    unfolding 2(5) by (intro put_ok assms(2)) (simp_all only: ids ids_of_def order_refl)
qed (use assms(2) in simp)

end

lemma rows_ok_mono: "rows_ok P C rows \<Longrightarrow> P \<subseteq> P' \<Longrightarrow> (\<And>c. C c \<Longrightarrow> C' c) \<Longrightarrow> rows_ok P' C' rows"
  by (auto simp: rows_ok_def)

lemma check_mono:
  "G \<subseteq> G' \<Longrightarrow> sense_check G c \<Longrightarrow> sense_check G' c" "G \<subseteq> G' \<Longrightarrow> def_check G e \<Longrightarrow> def_check G' e"
  "S \<subseteq> S' \<Longrightarrow> rel_check W S r \<Longrightarrow> rel_check W S' r"
  by (auto simp: sense_check_def def_check_def rel_check_def)

lemmas check_defs = sense_check_def def_check_def rel_check_def

interpretation groups: child_table group_tb
  by unfold_locales (auto simp: group_tb_def db_ok_rows keys_ok_def elim: rows_ok_mono check_mono)

interpretation poss: child_table pos_tb
  by unfold_locales (auto simp: pos_tb_def db_ok_rows keys_ok_def check_defs rows_ok_def)

interpretation forms: child_table form_tb
  by unfold_locales (auto simp: form_tb_def db_ok_rows keys_ok_def check_defs rows_ok_def)

interpretation prons: child_table pron_tb
  by unfold_locales (auto simp: pron_tb_def db_ok_rows keys_ok_def check_defs rows_ok_def)

interpretation structs: child_table struct_tb
  by unfold_locales (auto simp: struct_tb_def db_ok_rows keys_ok_def elim: rows_ok_mono check_mono)

interpretation variants: child_table variant_tb
  by unfold_locales (auto simp: variant_tb_def db_ok_rows keys_ok_def check_defs rows_ok_def)

interpretation senses: child_table sense_tb
  by unfold_locales (auto simp: sense_tb_def db_ok_rows keys_ok_def sense_check_def elim: rows_ok_mono check_mono(2,3))

interpretation defs: child_table def_tb
  by unfold_locales (auto simp: def_tb_def db_ok_rows keys_ok_def check_defs rows_ok_def)

interpretation sents: child_table sent_tb
  by unfold_locales (auto simp: sent_tb_def db_ok_rows keys_ok_def check_defs rows_ok_def)

interpretation rels: child_table rel_tb
  by unfold_locales (auto simp: rel_tb_def db_ok_rows keys_ok_def check_defs rows_ok_def)

end
