(* ===== verification/WordRepo.thy ===== *)
theory WordRepo
  imports WordDb SqlText
begin

text \<open>
  The wordlist repository (\<open>internal/word/repository.go\<close>): creation, status, deletion and
  counters, the tree's load as one query per table stitched in memory, and its save as a
  transaction that locks the root, compares the lock token, deletes what the body no longer
  has, and updates or inserts the rest, parents first and relations last. \<open>pg_text\<close> bundles what
  depends on the database's locale: lower-casing outside ASCII and the collation's sort key.
\<close>

record pg_text =
  pt_lower :: "string \<Rightarrow> string"
  pt_key :: "string \<Rightarrow> string"

subsection \<open>Sequencing\<close>

definition wret :: "'a \<Rightarrow> 'w \<Rightarrow> (word_err + 'a) \<times> 'w" where
  "wret a w = (Inr a, w)"

definition wfail :: "word_err \<Rightarrow> 'w \<Rightarrow> (word_err + 'a) \<times> 'w" where
  "wfail e w = (Inl e, w)"

definition wbind ::
  "('w \<Rightarrow> (word_err + 'a) \<times> 'w) \<Rightarrow> ('a \<Rightarrow> 'w \<Rightarrow> (word_err + 'b) \<times> 'w) \<Rightarrow> 'w \<Rightarrow> (word_err + 'b) \<times> 'w" where
  "wbind m k w = (case m w of (Inl e, w1) \<Rightarrow> (Inl e, w1) | (Inr a, w1) \<Rightarrow> k a w1)"

text \<open>A statement or a query whose error goes through \<open>on\<close>.\<close>

definition wstmt ::
  "(sqlerr \<Rightarrow> word_err) \<Rightarrow> (word_db \<Rightarrow> sqlerr + 'a \<times> word_db) \<Rightarrow> (word_db, 'z) pgs_scheme
    \<Rightarrow> (word_err + 'a) \<times> (word_db, 'z) pgs_scheme" where
  "wstmt on f w = (case pg_stmt f w of (Inl e, w1) \<Rightarrow> (Inl (on e), w1) | (Inr a, w1) \<Rightarrow> (Inr a, w1))"

definition wquery ::
  "(sqlerr \<Rightarrow> word_err) \<Rightarrow> (word_db \<Rightarrow> sqlerr + 'a) \<Rightarrow> (word_db, 'z) pgs_scheme
    \<Rightarrow> (word_err + 'a) \<times> (word_db, 'z) pgs_scheme" where
  "wquery on f w = (case pg_query f w of (Inl e, w1) \<Rightarrow> (Inl (on e), w1) | (Inr a, w1) \<Rightarrow> (Inr a, w1))"

definition wrapped :: "string \<Rightarrow> sqlerr \<Rightarrow> word_err" where
  "wrapped c e = Plainly (Wrapped c (PgErr e))"

definition or_not_found :: "string \<Rightarrow> sqlerr \<Rightarrow> word_err" where
  "or_not_found c e = (if e = NoRows then word_ErrNotFound else wrapped c e)"

fun wfold :: "('c \<Rightarrow> 'w \<Rightarrow> (word_err + unit) \<times> 'w) \<Rightarrow> 'c list \<Rightarrow> 'w \<Rightarrow> (word_err + unit) \<times> 'w" where
  "wfold f [] w = (Inr (), w)"
| "wfold f (c # cs) w = wbind (f c) (\<lambda>_. wfold f cs) w"

subsection \<open>The root\<close>

definition find_word :: "uuid \<Rightarrow> word_db \<Rightarrow> word_row option" where
  "find_word i d = find (\<lambda>r. ww_id r = i) (w_words d)"

definition same_headword :: "pg_text \<Rightarrow> string \<Rightarrow> string \<Rightarrow> word_row \<Rightarrow> bool" where
  "same_headword L h k r \<longleftrightarrow> ToLower (pt_lower L) (ww_headword r) = ToLower (pt_lower L) h \<and> ww_kind r = k"

definition sql_word_insert :: "pg_text \<Rightarrow> word_entry \<Rightarrow> time \<Rightarrow> word_db \<Rightarrow> sqlerr + (time \<times> time) \<times> word_db" where
  "sql_word_insert L e now d =
     (if \<not> (we_mode e = ModeDistinguish \<or> we_mode e = ModeUnified) then Inl (CheckViolation ''words_dialect_mode_check'')
      else if \<not> kind_valid (we_kind e) then Inl (CheckViolation ''words_kind_check'')
      else if \<not> (we_status e = StatusDraft \<or> we_status e = StatusPublished) then Inl (CheckViolation ''words_status_check'')
      else if we_id e \<in> word_ids d then Inl (UniqueViolation ''words_pkey'')
      else if list_ex (same_headword L (we_headword e) (we_kind e)) (w_words d)
        then Inl (UniqueViolation ''words_headword_kind_unique'')
      else if we_created_by e \<notin> set (map fst (w_admins d)) then Inl (ForeignKeyViolation ''words_created_by_fkey'')
      else Inr ((now, now), d\<lparr>w_words := w_words d @
        [\<lparr>ww_id = we_id e, ww_kind = we_kind e, ww_headword = we_headword e, ww_frequency = None,
          ww_mode = we_mode e, ww_dialects = [], ww_status = we_status e, ww_created_by = we_created_by e,
          ww_created_at = now, ww_updated_at = now\<rparr>]\<rparr>))"

fun is_unique_violation :: "sqlerr \<Rightarrow> bool" where
  "is_unique_violation (UniqueViolation c) = True"
| "is_unique_violation _ = False"

definition word_create ::
  "pg_text \<Rightarrow> word_entry \<Rightarrow> (word_db, 'z) pgs_scheme \<Rightarrow> (word_err + word_entry) \<times> (word_db, 'z) pgs_scheme" where
  "word_create L e w =
     wbind (wstmt (\<lambda>er. if is_unique_violation er then ErrHeadwordTaken else wrapped ''insert word'' er)
              (sql_word_insert L e (pg_now w)))
       (\<lambda>(c, u). wret (e\<lparr>we_created_at := c, we_updated_at := u\<rparr>)) w"

text \<open>\<open>UPDATE words ... WHERE\<close> a condition; the result is the number of rows affected.\<close>

definition sql_word_update ::
  "(word_row \<Rightarrow> bool) \<Rightarrow> (word_row \<Rightarrow> word_row) \<Rightarrow> word_db \<Rightarrow> sqlerr + nat \<times> word_db" where
  "sql_word_update P f d =
     (if list_ex (\<lambda>r. P r \<and> \<not> (ww_mode (f r) \<in> {ModeDistinguish, ModeUnified} \<and>
            ww_status (f r) \<in> {StatusDraft, StatusPublished})) (w_words d)
      then Inl (CheckViolation ''words'')
      else Inr (length (filter P (w_words d)), d\<lparr>w_words := map (\<lambda>r. if P r then f r else r) (w_words d)\<rparr>))"

definition word_setStatus ::
  "uuid \<Rightarrow> string \<Rightarrow> time \<Rightarrow> (word_db, 'z) pgs_scheme \<Rightarrow> (word_err + unit) \<times> (word_db, 'z) pgs_scheme" where
  "word_setStatus i st base w =
     wbind (wstmt (wrapped ''set status'')
              (sql_word_update (\<lambda>r. ww_id r = i \<and> ww_updated_at r = base)
                 (\<lambda>r. r\<lparr>ww_status := st, ww_updated_at := pg_now w\<rparr>)))
       (\<lambda>n. if n = 0 then
              wbind (wquery (wrapped ''set status'') (\<lambda>d. Inr (i \<in> word_ids d)))
                (\<lambda>ex. wfail (if ex then ErrStale else word_ErrNotFound))
            else wret ()) w"

definition sql_word_delete :: "uuid list \<Rightarrow> word_db \<Rightarrow> sqlerr + nat \<times> word_db" where
  "sql_word_delete is d = Inr (length (filter (\<lambda>r. ww_id r \<in> set is) (w_words d)), delete_words is d)"

definition word_delete ::
  "uuid \<Rightarrow> (word_db, 'z) pgs_scheme \<Rightarrow> (word_err + unit) \<times> (word_db, 'z) pgs_scheme" where
  "word_delete i =
     wbind (wstmt (wrapped ''delete word'') (sql_word_delete [i]))
       (\<lambda>n. if n = 0 then wfail word_ErrNotFound else wret ())"

definition word_deleteMany ::
  "uuid list \<Rightarrow> (word_db, 'z) pgs_scheme \<Rightarrow> (word_err + nat) \<times> (word_db, 'z) pgs_scheme" where
  "word_deleteMany is = wstmt (wrapped ''delete words'') (sql_word_delete is)"

record word_stats =
  sta_total :: nat
  sta_today :: nat
  sta_month :: nat

definition word_stats_query ::
  "time \<Rightarrow> time \<Rightarrow> (word_db, 'z) pgs_scheme \<Rightarrow> (word_err + word_stats) \<times> (word_db, 'z) pgs_scheme" where
  "word_stats_query day month =
     wquery (wrapped ''count words'') (\<lambda>d. Inr \<lparr>sta_total = length (w_words d),
       sta_today = length (filter (\<lambda>r. day \<le> ww_created_at r) (w_words d)),
       sta_month = length (filter (\<lambda>r. month \<le> ww_created_at r) (w_words d))\<rparr>)"

subsection \<open>\<open>GetTree\<close>\<close>

text \<open>\<open>deref\<close> and \<open>nullable\<close>; a \<open>NUMERIC\<close> column read as text.\<close>

definition deref :: "string option \<Rightarrow> string" where
  "deref s = (case s of None \<Rightarrow> [] | Some x \<Rightarrow> x)"

definition numeric_text :: "nat option \<Rightarrow> string" where
  "numeric_text n = (case n of None \<Rightarrow> [] | Some k \<Rightarrow> numeric_out k)"

text \<open>The rows whose parent is under the word, by \<open>sort_order\<close>, each with its parent's key.\<close>

definition scan_rows :: "uuid list \<Rightarrow> ('a row \<Rightarrow> 'b) \<Rightarrow> 'a row list \<Rightarrow> (uuid \<times> 'b) list" where
  "scan_rows ps scan rows =
     map (\<lambda>r. (row_parent r, scan r)) (sort_key row_order (filter (\<lambda>r. row_parent r \<in> set ps) rows))"

text \<open>Go's map from a parent to its children, in the order they were read; \<open>orEmpty\<close> of a miss.\<close>

definition grouped :: "(uuid \<times> 'b) list \<Rightarrow> uuid \<Rightarrow> 'b list" where
  "grouped xs p = map snd (filter (\<lambda>x. fst x = p) xs)"

definition scan_pron :: "pron_cols row \<Rightarrow> pronunciation" where
  "scan_pron r = (let c = row_data r in \<lparr>pr_id = row_id r, pr_dict = pc_dict c, pr_actual = pc_actual c,
     pr_style = pc_style c, pr_audio_url = deref (pc_url c), pr_audio_source = deref (pc_source c)\<rparr>)"

definition scan_form :: "(uuid \<Rightarrow> pronunciation list) \<Rightarrow> form_cols row \<Rightarrow> word_form" where
  "scan_form prons r = (let c = row_data r in \<lparr>fm_id = row_id r, fm_dialect = fc_dialect c, fm_type = fc_type c,
     fm_spelling = fc_spelling c, fm_prons = prons (row_id r)\<rparr>)"

definition scan_variant :: "variant_cols row \<Rightarrow> grammar_variant" where
  "scan_variant r = (let c = row_data r in \<lparr>gv_id = row_id r, gv_dialect = vc_dialect c,
     gv_content = rt_normalize (vc_content c), gv_audio_url = deref (vc_url c), gv_audio_source = deref (vc_source c)\<rparr>)"

definition scan_structure :: "(uuid \<Rightarrow> grammar_variant list) \<Rightarrow> unit row \<Rightarrow> grammar_structure" where
  "scan_structure vars r = \<lparr>gs_id = row_id r, gs_variants = vars (row_id r)\<rparr>"

definition scan_definition :: "def_cols row \<Rightarrow> word_definition" where
  "scan_definition r = (let c = row_data r in \<lparr>df_id = row_id r, df_level = dc_level c, df_type = dc_type c,
     df_text = rt_normalize (dc_text c), df_struct = dc_struct c, df_audio_url = deref (dc_url c),
     df_audio_source = deref (dc_source c)\<rparr>)"

definition scan_sentence :: "sent_cols row \<Rightarrow> sentence" where
  "scan_sentence r = (let c = row_data r in \<lparr>st_id = row_id r, st_example = tc_example c,
     st_text = map_option rt_normalize (tc_text c), st_audio_url = deref (tc_url c), st_audio_source = deref (tc_source c)\<rparr>)"

definition scan_relation :: "rel_cols row \<Rightarrow> word_relation" where
  "scan_relation r = (let c = row_data r in \<lparr>rl_id = row_id r, rl_relation = rc_relation c, rl_word = rc_word c,
     rl_sense = rc_sense c, rl_headword = rc_headword c, rl_gloss = rc_gloss c, rl_score = rc_score c\<rparr>)"

definition scan_sense ::
  "(uuid \<Rightarrow> word_definition list) \<Rightarrow> (uuid \<Rightarrow> sentence list) \<Rightarrow> (uuid \<Rightarrow> word_relation list)
    \<Rightarrow> sense_cols row \<Rightarrow> word_sense" where
  "scan_sense defs sents rels r = (let c = row_data r; i = row_id r in
     \<lparr>sn_id = i, sn_sub_pos = sc_sub_pos c, sn_level = sc_level c, sn_group = sc_group c,
      sn_frequency = numeric_text (sc_frequency c), sn_context = sc_context c, sn_definitions = defs i,
      sn_sentences = sents i, sn_relations = rels i\<rparr>)"

definition scan_pos ::
  "(uuid \<Rightarrow> word_form list) \<Rightarrow> (uuid \<Rightarrow> grammar_structure list) \<Rightarrow> (uuid \<Rightarrow> word_sense list)
    \<Rightarrow> string row \<Rightarrow> word_pos" where
  "scan_pos forms structs senses r = \<lparr>po_id = row_id r, po_pos = row_data r, po_forms = forms (row_id r),
     po_structures = structs (row_id r), po_senses = senses (row_id r)\<rparr>"

definition scan_word :: "word_row \<Rightarrow> word_entry" where
  "scan_word r = \<lparr>we_id = ww_id r, we_kind = ww_kind r, we_headword = ww_headword r,
     we_frequency = numeric_text (ww_frequency r), we_mode = ww_mode r, we_dialects = ww_dialects r,
     we_status = ww_status r, we_created_by = ww_created_by r, we_created_at = ww_created_at r,
     we_updated_at = ww_updated_at r, we_groups = [], we_pos = []\<rparr>"

definition word_getTree ::
  "uuid \<Rightarrow> (word_db, 'z) pgs_scheme \<Rightarrow> (word_err + word_entry) \<times> (word_db, 'z) pgs_scheme" where
  "word_getTree i =
     wbind (wquery (wrapped ''begin read tx'') (\<lambda>_. Inr ())) (\<lambda>_.
     wbind (wquery (or_not_found ''query word'') (\<lambda>d. case find_word i d of None \<Rightarrow> Inl NoRows | Some r \<Rightarrow> Inr (scan_word r))) (\<lambda>e.
     wbind (wquery (wrapped ''query sense groups'') (\<lambda>d. Inr (map snd
       (scan_rows [i] (\<lambda>r. \<lparr>sg_id = row_id r, sg_name = row_data r\<rparr>) (w_groups d))))) (\<lambda>groups.
     wbind (wquery (wrapped ''query pronunciations'') (\<lambda>d. Inr (scan_rows (scope T_forms i d) scan_pron (w_prons d)))) (\<lambda>prons.
     wbind (wquery (wrapped ''query forms'') (\<lambda>d. Inr (scan_rows (scope T_pos i d) (scan_form (grouped prons)) (w_forms d)))) (\<lambda>forms.
     wbind (wquery (wrapped ''query grammar variants'') (\<lambda>d. Inr (scan_rows (scope T_structs i d) scan_variant (w_variants d)))) (\<lambda>vars.
     wbind (wquery (wrapped ''query grammar structures'') (\<lambda>d. Inr (scan_rows (scope T_pos i d) (scan_structure (grouped vars)) (w_structs d)))) (\<lambda>structs.
     wbind (wquery (wrapped ''query definitions'') (\<lambda>d. Inr (scan_rows (scope T_senses i d) scan_definition (w_defs d)))) (\<lambda>defs.
     wbind (wquery (wrapped ''query sentences'') (\<lambda>d. Inr (scan_rows (scope T_senses i d) scan_sentence (w_sents d)))) (\<lambda>sents.
     wbind (wquery (wrapped ''query relations'') (\<lambda>d. Inr (scan_rows (scope T_senses i d) scan_relation (w_rels d)))) (\<lambda>rels.
     wbind (wquery (wrapped ''query senses'') (\<lambda>d. Inr (scan_rows (scope T_pos i d)
       (scan_sense (grouped defs) (grouped sents) (grouped rels)) (w_senses d)))) (\<lambda>senses.
     wbind (wquery (wrapped ''query pos'') (\<lambda>d. Inr (map snd (scan_rows [i]
       (scan_pos (grouped forms) (grouped structs) (grouped senses)) (w_pos d))))) (\<lambda>pos.
     wret (e\<lparr>we_groups := groups, we_pos := pos\<rparr>)))))))))))))"

subsection \<open>\<open>SaveTree\<close>\<close>

definition tree_tables :: "tbl list" where
  "tree_tables = [T_groups, T_pos, T_forms, T_prons, T_structs, T_variants, T_senses, T_defs, T_sents, T_rels]"

definition deleteOrder :: "tbl list" where
  "deleteOrder = [T_rels, T_sents, T_defs, T_senses, T_variants, T_structs, T_prons, T_forms, T_pos, T_groups]"

fun table_name :: "tbl \<Rightarrow> string" where
  "table_name T_groups = tb_name group_tb"
| "table_name T_pos = tb_name pos_tb"
| "table_name T_forms = tb_name form_tb"
| "table_name T_prons = tb_name pron_tb"
| "table_name T_structs = tb_name struct_tb"
| "table_name T_variants = tb_name variant_tb"
| "table_name T_senses = tb_name sense_tb"
| "table_name T_defs = tb_name def_tb"
| "table_name T_sents = tb_name sent_tb"
| "table_name T_rels = tb_name rel_tb"

text \<open>\<open>collectIncomingIDs\<close>.\<close>

fun incoming :: "save_input \<Rightarrow> tbl \<Rightarrow> uuid list" where
  "incoming inp T_groups = map sg_id (si_groups inp)"
| "incoming inp T_pos = map po_id (si_pos inp)"
| "incoming inp T_forms = concat (map (\<lambda>p. map fm_id (po_forms p)) (si_pos inp))"
| "incoming inp T_prons =
     concat (map (\<lambda>p. concat (map (\<lambda>f. map pr_id (fm_prons f)) (po_forms p))) (si_pos inp))"
| "incoming inp T_structs = concat (map (\<lambda>p. map gs_id (po_structures p)) (si_pos inp))"
| "incoming inp T_variants =
     concat (map (\<lambda>p. concat (map (\<lambda>g. map gv_id (gs_variants g)) (po_structures p))) (si_pos inp))"
| "incoming inp T_senses = concat (map (\<lambda>p. map sn_id (po_senses p)) (si_pos inp))"
| "incoming inp T_defs =
     concat (map (\<lambda>p. concat (map (\<lambda>s. map df_id (sn_definitions s)) (po_senses p))) (si_pos inp))"
| "incoming inp T_sents =
     concat (map (\<lambda>p. concat (map (\<lambda>s. map st_id (sn_sentences s)) (po_senses p))) (si_pos inp))"
| "incoming inp T_rels =
     concat (map (\<lambda>p. concat (map (\<lambda>s. map rl_id (sn_relations s)) (po_senses p))) (si_pos inp))"

definition pkey_name :: "string \<Rightarrow> bool" where
  "pkey_name c \<longleftrightarrow> has_prefix (rev ''_pkey'') (rev c)"

definition mapSaveErr :: "string \<Rightarrow> sqlerr \<Rightarrow> word_err" where
  "mapSaveErr table e =
     (case e of
        UniqueViolation c \<Rightarrow> if pkey_name c then ErrIDConflict else wrapped (''save '' @ table) e
      | ForeignKeyViolation c \<Rightarrow> if table = ''word_sense_relations'' then ErrBadTargetRef else wrapped (''save '' @ table) e
      | _ \<Rightarrow> wrapped (''save '' @ table) e)"

text \<open>The ids under the word, table by table; Go reads them in the order of a map.\<close>

fun load_scopes ::
  "uuid \<Rightarrow> tbl list \<Rightarrow> (word_db, 'z) pgs_scheme \<Rightarrow> (word_err + (tbl \<Rightarrow> uuid list)) \<times> (word_db, 'z) pgs_scheme" where
  "load_scopes i [] w = (Inr (\<lambda>_. []), w)"
| "load_scopes i (T # Ts) w =
     wbind (wquery (wrapped (''scope '' @ table_name T)) (\<lambda>d. Inr (scope T i d)))
       (\<lambda>is. wbind (load_scopes i Ts) (\<lambda>ex. wret (ex(T := is)))) w"

definition delete_gone ::
  "(tbl \<Rightarrow> uuid list) \<Rightarrow> save_input \<Rightarrow> tbl \<Rightarrow> (word_db, 'z) pgs_scheme \<Rightarrow> (word_err + unit) \<times> (word_db, 'z) pgs_scheme" where
  "delete_gone ex inp T =
     (let gone = filter (\<lambda>i. i \<notin> set (incoming inp T)) (ex T) in
      if gone = [] then wret ()
      else wstmt (wrapped (''delete from '' @ table_name T)) (\<lambda>d. Inr ((), delete_rows T gone d)))"

text \<open>
  \<open>treeUpserter.exec\<close>: a known id is updated with \<open>merge\<close> (the columns the \<open>UPDATE\<close> leaves come
  from the old row), an unknown one is inserted.
\<close>

definition upsert ::
  "uuid list \<Rightarrow> 'a table \<Rightarrow> ('a row \<Rightarrow> 'a row \<Rightarrow> 'a row) \<Rightarrow> 'a row \<Rightarrow> (word_db, 'z) pgs_scheme
    \<Rightarrow> (word_err + unit) \<times> (word_db, 'z) pgs_scheme" where
  "upsert known tb merge r =
     (if row_id r \<in> set known then
        wbind (wstmt (mapSaveErr (tb_name tb)) (sql_update tb (\<lambda>old. merge old r) (row_id r)))
          (\<lambda>n. if n = 0 then wfail (ValidationError [] (RemovedWithParent (row_id r))) else wret ())
      else wbind (wstmt (mapSaveErr (tb_name tb)) (sql_insert tb r)) (\<lambda>_. wret ()))"

text \<open>One node of the body with its parent and position, in the order the save writes them.\<close>

datatype node =
    Group uuid nat sense_group
  | Pos uuid nat word_pos
  | Form uuid nat word_form
  | Pron uuid nat pronunciation
  | Struct uuid nat grammar_structure
  | Variant uuid nat grammar_variant
  | Sense uuid nat word_sense
  | Defn uuid nat word_definition
  | Sent uuid nat sentence

abbreviation (input) numbered :: "'a list \<Rightarrow> (nat \<times> 'a) list" where
  "numbered xs \<equiv> enumerate 0 xs"

definition form_nodes :: "uuid \<Rightarrow> nat \<times> word_form \<Rightarrow> node list" where
  "form_nodes p nf = Form p (fst nf) (snd nf) #
     map (\<lambda>(i, pr). Pron (fm_id (snd nf)) i pr) (numbered (fm_prons (snd nf)))"

definition structure_nodes :: "uuid \<Rightarrow> nat \<times> grammar_structure \<Rightarrow> node list" where
  "structure_nodes p ng = Struct p (fst ng) (snd ng) #
     map (\<lambda>(i, v). Variant (gs_id (snd ng)) i v) (numbered (gs_variants (snd ng)))"

definition sense_nodes :: "uuid \<Rightarrow> nat \<times> word_sense \<Rightarrow> node list" where
  "sense_nodes p ns = Sense p (fst ns) (snd ns) #
     map (\<lambda>(i, d). Defn (sn_id (snd ns)) i d) (numbered (sn_definitions (snd ns))) @
     map (\<lambda>(i, t). Sent (sn_id (snd ns)) i t) (numbered (sn_sentences (snd ns)))"

definition pos_nodes :: "word_pos \<Rightarrow> node list" where
  "pos_nodes po = concat (map (form_nodes (po_id po)) (numbered (po_forms po))) @
     concat (map (structure_nodes (po_id po)) (numbered (po_structures po))) @
     concat (map (sense_nodes (po_id po)) (numbered (po_senses po)))"

definition tree_nodes :: "uuid \<Rightarrow> save_input \<Rightarrow> node list" where
  "tree_nodes i inp = map (\<lambda>(n, g). Group i n g) (numbered (si_groups inp)) @
     map (\<lambda>(n, p). Pos i n p) (numbered (si_pos inp)) @ concat (map pos_nodes (si_pos inp))"

definition nullable_numeric :: "string \<Rightarrow> nat option option" where
  "nullable_numeric s = (if s = [] then Some None else map_option Some (numeric_in s))"

definition mk_row :: "uuid \<Rightarrow> uuid \<Rightarrow> nat \<Rightarrow> 'a \<Rightarrow> 'a row" where
  "mk_row i p n c = \<lparr>row_id = i, row_parent = p, row_order = n, row_data = c\<rparr>"

definition form_row :: "uuid \<Rightarrow> nat \<Rightarrow> word_form \<Rightarrow> form_cols row" where
  "form_row p n f = mk_row (fm_id f) p n
     \<lparr>fc_dialect = fm_dialect f, fc_type = fm_type f, fc_spelling = fm_spelling f\<rparr>"

definition pron_row :: "uuid \<Rightarrow> nat \<Rightarrow> pronunciation \<Rightarrow> pron_cols row" where
  "pron_row p n pr = mk_row (pr_id pr) p n
     \<lparr>pc_dict = pr_dict pr, pc_actual = pr_actual pr, pc_style = pr_style pr, pc_url = None, pc_source = None\<rparr>"

definition variant_row :: "uuid \<Rightarrow> nat \<Rightarrow> grammar_variant \<Rightarrow> variant_cols row" where
  "variant_row p n v = mk_row (gv_id v) p n
     \<lparr>vc_dialect = gv_dialect v, vc_content = gv_content v, vc_url = None, vc_source = None\<rparr>"

definition sense_row :: "uuid \<Rightarrow> nat \<Rightarrow> nat option \<Rightarrow> word_sense \<Rightarrow> sense_cols row" where
  "sense_row p n fr sn = mk_row (sn_id sn) p n
     \<lparr>sc_sub_pos = sn_sub_pos sn, sc_level = sn_level sn, sc_group = sn_group sn, sc_frequency = fr,
      sc_context = sn_context sn\<rparr>"

definition def_row :: "uuid \<Rightarrow> nat \<Rightarrow> word_definition \<Rightarrow> def_cols row" where
  "def_row p n d = mk_row (df_id d) p n
     \<lparr>dc_level = df_level d, dc_type = df_type d, dc_text = df_text d, dc_struct = df_struct d,
      dc_url = None, dc_source = None\<rparr>"

definition sent_row :: "uuid \<Rightarrow> nat \<Rightarrow> sentence \<Rightarrow> sent_cols row" where
  "sent_row p n t = mk_row (st_id t) p n
     \<lparr>tc_example = st_example t, tc_text = st_text t, tc_url = None, tc_source = None\<rparr>"

text \<open>What each \<open>UPDATE\<close> keeps of the old row: the parent of the two top tables, and the audio.\<close>

definition keep_parent :: "'a row \<Rightarrow> 'a row \<Rightarrow> 'a row" where
  "keep_parent old r = r\<lparr>row_parent := row_parent old\<rparr>"

definition keep_nothing :: "'a row \<Rightarrow> 'a row \<Rightarrow> 'a row" where
  "keep_nothing old r = r"

definition keep_pron_audio :: "pron_cols row \<Rightarrow> pron_cols row \<Rightarrow> pron_cols row" where
  "keep_pron_audio old = on_data (\<lambda>c. c\<lparr>pc_url := pc_url (row_data old), pc_source := pc_source (row_data old)\<rparr>)"

definition keep_variant_audio :: "variant_cols row \<Rightarrow> variant_cols row \<Rightarrow> variant_cols row" where
  "keep_variant_audio old = on_data (\<lambda>c. c\<lparr>vc_url := vc_url (row_data old), vc_source := vc_source (row_data old)\<rparr>)"

definition keep_def_audio :: "def_cols row \<Rightarrow> def_cols row \<Rightarrow> def_cols row" where
  "keep_def_audio old = on_data (\<lambda>c. c\<lparr>dc_url := dc_url (row_data old), dc_source := dc_source (row_data old)\<rparr>)"

definition keep_sent_audio :: "sent_cols row \<Rightarrow> sent_cols row \<Rightarrow> sent_cols row" where
  "keep_sent_audio old = on_data (\<lambda>c. c\<lparr>tc_url := tc_url (row_data old), tc_source := tc_source (row_data old)\<rparr>)"

fun save_node :: "(tbl \<Rightarrow> uuid list) \<Rightarrow> node \<Rightarrow> (word_db, 'z) pgs_scheme \<Rightarrow> (word_err + unit) \<times> (word_db, 'z) pgs_scheme" where
  "save_node ex (Group p n g) = upsert (ex T_groups) group_tb keep_parent (mk_row (sg_id g) p n (sg_name g))"
| "save_node ex (Pos p n po) = upsert (ex T_pos) pos_tb keep_parent (mk_row (po_id po) p n (po_pos po))"
| "save_node ex (Form p n f) = upsert (ex T_forms) form_tb keep_nothing (form_row p n f)"
| "save_node ex (Pron p n pr) = upsert (ex T_prons) pron_tb keep_pron_audio (pron_row p n pr)"
| "save_node ex (Struct p n g) = upsert (ex T_structs) struct_tb keep_nothing (mk_row (gs_id g) p n ())"
| "save_node ex (Variant p n v) = upsert (ex T_variants) variant_tb keep_variant_audio (variant_row p n v)"
| "save_node ex (Sense p n sn) =
     (case nullable_numeric (sn_frequency sn) of
        None \<Rightarrow> wstmt (mapSaveErr (tb_name sense_tb)) (\<lambda>_. Inl (UnknownColumnValue (sn_frequency sn)))
      | Some fr \<Rightarrow> upsert (ex T_senses) sense_tb keep_nothing (sense_row p n fr sn))"
| "save_node ex (Defn p n d) = upsert (ex T_defs) def_tb keep_def_audio (def_row p n d)"
| "save_node ex (Sent p n t) = upsert (ex T_sents) sent_tb keep_sent_audio (sent_row p n t)"

subsection \<open>Relations\<close>

definition children :: "uuid \<Rightarrow> 'a row list \<Rightarrow> 'a row list" where
  "children p rows = sort_key row_order (filter (\<lambda>r. row_parent r = p) rows)"

text \<open>\<open>glossSQL\<close>: the sense's first Chinese definition, or its first.\<close>

definition gloss_of :: "uuid \<Rightarrow> word_db \<Rightarrow> string" where
  "gloss_of s d =
     (case sort_key (\<lambda>r. dc_type (row_data r) \<noteq> DefZH) (children s (w_defs d)) of
        [] \<Rightarrow> []
      | r # _ \<Rightarrow> rt_text (dc_text (row_data r)))"

definition headword_of :: "uuid \<Rightarrow> word_db \<Rightarrow> string option" where
  "headword_of i d = map_option ww_headword (find_word i d)"

definition target_err :: "sqlerr \<Rightarrow> word_err" where
  "target_err e = (if e = NoRows then ErrBadTargetRef else wrapped ''resolve relation target'' e)"

definition resolveTarget ::
  "uuid option \<Rightarrow> uuid option \<Rightarrow> (word_db, 'z) pgs_scheme \<Rightarrow> (word_err + string \<times> string) \<times> (word_db, 'z) pgs_scheme" where
  "resolveTarget wd sn =
     (case wd of
        None \<Rightarrow> wfail ErrBadTargetRef
      | Some i \<Rightarrow>
          (case sn of
             None \<Rightarrow> wquery target_err (\<lambda>d. case headword_of i d of None \<Rightarrow> Inl NoRows | Some h \<Rightarrow> Inr (h, []))
           | Some s \<Rightarrow> wquery target_err (\<lambda>d.
               if s \<in> set (scope T_senses i d) then
                 (case headword_of i d of None \<Rightarrow> Inl NoRows | Some h \<Rightarrow> Inr (h, gloss_of s d))
               else Inl NoRows)))"

definition rel_row :: "uuid \<Rightarrow> nat \<Rightarrow> word_relation \<Rightarrow> string \<Rightarrow> string \<Rightarrow> rel_cols row" where
  "rel_row p n r h g = mk_row (rl_id r) p n
     \<lparr>rc_relation = rl_relation r, rc_word = rl_word r, rc_sense = rl_sense r, rc_headword = h, rc_gloss = g,
      rc_score = rl_score r\<rparr>"

text \<open>The \<open>UPDATE\<close> of an orphan leaves the four target columns, that of a link without a sense
  leaves the gloss.\<close>

definition keep_target :: "rel_cols row \<Rightarrow> rel_cols row \<Rightarrow> rel_cols row" where
  "keep_target old = on_data (\<lambda>c. c\<lparr>rc_word := rc_word (row_data old), rc_sense := rc_sense (row_data old),
     rc_headword := rc_headword (row_data old), rc_gloss := rc_gloss (row_data old)\<rparr>)"

definition keep_gloss :: "rel_cols row \<Rightarrow> rel_cols row \<Rightarrow> rel_cols row" where
  "keep_gloss old = on_data (\<lambda>c. c\<lparr>rc_gloss := rc_gloss (row_data old)\<rparr>)"

definition save_relation ::
  "(tbl \<Rightarrow> uuid list) \<Rightarrow> uuid \<times> nat \<times> word_relation \<Rightarrow> (word_db, 'z) pgs_scheme
    \<Rightarrow> (word_err + unit) \<times> (word_db, 'z) pgs_scheme" where
  "save_relation ex x =
     (case x of (p, n, r) \<Rightarrow>
       (case rl_word r of
          None \<Rightarrow>
            if rl_id r \<notin> set (ex T_rels) then wfail (ValidationError [] (TargetRequired (rl_id r)))
            else upsert (ex T_rels) rel_tb keep_target (rel_row p n r [] [])
        | Some wd \<Rightarrow>
            (case rl_sense r of
               None \<Rightarrow> wbind (resolveTarget (Some wd) None)
                 (\<lambda>(h, g). upsert (ex T_rels) rel_tb keep_gloss (rel_row p n r h []))
             | Some s \<Rightarrow> wbind (resolveTarget (Some wd) (Some s))
                 (\<lambda>(h, g). upsert (ex T_rels) rel_tb keep_nothing (rel_row p n r h g)))))"

definition tree_relations :: "save_input \<Rightarrow> (uuid \<times> nat \<times> word_relation) list" where
  "tree_relations inp = concat (map (\<lambda>po. concat (map (\<lambda>sn.
     map (\<lambda>(n, r). (sn_id sn, n, r)) (numbered (sn_relations sn))) (po_senses po))) (si_pos inp))"

text \<open>The deferred constraints, checked by the commit.\<close>

definition deferred_violation :: "word_db \<Rightarrow> sqlerr option" where
  "deferred_violation d =
     (if \<not> distinct (map (\<lambda>r. (row_parent r, row_data r)) (w_pos d))
        then Some (UniqueViolation ''word_pos_word_id_pos_key'')
      else if \<not> distinct (map (\<lambda>r. (row_parent r, vc_dialect (row_data r))) (w_variants d))
        then Some (UniqueViolation ''word_grammar_structure_variants_structure_id_dialect_key'')
      else None)"

definition check_deferred :: "(word_db, 'z) pgs_scheme \<Rightarrow> (word_err + unit) \<times> (word_db, 'z) pgs_scheme" where
  "check_deferred w =
     (case deferred_violation (tables w) of None \<Rightarrow> (Inr (), w) | Some e \<Rightarrow> (Inl (mapSaveErr ''commit'' e), w))"

definition sql_root_update ::
  "uuid \<Rightarrow> save_input \<Rightarrow> time \<Rightarrow> word_db \<Rightarrow> sqlerr + nat \<times> word_db" where
  "sql_root_update i inp now d =
     (case nullable_numeric (si_frequency inp) of
        None \<Rightarrow> Inl (UnknownColumnValue (si_frequency inp))
      | Some fr \<Rightarrow> sql_word_update (\<lambda>r. ww_id r = i) (\<lambda>r. r\<lparr>ww_frequency := fr, ww_mode := si_mode inp,
          ww_dialects := si_dialects inp, ww_updated_at := now\<rparr>) d)"

definition save_body ::
  "uuid \<Rightarrow> save_input \<Rightarrow> (word_db, 'z) pgs_scheme \<Rightarrow> (word_err + unit) \<times> (word_db, 'z) pgs_scheme" where
  "save_body i inp w =
     wbind (wquery (or_not_found ''lock word'')
         (\<lambda>d. case find_word i d of None \<Rightarrow> Inl NoRows | Some r \<Rightarrow> Inr (ww_updated_at r))) (\<lambda>current.
     if current \<noteq> si_base inp then wfail ErrStale
     else
     wbind (wstmt (wrapped ''update word'') (sql_root_update i inp (pg_now w))) (\<lambda>_.
     wbind (load_scopes i tree_tables) (\<lambda>ex.
     wbind (wfold (delete_gone ex inp) deleteOrder) (\<lambda>_.
     wbind (wfold (save_node ex) (tree_nodes i inp)) (\<lambda>_.
     wbind (wfold (save_relation ex) (tree_relations inp)) (\<lambda>_.
     check_deferred)))))) w"

definition word_saveTree ::
  "uuid \<Rightarrow> save_input \<Rightarrow> (word_db, 'z) pgs_scheme \<Rightarrow> (word_err + unit) \<times> (word_db, 'z) pgs_scheme" where
  "word_saveTree i inp =
     pg_tx (wrapped ''begin tx'' ConnLost) (mapSaveErr ''commit'' ConnLost) (save_body i inp)"

subsection \<open>List and search\<close>

text \<open>\<open>strings.NewReplacer\<close> of single bytes, and the pattern around it.\<close>

definition escapeLike :: "string \<Rightarrow> string" where
  "escapeLike s = concat (map (\<lambda>c. if c = CHR 0x5C \<or> c = CHR ''%'' \<or> c = CHR ''_'' then [CHR 0x5C, c] else [c]) s)"

definition likePattern :: "string \<Rightarrow> string" where
  "likePattern s = ''%'' @ escapeLike s @ ''%''"

record list_filter =
  lf_query :: string
  lf_gloss :: string
  lf_kind :: string
  lf_pos :: string
  lf_level :: string
  lf_status :: string
  lf_from :: time
  lf_to :: time
  lf_limit :: int
  lf_offset :: int

record list_item =
  li_id :: uuid
  li_headword :: string
  li_kind :: string
  li_gloss :: string
  li_pos :: "string list"
  li_levels :: "string list"
  li_status :: string
  li_creator :: string
  li_created :: time
  li_updated :: time

definition Levels :: "string list" where
  "Levels = [''A1'', ''A2'', ''B1'', ''B2'', ''C1'', ''C2'']"

text \<open>The senses and the definitions of a word, in display order.\<close>

definition word_sense_rows :: "uuid \<Rightarrow> word_db \<Rightarrow> sense_cols row list" where
  "word_sense_rows i d = concat (map (\<lambda>p. children (row_id p) (w_senses d)) (children i (w_pos d)))"

definition word_def_rows :: "uuid \<Rightarrow> word_db \<Rightarrow> def_cols row list" where
  "word_def_rows i d = concat (map (\<lambda>s. children (row_id s) (w_defs d)) (word_sense_rows i d))"

definition list_match :: "pg_text \<Rightarrow> list_filter \<Rightarrow> word_db \<Rightarrow> word_row \<Rightarrow> string \<Rightarrow> bool" where
  "list_match L f d r creator \<longleftrightarrow>
     (lf_query f = [] \<or> sql_ilike (pt_lower L) (likePattern (lf_query f)) (ww_headword r) \<or>
        sql_ilike (pt_lower L) (likePattern (lf_query f)) creator) \<and>
     (lf_gloss f = [] \<or> list_ex (\<lambda>x. sql_ilike (pt_lower L) (likePattern (lf_gloss f)) (rt_text (dc_text (row_data x))))
        (word_def_rows (ww_id r) d)) \<and>
     (lf_kind f = [] \<or> ww_kind r = lf_kind f) \<and>
     (lf_pos f = [] \<or> list_ex (\<lambda>p. row_data p = lf_pos f) (children (ww_id r) (w_pos d))) \<and>
     (lf_level f = [] \<or> list_ex (\<lambda>s. sc_level (row_data s) = lf_level f) (word_sense_rows (ww_id r) d)) \<and>
     (lf_status f = [] \<or> ww_status r = lf_status f) \<and>
     (lf_from f = zero_time \<or> lf_from f \<le> ww_created_at r) \<and>
     (lf_to f = zero_time \<or> ww_created_at r < lf_to f)"

text \<open>\<open>words JOIN admins\<close> under the filter.\<close>

definition list_base :: "pg_text \<Rightarrow> list_filter \<Rightarrow> word_db \<Rightarrow> (word_row \<times> string) list" where
  "list_base L f d =
     filter (\<lambda>(r, creator). list_match L f d r creator)
       (concat (map (\<lambda>r. map (\<lambda>a. (r, snd a)) (filter (\<lambda>a. fst a = ww_created_by r) (w_admins d))) (w_words d)))"

definition list_order :: "(word_row \<times> string) list \<Rightarrow> (word_row \<times> string) list" where
  "list_order xs = rev (sort_key (\<lambda>x. ww_created_at (fst x)) (sort_key (\<lambda>x. ww_id (fst x)) xs))"

definition scan_item :: "word_db \<Rightarrow> word_row \<times> string \<Rightarrow> list_item" where
  "scan_item d x = (let r = fst x; i = ww_id r in
     \<lparr>li_id = i, li_headword = ww_headword r, li_kind = ww_kind r,
      li_gloss = (case word_def_rows i d of [] \<Rightarrow> [] | y # _ \<Rightarrow> rt_text (dc_text (row_data y))),
      li_pos = map row_data (children i (w_pos d)),
      li_levels = filter (\<lambda>l. list_ex (\<lambda>s. sc_level (row_data s) = l) (word_sense_rows i d)) Levels,
      li_status = ww_status r, li_creator = snd x, li_created = ww_created_at r, li_updated = ww_updated_at r\<rparr>)"

definition word_list ::
  "pg_text \<Rightarrow> list_filter \<Rightarrow> (word_db, 'z) pgs_scheme \<Rightarrow> (word_err + list_item list \<times> nat) \<times> (word_db, 'z) pgs_scheme" where
  "word_list L f =
     wbind (wquery (wrapped ''begin read tx'') (\<lambda>_. Inr ())) (\<lambda>_.
     wbind (wquery (wrapped ''count words'') (\<lambda>d. Inr (length (list_base L f d)))) (\<lambda>total.
     wbind (wquery (wrapped ''query words'') (\<lambda>d.
       if lf_limit f < 0 \<or> lf_offset f < 0 then Inl InvalidOffset
       else Inr (map (scan_item d) (sql_page (nat (lf_limit f)) (nat (lf_offset f)) (list_order (list_base L f d))))))
       (\<lambda>items. wret (items, total))))"

record sense_option =
  so_sense :: uuid
  so_gloss :: string

record related_result =
  rr_word :: uuid
  rr_headword :: string
  rr_kind :: string
  rr_senses :: "sense_option list"

definition related_words :: "pg_text \<Rightarrow> string \<Rightarrow> string \<Rightarrow> word_db \<Rightarrow> word_row list" where
  "related_words L q kind d =
     (let pre = escapeLike q @ ''%'' in
      sort_key (\<lambda>r. \<not> sql_ilike (pt_lower L) pre (ww_headword r))
       (sort_key (\<lambda>r. pt_key L (ToLower (pt_lower L) (ww_headword r)))
         (sort_key ww_id
           (filter (\<lambda>r. sql_ilike (pt_lower L) (likePattern q) (ww_headword r) \<and> (kind = [] \<or> ww_kind r = kind))
             (w_words d)))))"

definition related_senses :: "uuid list \<Rightarrow> word_db \<Rightarrow> (uuid \<times> sense_option) list" where
  "related_senses is d =
     (let joined = concat (map (\<lambda>p. map (\<lambda>s. (p, s)) (filter (\<lambda>s. row_parent s = row_id p) (w_senses d)))
            (filter (\<lambda>p. row_parent p \<in> set is) (w_pos d))) in
      map (\<lambda>(p, s). (row_parent p, \<lparr>so_sense = row_id s, so_gloss = gloss_of (row_id s) d\<rparr>))
        (sort_key (\<lambda>(p, s). row_order p) (sort_key (\<lambda>(p, s). row_order s) joined)))"

definition word_relatedSearch ::
  "pg_text \<Rightarrow> string \<Rightarrow> string \<Rightarrow> int \<Rightarrow> (word_db, 'z) pgs_scheme
    \<Rightarrow> (word_err + related_result list) \<times> (word_db, 'z) pgs_scheme" where
  "word_relatedSearch L q kind limit =
     wbind (wquery (wrapped ''search words'') (\<lambda>d.
       if limit < 0 then Inl InvalidOffset
       else Inr (map (\<lambda>r. \<lparr>rr_word = ww_id r, rr_headword = ww_headword r, rr_kind = ww_kind r, rr_senses = []\<rparr>)
              (take (nat limit) (related_words L q kind d))))) (\<lambda>results.
     if results = [] then wret results
     else
       wbind (wquery (wrapped ''query senses'') (\<lambda>d. Inr (related_senses (map rr_word results) d)))
         (\<lambda>opts. wret (map (\<lambda>x. x\<lparr>rr_senses := grouped opts (rr_word x)\<rparr>) results)))"

end
