(* ===== verification/WordEntry.thy ===== *)
theory WordEntry
  imports WordRepo
begin

text \<open>
  The abstraction of the ten tables: the entry a word's rows stand for, as a tree. \<open>GetTree\<close>
  returns it, and the other operations are described by what they do to it.
\<close>

subsection \<open>Sequencing\<close>

lemma wbind_Inr:
  "wbind m k w = (Inr b, w2) \<longleftrightarrow> (\<exists>a w1. m w = (Inr a, w1) \<and> k a w1 = (Inr b, w2))"
  by (auto simp: wbind_def split: prod.splits sum.splits)

lemma wquery_Inr:
  "wquery on f w = (Inr a, w1) \<longleftrightarrow> next_fate w = Runs \<and> f (tables w) = Inr a \<and> w1 = pop_fate w"
  using pg_query_Inr [of f w a w1] by (auto simp: wquery_def split: prod.splits sum.splits)

lemma wstmt_Inr:
  "wstmt on f w = (Inr a, w1) \<longleftrightarrow>
     next_fate w = Runs \<and> (\<exists>d. f (tables w) = Inr (a, d) \<and> w1 = (pop_fate w)\<lparr>tables := d\<rparr>)"
proof -
  have "wstmt on f w = (Inr a, w1) \<longleftrightarrow> pg_stmt f w = (Inr a, w1)"
    by (auto simp: wstmt_def split: prod.splits sum.splits)
  then show ?thesis by (simp only: pg_stmt_Inr)
qed

lemma wret_Inr [simp]: "wret a w = (Inr b, w1) \<longleftrightarrow> b = a \<and> w1 = w"
  by (auto simp: wret_def)

lemma wfail_Inr [simp]: "wfail e w = (Inr b, w1) \<longleftrightarrow> False"
  by (simp add: wfail_def)

lemma wquery_healthy:
  "fates w = [] \<Longrightarrow> wquery on f w = (case f (tables w) of Inl e \<Rightarrow> (Inl (on e), w) | Inr a \<Rightarrow> (Inr a, w))"
  by (simp add: wquery_def pg_query_healthy split: sum.split)

lemma wstmt_healthy:
  "fates w = [] \<Longrightarrow> wstmt on f w =
     (case f (tables w) of Inl e \<Rightarrow> (Inl (on e), w) | Inr (a, d) \<Rightarrow> (Inr a, w\<lparr>tables := d\<rparr>))"
  by (auto simp: wstmt_def pg_stmt_healthy split: sum.splits)

subsection \<open>The entry of a word\<close>

definition scan_group :: "string row \<Rightarrow> sense_group" where
  "scan_group r = \<lparr>sg_id = row_id r, sg_name = row_data r\<rparr>"

definition form_at :: "word_db \<Rightarrow> form_cols row \<Rightarrow> word_form" where
  "form_at d = scan_form (\<lambda>i. map scan_pron (children i (w_prons d)))"

definition structure_at :: "word_db \<Rightarrow> unit row \<Rightarrow> grammar_structure" where
  "structure_at d = scan_structure (\<lambda>i. map scan_variant (children i (w_variants d)))"

definition sense_at :: "word_db \<Rightarrow> sense_cols row \<Rightarrow> word_sense" where
  "sense_at d = scan_sense (\<lambda>i. map scan_definition (children i (w_defs d)))
     (\<lambda>i. map scan_sentence (children i (w_sents d))) (\<lambda>i. map scan_relation (children i (w_rels d)))"

definition pos_at :: "word_db \<Rightarrow> string row \<Rightarrow> word_pos" where
  "pos_at d = scan_pos (\<lambda>i. map (form_at d) (children i (w_forms d)))
     (\<lambda>i. map (structure_at d) (children i (w_structs d))) (\<lambda>i. map (sense_at d) (children i (w_senses d)))"

definition entry_of :: "word_db \<Rightarrow> word_row \<Rightarrow> word_entry" where
  "entry_of d r = (scan_word r)\<lparr>we_groups := map scan_group (children (ww_id r) (w_groups d)),
     we_pos := map (pos_at d) (children (ww_id r) (w_pos d))\<rparr>"

definition entry :: "uuid \<Rightarrow> word_db \<Rightarrow> word_entry option" where
  "entry i d = map_option (entry_of d) (find_word i d)"

lemma set_children: "set (children p rows) = {r \<in> set rows. row_parent r = p}"
  by (simp add: children_def)

lemma grouped_scan:
  "p \<in> set ps \<Longrightarrow> grouped (scan_rows ps scan rows) p = map scan (children p rows)"
proof -
  assume p: "p \<in> set ps"
  have "grouped (scan_rows ps scan rows) p =
      map scan (filter (\<lambda>r. row_parent r = p) (sort_key row_order (filter (\<lambda>r. row_parent r \<in> set ps) rows)))"
    by (simp add: grouped_def scan_rows_def filter_map o_def)
  also have "filter (\<lambda>r. row_parent r = p) (sort_key row_order (filter (\<lambda>r. row_parent r \<in> set ps) rows)) =
      sort_key row_order (filter (\<lambda>r. row_parent r = p \<and> row_parent r \<in> set ps) rows)"
    by (simp add: filter_sort conj_commute)
  also have "filter (\<lambda>r. row_parent r = p \<and> row_parent r \<in> set ps) rows = filter (\<lambda>r. row_parent r = p) rows"
    using p by (intro filter_cong) auto
  finally show ?thesis by (simp add: children_def)
qed

lemma scan_single: "map snd (scan_rows [i] scan rows) = map scan (children i rows)"
  by (simp add: scan_rows_def children_def o_def)

lemma in_scope:
  "r \<in> set (w_pos d) \<Longrightarrow> row_parent r = i \<Longrightarrow> row_id r \<in> set (scope T_pos i d)"
  "f \<in> set (w_forms d) \<Longrightarrow> row_parent f \<in> set (scope T_pos i d) \<Longrightarrow> row_id f \<in> set (scope T_forms i d)"
  "g \<in> set (w_structs d) \<Longrightarrow> row_parent g \<in> set (scope T_pos i d) \<Longrightarrow> row_id g \<in> set (scope T_structs i d)"
  "s \<in> set (w_senses d) \<Longrightarrow> row_parent s \<in> set (scope T_pos i d) \<Longrightarrow> row_id s \<in> set (scope T_senses i d)"
  by (auto simp: set_scope below_def simp del: scope.simps)

text \<open>The queries stitched together are the entry.\<close>

lemma stitched:
  fixes d :: word_db and i :: uuid
  defines "prons \<equiv> scan_rows (scope T_forms i d) scan_pron (w_prons d)"
    and "vars \<equiv> scan_rows (scope T_structs i d) scan_variant (w_variants d)"
    and "defs \<equiv> scan_rows (scope T_senses i d) scan_definition (w_defs d)"
    and "sents \<equiv> scan_rows (scope T_senses i d) scan_sentence (w_sents d)"
    and "rels \<equiv> scan_rows (scope T_senses i d) scan_relation (w_rels d)"
  defines "forms \<equiv> scan_rows (scope T_pos i d) (scan_form (grouped prons)) (w_forms d)"
    and "structs \<equiv> scan_rows (scope T_pos i d) (scan_structure (grouped vars)) (w_structs d)"
    and "senses \<equiv> scan_rows (scope T_pos i d) (scan_sense (grouped defs) (grouped sents) (grouped rels)) (w_senses d)"
  shows "map snd (scan_rows [i] (scan_pos (grouped forms) (grouped structs) (grouped senses)) (w_pos d)) =
    map (pos_at d) (children i (w_pos d))"
proof -
  have "scan_pos (grouped forms) (grouped structs) (grouped senses) r = pos_at d r" if r: "r \<in> set (children i (w_pos d))" for r
  proof -
    have p: "row_id r \<in> set (scope T_pos i d)" using r by (intro in_scope(1)) (auto simp: set_children)
    have "map (scan_form (grouped prons)) (children (row_id r) (w_forms d)) = map (form_at d) (children (row_id r) (w_forms d))"
      using p by (auto simp: set_children form_at_def prons_def scan_form_def grouped_scan in_scope(2) simp del: scope.simps)
    moreover have "map (scan_structure (grouped vars)) (children (row_id r) (w_structs d)) =
        map (structure_at d) (children (row_id r) (w_structs d))"
      using p by (auto simp: set_children structure_at_def vars_def scan_structure_def grouped_scan in_scope(3) simp del: scope.simps)
    moreover have "map (scan_sense (grouped defs) (grouped sents) (grouped rels)) (children (row_id r) (w_senses d)) =
        map (sense_at d) (children (row_id r) (w_senses d))"
      using p by (auto simp: set_children sense_at_def defs_def sents_def rels_def scan_sense_def grouped_scan in_scope(4)
          simp del: scope.simps)
    ultimately show ?thesis
      using p by (simp add: pos_at_def scan_pos_def forms_def structs_def senses_def grouped_scan del: scope.simps)
  qed
  then show ?thesis by (simp add: scan_single)
qed

lemmas stitched_pos = stitched [unfolded scan_single]

lemma find_word_id: "find_word i d = Some r \<Longrightarrow> r \<in> set (w_words d) \<and> ww_id r = i"
  unfolding find_word_def by (rule find_SomeD)

text \<open>A method that only reads: the tables stay, and a result is that of a healthy connection.\<close>

definition wreads ::
  "((word_db, 'z) pgs_scheme \<Rightarrow> (word_err + 'a) \<times> (word_db, 'z) pgs_scheme) \<Rightarrow> (word_db \<Rightarrow> word_err + 'a) \<Rightarrow> bool" where
  "wreads m f \<longleftrightarrow> (\<forall>w r w1. m w = (r, w1) \<longrightarrow> tables w1 = tables w \<and> pg_now w1 = pg_now w \<and>
     (fates w = [] \<longrightarrow> w1 = w \<and> r = f (tables w)) \<and> (\<forall>a. r = Inr a \<longrightarrow> f (tables w) = Inr a))"

lemma readsD:
  assumes "wreads m f" and "m w = (r, w1)"
  shows "tables w1 = tables w" and "pg_now w1 = pg_now w" and "fates w = [] \<Longrightarrow> w1 = w"
    and "fates w = [] \<Longrightarrow> r = f (tables w)" and "r = Inr a \<Longrightarrow> f (tables w) = Inr a"
proof -
  have "tables w1 = tables w \<and> pg_now w1 = pg_now w \<and> (fates w = [] \<longrightarrow> w1 = w \<and> r = f (tables w)) \<and>
      (\<forall>a. r = Inr a \<longrightarrow> f (tables w) = Inr a)"
    using assms(1) [unfolded wreads_def, THEN spec, THEN spec, THEN spec, THEN mp, OF assms(2)] .
  note c = this
  show "tables w1 = tables w" using c by (rule conjunct1)
  show "pg_now w1 = pg_now w" using c by (elim conjE)
  show "fates w = [] \<Longrightarrow> w1 = w" using c by (elim conjE) (drule (1) mp, erule conjunct1)
  show "fates w = [] \<Longrightarrow> r = f (tables w)" using c by (elim conjE) (drule (1) mp, erule conjunct2)
  show "r = Inr a \<Longrightarrow> f (tables w) = Inr a" using c by (elim conjE) (drule spec, erule (1) mp)
qed

lemma readsI:
  assumes "\<And>w r w1. m w = (r, w1) \<Longrightarrow> tables w1 = tables w"
    and "\<And>w r w1. m w = (r, w1) \<Longrightarrow> pg_now w1 = pg_now w"
    and "\<And>w r w1. m w = (r, w1) \<Longrightarrow> fates w = [] \<Longrightarrow> w1 = w"
    and "\<And>w r w1. m w = (r, w1) \<Longrightarrow> fates w = [] \<Longrightarrow> r = f (tables w)"
    and "\<And>w a w1. m w = (Inr a, w1) \<Longrightarrow> f (tables w) = Inr a"
  shows "wreads m f"
  unfolding wreads_def using assms by simp

lemma reads_wquery: "wreads (wquery on f) (\<lambda>d. case f d of Inl e \<Rightarrow> Inl (on e) | Inr a \<Rightarrow> Inr a)"
  unfolding wreads_def
proof (intro allI impI)
  fix w r w1 assume q: "wquery on f w = (r, w1)"
  obtain r0 where p: "pg_query f w = (r0, w1)" and r: "r = (case r0 of Inl e \<Rightarrow> Inl (on e) | Inr a \<Rightarrow> Inr a)"
    using q by (auto simp: wquery_def split: prod.splits sum.splits)
  from p have "w1 = pop_fate w" by (rule pg_query_snd)
  moreover have "fates w = [] \<longrightarrow> r0 = f (tables w)"
    using p pg_query_healthy [of w f] by auto
  moreover have "r0 = Inr a \<longrightarrow> f (tables w) = Inr a" for a
    using p by (auto simp: pg_query_Inr)
  ultimately show "tables w1 = tables w \<and> pg_now w1 = pg_now w \<and>
      (fates w = [] \<longrightarrow> w1 = w \<and> r = (case f (tables w) of Inl e \<Rightarrow> Inl (on e) | Inr a \<Rightarrow> Inr a)) \<and>
      (\<forall>a. r = Inr a \<longrightarrow> (case f (tables w) of Inl e \<Rightarrow> Inl (on e) | Inr a \<Rightarrow> Inr a) = Inr a)"
    by (cases r0) (simp_all add: r)
qed

lemma reads_wret: "wreads (wret a) (\<lambda>d. Inr a)"
  by (simp add: wreads_def wret_def)

lemma reads_wbind:
  assumes "wreads m f" and "\<And>a. wreads (k a) (g a)"
  shows "wreads (wbind m k) (\<lambda>d. sbind (f d) (\<lambda>a. g a d))"
proof -
  have split: "(\<exists>e. m w = (Inl e, w2) \<and> r = Inl e) \<or> (\<exists>a w1. m w = (Inr a, w1) \<and> k a w1 = (r, w2))"
    if "wbind m k w = (r, w2)" for w r w2
    using that by (auto simp: wbind_def split: prod.splits sum.splits)
  note D = readsD [OF assms(1)] and E = readsD [OF assms(2)]
  show ?thesis
  proof (rule readsI)
    fix w r w2 assume b: "wbind m k w = (r, w2)"
    show "tables w2 = tables w" using split [OF b] D(1) E(1) by metis
    show "pg_now w2 = pg_now w" using split [OF b] D(2) E(2) by metis
    assume h: "fates w = []"
    show "w2 = w" using split [OF b] D(3) [OF _ h] E(3) h by metis
    from split [OF b] show "r = sbind (f (tables w)) (\<lambda>a. g a (tables w))"
    proof (elim disjE exE conjE)
      fix e assume "m w = (Inl e, w2)" "r = Inl e"
      with D(4) [OF _ h] show ?thesis by (metis sbind_simps(1))
    next
      fix a w1 assume m: "m w = (Inr a, w1)" and k: "k a w1 = (r, w2)"
      have "w1 = w" using D(3) [OF m h] .
      with D(4) [OF m h] E(4) [OF k] h show ?thesis by (metis sbind_simps(2))
    qed
  next
    fix w c w2 assume b: "wbind m k w = (Inr c, w2)"
    then obtain a w1 where m: "m w = (Inr a, w1)" and k: "k a w1 = (Inr c, w2)" by (auto simp: wbind_Inr)
    then show "sbind (f (tables w)) (\<lambda>a. g a (tables w)) = Inr c"
      using D(5) [OF m refl] D(1) [OF m] E(5) [OF k refl] by simp
  qed
qed

lemma reads_cong: "wreads m f \<Longrightarrow> f = g \<Longrightarrow> wreads m g"
  by simp

lemmas reads_intros = reads_wbind reads_wquery reads_wret

lemma reads_getTree:
  "wreads (word_getTree i) (\<lambda>d. case entry i d of None \<Rightarrow> Inl word_ErrNotFound | Some e \<Rightarrow> Inr e)"
  unfolding word_getTree_def scan_single
  apply (rule reads_cong, (rule reads_intros)+, rule ext)
  subgoal for d
    by (simp only: sum.case sbind_simps stitched_pos, cases "find_word i d")
      (simp_all add: entry_def entry_of_def scan_group_def [abs_def] or_not_found_def find_word_id)
  done

lemma getTree_Inr:
  assumes "word_getTree i w = (Inr e, w1)"
  shows "tables w1 = tables w" and "entry i (tables w) = Some e"
  using readsD(1) [OF reads_getTree assms] readsD(5) [OF reads_getTree assms refl]
  by (simp_all split: option.splits)

lemma getTree_tables: "word_getTree i w = (r, w1) \<Longrightarrow> tables w1 = tables w \<and> pg_now w1 = pg_now w"
  using readsD(1,2) [OF reads_getTree] by blast

lemma getTree_healthy:
  assumes "fates w = []"
  shows "word_getTree i w = (case entry i (tables w) of None \<Rightarrow> Inl word_ErrNotFound | Some e \<Rightarrow> Inr e, w)"
proof -
  obtain r w1 where g: "word_getTree i w = (r, w1)" by fastforce
  show ?thesis using readsD(3,4) [OF reads_getTree g assms] g by simp
qed

end
