(* ===== verification/WordUpsert.thy ===== *)
theory WordUpsert
  imports WordEntry
begin

text \<open>
  The writes of the tree save to one child table are a list of updates and
  inserts (\<open>upserts\<close>) with a closed form; from it follow the children of every parent after
  the save, those of the saved word and those of the others.
\<close>

subsection \<open>Updates and inserts of one table\<close>

fun upserts :: "uuid set \<Rightarrow> ('a row \<Rightarrow> 'a row \<Rightarrow> 'a row) \<Rightarrow> 'a row list \<Rightarrow> 'a row list \<Rightarrow> 'a row list option" where
  "upserts E m [] rows = Some rows"
| "upserts E m (c # cs) rows =
     (if (row_id c \<in> E) = (row_id c \<in> ids_of rows) then
        upserts E m cs
          (if row_id c \<in> E then map (\<lambda>q. if row_id q = row_id c then m q c else q) rows else rows @ [c])
      else None)"

lemma upserts_append:
  "upserts E m (cs @ ds) rows = (case upserts E m cs rows of None \<Rightarrow> None | Some rows1 \<Rightarrow> upserts E m ds rows1)"
  by (induction cs arbitrary: rows) auto

definition keeps_id :: "('a row \<Rightarrow> 'a row \<Rightarrow> 'a row) \<Rightarrow> bool" where
  "keeps_id m \<longleftrightarrow> (\<forall>q c. row_id (m q c) = row_id c \<and> row_order (m q c) = row_order c)"

lemma keeps_id_merges [simp]:
  "keeps_id keep_parent" "keeps_id keep_nothing" "keeps_id keep_pron_audio" "keeps_id keep_variant_audio"
  "keeps_id keep_def_audio" "keeps_id keep_sent_audio" "keeps_id keep_target" "keeps_id keep_gloss"
  by (simp_all add: keeps_id_def keep_parent_def keep_nothing_def keep_pron_audio_def keep_variant_audio_def
      keep_def_audio_def keep_sent_audio_def keep_target_def keep_gloss_def)

context child_table
begin

lemma upsert_Inr:
  assumes "upsert known tb m c w = (Inr u, w1)"
  shows "\<exists>rows. upserts (set known) m [c] (tb_get tb (tables w)) = Some rows \<and>
    tables w1 = tb_put tb rows (tables w) \<and> pg_now w1 = pg_now w"
proof (cases "row_id c \<in> set known")
  case True
  then obtain n d where u: "sql_update tb (\<lambda>old. m old c) (row_id c) (tables w) = Inr (n, d)" "n \<noteq> 0"
    and w1: "tables w1 = d" "pg_now w1 = pg_now w"
    using assms by (auto simp: upsert_def wbind_Inr wstmt_Inr split: if_splits)
  from u(1) show ?thesis
  proof (cases rule: update_Inr)
    case (2 r)
    then have "row_id c \<in> ids_of (tb_get tb (tables w))" using ids_ofI [OF 2(2)] by simp
    with True 2 w1 show ?thesis by simp
  qed (use u(2) in simp)
next
  case False
  then obtain n d where i: "sql_insert tb c (tables w) = Inr (n, d)" and w1: "tables w1 = d" "pg_now w1 = pg_now w"
    using assms by (auto simp: upsert_def wbind_Inr wstmt_Inr)
  with False insert_Inr [OF i] show ?thesis by simp
qed

lemma upsert_ok:
  assumes "upsert known tb m c w = (Inr u, w1)" and "db_ok (tables w)" and "keeps_id m"
  shows "db_ok (tables w1)"
proof (cases "row_id c \<in> set known")
  case True
  then obtain n d where "sql_update tb (\<lambda>old. m old c) (row_id c) (tables w) = Inr (n, d)" "tables w1 = d"
    using assms(1) by (auto simp: upsert_def wbind_Inr wstmt_Inr split: if_splits)
  with assms(2,3) update_ok show ?thesis by (metis keeps_id_def)
next
  case False
  then obtain n d where "sql_insert tb c (tables w) = Inr (n, d)" "tables w1 = d"
    using assms(1) by (auto simp: upsert_def wbind_Inr wstmt_Inr)
  with assms(2) insert_ok show ?thesis by blast
qed

end

text \<open>The closed form: old rows merged with the command for their id, then the new rows.\<close>

definition lookup :: "uuid \<Rightarrow> 'a row list \<Rightarrow> 'a row option" where
  "lookup i rows = find (\<lambda>r. row_id r = i) rows"

definition merged :: "('a row \<Rightarrow> 'a row \<Rightarrow> 'a row) \<Rightarrow> 'a row list \<Rightarrow> 'a row \<Rightarrow> 'a row" where
  "merged m cs q = (case lookup (row_id q) cs of None \<Rightarrow> q | Some c \<Rightarrow> m q c)"

lemma lookup_None: "lookup i rows = None \<longleftrightarrow> i \<notin> ids_of rows"
  by (auto simp: lookup_def find_None_iff ids_of_def)

lemma lookup_Some:
  "distinct (map row_id rows) \<Longrightarrow> lookup i rows = Some r \<longleftrightarrow> r \<in> set rows \<and> row_id r = i"
  by (induction rows) (auto simp: lookup_def)

lemma lookup_Cons: "lookup i (c # cs) = (if row_id c = i then Some c else lookup i cs)"
  by (simp add: lookup_def)

lemma upserts_Some:
  assumes "upserts E m cs rows = Some rows'" and "keeps_id m" and "distinct (map row_id cs)"
  shows "rows' = map (merged m cs) rows @ filter (\<lambda>c. row_id c \<notin> E) cs"
    and "\<forall>c \<in> set cs. row_id c \<in> E \<longleftrightarrow> row_id c \<in> ids_of rows"
proof -
  have "rows' = map (merged m cs) rows @ filter (\<lambda>c. row_id c \<notin> E) cs \<and>
      (\<forall>c \<in> set cs. row_id c \<in> E \<longleftrightarrow> row_id c \<in> ids_of rows)"
    using assms
  proof (induction cs arbitrary: rows)
    case Nil
    then show ?case by (simp add: merged_def lookup_def map_idI)
  next
    case (Cons c cs)
    let ?rows1 = "if row_id c \<in> E then map (\<lambda>q. if row_id q = row_id c then m q c else q) rows else rows @ [c]"
    from Cons.prems(1) have e: "(row_id c \<in> E) = (row_id c \<in> ids_of rows)" and u: "upserts E m cs ?rows1 = Some rows'"
      by (auto split: if_splits)
    from Cons.prems(3) have d: "distinct (map row_id cs)" and n: "lookup (row_id c) cs = None"
      by (auto simp: lookup_None ids_of_def)
    note IH = Cons.IH [OF u Cons.prems(2) d]
    have keep: "row_id (m q x) = row_id x" for q x using Cons.prems(2) by (simp add: keeps_id_def)
    have "map row_id (map (\<lambda>q. if row_id q = row_id c then m q c else q) rows) = map row_id rows"
      by (simp add: keep)
    then have "ids_of (map (\<lambda>q. if row_id q = row_id c then m q c else q) rows) = ids_of rows"
      by (simp only: ids_of_def)
    then have ids: "ids_of ?rows1 = insert (row_id c) (ids_of rows)"
      using e by (cases "row_id c \<in> E") (simp_all only: if_True if_False insert_absorb ids_of_simps Un_insert_right Un_empty_right)
    have "merged m cs (if row_id q = row_id c then m q c else q) = merged m (c # cs) q" for q
      using n by (simp add: merged_def lookup_Cons keep)
    moreover have "row_id c \<notin> E \<Longrightarrow> q \<in> set rows \<Longrightarrow> merged m (c # cs) q = merged m cs q" for q
      using e by (auto simp: merged_def lookup_Cons ids_of_def)
    moreover have "merged m cs c = c" using n by (simp add: merged_def)
    ultimately have "map (merged m cs) ?rows1 @ filter (\<lambda>c. row_id c \<notin> E) cs =
        map (merged m (c # cs)) rows @ filter (\<lambda>c. row_id c \<notin> E) (c # cs)"
      by simp
    moreover have "\<forall>x \<in> set cs. row_id x \<noteq> row_id c" using Cons.prems(3) by (auto simp: image_iff)
    ultimately show ?case using IH [unfolded ids] e by auto
  qed
  then show "rows' = map (merged m cs) rows @ filter (\<lambda>c. row_id c \<notin> E) cs"
    and "\<forall>c \<in> set cs. row_id c \<in> E \<longleftrightarrow> row_id c \<in> ids_of rows" by simp_all
qed

lemma ids_upserts:
  assumes "upserts E m cs rows = Some rows'" and "keeps_id m" and "distinct (map row_id cs)"
  shows "ids_of rows' = ids_of rows \<union> ids_of cs"
proof -
  have "row_id (merged m cs q) = row_id q" for q
    using assms(2,3) by (auto simp: merged_def keeps_id_def lookup_Some split: option.split)
  then have "ids_of (map (merged m cs) rows) = ids_of rows" by (simp add: ids_of_def image_image)
  moreover have "ids_of (filter (\<lambda>c. row_id c \<notin> E) cs) \<union> ids_of rows = ids_of rows \<union> ids_of cs"
    using upserts_Some(2) [OF assms] by (auto simp: ids_of_def)
  ultimately show ?thesis using upserts_Some(1) [OF assms] by auto
qed

text \<open>What a command's row becomes.\<close>

definition stored :: "uuid set \<Rightarrow> ('a row \<Rightarrow> 'a row \<Rightarrow> 'a row) \<Rightarrow> 'a row list \<Rightarrow> 'a row \<Rightarrow> 'a row" where
  "stored E m rows c = (if row_id c \<in> E then m (the (lookup (row_id c) rows)) c else c)"

lemma set_upserts:
  assumes "upserts E m cs rows = Some rows'" and "keeps_id m" and "distinct (map row_id cs)"
    and "distinct (map row_id rows)"
  shows "set rows' = {q \<in> set rows. row_id q \<notin> ids_of cs} \<union> stored E m rows ` set cs"
proof -
  note U = upserts_Some [OF assms(1-3)]
  have old: "merged m cs q = (if row_id q \<in> ids_of cs then stored E m rows (the (lookup (row_id q) cs)) else q)"
    if "q \<in> set rows" for q
  proof (cases "lookup (row_id q) cs")
    case None
    then have "row_id q \<notin> ids_of cs" by (simp add: lookup_None)
    with None show ?thesis by (simp add: merged_def)
  next
    case (Some c)
    then have c: "c \<in> set cs" "row_id c = row_id q" using lookup_Some [OF assms(3)] by auto
    have "lookup (row_id c) rows = Some q" using that c(2) lookup_Some [OF assms(4)] by simp
    moreover have "row_id c \<in> E" using U(2) c that by (auto simp: ids_of_def)
    moreover have "row_id q \<in> ids_of cs" using ids_ofI [OF c(1)] c(2) by simp
    ultimately show ?thesis using Some by (simp add: merged_def stored_def)
  qed
  show ?thesis
  proof (intro equalityI subsetI)
    fix x assume "x \<in> set rows'"
    then consider q where "q \<in> set rows" "x = merged m cs q" | "x \<in> set cs" "row_id x \<notin> E"
      using U(1) by auto
    then show "x \<in> {q \<in> set rows. row_id q \<notin> ids_of cs} \<union> stored E m rows ` set cs"
    proof cases
      case 1
      show ?thesis
      proof (cases "row_id q \<in> ids_of cs")
        case True
        then obtain c where "lookup (row_id q) cs = Some c" using lookup_None by (metis not_Some_eq)
        with 1 old [OF 1(1)] True lookup_Some [OF assms(3)] show ?thesis by auto
      qed (use 1 old [OF 1(1)] in auto)
    next
      case 2
      then have "x = stored E m rows x" by (simp add: stored_def)
      with 2 show ?thesis by blast
    qed
  next
    fix x assume "x \<in> {q \<in> set rows. row_id q \<notin> ids_of cs} \<union> stored E m rows ` set cs"
    then consider "x \<in> set rows" "row_id x \<notin> ids_of cs" | c where "c \<in> set cs" "x = stored E m rows c" by auto
    then show "x \<in> set rows'"
    proof cases
      case 1
      with old [OF 1(1)] have "merged m cs x = x" by simp
      with 1 U(1) show ?thesis by (metis UnI1 image_eqI list.set_map set_append)
    next
      case 2
      show ?thesis
      proof (cases "row_id c \<in> E")
        case True
        with U(2) 2 obtain q where q: "q \<in> set rows" "row_id q = row_id c" by (auto simp: ids_of_def)
        have "lookup (row_id q) cs = Some c" using 2 q lookup_Some [OF assms(3)] by simp
        with old [OF q(1)] 2 have "merged m cs q = x" by (simp add: lookup_None [symmetric])
        with q U(1) show ?thesis by (metis UnI1 image_eqI list.set_map set_append)
      next
        case False
        with 2 U(1) show ?thesis by (auto simp: stored_def)
      qed
    qed
  qed
qed

text \<open>The children of a parent after the save.\<close>

lemma sort_key_unique:
  assumes "sorted (map f ys)" and "distinct (map f ys)" and "distinct xs" and "set xs = set ys"
  shows "sort_key f xs = ys"
proof -
  have inj: "inj_on f (set ys)" using assms(2) by (simp add: distinct_map)
  then have "distinct (map f (sort_key f xs))" using assms(3,4) by (simp add: distinct_map)
  moreover have "sorted (map f (sort_key f xs))" by simp
  ultimately have "map f (sort_key f xs) = map f ys"
    using assms by (intro sorted_distinct_set_unique) simp_all
  with inj assms(4) show ?thesis by (intro map_inj_on [of f]) simp_all
qed

lemma merged_eq:
  assumes "q \<in> set rows" and "distinct (map row_id rows)" and "distinct (map row_id cs)"
    and "\<forall>c \<in> set cs. row_id c \<in> E \<longleftrightarrow> row_id c \<in> ids_of rows"
  shows "row_id q \<notin> ids_of cs \<and> merged m cs q = q \<or>
    (\<exists>c \<in> set cs. row_id c = row_id q \<and> merged m cs q = stored E m rows c)"
proof (cases "lookup (row_id q) cs")
  case None
  then have "row_id q \<notin> ids_of cs" by (simp add: lookup_None)
  with None show ?thesis by (simp add: merged_def)
next
  case (Some c)
  then have c: "c \<in> set cs" "row_id c = row_id q" using lookup_Some [OF assms(3)] by auto
  moreover have "row_id c \<in> E" using assms(1,4) c by (metis ids_ofI)
  moreover have "lookup (row_id c) rows = Some q" using lookup_Some [OF assms(2)] assms(1) c(2) by simp
  ultimately show ?thesis using Some by (auto simp: merged_def stored_def)
qed

lemma children_other:
  assumes "upserts E m cs rows = Some rows'" and "keeps_id m" and "distinct (map row_id cs)"
    and "distinct (map row_id rows)"
    and "\<And>c. c \<in> set cs \<Longrightarrow> row_parent (stored E m rows c) \<noteq> p"
    and "\<And>q. q \<in> set rows \<Longrightarrow> row_parent q = p \<Longrightarrow> row_id q \<notin> ids_of cs"
  shows "children p rows' = children p rows"
proof -
  note U = upserts_Some [OF assms(1-3)]
  have "row_parent (merged m cs q) = p \<longleftrightarrow> row_parent q = p" and "row_parent q = p \<Longrightarrow> merged m cs q = q"
    if "q \<in> set rows" for q
    using merged_eq [OF that assms(4,3) U(2), of m] assms(5,6) that by (metis ids_ofI)+
  then have "filter (\<lambda>r. row_parent r = p) (map (merged m cs) rows) = filter (\<lambda>r. row_parent r = p) rows"
    by (induction rows) auto
  moreover have "row_parent c \<noteq> p" if "c \<in> set cs" "row_id c \<notin> E" for c
    using assms(5) [OF that(1)] that(2) by (simp add: stored_def)
  then have "filter (\<lambda>r. row_parent r = p) (filter (\<lambda>c. row_id c \<notin> E) cs) = []"
    unfolding filter_empty_conv set_filter by blast
  ultimately show ?thesis unfolding children_def U(1) by simp
qed

lemma distinct_upserts:
  assumes "upserts E m cs rows = Some rows'" and "keeps_id m" and "distinct (map row_id cs)"
    and "distinct (map row_id rows)"
  shows "distinct (map row_id rows')"
proof -
  note U = upserts_Some [OF assms(1-3)]
  have "row_id (merged m cs q) = row_id q" for q
    using assms(2,3) by (auto simp: merged_def keeps_id_def lookup_Some split: option.split)
  then have "map row_id rows' = map row_id rows @ map row_id (filter (\<lambda>c. row_id c \<notin> E) cs)"
    unfolding U(1) by simp
  moreover have "set (map row_id rows) \<inter> set (map row_id (filter (\<lambda>c. row_id c \<notin> E) cs)) = {}"
    using U(2) by (force simp: ids_of_def image_iff)
  ultimately show ?thesis using assms(3,4) by (simp add: distinct_map_filter)
qed

lemma children_own:
  assumes "upserts E m cs rows = Some rows'" and "keeps_id m" and "distinct (map row_id cs)"
    and "distinct (map row_id rows)"
    and "\<And>c. c \<in> set cs \<Longrightarrow> row_parent (stored E m rows c) = row_parent c"
    and "\<And>q. q \<in> set rows \<Longrightarrow> row_parent q = p \<Longrightarrow> row_id q \<in> ids_of cs"
    and "filter (\<lambda>c. row_parent c = p) cs = ds" and "sorted (map row_order ds)" and "distinct (map row_order ds)"
  shows "children p rows' = map (stored E m rows) ds"
  unfolding children_def
proof (rule sort_key_unique)
  have ord: "row_order (stored E m rows c) = row_order c" for c
    using assms(2) by (simp add: stored_def keeps_id_def)
  then show "sorted (map row_order (map (stored E m rows) ds))" "distinct (map row_order (map (stored E m rows) ds))"
    using assms(8,9) by (simp_all add: o_def)
  have "distinct rows'" using distinct_upserts [OF assms(1-4)] by (simp add: distinct_map)
  then show "distinct (filter (\<lambda>r. row_parent r = p) rows')" by simp
  have "set ds = {c \<in> set cs. row_parent c = p}" using assms(7) by auto
  then show "set (filter (\<lambda>r. row_parent r = p) rows') = set (map (stored E m rows) ds)"
    using set_upserts [OF assms(1-4)] assms(5,6) by auto
qed

end
