(* ===== verification/WordNodes.thy ===== *)
theory WordNodes
  imports WordUpsert
begin

text \<open>
  The nodes of a body as rows: the list of commands the save sends to each of the nine tables
  it writes before the relations, and what their execution does to the table.
\<close>

subsection \<open>A block of siblings\<close>

definition siblings :: "(uuid \<Rightarrow> nat \<Rightarrow> 'x \<Rightarrow> 'a row) \<Rightarrow> uuid \<Rightarrow> 'x list \<Rightarrow> 'a row list" where
  "siblings mk p xs = map (\<lambda>(n, x). mk p n x) (enumerate 0 xs)"

definition blocks ::
  "(uuid \<Rightarrow> nat \<Rightarrow> 'x \<Rightarrow> 'a row) \<Rightarrow> ('p \<Rightarrow> uuid) \<Rightarrow> ('p \<Rightarrow> 'x list) \<Rightarrow> 'p list \<Rightarrow> 'a row list" where
  "blocks mk key kids ps = concat (map (\<lambda>p. siblings mk (key p) (kids p)) ps)"

definition makes_rows :: "(uuid \<Rightarrow> nat \<Rightarrow> 'x \<Rightarrow> 'a row) \<Rightarrow> ('x \<Rightarrow> uuid) \<Rightarrow> bool" where
  "makes_rows mk ident \<longleftrightarrow> (\<forall>p n x. row_id (mk p n x) = ident x \<and> row_parent (mk p n x) = p \<and> row_order (mk p n x) = n)"

lemma makes_rowsD:
  "makes_rows mk ident \<Longrightarrow> row_id (mk p n x) = ident x" "makes_rows mk ident \<Longrightarrow> row_parent (mk p n x) = p"
  "makes_rows mk ident \<Longrightarrow> row_order (mk p n x) = n"
  by (simp_all add: makes_rows_def)

lemma map_enumerate_snd: "map (\<lambda>(n, x). f x) (enumerate k xs) = map f xs"
  by (induction xs arbitrary: k) (simp_all add: enumerate_simps)

lemma map_enumerate_fst: "map (\<lambda>(n, x). n) (enumerate k xs) = [k..<k + length xs]"
  by (induction xs arbitrary: k) (simp_all add: enumerate_simps upt_rec)

lemma siblings_ids: "makes_rows mk ident \<Longrightarrow> map row_id (siblings mk p xs) = map ident xs"
  by (simp add: siblings_def o_def split_def makes_rowsD map_enumerate_snd [unfolded split_def])

lemma siblings_orders:
  assumes "makes_rows mk ident"
  shows "sorted (map row_order (siblings mk p xs))" and "distinct (map row_order (siblings mk p xs))"
proof -
  have "map row_order (siblings mk p xs) = [0..<length xs]"
    using map_enumerate_fst [of 0 xs] by (simp add: siblings_def o_def split_def makes_rowsD [OF assms])
  then show "sorted (map row_order (siblings mk p xs))" "distinct (map row_order (siblings mk p xs))" by simp_all
qed

lemma siblings_parent: "makes_rows mk ident \<Longrightarrow> r \<in> set (siblings mk p xs) \<Longrightarrow> row_parent r = p"
  by (auto simp: siblings_def makes_rowsD)

lemma blocks_ids:
  "makes_rows mk ident \<Longrightarrow> map row_id (blocks mk key kids ps) = concat (map (\<lambda>p. map ident (kids p)) ps)"
  by (simp add: blocks_def map_concat o_def siblings_ids)

lemma blocks_parent: "makes_rows mk ident \<Longrightarrow> r \<in> set (blocks mk key kids ps) \<Longrightarrow> row_parent r \<in> key ` set ps"
  by (auto simp: blocks_def dest: siblings_parent)

lemma siblings_of:
  assumes "makes_rows mk ident"
  shows "filter (\<lambda>r. row_parent r = q) (siblings mk p xs) = (if q = p then siblings mk p xs else [])"
  using siblings_parent [OF assms] by (auto simp: filter_empty_conv intro!: filter_True)

lemma blocks_of:
  assumes "makes_rows mk ident" and "distinct (map key ps)" and "p \<in> set ps"
  shows "filter (\<lambda>r. row_parent r = key p) (blocks mk key kids ps) = siblings mk (key p) (kids p)"
  using assms(2,3)
proof (induction ps)
  case (Cons q ps)
  have step: "filter (\<lambda>r. row_parent r = key p) (blocks mk key kids (q # ps)) =
      (if key p = key q then siblings mk (key q) (kids q) else []) @
      filter (\<lambda>r. row_parent r = key p) (blocks mk key kids ps)"
    by (simp add: blocks_def siblings_of [OF assms(1)])
  show ?case
  proof (cases "p = q")
    case True
    have "row_parent r \<noteq> key p" if "r \<in> set (blocks mk key kids ps)" for r
      using Cons.prems(1) True blocks_parent [OF assms(1) that] by auto
    then have "filter (\<lambda>r. row_parent r = key p) (blocks mk key kids ps) = []"
      unfolding filter_empty_conv by blast
    with True show ?thesis unfolding step by simp
  next
    case False
    with Cons.prems have "p \<in> set ps" "key p \<noteq> key q" by (auto simp: image_iff)
    with Cons show ?thesis unfolding step by simp
  qed
qed simp

subsection \<open>The commands of a tree\<close>

definition all_forms :: "save_input \<Rightarrow> word_form list" where
  "all_forms inp = concat (map po_forms (si_pos inp))"

definition all_structures :: "save_input \<Rightarrow> grammar_structure list" where
  "all_structures inp = concat (map po_structures (si_pos inp))"

definition all_senses :: "save_input \<Rightarrow> word_sense list" where
  "all_senses inp = concat (map po_senses (si_pos inp))"

definition group_row :: "uuid \<Rightarrow> nat \<Rightarrow> sense_group \<Rightarrow> string row" where
  "group_row p n g = mk_row (sg_id g) p n (sg_name g)"

definition pos_row :: "uuid \<Rightarrow> nat \<Rightarrow> word_pos \<Rightarrow> string row" where
  "pos_row p n po = mk_row (po_id po) p n (po_pos po)"

definition struct_row :: "uuid \<Rightarrow> nat \<Rightarrow> grammar_structure \<Rightarrow> unit row" where
  "struct_row p n g = mk_row (gs_id g) p n ()"

definition frequency_of :: "string \<Rightarrow> nat option" where
  "frequency_of s = (case nullable_numeric s of None \<Rightarrow> None | Some fr \<Rightarrow> fr)"

definition sense_row_of :: "uuid \<Rightarrow> nat \<Rightarrow> word_sense \<Rightarrow> sense_cols row" where
  "sense_row_of p n sn = sense_row p n (frequency_of (sn_frequency sn)) sn"

definition group_cmds :: "uuid \<Rightarrow> save_input \<Rightarrow> string row list" where
  "group_cmds i inp = siblings group_row i (si_groups inp)"

definition pos_cmds :: "uuid \<Rightarrow> save_input \<Rightarrow> string row list" where
  "pos_cmds i inp = siblings pos_row i (si_pos inp)"

definition form_cmds :: "save_input \<Rightarrow> form_cols row list" where
  "form_cmds inp = blocks form_row po_id po_forms (si_pos inp)"

definition pron_cmds :: "save_input \<Rightarrow> pron_cols row list" where
  "pron_cmds inp = blocks pron_row fm_id fm_prons (all_forms inp)"

definition struct_cmds :: "save_input \<Rightarrow> unit row list" where
  "struct_cmds inp = blocks struct_row po_id po_structures (si_pos inp)"

definition variant_cmds :: "save_input \<Rightarrow> variant_cols row list" where
  "variant_cmds inp = blocks variant_row gs_id gs_variants (all_structures inp)"

definition sense_cmds :: "save_input \<Rightarrow> sense_cols row list" where
  "sense_cmds inp = blocks sense_row_of po_id po_senses (si_pos inp)"

definition def_cmds :: "save_input \<Rightarrow> def_cols row list" where
  "def_cmds inp = blocks def_row sn_id sn_definitions (all_senses inp)"

definition sent_cmds :: "save_input \<Rightarrow> sent_cols row list" where
  "sent_cmds inp = blocks sent_row sn_id sn_sentences (all_senses inp)"

lemmas row_defs = mk_row_def group_row_def pos_row_def form_row_def pron_row_def struct_row_def variant_row_def
  sense_row_of_def sense_row_def def_row_def sent_row_def

lemma makes_rows [simp]:
  "makes_rows group_row sg_id" "makes_rows pos_row po_id" "makes_rows form_row fm_id" "makes_rows pron_row pr_id"
  "makes_rows struct_row gs_id" "makes_rows variant_row gv_id" "makes_rows sense_row_of sn_id"
  "makes_rows def_row df_id" "makes_rows sent_row st_id"
  by (simp_all add: makes_rows_def row_defs)

text \<open>A node's row in its table.\<close>

fun node_group where "node_group (Group p n g) = [group_row p n g]" | "node_group _ = []"
fun node_pos where "node_pos (Pos p n po) = [pos_row p n po]" | "node_pos _ = []"
fun node_form where "node_form (Form p n f) = [form_row p n f]" | "node_form _ = []"
fun node_pron where "node_pron (Pron p n pr) = [pron_row p n pr]" | "node_pron _ = []"
fun node_struct where "node_struct (Struct p n g) = [struct_row p n g]" | "node_struct _ = []"
fun node_variant where "node_variant (Variant p n v) = [variant_row p n v]" | "node_variant _ = []"
fun node_sense where "node_sense (Sense p n sn) = [sense_row_of p n sn]" | "node_sense _ = []"
fun node_def where "node_def (Defn p n d) = [def_row p n d]" | "node_def _ = []"
fun node_sent where "node_sent (Sent p n t) = [sent_row p n t]" | "node_sent _ = []"

abbreviation (input) rows_in :: "(node \<Rightarrow> 'a row list) \<Rightarrow> node list \<Rightarrow> 'a row list" where
  "rows_in sel ns \<equiv> concat (map sel ns)"

lemma rows_in_concat: "rows_in sel (concat nss) = concat (map (rows_in sel) nss)"
  by (induction nss) simp_all

lemma concat_pairs [simp]:
  "concat (map (\<lambda>(n, x). []) xs) = []" "concat (map (\<lambda>(n, x). [f n x]) xs) = map (\<lambda>(n, x). f n x) xs"
  "concat (map (\<lambda>z. [g z]) zs) = map g zs" "concat (map (\<lambda>z. []) zs) = []"
  by (induction xs) auto

lemma concat_numbered: "concat (map (\<lambda>nx. f (snd nx)) (enumerate k xs)) = concat (map f xs)"
  by (induction xs arbitrary: k) (simp_all add: enumerate_simps)

lemma rows_of_forms:
  "rows_in node_form (concat (map (form_nodes p) (enumerate 0 fs))) = siblings form_row p fs"
  "rows_in node_pron (concat (map (form_nodes p) (enumerate 0 fs))) = blocks pron_row fm_id fm_prons fs"
  by (simp_all add: rows_in_concat form_nodes_def o_def split_def siblings_def blocks_def
      concat_numbered [of "\<lambda>f. map (\<lambda>z. pron_row (fm_id f) (fst z) (snd z)) (enumerate 0 (fm_prons f))"])

lemma rows_of_structures:
  "rows_in node_struct (concat (map (structure_nodes p) (enumerate 0 gs))) = siblings struct_row p gs"
  "rows_in node_variant (concat (map (structure_nodes p) (enumerate 0 gs))) = blocks variant_row gs_id gs_variants gs"
  by (simp_all add: rows_in_concat structure_nodes_def o_def split_def siblings_def blocks_def
      concat_numbered [of "\<lambda>g. map (\<lambda>z. variant_row (gs_id g) (fst z) (snd z)) (enumerate 0 (gs_variants g))"])

lemma rows_of_senses:
  "rows_in node_sense (concat (map (sense_nodes p) (enumerate 0 sns))) = siblings sense_row_of p sns"
  "rows_in node_def (concat (map (sense_nodes p) (enumerate 0 sns))) = blocks def_row sn_id sn_definitions sns"
  "rows_in node_sent (concat (map (sense_nodes p) (enumerate 0 sns))) = blocks sent_row sn_id sn_sentences sns"
  by (simp_all add: rows_in_concat sense_nodes_def o_def split_def siblings_def blocks_def
      concat_numbered [of "\<lambda>sn. map (\<lambda>z. def_row (sn_id sn) (fst z) (snd z)) (enumerate 0 (sn_definitions sn))"]
      concat_numbered [of "\<lambda>sn. map (\<lambda>z. sent_row (sn_id sn) (fst z) (snd z)) (enumerate 0 (sn_sentences sn))"])

lemma no_rows:
  assumes "\<And>n. n \<in> set ns \<Longrightarrow> sel n = []"
  shows "rows_in sel ns = []"
  using assms by simp

lemma form_nodes_kind: "n \<in> set (concat (map (form_nodes p) (enumerate 0 fs))) \<Longrightarrow> \<exists>q k x y. n = Form q k x \<or> n = Pron q k y"
  by (auto simp: form_nodes_def)

lemma structure_nodes_kind:
  "n \<in> set (concat (map (structure_nodes p) (enumerate 0 gs))) \<Longrightarrow> \<exists>q k x y. n = Struct q k x \<or> n = Variant q k y"
  by (auto simp: structure_nodes_def)

lemma sense_nodes_kind:
  "n \<in> set (concat (map (sense_nodes p) (enumerate 0 sns))) \<Longrightarrow>
    \<exists>q k x y z. n = Sense q k x \<or> n = Defn q k y \<or> n = Sent q k z"
  by (auto simp: sense_nodes_def)

lemma no_form_rows [simp]:
  assumes "\<And>q k x. sel (Form q k x) = []" and "\<And>q k x. sel (Pron q k x) = []"
  shows "rows_in sel (concat (map (form_nodes p) (enumerate 0 fs))) = []"
  by (rule no_rows) (use form_nodes_kind assms in blast)

lemma no_structure_rows [simp]:
  assumes "\<And>q k x. sel (Struct q k x) = []" and "\<And>q k x. sel (Variant q k x) = []"
  shows "rows_in sel (concat (map (structure_nodes p) (enumerate 0 gs))) = []"
  by (rule no_rows) (use structure_nodes_kind assms in blast)

lemma no_sense_rows [simp]:
  assumes "\<And>q k x. sel (Sense q k x) = []" and "\<And>q k x. sel (Defn q k x) = []" and "\<And>q k x. sel (Sent q k x) = []"
  shows "rows_in sel (concat (map (sense_nodes p) (enumerate 0 sns))) = []"
  by (rule no_rows) (use sense_nodes_kind assms in blast)

lemma rows_of_pos:
  "rows_in sel (pos_nodes po) = rows_in sel (concat (map (form_nodes (po_id po)) (enumerate 0 (po_forms po)))) @
     rows_in sel (concat (map (structure_nodes (po_id po)) (enumerate 0 (po_structures po)))) @
     rows_in sel (concat (map (sense_nodes (po_id po)) (enumerate 0 (po_senses po))))"
  by (simp add: pos_nodes_def)

lemma rows_of_tree:
  "rows_in sel (tree_nodes i inp) = concat (map (\<lambda>(n, g). sel (Group i n g)) (enumerate 0 (si_groups inp))) @
     concat (map (\<lambda>(n, po). sel (Pos i n po)) (enumerate 0 (si_pos inp))) @
     concat (map (\<lambda>po. rows_in sel (pos_nodes po)) (si_pos inp))"
  by (simp add: tree_nodes_def rows_in_concat o_def split_def)

lemma blocks_concat: "blocks mk key kids (concat xss) = concat (map (blocks mk key kids) xss)"
  by (induction xss) (simp_all add: blocks_def)

lemma tree_cmds:
  "rows_in node_group (tree_nodes i inp) = group_cmds i inp" "rows_in node_pos (tree_nodes i inp) = pos_cmds i inp"
  "rows_in node_form (tree_nodes i inp) = form_cmds inp" "rows_in node_pron (tree_nodes i inp) = pron_cmds inp"
  "rows_in node_struct (tree_nodes i inp) = struct_cmds inp" "rows_in node_variant (tree_nodes i inp) = variant_cmds inp"
  "rows_in node_sense (tree_nodes i inp) = sense_cmds inp" "rows_in node_def (tree_nodes i inp) = def_cmds inp"
  "rows_in node_sent (tree_nodes i inp) = sent_cmds inp"
  unfolding rows_of_tree rows_of_pos
  by (simp_all add: rows_of_forms rows_of_structures rows_of_senses group_cmds_def pos_cmds_def form_cmds_def
      pron_cmds_def struct_cmds_def variant_cmds_def sense_cmds_def def_cmds_def sent_cmds_def siblings_def
      blocks_concat all_forms_def all_structures_def all_senses_def o_def)
    (simp_all add: blocks_def siblings_def)

subsection \<open>Their execution\<close>

definition effects :: "(tbl \<Rightarrow> uuid list) \<Rightarrow> node list \<Rightarrow> word_db \<Rightarrow> word_db \<Rightarrow> bool" where
  "effects ex ns d d' \<longleftrightarrow>
     upserts (set (ex T_groups)) keep_parent (rows_in node_group ns) (w_groups d) = Some (w_groups d') \<and>
     upserts (set (ex T_pos)) keep_parent (rows_in node_pos ns) (w_pos d) = Some (w_pos d') \<and>
     upserts (set (ex T_forms)) keep_nothing (rows_in node_form ns) (w_forms d) = Some (w_forms d') \<and>
     upserts (set (ex T_prons)) keep_pron_audio (rows_in node_pron ns) (w_prons d) = Some (w_prons d') \<and>
     upserts (set (ex T_structs)) keep_nothing (rows_in node_struct ns) (w_structs d) = Some (w_structs d') \<and>
     upserts (set (ex T_variants)) keep_variant_audio (rows_in node_variant ns) (w_variants d) = Some (w_variants d') \<and>
     upserts (set (ex T_senses)) keep_nothing (rows_in node_sense ns) (w_senses d) = Some (w_senses d') \<and>
     upserts (set (ex T_defs)) keep_def_audio (rows_in node_def ns) (w_defs d) = Some (w_defs d') \<and>
     upserts (set (ex T_sents)) keep_sent_audio (rows_in node_sent ns) (w_sents d) = Some (w_sents d') \<and>
     w_rels d' = w_rels d \<and> w_words d' = w_words d \<and> w_admins d' = w_admins d"

lemma effects_Nil [simp]: "effects ex [] d d"
  by (simp add: effects_def)

lemma effects_append: "effects ex ms d d1 \<Longrightarrow> effects ex ns d1 d' \<Longrightarrow> effects ex (ms @ ns) d d'"
  by (simp add: effects_def upserts_append)

lemma tb_get_sels:
  "tb_get group_tb = w_groups" "tb_get pos_tb = w_pos" "tb_get form_tb = w_forms" "tb_get pron_tb = w_prons"
  "tb_get struct_tb = w_structs" "tb_get variant_tb = w_variants" "tb_get sense_tb = w_senses"
  "tb_get def_tb = w_defs" "tb_get sent_tb = w_sents" "tb_get rel_tb = w_rels"
  by (simp_all add: table_defs)

lemma tb_put_sels:
  "tb_put group_tb = (\<lambda>xs d. d\<lparr>w_groups := xs\<rparr>)" "tb_put pos_tb = (\<lambda>xs d. d\<lparr>w_pos := xs\<rparr>)"
  "tb_put form_tb = (\<lambda>xs d. d\<lparr>w_forms := xs\<rparr>)" "tb_put pron_tb = (\<lambda>xs d. d\<lparr>w_prons := xs\<rparr>)"
  "tb_put struct_tb = (\<lambda>xs d. d\<lparr>w_structs := xs\<rparr>)" "tb_put variant_tb = (\<lambda>xs d. d\<lparr>w_variants := xs\<rparr>)"
  "tb_put sense_tb = (\<lambda>xs d. d\<lparr>w_senses := xs\<rparr>)" "tb_put def_tb = (\<lambda>xs d. d\<lparr>w_defs := xs\<rparr>)"
  "tb_put sent_tb = (\<lambda>xs d. d\<lparr>w_sents := xs\<rparr>)" "tb_put rel_tb = (\<lambda>xs d. d\<lparr>w_rels := xs\<rparr>)"
  by (simp_all add: table_defs)

lemma sense_save:
  "save_node ex (Sense p n sn) w = (Inr u, w1) \<Longrightarrow>
    upsert (ex T_senses) sense_tb keep_nothing (sense_row_of p n sn) w = (Inr u, w1)"
  by (auto simp: sense_row_of_def frequency_of_def wstmt_Inr split: option.splits)

lemma save_node_effect:
  assumes "save_node ex n w = (Inr u, w1)"
  shows "effects ex [n] (tables w) (tables w1) \<and> pg_now w1 = pg_now w"
proof (cases n)
  case (Group p k g)
  then have "upsert (ex T_groups) group_tb keep_parent (group_row p k g) w = (Inr u, w1)" using assms by (simp add: group_row_def)
  from groups.upsert_Inr [OF this] Group show ?thesis
    by (auto simp: effects_def tb_get_sels tb_put_sels simp del: upserts.simps(2))
next
  case (Pos p k po)
  then have "upsert (ex T_pos) pos_tb keep_parent (pos_row p k po) w = (Inr u, w1)" using assms by (simp add: pos_row_def)
  from poss.upsert_Inr [OF this] Pos show ?thesis
    by (auto simp: effects_def tb_get_sels tb_put_sels simp del: upserts.simps(2))
next
  case (Form p k f)
  then have "upsert (ex T_forms) form_tb keep_nothing (form_row p k f) w = (Inr u, w1)" using assms by simp
  from forms.upsert_Inr [OF this] Form show ?thesis
    by (auto simp: effects_def tb_get_sels tb_put_sels simp del: upserts.simps(2))
next
  case (Pron p k pr)
  then have "upsert (ex T_prons) pron_tb keep_pron_audio (pron_row p k pr) w = (Inr u, w1)" using assms by simp
  from prons.upsert_Inr [OF this] Pron show ?thesis
    by (auto simp: effects_def tb_get_sels tb_put_sels simp del: upserts.simps(2))
next
  case (Struct p k g)
  then have "upsert (ex T_structs) struct_tb keep_nothing (struct_row p k g) w = (Inr u, w1)" using assms by (simp add: struct_row_def)
  from structs.upsert_Inr [OF this] Struct show ?thesis
    by (auto simp: effects_def tb_get_sels tb_put_sels simp del: upserts.simps(2))
next
  case (Variant p k v)
  then have "upsert (ex T_variants) variant_tb keep_variant_audio (variant_row p k v) w = (Inr u, w1)" using assms by simp
  from variants.upsert_Inr [OF this] Variant show ?thesis
    by (auto simp: effects_def tb_get_sels tb_put_sels simp del: upserts.simps(2))
next
  case (Sense p k sn)
  then have "upsert (ex T_senses) sense_tb keep_nothing (sense_row_of p k sn) w = (Inr u, w1)" using assms sense_save by (simp del: save_node.simps)
  from senses.upsert_Inr [OF this] Sense show ?thesis
    by (auto simp: effects_def tb_get_sels tb_put_sels simp del: upserts.simps(2))
next
  case (Defn p k x)
  then have "upsert (ex T_defs) def_tb keep_def_audio (def_row p k x) w = (Inr u, w1)" using assms by simp
  from defs.upsert_Inr [OF this] Defn show ?thesis
    by (auto simp: effects_def tb_get_sels tb_put_sels simp del: upserts.simps(2))
next
  case (Sent p k t)
  then have "upsert (ex T_sents) sent_tb keep_sent_audio (sent_row p k t) w = (Inr u, w1)" using assms by simp
  from sents.upsert_Inr [OF this] Sent show ?thesis
    by (auto simp: effects_def tb_get_sels tb_put_sels simp del: upserts.simps(2))
qed

lemma wfold_keeps:
  assumes "\<And>n w u w1. n \<in> set ns \<Longrightarrow> f n w = (Inr u, w1) \<Longrightarrow> P w \<Longrightarrow> P w1"
    and "wfold f ns w = (Inr u, w1)" and "P w"
  shows "P w1"
  using assms
proof (induction ns arbitrary: w)
  case (Cons n ns)
  then obtain w2 where "f n w = (Inr (), w2)" "wfold f ns w2 = (Inr u, w1)" by (auto simp: wbind_Inr)
  with Cons show ?case by (metis list.set_intros)
qed simp

lemma wfold_effects:
  "wfold (save_node ex) ns w = (Inr u, w1) \<Longrightarrow> effects ex ns (tables w) (tables w1) \<and> pg_now w1 = pg_now w"
proof (induction ns arbitrary: w)
  case (Cons n ns)
  then obtain w2 where n: "save_node ex n w = (Inr (), w2)" and ns: "wfold (save_node ex) ns w2 = (Inr u, w1)"
    by (auto simp: wbind_Inr)
  then show ?case
    using effects_append [of ex "[n]" "tables w" "tables w2" ns] save_node_effect [OF n] Cons.IH [OF ns] by simp
qed simp

lemma save_node_ok:
  assumes "save_node ex n w = (Inr u, w1)" and "db_ok (tables w)"
  shows "db_ok (tables w1)"
  using assms(1)
  by (cases n)
    (simp_all del: save_node.simps(7) add: groups.upsert_ok [OF _ assms(2)] poss.upsert_ok [OF _ assms(2)]
      forms.upsert_ok [OF _ assms(2)] prons.upsert_ok [OF _ assms(2)] structs.upsert_ok [OF _ assms(2)]
      variants.upsert_ok [OF _ assms(2)] senses.upsert_ok [OF sense_save assms(2)]
      defs.upsert_ok [OF _ assms(2)] sents.upsert_ok [OF _ assms(2)])

text \<open>The whole pass.\<close>

lemma save_nodes:
  assumes "wfold (save_node ex) (tree_nodes i inp) w = (Inr u, w1)"
  defines "d \<equiv> tables w" and "d' \<equiv> tables w1"
  shows "upserts (set (ex T_groups)) keep_parent (group_cmds i inp) (w_groups d) = Some (w_groups d')"
    and "upserts (set (ex T_pos)) keep_parent (pos_cmds i inp) (w_pos d) = Some (w_pos d')"
    and "upserts (set (ex T_forms)) keep_nothing (form_cmds inp) (w_forms d) = Some (w_forms d')"
    and "upserts (set (ex T_prons)) keep_pron_audio (pron_cmds inp) (w_prons d) = Some (w_prons d')"
    and "upserts (set (ex T_structs)) keep_nothing (struct_cmds inp) (w_structs d) = Some (w_structs d')"
    and "upserts (set (ex T_variants)) keep_variant_audio (variant_cmds inp) (w_variants d) = Some (w_variants d')"
    and "upserts (set (ex T_senses)) keep_nothing (sense_cmds inp) (w_senses d) = Some (w_senses d')"
    and "upserts (set (ex T_defs)) keep_def_audio (def_cmds inp) (w_defs d) = Some (w_defs d')"
    and "upserts (set (ex T_sents)) keep_sent_audio (sent_cmds inp) (w_sents d) = Some (w_sents d')"
    and "w_rels d' = w_rels d" and "w_words d' = w_words d" and "w_admins d' = w_admins d"
  unfolding d_def d'_def tree_cmds [of i inp, symmetric]
  using wfold_effects [OF assms(1), unfolded effects_def] by blast+

lemma save_nodes_now: "wfold (save_node ex) ns w = (Inr u, w1) \<Longrightarrow> pg_now w1 = pg_now w"
  using wfold_effects by blast

lemma save_nodes_ok:
  assumes "wfold (save_node ex) ns w = (Inr u, w1)" and "db_ok (tables w)"
  shows "db_ok (tables w1)"
  using wfold_keeps [OF _ assms(1), of "\<lambda>w. db_ok (tables w)"] save_node_ok assms(2) by blast

end
