(* ===== verification/WordSave.thy ===== *)
theory WordSave
  imports WordNodes
begin

text \<open>
  The phases of the tree save and their effect together. The deletes are one \<open>prune\<close> of rows
  under the word; the nodes are \<open>upserts\<close> on what is left; the relations, resolved against the
  saved nodes, are \<open>upserts\<close> as well.
\<close>

subsection \<open>The deletes\<close>

lemma kill_mono: "kill T S (prune D d) U \<subseteq> kill T S d U"
  by (cases T) (auto simp del: alive_simps split: tbl.split
      elim!: subsetD [OF below_sub, rotated -1] intro!: below_sub alive_subset below_alive)

lemma below_Un_alive: "below A rows \<subseteq> A' \<Longrightarrow> below B (alive A' rows) \<subseteq> B' \<Longrightarrow> below (A \<union> B) rows \<subseteq> A' \<union> B'"
  by (auto simp: below_def)

lemma closed_Un: "closed D d \<Longrightarrow> closed E (prune D d) \<Longrightarrow> closed (\<lambda>T. D T \<union> E T) d"
  unfolding closed_def prune_sel below_on_data by (elim conjE) (intro conjI below_Un_alive)

definition deleted :: "uuid \<Rightarrow> save_input \<Rightarrow> tbl list \<Rightarrow> (tbl \<Rightarrow> uuid set) \<Rightarrow> word_db \<Rightarrow> bool" where
  "deleted i inp Ts D d \<longleftrightarrow> closed D d \<and> (\<forall>T. D T \<subseteq> set (scope T i d)) \<and>
     (\<forall>T \<in> set Ts. set (scope T i d) - set (incoming inp T) \<subseteq> D T)"

lemma delete_gone_step:
  assumes "delete_gone ex inp T w = (Inr u, w1)" and "ex = (\<lambda>T. scope T i d)" and "keys_ok d"
    and "tables w = prune D d" and "deleted i inp Ts D d"
  shows "\<exists>D1. tables w1 = prune D1 d \<and> deleted i inp (T # Ts) D1 d"
proof -
  let ?gone = "filter (\<lambda>j. j \<notin> set (incoming inp T)) (ex T)"
  let ?K = "kill T (set ?gone) (prune D d)"
  have "tables w1 = delete_rows T ?gone (prune D d)"
  proof (cases "?gone = []")
    case True
    have "kill T {} d' U = {}" for d' U by (cases T) (simp_all split: tbl.split)
    then have "delete_rows T [] (prune D d) = prune D d"
      using delete_rows_prune [OF keys_prune [OF assms(3)], of T "[]"] by (simp add: prune_empty)
    with True assms(1,4) show ?thesis by (simp add: delete_gone_def)
  next
    case False
    with assms(1,4) show ?thesis by (auto simp: delete_gone_def Let_def wstmt_Inr simp del: delete_rows.simps)
  qed
  then have t: "tables w1 = prune (\<lambda>U. D U \<union> ?K U) d"
    by (simp only: delete_rows_prune [OF keys_prune [OF assms(3)]] prune_prune)
  have "?K U \<subseteq> set (scope U i d)" for U
    by (rule order_trans [OF kill_mono], rule kill_scope) (use assms(2) in auto)
  moreover have "closed (\<lambda>U. D U \<union> ?K U) d"
    using assms(5) kill_closed by (intro closed_Un) (simp_all only: deleted_def)
  moreover have "set (scope T i d) - set (incoming inp T) \<subseteq> ?K T"
    unfolding kill_self using assms(2) by auto
  ultimately have "deleted i inp (T # Ts) (\<lambda>U. D U \<union> ?K U) d"
    using assms(5) by (auto simp: deleted_def simp del: kill.simps scope.simps)
  with t show ?thesis by blast
qed

lemma delete_gone_now: "delete_gone ex inp T w = (Inr u, w1) \<Longrightarrow> pg_now w1 = pg_now w"
  by (auto simp: delete_gone_def Let_def wstmt_Inr split: if_splits)

lemma delete_all:
  assumes "wfold (delete_gone ex inp) Ts w = (Inr u, w1)" and "ex = (\<lambda>T. scope T i d)" and "keys_ok d"
    and "tables w = prune D d" and "deleted i inp Us D d"
  shows "\<exists>D1. tables w1 = prune D1 d \<and> deleted i inp (rev Ts @ Us) D1 d \<and> pg_now w1 = pg_now w"
  using assms(1,4,5)
proof (induction Ts arbitrary: w D Us)
  case (Cons T Ts)
  then obtain w2 where s: "delete_gone ex inp T w = (Inr (), w2)" and r: "wfold (delete_gone ex inp) Ts w2 = (Inr u, w1)"
    by (auto simp: wbind_Inr)
  from delete_gone_step [OF s assms(2,3) Cons.prems(2,3)]
  obtain D2 where "tables w2 = prune D2 d" "deleted i inp (T # Us) D2 d" by blast
  from Cons.IH [OF r this] show ?case using delete_gone_now [OF s] by simp
qed auto

lemma deleted_Nil: "deleted i inp [] (\<lambda>_. {}) d"
  by (simp add: deleted_def closed_def)

lemma deleteOrder_all: "set deleteOrder = UNIV"
proof -
  have "T \<in> set deleteOrder" for T by (cases T) (simp_all add: deleteOrder_def)
  then show ?thesis by blast
qed

lemma delete_phase:
  assumes "wfold (delete_gone (\<lambda>T. scope T i (tables w)) inp) deleteOrder w = (Inr u, w1)" and "keys_ok (tables w)"
  obtains D where "tables w1 = prune D (tables w)" and "closed D (tables w)"
    and "\<And>T. D T \<subseteq> set (scope T i (tables w))"
    and "\<And>T. set (scope T i (tables w)) - set (incoming inp T) \<subseteq> D T" and "pg_now w1 = pg_now w"
proof -
  from delete_all [OF assms(1) refl assms(2) prune_empty [symmetric] deleted_Nil]
  obtain D where "tables w1 = prune D (tables w)" "deleted i inp (rev deleteOrder @ []) D (tables w)" "pg_now w1 = pg_now w"
    by blast
  with that [of D] show ?thesis by (simp add: deleted_def deleteOrder_all)
qed

lemma load_scopes_Inr:
  "load_scopes i Ts w = (Inr ex, w1) \<Longrightarrow> tables w1 = tables w \<and> pg_now w1 = pg_now w \<and>
     (\<forall>T \<in> set Ts. ex T = scope T i (tables w))"
proof (induction Ts arbitrary: w ex w1)
  case (Cons T Ts)
  then obtain ex' w2 where q: "next_fate w = Runs" and r: "load_scopes i Ts (pop_fate w) = (Inr ex', w1)"
    and e: "ex = ex'(T := scope T i (tables w))"
    by (auto simp: wbind_Inr wquery_Inr simp del: scope.simps)
  from Cons.IH [OF r] e show ?case by (auto simp del: scope.simps)
qed simp

lemma tree_tables_all: "set tree_tables = UNIV"
proof -
  have "T \<in> set tree_tables" for T by (cases T) (simp_all add: tree_tables_def)
  then show ?thesis by blast
qed

subsection \<open>The relations\<close>

text \<open>The snapshots an id resolves to, the row a command writes, and what an update keeps.\<close>

definition headword_at :: "word_db \<Rightarrow> uuid \<Rightarrow> string" where
  "headword_at d i = (case headword_of i d of None \<Rightarrow> [] | Some h \<Rightarrow> h)"

definition snap_head :: "word_db \<Rightarrow> word_relation \<Rightarrow> string" where
  "snap_head d r = (case rl_word r of None \<Rightarrow> [] | Some i \<Rightarrow> headword_at d i)"

definition snap_gloss :: "word_db \<Rightarrow> word_relation \<Rightarrow> string" where
  "snap_gloss d r =
     (case rl_word r of None \<Rightarrow> [] | Some i \<Rightarrow> (case rl_sense r of None \<Rightarrow> [] | Some s \<Rightarrow> gloss_of s d))"

definition rel_mk :: "word_db \<Rightarrow> uuid \<Rightarrow> nat \<Rightarrow> word_relation \<Rightarrow> rel_cols row" where
  "rel_mk d p n r = rel_row p n r (snap_head d r) (snap_gloss d r)"

definition rel_merge :: "rel_cols row \<Rightarrow> rel_cols row \<Rightarrow> rel_cols row" where
  "rel_merge old r =
     (if rc_word (row_data r) = None then keep_target old r
      else if rc_sense (row_data r) = None then keep_gloss old r
      else r)"

definition resolved :: "word_db \<Rightarrow> word_relation \<Rightarrow> bool" where
  "resolved d r \<longleftrightarrow> (\<forall>i. rl_word r = Some i \<longrightarrow> i \<in> word_ids d \<and> (\<forall>s. rl_sense r = Some s \<longrightarrow> s \<in> set (scope T_senses i d)))"

definition rel_cmds :: "word_db \<Rightarrow> save_input \<Rightarrow> rel_cols row list" where
  "rel_cmds d inp = blocks (rel_mk d) sn_id sn_relations (all_senses inp)"

lemma makes_rel [simp]: "makes_rows (rel_mk d) rl_id"
  by (simp add: makes_rows_def rel_mk_def rel_row_def mk_row_def)

lemma keeps_rel [simp]: "keeps_id rel_merge"
  by (simp add: keeps_id_def rel_merge_def keep_target_def keep_gloss_def)

lemma tree_relationsI:
  assumes "(n, r) \<in> set (enumerate 0 (sn_relations sn))" and "po \<in> set (si_pos inp)" and "sn \<in> set (po_senses po)"
  shows "(sn_id sn, n, r) \<in> set (tree_relations inp)"
  using assms by (auto simp: tree_relations_def intro!: bexI [of _ po] bexI [of _ sn])

lemma concat_concat: "concat (concat xss) = concat (map concat xss)"
  by (induction xss) simp_all

lemma rel_cmds_tree: "map (\<lambda>(p, n, r). rel_mk d p n r) (tree_relations inp) = rel_cmds d inp"
  by (simp add: tree_relations_def rel_cmds_def blocks_def siblings_def all_senses_def map_concat concat_concat o_def split_def)

lemma headword_of_Some: "headword_of i d = Some h \<Longrightarrow> i \<in> word_ids d"
  by (auto simp: headword_of_def dest: find_word_id)

lemma resolveTarget_Inr:
  assumes "resolveTarget wd sn w = (Inr (h, g), w1)"
  obtains i where "wd = Some i" and "headword_of i (tables w) = Some h" and "w1 = pop_fate w"
    and "\<And>s. sn = Some s \<Longrightarrow> s \<in> set (scope T_senses i (tables w)) \<and> g = gloss_of s (tables w)"
  using assms
  by (auto simp: resolveTarget_def wquery_Inr simp del: scope.simps split: option.splits if_splits)

lemma upserts_cong1:
  "(\<And>q. m q c = m' q c) \<Longrightarrow> upserts E m [c] rows = upserts E m' [c] rows"
  by simp

lemma rel_upsert:
  assumes "upsert (known) rel_tb m c w2 = (Inr u, w1)" and "c = rel_mk (tables w) p n r"
    and "\<And>q. m q (rel_mk (tables w) p n r) = rel_merge q (rel_mk (tables w) p n r)"
    and "tables w2 = tables w" and "pg_now w2 = pg_now w"
  shows "(\<exists>rows. upserts (set (known)) rel_merge [rel_mk (tables w) p n r] (w_rels (tables w)) = Some rows \<and>
    tables w1 = (tables w)\<lparr>w_rels := rows\<rparr>) \<and> pg_now w1 = pg_now w"
  using rels.upsert_Inr [OF assms(1)] upserts_cong1 [of m c rel_merge] assms(3)
  unfolding assms(2,4,5) tb_get_sels tb_put_sels by metis

lemma save_relation_effect:
  assumes "save_relation ex (p, n, r) w = (Inr u, w1)"
  shows "\<exists>rows. upserts (set (ex T_rels)) rel_merge [rel_mk (tables w) p n r] (w_rels (tables w)) = Some rows \<and>
    tables w1 = (tables w)\<lparr>w_rels := rows\<rparr>" and "resolved (tables w) r" and "pg_now w1 = pg_now w"
proof -
  let ?d = "tables w" let ?c = "rel_mk (tables w) p n r"
  have "((\<exists>rows. upserts (set (ex T_rels)) rel_merge [?c] (w_rels ?d) = Some rows \<and>
      tables w1 = ?d\<lparr>w_rels := rows\<rparr>) \<and> pg_now w1 = pg_now w) \<and> resolved ?d r"
  proof (cases "rl_word r")
    case None
    then have "upsert (ex T_rels) rel_tb keep_target (rel_row p n r [] []) w = (Inr u, w1)"
      using assms by (auto simp: save_relation_def split: if_splits)
    from rel_upsert [OF this, of w p n r] None show ?thesis
      by (simp add: rel_mk_def snap_head_def snap_gloss_def rel_merge_def rel_row_def mk_row_def resolved_def)
  next
    case (Some i)
    note wd = Some
    show ?thesis
    proof (cases "rl_sense r")
      case None
      then obtain h g w2 where t: "resolveTarget (Some i) None w = (Inr (h, g), w2)"
        and u: "upsert (ex T_rels) rel_tb keep_gloss (rel_row p n r h []) w2 = (Inr u, w1)"
        using assms wd by (auto simp: save_relation_def wbind_Inr)
      from t have h: "headword_of i ?d = Some h" and w2: "w2 = pop_fate w" by (auto elim: resolveTarget_Inr)
      from rel_upsert [OF u, of w p n r] None wd h w2 headword_of_Some [OF h] show ?thesis
        by (simp add: rel_mk_def snap_head_def snap_gloss_def headword_at_def rel_merge_def rel_row_def mk_row_def
            resolved_def)
    next
      case (Some s)
      then obtain h g w2 where t: "resolveTarget (Some i) (Some s) w = (Inr (h, g), w2)"
        and u: "upsert (ex T_rels) rel_tb keep_nothing (rel_row p n r h g) w2 = (Inr u, w1)"
        using assms wd by (auto simp: save_relation_def wbind_Inr)
      from t have h: "headword_of i ?d = Some h" and w2: "w2 = pop_fate w"
        and s: "s \<in> set (scope T_senses i ?d)" and g: "g = gloss_of s ?d"
        by (auto elim!: resolveTarget_Inr simp del: scope.simps)
      from rel_upsert [OF u, of w p n r] Some wd h g s w2 headword_of_Some [OF h] show ?thesis
        by (simp add: rel_mk_def snap_head_def snap_gloss_def headword_at_def rel_merge_def rel_row_def mk_row_def
            resolved_def keep_nothing_def del: scope.simps)
    qed
  qed
  then show "\<exists>rows. upserts (set (ex T_rels)) rel_merge [?c] (w_rels ?d) = Some rows \<and>
      tables w1 = ?d\<lparr>w_rels := rows\<rparr>" "resolved ?d r" "pg_now w1 = pg_now w" by blast+
qed

lemma keeps_id_target [simp]: "keeps_id keep_target" "keeps_id keep_gloss" "keeps_id keep_nothing"
  by simp_all

lemma save_relation_ok:
  assumes "save_relation ex x w = (Inr u, w1)" and "db_ok (tables w)"
  shows "db_ok (tables w1)"
proof -
  obtain p n r where x: "x = (p, n, r)" by (cases x) auto
  have ok: "db_ok (tables (pop_fate w))" using assms(2) by simp
  show ?thesis
    using assms(1) unfolding x
    by (auto simp: save_relation_def wbind_Inr elim!: resolveTarget_Inr split: option.splits if_splits
        dest!: rels.upsert_ok [OF _ assms(2)] rels.upsert_ok [OF _ ok])
qed

lemma rel_mk_put [simp]: "rel_mk (d\<lparr>w_rels := rows\<rparr>) = rel_mk d" "resolved (d\<lparr>w_rels := rows\<rparr>) = resolved d"
  by (auto simp: rel_mk_def snap_head_def snap_gloss_def headword_at_def headword_of_def find_word_def gloss_of_def
      resolved_def fun_eq_iff split: option.split)

lemma save_relations:
  "wfold (save_relation ex) xs w = (Inr u, w1) \<Longrightarrow>
    (\<exists>rows. upserts (set (ex T_rels)) rel_merge (map (\<lambda>(p, n, r). rel_mk (tables w) p n r) xs) (w_rels (tables w)) = Some rows \<and>
      tables w1 = (tables w)\<lparr>w_rels := rows\<rparr>) \<and> (\<forall>(p, n, r) \<in> set xs. resolved (tables w) r) \<and> pg_now w1 = pg_now w"
proof (induction xs arbitrary: w)
  case (Cons x xs)
  obtain p n r where x: "x = (p, n, r)" by (cases x) auto
  let ?cs = "map (\<lambda>(p, n, r). rel_mk (tables w) p n r) xs"
  from Cons.prems obtain w2 where s: "save_relation ex (p, n, r) w = (Inr (), w2)"
    and ss: "wfold (save_relation ex) xs w2 = (Inr u, w1)"
    unfolding x by (auto simp: wbind_Inr)
  from save_relation_effect(1) [OF s] obtain rows where r1:
    "upserts (set (ex T_rels)) rel_merge [rel_mk (tables w) p n r] (w_rels (tables w)) = Some rows"
    "tables w2 = (tables w)\<lparr>w_rels := rows\<rparr>" by blast
  have "(\<exists>rows'. upserts (set (ex T_rels)) rel_merge ?cs rows = Some rows' \<and> tables w1 = (tables w)\<lparr>w_rels := rows'\<rparr>) \<and>
      (\<forall>(p, n, r) \<in> set xs. resolved (tables w) r) \<and> pg_now w1 = pg_now w2"
    using Cons.IH [OF ss] unfolding r1(2) rel_mk_put by simp
  then obtain rows' where r2: "upserts (set (ex T_rels)) rel_merge ?cs rows = Some rows'"
    "tables w1 = (tables w)\<lparr>w_rels := rows'\<rparr>" "\<forall>(p, n, r) \<in> set xs. resolved (tables w) r" "pg_now w1 = pg_now w2"
    by blast
  have "upserts (set (ex T_rels)) rel_merge (rel_mk (tables w) p n r # ?cs) (w_rels (tables w)) = Some rows'"
    using upserts_append [of "set (ex T_rels)" rel_merge "[rel_mk (tables w) p n r]" ?cs "w_rels (tables w)"]
    unfolding r1(1) by (simp add: r2(1) del: upserts.simps)
  with r2 save_relation_effect(2,3) [OF s] show ?case
    unfolding x by (intro conjI exI [of _ rows']) simp_all
qed simp

subsection \<open>The transaction\<close>

definition saved_root :: "uuid \<Rightarrow> save_input \<Rightarrow> time \<Rightarrow> word_row \<Rightarrow> word_row" where
  "saved_root i inp now r = (if ww_id r = i then r\<lparr>ww_frequency := frequency_of (si_frequency inp),
     ww_mode := si_mode inp, ww_dialects := si_dialects inp, ww_updated_at := now\<rparr> else r)"

text \<open>All a successful save does, with the rows \<open>D\<close> its deletes took.\<close>

definition saved :: "uuid \<Rightarrow> save_input \<Rightarrow> time \<Rightarrow> (tbl \<Rightarrow> uuid set) \<Rightarrow> word_db \<Rightarrow> word_db \<Rightarrow> bool" where
  "saved i inp now D d d' \<longleftrightarrow>
     closed D d \<and> (\<forall>T. D T \<subseteq> set (scope T i d)) \<and> (\<forall>T. set (scope T i d) - set (incoming inp T) \<subseteq> D T) \<and>
     upserts (set (scope T_groups i d)) keep_parent (group_cmds i inp) (w_groups (prune D d)) = Some (w_groups d') \<and>
     upserts (set (scope T_pos i d)) keep_parent (pos_cmds i inp) (w_pos (prune D d)) = Some (w_pos d') \<and>
     upserts (set (scope T_forms i d)) keep_nothing (form_cmds inp) (w_forms (prune D d)) = Some (w_forms d') \<and>
     upserts (set (scope T_prons i d)) keep_pron_audio (pron_cmds inp) (w_prons (prune D d)) = Some (w_prons d') \<and>
     upserts (set (scope T_structs i d)) keep_nothing (struct_cmds inp) (w_structs (prune D d)) = Some (w_structs d') \<and>
     upserts (set (scope T_variants i d)) keep_variant_audio (variant_cmds inp) (w_variants (prune D d)) = Some (w_variants d') \<and>
     upserts (set (scope T_senses i d)) keep_nothing (sense_cmds inp) (w_senses (prune D d)) = Some (w_senses d') \<and>
     upserts (set (scope T_defs i d)) keep_def_audio (def_cmds inp) (w_defs (prune D d)) = Some (w_defs d') \<and>
     upserts (set (scope T_sents i d)) keep_sent_audio (sent_cmds inp) (w_sents (prune D d)) = Some (w_sents d') \<and>
     upserts (set (scope T_rels i d)) rel_merge (rel_cmds d' inp) (w_rels (prune D d)) = Some (w_rels d') \<and>
     (\<forall>sn \<in> set (all_senses inp). \<forall>r \<in> set (sn_relations sn). resolved d' r) \<and>
     w_words d' = map (saved_root i inp now) (w_words d) \<and> w_admins d' = w_admins d"

lemma scope_words [simp]: "scope T i (d\<lparr>w_words := ws\<rparr>) = scope T i d"
  by (cases T) simp_all

lemma prune_words: "prune D (d\<lparr>w_words := ws\<rparr>) = (prune D d)\<lparr>w_words := ws\<rparr>"
  by (simp add: prune_def)

lemma words_sel:
  "w_groups (d\<lparr>w_words := ws\<rparr>) = w_groups d" "w_pos (d\<lparr>w_words := ws\<rparr>) = w_pos d"
  "w_forms (d\<lparr>w_words := ws\<rparr>) = w_forms d" "w_prons (d\<lparr>w_words := ws\<rparr>) = w_prons d"
  "w_structs (d\<lparr>w_words := ws\<rparr>) = w_structs d" "w_variants (d\<lparr>w_words := ws\<rparr>) = w_variants d"
  "w_senses (d\<lparr>w_words := ws\<rparr>) = w_senses d" "w_defs (d\<lparr>w_words := ws\<rparr>) = w_defs d"
  "w_sents (d\<lparr>w_words := ws\<rparr>) = w_sents d" "w_rels (d\<lparr>w_words := ws\<rparr>) = w_rels d"
  "w_admins (d\<lparr>w_words := ws\<rparr>) = w_admins d" "w_words (d\<lparr>w_words := ws\<rparr>) = ws"
  by simp_all

lemma rels_sel:
  "w_groups (d\<lparr>w_rels := xs\<rparr>) = w_groups d" "w_pos (d\<lparr>w_rels := xs\<rparr>) = w_pos d"
  "w_forms (d\<lparr>w_rels := xs\<rparr>) = w_forms d" "w_prons (d\<lparr>w_rels := xs\<rparr>) = w_prons d"
  "w_structs (d\<lparr>w_rels := xs\<rparr>) = w_structs d" "w_variants (d\<lparr>w_rels := xs\<rparr>) = w_variants d"
  "w_senses (d\<lparr>w_rels := xs\<rparr>) = w_senses d" "w_defs (d\<lparr>w_rels := xs\<rparr>) = w_defs d"
  "w_sents (d\<lparr>w_rels := xs\<rparr>) = w_sents d" "w_rels (d\<lparr>w_rels := xs\<rparr>) = xs"
  "w_admins (d\<lparr>w_rels := xs\<rparr>) = w_admins d" "w_words (d\<lparr>w_rels := xs\<rparr>) = w_words d"
  by simp_all

lemma closed_words [simp]: "closed D (d\<lparr>w_words := ws\<rparr>) = closed D d"
  by (simp add: closed_def)

lemma saved_root_ids [simp]: "map ww_id (map (saved_root i inp now) ws) = map ww_id ws"
  by (simp add: saved_root_def)

lemma db_ok_words:
  assumes "db_ok d" and "map ww_id ws = map ww_id (w_words d)"
  shows "db_ok (d\<lparr>w_words := ws\<rparr>)"
proof -
  have "set (map ww_id ws) = word_ids d" by (simp only: assms(2))
  then show ?thesis using assms unfolding db_ok_rows keys_ok_def by (simp del: set_map)
qed

lemma root_update_Inr:
  assumes "sql_root_update i inp now d = Inr (n, d')"
  shows "d' = d\<lparr>w_words := map (saved_root i inp now) (w_words d)\<rparr>"
proof -
  obtain fr where fr: "nullable_numeric (si_frequency inp) = Some fr" and
    u: "sql_word_update (\<lambda>r. ww_id r = i) (\<lambda>r. r\<lparr>ww_frequency := fr, ww_mode := si_mode inp,
          ww_dialects := si_dialects inp, ww_updated_at := now\<rparr>) d = Inr (n, d')"
    using assms by (auto simp: sql_root_update_def split: option.splits)
  from u have "d' = d\<lparr>w_words := map (\<lambda>r. if ww_id r = i then r\<lparr>ww_frequency := fr, ww_mode := si_mode inp,
          ww_dialects := si_dialects inp, ww_updated_at := now\<rparr> else r) (w_words d)\<rparr>"
    unfolding sql_word_update_def by (simp split: if_splits)
  with fr show ?thesis by (simp add: saved_root_def [abs_def] frequency_of_def)
qed

lemma save_body_Inr:
  assumes "save_body i inp w = (Inr u, w')" and "db_ok (tables w)"
  shows "\<exists>D. saved i inp (pg_now w) D (tables w) (tables w')" and "db_ok (tables w')"
    and "\<exists>r. find_word i (tables w) = Some r \<and> ww_updated_at r = si_base inp" and "pg_now w' = pg_now w"
proof -
  let ?d = "tables w"
  let ?root = "?d\<lparr>w_words := map (saved_root i inp (pg_now w)) (w_words ?d)\<rparr>"
  obtain r n d0 ex w3 w4 w5 w6 where r: "find_word i ?d = Some r" "ww_updated_at r = si_base inp"
    and root: "sql_root_update i inp (pg_now w) ?d = Inr (n, d0)"
    and sc: "load_scopes i tree_tables ((pop_fate (pop_fate w))\<lparr>tables := d0\<rparr>) = (Inr ex, w3)"
    and del: "wfold (delete_gone ex inp) deleteOrder w3 = (Inr (), w4)"
    and nodes: "wfold (save_node ex) (tree_nodes i inp) w4 = (Inr (), w5)"
    and rl: "wfold (save_relation ex) (tree_relations inp) w5 = (Inr (), w6)"
    and dfr: "check_deferred w6 = (Inr u, w')"
    using assms(1) unfolding save_body_def
    by (auto simp: wbind_Inr wquery_Inr wstmt_Inr split: if_splits option.splits)
  from root have d0: "d0 = ?root" by (rule root_update_Inr)
  from load_scopes_Inr [OF sc] d0 have w3: "tables w3 = ?root" "pg_now w3 = pg_now w"
    and ex: "ex = (\<lambda>T. scope T i ?d)" by (auto simp: tree_tables_all fun_eq_iff simp del: scope.simps)
  have ok0: "db_ok ?root" using assms(2) by (rule db_ok_words) (rule saved_root_ids)
  have "ex = (\<lambda>T. scope T i (tables w3))" unfolding ex w3 by simp
  with del have "wfold (delete_gone (\<lambda>T. scope T i (tables w3)) inp) deleteOrder w3 = (Inr (), w4)" by (simp only:)
  then obtain D where D: "tables w4 = prune D ?root" "closed D ?d" "\<And>T. D T \<subseteq> set (scope T i ?d)"
    "\<And>T. set (scope T i ?d) - set (incoming inp T) \<subseteq> D T" and n4: "pg_now w4 = pg_now w"
    by (rule delete_phase) (use w3 db_ok_keys [OF ok0] in \<open>simp_all del: scope.simps\<close>)
  have ok4: "db_ok (tables w4)" unfolding D(1) using ok0 D(2) by (intro db_ok_prune) simp_all
  note N = save_nodes [OF nodes, unfolded ex D(1) prune_words words_sel]
  have ok5: "db_ok (tables w5)" by (rule save_nodes_ok [OF nodes ok4])
  from save_relations [OF rl] obtain rows where R:
    "upserts (set (ex T_rels)) rel_merge (rel_cmds (tables w5) inp) (w_rels (tables w5)) = Some rows"
    "tables w6 = (tables w5)\<lparr>w_rels := rows\<rparr>" "\<forall>(p, n, r) \<in> set (tree_relations inp). resolved (tables w5) r"
    "pg_now w6 = pg_now w5"
    unfolding rel_cmds_tree by blast
  have ok6: "db_ok (tables w6)"
    using wfold_keeps [OF _ rl, of "\<lambda>w. db_ok (tables w)"] save_relation_ok ok5 by blast
  have w': "w' = w6" using dfr by (auto simp: check_deferred_def split: option.splits)
  have cmds: "rel_cmds (tables w6) inp = rel_cmds (tables w5) inp" unfolding R(2) by (simp add: rel_cmds_def)
  have res: "\<forall>sn \<in> set (all_senses inp). \<forall>r \<in> set (sn_relations sn). resolved (tables w6) r"
  proof (intro ballI)
    fix sn r assume sn: "sn \<in> set (all_senses inp)" and r: "r \<in> set (sn_relations sn)"
    have "set (sn_relations sn) = snd ` set (enumerate 0 (sn_relations sn))"
      by (metis map_snd_enumerate list.set_map)
    with r obtain n where n: "(n, r) \<in> set (enumerate 0 (sn_relations sn))" by auto
    from sn obtain po where "po \<in> set (si_pos inp)" "sn \<in> set (po_senses po)" by (auto simp: all_senses_def)
    with n have "(sn_id sn, n, r) \<in> set (tree_relations inp)" by (rule tree_relationsI)
    with R(3) show "resolved (tables w6) r" unfolding R(2) by auto
  qed
  have "saved i inp (pg_now w) D ?d (tables w6)"
    unfolding saved_def cmds using res unfolding R(2) rels_sel
    by (intro conjI allI D(2-4) N(1-9) R(1) [unfolded ex N(10)]) (assumption, simp_all only: N(11,12) prune_sel)
  then show "\<exists>D. saved i inp (pg_now w) D ?d (tables w')" unfolding w' by blast
  show "db_ok (tables w')" unfolding w' by (rule ok6)
  show "\<exists>r. find_word i ?d = Some r \<and> ww_updated_at r = si_base inp" using r by blast
  show "pg_now w' = pg_now w" using R(4) save_nodes_now [OF nodes] n4 w' by simp
qed

lemma saveTree_Inr:
  assumes "word_saveTree i inp w = (Inr u, w')" and "db_ok (tables w)"
  shows "\<exists>D. saved i inp (pg_now w) D (tables w) (tables w')" and "db_ok (tables w')"
    and "\<exists>r. find_word i (tables w) = Some r \<and> ww_updated_at r = si_base inp" and "pg_now w' = pg_now w"
proof -
  obtain w1 where b: "save_body i inp (pop_fate w) = (Inr u, w1)" and w': "w' = pop_fate w1"
    using pg_tx_Inr [OF assms(1) [unfolded word_saveTree_def]] by blast
  have "db_ok (tables (pop_fate w))" using assms(2) by simp
  note B = save_body_Inr [OF b this]
  show "\<exists>D. saved i inp (pg_now w) D (tables w) (tables w')" "db_ok (tables w')"
    "\<exists>r. find_word i (tables w) = Some r \<and> ww_updated_at r = si_base inp" "pg_now w' = pg_now w"
    using B by (simp_all add: w')
qed

end
