(* ===== verification/WordSaved.thy ===== *)
theory WordSaved
  imports WordSave "HOL-Library.Sublist"
begin

text \<open>
  What a saved entry reads as. A save makes the word's entry its body, with the audio of the
  nodes that existed, the snapshots resolved and the targets of orphaned links frozen; the
  entries of other words only lose their links to senses the save dropped.
\<close>

subsection \<open>Ids of a body\<close>

lemma subseq_distinct: "subseq xs ys \<Longrightarrow> distinct ys \<Longrightarrow> distinct xs"
proof (induction rule: list_emb.induct)
  case (list_emb_Cons2 x y xs ys)
  then have "set xs \<subseteq> set ys" by (auto dest: list_emb_set)
  with list_emb_Cons2 show ?case by auto
qed simp_all

lemma subseq_concat_map: "(\<And>x. x \<in> set xs \<Longrightarrow> subseq (f x) (g x)) \<Longrightarrow> subseq (concat (map f xs)) (concat (map g xs))"
  by (induction xs) (auto intro: list_emb_append_mono)

lemma subseq_parts:
  "subseq xs ys \<Longrightarrow> subseq xs (zs @ ys)" "subseq xs ys \<Longrightarrow> subseq xs (ys @ zs)" "subseq xs ys \<Longrightarrow> subseq xs (z # ys)"
  by (auto intro: list_emb_append2 dest: subseq_order.trans)

lemma subseq_heads: "(\<And>x. x \<in> set xs \<Longrightarrow> \<exists>zs. g x = f x # zs) \<Longrightarrow> subseq (map f xs) (concat (map g xs))"
  by (induction xs) fastforce+

lemma subseq_tree: "(\<And>po. po \<in> set (si_pos inp) \<Longrightarrow> subseq (f po) (pos_ids po)) \<Longrightarrow> subseq (concat (map f (si_pos inp))) (tree_ids inp)"
  unfolding tree_ids_def by (intro subseq_parts(1) subseq_concat_map)

lemma incoming_subseq: "subseq (incoming inp T) (tree_ids inp)"
proof (cases T)
  case T_groups
  then show ?thesis by (simp add: tree_ids_def subseq_parts)
next
  case T_pos
  have "subseq (map po_id (si_pos inp)) (concat (map pos_ids (si_pos inp)))"
    by (rule subseq_heads) (simp add: pos_ids_def)
  with T_pos show ?thesis by (simp add: tree_ids_def subseq_parts(1))
next
  case T_forms
  have "subseq (map fm_id (po_forms po)) (pos_ids po)" for po
    unfolding pos_ids_def by (intro subseq_parts(3) subseq_parts(2) subseq_heads) (simp add: form_ids_def)
  with T_forms show ?thesis by (simp add: subseq_tree)
next
  case T_prons
  have "subseq (concat (map (\<lambda>f. map pr_id (fm_prons f)) (po_forms po))) (pos_ids po)" for po
    unfolding pos_ids_def by (intro subseq_parts(3) subseq_parts(2) subseq_concat_map) (simp add: form_ids_def subseq_parts)
  with T_prons show ?thesis by (simp add: subseq_tree)
next
  case T_structs
  have "subseq (map gs_id (po_structures po)) (pos_ids po)" for po
    unfolding pos_ids_def by (intro subseq_parts(3) subseq_parts(1) subseq_parts(2) subseq_heads) (simp add: structure_ids_def)
  with T_structs show ?thesis by (simp add: subseq_tree)
next
  case T_variants
  have "subseq (concat (map (\<lambda>g. map gv_id (gs_variants g)) (po_structures po))) (pos_ids po)" for po
    unfolding pos_ids_def
    by (intro subseq_parts(3) subseq_parts(1) subseq_parts(2) subseq_concat_map) (simp add: structure_ids_def subseq_parts)
  with T_variants show ?thesis by (simp add: subseq_tree)
next
  case T_senses
  have "subseq (map sn_id (po_senses po)) (pos_ids po)" for po
    unfolding pos_ids_def by (intro subseq_parts(3) subseq_parts(1) subseq_heads) (simp add: sense_ids_def)
  with T_senses show ?thesis by (simp add: subseq_tree)
next
  case T_defs
  have "subseq (concat (map (\<lambda>s. map df_id (sn_definitions s)) (po_senses po))) (pos_ids po)" for po
    unfolding pos_ids_def by (intro subseq_parts(3) subseq_parts(1) subseq_concat_map) (simp add: sense_ids_def subseq_parts)
  with T_defs show ?thesis by (simp add: subseq_tree)
next
  case T_sents
  have "subseq (concat (map (\<lambda>s. map st_id (sn_sentences s)) (po_senses po))) (pos_ids po)" for po
    unfolding pos_ids_def by (intro subseq_parts(3) subseq_parts(1) subseq_concat_map) (simp add: sense_ids_def subseq_parts)
  with T_sents show ?thesis by (simp add: subseq_tree)
next
  case T_rels
  have "subseq (concat (map (\<lambda>s. map rl_id (sn_relations s)) (po_senses po))) (pos_ids po)" for po
    unfolding pos_ids_def by (intro subseq_parts(3) subseq_parts(1) subseq_concat_map) (simp add: sense_ids_def subseq_parts)
  with T_rels show ?thesis by (simp add: subseq_tree)
qed

lemma incoming_distinct: "distinct (tree_ids inp) \<Longrightarrow> distinct (incoming inp T)"
  using incoming_subseq subseq_distinct by blast

lemma cmd_ids:
  "map row_id (group_cmds i inp) = incoming inp T_groups" "map row_id (pos_cmds i inp) = incoming inp T_pos"
  "map row_id (form_cmds inp) = incoming inp T_forms" "map row_id (pron_cmds inp) = incoming inp T_prons"
  "map row_id (struct_cmds inp) = incoming inp T_structs" "map row_id (variant_cmds inp) = incoming inp T_variants"
  "map row_id (sense_cmds inp) = incoming inp T_senses" "map row_id (def_cmds inp) = incoming inp T_defs"
  "map row_id (sent_cmds inp) = incoming inp T_sents" "map row_id (rel_cmds d inp) = incoming inp T_rels"
  by (simp_all add: group_cmds_def pos_cmds_def form_cmds_def pron_cmds_def struct_cmds_def variant_cmds_def
      sense_cmds_def def_cmds_def sent_cmds_def rel_cmds_def siblings_ids [OF makes_rows(1)] siblings_ids [OF makes_rows(2)]
      blocks_ids [OF makes_rows(3)] blocks_ids [OF makes_rows(4)] blocks_ids [OF makes_rows(5)] blocks_ids [OF makes_rows(6)]
      blocks_ids [OF makes_rows(7)] blocks_ids [OF makes_rows(8)] blocks_ids [OF makes_rows(9)] blocks_ids [OF makes_rel]
      all_forms_def all_structures_def all_senses_def map_concat concat_concat o_def)

subsection \<open>Children after the save\<close>

text \<open>
  One table of the tree: its rows after the deletes and those of its parent table, the ids
  under the word in both, and the commands.
\<close>

definition level :: "uuid set \<Rightarrow> uuid set \<Rightarrow> uuid set \<Rightarrow> 'a row list \<Rightarrow> 'a row list \<Rightarrow> bool" where
  "level E Ep P rows cs \<longleftrightarrow> distinct (map row_id rows) \<and> distinct (map row_id cs) \<and>
     (\<forall>r \<in> set rows. row_parent r \<in> P \<and> (row_id r \<in> E \<longleftrightarrow> row_parent r \<in> Ep) \<and> (row_id r \<in> E \<longrightarrow> row_id r \<in> ids_of cs))"

lemma levelD:
  assumes "level E Ep P rows cs" and "r \<in> set rows"
  shows "row_parent r \<in> P" and "row_id r \<in> E \<longleftrightarrow> row_parent r \<in> Ep" and "row_id r \<in> E \<Longrightarrow> row_id r \<in> ids_of cs"
  using assms by (simp_all add: level_def)

lemma upserts_known:
  assumes "upserts E m cs rows = Some rows'" and "keeps_id m" and "distinct (map row_id cs)" and "i \<in> ids_of cs"
  shows "i \<in> E \<longleftrightarrow> i \<in> ids_of rows"
proof -
  from assms(4) obtain c where "c \<in> set cs" "i = row_id c" by (auto simp: ids_of_def)
  with upserts_Some(2) [OF assms(1-3)] show ?thesis by blast
qed

definition keeps_parent :: "('a row \<Rightarrow> 'a row \<Rightarrow> 'a row) \<Rightarrow> bool" where
  "keeps_parent m \<longleftrightarrow> (\<forall>q c. row_parent (m q c) = row_parent c)"

lemma keeps_parent_merges [simp]:
  "keeps_parent keep_nothing" "keeps_parent keep_pron_audio" "keeps_parent keep_variant_audio"
  "keeps_parent keep_def_audio" "keeps_parent keep_sent_audio" "keeps_parent rel_merge"
  by (simp_all add: keeps_parent_def keep_nothing_def keep_pron_audio_def keep_variant_audio_def keep_def_audio_def
      keep_sent_audio_def rel_merge_def keep_target_def keep_gloss_def)

lemma own_children:
  assumes "upserts E m cs rows = Some rows'" and "keeps_id m" and "keeps_parent m" and "level E Ep P rows cs"
    and "cs = blocks mk key kids ps" and "makes_rows mk ident" and "distinct (map key ps)" and "p \<in> set ps"
    and "\<And>q. q \<in> set ps \<Longrightarrow> key q \<in> P \<Longrightarrow> key q \<in> Ep"
  shows "children (key p) rows' = map (stored E m rows) (siblings mk (key p) (kids p))"
proof (rule children_own [OF assms(1,2)])
  show "distinct (map row_id cs)" "distinct (map row_id rows)" using assms(4) by (simp_all add: level_def)
  show "row_parent (stored E m rows c) = row_parent c" for c
    using assms(3) by (simp add: stored_def keeps_parent_def)
  show "row_id q \<in> ids_of cs" if "q \<in> set rows" "row_parent q = key p" for q
    using that assms(4,8,9) by (auto simp: level_def)
  show "filter (\<lambda>c. row_parent c = key p) cs = siblings mk (key p) (kids p)"
    unfolding assms(5) by (rule blocks_of [OF assms(6-8)])
qed (rule siblings_orders [OF assms(6)])+

lemma other_children:
  assumes "upserts E m cs rows = Some rows'" and "keeps_id m" and "keeps_parent m" and "level E Ep P rows cs"
    and "cs = blocks mk key kids ps" and "makes_rows mk ident" and "p \<notin> key ` set ps" and "p \<notin> Ep"
  shows "children p rows' = children p rows"
proof (rule children_other [OF assms(1,2)])
  show d: "distinct (map row_id cs)" "distinct (map row_id rows)" using assms(4) by (simp_all add: level_def)
  show "row_parent (stored E m rows c) \<noteq> p" if "c \<in> set cs" for c
  proof -
    have "row_parent (stored E m rows c) = row_parent c" using assms(3) by (simp add: stored_def keeps_parent_def)
    with that assms(5,7) blocks_parent [OF assms(6)] show ?thesis by metis
  qed
  show "row_id q \<notin> ids_of cs" if "q \<in> set rows" "row_parent q = p" for q
  proof
    assume "row_id q \<in> ids_of cs"
    then have "row_id q \<in> E" using upserts_known [OF assms(1,2) d(1)] ids_ofI [OF that(1)] by blast
    with that(2) levelD(2) [OF assms(4) that(1)] assms(8) show False by simp
  qed
qed

text \<open>The two tables under the root, whose rows keep their parent.\<close>

lemma stored_top:
  assumes "upserts E keep_parent cs rows = Some rows'" and "level E {i} P rows cs" and "cs = siblings mk i xs"
    and "makes_rows mk ident" and "c \<in> set cs"
  shows "stored E keep_parent rows c = c"
proof (cases "row_id c \<in> E")
  case True
  have d: "distinct (map row_id cs)" "distinct (map row_id rows)" using assms(2) by (simp_all add: level_def)
  have "row_id c \<in> ids_of rows" using upserts_known [OF assms(1) _ d(1) ids_ofI [OF assms(5)]] True by simp
  then obtain q where q: "lookup (row_id c) rows = Some q" using lookup_None by (metis not_Some_eq)
  then have r: "q \<in> set rows" "row_id q = row_id c" using lookup_Some [OF d(2)] by simp_all
  then have "row_parent q = i" using levelD(2) [OF assms(2) r(1)] True by simp
  moreover have "row_parent c = i" using siblings_parent [OF assms(4)] assms(3,5) by metis
  ultimately show ?thesis using True q by (simp add: stored_def keep_parent_def)
qed (simp add: stored_def)

lemma top_own:
  assumes "upserts E keep_parent cs rows = Some rows'" and "level E {i} P rows cs" and "cs = siblings mk i xs"
    and "makes_rows mk ident"
  shows "children i rows' = siblings mk i xs"
proof -
  have "children i rows' = map (stored E keep_parent rows) (siblings mk i xs)"
  proof (rule children_own [OF assms(1)])
    show "distinct (map row_id cs)" "distinct (map row_id rows)" using assms(2) by (simp_all add: level_def)
    show "row_parent (stored E keep_parent rows c) = row_parent c" if "c \<in> set cs" for c
      using stored_top [OF assms that] by simp
    show "row_id q \<in> ids_of cs" if "q \<in> set rows" "row_parent q = i" for q
      using that assms(2) by (auto simp: level_def)
    show "filter (\<lambda>c. row_parent c = i) cs = siblings mk i xs"
      unfolding assms(3) using siblings_of [OF assms(4), of i i xs] by simp
  qed (simp, (rule siblings_orders [OF assms(4)])+)
  also have "\<dots> = map (\<lambda>c. c) (siblings mk i xs)"
    by (rule map_cong [OF refl]) (rule stored_top [OF assms], simp add: assms(3))
  finally show ?thesis by simp
qed

lemma top_other:
  assumes "upserts E keep_parent cs rows = Some rows'" and "level E {i} P rows cs" and "cs = siblings mk i xs"
    and "makes_rows mk ident" and "j \<noteq> i"
  shows "children j rows' = children j rows"
proof (rule children_other [OF assms(1)])
  show d: "distinct (map row_id cs)" "distinct (map row_id rows)" using assms(2) by (simp_all add: level_def)
  show "row_parent (stored E keep_parent rows c) \<noteq> j" if "c \<in> set cs" for c
    using stored_top [OF assms(1-4) that] siblings_parent [OF assms(4), of c i xs] that assms(3,5) by metis
  show "row_id q \<notin> ids_of cs" if "q \<in> set rows" "row_parent q = j" for q
  proof
    assume "row_id q \<in> ids_of cs"
    then have "row_id q \<in> E" using upserts_known [OF assms(1) _ d(1)] ids_ofI [OF that(1)] by simp
    with that(2) levelD(2) [OF assms(2) that(1)] assms(5) show False by simp
  qed
qed simp

subsection \<open>The levels of a save\<close>

lemma below_row:
  "distinct (map row_id rows) \<Longrightarrow> r \<in> set rows \<Longrightarrow> row_id r \<in> below S rows \<longleftrightarrow> row_parent r \<in> S"
  by (auto simp: below_def distinct_map dest: inj_onD)

lemma level_rows:
  assumes "distinct (map row_id rows)" and "E = below Ep rows" and "E - set inc \<subseteq> A" and "map row_id cs = inc"
    and "distinct inc" and "rows_ok P C (map (on_data f) (alive A rows))"
  shows "level E Ep P (map (on_data f) (alive A rows)) cs"
  unfolding level_def
proof (intro conjI ballI)
  show "distinct (map row_id (map (on_data f) (alive A rows)))"
    unfolding map_on_data(3) using assms(1) by (rule distinct_alive)
  show "distinct (map row_id cs)" unfolding assms(4) by (rule assms(5))
  fix r assume r: "r \<in> set (map (on_data f) (alive A rows))"
  then obtain q where q: "q \<in> set rows" "row_id q \<notin> A" "r = on_data f q" by auto
  show "row_parent r \<in> P" using r assms(6) by (simp only: rows_ok_def)
  show "row_id r \<in> E \<longleftrightarrow> row_parent r \<in> Ep" using below_row [OF assms(1) q(1)] q(3) assms(2) by simp
  have "ids_of cs = set inc" using assms(4) by (auto simp: ids_of_def)
  then show "row_id r \<in> E \<longrightarrow> row_id r \<in> ids_of cs" using q assms(3) by auto
qed

lemmas level_rows0 = level_rows [where f = "\<lambda>c. c", unfolded map_on_data]

lemma scope_below:
  "set (scope T_groups i d) = below {i} (w_groups d)" "set (scope T_pos i d) = below {i} (w_pos d)"
  "set (scope T_forms i d) = below (set (scope T_pos i d)) (w_forms d)"
  "set (scope T_prons i d) = below (set (scope T_forms i d)) (w_prons d)"
  "set (scope T_structs i d) = below (set (scope T_pos i d)) (w_structs d)"
  "set (scope T_variants i d) = below (set (scope T_structs i d)) (w_variants d)"
  "set (scope T_senses i d) = below (set (scope T_pos i d)) (w_senses d)"
  "set (scope T_defs i d) = below (set (scope T_senses i d)) (w_defs d)"
  "set (scope T_sents i d) = below (set (scope T_senses i d)) (w_sents d)"
  "set (scope T_rels i d) = below (set (scope T_senses i d)) (w_rels d)"
  by (simp_all only: set_scope)

lemma savedD:
  assumes "saved i inp now D d d'"
  shows "closed D d" and "\<And>T. D T \<subseteq> set (scope T i d)" and "\<And>T. set (scope T i d) - set (incoming inp T) \<subseteq> D T"
    and "upserts (set (scope T_groups i d)) keep_parent (group_cmds i inp) (w_groups (prune D d)) = Some (w_groups d')"
    and "upserts (set (scope T_pos i d)) keep_parent (pos_cmds i inp) (w_pos (prune D d)) = Some (w_pos d')"
    and "upserts (set (scope T_forms i d)) keep_nothing (form_cmds inp) (w_forms (prune D d)) = Some (w_forms d')"
    and "upserts (set (scope T_prons i d)) keep_pron_audio (pron_cmds inp) (w_prons (prune D d)) = Some (w_prons d')"
    and "upserts (set (scope T_structs i d)) keep_nothing (struct_cmds inp) (w_structs (prune D d)) = Some (w_structs d')"
    and "upserts (set (scope T_variants i d)) keep_variant_audio (variant_cmds inp) (w_variants (prune D d)) = Some (w_variants d')"
    and "upserts (set (scope T_senses i d)) keep_nothing (sense_cmds inp) (w_senses (prune D d)) = Some (w_senses d')"
    and "upserts (set (scope T_defs i d)) keep_def_audio (def_cmds inp) (w_defs (prune D d)) = Some (w_defs d')"
    and "upserts (set (scope T_sents i d)) keep_sent_audio (sent_cmds inp) (w_sents (prune D d)) = Some (w_sents d')"
    and "upserts (set (scope T_rels i d)) rel_merge (rel_cmds d' inp) (w_rels (prune D d)) = Some (w_rels d')"
    and "\<And>sn r. sn \<in> set (all_senses inp) \<Longrightarrow> r \<in> set (sn_relations sn) \<Longrightarrow> resolved d' r"
    and "w_words d' = map (saved_root i inp now) (w_words d)" and "w_admins d' = w_admins d"
  using assms unfolding saved_def by (elim conjE; (erule allE)?; (drule (1) bspec)?; assumption | blast)+

lemma saved_levels:
  assumes "saved i inp now D d d'" and "db_ok d" and "distinct (tree_ids inp)"
  shows "level (set (scope T_groups i d)) {i} (word_ids d) (w_groups (prune D d)) (group_cmds i inp)"
    and "level (set (scope T_pos i d)) {i} (word_ids d) (w_pos (prune D d)) (pos_cmds i inp)"
    and "level (set (scope T_forms i d)) (set (scope T_pos i d)) (ids_of (w_pos (prune D d))) (w_forms (prune D d)) (form_cmds inp)"
    and "level (set (scope T_prons i d)) (set (scope T_forms i d)) (ids_of (w_forms (prune D d))) (w_prons (prune D d)) (pron_cmds inp)"
    and "level (set (scope T_structs i d)) (set (scope T_pos i d)) (ids_of (w_pos (prune D d))) (w_structs (prune D d)) (struct_cmds inp)"
    and "level (set (scope T_variants i d)) (set (scope T_structs i d)) (ids_of (w_structs (prune D d))) (w_variants (prune D d)) (variant_cmds inp)"
    and "level (set (scope T_senses i d)) (set (scope T_pos i d)) (ids_of (w_pos (prune D d))) (w_senses (prune D d)) (sense_cmds inp)"
    and "level (set (scope T_defs i d)) (set (scope T_senses i d)) (ids_of (w_senses (prune D d))) (w_defs (prune D d)) (def_cmds inp)"
    and "level (set (scope T_sents i d)) (set (scope T_senses i d)) (ids_of (w_senses (prune D d))) (w_sents (prune D d)) (sent_cmds inp)"
    and "level (set (scope T_rels i d)) (set (scope T_senses i d)) (ids_of (w_senses (prune D d))) (w_rels (prune D d)) (rel_cmds d' inp)"
proof -
  have ok: "db_ok (prune D d)" using assms(2) savedD(1) [OF assms(1)] by (rule db_ok_prune)
  note r = db_okD [OF ok, unfolded prune_sel]
  note dist = db_ok_keys [OF assms(2), unfolded keys_ok_def]
  have dist: "distinct (map row_id (w_groups d))" "distinct (map row_id (w_pos d))" "distinct (map row_id (w_forms d))"
    "distinct (map row_id (w_prons d))" "distinct (map row_id (w_structs d))" "distinct (map row_id (w_variants d))"
    "distinct (map row_id (w_senses d))" "distinct (map row_id (w_defs d))" "distinct (map row_id (w_sents d))"
    "distinct (map row_id (w_rels d))" using dist by blast+
  note gone = savedD(3) [OF assms(1)] and inc = incoming_distinct [OF assms(3)]
  show "level (set (scope T_groups i d)) {i} (word_ids d) (w_groups (prune D d)) (group_cmds i inp)"
    unfolding prune_sel by (rule level_rows0 [OF dist(1) scope_below(1) gone cmd_ids(1) inc r(2)])
  show "level (set (scope T_pos i d)) {i} (word_ids d) (w_pos (prune D d)) (pos_cmds i inp)"
    unfolding prune_sel by (rule level_rows0 [OF dist(2) scope_below(2) gone cmd_ids(2) inc r(3)])
  show "level (set (scope T_forms i d)) (set (scope T_pos i d)) (ids_of (w_pos (prune D d))) (w_forms (prune D d)) (form_cmds inp)"
    unfolding prune_sel by (rule level_rows0 [OF dist(3) scope_below(3) gone cmd_ids(3) inc r(4)])
  show "level (set (scope T_prons i d)) (set (scope T_forms i d)) (ids_of (w_forms (prune D d))) (w_prons (prune D d)) (pron_cmds inp)"
    unfolding prune_sel by (rule level_rows0 [OF dist(4) scope_below(4) gone cmd_ids(4) inc r(5)])
  show "level (set (scope T_structs i d)) (set (scope T_pos i d)) (ids_of (w_pos (prune D d))) (w_structs (prune D d)) (struct_cmds inp)"
    unfolding prune_sel by (rule level_rows0 [OF dist(5) scope_below(5) gone cmd_ids(5) inc r(6)])
  show "level (set (scope T_variants i d)) (set (scope T_structs i d)) (ids_of (w_structs (prune D d))) (w_variants (prune D d)) (variant_cmds inp)"
    unfolding prune_sel by (rule level_rows0 [OF dist(6) scope_below(6) gone cmd_ids(6) inc r(7)])
  show "level (set (scope T_senses i d)) (set (scope T_pos i d)) (ids_of (w_pos (prune D d))) (w_senses (prune D d)) (sense_cmds inp)"
    unfolding prune_sel by (rule level_rows [OF dist(7) scope_below(7) gone cmd_ids(7) inc r(8)])
  show "level (set (scope T_defs i d)) (set (scope T_senses i d)) (ids_of (w_senses (prune D d))) (w_defs (prune D d)) (def_cmds inp)"
    unfolding prune_sel by (rule level_rows [OF dist(8) scope_below(8) gone cmd_ids(8) inc r(9)])
  show "level (set (scope T_sents i d)) (set (scope T_senses i d)) (ids_of (w_senses (prune D d))) (w_sents (prune D d)) (sent_cmds inp)"
    unfolding prune_sel by (rule level_rows0 [OF dist(9) scope_below(9) gone cmd_ids(9) inc r(10)])
  show "level (set (scope T_rels i d)) (set (scope T_senses i d)) (ids_of (w_senses (prune D d))) (w_rels (prune D d)) (rel_cmds d' inp)"
    unfolding prune_sel by (rule level_rows [OF dist(10) scope_below(10) gone cmd_ids(10) inc r(11)])
qed

subsection \<open>The saved entry\<close>

text \<open>The audio of a node, from the row it had; a new node has none.\<close>

definition audio_of :: "('a \<Rightarrow> string option \<times> string option) \<Rightarrow> uuid \<Rightarrow> 'a row list \<Rightarrow> string \<times> string" where
  "audio_of cols x rows =
     (case lookup x rows of None \<Rightarrow> ([], []) | Some r \<Rightarrow> (deref (fst (cols (row_data r))), deref (snd (cols (row_data r)))))"

definition stored_pron :: "word_db \<Rightarrow> pronunciation \<Rightarrow> pronunciation" where
  "stored_pron d pr = (let a = audio_of (\<lambda>c. (pc_url c, pc_source c)) (pr_id pr) (w_prons d) in
     pr\<lparr>pr_audio_url := fst a, pr_audio_source := snd a\<rparr>)"

definition stored_form :: "word_db \<Rightarrow> word_form \<Rightarrow> word_form" where
  "stored_form d f = f\<lparr>fm_prons := map (stored_pron d) (fm_prons f)\<rparr>"

definition stored_variant :: "word_db \<Rightarrow> grammar_variant \<Rightarrow> grammar_variant" where
  "stored_variant d v = (let a = audio_of (\<lambda>c. (vc_url c, vc_source c)) (gv_id v) (w_variants d) in
     v\<lparr>gv_audio_url := fst a, gv_audio_source := snd a\<rparr>)"

definition stored_structure :: "word_db \<Rightarrow> grammar_structure \<Rightarrow> grammar_structure" where
  "stored_structure d g = g\<lparr>gs_variants := map (stored_variant d) (gs_variants g)\<rparr>"

definition stored_definition :: "word_db \<Rightarrow> word_definition \<Rightarrow> word_definition" where
  "stored_definition d x = (let a = audio_of (\<lambda>c. (dc_url c, dc_source c)) (df_id x) (w_defs d) in
     x\<lparr>df_audio_url := fst a, df_audio_source := snd a\<rparr>)"

definition stored_sentence :: "word_db \<Rightarrow> sentence \<Rightarrow> sentence" where
  "stored_sentence d t = (let a = audio_of (\<lambda>c. (tc_url c, tc_source c)) (st_id t) (w_sents d) in
     t\<lparr>st_audio_url := fst a, st_audio_source := snd a\<rparr>)"

text \<open>The senses a save from \<open>d\<close> to \<open>d'\<close> dropped.\<close>

definition dropped :: "word_db \<Rightarrow> word_db \<Rightarrow> uuid set" where
  "dropped d d' = ids_of (w_senses d) - ids_of (w_senses d')"

definition stored_relation :: "word_db \<Rightarrow> word_db \<Rightarrow> word_relation \<Rightarrow> word_relation" where
  "stored_relation d d' r =
     (case rl_word r of
        None \<Rightarrow> (case lookup (rl_id r) (w_rels d) of
            None \<Rightarrow> r
          | Some q \<Rightarrow> r\<lparr>rl_word := rc_word (row_data q), rl_sense := forget (dropped d d') (rc_sense (row_data q)),
              rl_headword := rc_headword (row_data q), rl_gloss := rc_gloss (row_data q)\<rparr>)
      | Some i \<Rightarrow> r\<lparr>rl_headword := headword_at d' i,
          rl_gloss := (case rl_sense r of
              Some s \<Rightarrow> gloss_of s d'
            | None \<Rightarrow> (case lookup (rl_id r) (w_rels d) of None \<Rightarrow> [] | Some q \<Rightarrow> rc_gloss (row_data q)))\<rparr>)"

definition stored_sense :: "word_db \<Rightarrow> word_db \<Rightarrow> word_sense \<Rightarrow> word_sense" where
  "stored_sense d d' sn = sn\<lparr>sn_definitions := map (stored_definition d) (sn_definitions sn),
     sn_sentences := map (stored_sentence d) (sn_sentences sn),
     sn_relations := map (stored_relation d d') (sn_relations sn)\<rparr>"

definition stored_pos :: "word_db \<Rightarrow> word_db \<Rightarrow> word_pos \<Rightarrow> word_pos" where
  "stored_pos d d' po = po\<lparr>po_forms := map (stored_form d) (po_forms po),
     po_structures := map (stored_structure d) (po_structures po), po_senses := map (stored_sense d d') (po_senses po)\<rparr>"

definition stored_entry :: "word_db \<Rightarrow> word_db \<Rightarrow> save_input \<Rightarrow> time \<Rightarrow> word_entry \<Rightarrow> word_entry" where
  "stored_entry d d' inp now e = e\<lparr>we_frequency := si_frequency inp, we_mode := si_mode inp, we_dialects := si_dialects inp,
     we_updated_at := now, we_groups := si_groups inp, we_pos := map (stored_pos d d') (si_pos inp)\<rparr>"

text \<open>A command either inserts a row that did not exist or merges into the old one.\<close>

lemma lookup_on_data: "lookup x (map (on_data f) rows) = map_option (on_data f) (lookup x rows)"
  by (induction rows) (simp_all add: lookup_Cons, simp_all add: lookup_def)

lemma lookup_alive: "x \<notin> A \<Longrightarrow> lookup x (alive A rows) = lookup x rows"
  by (induction rows) (auto simp: alive_def lookup_def)

lemma stored_cases:
  assumes "upserts E m cs (map (on_data f) (alive A rows)) = Some rows'" and "keeps_id m"
    and "distinct (map row_id cs)" and "A \<subseteq> E" and "c \<in> set cs"
  obtains (new) "lookup (row_id c) rows = None" and "stored E m (map (on_data f) (alive A rows)) c = c"
  | (known) q where "lookup (row_id c) rows = Some q" and "stored E m (map (on_data f) (alive A rows)) c = m (on_data f q) c"
proof -
  have k: "row_id c \<in> E \<longleftrightarrow> row_id c \<in> ids_of rows - A"
    using upserts_known [OF assms(1-3) ids_ofI [OF assms(5)]] by (simp only: ids_of_simps)
  show ?thesis
  proof (cases "row_id c \<in> E")
    case True
    with k have "row_id c \<notin> A" "row_id c \<in> ids_of rows" by auto
    moreover from this obtain q where "lookup (row_id c) rows = Some q" using lookup_None by (metis not_Some_eq)
    ultimately show ?thesis using known True by (simp add: stored_def lookup_on_data lookup_alive)
  next
    case False
    with k assms(4) have "lookup (row_id c) rows = None" by (auto simp: lookup_None)
    with False show ?thesis using new by (simp add: stored_def)
  qed
qed

lemmas stored_cases0 = stored_cases [where f = "\<lambda>c. c", unfolded map_on_data on_data_id]

lemma stored_nothing [simp]: "stored E keep_nothing rows c = c"
  by (simp add: stored_def keep_nothing_def)

lemma map_siblings:
  assumes "\<And>n x. x \<in> set xs \<Longrightarrow> mk p n x \<in> set (siblings mk p xs) \<Longrightarrow> g (mk p n x) = h x"
  shows "map g (siblings mk p xs) = map h xs"
proof -
  have "map (\<lambda>(n, x). g (mk p n x)) (enumerate 0 xs) = map (\<lambda>(n, x). h x) (enumerate 0 xs)"
  proof (intro map_cong refl)
    fix z assume z: "z \<in> set (enumerate 0 xs)"
    then have "snd z \<in> set xs" by (metis image_eqI list.set_map map_snd_enumerate)
    moreover have "mk p (fst z) (snd z) \<in> set (siblings mk p xs)" using z by (force simp: siblings_def)
    ultimately show "(case z of (n, x) \<Rightarrow> g (mk p n x)) = (case z of (n, x) \<Rightarrow> h x)" using assms by (simp add: split_def)
  qed
  then show ?thesis by (simp add: siblings_def o_def split_def map_enumerate_snd [unfolded split_def])
qed

text \<open>What the children of a node of the body read as.\<close>

lemma own_map:
  assumes "upserts E m cs rows = Some rows'" and "keeps_id m" and "keeps_parent m" and "level E Ep (ids_of prows) rows cs"
    and "upserts Ep mp pcs prows = Some prows'" and "keeps_id mp" and "distinct (map row_id pcs)"
    and "map row_id pcs = map key ps" and "cs = blocks mk key kids ps" and "makes_rows mk ident" and "p \<in> set ps"
    and "\<And>n x. x \<in> set (kids p) \<Longrightarrow> mk (key p) n x \<in> set cs \<Longrightarrow> g (stored E m rows (mk (key p) n x)) = h x"
  shows "map g (children (key p) rows') = map h (kids p)"
proof -
  have "key q \<in> Ep" if "q \<in> set ps" "key q \<in> ids_of prows" for q
  proof -
    have "ids_of pcs = key ` set ps" unfolding ids_of_def assms(8) by simp
    then show ?thesis using upserts_known [OF assms(5-7), of "key q"] that by blast
  qed
  then have c: "children (key p) rows' = map (stored E m rows) (siblings mk (key p) (kids p))"
    using assms(7,8) by (intro own_children [OF assms(1-4,9,10) _ assms(11)]) simp_all
  have "set (siblings mk (key p) (kids p)) \<subseteq> set cs" using assms(11) unfolding assms(9) blocks_def by auto
  then have "map (\<lambda>r. g (stored E m rows r)) (siblings mk (key p) (kids p)) = map h (kids p)"
    using assms(12) by (intro map_siblings) blast
  then show ?thesis by (simp add: c o_def)
qed

lemma deref_None [simp]: "deref None = []" and deref_Some [simp]: "deref (Some x) = x"
  by (simp_all add: deref_def)

lemma cmds_distinct:
  assumes "distinct (tree_ids inp)"
  shows "distinct (map row_id (pos_cmds i inp))" "distinct (map row_id (form_cmds inp))" "distinct (map row_id (pron_cmds inp))"
    "distinct (map row_id (struct_cmds inp))" "distinct (map row_id (variant_cmds inp))" "distinct (map row_id (sense_cmds inp))"
    "distinct (map row_id (def_cmds inp))" "distinct (map row_id (sent_cmds inp))" "distinct (map row_id (rel_cmds d inp))"
  unfolding cmd_ids by (rule incoming_distinct [OF assms])+

lemma parent_keys:
  "map row_id (pos_cmds i inp) = map po_id (si_pos inp)" "map row_id (form_cmds inp) = map fm_id (all_forms inp)"
  "map row_id (struct_cmds inp) = map gs_id (all_structures inp)" "map row_id (sense_cmds inp) = map sn_id (all_senses inp)"
  unfolding cmd_ids by (simp_all add: all_forms_def all_structures_def all_senses_def map_concat o_def)

lemma scan_stored_pron:
  assumes "saved i inp now D d d'" and "distinct (tree_ids inp)" and "pron_row p n pr \<in> set (pron_cmds inp)"
  shows "scan_pron (stored (set (scope T_prons i d)) keep_pron_audio (w_prons (prune D d)) (pron_row p n pr)) = stored_pron d pr"
proof (cases rule: stored_cases0 [OF savedD(7) [OF assms(1), unfolded prune_sel] keeps_id_merges(3)
    cmds_distinct(3) [OF assms(2)] savedD(2) [OF assms(1)] assms(3)])
  case 1
  show ?thesis unfolding prune_sel 1(2) using 1(1) by (simp add: scan_pron_def stored_pron_def audio_of_def pron_row_def mk_row_def
      keep_pron_audio_def Let_def)
next
  case (2 q)
  show ?thesis unfolding prune_sel 2(2) using 2(1) by (simp add: scan_pron_def stored_pron_def audio_of_def pron_row_def mk_row_def
      keep_pron_audio_def Let_def)
qed

lemma scan_stored_variant:
  assumes "saved i inp now D d d'" and "distinct (tree_ids inp)" and "variant_row p n v \<in> set (variant_cmds inp)"
    and "text_ok (gv_content v)"
  shows "scan_variant (stored (set (scope T_variants i d)) keep_variant_audio (w_variants (prune D d)) (variant_row p n v)) = stored_variant d v"
proof (cases rule: stored_cases0 [OF savedD(9) [OF assms(1), unfolded prune_sel] keeps_id_merges(4)
    cmds_distinct(5) [OF assms(2)] savedD(2) [OF assms(1)] assms(3)])
  case 1
  show ?thesis unfolding prune_sel 1(2) using 1(1) assms(4) by (simp add: scan_variant_def stored_variant_def audio_of_def variant_row_def
      mk_row_def keep_variant_audio_def Let_def text_ok_def)
next
  case (2 q)
  show ?thesis unfolding prune_sel 2(2) using 2(1) assms(4) by (simp add: scan_variant_def stored_variant_def audio_of_def variant_row_def
      mk_row_def keep_variant_audio_def Let_def text_ok_def)
qed

lemma scan_stored_definition:
  assumes "saved i inp now D d d'" and "distinct (tree_ids inp)" and "def_row p n x \<in> set (def_cmds inp)"
    and "text_ok (df_text x)"
  shows "scan_definition (stored (set (scope T_defs i d)) keep_def_audio (w_defs (prune D d)) (def_row p n x)) = stored_definition d x"
proof (cases rule: stored_cases [OF savedD(11) [OF assms(1), unfolded prune_sel] keeps_id_merges(5)
    cmds_distinct(7) [OF assms(2)] savedD(2) [OF assms(1)] assms(3)])
  case 1
  show ?thesis unfolding prune_sel 1(2) using 1(1) assms(4) by (simp add: scan_definition_def stored_definition_def audio_of_def def_row_def
      mk_row_def keep_def_audio_def Let_def text_ok_def unlink_struct_def)
next
  case (2 q)
  show ?thesis unfolding prune_sel 2(2) using 2(1) assms(4) by (simp add: scan_definition_def stored_definition_def audio_of_def def_row_def
      mk_row_def keep_def_audio_def Let_def text_ok_def unlink_struct_def)
qed

lemma sentence_text: "sentence_ok t \<Longrightarrow> map_option rt_normalize (st_text t) = st_text t"
  by (cases "st_text t") (simp_all add: sentence_ok_def text_ok_def)

lemma scan_stored_sentence:
  assumes "saved i inp now D d d'" and "distinct (tree_ids inp)" and "sent_row p n t \<in> set (sent_cmds inp)"
    and "sentence_ok t"
  shows "scan_sentence (stored (set (scope T_sents i d)) keep_sent_audio (w_sents (prune D d)) (sent_row p n t)) = stored_sentence d t"
proof (cases rule: stored_cases0 [OF savedD(12) [OF assms(1), unfolded prune_sel] keeps_id_merges(6)
    cmds_distinct(8) [OF assms(2)] savedD(2) [OF assms(1)] assms(3)])
  case 1
  show ?thesis unfolding prune_sel 1(2) using 1(1) assms(4) by (simp add: scan_sentence_def stored_sentence_def audio_of_def sent_row_def
      mk_row_def keep_sent_audio_def Let_def sentence_text)
next
  case (2 q)
  show ?thesis unfolding prune_sel 2(2) using 2(1) assms(4) by (simp add: scan_sentence_def stored_sentence_def audio_of_def sent_row_def
      mk_row_def keep_sent_audio_def Let_def sentence_text)
qed

lemma dropped_senses:
  assumes "saved i inp now D d d'" and "distinct (tree_ids inp)"
  shows "dropped d d' = D T_senses"
proof -
  note up = savedD(10) [OF assms(1)] and dist = cmds_distinct(6) [OF assms(2)]
  have ids: "ids_of (w_senses d') = (ids_of (w_senses d) - D T_senses) \<union> ids_of (sense_cmds inp)"
    using ids_upserts [OF up _ dist] by simp
  have "x \<notin> ids_of (sense_cmds inp)" if "x \<in> D T_senses" for x
  proof
    assume "x \<in> ids_of (sense_cmds inp)"
    moreover have "x \<in> set (scope T_senses i d)" using that savedD(2) [OF assms(1)] by blast
    ultimately have "x \<in> ids_of (w_senses (prune D d))" using upserts_known [OF up _ dist] by simp
    with that show False by simp
  qed
  moreover have "D T_senses \<subseteq> ids_of (w_senses d)"
    using savedD(2) [OF assms(1), of T_senses] unfolding scope_below below_def ids_of_def by auto
  ultimately show ?thesis unfolding dropped_def ids by auto
qed

lemma scan_stored_relation:
  assumes "saved i inp now D d d'" and "distinct (tree_ids inp)" and "rel_mk d' p n r \<in> set (rel_cmds d' inp)"
    and "relation_ok r"
  shows "scan_relation (stored (set (scope T_rels i d)) rel_merge (w_rels (prune D d)) (rel_mk d' p n r)) = stored_relation d d' r"
proof (cases rule: stored_cases [OF savedD(13) [OF assms(1), unfolded prune_sel] keeps_rel
    cmds_distinct(9) [OF assms(2)] savedD(2) [OF assms(1)] assms(3)])
  case 1
  show ?thesis
    unfolding prune_sel 1(2) using 1(1) assms(4)
    by (simp add: scan_relation_def stored_relation_def rel_mk_def rel_row_def mk_row_def snap_head_def snap_gloss_def
        relation_ok_def Let_def split: option.split)
next
  case (2 q)
  show ?thesis
    unfolding prune_sel 2(2) using 2(1) assms(4)
    by (simp add: scan_relation_def stored_relation_def rel_mk_def rel_row_def mk_row_def snap_head_def snap_gloss_def
        relation_ok_def Let_def rel_merge_def keep_target_def keep_gloss_def unlink_sense_def
        dropped_senses [OF assms(1,2)] split: option.split)
qed

text \<open>The frequency survives its column.\<close>

lemma numeric_text_frequency: "s = [] \<or> freq_ok s \<Longrightarrow> numeric_text (frequency_of s) = s"
  using numeric_roundtrip [of s] by (auto simp: numeric_text_def frequency_of_def nullable_numeric_def)

lemma all_mem:
  "po \<in> set (si_pos inp) \<Longrightarrow> f \<in> set (po_forms po) \<Longrightarrow> f \<in> set (all_forms inp)"
  "po \<in> set (si_pos inp) \<Longrightarrow> g \<in> set (po_structures po) \<Longrightarrow> g \<in> set (all_structures inp)"
  "po \<in> set (si_pos inp) \<Longrightarrow> sn \<in> set (po_senses po) \<Longrightarrow> sn \<in> set (all_senses inp)"
  by (auto simp: all_forms_def all_structures_def all_senses_def)

lemma form_saved:
  assumes "saved i inp now D d d'" and "db_ok d" and "distinct (tree_ids inp)" and "f \<in> set (all_forms inp)"
  shows "form_at d' (form_row p n f) = stored_form d f"
proof -
  note L = saved_levels [OF assms(1-3)]
  have "map scan_pron (children (fm_id f) (w_prons d')) = map (stored_pron d) (fm_prons f)"
    by (rule own_map [OF savedD(7) [OF assms(1)] _ _ L(4) savedD(6) [OF assms(1)] _ cmds_distinct(2) [OF assms(3)]
          parent_keys(2) pron_cmds_def makes_rows(4) assms(4)])
      (simp_all only: keeps_id_merges keeps_parent_merges scan_stored_pron [OF assms(1,3)])
  then show ?thesis
    by (simp add: form_at_def scan_form_def stored_form_def form_row_def mk_row_def)
qed

lemma structure_saved:
  assumes "saved i inp now D d d'" and "db_ok d" and "distinct (tree_ids inp)" and "g \<in> set (all_structures inp)"
    and "\<forall>v \<in> set (gs_variants g). text_ok (gv_content v)"
  shows "structure_at d' (struct_row p n g) = stored_structure d g"
proof -
  note L = saved_levels [OF assms(1-3)]
  have "map scan_variant (children (gs_id g) (w_variants d')) = map (stored_variant d) (gs_variants g)"
    by (rule own_map [OF savedD(9) [OF assms(1)] _ _ L(6) savedD(8) [OF assms(1)] _ cmds_distinct(4) [OF assms(3)]
          parent_keys(3) variant_cmds_def makes_rows(6) assms(4)])
      (simp_all only: keeps_id_merges keeps_parent_merges scan_stored_variant [OF assms(1,3)] assms(5))
  then show ?thesis
    by (simp add: structure_at_def scan_structure_def stored_structure_def struct_row_def mk_row_def)
qed

lemma sense_saved:
  assumes "saved i inp now D d d'" and "db_ok d" and "distinct (tree_ids inp)" and "sn \<in> set (all_senses inp)"
    and "sense_ok gs ss sn"
  shows "sense_at d' (sense_row_of p n sn) = stored_sense d d' sn"
proof -
  note L = saved_levels [OF assms(1-3)]
  note ok = assms(5) [unfolded sense_ok_def definition_ok_def]
  have "map scan_definition (children (sn_id sn) (w_defs d')) = map (stored_definition d) (sn_definitions sn)"
    by (rule own_map [OF savedD(11) [OF assms(1)] _ _ L(8) savedD(10) [OF assms(1)] _ cmds_distinct(6) [OF assms(3)]
          parent_keys(4) def_cmds_def makes_rows(8) assms(4)])
      (use ok in \<open>simp_all only: keeps_id_merges keeps_parent_merges scan_stored_definition [OF assms(1,3)]\<close>)
  moreover have "map scan_sentence (children (sn_id sn) (w_sents d')) = map (stored_sentence d) (sn_sentences sn)"
    by (rule own_map [OF savedD(12) [OF assms(1)] _ _ L(9) savedD(10) [OF assms(1)] _ cmds_distinct(6) [OF assms(3)]
          parent_keys(4) sent_cmds_def makes_rows(9) assms(4)])
      (use ok in \<open>simp_all only: keeps_id_merges keeps_parent_merges scan_stored_sentence [OF assms(1,3)]\<close>)
  moreover have "map scan_relation (children (sn_id sn) (w_rels d')) = map (stored_relation d d') (sn_relations sn)"
    by (rule own_map [OF savedD(13) [OF assms(1)] _ _ L(10) savedD(10) [OF assms(1)] _ cmds_distinct(6) [OF assms(3)]
          parent_keys(4) rel_cmds_def makes_rel assms(4)])
      (use ok in \<open>simp_all only: keeps_id_merges keeps_rel keeps_parent_merges scan_stored_relation [OF assms(1,3)]\<close>)
  moreover have "numeric_text (frequency_of (sn_frequency sn)) = sn_frequency sn"
    using ok by (intro numeric_text_frequency) (elim conjE)
  ultimately show ?thesis
    by (simp add: sense_at_def scan_sense_def stored_sense_def sense_row_of_def sense_row_def mk_row_def)
qed

lemma pos_saved:
  assumes "saved i inp now D d d'" and "db_ok d" and "distinct (tree_ids inp)" and "po \<in> set (si_pos inp)"
    and "pos_ok A gs po"
  shows "pos_at d' (pos_row p n po) = stored_pos d d' po"
proof -
  note L = saved_levels [OF assms(1-3)]
  have vs: "\<forall>v \<in> set (gs_variants g). text_ok (gv_content v)" if "g \<in> set (po_structures po)" for g
    using assms(5) that by (simp add: pos_ok_def structure_ok_def variant_ok_def)
  have sns: "sense_ok gs (map gs_id (po_structures po)) sn" if "sn \<in> set (po_senses po)" for sn
    using assms(5) that by (simp add: pos_ok_def)
  have "map (form_at d') (children (po_id po) (w_forms d')) = map (stored_form d) (po_forms po)"
    by (rule own_map [OF savedD(6) [OF assms(1)] _ _ L(3) savedD(5) [OF assms(1)] _ cmds_distinct(1) [OF assms(3)]
          parent_keys(1) form_cmds_def makes_rows(3) assms(4)])
      (simp_all only: keeps_id_merges keeps_parent_merges stored_nothing form_saved [OF assms(1-3) all_mem(1) [OF assms(4)]])
  moreover have "map (structure_at d') (children (po_id po) (w_structs d')) = map (stored_structure d) (po_structures po)"
    by (rule own_map [OF savedD(8) [OF assms(1)] _ _ L(5) savedD(5) [OF assms(1)] _ cmds_distinct(1) [OF assms(3)]
          parent_keys(1) struct_cmds_def makes_rows(5) assms(4)])
      (simp_all only: keeps_id_merges keeps_parent_merges stored_nothing
        structure_saved [OF assms(1-3) all_mem(2) [OF assms(4)] vs])
  moreover have "map (sense_at d') (children (po_id po) (w_senses d')) = map (stored_sense d d') (po_senses po)"
    by (rule own_map [OF savedD(10) [OF assms(1)] _ _ L(7) savedD(5) [OF assms(1)] _ cmds_distinct(1) [OF assms(3)]
          parent_keys(1) sense_cmds_def makes_rows(7) assms(4)])
      (simp_all only: keeps_id_merges keeps_parent_merges stored_nothing
        sense_saved [OF assms(1-3) all_mem(3) [OF assms(4)] sns])
  ultimately show ?thesis
    by (simp add: pos_at_def scan_pos_def stored_pos_def pos_row_def mk_row_def)
qed

lemma find_saved_root:
  "find_word j d = Some r \<Longrightarrow> w_words d' = map (saved_root i inp now) (w_words d) \<Longrightarrow>
    find_word j d' = Some (saved_root i inp now r)"
proof -
  assume f: "find_word j d = Some r" and w: "w_words d' = map (saved_root i inp now) (w_words d)"
  have "find (\<lambda>r. ww_id r = j) (map (saved_root i inp now) ws) = map_option (saved_root i inp now) (find (\<lambda>r. ww_id r = j) ws)" for ws
    by (induction ws) (simp_all add: saved_root_def)
  with f w show ?thesis by (simp add: find_word_def)
qed

lemma saved_entry:
  assumes "saved i inp now D d d'" and "db_ok d" and "tree_ok inp" and "entry i d = Some e"
  shows "entry i d' = Some (stored_entry d d' inp now e)"
proof -
  from assms(4) obtain r where r: "find_word i d = Some r" "e = entry_of d r" by (auto simp: entry_def)
  have id: "ww_id r = i" using find_word_id [OF r(1)] by simp
  have ids: "distinct (tree_ids inp)" and ok: "entry_ok (si_frequency inp) (si_mode inp) (si_dialects inp) (si_groups inp) (si_pos inp)"
    using assms(3) by (simp_all add: tree_ok_def)
  have pos: "pos_ok (enabled_dialects (si_mode inp) (si_dialects inp)) (map sg_id (si_groups inp)) po" if "po \<in> set (si_pos inp)" for po
    using ok that by (simp add: entry_ok_def)
  note L = saved_levels [OF assms(1,2) ids]
  have "map scan_group (children i (w_groups d')) = si_groups inp"
    unfolding top_own [OF savedD(4) [OF assms(1)] L(1) group_cmds_def makes_rows(1)]
    by (rule trans [OF map_siblings [where h = "\<lambda>g. g"]]) (simp_all add: scan_group_def group_row_def mk_row_def)
  moreover have "map (pos_at d') (children i (w_pos d')) = map (stored_pos d d') (si_pos inp)"
    unfolding top_own [OF savedD(5) [OF assms(1)] L(2) pos_cmds_def makes_rows(2)]
    by (rule map_siblings) (rule pos_saved [OF assms(1,2) ids _ pos])
  moreover have "numeric_text (frequency_of (si_frequency inp)) = si_frequency inp"
    using ok by (intro numeric_text_frequency) (simp add: entry_ok_def)
  moreover have "find_word i d' = Some (saved_root i inp now r)"
    using find_saved_root [OF r(1) savedD(15) [OF assms(1)]] .
  ultimately show ?thesis
    unfolding r(2) by (simp add: entry_def entry_of_def stored_entry_def saved_root_def scan_word_def id)
qed

end
