(* ===== verification/WordOthers.thy ===== *)
theory WordOthers
  imports WordSaved
begin

text \<open>
  What the writes do to entries they are not about: a deleted row takes the links to it, and
  nothing else changes. From this follow the effects of deletion and of a save on the other
  entries.
\<close>

subsection \<open>Unlinking\<close>

definition unlink_relation :: "uuid set \<Rightarrow> word_relation \<Rightarrow> word_relation" where
  "unlink_relation S r = r\<lparr>rl_sense := forget S (rl_sense r)\<rparr>"

definition unlink_definition :: "uuid set \<Rightarrow> word_definition \<Rightarrow> word_definition" where
  "unlink_definition S x = x\<lparr>df_struct := forget S (df_struct x)\<rparr>"

definition unlink_tree_sense :: "(tbl \<Rightarrow> uuid set) \<Rightarrow> word_sense \<Rightarrow> word_sense" where
  "unlink_tree_sense D sn = sn\<lparr>sn_group := forget (D T_groups) (sn_group sn),
     sn_definitions := map (unlink_definition (D T_structs)) (sn_definitions sn),
     sn_relations := map (unlink_relation (D T_senses)) (sn_relations sn)\<rparr>"

definition unlink_pos :: "(tbl \<Rightarrow> uuid set) \<Rightarrow> word_pos \<Rightarrow> word_pos" where
  "unlink_pos D po = po\<lparr>po_senses := map (unlink_tree_sense D) (po_senses po)\<rparr>"

definition unlink_entry :: "(tbl \<Rightarrow> uuid set) \<Rightarrow> word_entry \<Rightarrow> word_entry" where
  "unlink_entry D e = e\<lparr>we_pos := map (unlink_pos D) (we_pos e)\<rparr>"

lemma insort_key_map: "(\<And>x. k (f x) = k x) \<Longrightarrow> insort_key k (f x) (map f xs) = map f (insort_key k x xs)"
  by (induction xs) simp_all

lemma sort_key_image: "(\<And>x. k (f x) = k x) \<Longrightarrow> sort_key k (map f xs) = map f (sort_key k xs)"
  by (induction xs) (simp_all add: insort_key_map)

lemma children_on_data: "children p (map (on_data f) rows) = map (on_data f) (children p rows)"
proof -
  have "filter (\<lambda>r. row_parent r = p) (map (on_data f) rows) = map (on_data f) (filter (\<lambda>r. row_parent r = p) rows)"
    by (simp add: filter_map o_def)
  then show ?thesis by (simp only: children_def sort_key_image [where k = row_order and f = "on_data f", OF on_data_sel(3)])
qed

lemma children_alive: "A \<inter> below S rows = {} \<Longrightarrow> p \<in> S \<Longrightarrow> children p (alive A rows) = children p rows"
proof -
  assume a: "A \<inter> below S rows = {}" "p \<in> S"
  then have "row_id r \<notin> A" if "r \<in> set rows" "row_parent r = p" for r
    using that by (auto simp: below_def)
  then have "filter (\<lambda>r. row_parent r = p) (alive A rows) = filter (\<lambda>r. row_parent r = p) rows"
    unfolding alive_def filter_filter by (intro filter_cong) auto
  then show ?thesis by (simp only: children_def)
qed

lemma child_below: "r \<in> set (children p rows) \<Longrightarrow> p \<in> S \<Longrightarrow> row_id r \<in> below S rows"
  by (auto simp: set_children below_def)

lemma scan_unlinked:
  "scan_definition (on_data (unlink_struct S) x) = unlink_definition S (scan_definition x)"
  "scan_relation (on_data (unlink_sense S) y) = unlink_relation S (scan_relation y)"
  by (simp_all add: scan_definition_def unlink_definition_def unlink_struct_def scan_relation_def unlink_relation_def
      unlink_sense_def Let_def)

lemma prune_entry:
  assumes "\<And>T. D T \<inter> set (scope T j d) = {}"
  shows "entry j (prune D d) = map_option (unlink_entry D) (entry j d)"
proof -
  have form: "form_at (prune D d) f = form_at d f" if "row_id f \<in> set (scope T_forms j d)" for f
    by (simp add: form_at_def scan_form_def children_alive [OF assms [of T_prons, unfolded scope_below(4)] that] del: scope.simps)
  have strc: "structure_at (prune D d) g = structure_at d g" if "row_id g \<in> set (scope T_structs j d)" for g
    by (simp add: structure_at_def scan_structure_def children_alive [OF assms [of T_variants, unfolded scope_below(6)] that]
        del: scope.simps)
  have sense: "sense_at (prune D d) (on_data (unlink_group (D T_groups)) sn) = unlink_tree_sense D (sense_at d sn)"
    if "row_id sn \<in> set (scope T_senses j d)" for sn
    by (simp add: sense_at_def scan_sense_def unlink_tree_sense_def unlink_group_def children_on_data scan_unlinked o_def
        children_alive [OF assms [of T_defs, unfolded scope_below(8)] that] Let_def
        children_alive [OF assms [of T_sents, unfolded scope_below(9)] that]
        children_alive [OF assms [of T_rels, unfolded scope_below(10)] that] del: scope.simps)
  have pos: "pos_at (prune D d) p = unlink_pos D (pos_at d p)" if "row_id p \<in> set (scope T_pos j d)" for p
  proof -
    have "map (form_at (prune D d)) (children (row_id p) (w_forms (prune D d))) = map (form_at d) (children (row_id p) (w_forms d))"
      unfolding prune_sel children_alive [OF assms [of T_forms, unfolded scope_below(3)] that]
      by (intro map_cong refl form) (unfold scope_below(3), erule child_below [OF _ that])
    moreover have "map (structure_at (prune D d)) (children (row_id p) (w_structs (prune D d))) =
        map (structure_at d) (children (row_id p) (w_structs d))"
      unfolding prune_sel children_alive [OF assms [of T_structs, unfolded scope_below(5)] that]
      by (intro map_cong refl strc) (unfold scope_below(5), erule child_below [OF _ that])
    moreover have "map (sense_at (prune D d)) (children (row_id p) (w_senses (prune D d))) =
        map (\<lambda>sn. unlink_tree_sense D (sense_at d sn)) (children (row_id p) (w_senses d))"
      unfolding prune_sel children_on_data map_map o_def children_alive [OF assms [of T_senses, unfolded scope_below(7)] that]
      by (intro map_cong refl sense) (unfold scope_below(7), erule child_below [OF _ that])
    ultimately show ?thesis by (simp add: pos_at_def scan_pos_def unlink_pos_def del: prune_sel)
  qed
  have "map (pos_at (prune D d)) (children j (w_pos (prune D d))) = map (\<lambda>p. unlink_pos D (pos_at d p)) (children j (w_pos d))"
    unfolding prune_sel children_alive [OF assms [of T_pos, unfolded scope_below(2)] singletonI]
    by (intro map_cong refl pos) (unfold scope_below(2), erule child_below [OF _ singletonI])
  moreover have "children j (w_groups (prune D d)) = children j (w_groups d)"
    unfolding prune_sel by (rule children_alive [OF assms [of T_groups, unfolded scope_below(1)] singletonI])
  moreover have "find_word j (prune D d) = find_word j d" by (simp add: find_word_def)
  ultimately show ?thesis
    by (cases "find_word j d") (simp_all add: entry_def entry_of_def unlink_entry_def find_word_id del: prune_sel)
qed

text \<open>Two words have no row in common.\<close>

lemma below_disjoint:
  "distinct (map row_id rows) \<Longrightarrow> S \<inter> S' = {} \<Longrightarrow> below S rows \<inter> below S' rows = {}"
  by (auto simp: below_def distinct_map dest: inj_onD)

lemma scope_disjoint:
  assumes "keys_ok d" and "i \<noteq> j"
  shows "set (scope T i d) \<inter> set (scope T j d) = {}"
proof -
  have k: "distinct (map row_id (w_groups d))" "distinct (map row_id (w_pos d))" "distinct (map row_id (w_forms d))"
    "distinct (map row_id (w_prons d))" "distinct (map row_id (w_structs d))" "distinct (map row_id (w_variants d))"
    "distinct (map row_id (w_senses d))" "distinct (map row_id (w_defs d))" "distinct (map row_id (w_sents d))"
    "distinct (map row_id (w_rels d))" using assms(1) by (simp_all add: keys_ok_def)
  have w: "{i} \<inter> {j} = {}" using assms(2) by simp
  have p: "set (scope T_pos i d) \<inter> set (scope T_pos j d) = {}"
    unfolding scope_below(2) by (rule below_disjoint [OF k(2) w])
  have f: "set (scope T_forms i d) \<inter> set (scope T_forms j d) = {}"
    unfolding scope_below(3) by (rule below_disjoint [OF k(3) p])
  have g: "set (scope T_structs i d) \<inter> set (scope T_structs j d) = {}"
    unfolding scope_below(5) by (rule below_disjoint [OF k(5) p])
  have s: "set (scope T_senses i d) \<inter> set (scope T_senses j d) = {}"
    unfolding scope_below(7) by (rule below_disjoint [OF k(7) p])
  show ?thesis
  proof (cases T)
    case T_groups
    show ?thesis unfolding T_groups scope_below(1) by (rule below_disjoint [OF k(1) w])
  next
    case T_prons
    show ?thesis unfolding T_prons scope_below(4) by (rule below_disjoint [OF k(4) f])
  next
    case T_variants
    show ?thesis unfolding T_variants scope_below(6) by (rule below_disjoint [OF k(6) g])
  next
    case T_defs
    show ?thesis unfolding T_defs scope_below(8) by (rule below_disjoint [OF k(8) s])
  next
    case T_sents
    show ?thesis unfolding T_sents scope_below(9) by (rule below_disjoint [OF k(9) s])
  next
    case T_rels
    show ?thesis unfolding T_rels scope_below(10) by (rule below_disjoint [OF k(10) s])
  qed (use p f g s in \<open>simp_all only:\<close>)
qed

subsection \<open>A save and the other entries\<close>

text \<open>Entries depend on the children of their own nodes only.\<close>

lemma entry_cong:
  assumes "find_word j d' = find_word j d" and "children j (w_groups d') = children j (w_groups d)"
    and "children j (w_pos d') = children j (w_pos d)"
    and "\<And>p. p \<in> set (scope T_pos j d) \<Longrightarrow> children p (w_forms d') = children p (w_forms d) \<and>
      children p (w_structs d') = children p (w_structs d) \<and> children p (w_senses d') = children p (w_senses d)"
    and "\<And>p. p \<in> set (scope T_forms j d) \<Longrightarrow> children p (w_prons d') = children p (w_prons d)"
    and "\<And>p. p \<in> set (scope T_structs j d) \<Longrightarrow> children p (w_variants d') = children p (w_variants d)"
    and "\<And>p. p \<in> set (scope T_senses j d) \<Longrightarrow> children p (w_defs d') = children p (w_defs d) \<and>
      children p (w_sents d') = children p (w_sents d) \<and> children p (w_rels d') = children p (w_rels d)"
  shows "entry j d' = entry j d"
proof -
  have pos: "pos_at d' p = pos_at d p" if "row_id p \<in> set (scope T_pos j d)" for p
  proof -
    note c = assms(4) [OF that]
    have "map (form_at d') (children (row_id p) (w_forms d')) = map (form_at d) (children (row_id p) (w_forms d))"
      unfolding conjunct1 [OF c]
    proof (intro map_cong refl)
      fix f assume "f \<in> set (children (row_id p) (w_forms d))"
      then have "row_id f \<in> set (scope T_forms j d)" unfolding scope_below(3) by (rule child_below [OF _ that])
      then show "form_at d' f = form_at d f" by (simp add: form_at_def scan_form_def assms(5) del: scope.simps)
    qed
    moreover have "map (structure_at d') (children (row_id p) (w_structs d')) = map (structure_at d) (children (row_id p) (w_structs d))"
      unfolding conjunct1 [OF conjunct2 [OF c]]
    proof (intro map_cong refl)
      fix g assume "g \<in> set (children (row_id p) (w_structs d))"
      then have "row_id g \<in> set (scope T_structs j d)" unfolding scope_below(5) by (rule child_below [OF _ that])
      then show "structure_at d' g = structure_at d g" by (simp add: structure_at_def scan_structure_def assms(6) del: scope.simps)
    qed
    moreover have "map (sense_at d') (children (row_id p) (w_senses d')) = map (sense_at d) (children (row_id p) (w_senses d))"
      unfolding conjunct2 [OF conjunct2 [OF c]]
    proof (intro map_cong refl)
      fix sn assume "sn \<in> set (children (row_id p) (w_senses d))"
      then have "row_id sn \<in> set (scope T_senses j d)" unfolding scope_below(7) by (rule child_below [OF _ that])
      then show "sense_at d' sn = sense_at d sn" by (simp add: sense_at_def scan_sense_def assms(7) Let_def del: scope.simps)
    qed
    ultimately show ?thesis by (simp add: pos_at_def scan_pos_def)
  qed
  have "map (pos_at d') (children j (w_pos d)) = map (pos_at d) (children j (w_pos d))"
    by (intro map_cong refl pos) (unfold scope_below(2), erule child_below [OF _ singletonI])
  with assms(1-3) show ?thesis
    by (cases "find_word j d") (simp_all add: entry_def entry_of_def find_word_id)
qed

lemma foreign_key:
  assumes "upserts Ep mp pcs prows = Some prows'" and "keeps_id mp" and "distinct (map row_id pcs)"
    and "map row_id pcs = map key ps" and "p \<in> ids_of prows" and "p \<notin> Ep"
  shows "p \<notin> key ` set ps"
proof -
  have "ids_of pcs = key ` set ps" unfolding ids_of_def assms(4) by simp
  then show ?thesis using upserts_known [OF assms(1-3), of p] assms(5,6) by blast
qed

lemma scope_ids:
  "set (scope T_pos j d) \<subseteq> ids_of (w_pos d)" "set (scope T_forms j d) \<subseteq> ids_of (w_forms d)"
  "set (scope T_structs j d) \<subseteq> ids_of (w_structs d)" "set (scope T_senses j d) \<subseteq> ids_of (w_senses d)"
  "set (scope T_groups j d) \<subseteq> ids_of (w_groups d)"
  unfolding scope_below by (auto simp: below_def ids_of_def)

lemma find_other_root:
  "w_words d' = map (saved_root i inp now) (w_words d) \<Longrightarrow> j \<noteq> i \<Longrightarrow> find_word j d' = find_word j d"
proof -
  assume w: "w_words d' = map (saved_root i inp now) (w_words d)" and j: "j \<noteq> i"
  have "find (\<lambda>r. ww_id r = j) (map (saved_root i inp now) ws) = find (\<lambda>r. ww_id r = j) ws" for ws
    using j by (induction ws) (auto simp: saved_root_def)
  with w show ?thesis by (simp add: find_word_def)
qed

text \<open>The parents in another entry are no parents of the body's nodes.\<close>

lemma saved_foreign:
  assumes "saved i inp now D d d'" and "db_ok d" and "distinct (tree_ids inp)" and "j \<noteq> i"
  shows "p \<in> set (scope T j (prune D d)) \<Longrightarrow> p \<notin> set (scope T i d)"
    and "p \<in> set (scope T_pos j (prune D d)) \<Longrightarrow> p \<notin> po_id ` set (si_pos inp)"
    and "p \<in> set (scope T_forms j (prune D d)) \<Longrightarrow> p \<notin> fm_id ` set (all_forms inp)"
    and "p \<in> set (scope T_structs j (prune D d)) \<Longrightarrow> p \<notin> gs_id ` set (all_structures inp)"
    and "p \<in> set (scope T_senses j (prune D d)) \<Longrightarrow> p \<notin> sn_id ` set (all_senses inp)"
proof -
  let ?e = "prune D d"
  note C = cmds_distinct [OF assms(3)] and U = savedD [OF assms(1)]
  have dis: "p \<notin> set (scope T i d)" if "p \<in> set (scope T j ?e)" for T
    using that scope_prune [of T j D d] scope_disjoint [OF db_ok_keys [OF assms(2)] assms(4)] by blast
  show "p \<in> set (scope T j ?e) \<Longrightarrow> p \<notin> set (scope T i d)" by (rule dis)
  show "p \<notin> po_id ` set (si_pos inp)" if "p \<in> set (scope T_pos j ?e)"
    by (rule foreign_key [OF U(5) _ C(1) parent_keys(1)]) (use subsetD [OF scope_ids(1) that] dis [OF that] in simp_all)
  show "p \<notin> fm_id ` set (all_forms inp)" if "p \<in> set (scope T_forms j ?e)"
    by (rule foreign_key [OF U(6) _ C(2) parent_keys(2)]) (use subsetD [OF scope_ids(2) that] dis [OF that] in simp_all)
  show "p \<notin> gs_id ` set (all_structures inp)" if "p \<in> set (scope T_structs j ?e)"
    by (rule foreign_key [OF U(8) _ C(4) parent_keys(3)]) (use subsetD [OF scope_ids(3) that] dis [OF that] in simp_all)
  show "p \<notin> sn_id ` set (all_senses inp)" if "p \<in> set (scope T_senses j ?e)"
    by (rule foreign_key [OF U(10) _ C(6) parent_keys(4)]) (use subsetD [OF scope_ids(4) that] dis [OF that] in simp_all)
qed

lemma saved_other_children:
  assumes "saved i inp now D d d'" and "db_ok d" and "distinct (tree_ids inp)" and "j \<noteq> i"
  shows "children j (w_pos d') = children j (w_pos (prune D d))"
    and "p \<in> set (scope T_pos j (prune D d)) \<Longrightarrow> children p (w_senses d') = children p (w_senses (prune D d))"
proof -
  note L = saved_levels [OF assms(1-3)] and U = savedD [OF assms(1)] and F = saved_foreign [OF assms]
  show "children j (w_pos d') = children j (w_pos (prune D d))"
    by (rule top_other [OF U(5) L(2) pos_cmds_def makes_rows(2) assms(4)])
  show "children p (w_senses d') = children p (w_senses (prune D d))" if "p \<in> set (scope T_pos j (prune D d))"
    by (rule other_children [OF U(10) keeps_id_merges(2) keeps_parent_merges(1) L(7) sense_cmds_def makes_rows(7)
          F(2) [OF that] F(1) [OF that]])
qed

lemma saved_other:
  assumes "saved i inp now D d d'" and "db_ok d" and "distinct (tree_ids inp)" and "j \<noteq> i"
  shows "entry j d' = map_option (unlink_entry D) (entry j d)"
proof -
  let ?e = "prune D d"
  note L = saved_levels [OF assms(1-3)] and U = savedD [OF assms(1)] and F = saved_foreign [OF assms]
    and O = saved_other_children [OF assms]
  have "entry j d' = entry j ?e"
  proof (rule entry_cong)
    show "find_word j d' = find_word j ?e"
      using find_other_root [OF U(15) assms(4)] by (simp add: find_word_def)
    show "children j (w_groups d') = children j (w_groups ?e)"
      by (rule top_other [OF U(4) L(1) group_cmds_def makes_rows(1) assms(4)])
    show "children j (w_pos d') = children j (w_pos ?e)"
      by (rule O(1))
  next
    fix p assume p: "p \<in> set (scope T_pos j ?e)"
    show "children p (w_forms d') = children p (w_forms ?e) \<and> children p (w_structs d') = children p (w_structs ?e) \<and>
        children p (w_senses d') = children p (w_senses ?e)"
      by (intro conjI other_children [OF U(6) keeps_id_merges(2) keeps_parent_merges(1) L(3) form_cmds_def makes_rows(3) F(2) [OF p] F(1) [OF p]]
        other_children [OF U(8) keeps_id_merges(2) keeps_parent_merges(1) L(5) struct_cmds_def makes_rows(5) F(2) [OF p] F(1) [OF p]]
        O(2) [OF p])
  next
    fix p assume p: "p \<in> set (scope T_forms j ?e)"
    show "children p (w_prons d') = children p (w_prons ?e)"
      by (rule other_children [OF U(7) keeps_id_merges(3) keeps_parent_merges(2) L(4) pron_cmds_def makes_rows(4) F(3) [OF p] F(1) [OF p]])
  next
    fix p assume p: "p \<in> set (scope T_structs j ?e)"
    show "children p (w_variants d') = children p (w_variants ?e)"
      by (rule other_children [OF U(9) keeps_id_merges(4) keeps_parent_merges(3) L(6) variant_cmds_def makes_rows(6) F(4) [OF p] F(1) [OF p]])
  next
    fix p assume p: "p \<in> set (scope T_senses j ?e)"
    show "children p (w_defs d') = children p (w_defs ?e) \<and> children p (w_sents d') = children p (w_sents ?e) \<and>
        children p (w_rels d') = children p (w_rels ?e)"
      by (intro conjI other_children [OF U(11) keeps_id_merges(5) keeps_parent_merges(4) L(8) def_cmds_def makes_rows(8) F(5) [OF p] F(1) [OF p]]
        other_children [OF U(12) keeps_id_merges(6) keeps_parent_merges(5) L(9) sent_cmds_def makes_rows(9) F(5) [OF p] F(1) [OF p]]
        other_children [OF U(13) keeps_rel keeps_parent_merges(6) L(10) rel_cmds_def makes_rel F(5) [OF p] F(1) [OF p]])
  qed
  also have "\<dots> = map_option (unlink_entry D) (entry j d)"
    by (rule prune_entry) (use U(2) scope_disjoint [OF db_ok_keys [OF assms(2)] assms(4)] in blast)
  finally show ?thesis .
qed

subsection \<open>Deletion and the other entries\<close>

definition unlink_relation_word :: "uuid set \<Rightarrow> word_relation \<Rightarrow> word_relation" where
  "unlink_relation_word S r = r\<lparr>rl_word := forget S (rl_word r)\<rparr>"

definition unlink_words :: "uuid set \<Rightarrow> word_entry \<Rightarrow> word_entry" where
  "unlink_words S e = e\<lparr>we_pos := map (\<lambda>po. po\<lparr>po_senses := map (\<lambda>sn. sn\<lparr>sn_relations :=
     map (unlink_relation_word S) (sn_relations sn)\<rparr>) (po_senses po)\<rparr>) (we_pos e)\<rparr>"

lemma entry_unlink_words:
  assumes "w_rels d' = map (on_data (unlink_word S)) (w_rels d)" and "find_word j d' = find_word j d"
    and "w_groups d' = w_groups d" and "w_pos d' = w_pos d" and "w_forms d' = w_forms d" and "w_prons d' = w_prons d"
    and "w_structs d' = w_structs d" and "w_variants d' = w_variants d" and "w_senses d' = w_senses d"
    and "w_defs d' = w_defs d" and "w_sents d' = w_sents d"
  shows "entry j d' = map_option (unlink_words S) (entry j d)"
proof -
  have rel: "scan_relation (on_data (unlink_word S) y) = unlink_relation_word S (scan_relation y)" for y
    by (simp add: scan_relation_def unlink_relation_word_def unlink_word_def Let_def)
  have "form_at d' = form_at d" "structure_at d' = structure_at d"
    using assms by (simp_all add: form_at_def structure_at_def)
  moreover have "sense_at d' sn = (sense_at d sn)\<lparr>sn_relations := map (unlink_relation_word S) (sn_relations (sense_at d sn))\<rparr>" for sn
    using assms by (simp add: sense_at_def scan_sense_def Let_def children_on_data rel o_def)
  ultimately have "pos_at d' p = (pos_at d p)\<lparr>po_senses := map (\<lambda>sn. sn\<lparr>sn_relations :=
      map (unlink_relation_word S) (sn_relations sn)\<rparr>) (po_senses (pos_at d p))\<rparr>" for p
    using assms by (simp add: pos_at_def scan_pos_def o_def)
  then show ?thesis
    using assms(2-4) by (cases "find_word j d") (simp_all add: entry_def entry_of_def unlink_words_def o_def)
qed

lemma killed_scope: "i \<in> S \<Longrightarrow> set (scope T i d) \<subseteq> killed_words S d T"
  unfolding killed_words_def
  by (cases T) (auto simp: set_scope simp del: scope.simps intro: below_mono [THEN subsetD, rotated])

lemma below_UN: "below (\<Union>i \<in> S. f i) rows = (\<Union>i \<in> S. below (f i) rows)"
  by (auto simp: below_def)

lemma below_single: "below S rows = (\<Union>i \<in> S. below {i} rows)"
  by (auto simp: below_def)

lemma killed_words_scope: "killed_words S d T \<subseteq> (\<Union>i \<in> S. set (scope T i d))"
proof -
  have "killed_words S d T = (\<Union>i \<in> S. set (scope T i d))"
    unfolding killed_words_def below_single [of S "w_pos d"] below_single [of S "w_groups d"]
    by (cases T) (simp_all only: set_scope kill.simps tbl.simps below_UN if_False if_True simp_thms Un_empty_left Un_empty_right)
  then show ?thesis by simp
qed

lemma killed_words_disjoint:
  assumes "db_ok d" and "j \<notin> S"
  shows "killed_words S d T \<inter> set (scope T j d) = {}"
proof -
  have "set (scope T i d) \<inter> set (scope T j d) = {}" if "i \<in> S" for i
    using that assms(2) by (intro scope_disjoint [OF db_ok_keys [OF assms(1)]]) auto
  then show ?thesis using killed_words_scope [of S d T] by (meson UN_E disjoint_iff subsetD)
qed

lemma deleted_entry:
  assumes "db_ok d"
  shows "entry j (delete_words is d) =
    (if j \<in> set is then None
     else map_option (\<lambda>e. unlink_words (set is) (unlink_entry (killed_words (set is) d) e)) (entry j d))"
proof (cases "j \<in> set is")
  case True
  then have "find_word j (delete_words is d) = None"
    unfolding delete_words_prune [OF db_ok_keys [OF assms]] by (auto simp: find_word_def find_None_iff)
  with True show ?thesis by (simp add: entry_def)
next
  case False
  let ?D = "killed_words (set is) d" and ?e = "prune (killed_words (set is) d) d"
  have find: "find (\<lambda>r. ww_id r = j) (filter (\<lambda>r. ww_id r \<notin> set is) ws) = find (\<lambda>r. ww_id r = j) ws" for ws :: "word_row list"
    using False by (induction ws) auto
  have "?D T \<inter> set (scope T j d) = {}" for T using assms False by (rule killed_words_disjoint)
  then have p: "entry j ?e = map_option (unlink_entry ?D) (entry j d)" by (rule prune_entry)
  have "entry j (delete_words is d) = map_option (unlink_words (set is)) (entry j ?e)"
    unfolding delete_words_prune [OF db_ok_keys [OF assms]]
    by (rule entry_unlink_words) (simp_all add: find_word_def find del: prune_sel(3-) killed_words_def)
  with False p show ?thesis by (simp add: option.map_comp o_def)
qed

end
