(* ===== verification/WordLinks.thy ===== *)
theory WordLinks
  imports WordOthers
begin

text \<open>
  A link's sense belongs to the word the link names: the writes keep it, although each of them
  may drop senses and words.
\<close>

subsection \<open>Links\<close>

definition links_ok :: "word_db \<Rightarrow> bool" where
  "links_ok d \<longleftrightarrow> (\<forall>r \<in> set (w_rels d). \<forall>s. rc_sense (row_data r) = Some s \<longrightarrow>
     (\<exists>i. rc_word (row_data r) = Some i \<and> s \<in> set (scope T_senses i d)))"

lemma below_alive_eq: "A \<inter> below S rows = {} \<Longrightarrow> below S (alive A rows) = below S rows"
  by (auto simp: below_def)

lemma scope_prune_eq:
  assumes "\<And>T. D T \<inter> set (scope T j d) = {}"
  shows "set (scope T_senses j (prune D d)) = set (scope T_senses j d)"
proof -
  have p: "set (scope T_pos j (prune D d)) = set (scope T_pos j d)"
    unfolding scope_below(2) prune_sel by (rule below_alive_eq [OF assms [of T_pos, unfolded scope_below(2)]])
  show ?thesis
    unfolding scope_below(7) p prune_sel below_on_data
    by (rule below_alive_eq [OF assms [of T_senses, unfolded scope_below(7)]])
qed

lemma in_scope_sense:
  "x \<in> set (children p (w_senses d)) \<Longrightarrow> p \<in> set (scope T_pos j d) \<Longrightarrow> row_id x \<in> set (scope T_senses j d)"
  unfolding scope_below(7) by (rule child_below)

lemma scope_senseE:
  assumes "s \<in> set (scope T_senses j d)"
  obtains q x where "q \<in> set (children j (w_pos d))" and "x \<in> set (children (row_id q) (w_senses d))" and "row_id x = s"
  using assms unfolding scope_below by (auto simp: below_def set_children)

text \<open>A sense a save did not drop is still its word's.\<close>

lemma saved_scope:
  assumes "saved i inp now D d d'" and "db_ok d" and "distinct (tree_ids inp)"
    and "s \<in> set (scope T_senses j d)" and "s \<notin> D T_senses"
  shows "s \<in> set (scope T_senses j d')"
proof (cases "j = i")
  case True
  note L = saved_levels [OF assms(1-3)] and U = savedD [OF assms(1)] and C = cmds_distinct [OF assms(3)]
  have "s \<in> set (incoming inp T_senses)" using U(3) [of T_senses] assms(4,5) True by blast
  then obtain po sn where po: "po \<in> set (si_pos inp)" and sn: "sn \<in> set (po_senses po)" "sn_id sn = s" by auto
  have "map (\<lambda>r. row_id r) (children (po_id po) (w_senses d')) = map sn_id (po_senses po)"
    by (rule own_map [OF U(10) _ _ L(7) U(5) _ C(1) parent_keys(1) sense_cmds_def makes_rows(7) po])
      (simp_all add: sense_row_of_def sense_row_def mk_row_def)
  with sn obtain x where x: "x \<in> set (children (po_id po) (w_senses d'))" "row_id x = s"
    by (metis (no_types, lifting) image_iff list.set_map)
  have "map row_id (children i (w_pos d')) = map po_id (si_pos inp)"
    unfolding top_own [OF U(5) L(2) pos_cmds_def makes_rows(2)] by (rule siblings_ids [OF makes_rows(2)])
  with po obtain q where "q \<in> set (children i (w_pos d'))" "row_id q = po_id po"
    by (metis (no_types, lifting) image_iff list.set_map)
  then have "po_id po \<in> set (scope T_pos i d')" unfolding scope_below(2) using child_below [of q i _ "{i}"] by fastforce
  then show ?thesis using in_scope_sense [OF x(1)] x(2) True by simp
next
  case False
  note U = savedD [OF assms(1)]
  have dis: "D T \<inter> set (scope T j d) = {}" for T
    using U(2) [of T] scope_disjoint [OF db_ok_keys [OF assms(2)] False, of T] by blast
  have s: "s \<in> set (scope T_senses j (prune D d))" using scope_prune_eq [OF dis] assms(4) by simp
  then obtain q x where q: "q \<in> set (children j (w_pos (prune D d)))"
    and x: "x \<in> set (children (row_id q) (w_senses (prune D d)))" "row_id x = s"
    by (rule scope_senseE)
  have p: "row_id q \<in> set (scope T_pos j (prune D d))" unfolding scope_below(2) by (rule child_below [OF q]) simp
  note c = saved_other_children [OF assms(1-3) False]
  have "row_id q \<in> set (scope T_pos j d')"
    unfolding scope_below(2) by (rule child_below [of _ j]) (use q c(1) in simp_all)
  with x c(2) [OF p] show ?thesis using in_scope_sense [of x "row_id q" d' j] by simp
qed

lemma siblings_mem: "r \<in> set (siblings mk p xs) \<Longrightarrow> \<exists>n x. x \<in> set xs \<and> r = mk p n x"
  by (force simp: siblings_def dest: in_set_enumerate_eq [THEN iffD1])

lemma links_okD:
  assumes "links_ok d" and "r \<in> set (w_rels d)" and "rc_sense (row_data r) = Some s"
  obtains i where "rc_word (row_data r) = Some i" and "s \<in> set (scope T_senses i d)"
  using assms unfolding links_ok_def by blast

lemma forget_Some: "forget S x = Some s \<longleftrightarrow> x = Some s \<and> s \<notin> S"
  by (cases x) (auto simp: forget_def)

lemma saved_links:
  assumes "saved i inp now D d d'" and "db_ok d" and "distinct (tree_ids inp)"
    and "\<forall>sn \<in> set (all_senses inp). \<forall>r \<in> set (sn_relations sn). relation_ok r" and "links_ok d"
  shows "links_ok d'"
proof -
  note U = savedD [OF assms(1)]
  let ?old = "w_rels (prune D d)" and ?E = "set (scope T_rels i d)"
  have kept: "\<exists>j. rc_word (row_data q) = Some j \<and> s \<in> set (scope T_senses j d')"
    if q: "q \<in> set ?old" and qs: "rc_sense (row_data q) = Some s" for q s
  proof -
    obtain p where p: "p \<in> set (w_rels d)" "q = on_data (unlink_sense (D T_senses)) p" using q by auto
    then have s: "rc_sense (row_data p) = Some s" "s \<notin> D T_senses"
      and w: "rc_word (row_data q) = rc_word (row_data p)"
      using qs by (auto simp: unlink_sense_def forget_Some)
    from links_okD [OF assms(5) p(1) s(1)] obtain j where "rc_word (row_data p) = Some j" "s \<in> set (scope T_senses j d)" .
    with w saved_scope [OF assms(1-3) _ s(2)] show ?thesis by metis
  qed
  have d: "distinct (map row_id ?old)"
    using db_ok_keys [OF db_ok_prune [OF assms(2) U(1)]] by (simp only: keys_ok_def)
  show ?thesis
    unfolding links_ok_def
  proof (intro ballI allI impI)
    fix q s assume q: "q \<in> set (w_rels d')" and s: "rc_sense (row_data q) = Some s"
    from q consider "q \<in> set ?old" | c where "c \<in> set (rel_cmds d' inp)" "q = stored ?E rel_merge ?old c"
      using set_upserts [OF U(13) keeps_rel cmds_distinct(9) [OF assms(3)] d] by auto
    then show "\<exists>j. rc_word (row_data q) = Some j \<and> s \<in> set (scope T_senses j d')"
    proof cases
      case 1
      then show ?thesis using kept s by blast
    next
      case (2 c)
      then obtain sn n r where sn: "sn \<in> set (all_senses inp)" "r \<in> set (sn_relations sn)" and c: "c = rel_mk d' (sn_id sn) n r"
        unfolding rel_cmds_def blocks_def by (auto dest!: siblings_mem)
      have r: "relation_ok r" using assms(4) sn by blast
      have new: "\<exists>j. rc_word (row_data c) = Some j \<and> s \<in> set (scope T_senses j d')" if "rc_sense (row_data c) = Some s"
      proof -
        have rs: "rl_sense r = Some s" using that by (simp add: c rel_mk_def rel_row_def mk_row_def)
        then obtain j where "rl_word r = Some j" using r by (cases "rl_word r") (auto simp: relation_ok_def)
        with rs U(14) [OF sn] show ?thesis by (auto simp: resolved_def c rel_mk_def rel_row_def mk_row_def simp del: scope.simps)
      qed
      show ?thesis
      proof (cases "row_id c \<in> ?E")
        case False
        then show ?thesis using new s 2(2) by (simp add: stored_def)
      next
        case True
        then have "row_id c \<in> ids_of ?old"
          using upserts_known [OF U(13) keeps_rel cmds_distinct(9) [OF assms(3)] ids_ofI [OF 2(1)]] by blast
        then obtain p where l: "lookup (row_id c) ?old = Some p" using lookup_None by (metis not_Some_eq)
        then have p: "p \<in> set ?old" using lookup_Some [OF d] by blast
        have m: "q = rel_merge p c" using 2(2) True l by (simp add: stored_def)
        show ?thesis
        proof (cases "rc_word (row_data c) = None")
          case True
          then show ?thesis using kept [OF p, of s] s unfolding m by (simp add: rel_merge_def keep_target_def del: scope.simps)
        next
          case False
          then show ?thesis using new s unfolding m
            by (cases "rc_sense (row_data c)") (auto simp: rel_merge_def keep_gloss_def simp del: scope.simps)
        qed
      qed
    qed
  qed
qed

lemma deleted_links:
  assumes "db_ok d" and "links_ok d"
  shows "links_ok (delete_words is d)"
  unfolding links_ok_def
proof (intro ballI allI impI)
  let ?K = "killed_words (set is) d"
  fix q s assume q: "q \<in> set (w_rels (delete_words is d))" and s: "rc_sense (row_data q) = Some s"
  from q obtain p where p: "p \<in> set (w_rels d)"
    and e: "q = on_data (unlink_word (set is)) (on_data (unlink_sense (?K T_senses)) p)"
    unfolding delete_words_prune [OF db_ok_keys [OF assms(1)]] by auto
  from s have ps: "rc_sense (row_data p) = Some s" "s \<notin> ?K T_senses"
    unfolding e by (auto simp: unlink_word_def unlink_sense_def forget_Some)
  from links_okD [OF assms(2) p ps(1)] obtain j where j: "rc_word (row_data p) = Some j" "s \<in> set (scope T_senses j d)" .
  have ji: "j \<notin> set is" using killed_scope [of j "set is" T_senses d] j(2) ps(2) by blast
  have "?K T \<inter> set (scope T j d) = {}" for T
    using killed_words_disjoint [OF assms(1) ji] .
  then have "s \<in> set (scope T_senses j (prune ?K d))" using scope_prune_eq j(2) by blast
  moreover have "scope T_senses j (delete_words is d) = scope T_senses j (prune ?K d)"
    unfolding delete_words_prune [OF db_ok_keys [OF assms(1)]] by simp
  ultimately have "s \<in> set (scope T_senses j (delete_words is d))" by (simp only:)
  moreover have "rc_word (row_data q) = Some j" unfolding e using j(1) ji by (simp add: unlink_word_def unlink_sense_def forget_def)
  ultimately show "\<exists>j. rc_word (row_data q) = Some j \<and> s \<in> set (scope T_senses j (delete_words is d))" by blast
qed

end
