(* ===== verification/WordInv.thy ===== *)
theory WordInv
  imports WordLinks
begin

text \<open>
  Well-formed entries and complete ones: an entry is well-formed when what is read can be sent
  back and passes the structural validation, and complete when it satisfies V1 to V9. The
  server's own columns and the links to other entries have no part in either.
\<close>

subsection \<open>Bodies\<close>

text \<open>The body that sends an entry back as it was read.\<close>

definition body_sense :: "word_sense \<Rightarrow> word_sense" where
  "body_sense sn = sn\<lparr>sn_relations := map normal_relation (sn_relations sn)\<rparr>"

definition body_pos :: "word_pos \<Rightarrow> word_pos" where
  "body_pos po = po\<lparr>po_senses := map body_sense (po_senses po)\<rparr>"

definition body_of :: "word_entry \<Rightarrow> save_input" where
  "body_of e = \<lparr>si_base = we_updated_at e, si_frequency = we_frequency e, si_mode = we_mode e, si_dialects = we_dialects e,
     si_groups = we_groups e, si_pos = map body_pos (we_pos e)\<rparr>"

definition entry_wf :: "word_entry \<Rightarrow> bool" where
  "entry_wf e \<longleftrightarrow> entry_ok (we_frequency e) (we_mode e) (we_dialects e) (we_groups e) (map body_pos (we_pos e)) \<and>
     distinct (tree_ids (body_of e)) \<and> uuid_Nil \<notin> set (tree_ids (body_of e)) \<and>
     length (tree_ids (body_of e)) \<le> maxTreeNodes"

lemma entry_wf_tree: "tree_ok (body_of e) \<longleftrightarrow> we_updated_at e \<noteq> zero_time \<and> entry_wf e"
  by (simp add: tree_ok_def entry_wf_def body_of_def)

text \<open>No link names a sense without a word.\<close>

definition links_wf :: "word_entry \<Rightarrow> bool" where
  "links_wf e \<longleftrightarrow> (\<forall>po \<in> set (we_pos e). \<forall>sn \<in> set (po_senses po). \<forall>r \<in> set (sn_relations sn).
     rl_word r = None \<longrightarrow> rl_sense r = None)"

lemma entry_links:
  assumes "links_ok d" and "entry j d = Some e"
  shows "links_wf e"
  unfolding links_wf_def
proof (intro ballI impI)
  fix po sn r assume e: "po \<in> set (we_pos e)" "sn \<in> set (po_senses po)" "r \<in> set (sn_relations sn)" and n: "rl_word r = None"
  obtain w where "e = entry_of d w" using assms(2) by (auto simp: entry_def)
  with e(1) obtain p where "po = pos_at d p" by (auto simp: entry_of_def)
  with e(2) obtain x where "sn = sense_at d x" by (auto simp: pos_at_def scan_pos_def)
  with e(3) obtain q where q: "q \<in> set (w_rels d)" "r = scan_relation q"
    by (auto simp: sense_at_def scan_sense_def Let_def set_children)
  show "rl_sense r = None"
  proof (rule ccontr)
    assume "rl_sense r \<noteq> None"
    then obtain s where "rc_sense (row_data q) = Some s" using q(2) by (auto simp: scan_relation_def Let_def)
    from links_okD [OF assms(1) q(1) this] show False using n q(2) by (simp add: scan_relation_def Let_def)
  qed
qed

subsection \<open>What the server's columns do not touch\<close>

lemma stored_ok:
  "pron_ok (stored_pron d pr) = pron_ok pr" "form_ok A (stored_form d f) = form_ok A f"
  "variant_ok A (stored_variant d v) = variant_ok A v" "structure_ok A (stored_structure d g) = structure_ok A g"
  "definition_ok ss (stored_definition d x) = definition_ok ss x" "sentence_ok (stored_sentence d t) = sentence_ok t"
proof -
  show p: "pron_ok (stored_pron d pr) = pron_ok pr" for pr by (simp add: pron_ok_def stored_pron_def Let_def)
  show "form_ok A (stored_form d f) = form_ok A f" by (simp add: form_ok_def stored_form_def p)
  show v: "variant_ok A (stored_variant d v) = variant_ok A v" for v by (simp add: variant_ok_def stored_variant_def Let_def)
  have "map gv_dialect (map (stored_variant d) vs) = map gv_dialect vs" for vs by (simp add: stored_variant_def Let_def)
  then show "structure_ok A (stored_structure d g) = structure_ok A g"
    by (simp add: structure_ok_def stored_structure_def v del: map_map)
  show "definition_ok ss (stored_definition d x) = definition_ok ss x"
    by (simp add: definition_ok_def stored_definition_def Let_def)
  show "sentence_ok (stored_sentence d t) = sentence_ok t" by (simp add: sentence_ok_def stored_sentence_def Let_def)
qed

lemma stored_ids [simp]:
  "form_ids (stored_form d f) = form_ids f" "structure_ids (stored_structure d g) = structure_ids g"
  "sense_ids (body_sense (stored_sense d d' sn)) = sense_ids sn" "pos_ids (body_pos (stored_pos d d' po)) = pos_ids po"
proof -
  show f: "form_ids (stored_form d f) = form_ids f" for f
    by (simp add: form_ids_def stored_form_def stored_pron_def Let_def)
  show g: "structure_ids (stored_structure d g) = structure_ids g" for g
    by (simp add: structure_ids_def stored_structure_def stored_variant_def Let_def)
  have r: "rl_id (stored_relation d d' r) = rl_id r" for r
    by (simp add: stored_relation_def split: option.split)
  show s: "sense_ids (body_sense (stored_sense d d' sn)) = sense_ids sn" for sn
    by (simp add: sense_ids_def body_sense_def stored_sense_def stored_definition_def stored_sentence_def Let_def o_def r)
  show "pos_ids (body_pos (stored_pos d d' po)) = pos_ids po"
    by (simp add: pos_ids_def body_pos_def stored_pos_def o_def f g s)
qed

lemma stored_relation_ok:
  "relation_ok r \<Longrightarrow> (rl_word (stored_relation d d' r) = None \<longrightarrow> rl_sense (stored_relation d d' r) = None) \<Longrightarrow>
    relation_ok (normal_relation (stored_relation d d' r))"
  by (auto simp: relation_ok_def normal_relation_def stored_relation_def split: option.splits)

lemma stored_sense_ok:
  assumes "sense_ok gs ss sn" and "\<forall>r \<in> set (sn_relations (stored_sense d d' sn)). rl_word r = None \<longrightarrow> rl_sense r = None"
  shows "sense_ok gs ss (body_sense (stored_sense d d' sn))"
  using assms by (auto simp: sense_ok_def body_sense_def stored_sense_def stored_ok intro!: stored_relation_ok)

lemma stored_entry_wf:
  assumes "tree_ok inp" and "links_wf (stored_entry d d' inp now e)"
  shows "entry_wf (stored_entry d d' inp now e)"
proof -
  let ?e = "stored_entry d d' inp now e"
  have ids: "tree_ids (body_of ?e) = tree_ids inp"
    by (simp add: tree_ids_def body_of_def stored_entry_def o_def)
  have "pos_ok A gs (body_pos (stored_pos d d' po))" if "po \<in> set (si_pos inp)" "pos_ok A gs po" for A gs po
  proof -
    have "map gs_id (map (stored_structure d) (po_structures po)) = map gs_id (po_structures po)"
      by (simp add: stored_structure_def)
    moreover have "sense_ok gs ss (body_sense (stored_sense d d' sn))" if "sn \<in> set (po_senses po)" "sense_ok gs ss sn" for ss sn
      using assms(2) that \<open>po \<in> set (si_pos inp)\<close>
      by (intro stored_sense_ok) (auto simp: links_wf_def stored_entry_def stored_pos_def)
    ultimately show ?thesis
      using that(2) by (auto simp: pos_ok_def body_pos_def stored_pos_def stored_ok simp del: map_map)
  qed
  then have "entry_ok (we_frequency ?e) (we_mode ?e) (we_dialects ?e) (we_groups ?e) (map body_pos (we_pos ?e))"
    using assms(1) by (auto simp: tree_ok_def entry_ok_def stored_entry_def body_pos_def stored_pos_def o_def)
  with assms(1) show ?thesis unfolding entry_wf_def ids by (simp add: tree_ok_def)
qed

text \<open>Losing links keeps an entry well-formed.\<close>

lemma forget_subset: "set_option (forget S x) \<subseteq> set_option x"
  by (simp add: set_forget)

lemma unlink_ids [simp]:
  "pos_ids (body_pos (unlink_pos D po)) = pos_ids (body_pos po)"
proof -
  have "sense_ids (body_sense (unlink_tree_sense D sn)) = sense_ids (body_sense sn)" for sn
    by (simp add: sense_ids_def body_sense_def unlink_tree_sense_def unlink_definition_def unlink_relation_def o_def)
  then show ?thesis by (simp add: pos_ids_def body_pos_def unlink_pos_def o_def)
qed

lemma unlink_entry_wf:
  assumes "entry_wf e"
  shows "entry_wf (unlink_entry D e)"
proof -
  let ?e = "unlink_entry D e"
  have ids: "tree_ids (body_of ?e) = tree_ids (body_of e)"
    by (simp add: tree_ids_def body_of_def unlink_entry_def o_def)
  have def: "definition_ok ss (unlink_definition S x)" if "definition_ok ss x" for ss S x
    using that forget_subset [of S "df_struct x"] by (auto simp: definition_ok_def unlink_definition_def)
  have rel: "relation_ok (normal_relation (unlink_relation S r))" if "relation_ok (normal_relation r)" for S r
    using that by (auto simp: relation_ok_def normal_relation_def unlink_relation_def forget_def)
  have sense: "sense_ok gs ss (body_sense (unlink_tree_sense D sn))" if "sense_ok gs ss (body_sense sn)" for gs ss sn
    using that forget_subset [of "D T_groups" "sn_group sn"] def rel
    by (auto simp: sense_ok_def body_sense_def unlink_tree_sense_def)
  have "pos_ok A gs (body_pos (unlink_pos D po))" if "pos_ok A gs (body_pos po)" for A gs po
    using that sense by (auto simp: pos_ok_def body_pos_def unlink_pos_def)
  then have "entry_ok (we_frequency ?e) (we_mode ?e) (we_dialects ?e) (we_groups ?e) (map body_pos (we_pos ?e))"
    using assms by (auto simp: entry_wf_def entry_ok_def unlink_entry_def body_pos_def unlink_pos_def o_def)
  with assms show ?thesis unfolding entry_wf_def ids by blast
qed

lemma unlink_words_wf:
  assumes "entry_wf e" and "links_wf (unlink_words S e)"
  shows "entry_wf (unlink_words S e)"
proof -
  let ?sn = "\<lambda>sn. sn\<lparr>sn_relations := map (unlink_relation_word S) (sn_relations sn)\<rparr>"
  let ?po = "\<lambda>po. po\<lparr>po_senses := map ?sn (po_senses po)\<rparr>"
  have u: "unlink_words S e = e\<lparr>we_pos := map ?po (we_pos e)\<rparr>" by (simp add: unlink_words_def)
  have "sense_ids (body_sense (?sn sn)) = sense_ids (body_sense sn)" for sn
    by (simp add: sense_ids_def body_sense_def unlink_relation_word_def o_def)
  then have "pos_ids (body_pos (?po po)) = pos_ids (body_pos po)" for po
    by (simp add: pos_ids_def body_pos_def o_def)
  then have ids: "tree_ids (body_of (unlink_words S e)) = tree_ids (body_of e)"
    by (simp add: tree_ids_def body_of_def u o_def)
  have rel: "relation_ok (normal_relation (unlink_relation_word S r))"
    if "relation_ok (normal_relation r)" "rl_word (unlink_relation_word S r) = None \<longrightarrow> rl_sense (unlink_relation_word S r) = None" for r
    using that by (auto simp: relation_ok_def normal_relation_def unlink_relation_word_def)
  have sense: "sense_ok gs ss (body_sense (?sn sn))"
    if "sense_ok gs ss (body_sense sn)" "\<forall>r \<in> set (sn_relations (?sn sn)). rl_word r = None \<longrightarrow> rl_sense r = None" for gs ss sn
    using that rel by (auto simp: sense_ok_def body_sense_def)
  have "pos_ok A gs (body_pos (?po po))" if "pos_ok A gs (body_pos po)" "po \<in> set (we_pos e)" for A gs po
  proof -
    have "sense_ok gs ss (body_sense (?sn sn))" if "sn \<in> set (po_senses po)" "sense_ok gs ss (body_sense sn)" for ss sn
      using assms(2) \<open>po \<in> set (we_pos e)\<close> that by (intro sense) (auto simp: links_wf_def u)
    with that(1) show ?thesis by (auto simp: pos_ok_def body_pos_def)
  qed
  then have "entry_ok (we_frequency (unlink_words S e)) (we_mode (unlink_words S e)) (we_dialects (unlink_words S e))
      (we_groups (unlink_words S e)) (map body_pos (we_pos (unlink_words S e)))"
    using assms(1) unfolding u by (auto simp: entry_wf_def entry_ok_def body_pos_def o_def)
  with assms(1) show ?thesis unfolding entry_wf_def ids by blast
qed

subsection \<open>Completeness\<close>

definition entry_complete :: "word_entry \<Rightarrow> bool" where
  "entry_complete e \<longleftrightarrow> content_complete (we_frequency e) (we_mode e) (we_dialects e) (we_pos e)"

text \<open>What V1 to V9 look at is unchanged by a function on the nodes.\<close>

definition same_content :: "(word_pos \<Rightarrow> word_pos) \<Rightarrow> bool" where
  "same_content f \<longleftrightarrow> (\<forall>A po. pos_complete A (f po) = pos_complete A po)"

lemma content_map:
  "same_content f \<Longrightarrow> content_complete fr md ds (map f pos) = content_complete fr md ds pos"
  by (auto simp: same_content_def content_complete_def)

lemma same_content_senses:
  assumes "\<And>sn. sense_complete (g sn) = sense_complete sn"
  shows "same_content (\<lambda>po. po\<lparr>po_senses := map g (po_senses po)\<rparr>)"
  using assms by (auto simp: same_content_def pos_complete_def base_count_def)

lemma same_content_unlink [simp]: "same_content (unlink_pos D)" "same_content body_pos"
proof -
  have "sense_complete (unlink_tree_sense D sn) = sense_complete sn" for sn
    by (auto simp: sense_complete_def unlink_tree_sense_def unlink_definition_def)
  from same_content_senses [OF this] show "same_content (unlink_pos D)" by (simp add: unlink_pos_def [abs_def])
  have "sense_complete (body_sense sn) = sense_complete sn" for sn
    by (auto simp: sense_complete_def body_sense_def)
  from same_content_senses [OF this] show "same_content body_pos" by (simp add: body_pos_def [abs_def])
qed

lemma same_content_stored [simp]: "same_content (stored_pos d d')"
  unfolding same_content_def
proof (intro allI)
  fix A po
  have bc: "base_count (stored_pos d d' po) a = base_count po a" for a
    by (simp add: base_count_def stored_pos_def stored_form_def filter_map o_def)
  have f: "form_complete (stored_form d f) = form_complete f" for f
    by (auto simp: form_complete_def stored_form_def stored_pron_def Let_def)
  have "by_dialect (stored_structure d g) a = map_option (stored_variant d) (by_dialect g a)" for g a
  proof -
    have "find (\<lambda>v. gv_dialect v = a) (map (stored_variant d) vs) = map_option (stored_variant d) (find (\<lambda>v. gv_dialect v = a) vs)" for vs
      by (induction vs) (simp_all add: stored_variant_def Let_def)
    then show ?thesis by (simp add: by_dialect_def stored_structure_def rev_map)
  qed
  then have g: "structure_complete A (stored_structure d g) = structure_complete A g" for g
    by (auto simp: structure_complete_def stored_variant_def Let_def)
  have s: "sense_complete (stored_sense d d' sn) = sense_complete sn" for sn
    by (auto simp: sense_complete_def stored_sense_def stored_definition_def Let_def)
  show "pos_complete A (stored_pos d d' po) = pos_complete A po"
    unfolding pos_complete_def bc by (simp add: stored_pos_def f g s)
qed

lemma stored_complete:
  "entry_complete (stored_entry d d' inp now e) = content_complete (si_frequency inp) (si_mode inp) (si_dialects inp) (si_pos inp)"
  by (simp add: entry_complete_def stored_entry_def content_map)

lemma unlink_complete: "entry_complete (unlink_entry D e) = entry_complete e"
  by (simp add: entry_complete_def unlink_entry_def content_map)

lemma unlink_words_complete: "entry_complete (unlink_words S e) = entry_complete e"
  unfolding unlink_words_def entry_complete_def
  by (simp, rule content_map, rule same_content_senses) (auto simp: sense_complete_def)

end
