(* ===== verification/WordService.thy ===== *)
theory WordService
  imports WordInv
begin

text \<open>
  The wordlist service (\<open>internal/word/service.go\<close>) over its store. \<open>Save\<close> and \<open>Publish\<close> are
  two store transactions with a check in the first, so each is a check and a commit that other
  requests may come between. The publish hook is a function of the state.
\<close>

record 's word_store =
  wst_create :: "word_entry \<Rightarrow> 's \<Rightarrow> (word_err + word_entry) \<times> 's"
  wst_getTree :: "uuid \<Rightarrow> 's \<Rightarrow> (word_err + word_entry) \<times> 's"
  wst_saveTree :: "uuid \<Rightarrow> save_input \<Rightarrow> 's \<Rightarrow> (word_err + unit) \<times> 's"
  wst_setStatus :: "uuid \<Rightarrow> string \<Rightarrow> time \<Rightarrow> 's \<Rightarrow> (word_err + unit) \<times> 's"
  wst_list :: "list_filter \<Rightarrow> 's \<Rightarrow> (word_err + list_item list \<times> nat) \<times> 's"
  wst_stats :: "time \<Rightarrow> time \<Rightarrow> 's \<Rightarrow> (word_err + word_stats) \<times> 's"
  wst_delete :: "uuid \<Rightarrow> 's \<Rightarrow> (word_err + unit) \<times> 's"
  wst_deleteMany :: "uuid list \<Rightarrow> 's \<Rightarrow> (word_err + nat) \<times> 's"
  wst_relatedSearch :: "string \<Rightarrow> string \<Rightarrow> int \<Rightarrow> 's \<Rightarrow> (word_err + related_result list) \<times> 's"

definition word_repo :: "pg_text \<Rightarrow> (word_db, 'z) pgs_scheme word_store" where
  "word_repo L = \<lparr>wst_create = word_create L, wst_getTree = word_getTree, wst_saveTree = word_saveTree,
     wst_setStatus = word_setStatus, wst_list = word_list L, wst_stats = word_stats_query, wst_delete = word_delete,
     wst_deleteMany = word_deleteMany, wst_relatedSearch = word_relatedSearch L\<rparr>"

text \<open>The location is the offset of its wall clock from UTC, in microseconds.\<close>

record 's word_service =
  wsv_store :: "'s word_store"
  wsv_hook :: "word_entry \<Rightarrow> 's \<Rightarrow> 's"
  wsv_loc :: time

text \<open>\<open>NewService\<close>: no hook means the no-op; Asia/Shanghai is UTC+8.\<close>

definition NewService :: "'s word_store \<Rightarrow> (word_entry \<Rightarrow> 's \<Rightarrow> 's) option \<Rightarrow> 's word_service" where
  "NewService st hook = \<lparr>wsv_store = st, wsv_hook = (case hook of None \<Rightarrow> (\<lambda>_ s. s) | Some h \<Rightarrow> h),
     wsv_loc = 8 * 60 * 60 * 1000000\<rparr>"

abbreviation (input) maxHeadwordLen :: nat where "maxHeadwordLen \<equiv> 200"
abbreviation (input) maxBatchDelete :: nat where "maxBatchDelete \<equiv> 100"

definition invalid :: "invalid_reason \<Rightarrow> word_err" where
  "invalid r = ValidationError [] r"

text \<open>\<open>nid\<close> is the draw of \<open>uuid.New()\<close>.\<close>

definition shell :: "uuid \<Rightarrow> uuid \<Rightarrow> string \<Rightarrow> string \<Rightarrow> word_entry" where
  "shell nid createdBy headword kind = \<lparr>we_id = nid, we_kind = kind, we_headword = headword, we_frequency = [],
     we_mode = ModeUnified, we_dialects = [], we_status = StatusDraft, we_created_by = createdBy,
     we_created_at = zero_time, we_updated_at = zero_time, we_groups = [], we_pos = []\<rparr>"

definition word_CreateShell ::
  "'s word_service \<Rightarrow> uuid \<Rightarrow> uuid \<Rightarrow> string \<Rightarrow> string \<Rightarrow> 's \<Rightarrow> (word_err + word_entry) \<times> 's" where
  "word_CreateShell sv nid createdBy headword kind s =
     (let h = TrimSpace headword; k = (if kind = [] then KindWord else kind) in
      if h = [] then (Inl (invalid HeadwordRequired), s)
      else if RuneCount h > maxHeadwordLen then (Inl (invalid HeadwordTooLong), s)
      else if \<not> kind_valid k then (Inl (invalid (BadKind k)), s)
      else wst_create (wsv_store sv) (shell nid createdBy h k) s)"

definition word_Get :: "'s word_service \<Rightarrow> uuid \<Rightarrow> 's \<Rightarrow> (word_err + word_entry) \<times> 's" where
  "word_Get sv i = wst_getTree (wsv_store sv) i"

text \<open>\<open>Save\<close> up to the store's write: the body as it is written.\<close>

definition check_body :: "word_entry \<Rightarrow> save_input \<Rightarrow> word_err + save_input" where
  "check_body current inp =
     (case validateTree inp of
        Inl e \<Rightarrow> Inl e
      | Inr v \<Rightarrow>
          if we_status current = StatusPublished \<and>
             publishViolations (si_frequency v) (si_mode v) (si_dialects v) (si_pos v) \<noteq> []
          then Inl (IncompleteError (publishViolations (si_frequency v) (si_mode v) (si_dialects v) (si_pos v)))
          else Inr v)"

definition save_check ::
  "'s word_service \<Rightarrow> uuid \<Rightarrow> save_input \<Rightarrow> 's \<Rightarrow> (word_err + save_input) \<times> 's" where
  "save_check sv i inp s =
     (case wst_getTree (wsv_store sv) i s of
        (Inl e, s1) \<Rightarrow> (Inl e, s1)
      | (Inr current, s1) \<Rightarrow> (check_body current inp, s1))"

definition save_commit ::
  "'s word_service \<Rightarrow> uuid \<Rightarrow> save_input \<Rightarrow> 's \<Rightarrow> (word_err + word_entry) \<times> 's" where
  "save_commit sv i v s =
     (case wst_saveTree (wsv_store sv) i v s of
        (Inl e, s1) \<Rightarrow> (Inl e, s1)
      | (Inr _, s1) \<Rightarrow>
          (case wst_getTree (wsv_store sv) i s1 of
             (Inl e, s2) \<Rightarrow> (Inl e, s2)
           | (Inr e, s2) \<Rightarrow> (Inr e, if we_status e = StatusPublished then wsv_hook sv e s2 else s2)))"

definition word_Save ::
  "'s word_service \<Rightarrow> uuid \<Rightarrow> save_input \<Rightarrow> 's \<Rightarrow> (word_err + word_entry) \<times> 's" where
  "word_Save sv i inp = wbind (save_check sv i inp) (save_commit sv i)"

definition publish_check :: "'s word_service \<Rightarrow> uuid \<Rightarrow> 's \<Rightarrow> (word_err + word_entry) \<times> 's" where
  "publish_check sv i s =
     (case wst_getTree (wsv_store sv) i s of
        (Inl e, s1) \<Rightarrow> (Inl e, s1)
      | (Inr e, s1) \<Rightarrow>
          (let v = publishViolations (we_frequency e) (we_mode e) (we_dialects e) (we_pos e) in
           if v \<noteq> [] then (Inl (IncompleteError v), s1) else (Inr e, s1)))"

definition publish_commit :: "'s word_service \<Rightarrow> uuid \<Rightarrow> word_entry \<Rightarrow> 's \<Rightarrow> (word_err + word_entry) \<times> 's" where
  "publish_commit sv i e s =
     (case wst_setStatus (wsv_store sv) i StatusPublished (we_updated_at e) s of
        (Inl er, s1) \<Rightarrow> (Inl er, s1)
      | (Inr _, s1) \<Rightarrow>
          (case wst_getTree (wsv_store sv) i s1 of
             (Inl er, s2) \<Rightarrow> (Inl er, s2)
           | (Inr e2, s2) \<Rightarrow> (Inr e2, wsv_hook sv e2 s2)))"

definition word_Publish :: "'s word_service \<Rightarrow> uuid \<Rightarrow> 's \<Rightarrow> (word_err + word_entry) \<times> 's" where
  "word_Publish sv i = wbind (publish_check sv i) (publish_commit sv i)"

definition word_List ::
  "'s word_service \<Rightarrow> list_filter \<Rightarrow> 's \<Rightarrow> (word_err + list_item list \<times> nat) \<times> 's" where
  "word_List sv f s =
     (if lf_kind f \<noteq> [] \<and> \<not> kind_valid (lf_kind f) then (Inl (invalid (BadKind (lf_kind f))), s)
      else if lf_level f \<noteq> [] \<and> \<not> word_level_valid (lf_level f) then (Inl (invalid (BadLevel (lf_level f))), s)
      else if lf_status f \<noteq> [] \<and> lf_status f \<noteq> StatusDraft \<and> lf_status f \<noteq> StatusPublished
        then (Inl (invalid (BadStatus (lf_status f))), s)
      else if lf_pos f \<noteq> [] \<and> lf_pos f \<notin> set POSValues then (Inl (invalid (UnknownPos (lf_pos f))), s)
      else wst_list (wsv_store sv) f s)"

text \<open>The civil date of an instant: the day of the month of a day counted from 1 January 1970.\<close>

abbreviation (input) day_us :: int where "day_us \<equiv> 86400000000"

definition day_of_month :: "int \<Rightarrow> int" where
  "day_of_month days =
     (let doe = (days + 719468) mod 146097;
          yoe = (doe - doe div 1460 + doe div 36524 - doe div 146096) div 365;
          doy = doe - (365 * yoe + yoe div 4 - yoe div 100);
          mp = (5 * doy + 2) div 153
      in doy - (153 * mp + 2) div 5 + 1)"

definition day_start :: "time \<Rightarrow> time \<Rightarrow> time" where
  "day_start loc now = (now + loc) div day_us * day_us - loc"

definition month_start :: "time \<Rightarrow> time \<Rightarrow> time" where
  "month_start loc now = ((now + loc) div day_us - (day_of_month ((now + loc) div day_us) - 1)) * day_us - loc"

definition word_Stats :: "'s word_service \<Rightarrow> time \<Rightarrow> 's \<Rightarrow> (word_err + word_stats) \<times> 's" where
  "word_Stats sv now = wst_stats (wsv_store sv) (day_start (wsv_loc sv) now) (month_start (wsv_loc sv) now)"

definition word_Delete :: "'s word_service \<Rightarrow> uuid \<Rightarrow> 's \<Rightarrow> (word_err + unit) \<times> 's" where
  "word_Delete sv i = wst_delete (wsv_store sv) i"

text \<open>The first occurrence of each id.\<close>

fun uniq_ids :: "uuid set \<Rightarrow> uuid list \<Rightarrow> uuid list" where
  "uniq_ids seen [] = []"
| "uniq_ids seen (i # is) = (if i \<in> seen then uniq_ids seen is else i # uniq_ids (insert i seen) is)"

definition word_BatchDelete :: "'s word_service \<Rightarrow> uuid list \<Rightarrow> 's \<Rightarrow> (word_err + nat) \<times> 's" where
  "word_BatchDelete sv is s =
     (if is = [] then (Inl (invalid IdsRequired), s)
      else if length is > maxBatchDelete then (Inl (invalid TooManyIds), s)
      else wst_deleteMany (wsv_store sv) (uniq_ids {} is) s)"

definition word_RelatedSearch ::
  "'s word_service \<Rightarrow> string \<Rightarrow> string \<Rightarrow> int \<Rightarrow> 's \<Rightarrow> (word_err + related_result list) \<times> 's" where
  "word_RelatedSearch sv q kind limit s =
     (let q = TrimSpace q in
      if q = [] then (Inr [], s)
      else if kind \<noteq> [] \<and> \<not> kind_valid kind then (Inl (invalid (BadKind kind)), s)
      else wst_relatedSearch (wsv_store sv) q kind (if limit \<le> 0 \<or> limit > 50 then 20 else limit) s)"

end
