(* ===== verification/GoTime.thy ===== *)
theory GoTime
  imports WordService "HOL-Library.Monad_Syntax"
begin

text \<open>
  The parts of Go's \<open>time\<close> and \<open>strconv\<close> the handlers use: \<open>time.Parse(time.RFC3339, s)\<close>, whose
  general parser also takes a one-digit hour and a comma before the fraction, \<open>strconv.Atoi\<close>
  and \<open>Time.Unix\<close>. An instant counts microseconds, as the database stores it: further digits of
  a fraction are dropped.
\<close>

subsection \<open>Dates\<close>

text \<open>The day of a civil date, counted from 1 January 1970.\<close>

definition civil_days :: "int \<Rightarrow> int \<Rightarrow> int \<Rightarrow> int" where
  "civil_days y m d =
     (let y = (if m \<le> 2 then y - 1 else y); yoe = y mod 400;
          doy = (153 * ((m + 9) mod 12) + 2) div 5 + d - 1
      in y div 400 * 146097 + (yoe * 365 + yoe div 4 - yoe div 100 + doy) - 719468)"

definition leap_year :: "int \<Rightarrow> bool" where
  "leap_year y \<longleftrightarrow> y mod 4 = 0 \<and> (y mod 100 \<noteq> 0 \<or> y mod 400 = 0)"

definition days_in :: "int \<Rightarrow> int \<Rightarrow> int" where
  "days_in m y = (if m = 2 then (if leap_year y then 29 else 28) else if m \<in> {4, 6, 9, 11} then 30 else 31)"

subsection \<open>\<open>time.Parse\<close>\<close>

definition ensure :: "bool \<Rightarrow> unit option" where
  "ensure b = (if b then Some () else None)"

definition skip_char :: "char \<Rightarrow> string \<Rightarrow> string option" where
  "skip_char c s = (case s of [] \<Rightarrow> None | x # xs \<Rightarrow> if x = c then Some xs else None)"

definition digits_val :: "string \<Rightarrow> int" where
  "digits_val ds = foldl (\<lambda>n c. n * 10 + int (digit_val c)) 0 ds"

text \<open>\<open>getnum\<close>: one or two digits, two when \<open>fixed\<close>.\<close>

fun getnum :: "bool \<Rightarrow> string \<Rightarrow> (int \<times> string) option" where
  "getnum fixed [] = None"
| "getnum fixed [a] = (if is_digit a \<and> \<not> fixed then Some (digits_val [a], []) else None)"
| "getnum fixed (a # b # s) =
     (if \<not> is_digit a then None
      else if is_digit b then Some (digits_val [a, b], s)
      else if fixed then None else Some (digits_val [a], b # s))"

definition get_year :: "string \<Rightarrow> (int \<times> string) option" where
  "get_year s = (if 4 \<le> length s \<and> list_all is_digit (take 4 s) then Some (digits_val (take 4 s), drop 4 s) else None)"

text \<open>A fraction of a second, in nanoseconds; nine digits count.\<close>

definition get_fraction :: "string \<Rightarrow> int \<times> string" where
  "get_fraction s =
     (case s of
        c # d # _ \<Rightarrow>
          (if (c = CHR ''.'' \<or> c = CHR '','') \<and> is_digit d
           then (let ds = take 9 (takeWhile is_digit (tl s)) in
                 (digits_val ds * 10 ^ (9 - length ds), dropWhile is_digit (tl s)))
           else (0, s))
      | _ \<Rightarrow> (0, s))"

text \<open>The offset in seconds, at the end of the text.\<close>

definition get_zone :: "string \<Rightarrow> int option" where
  "get_zone s =
     (if s = ''Z'' then Some 0
      else if length s = 6 \<and> s ! 3 = CHR '':'' \<and> (s ! 0 = CHR ''+'' \<or> s ! 0 = CHR ''-'')
      then do {
        (hr, _) \<leftarrow> getnum True (take 2 (drop 1 s));
        (mm, _) \<leftarrow> getnum True (drop 4 s);
        ensure (hr \<le> 24 \<and> mm \<le> 60);
        Some ((if s ! 0 = CHR ''-'' then - 1 else 1) * ((hr * 60 + mm) * 60))
      }
      else None)"

definition parse_rfc3339 :: "string \<Rightarrow> time option" where
  "parse_rfc3339 s = do {
     (year, s) \<leftarrow> get_year s;
     s \<leftarrow> skip_char (CHR ''-'') s;
     (month, s) \<leftarrow> getnum True s;
     s \<leftarrow> skip_char (CHR ''-'') s;
     (day, s) \<leftarrow> getnum True s;
     s \<leftarrow> skip_char (CHR ''T'') s;
     (hour, s) \<leftarrow> getnum False s;
     s \<leftarrow> skip_char (CHR '':'') s;
     (mi, s) \<leftarrow> getnum True s;
     s \<leftarrow> skip_char (CHR '':'') s;
     (sec, s) \<leftarrow> getnum True s;
     ensure (1 \<le> month \<and> month \<le> 12 \<and> 1 \<le> day \<and> day \<le> days_in month year \<and> hour < 24 \<and> mi < 60 \<and> sec < 60);
     (let (nanos, s) = get_fraction s in do {
        zone \<leftarrow> get_zone s;
        Some ((civil_days year month day * 86400 + hour * 3600 + mi * 60 + sec - zone) * 1000000 + nanos div 1000)
      })
   }"

subsection \<open>\<open>strconv.Atoi\<close>, \<open>Time.Unix\<close>, \<open>Duration.Seconds\<close>\<close>

definition Atoi :: "string \<Rightarrow> int option" where
  "Atoi s =
     (let neg = (s \<noteq> [] \<and> hd s = CHR ''-'');
          ds = (if s \<noteq> [] \<and> (hd s = CHR ''-'' \<or> hd s = CHR ''+'') then tl s else s);
          n = (if neg then - digits_val ds else digits_val ds)
      in if ds = [] \<or> \<not> list_all is_digit ds \<or> n < min_int64 \<or> max_int64 < n then None else Some n)"

definition unix :: "time \<Rightarrow> int" where
  "unix t = t div 1000000"

definition seconds :: "time \<Rightarrow> int" where
  "seconds d = (if d < 0 then - (- d div 1000000) else d div 1000000)"

lemma Atoi_bounds: "Atoi s = Some n \<Longrightarrow> min_int64 \<le> n \<and> n \<le> max_int64"
  by (auto simp: Atoi_def Let_def split: if_splits)

end
