(* ===== verification/Handler.thy ===== *)
theory Handler
  imports Router GoTime
begin

text \<open>
  What the handler packages share: the request as they read it, the reply they write, and the
  reading of page numbers. JSON binding is the framework's: a handler gets it as a function
  from the body to a value or an error text. A reply carries its body as a value, with the
  constructors of the handler package, the cookies it sets, and the errors it hands to the
  request logger. A handler that asks for an id the middleware did not leave panics.
\<close>

subsection \<open>Requests and replies\<close>

text \<open>A query parameter that is missing reads as the empty string.\<close>

record request =
  rq_body :: string
  rq_query :: "string \<Rightarrow> string"
  rq_param :: "string \<Rightarrow> string"
  rq_cookie :: "string \<Rightarrow> string option"
  rq_keys :: "string \<rightharpoonup> gval"

record cookie =
  ck_name :: string
  ck_value :: string
  ck_maxAge :: int
  ck_path :: string
  ck_secure :: bool
  ck_httpOnly :: bool
  ck_strict :: bool

record ('b, 'e) reply =
  rp_status :: nat
  rp_body :: "'b option"
  rp_cookies :: "cookie list"
  rp_errors :: "'e list"

datatype ('b, 'e) answer = Reply "('b, 'e) reply" | Panics

type_synonym ('b, 'e, 's) handler = "request \<Rightarrow> 's \<Rightarrow> ('b, 'e) answer \<times> 's"

definition json :: "nat \<Rightarrow> 'b \<Rightarrow> ('b, 'e) reply" where
  "json st b = \<lparr>rp_status = st, rp_body = Some b, rp_cookies = [], rp_errors = []\<rparr>"

definition no_content :: "('b, 'e) reply" where
  "no_content = \<lparr>rp_status = 204, rp_body = None, rp_cookies = [], rp_errors = []\<rparr>"

text \<open>\<open>internalError\<close>; \<open>err\<close> builds the error body.\<close>

definition internalError :: "(string \<Rightarrow> 'b) \<Rightarrow> 'e \<Rightarrow> ('b, 'e) reply" where
  "internalError err e = \<lparr>rp_status = 500, rp_body = Some (err ''internal error''), rp_cookies = [], rp_errors = [e]\<rparr>"

text \<open>\<open>ShouldBindJSON\<close> with its early return, and \<open>MustGet\<close> of an id.\<close>

definition with_json ::
  "(string \<Rightarrow> string + 'v) \<Rightarrow> (string \<Rightarrow> 'b) \<Rightarrow> request \<Rightarrow> ('v \<Rightarrow> 's \<Rightarrow> ('b, 'e) answer \<times> 's)
    \<Rightarrow> 's \<Rightarrow> ('b, 'e) answer \<times> 's" where
  "with_json decode err rq k s =
     (case decode (rq_body rq) of Inl m \<Rightarrow> (Reply (json 400 (err m)), s) | Inr v \<Rightarrow> k v s)"

definition MustGet :: "string \<Rightarrow> request \<Rightarrow> (uuid \<Rightarrow> 's \<Rightarrow> ('b, 'e) answer \<times> 's) \<Rightarrow> 's \<Rightarrow> ('b, 'e) answer \<times> 's" where
  "MustGet key rq k s = (case rq_keys rq key of Some (GUuid i) \<Rightarrow> k i s | _ \<Rightarrow> (Panics, s))"

text \<open>The \<open>switch\<close> over a call's outcome: the first matching error gives its status and message,
  another one a 500.\<close>

definition reject :: "(string \<Rightarrow> 'b) \<Rightarrow> (goerr \<times> nat \<times> string) list \<Rightarrow> goerr \<Rightarrow> ('b, goerr) reply" where
  "reject err rules e =
     (case find (\<lambda>(t, _, _). errors_is e t) rules of
        None \<Rightarrow> internalError err e
      | Some (_, st, m) \<Rightarrow> json st (err m))"

definition reply_to ::
  "(string \<Rightarrow> 'b) \<Rightarrow> (goerr \<times> nat \<times> string) list \<Rightarrow> ('a \<Rightarrow> ('b, goerr) reply) \<Rightarrow> (goerr + 'a) \<times> 's
    \<Rightarrow> ('b, goerr) answer \<times> 's" where
  "reply_to err rules f rs =
     (case rs of (Inl e, s) \<Rightarrow> (Reply (reject err rules e), s) | (Inr a, s) \<Rightarrow> (Reply (f a), s))"

subsection \<open>Refresh cookies\<close>

record cookie_config =
  cc_secure :: bool
  cc_maxAge :: time

definition refresh_cookie :: "string \<Rightarrow> string \<Rightarrow> cookie_config \<Rightarrow> string \<Rightarrow> int \<Rightarrow> cookie" where
  "refresh_cookie name path cc token age = \<lparr>ck_name = name, ck_value = token, ck_maxAge = age, ck_path = path,
     ck_secure = cc_secure cc, ck_httpOnly = True, ck_strict = True\<rparr>"

text \<open>\<open>setRefreshCookie\<close> and \<open>clearRefreshCookie\<close>, which expires it.\<close>

definition setRefreshCookie :: "string \<Rightarrow> string \<Rightarrow> cookie_config \<Rightarrow> string \<Rightarrow> ('b, 'e) reply \<Rightarrow> ('b, 'e) reply" where
  "setRefreshCookie name path cc token r =
     r\<lparr>rp_cookies := rp_cookies r @ [refresh_cookie name path cc token (seconds (cc_maxAge cc))]\<rparr>"

definition clearRefreshCookie :: "string \<Rightarrow> string \<Rightarrow> cookie_config \<Rightarrow> ('b, 'e) reply \<Rightarrow> ('b, 'e) reply" where
  "clearRefreshCookie name path cc r = r\<lparr>rp_cookies := rp_cookies r @ [refresh_cookie name path cc [] (- 1)]\<rparr>"

subsection \<open>Page numbers\<close>

definition clampInt :: "int \<Rightarrow> int \<Rightarrow> int \<Rightarrow> int" where
  "clampInt n lo hi = (if n < lo then lo else if n > hi then hi else n)"

definition offset_of :: "int \<Rightarrow> int \<Rightarrow> int" where
  "offset_of page pageSize = (page - 1) * pageSize"

text \<open>The page a handler asks its service for, read by \<open>parse\<close> with its defaults.\<close>

definition page_of :: "(string \<Rightarrow> int \<Rightarrow> int) \<Rightarrow> request \<Rightarrow> int \<times> int" where
  "page_of parse rq =
     (clampInt (parse (rq_query rq ''page'') 1) 1 (2 ^ 31), clampInt (parse (rq_query rq ''page_size'') 20) 1 100)"

lemma clampInt_range: "lo \<le> hi \<Longrightarrow> lo \<le> clampInt n lo hi \<and> clampInt n lo hi \<le> hi"
  by (simp add: clampInt_def)

lemma clampInt_fixed: "lo \<le> n \<Longrightarrow> n \<le> hi \<Longrightarrow> clampInt n lo hi = n"
  by (simp add: clampInt_def)

lemma page_range:
  assumes "page_of parse rq = (p, n)"
  shows "1 \<le> p" "p \<le> 2 ^ 31" "1 \<le> n" "n \<le> 100" "0 \<le> offset_of p n" "offset_of p n < 2 ^ 38"
proof -
  show p: "1 \<le> p" "p \<le> 2 ^ 31" and n: "1 \<le> n" "n \<le> 100"
    using assms clampInt_range [of 1 "2 ^ 31"] clampInt_range [of 1 100] by (auto simp: page_of_def)
  then show "0 \<le> offset_of p n" by (simp add: offset_of_def)
  have "(p - 1) * n \<le> (2 ^ 31 - 1) * 100" using p n by (intro mult_mono) auto
  then show "offset_of p n < 2 ^ 38" by (simp add: offset_of_def)
qed

subsection \<open>Lemmas\<close>

lemma reply_simps [simp]:
  "rp_status (json st b) = st" "rp_cookies (json st b) = []" "rp_errors (json st b) = []"
  "rp_status no_content = 204" "rp_cookies no_content = []" "rp_errors no_content = []"
  "rp_status (internalError err e) = 500" "rp_cookies (internalError err e) = []"
  "rp_errors (internalError err e) = [e]"
  "rp_status (setRefreshCookie nm pa cc t r) = rp_status r" "rp_status (clearRefreshCookie nm pa cc r) = rp_status r"
  "rp_errors (setRefreshCookie nm pa cc t r) = rp_errors r" "rp_errors (clearRefreshCookie nm pa cc r) = rp_errors r"
  "rp_cookies (setRefreshCookie nm pa cc t r) = rp_cookies r @ [refresh_cookie nm pa cc t (seconds (cc_maxAge cc))]"
  "rp_cookies (clearRefreshCookie nm pa cc r) = rp_cookies r @ [refresh_cookie nm pa cc [] (- 1)]"
  by (simp_all add: json_def no_content_def internalError_def setRefreshCookie_def clearRefreshCookie_def)

lemma reject_cookies [simp]: "rp_cookies (reject err rules e) = []"
  by (simp add: reject_def split: option.split)

lemma with_json_Panics: "with_json decode err rq k s = (Panics, s') \<Longrightarrow> \<exists>v. k v s = (Panics, s')"
  by (auto simp: with_json_def split: sum.splits)

lemma reply_to_Panics [simp]: "reply_to err rules f rs \<noteq> (Panics, s')"
  by (auto simp: reply_to_def split: sum.splits prod.splits)

end
