(* ===== verification/WordStore.thy ===== *)
theory WordStore
  imports WordService
begin

text \<open>
  The contract of the wordlist's store, on the abstraction that a store is a map from ids to
  entries, and the repository as an instance of it.
\<close>

type_synonym word_view = "uuid \<Rightarrow> word_entry option"

subsection \<open>Changes of the map\<close>

definition saved_as :: "save_input \<Rightarrow> time \<Rightarrow> word_entry \<Rightarrow> word_entry \<Rightarrow> bool" where
  "saved_as inp now e e' \<longleftrightarrow> (\<exists>d d'. e' = stored_entry d d' inp now e)"

definition loses_links :: "word_entry \<Rightarrow> word_entry \<Rightarrow> bool" where
  "loses_links e e' \<longleftrightarrow> (\<exists>D S. e' = unlink_words S (unlink_entry D e))"

definition saved_view :: "uuid \<Rightarrow> save_input \<Rightarrow> time \<Rightarrow> word_view \<Rightarrow> word_view \<Rightarrow> bool" where
  "saved_view i inp now V V' \<longleftrightarrow>
     (\<exists>e e'. V i = Some e \<and> V' i = Some e' \<and> we_updated_at e = si_base inp \<and> saved_as inp now e e') \<and>
     (\<forall>j. j \<noteq> i \<longrightarrow> rel_option loses_links (V j) (V' j))"

definition status_view :: "uuid \<Rightarrow> string \<Rightarrow> time \<Rightarrow> time \<Rightarrow> word_view \<Rightarrow> word_view \<Rightarrow> bool" where
  "status_view i st base now V V' \<longleftrightarrow>
     (\<exists>e. V i = Some e \<and> we_updated_at e = base \<and> V' = V(i \<mapsto> e\<lparr>we_status := st, we_updated_at := now\<rparr>))"

definition created_view :: "word_entry \<Rightarrow> time \<Rightarrow> word_view \<Rightarrow> word_view \<Rightarrow> bool" where
  "created_view e now V V' \<longleftrightarrow> V (we_id e) = None \<and>
     V' = V(we_id e \<mapsto> e\<lparr>we_created_at := now, we_updated_at := now\<rparr>)"

definition deleted_view :: "uuid set \<Rightarrow> word_view \<Rightarrow> word_view \<Rightarrow> bool" where
  "deleted_view S V V' \<longleftrightarrow> (\<forall>j. if j \<in> S then V' j = None else rel_option loses_links (V j) (V' j))"

definition word_inv :: "word_db \<Rightarrow> bool" where
  "word_inv d \<longleftrightarrow> db_ok d \<and> links_ok d"

subsection \<open>The repository's methods\<close>

lemma wstmt_tables:
  assumes "wstmt on f w = (r, w')"
  shows "pg_now w' = pg_now w"
    and "tables w' = tables w \<and> (\<exists>e. r = Inl e) \<or> (\<exists>a. f (tables w) = Inr (a, tables w') \<and> (r = Inr a \<or> (\<exists>e. r = Inl e)))"
proof -
  obtain r0 where p: "pg_stmt f w = (r0, w')" and r: "r = (case r0 of Inl e \<Rightarrow> Inl (on e) | Inr a \<Rightarrow> Inr a)"
    using assms by (auto simp: wstmt_def split: prod.splits sum.splits)
  show "pg_now w' = pg_now w"
    using p by (auto simp: pg_stmt_def split: fate.splits sum.splits)
  show "tables w' = tables w \<and> (\<exists>e. r = Inl e) \<or> (\<exists>a. f (tables w) = Inr (a, tables w') \<and> (r = Inr a \<or> (\<exists>e. r = Inl e)))"
    using p unfolding r by (auto simp: pg_stmt_def split: fate.splits sum.splits)
qed

lemma wquery_tables: "wquery on f w = (r, w') \<Longrightarrow> tables w' = tables w \<and> pg_now w' = pg_now w"
  using readsD(1,2) [OF reads_wquery] by blast

lemma entry_row: "entry i d = Some e \<Longrightarrow> \<exists>r. find_word i d = Some r \<and> e = entry_of d r \<and> ww_id r = i"
  by (auto simp: entry_def dest: find_word_id)

lemma entry_id: "entry i d = Some e \<Longrightarrow> we_id e = i"
  by (auto dest!: entry_row simp: entry_of_def scan_word_def)

lemma entry_None: "entry i d = None \<longleftrightarrow> i \<notin> word_ids d"
  by (auto simp: entry_def find_word_def find_None_iff)

lemma children_words: "entry_of (d\<lparr>w_words := ws\<rparr>) = entry_of d"
proof -
  let ?d = "d\<lparr>w_words := ws\<rparr>"
  have "form_at ?d = form_at d" "structure_at ?d = structure_at d" "sense_at ?d = sense_at d"
    by (simp_all add: form_at_def structure_at_def sense_at_def)
  then have "pos_at ?d = pos_at d" by (simp add: pos_at_def)
  then show ?thesis by (simp add: fun_eq_iff entry_of_def)
qed

lemma find_row: "distinct (map ww_id ws) \<Longrightarrow> r \<in> set ws \<Longrightarrow> ww_id r = i \<Longrightarrow> find (\<lambda>r. ww_id r = i) ws = Some r"
  by (induction ws) auto

lemma no_children: "rows_ok P C rows \<Longrightarrow> p \<notin> P \<Longrightarrow> children p rows = []"
  unfolding set_empty [symmetric] set_children by (auto simp: rows_ok_def)

lemma created_entry:
  assumes "db_ok d" and "sql_word_insert L (shell nid cb h k) now d = Inr (a, d')"
  shows "created_view (shell nid cb h k) now (\<lambda>i. entry i d) (\<lambda>i. entry i d')" and "word_inv d \<Longrightarrow> word_inv d'"
    and "a = (now, now)"
proof -
  let ?e = "shell nid cb h k"
  obtain r where d': "d' = d\<lparr>w_words := w_words d @ [r]\<rparr>" and new: "nid \<notin> word_ids d" and a: "a = (now, now)"
    and r: "r = \<lparr>ww_id = nid, ww_kind = k, ww_headword = h, ww_frequency = None, ww_mode = ModeUnified, ww_dialects = [],
      ww_status = StatusDraft, ww_created_by = cb, ww_created_at = now, ww_updated_at = now\<rparr>"
    using assms(2) by (auto simp: sql_word_insert_def shell_def split: if_splits)
  have "children nid (w_groups d) = []" "children nid (w_pos d) = []"
    by (rule no_children [OF db_okD(2) [OF assms(1)] new]) (rule no_children [OF db_okD(3) [OF assms(1)] new])
  then have "entry_of d r = ?e\<lparr>we_created_at := now, we_updated_at := now\<rparr>"
    by (simp add: entry_of_def r scan_word_def shell_def numeric_text_def)
  moreover have "find_word nid d' = Some r" and "j \<noteq> nid \<Longrightarrow> find_word j d' = find_word j d" for j
  proof -
    have "find P (xs @ [y]) = (case find P xs of None \<Rightarrow> if P y then Some y else None | Some x \<Rightarrow> Some x)" for P and xs :: "word_row list" and y
      by (induction xs) simp_all
    moreover have "find_word nid d = None" using new by (auto simp: find_word_def find_None_iff)
    ultimately show "find_word nid d' = Some r" "j \<noteq> nid \<Longrightarrow> find_word j d' = find_word j d"
      unfolding d' by (auto simp: find_word_def r split: option.split)
  qed
  ultimately show "created_view ?e now (\<lambda>i. entry i d) (\<lambda>i. entry i d')"
    using new unfolding created_view_def d'
    by (auto simp: fun_eq_iff entry_def children_words shell_def find_word_def find_None_iff)
  show "a = (now, now)" by (rule a)
  assume w: "word_inv d"
  have sub: "word_ids d \<subseteq> word_ids d'" unfolding d' by auto
  have "db_ok d'"
  proof -
    have k: "distinct (map ww_id (w_words d'))" using db_ok_keys [OF assms(1)] new unfolding d' by (auto simp: keys_ok_def r)
    note R = db_okD [OF assms(1)]
    have "rows_ok (ids_of (w_senses d)) (rel_check (word_ids d') (ids_of (w_senses d))) (w_rels d)"
      by (rule rows_ok_mono [OF R(11) subset_refl]) (use sub in \<open>auto simp: rel_check_def\<close>)
    moreover have "rows_ok (word_ids d') (\<lambda>_. True) (w_groups d)" "rows_ok (word_ids d') (\<lambda>_. True) (w_pos d)"
      using R(2,3) sub by (auto intro: rows_ok_mono)
    ultimately show ?thesis
      using R k sub unfolding db_ok_rows keys_ok_def by (simp add: d' del: set_map)
  qed
  with w show "word_inv d'" by (simp add: word_inv_def links_ok_def d')
qed

lemma status_entry:
  assumes "sql_word_update (\<lambda>r. ww_id r = i \<and> ww_updated_at r = base) (\<lambda>r. r\<lparr>ww_status := st, ww_updated_at := now\<rparr>) d
      = Inr (n, d')" and "db_ok d"
  shows "n = 0 \<Longrightarrow> d' = d" and "n \<noteq> 0 \<Longrightarrow> status_view i st base now (\<lambda>i. entry i d) (\<lambda>i. entry i d')"
    and "word_inv d \<Longrightarrow> word_inv d'"
proof -
  let ?P = "\<lambda>r. ww_id r = i \<and> ww_updated_at r = base" and ?f = "\<lambda>r. r\<lparr>ww_status := st, ww_updated_at := now\<rparr>"
  have n: "n = length (filter ?P (w_words d))" and d': "d' = d\<lparr>w_words := map (\<lambda>r. if ?P r then ?f r else r) (w_words d)\<rparr>"
    using assms(1) unfolding sql_word_update_def by (auto split: if_splits)
  show "d' = d" if "n = 0"
  proof -
    have "\<not> ?P r" if "r \<in> set (w_words d)" for r using \<open>n = 0\<close> that unfolding n by (auto simp: filter_empty_conv)
    then have "map (\<lambda>r. if ?P r then ?f r else r) (w_words d) = w_words d" by (intro map_idI) auto
    then show ?thesis unfolding d' by simp
  qed
  have ids: "map ww_id (map (\<lambda>r. if ?P r then ?f r else r) (w_words d)) = map ww_id (w_words d)" by simp
  show "word_inv d'" if "word_inv d"
  proof -
    have "db_ok d'" unfolding d' by (rule db_ok_words [OF assms(2) ids])
    with that show ?thesis by (simp add: word_inv_def links_ok_def d' del: scope.simps)
  qed
  show "status_view i st base now (\<lambda>i. entry i d) (\<lambda>i. entry i d')" if nz: "n \<noteq> 0"
  proof -
    have "filter ?P (w_words d) \<noteq> []" using nz n by auto
    then obtain r where "r \<in> set (filter ?P (w_words d))" by (meson hd_in_set)
    then have r: "r \<in> set (w_words d)" "ww_id r = i" "ww_updated_at r = base" by simp_all
    have k: "distinct (map ww_id (w_words d))" using db_ok_keys [OF assms(2)] by (simp add: keys_ok_def)
    have find: "find (\<lambda>r. ww_id r = j) (map (\<lambda>r. if ?P r then ?f r else r) ws) =
        map_option (\<lambda>r. if ?P r then ?f r else r) (find (\<lambda>r. ww_id r = j) ws)" for j ws
      by (induction ws) auto
    have "find_word i d = Some r"
      unfolding find_word_def by (rule find_row [OF k r(1,2)])
    moreover have "find_word j d' = map_option (\<lambda>r. if ?P r then ?f r else r) (find_word j d)" for j
      unfolding d' find_word_def words_sel by (rule find)
    moreover have "ww_id x = j" if "find_word j d = Some x" for j x using find_word_id [OF that] by simp
    ultimately have "entry j d' = ((\<lambda>i. entry i d)(i \<mapsto> (entry_of d r)\<lparr>we_status := st, we_updated_at := now\<rparr>)) j" for j
      unfolding entry_def d' children_words using r(2,3)
      by (cases "j = i"; cases "find_word j d") (auto simp: entry_of_def scan_word_def)
    moreover have "entry i d = Some (entry_of d r)" "we_updated_at (entry_of d r) = base"
      using \<open>find_word i d = Some r\<close> r(3) by (simp_all add: entry_def entry_of_def scan_word_def)
    ultimately show ?thesis unfolding status_view_def by blast
  qed
qed

lemma unlinked_view: "rel_option loses_links x (map_option (\<lambda>e. unlink_words S (unlink_entry D e)) x)"
  by (cases x) (auto simp: loses_links_def)

lemma unlink_words_none: "unlink_words {} e = e"
proof -
  have "unlink_relation_word {} = (\<lambda>r. r)" by (simp add: fun_eq_iff unlink_relation_word_def)
  then show ?thesis by (simp add: unlink_words_def)
qed

lemma saved_views:
  assumes "saved i inp now D d d'" and "db_ok d" and "tree_ok inp" and "find_word i d = Some r" and "ww_updated_at r = si_base inp"
  shows "saved_view i inp now (\<lambda>j. entry j d) (\<lambda>j. entry j d')"
proof -
  have e: "entry i d = Some (entry_of d r)" "we_updated_at (entry_of d r) = si_base inp"
    using assms(4,5) by (simp_all add: entry_def entry_of_def scan_word_def)
  have ids: "distinct (tree_ids inp)" using assms(3) by (simp add: tree_ok_def)
  have "rel_option loses_links (entry j d) (entry j d')" if "j \<noteq> i" for j
    using unlinked_view [of "entry j d" "{}" D] saved_other [OF assms(1,2) ids that] by (simp add: unlink_words_none)
  with saved_entry [OF assms(1-3) e(1)] e show ?thesis unfolding saved_view_def saved_as_def by blast
qed

lemma deleted_views:
  "db_ok d \<Longrightarrow> deleted_view (set is) (\<lambda>j. entry j d) (\<lambda>j. entry j (delete_words is d))"
  unfolding deleted_view_def using unlinked_view by (simp add: deleted_entry)

subsection \<open>The contract\<close>

text \<open>
  \<open>wv\<close> is the map a state stands for, \<open>clk\<close> the server's clock, \<open>inv\<close> its integrity. A method
  that fails may still have happened on the server, when its answer was lost.
\<close>

locale word_store_laws =
  fixes st :: "'s word_store" and wv :: "'s \<Rightarrow> word_view" and clk :: "'s \<Rightarrow> time" and inv :: "'s \<Rightarrow> bool"
  assumes view_law: "inv s \<Longrightarrow> wv s i = Some e \<Longrightarrow> we_id e = i \<and> links_wf e"
    and getTree_law: "inv s \<Longrightarrow> wst_getTree st i s = (re, s') \<Longrightarrow>
      inv s' \<and> wv s' = wv s \<and> (\<forall>e. re = Inr e \<longrightarrow> wv s i = Some e)"
    and create_law: "inv s \<Longrightarrow> wst_create st (shell nid cb h k) s = (re, s') \<Longrightarrow>
      inv s' \<and> (wv s' = wv s \<and> (\<exists>er. re = Inl er) \<or>
        created_view (shell nid cb h k) (clk s) (wv s) (wv s') \<and> (\<forall>e. re = Inr e \<longrightarrow> wv s' nid = Some e))"
    and saveTree_law: "inv s \<Longrightarrow> tree_ok inp \<Longrightarrow> wst_saveTree st i inp s = (ru, s') \<Longrightarrow>
      inv s' \<and> (wv s' = wv s \<and> (\<exists>er. ru = Inl er) \<or> saved_view i inp (clk s) (wv s) (wv s'))"
    and setStatus_law: "inv s \<Longrightarrow> wst_setStatus st i stat base s = (ru, s') \<Longrightarrow>
      inv s' \<and> (wv s' = wv s \<and> (\<exists>er. ru = Inl er) \<or> status_view i stat base (clk s) (wv s) (wv s'))"
    and delete_law: "inv s \<Longrightarrow> wst_delete st i s = (ru, s') \<Longrightarrow>
      inv s' \<and> (wv s' = wv s \<and> (\<exists>er. ru = Inl er) \<or> deleted_view {i} (wv s) (wv s'))"
    and deleteMany_law: "inv s \<Longrightarrow> wst_deleteMany st is s = (rn, s') \<Longrightarrow>
      inv s' \<and> (wv s' = wv s \<and> (\<exists>er. rn = Inl er) \<or> deleted_view (set is) (wv s) (wv s'))"
begin

lemma getTree_Some: "inv s \<Longrightarrow> wst_getTree st i s = (Inr e, s') \<Longrightarrow> wv s i = Some e"
  using getTree_law by blast

end

lemma word_inv_delete: "word_inv d \<Longrightarrow> word_inv (delete_words is d)"
  by (simp add: word_inv_def db_ok_delete_words deleted_links)

lemma sql_word_delete_Inr: "sql_word_delete is d = Inr (n, d') \<Longrightarrow> d' = delete_words is d"
  by (auto simp: sql_word_delete_def)

lemma tree_relations_ok: "tree_ok inp \<Longrightarrow> \<forall>sn \<in> set (all_senses inp). \<forall>r \<in> set (sn_relations sn). relation_ok r"
  by (auto simp: tree_ok_def entry_ok_def pos_ok_def sense_ok_def all_senses_def)

text \<open>Outcomes of the methods, whatever the connection does.\<close>

lemma saveTree_effect:
  assumes "word_inv (tables w)" and "tree_ok inp" and "word_saveTree i inp w = (r, w')"
  shows "word_inv (tables w') \<and> (tables w' = tables w \<and> (\<exists>er. r = Inl er) \<or>
    saved_view i inp (pg_now w) (\<lambda>j. entry j (tables w)) (\<lambda>j. entry j (tables w')))"
proof -
  have ids: "distinct (tree_ids inp)" using assms(2) by (simp add: tree_ok_def)
  have body: "word_inv (tables w1) \<and> saved_view i inp (pg_now w) (\<lambda>j. entry j (tables w)) (\<lambda>j. entry j (tables w1))"
    if "save_body i inp (pop_fate w) = (Inr u, w1)" for u w1
  proof -
    have ok: "db_ok (tables (pop_fate w))" using assms(1) by (simp add: word_inv_def)
    note B = save_body_Inr [OF that ok]
    from B(1,3) obtain D q where D: "saved i inp (pg_now w) D (tables w) (tables w1)"
      and q: "find_word i (tables w) = Some q" "ww_updated_at q = si_base inp" by auto
    have "links_ok (tables w1)"
      using saved_links [OF D _ ids tree_relations_ok [OF assms(2)]] assms(1) by (simp add: word_inv_def)
    with B(2) saved_views [OF D _ assms(2) q] assms(1) show ?thesis by (simp add: word_inv_def)
  qed
  show ?thesis
  proof (cases r)
    case (Inl er)
    with assms(3) have "pg_tx (wrapped ''begin tx'' ConnLost) (mapSaveErr ''commit'' ConnLost) (save_body i inp) w = (Inl er, w')"
      by (simp only: word_saveTree_def)
    from pg_tx_Inl_tables [OF this] show ?thesis using body assms(1) Inl by metis
  next
    case (Inr u)
    with assms(3) have "pg_tx (wrapped ''begin tx'' ConnLost) (mapSaveErr ''commit'' ConnLost) (save_body i inp) w = (Inr u, w')"
      by (simp only: word_saveTree_def)
    from pg_tx_Inr [OF this] body show ?thesis by auto
  qed
qed

lemma setStatus_effect:
  assumes "word_inv (tables w)" and "word_setStatus i stat base w = (r, w')"
  shows "word_inv (tables w') \<and> (tables w' = tables w \<and> (\<exists>er. r = Inl er) \<or>
    status_view i stat base (pg_now w) (\<lambda>j. entry j (tables w)) (\<lambda>j. entry j (tables w')))"
proof -
  let ?f = "sql_word_update (\<lambda>r. ww_id r = i \<and> ww_updated_at r = base) (\<lambda>r. r\<lparr>ww_status := stat, ww_updated_at := pg_now w\<rparr>)"
  obtain r1 w1 where st: "wstmt (wrapped ''set status'') ?f w = (r1, w1)" by fastforce
  have ok: "db_ok (tables w)" using assms(1) by (simp add: word_inv_def)
  from wstmt_tables(2) [OF st]
  show ?thesis
  proof
    assume "tables w1 = tables w \<and> (\<exists>e. r1 = Inl e)"
    with assms st show ?thesis by (auto simp: word_setStatus_def wbind_def)
  next
    assume "\<exists>n. ?f (tables w) = Inr (n, tables w1) \<and> (r1 = Inr n \<or> (\<exists>e. r1 = Inl e))"
    then obtain n where f: "?f (tables w) = Inr (n, tables w1)" and r1: "r1 = Inr n \<or> (\<exists>e. r1 = Inl e)" by blast
    note E = status_entry [OF f ok]
    show ?thesis
    proof (cases "n = 0 \<and> r1 = Inr n")
      case True
      then obtain ex where q: "wbind (wquery (wrapped ''set status'') (\<lambda>d. Inr (i \<in> word_ids d)))
          (\<lambda>ex. wfail (if ex then ErrStale else word_ErrNotFound)) w1 = (r, w')"
        using assms(2) st by (simp add: word_setStatus_def wbind_def [of "wstmt _ _"])
      then have "tables w' = tables w1 \<and> (\<exists>er. r = Inl er)"
        by (auto simp: wbind_def wfail_def split: prod.splits sum.splits dest: wquery_tables)
      with E(1) True assms(1) show ?thesis by simp
    next
      case False
      then have w': "w' = w1" and r: "(\<exists>er. r = Inl er) \<or> n \<noteq> 0"
        using assms(2) st r1 by (auto simp: word_setStatus_def wbind_def wret_def split: if_splits)
      then show ?thesis using E assms(1) by (cases "n = 0") auto
    qed
  qed
qed

lemma create_effect:
  assumes "word_inv (tables w)" and "word_create L (shell nid cb h k) w = (r, w')"
  shows "word_inv (tables w') \<and> (tables w' = tables w \<and> (\<exists>er. r = Inl er) \<or>
    created_view (shell nid cb h k) (pg_now w) (\<lambda>j. entry j (tables w)) (\<lambda>j. entry j (tables w')) \<and>
    (\<forall>e. r = Inr e \<longrightarrow> entry nid (tables w') = Some e))"
proof -
  let ?on = "\<lambda>er. if is_unique_violation er then ErrHeadwordTaken else wrapped ''insert word'' er"
  let ?f = "sql_word_insert L (shell nid cb h k) (pg_now w)"
  obtain r1 w1 where st: "wstmt ?on ?f w = (r1, w1)" by fastforce
  have ok: "db_ok (tables w)" using assms(1) by (simp add: word_inv_def)
  have w': "w' = w1" and r: "r1 = Inl er \<Longrightarrow> \<exists>er. r = Inl er" for er
    using assms(2) st by (auto simp: word_create_def wbind_def wret_def split: sum.splits prod.splits)
  from wstmt_tables(2) [OF st]
  show ?thesis
  proof
    assume "tables w1 = tables w \<and> (\<exists>e. r1 = Inl e)"
    with assms(1) w' r show ?thesis by auto
  next
    assume "\<exists>a. ?f (tables w) = Inr (a, tables w1) \<and> (r1 = Inr a \<or> (\<exists>e. r1 = Inl e))"
    then obtain a where f: "?f (tables w) = Inr (a, tables w1)" and r1: "r1 = Inr a \<or> (\<exists>e. r1 = Inl e)" by blast
    note E = created_entry [OF ok f]
    have "entry nid (tables w') = Some e" if "r = Inr e" for e
    proof -
      have "r1 = Inr (pg_now w, pg_now w)" using r1 r that E(3) by auto
      then have "e = (shell nid cb h k)\<lparr>we_created_at := pg_now w, we_updated_at := pg_now w\<rparr>"
        using assms(2) st that by (simp add: word_create_def wbind_def wret_def)
      with E(1) w' show ?thesis by (simp add: created_view_def shell_def fun_eq_iff)
    qed
    with E(1,2) assms(1) w' show ?thesis by blast
  qed
qed

lemma delete_stmt_effect:
  assumes "word_inv (tables w)" and "wstmt on (sql_word_delete is) w = (r, w')"
  shows "word_inv (tables w') \<and> (tables w' = tables w \<and> (\<exists>er. r = Inl er) \<or>
    deleted_view (set is) (\<lambda>j. entry j (tables w)) (\<lambda>j. entry j (tables w')))"
  using wstmt_tables(2) [OF assms(2)]
proof
  assume "\<exists>a. sql_word_delete is (tables w) = Inr (a, tables w') \<and> (r = Inr a \<or> (\<exists>e. r = Inl e))"
  then have t: "tables w' = delete_words is (tables w)" by (auto dest: sql_word_delete_Inr)
  then show ?thesis
    unfolding t using word_inv_delete [OF assms(1)] deleted_views [of "tables w" "is"] assms(1) by (simp add: word_inv_def)
qed (use assms(1) in simp)

lemma delete_effect:
  assumes "word_inv (tables w)" and "word_delete i w = (r, w')"
  shows "word_inv (tables w') \<and> (tables w' = tables w \<and> (\<exists>er. r = Inl er) \<or>
    deleted_view {i} (\<lambda>j. entry j (tables w)) (\<lambda>j. entry j (tables w')))"
proof -
  obtain r1 w1 where st: "wstmt (wrapped ''delete word'') (sql_word_delete [i]) w = (r1, w1)" by fastforce
  then have "w' = w1" and "r1 = Inl er \<Longrightarrow> \<exists>er. r = Inl er" for er
    using assms(2) by (auto simp: word_delete_def wbind_def wfail_def wret_def split: sum.splits if_splits)
  with delete_stmt_effect [OF assms(1) st] show ?thesis by auto
qed

lemma same_view:
  "A \<and> (d' = d \<and> B \<or> C) \<Longrightarrow> A \<and> ((\<lambda>j. entry j d') = (\<lambda>j. entry j d) \<and> B \<or> C)"
  by blast

interpretation words: word_store_laws "word_repo L" "\<lambda>w i. entry i (tables w)" pg_now "\<lambda>w. word_inv (tables w)"
proof
  fix s :: "(word_db, 'a) pgs_scheme" and i e assume "word_inv (tables s)" "entry i (tables s) = Some e"
  then show "we_id e = i \<and> links_wf e" using entry_id entry_links by (auto simp: word_inv_def)
next
  fix s s' :: "(word_db, 'a) pgs_scheme" and i r assume "word_inv (tables s)" "wst_getTree (word_repo L) i s = (r, s')"
  then show "word_inv (tables s') \<and> (\<lambda>i. entry i (tables s')) = (\<lambda>i. entry i (tables s)) \<and>
      (\<forall>e. r = Inr e \<longrightarrow> entry i (tables s) = Some e)"
    using getTree_tables [of i s r s'] getTree_Inr(2) [of i s _ s'] by (auto simp: word_repo_def)
qed (simp only: word_repo_def word_store.select_convs word_deleteMany_def, rule same_view,
    (erule (1) create_effect | erule (2) saveTree_effect | erule (1) setStatus_effect | erule (1) delete_effect |
      erule (1) delete_stmt_effect))+

end
