(* ===== verification/WordSys.thy ===== *)
theory WordSys
  imports WordStore
begin

text \<open>
  Concurrent requests. A save or a publish reads and checks in one transaction and writes in
  another; a ticket is a request between the two. Every write happens at a later instant than
  the last one, and a client's lock token is one it was given earlier. The invariant of the
  system is that published entries satisfy V1 to V9.
\<close>

datatype ticket = SaveT uuid save_input | PubT uuid word_entry

type_synonym 's config = "'s \<times> time \<times> ticket list"

text \<open>\<open>env\<close> is what happens between requests: the clock, the connection.\<close>

inductive wstep ::
  "'s word_service \<Rightarrow> ('s \<Rightarrow> time) \<Rightarrow> ('s \<Rightarrow> 's \<Rightarrow> bool) \<Rightarrow> 's config \<Rightarrow> 's config \<Rightarrow> bool"
  for sv clk env where
  env_step: "env s s' \<Longrightarrow> wstep sv clk env (s, l, ts) (s', l, ts)"
| save_read: "save_check sv i inp s = (Inr v, s') \<Longrightarrow> si_base inp \<le> l \<Longrightarrow>
    wstep sv clk env (s, l, ts) (s', l, SaveT i v # ts)"
| save_write: "SaveT i v \<in> set ts \<Longrightarrow> save_commit sv i v s = (r, s') \<Longrightarrow> l < clk s \<Longrightarrow>
    wstep sv clk env (s, l, ts) (s', clk s, remove1 (SaveT i v) ts)"
| publish_read: "publish_check sv i s = (Inr e, s') \<Longrightarrow> wstep sv clk env (s, l, ts) (s', l, PubT i e # ts)"
| publish_write: "PubT i e \<in> set ts \<Longrightarrow> publish_commit sv i e s = (r, s') \<Longrightarrow> l < clk s \<Longrightarrow>
    wstep sv clk env (s, l, ts) (s', clk s, remove1 (PubT i e) ts)"
| create_step: "word_CreateShell sv nid cb h k s = (r, s') \<Longrightarrow> l < clk s \<Longrightarrow>
    wstep sv clk env (s, l, ts) (s', clk s, ts)"
| delete_step: "word_Delete sv i s = (u, s') \<Longrightarrow> l < clk s \<Longrightarrow> wstep sv clk env (s, l, ts) (s', clk s, ts)"
| batch_step: "word_BatchDelete sv is s = (n, s') \<Longrightarrow> l < clk s \<Longrightarrow> wstep sv clk env (s, l, ts) (s', clk s, ts)"

abbreviation wreach where
  "wreach sv clk env \<equiv> (wstep sv clk env)\<^sup>*\<^sup>*"

subsection \<open>The invariant\<close>

definition words_ok :: "time \<Rightarrow> word_view \<Rightarrow> bool" where
  "words_ok l V \<longleftrightarrow> (\<forall>i e. V i = Some e \<longrightarrow> we_updated_at e \<le> l \<and> entry_wf e \<and>
     (we_status e = StatusPublished \<longrightarrow> entry_complete e))"

fun ticket_ok :: "time \<Rightarrow> word_view \<Rightarrow> ticket \<Rightarrow> bool" where
  "ticket_ok l V (SaveT i v) \<longleftrightarrow> tree_ok v \<and> si_base v \<le> l \<and>
     (content_complete (si_frequency v) (si_mode v) (si_dialects v) (si_pos v) \<or>
      (\<forall>e. V i = Some e \<longrightarrow> we_status e = StatusPublished \<longrightarrow> si_base v < we_updated_at e))"
| "ticket_ok l V (PubT i e0) \<longleftrightarrow> we_updated_at e0 \<le> l \<and>
     (\<forall>e. V i = Some e \<longrightarrow> we_updated_at e = we_updated_at e0 \<longrightarrow> entry_complete e)"

definition sys_ok :: "('s \<Rightarrow> word_view) \<Rightarrow> ('s \<Rightarrow> bool) \<Rightarrow> 's config \<Rightarrow> bool" where
  "sys_ok wv good c \<longleftrightarrow> (case c of (s, l, ts) \<Rightarrow> good s \<and> words_ok l (wv s) \<and> (\<forall>t \<in> set ts. ticket_ok l (wv s) t))"

text \<open>A write: what is not stamped with its instant only lost links.\<close>

definition touched :: "time \<Rightarrow> word_view \<Rightarrow> word_view \<Rightarrow> bool" where
  "touched now V V' \<longleftrightarrow> (\<forall>i e'. V' i = Some e' \<longrightarrow>
     we_updated_at e' = now \<or> (\<exists>e. V i = Some e \<and> loses_links e e'))"

lemma loses_links_sel:
  assumes "loses_links e e'"
  shows "we_updated_at e' = we_updated_at e" "we_status e' = we_status e" "entry_complete e' = entry_complete e"
    "entry_wf e \<Longrightarrow> links_wf e' \<Longrightarrow> entry_wf e'"
proof -
  obtain D S where e: "e' = unlink_words S (unlink_entry D e)" using assms by (auto simp: loses_links_def)
  show "we_updated_at e' = we_updated_at e" "we_status e' = we_status e"
    by (simp_all add: e unlink_words_def unlink_entry_def)
  show "entry_complete e' = entry_complete e" by (simp add: e unlink_complete unlink_words_complete)
  show "entry_wf e'" if "entry_wf e" "links_wf e'"
    using unlink_words_wf [OF unlink_entry_wf [OF that(1)]] that(2) by (simp add: e)
qed

lemma unlink_none: "unlink_entry (\<lambda>_. {}) e = e"
proof -
  have r: "unlink_relation {} = (\<lambda>r. r)" and x: "unlink_definition {} = (\<lambda>x. x)"
    by (simp_all add: fun_eq_iff unlink_relation_def unlink_definition_def)
  have sn: "unlink_tree_sense (\<lambda>_. {}) = (\<lambda>sn. sn)" by (rule ext) (simp add: unlink_tree_sense_def r x)
  have "unlink_pos (\<lambda>_. {}) = (\<lambda>po. po)" by (rule ext) (simp add: unlink_pos_def sn)
  then show ?thesis by (simp add: unlink_entry_def)
qed

lemma loses_links_refl [simp]: "loses_links e e"
  unfolding loses_links_def by (intro exI [of _ "\<lambda>_. {}"] exI [of _ "{}"]) (simp add: unlink_none unlink_words_none)

lemma rel_option_Some2: "rel_option R x (Some y) \<longleftrightarrow> (\<exists>z. x = Some z \<and> R z y)"
  by (cases x) auto

lemma touched_views:
  "touched now V V" "saved_view i inp now V V' \<Longrightarrow> touched now V V'" "status_view i st base now V V' \<Longrightarrow> touched now V V'"
  "created_view e now V V' \<Longrightarrow> touched now V V'" "deleted_view S V V' \<Longrightarrow> touched now V V'"
proof -
  show "touched now V V" by (auto simp: touched_def)
  show "touched now V V'" if "saved_view i inp now V V'"
    unfolding touched_def
  proof (intro allI impI)
    fix j e' assume j: "V' j = Some e'"
    show "we_updated_at e' = now \<or> (\<exists>e. V j = Some e \<and> loses_links e e')"
    proof (cases "j = i")
      case True
      with that j show ?thesis by (auto simp: saved_view_def saved_as_def stored_entry_def)
    next
      case False
      with that have "rel_option loses_links (V j) (V' j)" by (simp add: saved_view_def)
      with j show ?thesis by (simp add: rel_option_Some2)
    qed
  qed
  show "touched now V V'" if "status_view i st base now V V'"
    using that by (auto simp: touched_def status_view_def split: if_splits)
  show "touched now V V'" if "created_view e now V V'"
    using that by (auto simp: touched_def created_view_def split: if_splits)
  show "touched now V V'" if "deleted_view S V V'"
    unfolding touched_def
  proof (intro allI impI)
    fix j e' assume j: "V' j = Some e'"
    have "if j \<in> S then V' j = None else rel_option loses_links (V j) (V' j)" using that by (simp add: deleted_view_def)
    with j have "rel_option loses_links (V j) (V' j)" by (cases "j \<in> S") simp_all
    with j show "we_updated_at e' = now \<or> (\<exists>e. V j = Some e \<and> loses_links e e')" by (simp add: rel_option_Some2)
  qed
qed

lemma ticket_later:
  assumes "ticket_ok l V t" and "l < now" and "touched now V V'"
  shows "ticket_ok now V' t"
proof (cases t)
  case (SaveT i v)
  let ?done = "content_complete (si_frequency v) (si_mode v) (si_dialects v) (si_pos v)"
  have tk: "tree_ok v" "si_base v \<le> l"
    "?done \<or> (\<forall>e. V i = Some e \<longrightarrow> we_status e = StatusPublished \<longrightarrow> si_base v < we_updated_at e)"
    using assms(1) SaveT by simp_all
  have "si_base v < we_updated_at e'"
    if nd: "\<not> ?done" and e': "V' i = Some e'" "we_status e' = StatusPublished" for e'
  proof -
    have "we_updated_at e' = now \<or> (\<exists>e. V i = Some e \<and> loses_links e e')" using assms(3) e'(1) by (simp add: touched_def)
    then show ?thesis
    proof (elim disjE exE conjE)
      fix e assume e: "V i = Some e" "loses_links e e'"
      have "we_status e = StatusPublished" using loses_links_sel(2) [OF e(2)] e'(2) by simp
      with tk(3) nd e(1) have "si_base v < we_updated_at e" by blast
      then show ?thesis using loses_links_sel(1) [OF e(2)] by simp
    qed (use assms(2) tk(2) in simp)
  qed
  then have "?done \<or> (\<forall>e. V' i = Some e \<longrightarrow> we_status e = StatusPublished \<longrightarrow> si_base v < we_updated_at e)" by blast
  then show ?thesis unfolding SaveT ticket_ok.simps using tk(1,2) assms(2) by simp
next
  case (PubT i e0)
  have "entry_complete e'" if "V' i = Some e'" "we_updated_at e' = we_updated_at e0" for e'
  proof -
    have "we_updated_at e' \<noteq> now" using that(2) assms(1,2) PubT by auto
    with assms(3) that(1) obtain e where e: "V i = Some e" "loses_links e e'" by (auto simp: touched_def)
    have "we_updated_at e = we_updated_at e0" using loses_links_sel(1) [OF e(2)] that(2) by simp
    with e(1) assms(1) PubT have "entry_complete e" by simp
    then show ?thesis using loses_links_sel(3) [OF e(2)] by simp
  qed
  then show ?thesis using assms(1,2) unfolding PubT ticket_ok.simps by simp
qed

text \<open>What a write stamps must be in order on its own.\<close>

lemma entries_later:
  assumes "words_ok l V" and "l < now" and "touched now V V'"
    and "\<And>i e'. V' i = Some e' \<Longrightarrow> links_wf e'"
    and "\<And>i e'. V' i = Some e' \<Longrightarrow> we_updated_at e' = now \<Longrightarrow> entry_wf e' \<and> (we_status e' = StatusPublished \<longrightarrow> entry_complete e')"
  shows "words_ok now V'"
  unfolding words_ok_def
proof (intro allI impI)
  fix i e' assume e': "V' i = Some e'"
  show "we_updated_at e' \<le> now \<and> entry_wf e' \<and> (we_status e' = StatusPublished \<longrightarrow> entry_complete e')"
  proof (cases "we_updated_at e' = now")
    case True
    with assms(5) [OF e'] show ?thesis by simp
  next
    case False
    with assms(3) e' obtain e where e: "V i = Some e" "loses_links e e'" by (auto simp: touched_def)
    with assms(1) have "we_updated_at e \<le> l \<and> entry_wf e \<and> (we_status e = StatusPublished \<longrightarrow> entry_complete e)"
      by (simp add: words_ok_def)
    with loses_links_sel [OF e(2)] assms(2,4) e' show ?thesis by auto
  qed
qed

subsection \<open>Its preservation\<close>

lemma check_body_Inr:
  assumes "check_body e inp = Inr v"
  shows "validateTree inp = Inr v" and "tree_ok v" and "si_base v = si_base inp"
    and "we_status e = StatusPublished \<Longrightarrow> content_complete (si_frequency v) (si_mode v) (si_dialects v) (si_pos v)"
proof -
  obtain v' where v: "validateTree inp = Inr v'" using assms by (auto simp: check_body_def split: sum.splits)
  with assms have eq: "v' = v" by (auto simp: check_body_def split: if_splits)
  with v show "validateTree inp = Inr v" by simp
  then show "tree_ok v" "si_base v = si_base inp" by (auto simp: validateTree_iff)
  assume "we_status e = StatusPublished"
  with assms v eq have "publishViolations (si_frequency v) (si_mode v) (si_dialects v) (si_pos v) = []"
    by (auto simp: check_body_def split: if_splits)
  then show "content_complete (si_frequency v) (si_mode v) (si_dialects v) (si_pos v)" by (simp add: publishViolations_Nil)
qed

lemma shell_wf: "entry_wf ((shell nid cb h k)\<lparr>we_created_at := c, we_updated_at := u\<rparr>)"
  by (simp add: entry_wf_def entry_ok_def shell_def body_of_def tree_ids_def dialects_ok_def)

lemma status_wf: "entry_wf (e\<lparr>we_status := x, we_updated_at := u\<rparr>) = entry_wf e"
  by (simp add: entry_wf_def body_of_def tree_ids_def)

locale word_world = word_store_laws st wv clk inv
  for st :: "'s word_store" and wv :: "'s \<Rightarrow> word_view" and clk :: "'s \<Rightarrow> time" and inv :: "'s \<Rightarrow> bool" +
  fixes sv :: "'s word_service" and env :: "'s \<Rightarrow> 's \<Rightarrow> bool"
  assumes store_law: "wsv_store sv = st"
    and hook_law: "inv s \<Longrightarrow> inv (wsv_hook sv e s) \<and> wv (wsv_hook sv e s) = wv s"
    and env_law: "env s s' \<Longrightarrow> inv s \<Longrightarrow> inv s' \<and> wv s' = wv s"
begin

lemma save_check_effect:
  assumes "inv s" and "save_check sv i inp s = (r, s')"
  shows "inv s' \<and> wv s' = wv s" and "r = Inr v \<Longrightarrow> \<exists>e. wv s i = Some e \<and> check_body e inp = Inr v"
proof -
  obtain re s1 where g: "wst_getTree st i s = (re, s1)" by fastforce
  note G = getTree_law [OF assms(1) g]
  have "s1 = s'" "r = Inr v \<Longrightarrow> \<exists>e. re = Inr e \<and> check_body e inp = Inr v"
    using assms(2) g by (auto simp: save_check_def store_law split: sum.splits)
  with G show "inv s' \<and> wv s' = wv s" "r = Inr v \<Longrightarrow> \<exists>e. wv s i = Some e \<and> check_body e inp = Inr v" by auto
qed

lemma publish_check_effect:
  assumes "inv s" and "publish_check sv i s = (r, s')"
  shows "inv s' \<and> wv s' = wv s" and "r = Inr e \<Longrightarrow> wv s i = Some e \<and> entry_complete e"
proof -
  obtain re s1 where g: "wst_getTree st i s = (re, s1)" by fastforce
  note G = getTree_law [OF assms(1) g]
  have "s1 = s'" "r = Inr e \<Longrightarrow> re = Inr e \<and> publishViolations (we_frequency e) (we_mode e) (we_dialects e) (we_pos e) = []"
    using assms(2) g by (auto simp: publish_check_def store_law Let_def split: sum.splits if_splits)
  with G show "inv s' \<and> wv s' = wv s" "r = Inr e \<Longrightarrow> wv s i = Some e \<and> entry_complete e"
    by (auto simp: entry_complete_def publishViolations_Nil)
qed

lemma save_commit_effect:
  assumes "inv s" and "tree_ok v" and "save_commit sv i v s = (r, s')"
  shows "inv s' \<and> (wv s' = wv s \<and> (\<exists>er. r = Inl er) \<or> saved_view i v (clk s) (wv s) (wv s'))"
    and "r = Inr e \<Longrightarrow> wv s' i = Some e"
proof -
  obtain ru s1 where t: "wst_saveTree st i v s = (ru, s1)" by fastforce
  note T = saveTree_law [OF assms(1,2) t]
  obtain re s2 where g: "wst_getTree st i s1 = (re, s2)" by fastforce
  note G = getTree_law [OF conjunct1 [OF T] g]
  have "(\<exists>er. ru = Inl er) \<and> s' = s1 \<and> (\<exists>er. r = Inl er) \<or>
      ru = Inr () \<and> r = re \<and> (s' = s2 \<or> (\<exists>e. s' = wsv_hook sv e s2))"
    using assms(3) t g by (auto simp: save_commit_def store_law split: sum.splits if_splits)
  then have "(\<exists>er. ru = Inl er) \<and> s' = s1 \<and> (\<exists>er. r = Inl er) \<or> ru = Inr () \<and> r = re \<and> inv s' \<and> wv s' = wv s1"
    using hook_law [of s2] G by metis
  then show "inv s' \<and> (wv s' = wv s \<and> (\<exists>er. r = Inl er) \<or> saved_view i v (clk s) (wv s) (wv s'))"
    and "r = Inr e \<Longrightarrow> wv s' i = Some e" using T G by auto
qed

lemma publish_commit_effect:
  assumes "inv s" and "publish_commit sv i e0 s = (r, s')"
  shows "inv s' \<and> (wv s' = wv s \<and> (\<exists>er. r = Inl er) \<or>
      status_view i StatusPublished (we_updated_at e0) (clk s) (wv s) (wv s'))"
    and "r = Inr e \<Longrightarrow> wv s' i = Some e"
proof -
  obtain ru s1 where t: "wst_setStatus st i StatusPublished (we_updated_at e0) s = (ru, s1)" by fastforce
  note T = setStatus_law [OF assms(1) t]
  obtain re s2 where g: "wst_getTree st i s1 = (re, s2)" by fastforce
  note G = getTree_law [OF conjunct1 [OF T] g]
  have "(\<exists>er. ru = Inl er) \<and> s' = s1 \<and> (\<exists>er. r = Inl er) \<or>
      ru = Inr () \<and> r = re \<and> (s' = s2 \<or> (\<exists>e. s' = wsv_hook sv e s2))"
    using assms(2) t g by (auto simp: publish_commit_def store_law split: sum.splits if_splits)
  then have "(\<exists>er. ru = Inl er) \<and> s' = s1 \<and> (\<exists>er. r = Inl er) \<or> ru = Inr () \<and> r = re \<and> inv s' \<and> wv s' = wv s1"
    using hook_law [of s2] G by metis
  then show "inv s' \<and> (wv s' = wv s \<and> (\<exists>er. r = Inl er) \<or>
      status_view i StatusPublished (we_updated_at e0) (clk s) (wv s) (wv s'))"
    and "r = Inr e \<Longrightarrow> wv s' i = Some e" using T G by auto
qed

lemma create_shell_effect:
  assumes "inv s" and "word_CreateShell sv nid cb h k s = (r, s')"
  shows "inv s' \<and> (wv s' = wv s \<or> (\<exists>h k. created_view (shell nid cb h k) (clk s) (wv s) (wv s')))"
proof -
  consider "s' = s" | h' k' where "wst_create st (shell nid cb h' k') s = (r, s')"
    using assms(2) by (auto simp: word_CreateShell_def Let_def store_law split: if_splits)
  then show ?thesis
  proof cases
    case 2
    from create_law [OF assms(1) this] show ?thesis by blast
  qed (use assms(1) in simp)
qed

lemma batch_effect:
  assumes "inv s" and "word_BatchDelete sv is s = (n, s')"
  shows "inv s' \<and> (wv s' = wv s \<or> (\<exists>S. deleted_view S (wv s) (wv s')))"
proof -
  consider "s' = s" | js where "wst_deleteMany st js s = (n, s')"
    using assms(2) by (auto simp: word_BatchDelete_def store_law split: if_splits)
  then show ?thesis
  proof cases
    case 2
    from deleteMany_law [OF assms(1) this] show ?thesis by blast
  qed (use assms(1) in simp)
qed

text \<open>A write's effect on the map, and what it stamps.\<close>

lemma write_ok:
  assumes "sys_ok wv inv (s, l, ts)" and "inv s'" and "l < clk s" and "touched (clk s) (wv s) (wv s')" and "set us \<subseteq> set ts"
    and "\<And>i e'. wv s' i = Some e' \<Longrightarrow> we_updated_at e' = clk s \<Longrightarrow> entry_wf e' \<and> (we_status e' = StatusPublished \<longrightarrow> entry_complete e')"
  shows "sys_ok wv inv (s', clk s, us)"
  using assms(1,2,5) ticket_later [OF _ assms(3,4)] entries_later [OF _ assms(3,4) _ assms(6)] view_law [OF assms(2)]
  by (auto simp: sys_ok_def)

lemma stale_stamp: "words_ok l V \<Longrightarrow> l < now \<Longrightarrow> V i = Some e \<Longrightarrow> we_updated_at e \<noteq> now"
proof -
  assume "words_ok l V" "l < now" "V i = Some e"
  then have "we_updated_at e \<le> l" unfolding words_ok_def by blast
  with \<open>l < now\<close> show ?thesis by simp
qed

lemma loses_stamp:
  "words_ok l V \<Longrightarrow> l < now \<Longrightarrow> rel_option loses_links (V i) (Some e') \<Longrightarrow> we_updated_at e' \<noteq> now"
  unfolding rel_option_Some2 using stale_stamp loses_links_sel(1) by metis

lemma same_ok:
  assumes "sys_ok wv inv (s, l, ts)" and "inv s'" and "wv s' = wv s" and "l < clk s" and "set us \<subseteq> set ts"
  shows "sys_ok wv inv (s', clk s, us)"
proof (rule write_ok [OF assms(1,2,4) _ assms(5)])
  show "touched (clk s) (wv s) (wv s')" unfolding assms(3) by (rule touched_views)
  show "entry_wf e' \<and> (we_status e' = StatusPublished \<longrightarrow> entry_complete e')" if "wv s' i = Some e'" "we_updated_at e' = clk s" for i e'
    using that assms(1,3,4) stale_stamp by (auto simp: sys_ok_def)
qed

lemma deleted_ok:
  assumes "sys_ok wv inv (s, l, ts)" and "inv s'" and "deleted_view S (wv s) (wv s')" and "l < clk s"
  shows "sys_ok wv inv (s', clk s, ts)"
proof (rule write_ok [OF assms(1,2,4) touched_views(5) [OF assms(3)] subset_refl])
  fix i e' assume e': "wv s' i = Some e'" "we_updated_at e' = clk s"
  have "if i \<in> S then wv s' i = None else rel_option loses_links (wv s i) (wv s' i)" using assms(3) by (simp add: deleted_view_def)
  with e'(1) have "rel_option loses_links (wv s i) (Some e')" by (cases "i \<in> S") simp_all
  from loses_stamp [of l "wv s" "clk s" i, OF _ assms(4) this] e'(2) assms(1) have False by (simp add: sys_ok_def)
  then show "entry_wf e' \<and> (we_status e' = StatusPublished \<longrightarrow> entry_complete e')" ..
qed

lemma saved_ok:
  assumes "sys_ok wv inv (s, l, ts)" and "inv s'" and "saved_view i v (clk s) (wv s) (wv s')" and "l < clk s"
    and "SaveT i v \<in> set ts" and "set us \<subseteq> set ts"
  shows "sys_ok wv inv (s', clk s, us)"
proof (rule write_ok [OF assms(1,2,4) touched_views(2) [OF assms(3)] assms(6)])
  fix j e' assume e': "wv s' j = Some e'" "we_updated_at e' = clk s"
  have ok: "words_ok l (wv s)" and tk: "ticket_ok l (wv s) (SaveT i v)" using assms(1,5) by (auto simp: sys_ok_def)
  have "j = i"
  proof (rule ccontr)
    assume "j \<noteq> i"
    with assms(3) e'(1) have "rel_option loses_links (wv s j) (Some e')" by (auto simp: saved_view_def)
    from loses_stamp [of l "wv s" "clk s" j, OF ok assms(4) this] e'(2) show False by simp
  qed
  with assms(3) e'(1) obtain e d d' where e: "wv s i = Some e" "we_updated_at e = si_base v" "e' = stored_entry d d' v (clk s) e"
    by (auto simp: saved_view_def saved_as_def)
  have "links_wf e'" using view_law [OF assms(2) e'(1)] by simp
  with tk e(3) have "entry_wf e'" by (simp add: stored_entry_wf)
  moreover have "entry_complete e'" if "we_status e' = StatusPublished"
  proof -
    have "we_status e = StatusPublished" using that e(3) by (simp add: stored_entry_def)
    with tk e(1,2) have "content_complete (si_frequency v) (si_mode v) (si_dialects v) (si_pos v)" by auto
    then show ?thesis unfolding e(3) stored_complete .
  qed
  ultimately show "entry_wf e' \<and> (we_status e' = StatusPublished \<longrightarrow> entry_complete e')" by blast
qed

lemma published_ok:
  assumes "sys_ok wv inv (s, l, ts)" and "inv s'" and "status_view i StatusPublished (we_updated_at e0) (clk s) (wv s) (wv s')"
    and "l < clk s" and "PubT i e0 \<in> set ts" and "set us \<subseteq> set ts"
  shows "sys_ok wv inv (s', clk s, us)"
proof (rule write_ok [OF assms(1,2,4) touched_views(3) [OF assms(3)] assms(6)])
  fix j e' assume e': "wv s' j = Some e'" "we_updated_at e' = clk s"
  have ok: "words_ok l (wv s)" and tk: "ticket_ok l (wv s) (PubT i e0)" using assms(1,5) by (auto simp: sys_ok_def)
  obtain e where e: "wv s i = Some e" "we_updated_at e = we_updated_at e0"
    and v: "wv s' = (wv s)(i \<mapsto> e\<lparr>we_status := StatusPublished, we_updated_at := clk s\<rparr>)"
    using assms(3) by (auto simp: status_view_def)
  have "j = i"
  proof (rule ccontr)
    assume "j \<noteq> i"
    with v e'(1) have "wv s j = Some e'" by simp
    from stale_stamp [of l "wv s" "clk s" j, OF ok assms(4) this] e'(2) show False by simp
  qed
  with v e'(1) have "e' = e\<lparr>we_status := StatusPublished, we_updated_at := clk s\<rparr>" by simp
  moreover have "entry_wf e" using ok e(1) by (simp add: words_ok_def)
  moreover have "entry_complete e" using tk e by simp
  ultimately show "entry_wf e' \<and> (we_status e' = StatusPublished \<longrightarrow> entry_complete e')"
    by (simp add: status_wf entry_complete_def)
qed

lemma created_ok:
  assumes "sys_ok wv inv (s, l, ts)" and "inv s'" and "created_view (shell nid cb h k) (clk s) (wv s) (wv s')" and "l < clk s"
  shows "sys_ok wv inv (s', clk s, ts)"
proof (rule write_ok [OF assms(1,2,4) touched_views(4) [OF assms(3)] subset_refl])
  fix j e' assume e': "wv s' j = Some e'" "we_updated_at e' = clk s"
  have v: "wv s' = (wv s)(nid \<mapsto> (shell nid cb h k)\<lparr>we_created_at := clk s, we_updated_at := clk s\<rparr>)"
    using assms(3) by (simp add: created_view_def shell_def)
  show "entry_wf e' \<and> (we_status e' = StatusPublished \<longrightarrow> entry_complete e')"
  proof (cases "j = nid")
    case True
    with v e'(1) have "e' = (shell nid cb h k)\<lparr>we_created_at := clk s, we_updated_at := clk s\<rparr>" by simp
    then show ?thesis using shell_wf by (simp add: shell_def)
  next
    case False
    with v e'(1) have "wv s j = Some e'" by simp
    from stale_stamp [of l "wv s" "clk s" j, OF _ assms(4) this] e'(2) assms(1) show ?thesis by (simp add: sys_ok_def)
  qed
qed

lemma step_ok: "wstep sv clk env c c' \<Longrightarrow> sys_ok wv inv c \<Longrightarrow> sys_ok wv inv c'"
proof (induction rule: wstep.induct)
  case (env_step s s' l ts)
  then show ?case using env_law [of s s'] by (simp add: sys_ok_def)
next
  case (save_read i inp s v s' l ts)
  have I: "inv s" using save_read.prems by (simp add: sys_ok_def)
  note E = save_check_effect [OF I save_read.hyps(1)]
  obtain e where e: "wv s i = Some e" "check_body e inp = Inr v" using E(2) by blast
  have "ticket_ok l (wv s) (SaveT i v)"
    using check_body_Inr [OF e(2)] e(1) save_read.hyps(2) by auto
  with E(1) save_read.prems show ?case by (auto simp: sys_ok_def)
next
  case (save_write i v ts s r s' l)
  have I: "inv s" and T: "tree_ok v" using save_write by (auto simp: sys_ok_def)
  have us: "set (remove1 (SaveT i v) ts) \<subseteq> set ts" by (rule set_remove1_subset)
  from save_commit_effect(1) [OF I T save_write.hyps(2)]
  have S: "inv s'" "wv s' = wv s \<or> saved_view i v (clk s) (wv s) (wv s')" by auto
  from S(2) show ?case
  proof
    assume "wv s' = wv s"
    then show ?case by (rule same_ok [OF save_write.prems S(1) _ save_write.hyps(3) us])
  next
    assume "saved_view i v (clk s) (wv s) (wv s')"
    then show ?case by (rule saved_ok [OF save_write.prems S(1) _ save_write.hyps(3,1) us])
  qed
next
  case (publish_read i s e s' l ts)
  have I: "inv s" using publish_read.prems by (simp add: sys_ok_def)
  note E = publish_check_effect [OF I publish_read.hyps]
  have "we_updated_at e \<le> l" using E(2) publish_read.prems by (auto simp: sys_ok_def words_ok_def)
  with E publish_read.prems show ?case by (auto simp: sys_ok_def)
next
  case (publish_write i e ts s r s' l)
  have I: "inv s" using publish_write.prems by (simp add: sys_ok_def)
  have us: "set (remove1 (PubT i e) ts) \<subseteq> set ts" by (rule set_remove1_subset)
  from publish_commit_effect(1) [OF I publish_write.hyps(2)]
  have S: "inv s'" "wv s' = wv s \<or> status_view i StatusPublished (we_updated_at e) (clk s) (wv s) (wv s')" by auto
  from S(2) show ?case
  proof
    assume "wv s' = wv s"
    then show ?case by (rule same_ok [OF publish_write.prems S(1) _ publish_write.hyps(3) us])
  next
    assume "status_view i StatusPublished (we_updated_at e) (clk s) (wv s) (wv s')"
    then show ?case by (rule published_ok [OF publish_write.prems S(1) _ publish_write.hyps(3,1) us])
  qed
next
  case (create_step nid cb h k s r s' l ts)
  have I: "inv s" using create_step.prems by (simp add: sys_ok_def)
  from create_shell_effect [OF I create_step.hyps(1)]
  have S: "inv s'" "wv s' = wv s \<or> (\<exists>h k. created_view (shell nid cb h k) (clk s) (wv s) (wv s'))" by auto
  from S(2) show ?case
    using same_ok [OF create_step.prems S(1) _ create_step.hyps(2) subset_refl]
      created_ok [OF create_step.prems S(1) _ create_step.hyps(2)] by blast
next
  case (delete_step i s u s' l ts)
  have I: "inv s" using delete_step.prems by (simp add: sys_ok_def)
  from delete_law [OF I delete_step.hyps(1) [unfolded word_Delete_def store_law]]
  have S: "inv s'" "wv s' = wv s \<or> deleted_view {i} (wv s) (wv s')" by auto
  from S(2) show ?case
    using same_ok [OF delete_step.prems S(1) _ delete_step.hyps(2) subset_refl]
      deleted_ok [OF delete_step.prems S(1) _ delete_step.hyps(2)] by blast
next
  case (batch_step "is" s n s' l ts)
  have I: "inv s" using batch_step.prems by (simp add: sys_ok_def)
  from batch_effect [OF I batch_step.hyps(1)]
  have S: "inv s'" "wv s' = wv s \<or> (\<exists>S. deleted_view S (wv s) (wv s'))" by auto
  from S(2) show ?case
    using same_ok [OF batch_step.prems S(1) _ batch_step.hyps(2) subset_refl]
      deleted_ok [OF batch_step.prems S(1) _ batch_step.hyps(2)] by blast
qed

lemma reach_ok: "wreach sv clk env c c' \<Longrightarrow> sys_ok wv inv c \<Longrightarrow> sys_ok wv inv c'"
  by (induction rule: rtranclp_induct) (auto intro: step_ok)

end

subsection \<open>The service on the repository\<close>

definition same_tables :: "(word_db, 'z) pgs_scheme \<Rightarrow> (word_db, 'z) pgs_scheme \<Rightarrow> bool" where
  "same_tables w w' \<longleftrightarrow> tables w' = tables w"

interpretation world: word_world "word_repo L" "\<lambda>w i. entry i (tables w)" pg_now "\<lambda>w. word_inv (tables w)"
    "NewService (word_repo L) None" same_tables
  by unfold_locales (simp_all add: NewService_def same_tables_def)

abbreviation words_step where
  "words_step L \<equiv> wstep (NewService (word_repo L) None) pg_now same_tables"

end
