(* ===== verification/WordHandler.thy ===== *)
theory WordHandler
  imports Handler WordSys
begin

text \<open>
  The wordlist's handlers (\<open>internal/word/handler.go\<close>) over the service, and what a rejected
  request leaves behind.
\<close>

subsection \<open>Bodies\<close>

text \<open>The texts of a validation error and of the violations are the rendering of their values.\<close>

datatype word_body =
    WB_error string
  | WB_invalid node_path invalid_reason
  | WB_incomplete "violation list"
  | WB_word word_entry
  | WB_page "list_item list" int int nat
  | WB_stats word_stats
  | WB_deleted nat
  | WB_results "related_result list"

type_synonym word_reply = "(word_body, word_err) reply"

text \<open>\<open>uuid.Parse\<close> and the JSON bindings of the request types. The body of a save is read up to
  the limit; the flag says that there was more.\<close>

datatype save_bind_err = TooLarge | BadBody string

record word_lib =
  wl_uuid :: "string \<Rightarrow> uuid option"
  wl_create :: "string \<Rightarrow> string + string \<times> string"
  wl_save :: "string \<Rightarrow> bool \<Rightarrow> save_bind_err + save_input"
  wl_ids :: "string \<Rightarrow> string + uuid list"

text \<open>The draws of a request: \<open>uuid.New()\<close>, \<open>time.Now()\<close>, and the order in which \<open>range\<close> visits
  the two bounds of the listing.\<close>

record word_draw =
  wd_id :: uuid
  wd_now :: time
  wd_from_first :: bool

definition word_respondErr :: "word_err \<Rightarrow> word_reply" where
  "word_respondErr e =
     (case e of
        IncompleteError v \<Rightarrow> json 422 (WB_incomplete v)
      | ValidationError p r \<Rightarrow> json 400 (WB_invalid p r)
      | Plainly g \<Rightarrow>
          if errors_is g (Sentinel ''word.ErrNotFound'') then json 404 (WB_error ''word not found'')
          else if errors_is g (Sentinel ''word.ErrHeadwordTaken'') then json 409 (WB_error ''word already exists'')
          else if errors_is g (Sentinel ''word.ErrStale'') then json 409 (WB_error ''word was modified by others'')
          else if errors_is g (Sentinel ''word.ErrIDConflict'')
            then json 400 (WB_error ''node id already belongs to another entry'')
          else if errors_is g (Sentinel ''word.ErrBadTargetRef'')
            then json 400 (WB_error ''related word target not found'')
          else internalError WB_error e)"

definition word_reply_to ::
  "('a \<Rightarrow> word_reply) \<Rightarrow> (word_err + 'a) \<times> 's \<Rightarrow> (word_body, word_err) answer \<times> 's" where
  "word_reply_to f rs =
     (case rs of (Inl e, s) \<Rightarrow> (Reply (word_respondErr e), s) | (Inr a, s) \<Rightarrow> (Reply (f a), s))"

definition wordID ::
  "word_lib \<Rightarrow> request \<Rightarrow> (uuid \<Rightarrow> 's \<Rightarrow> (word_body, word_err) answer \<times> 's) \<Rightarrow> 's
    \<Rightarrow> (word_body, word_err) answer \<times> 's" where
  "wordID L rq k s =
     (case wl_uuid L (rq_param rq ''wordId'') of
        None \<Rightarrow> (Reply (json 400 (WB_error ''invalid word id'')), s)
      | Some i \<Rightarrow> k i s)"

subsection \<open>The handlers\<close>

definition word_Create_h :: "word_lib \<Rightarrow> 's word_service \<Rightarrow> word_draw \<Rightarrow> (word_body, word_err, 's) handler" where
  "word_Create_h L sv D rq =
     with_json (wl_create L) WB_error rq (\<lambda>(headword, kind). MustGet ''auth.adminID'' rq (\<lambda>adminID s.
       word_reply_to (\<lambda>w. json 201 (WB_word w)) (word_CreateShell sv (wd_id D) adminID headword kind s)))"

definition word_Get_h :: "word_lib \<Rightarrow> 's word_service \<Rightarrow> (word_body, word_err, 's) handler" where
  "word_Get_h L sv rq = wordID L rq (\<lambda>i s. word_reply_to (\<lambda>w. json 200 (WB_word w)) (word_Get sv i s))"

abbreviation (input) maxSaveBodyBytes :: nat where "maxSaveBodyBytes \<equiv> 4 * 2 ^ 20"

definition word_SaveContent_h :: "word_lib \<Rightarrow> 's word_service \<Rightarrow> (word_body, word_err, 's) handler" where
  "word_SaveContent_h L sv rq = wordID L rq (\<lambda>i s.
     case wl_save L (take maxSaveBodyBytes (rq_body rq)) (maxSaveBodyBytes < length (rq_body rq)) of
       Inl TooLarge \<Rightarrow> (Reply (json 413 (WB_error ''request body too large (max 4 MiB)'')), s)
     | Inl (BadBody m) \<Rightarrow> (Reply (json 400 (WB_error m)), s)
     | Inr inp \<Rightarrow> word_reply_to (\<lambda>w. json 200 (WB_word w)) (word_Save sv i inp s))"

definition word_Publish_h :: "word_lib \<Rightarrow> 's word_service \<Rightarrow> (word_body, word_err, 's) handler" where
  "word_Publish_h L sv rq = wordID L rq (\<lambda>i s. word_reply_to (\<lambda>w. json 200 (WB_word w)) (word_Publish sv i s))"

text \<open>\<open>parseInt\<close>: the loop over the digits, up to \<open>1 << 30\<close>.\<close>

fun parse_digits :: "int \<Rightarrow> int \<Rightarrow> string \<Rightarrow> int" where
  "parse_digits fallback n [] = n"
| "parse_digits fallback n (r # rs) =
     (if \<not> is_digit r then fallback
      else if n * 10 + int (digit_val r) > 2 ^ 30 then fallback
      else parse_digits fallback (n * 10 + int (digit_val r)) rs)"

definition word_parseInt :: "string \<Rightarrow> int \<Rightarrow> int" where
  "word_parseInt s fallback = (if s = [] then fallback else parse_digits fallback 0 s)"

text \<open>A missing bound is the zero time, which filters nothing.\<close>

definition query_time :: "request \<Rightarrow> string \<Rightarrow> time option" where
  "query_time rq q = (if rq_query rq q = [] then Some zero_time else parse_rfc3339 (rq_query rq q))"

definition bad_bound :: "word_draw \<Rightarrow> request \<Rightarrow> string option" where
  "bad_bound D rq = find (\<lambda>q. query_time rq q = None)
     (if wd_from_first D then [''created_from'', ''created_to''] else [''created_to'', ''created_from''])"

definition list_filter_of :: "request \<Rightarrow> int \<Rightarrow> int \<Rightarrow> list_filter" where
  "list_filter_of rq page pageSize =
     \<lparr>lf_query = rq_query rq ''q'', lf_gloss = rq_query rq ''gloss'', lf_kind = rq_query rq ''kind'',
      lf_pos = rq_query rq ''pos'', lf_level = rq_query rq ''level'', lf_status = rq_query rq ''status'',
      lf_from = (case query_time rq ''created_from'' of None \<Rightarrow> zero_time | Some t \<Rightarrow> t),
      lf_to = (case query_time rq ''created_to'' of None \<Rightarrow> zero_time | Some t \<Rightarrow> t),
      lf_limit = pageSize, lf_offset = offset_of page pageSize\<rparr>"

definition word_List_h :: "'s word_service \<Rightarrow> word_draw \<Rightarrow> (word_body, word_err, 's) handler" where
  "word_List_h sv D rq s =
     (let (page, pageSize) = page_of word_parseInt rq in
      case bad_bound D rq of
        Some q \<Rightarrow> (Reply (json 400 (WB_error (q @ '' must be RFC3339''))), s)
      | None \<Rightarrow> word_reply_to (\<lambda>(items, total). json 200 (WB_page items page pageSize total))
          (word_List sv (list_filter_of rq page pageSize) s))"

definition word_Stats_h :: "'s word_service \<Rightarrow> word_draw \<Rightarrow> (word_body, word_err, 's) handler" where
  "word_Stats_h sv D rq s = word_reply_to (\<lambda>st. json 200 (WB_stats st)) (word_Stats sv (wd_now D) s)"

definition word_Delete_h :: "word_lib \<Rightarrow> 's word_service \<Rightarrow> (word_body, word_err, 's) handler" where
  "word_Delete_h L sv rq = wordID L rq (\<lambda>i s. word_reply_to (\<lambda>_. no_content) (word_Delete sv i s))"

definition word_BatchDelete_h :: "word_lib \<Rightarrow> 's word_service \<Rightarrow> (word_body, word_err, 's) handler" where
  "word_BatchDelete_h L sv rq =
     with_json (wl_ids L) WB_error rq (\<lambda>is s. word_reply_to (\<lambda>n. json 200 (WB_deleted n)) (word_BatchDelete sv is s))"

definition word_RelatedSearch_h :: "'s word_service \<Rightarrow> (word_body, word_err, 's) handler" where
  "word_RelatedSearch_h sv rq s = word_reply_to (\<lambda>rs. json 200 (WB_results rs))
     (word_RelatedSearch sv (rq_query rq ''q'') (rq_query rq ''kind'') (word_parseInt (rq_query rq ''limit'') 20) s)"

text \<open>The handlers under the names the route table has for them.\<close>

definition word_handlers ::
  "word_lib \<Rightarrow> 's word_service \<Rightarrow> word_draw \<Rightarrow> (string \<times> (word_body, word_err, 's) handler) list" where
  "word_handlers L sv D =
     [(''word.Create'', word_Create_h L sv D), (''word.List'', word_List_h sv D), (''word.Stats'', word_Stats_h sv D),
      (''word.BatchDelete'', word_BatchDelete_h L sv), (''word.RelatedSearch'', word_RelatedSearch_h sv),
      (''word.Get'', word_Get_h L sv), (''word.SaveContent'', word_SaveContent_h L sv),
      (''word.Publish'', word_Publish_h L sv), (''word.Delete'', word_Delete_h L sv)]"

subsection \<open>Rejections\<close>

text \<open>The errors a client is told about, as opposed to a 500.\<close>

definition rejection :: "word_err \<Rightarrow> bool" where
  "rejection e \<longleftrightarrow> rp_status (word_respondErr e) < 500"

lemma rejection_wrapped [simp]: "\<not> rejection (wrapped c e)"
  by (simp add: rejection_def word_respondErr_def wrapped_def)

lemma rejection_on_loss [simp]: "\<not> rejection (mapSaveErr c ConnLost)" "\<not> rejection (or_not_found c ConnLost)"
  by (simp_all add: mapSaveErr_def or_not_found_def)

lemma word_reply_rejectedE:
  assumes "word_reply_to f rs = (Reply rp, s')" and "400 \<le> rp_status rp" and "rp_status rp < 500"
    and "\<And>a. rp_status (f a) < 400" and "\<And>e. rs = (Inl e, s') \<Longrightarrow> rejection e \<Longrightarrow> P"
  shows P
proof (cases "fst rs")
  case (Inr a)
  then have "rp = f a" using assms(1) by (cases rs) (simp add: word_reply_to_def)
  with assms(2) assms(4) [of a] show P by simp
qed (use assms(1-3,5) in \<open>cases rs, auto simp: word_reply_to_def rejection_def\<close>)

text \<open>
  A store that rejects cleanly: a method that answers a rejection has changed nothing, and a
  load rejects only an id the store does not have. \<open>dat\<close> is what is stored.
\<close>

locale word_clean_store = word_store_laws st wv clk inv
  for st :: "'s word_store" and wv :: "'s \<Rightarrow> word_view" and clk :: "'s \<Rightarrow> time" and inv :: "'s \<Rightarrow> bool" +
  fixes dat :: "'s \<Rightarrow> 'd"
  assumes getTree_clean: "inv s \<Longrightarrow> wst_getTree st i s = (re, s') \<Longrightarrow>
      dat s' = dat s \<and> (\<forall>e. re = Inl e \<longrightarrow> rejection e \<longrightarrow> wv s i = None)"
    and create_clean: "inv s \<Longrightarrow> wst_create st x s = (Inl e, s') \<Longrightarrow> rejection e \<Longrightarrow> dat s' = dat s"
    and saveTree_clean: "inv s \<Longrightarrow> wst_saveTree st i inp s = (Inl e, s') \<Longrightarrow> rejection e \<Longrightarrow> dat s' = dat s"
    and setStatus_clean: "inv s \<Longrightarrow> wst_setStatus st i stat base s = (Inl e, s') \<Longrightarrow> rejection e \<Longrightarrow> dat s' = dat s"
    and delete_clean: "inv s \<Longrightarrow> wst_delete st i s = (Inl e, s') \<Longrightarrow> rejection e \<Longrightarrow> dat s' = dat s"
    and deleteMany_clean: "inv s \<Longrightarrow> wst_deleteMany st is s = (Inl e, s') \<Longrightarrow> rejection e \<Longrightarrow> dat s' = dat s"
    and list_clean: "inv s \<Longrightarrow> wst_list st f s = (rl, s') \<Longrightarrow> dat s' = dat s"
    and relatedSearch_clean: "inv s \<Longrightarrow> wst_relatedSearch st q k n s = (rs, s') \<Longrightarrow> dat s' = dat s"
    and stats_clean: "inv s \<Longrightarrow> wst_stats st t u s = (rt, s') \<Longrightarrow> dat s' = dat s"
begin

lemma save_rejected:
  assumes "inv s" and "wsv_store sv = st" and "word_Save sv i inp s = (Inl e, s')" and "rejection e"
  shows "dat s' = dat s"
proof -
  obtain rc s1 where c: "save_check sv i inp s = (rc, s1)" by fastforce
  obtain re s1' where g: "wst_getTree st i s = (re, s1')" by fastforce
  note G = getTree_clean [OF assms(1) g] getTree_law [OF assms(1) g]
  have s1: "s1 = s1'" and v: "rc = Inr v \<Longrightarrow> \<exists>x. check_body x inp = Inr v" for v
    using c g assms(2) by (auto simp: save_check_def split: sum.splits)
  show ?thesis
  proof (cases rc)
    case (Inl er)
    with assms(3) c s1 G show ?thesis by (simp add: word_Save_def wbind_def)
  next
    case (Inr v)
    then have k: "save_commit sv i v s1 = (Inl e, s')" using assms(3) c by (simp add: word_Save_def wbind_def)
    have t: "tree_ok v" using v [OF Inr] check_body_Inr(2) by blast
    have i1: "inv s1" using G s1 by simp
    obtain ru s2 where w: "wst_saveTree st i v s1 = (ru, s2)" by fastforce
    show ?thesis
    proof (cases ru)
      case (Inl er)
      then have "er = e" "s' = s2" using k w assms(2) by (simp_all add: save_commit_def)
      with saveTree_clean [OF i1 w [unfolded Inl]] assms(4) G s1 show ?thesis by simp
    next
      case (Inr u)
      from saveTree_law [OF i1 t w] Inr have i2: "inv s2" and some: "wv s2 i \<noteq> None" by (auto simp: saved_view_def)
      obtain rg s3 where h: "wst_getTree st i s2 = (rg, s3)" by fastforce
      have "rg = Inl e" using k w h Inr assms(2) by (auto simp: save_commit_def split: sum.splits if_splits)
      with getTree_clean [OF i2 h] assms(4) some show ?thesis by simp
    qed
  qed
qed

lemma publish_rejected:
  assumes "inv s" and "wsv_store sv = st" and "word_Publish sv i s = (Inl e, s')" and "rejection e"
  shows "dat s' = dat s"
proof -
  obtain rc s1 where c: "publish_check sv i s = (rc, s1)" by fastforce
  obtain re s1' where g: "wst_getTree st i s = (re, s1')" by fastforce
  note G = getTree_clean [OF assms(1) g] getTree_law [OF assms(1) g]
  have s1: "s1 = s1'"
    using c g assms(2) by (auto simp: publish_check_def Let_def split: sum.splits if_splits)
  show ?thesis
  proof (cases rc)
    case (Inl er)
    with assms(3) c s1 G show ?thesis by (simp add: word_Publish_def wbind_def)
  next
    case (Inr x)
    then have k: "publish_commit sv i x s1 = (Inl e, s')" using assms(3) c by (simp add: word_Publish_def wbind_def)
    have i1: "inv s1" using G s1 by simp
    obtain ru s2 where w: "wst_setStatus st i StatusPublished (we_updated_at x) s1 = (ru, s2)" by fastforce
    show ?thesis
    proof (cases ru)
      case (Inl er)
      then have "er = e" "s' = s2" using k w assms(2) by (simp_all add: publish_commit_def)
      with setStatus_clean [OF i1 w [unfolded Inl]] assms(4) G s1 show ?thesis by simp
    next
      case (Inr u)
      from setStatus_law [OF i1 w] Inr have i2: "inv s2" and some: "wv s2 i \<noteq> None" by (auto simp: status_view_def)
      obtain rg s3 where h: "wst_getTree st i s2 = (rg, s3)" by fastforce
      have "rg = Inl e" using k w h Inr assms(2) by (auto simp: publish_commit_def split: sum.splits)
      with getTree_clean [OF i2 h] assms(4) some show ?thesis by simp
    qed
  qed
qed

lemma handler_rejected:
  assumes "inv s" and "wsv_store sv = st" and "(n, h) \<in> set (word_handlers L sv D)"
    and "h rq s = (Reply rp, s')" and "400 \<le> rp_status rp" and "rp_status rp < 500"
  shows "dat s' = dat s"
proof -
  note R = word_reply_rejectedE [OF _ assms(5,6)]
  have shell: "dat s' = dat s" if "word_CreateShell sv nid cb hw k s = (Inl e, s')" "rejection e" for nid cb hw k e
    using that create_clean [OF assms(1)] assms(2) by (auto simp: word_CreateShell_def Let_def split: if_splits)
  have list: "dat s' = dat s" if "word_List sv f s = (Inl e, s')" for f e
    using that list_clean [OF assms(1)] assms(2) by (auto simp: word_List_def split: if_splits)
  have batch: "dat s' = dat s" if "word_BatchDelete sv is s = (Inl e, s')" "rejection e" for "is" e
    using that deleteMany_clean [OF assms(1)] assms(2) by (auto simp: word_BatchDelete_def split: if_splits)
  have rel: "dat s' = dat s" if "word_RelatedSearch sv q k m s = (Inl e, s')" for q k m e
    using that relatedSearch_clean [OF assms(1)] assms(2) by (auto simp: word_RelatedSearch_def Let_def split: if_splits)
  have get: "dat s' = dat s" if "word_Get sv i s = (Inl e, s')" for i e
    using that getTree_clean [OF assms(1)] assms(2) by (auto simp: word_Get_def)
  have del: "dat s' = dat s" if "word_Delete sv i s = (Inl e, s')" "rejection e" for i e
    using that delete_clean [OF assms(1)] assms(2) by (auto simp: word_Delete_def)
  have stats: "dat s' = dat s" if "word_Stats sv t s = (Inl e, s')" for t e
    using that stats_clean [OF assms(1)] assms(2) by (auto simp: word_Stats_def)
  note S = shell list batch rel get del stats save_rejected [OF assms(1,2)] publish_rejected [OF assms(1,2)]
  show ?thesis
    using assms(3,4)
    apply (auto simp: word_handlers_def word_Create_h_def word_List_h_def word_Stats_h_def word_BatchDelete_h_def
        word_RelatedSearch_h_def word_Get_h_def word_SaveContent_h_def word_Publish_h_def word_Delete_h_def
        with_json_def MustGet_def wordID_def split: sum.splits option.splits prod.splits gval.splits save_bind_err.splits)
    by (erule R, simp split: prod.splits, ((erule S; assumption) | erule S))+
qed

end

subsection \<open>The repository rejects cleanly\<close>

lemma wstmt_clean:
  assumes "wstmt on f w = (Inl e, w')" and "\<not> rejection (on ConnLost)" and "rejection e"
  shows "tables w' = tables w"
proof -
  obtain x where p: "pg_stmt f w = (Inl x, w')" and e: "e = on x"
    using assms(1) by (auto simp: wstmt_def split: prod.splits sum.splits)
  with assms(2,3) show ?thesis by (auto simp: pg_stmt_def split: fate.splits sum.splits)
qed

definition never_rejects :: "('w \<Rightarrow> (word_err + 'a) \<times> 'w) \<Rightarrow> bool" where
  "never_rejects m \<longleftrightarrow> (\<forall>w e w'. m w = (Inl e, w') \<longrightarrow> \<not> rejection e)"

named_theorems never_intros

lemma never_wquery [never_intros]: "never_rejects (wquery (wrapped c) f)"
  by (auto simp: never_rejects_def wquery_def split: prod.splits sum.splits)

lemma never_wret [never_intros]: "never_rejects (wret a)"
  by (simp add: never_rejects_def wret_def)

lemma never_wbind [never_intros]: "never_rejects m \<Longrightarrow> (\<And>a. never_rejects (k a)) \<Longrightarrow> never_rejects (wbind m k)"
  by (auto simp: never_rejects_def wbind_def split: prod.splits sum.splits)

lemma never_if [never_intros]: "never_rejects m \<Longrightarrow> never_rejects n \<Longrightarrow> never_rejects (if b then m else n)"
  by simp

lemma wbind_rejects:
  assumes "wbind m k w = (Inl e, w')" and "rejection e" and "\<And>a. never_rejects (k a)"
  shows "m w = (Inl e, w')"
  using assms by (auto simp: wbind_def never_rejects_def split: prod.splits sum.splits)

lemma getTree_rejects:
  assumes "word_getTree i w = (Inl e, w')" and "rejection e"
  shows "entry i (tables w) = None"
proof -
  obtain k where k: "word_getTree i w = wbind (wquery (wrapped ''begin read tx'') (\<lambda>_. Inr ())) (\<lambda>_.
      wbind (wquery (or_not_found ''query word'') (\<lambda>d. case find_word i d of None \<Rightarrow> Inl NoRows | Some r \<Rightarrow> Inr (scan_word r))) k) w"
    and n: "\<And>a. never_rejects (k a)"
    by (rule that, unfold word_getTree_def, rule refl, (rule never_intros)+)
  obtain w1 where b: "wbind (wquery (or_not_found ''query word'') (\<lambda>d. case find_word i d of None \<Rightarrow> Inl NoRows | Some r \<Rightarrow> Inr (scan_word r))) k w1 = (Inl e, w')"
    and t: "tables w1 = tables w"
    using assms unfolding k
    by (auto simp: wbind_def [of "wquery (wrapped _) _"] dest: wquery_tables never_wquery [unfolded never_rejects_def, rule_format]
        split: prod.splits sum.splits)
  from wbind_rejects [OF b assms(2) n] show ?thesis
    using assms(2) t by (auto simp: wquery_def pg_query_def pg_stmt_def entry_def split: prod.splits sum.splits fate.splits option.splits)
qed

lemma delete_missing:
  assumes "word_inv d" and "set is \<inter> word_ids d = {}"
  shows "delete_words is d = d"
proof -
  have ok: "db_ok d" using assms(1) by (simp add: word_inv_def)
  note R = db_okD [OF ok]
  have "below (set is) (w_pos d) = {}" "below (set is) (w_groups d) = {}"
    using R(2,3) assms(2) by (auto simp: below_def rows_ok_def)
  moreover have "kill T {} d U = {}" for T U by (cases T) (simp_all split: tbl.split)
  ultimately have k: "killed_words (set is) d = (\<lambda>_. {})" by (simp add: fun_eq_iff killed_words_def)
  have "filter (\<lambda>r. ww_id r \<notin> set is) (w_words d) = w_words d" using assms(2) by (auto simp: filter_id_conv)
  moreover have "map (on_data (unlink_word (set is))) (w_rels d) = w_rels d"
  proof (rule map_idI)
    fix r assume "r \<in> set (w_rels d)"
    then have "set_option (rc_word (row_data r)) \<subseteq> word_ids d" using R(11) by (auto simp: rows_ok_def rel_check_def)
    then have "forget (set is) (rc_word (row_data r)) = rc_word (row_data r)"
      using assms(2) by (cases "rc_word (row_data r)") (auto simp: forget_def)
    then show "on_data (unlink_word (set is)) r = r" by (simp add: on_data_def unlink_word_def)
  qed
  ultimately show ?thesis by (simp add: delete_words_prune [OF R(1)] k prune_empty)
qed

lemma delete_rejects:
  assumes "word_inv (tables w)" and "word_delete i w = (Inl e, w')" and "rejection e"
  shows "tables w' = tables w"
proof -
  obtain r w1 where st: "wstmt (wrapped ''delete word'') (sql_word_delete [i]) w = (r, w1)" by fastforce
  show ?thesis
  proof (cases r)
    case (Inl x)
    with assms(2) st have "x = e" "w1 = w'" by (auto simp: word_delete_def wbind_def)
    with wstmt_clean [OF st [unfolded Inl]] assms(3) show ?thesis by simp
  next
    case (Inr n)
    then have "n = 0" and w': "w' = w1"
      using assms(2) st by (auto simp: word_delete_def wbind_def wfail_def wret_def split: if_splits)
    with st Inr have d: "sql_word_delete [i] (tables w) = Inr (0, tables w')" by (auto simp: wstmt_Inr)
    then have "i \<notin> word_ids (tables w)" by (auto simp: sql_word_delete_def filter_empty_conv)
    with sql_word_delete_Inr [OF d] delete_missing [OF assms(1), of "[i]"] show ?thesis by simp
  qed
qed

lemma setStatus_rejects:
  assumes "word_inv (tables w)" and "word_setStatus i stat base w = (Inl e, w')" and "rejection e"
  shows "tables w' = tables w"
proof -
  let ?f = "sql_word_update (\<lambda>r. ww_id r = i \<and> ww_updated_at r = base) (\<lambda>r. r\<lparr>ww_status := stat, ww_updated_at := pg_now w\<rparr>)"
  obtain r w1 where st: "wstmt (wrapped ''set status'') ?f w = (r, w1)" by fastforce
  show ?thesis
  proof (cases r)
    case (Inl x)
    with assms(2) st have "x = e" "w1 = w'" by (auto simp: word_setStatus_def wbind_def)
    with wstmt_clean [OF st [unfolded Inl]] assms(3) show ?thesis by simp
  next
    case (Inr n)
    then have q: "wbind (wquery (wrapped ''set status'') (\<lambda>d. Inr (i \<in> word_ids d)))
          (\<lambda>ex. wfail (if ex then ErrStale else word_ErrNotFound)) w1 = (Inl e :: word_err + unit, w')" and "n = 0"
      using assms(2) st by (auto simp: word_setStatus_def wbind_def [of "wstmt _ _"] wret_def split: if_splits)
    from q have "tables w' = tables w1"
      by (auto simp: wbind_def wfail_def split: prod.splits sum.splits dest: wquery_tables)
    moreover from st Inr \<open>n = 0\<close> have "?f (tables w) = Inr (0, tables w1)" by (auto simp: wstmt_Inr)
    then have "tables w1 = tables w" using status_entry(1) assms(1) by (simp add: word_inv_def)
    ultimately show ?thesis by simp
  qed
qed

lemma create_rejects:
  assumes "word_create L x w = (Inl e, w')" and "rejection e"
  shows "tables w' = tables w"
proof -
  let ?on = "\<lambda>er. if is_unique_violation er then ErrHeadwordTaken else wrapped ''insert word'' er"
  have "wstmt ?on (sql_word_insert L x (pg_now w)) w = (Inl e, w')"
    using assms(1) by (auto simp: word_create_def wbind_def wret_def split: prod.splits sum.splits)
  from wstmt_clean [OF this _ assms(2)] show ?thesis by simp
qed

lemma saveTree_rejects:
  assumes "word_saveTree i inp w = (Inl e, w')" and "rejection e"
  shows "tables w' = tables w"
  using pg_tx_Inl_tables [OF assms(1) [unfolded word_saveTree_def]] assms(2) by auto

text \<open>Reading methods.\<close>

definition only_reads :: "((word_db, 'z) pgs_scheme \<Rightarrow> (word_err + 'a) \<times> (word_db, 'z) pgs_scheme) \<Rightarrow> bool" where
  "only_reads m \<longleftrightarrow> (\<forall>w r w'. m w = (r, w') \<longrightarrow> tables w' = tables w)"

lemma only_reads_wquery [never_intros]: "only_reads (wquery on f)"
  by (auto simp: only_reads_def dest: wquery_tables)

lemma only_reads_wret [never_intros]: "only_reads (wret a)"
  by (simp add: only_reads_def wret_def)

lemma only_reads_wbind [never_intros]: "only_reads m \<Longrightarrow> (\<And>a. only_reads (k a)) \<Longrightarrow> only_reads (wbind m k)"
  by (fastforce simp: only_reads_def wbind_def split: prod.splits sum.splits)

lemma only_reads_if [never_intros]: "only_reads m \<Longrightarrow> only_reads n \<Longrightarrow> only_reads (if b then m else n)"
  by simp

lemma reading_methods:
  "only_reads (word_list L f)" "only_reads (word_relatedSearch L q k n)" "only_reads (word_stats_query t u)"
  unfolding word_list_def word_relatedSearch_def word_stats_query_def by (rule never_intros)+

interpretation clean_words: word_clean_store "word_repo L" "\<lambda>w i. entry i (tables w)" pg_now "\<lambda>w. word_inv (tables w)" tables
proof
  fix s s' :: "(word_db, 'a) pgs_scheme" and i r assume "word_inv (tables s)" "wst_getTree (word_repo L) i s = (r, s')"
  then show "tables s' = tables s \<and> (\<forall>e. r = Inl e \<longrightarrow> rejection e \<longrightarrow> entry i (tables s) = None)"
    using getTree_tables [of i s r s'] getTree_rejects [of i s _ s'] by (auto simp: word_repo_def)
qed (simp_all only: word_repo_def word_store.select_convs word_deleteMany_def,
    (erule (1) create_rejects | erule (1) saveTree_rejects | erule (2) setStatus_rejects | erule (2) delete_rejects |
      (erule wstmt_clean, simp, assumption) | erule reading_methods [unfolded only_reads_def, rule_format])+)

end
