(* ===== verification/UserHandler.thy ===== *)
theory UserHandler
  imports Handler UserService
begin

text \<open>
  The web account handlers (\<open>internal/user/handler.go\<close>): binding, the call of the service, and
  the statuses of its errors. The refresh token travels in a cookie and in no body.
\<close>

subsection \<open>Bodies\<close>

text \<open>What the JSON of a user shows: not the password hash, not the last active role.\<close>

record user_json =
  uj_id :: uuid
  uj_phone :: string
  uj_email :: string
  uj_name :: string
  uj_avatar :: string
  uj_status :: string
  uj_roles :: "string list"
  uj_created :: time
  uj_updated :: time

definition user_json_of :: "user \<Rightarrow> user_json" where
  "user_json_of u = \<lparr>uj_id = us_id u, uj_phone = us_phone u, uj_email = us_email u, uj_name = us_name u,
     uj_avatar = us_avatar u, uj_status = us_status u, uj_roles = us_roles u, uj_created = us_created u,
     uj_updated = us_updated u\<rparr>"

record auth_response =
  ar_user :: user_json
  ar_access :: string
  ar_active_role :: string
  ar_expires_in :: int
  ar_refresh_expires :: int

datatype user_body =
    UB_error string
  | UB_auth auth_response
  | UB_tokens string int int
  | UB_role string string
  | UB_done string
  | UB_me user_json "gval option" "learning_settings option" bool
  | UB_settings learning_settings bool
  | UB_user user_json

type_synonym user_reply = "(user_body, goerr) reply"
type_synonym 's user_handler_fn = "(user_body, goerr, 's) handler"

text \<open>The JSON bindings of the request types, each to the fields in their order.\<close>

record user_bind =
  ub_register :: "string \<Rightarrow> string + string \<times> string \<times> string \<times> string \<times> string"
  ub_login :: "string \<Rightarrow> string + string \<times> string"
  ub_sendCode :: "string \<Rightarrow> string + string"
  ub_loginCode :: "string \<Rightarrow> string + string \<times> string"
  ub_forgot :: "string \<Rightarrow> string + string"
  ub_reset :: "string \<Rightarrow> string + string \<times> string \<times> string"
  ub_deletionCode :: "string \<Rightarrow> string + string"
  ub_deleteAccount :: "string \<Rightarrow> string + string \<times> string"
  ub_role :: "string \<Rightarrow> string + string"
  ub_settings :: "string \<Rightarrow> string + string \<times> string"
  ub_profile :: "string \<Rightarrow> string + string"
  ub_bindCode :: "string \<Rightarrow> string + string"
  ub_bind :: "string \<Rightarrow> string + string \<times> string"

record 's user_handler =
  uh_svc :: "'s user_service"
  uh_cookie :: cookie_config
  uh_accessTTL :: time
  uh_refreshTTL :: time
  uh_bind :: user_bind

text \<open>The draws of a request; \<open>ud_resp\<close> is the handler's own \<open>time.Now()\<close>.\<close>

record user_draw =
  ud_id :: uuid
  ud_salt :: nat
  ud_issue :: issue_draw
  ud_otp :: otp_draw
  ud_now :: time
  ud_resp :: time

definition newAuthResponse :: "'s user_handler \<Rightarrow> user_draw \<Rightarrow> user \<Rightarrow> string \<Rightarrow> string \<Rightarrow> auth_response" where
  "newAuthResponse h D u accessToken role =
     \<lparr>ar_user = user_json_of u, ar_access = accessToken, ar_active_role = role,
      ar_expires_in = seconds (uh_accessTTL h), ar_refresh_expires = unix (ud_resp D + uh_refreshTTL h)\<rparr>"

abbreviation (input) user_cookie_name :: string where "user_cookie_name \<equiv> ''refresh_token''"
abbreviation (input) user_cookie_path :: string where "user_cookie_path \<equiv> ''/api/v1/auth''"

definition user_setCookie :: "'s user_handler \<Rightarrow> string \<Rightarrow> user_reply \<Rightarrow> user_reply" where
  "user_setCookie h token = setRefreshCookie user_cookie_name user_cookie_path (uh_cookie h) token"

definition user_clearCookie :: "'s user_handler \<Rightarrow> user_reply \<Rightarrow> user_reply" where
  "user_clearCookie h = clearRefreshCookie user_cookie_name user_cookie_path (uh_cookie h)"

text \<open>\<open>MustGet\<close> of the id the gate leaves; the end of a call that requests a code, which may use up
  its draws.\<close>

definition with_user :: "request \<Rightarrow> (uuid \<Rightarrow> 's \<Rightarrow> (user_body, goerr) answer \<times> 's) \<Rightarrow> 's
    \<Rightarrow> (user_body, goerr) answer \<times> 's" where
  "with_user rq k s = MustGet ''auth.userID'' rq k s"

definition user_reply_to :: "(goerr \<times> nat \<times> string) list \<Rightarrow> ('a \<Rightarrow> user_reply) \<Rightarrow> (goerr + 'a) \<times> 's
    \<Rightarrow> (user_body, goerr) answer \<times> 's" where
  "user_reply_to = reply_to UB_error"

definition user_json_body :: "(string \<Rightarrow> string + 'v) \<Rightarrow> request \<Rightarrow> ('v \<Rightarrow> 's \<Rightarrow> (user_body, goerr) answer \<times> 's) \<Rightarrow> 's
    \<Rightarrow> (user_body, goerr) answer \<times> 's" where
  "user_json_body decode rq k s = with_json decode UB_error rq k s"

text \<open>A call that draws a code: \<open>None\<close> when the draws run out.\<close>

definition sent_code :: "(goerr \<times> nat \<times> string) list \<Rightarrow> ((goerr + unit) \<times> 's) option
    \<Rightarrow> ((user_body, goerr) answer \<times> 's) option" where
  "sent_code rules out = map_option (user_reply_to rules (\<lambda>_. json 200 (UB_done ''sent''))) out"

definition code_body :: "(string \<Rightarrow> string + 'v) \<Rightarrow> request \<Rightarrow> ('v \<Rightarrow> 's \<Rightarrow> ((user_body, goerr) answer \<times> 's) option) \<Rightarrow> 's
    \<Rightarrow> ((user_body, goerr) answer \<times> 's) option" where
  "code_body decode rq k s =
     (case decode (rq_body rq) of Inl m \<Rightarrow> Some (Reply (json 400 (UB_error m)), s) | Inr v \<Rightarrow> k v s)"

definition code_user :: "request \<Rightarrow> (uuid \<Rightarrow> 's \<Rightarrow> ((user_body, goerr) answer \<times> 's) option) \<Rightarrow> 's
    \<Rightarrow> ((user_body, goerr) answer \<times> 's) option" where
  "code_user rq k s = (case rq_keys rq ''auth.userID'' of Some (GUuid i) \<Rightarrow> k i s | _ \<Rightarrow> Some (Panics, s))"

abbreviation (input) too_many :: "goerr \<times> nat \<times> string" where
  "too_many \<equiv> (ErrRateLimited, 429, ''too many code requests, try again later'')"
abbreviation (input) disabled_403 :: "goerr \<times> nat \<times> string" where
  "disabled_403 \<equiv> (user_ErrAccountDisabled, 403, ''account disabled'')"
abbreviation (input) credentials_401 :: "goerr \<times> nat \<times> string" where
  "credentials_401 \<equiv> (user_ErrInvalidCredentials, 401, ''invalid credentials'')"
abbreviation (input) phone_409 :: "goerr \<times> nat \<times> string" where
  "phone_409 \<equiv> (user_ErrPhoneTaken, 409, ''phone already registered'')"
abbreviation (input) email_409 :: "goerr \<times> nat \<times> string" where
  "email_409 \<equiv> (user_ErrEmailTaken, 409, ''email already registered'')"
abbreviation (input) user_404 :: "goerr \<times> nat \<times> string" where
  "user_404 \<equiv> (user_ErrNotFound, 404, ''user not found'')"
abbreviation (input) channel_400 :: "goerr \<times> nat \<times> string" where
  "channel_400 \<equiv> (ErrChannelUnavailable, 400, ''verification channel unavailable for this account'')"
abbreviation (input) contact_400 :: "goerr \<times> nat \<times> string" where
  "contact_400 \<equiv> (ErrInvalidContact, 400, ''invalid contact'')"

subsection \<open>Registration and login\<close>

definition user_Register_h :: "'s user_handler \<Rightarrow> user_draw \<Rightarrow> 's user_handler_fn" where
  "user_Register_h h D rq = user_json_body (ub_register (uh_bind h)) rq (\<lambda>(phone, email, password, displayName, role) s.
     user_reply_to [(ErrMissingIdentifier, 400, ''phone or email is required''), phone_409, email_409]
       (\<lambda>(u, access, refresh). user_setCookie h refresh (json 201 (UB_auth (newAuthResponse h D u access role))))
       (Register (uh_svc h) (ud_id D) (ud_salt D) (ud_issue D) phone email password displayName role s))"

definition user_Login_h :: "'s user_handler \<Rightarrow> user_draw \<Rightarrow> 's user_handler_fn" where
  "user_Login_h h D rq = user_json_body (ub_login (uh_bind h)) rq (\<lambda>(identifier, password) s.
     user_reply_to [credentials_401, disabled_403]
       (\<lambda>(u, access, refresh). user_setCookie h refresh (json 200 (UB_auth (newAuthResponse h D u access (activeRole u)))))
       (LoginPassword (uh_svc h) (ud_issue D) identifier password s))"

definition user_SendCode_h :: "'s user_handler \<Rightarrow> user_draw \<Rightarrow> request \<Rightarrow> 's \<Rightarrow> ((user_body, goerr) answer \<times> 's) option" where
  "user_SendCode_h h D rq = code_body (ub_sendCode (uh_bind h)) rq (\<lambda>identifier s.
     sent_code [too_many] (RequestLoginCode (uh_svc h) (ud_otp D) identifier s))"

definition user_LoginCode_h :: "'s user_handler \<Rightarrow> user_draw \<Rightarrow> 's user_handler_fn" where
  "user_LoginCode_h h D rq = user_json_body (ub_loginCode (uh_bind h)) rq (\<lambda>(identifier, code) s.
     user_reply_to [credentials_401, disabled_403]
       (\<lambda>(u, access, refresh). user_setCookie h refresh (json 200 (UB_auth (newAuthResponse h D u access (activeRole u)))))
       (LoginCode (uh_svc h) (ud_now D) (ud_issue D) identifier code s))"

subsection \<open>Forgotten passwords\<close>

definition user_ForgotPassword_h ::
  "'s user_handler \<Rightarrow> user_draw \<Rightarrow> request \<Rightarrow> 's \<Rightarrow> ((user_body, goerr) answer \<times> 's) option" where
  "user_ForgotPassword_h h D rq = code_body (ub_forgot (uh_bind h)) rq (\<lambda>identifier s.
     sent_code [too_many] (RequestPasswordReset (uh_svc h) (ud_otp D) identifier s))"

definition user_ResetPassword_h :: "'s user_handler \<Rightarrow> user_draw \<Rightarrow> 's user_handler_fn" where
  "user_ResetPassword_h h D rq = user_json_body (ub_reset (uh_bind h)) rq (\<lambda>(identifier, code, newPassword) s.
     user_reply_to [(ErrInvalidResetCode, 400, ''invalid or expired reset code''), disabled_403]
       (\<lambda>_. json 200 (UB_done ''reset''))
       (ResetPassword (uh_svc h) (ud_now D) (ud_salt D) identifier code newPassword s))"

subsection \<open>Account deletion\<close>

definition user_RequestAccountDeletion_h ::
  "'s user_handler \<Rightarrow> user_draw \<Rightarrow> request \<Rightarrow> 's \<Rightarrow> ((user_body, goerr) answer \<times> 's) option" where
  "user_RequestAccountDeletion_h h D rq = code_user rq (\<lambda>userID. code_body (ub_deletionCode (uh_bind h)) rq (\<lambda>channel s.
     sent_code [channel_400, user_404, too_many] (RequestAccountDeletion (uh_svc h) (ud_otp D) userID channel s)))"

definition user_DeleteAccount_h :: "'s user_handler \<Rightarrow> user_draw \<Rightarrow> 's user_handler_fn" where
  "user_DeleteAccount_h h D rq = with_user rq (\<lambda>userID. user_json_body (ub_deleteAccount (uh_bind h)) rq (\<lambda>(channel, code) s.
     user_reply_to [channel_400, (ErrInvalidDeletionCode, 400, ''invalid or expired deletion code''), user_404]
       (\<lambda>_. no_content) (DeleteAccount (uh_svc h) (ud_now D) userID channel code s)))"

subsection \<open>Sessions\<close>

definition user_Refresh_h :: "'s user_handler \<Rightarrow> user_draw \<Rightarrow> 's user_handler_fn" where
  "user_Refresh_h h D rq s =
     (case rq_cookie rq user_cookie_name of
        None \<Rightarrow> (Reply (json 401 (UB_error ''missing refresh token'')), s)
      | Some token \<Rightarrow>
          if token = [] then (Reply (json 401 (UB_error ''missing refresh token'')), s)
          else case Refresh (uh_svc h) (ud_issue D) token s of
            (Inl e, s1) \<Rightarrow>
              (Reply (if errors_is e ErrInvalidRefreshToken
                      then user_clearCookie h (json 401 (UB_error ''invalid refresh token''))
                      else internalError UB_error e), s1)
          | (Inr (access, refresh), s1) \<Rightarrow>
              (Reply (user_setCookie h refresh (json 200
                 (UB_tokens access (seconds (uh_accessTTL h)) (unix (ud_resp D + uh_refreshTTL h))))), s1))"

text \<open>A missing cookie reads as the empty token.\<close>

definition user_Logout_h :: "'s user_handler \<Rightarrow> 's user_handler_fn" where
  "user_Logout_h h rq s =
     (let token = opt_string (rq_cookie rq user_cookie_name) in
      if token = [] then (Reply (user_clearCookie h no_content), s)
      else user_reply_to [] (\<lambda>_. user_clearCookie h no_content) (Logout (uh_svc h) token s))"

definition user_LogoutAll_h :: "'s user_handler \<Rightarrow> 's user_handler_fn" where
  "user_LogoutAll_h h rq = with_user rq (\<lambda>userID s.
     user_reply_to [] (\<lambda>_. no_content) (LogoutAll (uh_svc h) userID s))"

subsection \<open>Roles\<close>

definition user_SwitchRole_h :: "'s user_handler \<Rightarrow> user_draw \<Rightarrow> 's user_handler_fn" where
  "user_SwitchRole_h h D rq = with_user rq (\<lambda>userID. user_json_body (ub_role (uh_bind h)) rq (\<lambda>role s.
     user_reply_to [(ErrRoleNotOwned, 403, ''user does not have this role'')] (\<lambda>token. json 200 (UB_role token role))
       (SwitchRole (uh_svc h) (ud_now D) userID role s)))"

definition user_AddRole_h :: "'s user_handler \<Rightarrow> user_draw \<Rightarrow> 's user_handler_fn" where
  "user_AddRole_h h D rq = with_user rq (\<lambda>userID. user_json_body (ub_role (uh_bind h)) rq (\<lambda>role s.
     user_reply_to [(ErrRoleTaken, 409, ''user already has this role'')] (\<lambda>token. json 201 (UB_role token role))
       (AddRole (uh_svc h) (ud_now D) userID role s)))"

subsection \<open>The profile\<close>

definition user_Me_h :: "'s user_handler \<Rightarrow> 's user_handler_fn" where
  "user_Me_h h rq = with_user rq (\<lambda>userID s.
     case user_GetByID (uh_svc h) userID s of
       (Inl e, s1) \<Rightarrow> (Reply (reject UB_error [user_404] e), s1)
     | (Inr u, s1) \<Rightarrow>
         user_reply_to [] (\<lambda>settings. json 200 (UB_me (user_json_of u) (rq_keys rq ''auth.role'') settings (settings \<noteq> None)))
           (GetLearningSettings (uh_svc h) userID s1))"

definition user_UpdateLearningSettings_h :: "'s user_handler \<Rightarrow> 's user_handler_fn" where
  "user_UpdateLearningSettings_h h rq = with_user rq (\<lambda>userID. user_json_body (ub_settings (uh_bind h)) rq (\<lambda>(level, variant) s.
     user_reply_to [(ErrNoStudentProfile, 409, ''learning settings require a student profile''),
         (ErrInvalidLearningSettings, 400, ''invalid learning settings'')]
       (\<lambda>settings. json 200 (UB_settings settings True)) (SetLearningSettings (uh_svc h) userID level variant s)))"

definition user_UpdateProfile_h :: "'s user_handler \<Rightarrow> 's user_handler_fn" where
  "user_UpdateProfile_h h rq = with_user rq (\<lambda>userID. user_json_body (ub_profile (uh_bind h)) rq (\<lambda>displayName s.
     user_reply_to [(ErrInvalidDisplayName, 400, ''display name cannot be blank''), user_404]
       (\<lambda>u. json 200 (UB_user (user_json_of u))) (UpdateDisplayName (uh_svc h) userID displayName s)))"

definition user_RequestContactBindCode_h ::
  "'s user_handler \<Rightarrow> user_draw \<Rightarrow> request \<Rightarrow> 's \<Rightarrow> ((user_body, goerr) answer \<times> 's) option" where
  "user_RequestContactBindCode_h h D rq = code_user rq (\<lambda>userID. code_body (ub_bindCode (uh_bind h)) rq (\<lambda>contact s.
     sent_code [contact_400, email_409, phone_409, too_many]
       (RequestContactBindCode (uh_svc h) (ud_otp D) userID contact s)))"

definition user_BindContact_h :: "'s user_handler \<Rightarrow> user_draw \<Rightarrow> 's user_handler_fn" where
  "user_BindContact_h h D rq = with_user rq (\<lambda>userID. user_json_body (ub_bind (uh_bind h)) rq (\<lambda>(contact, code) s.
     user_reply_to [contact_400, (ErrInvalidBindCode, 400, ''invalid or expired verification code''), email_409, phone_409,
         user_404]
       (\<lambda>u. json 200 (UB_user (user_json_of u))) (BindContact (uh_svc h) (ud_now D) userID contact code s)))"

text \<open>The handlers under the names the route table has for them.\<close>

definition user_handlers :: "'s user_handler \<Rightarrow> user_draw \<Rightarrow>
    (string \<times> (request \<Rightarrow> 's \<Rightarrow> ((user_body, goerr) answer \<times> 's) option)) list" where
  "user_handlers h D =
     map (\<lambda>(n, f). (n, \<lambda>rq s. Some (f rq s)))
       [(''user.Register'', user_Register_h h D), (''user.Login'', user_Login_h h D),
        (''user.LoginCode'', user_LoginCode_h h D), (''user.Refresh'', user_Refresh_h h D),
        (''user.Logout'', user_Logout_h h), (''user.ResetPassword'', user_ResetPassword_h h D),
        (''user.Me'', user_Me_h h), (''user.UpdateProfile'', user_UpdateProfile_h h),
        (''user.BindContact'', user_BindContact_h h D),
        (''user.UpdateLearningSettings'', user_UpdateLearningSettings_h h),
        (''user.LogoutAll'', user_LogoutAll_h h), (''user.SwitchRole'', user_SwitchRole_h h D),
        (''user.AddRole'', user_AddRole_h h D), (''user.DeleteAccount'', user_DeleteAccount_h h D)] @
     [(''user.SendCode'', user_SendCode_h h D), (''user.ForgotPassword'', user_ForgotPassword_h h D),
      (''user.RequestContactBindCode'', user_RequestContactBindCode_h h D),
      (''user.RequestAccountDeletion'', user_RequestAccountDeletion_h h D)]"

end
