(* ===== verification/AdminHandler.thy ===== *)
theory AdminHandler
  imports Handler AdminService
begin

text \<open>
  The back-office handlers (\<open>internal/admin/handler.go\<close>): login and sessions over a cookie of
  their own, the profile, and account management. They ask for the page of a listing in
  numbers \<open>strconv.Atoi\<close> reads.
\<close>

subsection \<open>Bodies\<close>

record admin_json =
  aj_id :: uuid
  aj_phone :: string
  aj_email :: string
  aj_name :: string
  aj_level :: string
  aj_status :: string
  aj_created :: time
  aj_updated :: time

definition admin_json_of :: "admin \<Rightarrow> admin_json" where
  "admin_json_of a = \<lparr>aj_id = ad_id a, aj_phone = ad_phone a, aj_email = ad_email a, aj_name = ad_name a,
     aj_level = ad_level a, aj_status = ad_status a, aj_created = ad_created a, aj_updated = ad_updated a\<rparr>"

record admin_auth_response =
  aar_admin :: admin_json
  aar_access :: string
  aar_level :: string
  aar_expires_in :: int
  aar_refresh_expires :: int

record profile_response =
  pf_id :: uuid
  pf_phone :: string
  pf_name :: string
  pf_level :: string

datatype admin_body =
    AB_error string
  | AB_auth admin_auth_response
  | AB_tokens string int int
  | AB_profile profile_response
  | AB_admin admin_json
  | AB_page "admin_json list" int int nat

type_synonym admin_reply = "(admin_body, goerr) reply"
type_synonym 's admin_handler_fn = "(admin_body, goerr, 's) handler"

record admin_bind =
  ab_login :: "string \<Rightarrow> string + string \<times> string"
  ab_create :: "string \<Rightarrow> string + string \<times> string \<times> string \<times> string \<times> string"
  ab_status :: "string \<Rightarrow> string + string"
  ab_uuid :: "string \<Rightarrow> uuid option"

record 's admin_handler =
  ah_svc :: "'s admin_service"
  ah_cookie :: cookie_config
  ah_accessTTL :: time
  ah_refreshTTL :: time
  ah_bind :: admin_bind

record admin_draw =
  adw_id :: uuid
  adw_salt :: nat
  adw_issue :: issue_draw
  adw_resp :: time

definition admin_newAuthResponse :: "'s admin_handler \<Rightarrow> admin_draw \<Rightarrow> admin \<Rightarrow> string \<Rightarrow> admin_auth_response" where
  "admin_newAuthResponse h D a accessToken =
     \<lparr>aar_admin = admin_json_of a, aar_access = accessToken, aar_level = ad_level a,
      aar_expires_in = seconds (ah_accessTTL h), aar_refresh_expires = unix (adw_resp D + ah_refreshTTL h)\<rparr>"

abbreviation (input) admin_cookie_name :: string where "admin_cookie_name \<equiv> ''admin_refresh_token''"
abbreviation (input) admin_cookie_path :: string where "admin_cookie_path \<equiv> ''/api/v1/admin''"

definition admin_setCookie :: "'s admin_handler \<Rightarrow> string \<Rightarrow> admin_reply \<Rightarrow> admin_reply" where
  "admin_setCookie h token = setRefreshCookie admin_cookie_name admin_cookie_path (ah_cookie h) token"

definition admin_clearCookie :: "'s admin_handler \<Rightarrow> admin_reply \<Rightarrow> admin_reply" where
  "admin_clearCookie h = clearRefreshCookie admin_cookie_name admin_cookie_path (ah_cookie h)"

subsection \<open>Sessions\<close>

definition admin_Login_h :: "'s admin_handler \<Rightarrow> admin_draw \<Rightarrow> 's admin_handler_fn" where
  "admin_Login_h h D rq = with_json (ab_login (ah_bind h)) AB_error rq (\<lambda>(identifier, password) s.
     reply_to AB_error
       [(admin_ErrInvalidCredentials, 401, ''invalid credentials''), (admin_ErrAccountDisabled, 403, ''account disabled'')]
       (\<lambda>(a, access, refresh). admin_setCookie h refresh (json 200 (AB_auth (admin_newAuthResponse h D a access))))
       (admin_Login (ah_svc h) (adw_issue D) identifier password s))"

definition admin_Refresh_h :: "'s admin_handler \<Rightarrow> admin_draw \<Rightarrow> 's admin_handler_fn" where
  "admin_Refresh_h h D rq s =
     (case rq_cookie rq admin_cookie_name of
        None \<Rightarrow> (Reply (json 401 (AB_error ''missing refresh token'')), s)
      | Some token \<Rightarrow>
          if token = [] then (Reply (json 401 (AB_error ''missing refresh token'')), s)
          else case admin_Refresh (ah_svc h) (adw_issue D) token s of
            (Inl e, s1) \<Rightarrow>
              (Reply (if errors_is e ErrInvalidRefreshToken
                      then admin_clearCookie h (json 401 (AB_error ''invalid refresh token''))
                      else internalError AB_error e), s1)
          | (Inr (access, refresh), s1) \<Rightarrow>
              (Reply (admin_setCookie h refresh (json 200
                 (AB_tokens access (seconds (ah_accessTTL h)) (unix (adw_resp D + ah_refreshTTL h))))), s1))"

definition admin_Logout_h :: "'s admin_handler \<Rightarrow> 's admin_handler_fn" where
  "admin_Logout_h h rq s =
     (let token = opt_string (rq_cookie rq admin_cookie_name) in
      if token = [] then (Reply (admin_clearCookie h no_content), s)
      else reply_to AB_error [] (\<lambda>_. admin_clearCookie h no_content) (admin_Logout (ah_svc h) token s))"

definition admin_LogoutAll_h :: "'s admin_handler \<Rightarrow> 's admin_handler_fn" where
  "admin_LogoutAll_h h rq = MustGet ''auth.adminID'' rq (\<lambda>adminID s.
     reply_to AB_error [] (\<lambda>_. no_content) (admin_LogoutAll (ah_svc h) adminID s))"

definition admin_Profile_h :: "'s admin_handler \<Rightarrow> 's admin_handler_fn" where
  "admin_Profile_h h rq = MustGet ''auth.adminID'' rq (\<lambda>adminID s.
     reply_to AB_error [(admin_ErrNotFound, 404, ''admin not found'')]
       (\<lambda>a. json 200 (AB_profile \<lparr>pf_id = ad_id a, pf_phone = ad_phone a, pf_name = ad_name a, pf_level = ad_level a\<rparr>))
       (admin_GetByID (ah_svc h) adminID s))"

subsection \<open>Accounts\<close>

definition admin_CreateAdmin_h :: "'s admin_handler \<Rightarrow> admin_draw \<Rightarrow> 's admin_handler_fn" where
  "admin_CreateAdmin_h h D rq =
     with_json (ab_create (ah_bind h)) AB_error rq (\<lambda>(phone, email, password, displayName, level) s.
       reply_to AB_error [(admin_ErrPhoneTaken, 409, ''phone already registered''),
           (admin_ErrEmailTaken, 409, ''email already registered''), (admin_ErrInvalidLevel, 400, ''invalid level'')]
         (\<lambda>a. json 201 (AB_admin (admin_json_of a)))
         (admin_Create (ah_svc h) (adw_id D) (adw_salt D) phone email password displayName level s))"

definition admin_parseInt :: "string \<Rightarrow> int \<Rightarrow> int" where
  "admin_parseInt s fallback = (case Atoi s of None \<Rightarrow> fallback | Some n \<Rightarrow> n)"

definition admin_filter_of :: "request \<Rightarrow> int \<Rightarrow> int \<Rightarrow> admin_filter" where
  "admin_filter_of rq page pageSize =
     \<lparr>af_level = rq_query rq ''level'', af_query = rq_query rq ''q'', af_limit = word_of_int pageSize,
      af_offset = (word_of_int page - 1) * word_of_int pageSize\<rparr>"

definition admin_ListAdmins_h :: "'s admin_handler \<Rightarrow> 's admin_handler_fn" where
  "admin_ListAdmins_h h rq s =
     (let (page, pageSize) = page_of admin_parseInt rq in
      reply_to AB_error [] (\<lambda>(admins, total). json 200 (AB_page (map admin_json_of admins) page pageSize total))
        (admin_List (ah_svc h) (admin_filter_of rq page pageSize) s))"

definition admin_SetAdminStatus_h :: "'s admin_handler \<Rightarrow> 's admin_handler_fn" where
  "admin_SetAdminStatus_h h rq s =
     (case ab_uuid (ah_bind h) (rq_param rq ''adminId'') of
        None \<Rightarrow> (Reply (json 400 (AB_error ''invalid admin id'')), s)
      | Some i \<Rightarrow> with_json (ab_status (ah_bind h)) AB_error rq (\<lambda>status s.
          case admin_SetStatus (ah_svc h) i status s of
            (Inl e, s1) \<Rightarrow>
              (Reply (reject AB_error [(admin_ErrNotFound, 404, ''admin not found''),
                 (ErrLastSuperAdmin, 409, ''cannot disable the last active super admin'')] e), s1)
          | (Inr _, s1) \<Rightarrow>
              reply_to AB_error [] (\<lambda>a. json 200 (AB_admin (admin_json_of a))) (admin_GetByID (ah_svc h) i s1)) s)"

text \<open>The handlers under the names the route table has for them.\<close>

definition admin_handlers :: "'s admin_handler \<Rightarrow> admin_draw \<Rightarrow> (string \<times> 's admin_handler_fn) list" where
  "admin_handlers h D =
     [(''admin.Login'', admin_Login_h h D), (''admin.Refresh'', admin_Refresh_h h D), (''admin.Logout'', admin_Logout_h h),
      (''admin.LogoutAll'', admin_LogoutAll_h h), (''admin.Profile'', admin_Profile_h h),
      (''admin.CreateAdmin'', admin_CreateAdmin_h h D), (''admin.ListAdmins'', admin_ListAdmins_h h),
      (''admin.SetAdminStatus'', admin_SetAdminStatus_h h)]"

end
