(* ===== verification/WordLock.thy ===== *)
theory WordLock
  imports WordSys
begin

text \<open>
  The optimistic lock: along a run an entry keeps its token as long as it keeps its content, up
  to lost links, and a token that was replaced never comes back.
\<close>

text \<open>An entry that is there after a while was written since \<open>l\<close>, or only lost links.\<close>

definition aged :: "time \<Rightarrow> word_view \<Rightarrow> word_view \<Rightarrow> bool" where
  "aged l V V' \<longleftrightarrow> (\<forall>i e'. V' i = Some e' \<longrightarrow>
     l < we_updated_at e' \<or> (\<exists>e. V i = Some e \<and> loses_links\<^sup>*\<^sup>* e e'))"

lemma aged_refl [simp]: "aged l V V"
  by (auto simp: aged_def)

lemma loses_links_token: "loses_links\<^sup>*\<^sup>* e e' \<Longrightarrow> we_updated_at e' = we_updated_at e \<and> we_status e' = we_status e"
  by (induction rule: rtranclp_induct) (auto simp: loses_links_sel)

lemma aged_touched:
  assumes "aged l V V'" and "touched now V' V''" and "l < now"
  shows "aged l V V''"
  unfolding aged_def
proof (intro allI impI)
  fix i e'' assume "V'' i = Some e''"
  with assms(2) consider "we_updated_at e'' = now" | e' where "V' i = Some e'" "loses_links e' e''" by (auto simp: touched_def)
  then show "l < we_updated_at e'' \<or> (\<exists>e. V i = Some e \<and> loses_links\<^sup>*\<^sup>* e e'')"
  proof cases
    case (2 e')
    from assms(1) 2(1) consider "l < we_updated_at e'" | e where "V i = Some e" "loses_links\<^sup>*\<^sup>* e e'" by (auto simp: aged_def)
    then show ?thesis using 2(2) loses_links_sel(1) [OF 2(2)] by (metis rtranclp.rtrancl_into_rtrancl)
  qed (use assms(3) in simp)
qed

context word_world
begin

text \<open>A step either leaves the map or writes it at a later instant.\<close>

lemma step_touched:
  assumes "wstep sv clk env (s, l, ts) (s', l', ts')" and "sys_ok wv inv (s, l, ts)"
  shows "wv s' = wv s \<and> l \<le> l' \<or> l < l' \<and> touched l' (wv s) (wv s')"
  using assms
proof (cases rule: wstep.cases)
  case env_step
  then show ?thesis using env_law assms(2) by (simp add: sys_ok_def)
next
  case (save_read i inp v)
  then show ?thesis using save_check_effect(1) [of s] assms(2) by (simp add: sys_ok_def)
next
  case (save_write i v r)
  have "tree_ok v" using save_write(3) assms(2) by (auto simp: sys_ok_def)
  then have "wv s' = wv s \<or> saved_view i v (clk s) (wv s) (wv s')"
    using save_commit_effect(1) [OF _ _ save_write(4)] assms(2) by (auto simp: sys_ok_def)
  then show ?thesis using touched_views(2) save_write by auto
next
  case (publish_read i e)
  then show ?thesis using publish_check_effect(1) [of s] assms(2) by (simp add: sys_ok_def)
next
  case (publish_write i e r)
  have "wv s' = wv s \<or> status_view i StatusPublished (we_updated_at e) (clk s) (wv s) (wv s')"
    using publish_commit_effect(1) [OF _ publish_write(4)] assms(2) by (auto simp: sys_ok_def)
  then show ?thesis using touched_views(3) publish_write by auto
next
  case (create_step nid cb h k r)
  have "wv s' = wv s \<or> (\<exists>h k. created_view (shell nid cb h k) (clk s) (wv s) (wv s'))"
    using create_shell_effect [OF _ create_step(3)] assms(2) by (auto simp: sys_ok_def)
  then show ?thesis using touched_views(4) create_step by auto
next
  case (delete_step i u)
  have "wv s' = wv s \<or> deleted_view {i} (wv s) (wv s')"
    using delete_law [OF _ delete_step(3) [unfolded word_Delete_def store_law]] assms(2) by (auto simp: sys_ok_def)
  then show ?thesis using touched_views(5) delete_step by auto
next
  case (batch_step "is" n)
  have "wv s' = wv s \<or> (\<exists>S. deleted_view S (wv s) (wv s'))"
    using batch_effect [OF _ batch_step(3)] assms(2) by (auto simp: sys_ok_def)
  then show ?thesis using touched_views(5) batch_step by auto
qed

lemma reach_aged:
  assumes "wreach sv clk env (s, l, ts) (s', l', ts')" and "sys_ok wv inv (s, l, ts)"
  shows "aged l (wv s) (wv s')" and "l \<le> l'"
proof -
  have "aged l (wv s) (wv s') \<and> l \<le> l'"
    using assms(1)
  proof (induction "(s', l', ts')" arbitrary: s' l' ts' rule: rtranclp_induct)
    case (step c)
    obtain s1 l1 ts1 where c: "c = (s1, l1, ts1)" by (cases c)
    have IH: "aged l (wv s) (wv s1)" "l \<le> l1" using step.hyps(3) c by simp_all
    have "sys_ok wv inv (s1, l1, ts1)" using reach_ok [OF step.hyps(1) assms(2)] c by simp
    from step_touched [OF step.hyps(2) [unfolded c] this] IH aged_touched [OF IH(1)] show ?case by auto
  qed simp
  then show "aged l (wv s) (wv s')" and "l \<le> l'" by auto
qed

text \<open>After a save with the token \<open>b\<close> no entry of that id ever has the token \<open>b\<close> again.\<close>

lemma token_spent:
  assumes "sys_ok wv inv (s, l, ts)" and "saved_view i v (clk s) (wv s) (wv s1)" and "l < clk s" and "SaveT i v \<in> set ts"
    and "inv s1" and "wreach sv clk env (s1, clk s, remove1 (SaveT i v) ts) (s', l', ts')" and "wv s' i = Some e"
  shows "si_base v < we_updated_at e"
proof -
  have ok: "sys_ok wv inv (s1, clk s, remove1 (SaveT i v) ts)"
    by (rule saved_ok [OF assms(1,5,2-4) set_remove1_subset])
  obtain e1 where e1: "wv s1 i = Some e1" "we_updated_at e1 = clk s"
    using assms(2) by (auto simp: saved_view_def saved_as_def stored_entry_def)
  have b: "si_base v \<le> l" using assms(1,4) by (auto simp: sys_ok_def)
  from reach_aged(1) [OF assms(6) ok] assms(7) consider "clk s < we_updated_at e" | e2 where "wv s1 i = Some e2" "loses_links\<^sup>*\<^sup>* e2 e"
    by (auto simp: aged_def)
  then show ?thesis
  proof cases
    case (2 e2)
    with e1 loses_links_token [OF 2(2)] b assms(3) show ?thesis by simp
  qed (use b assms(3) in simp)
qed

end

end
