(* ===== verification/WordFixed.thy ===== *)
theory WordFixed
  imports WordTree
begin

text \<open>
  Validation and publication on trees that passed them before: normal forms are fixed points,
  what a complete tree may still be blamed for is its links, and the normal frequency is the
  text of the value in millionths.
\<close>

subsection \<open>Normal trees\<close>

lemma normal_freq_fixed: "s = [] \<or> freq_ok s \<Longrightarrow> normal_freq s = s"
  by (auto simp: normal_freq_def NormalizeFrequency_fixed)

lemma style_nonempty: "style_valid s \<Longrightarrow> s \<noteq> []"
  by (auto simp: style_valid_def)

lemma normal_fixed:
  "group_ok g \<Longrightarrow> normal_group g = g" "pron_ok pr \<Longrightarrow> normal_pron pr = pr" "form_ok A f \<Longrightarrow> normal_form f = f"
  "structure_ok A st \<Longrightarrow> normal_structure st = st" "definition_ok ss x \<Longrightarrow> normal_definition x = x"
  "sentence_ok t \<Longrightarrow> normal_sentence t = t" "relation_ok r \<Longrightarrow> normal_relation r = r"
proof -
  show "group_ok g \<Longrightarrow> normal_group g = g" by (simp add: group_ok_def normal_group_def clean_def)
  show p: "pron_ok pr \<Longrightarrow> normal_pron pr = pr" for pr
    using style_nonempty by (simp add: pron_ok_def normal_pron_def clean_def)
  show "normal_form f = f" if f: "form_ok A f"
  proof -
    have "map normal_pron (fm_prons f) = fm_prons f" using f p by (intro map_idI) (simp add: form_ok_def)
    with f show ?thesis by (simp add: normal_form_def form_ok_def clean_def)
  qed
  show "normal_structure st = st" if st: "structure_ok A st"
  proof -
    have "map normal_variant (gs_variants st) = gs_variants st"
      using st by (intro map_idI) (simp add: structure_ok_def variant_ok_def normal_variant_def text_ok_def)
    then show ?thesis by (simp add: normal_structure_def)
  qed
  show "definition_ok ss x \<Longrightarrow> normal_definition x = x"
    by (simp add: definition_ok_def normal_definition_def text_ok_def)
  show "sentence_ok t \<Longrightarrow> normal_sentence t = t"
    by (cases "st_text t") (simp_all add: sentence_ok_def normal_sentence_def text_ok_def)
  show "relation_ok r \<Longrightarrow> normal_relation r = r" by (simp add: relation_ok_def normal_relation_def)
qed

lemma normal_sense_fixed:
  assumes "sense_ok gs ss sn"
  shows "normal_sense sn = sn"
proof -
  have "map normal_definition (sn_definitions sn) = sn_definitions sn" "map normal_sentence (sn_sentences sn) = sn_sentences sn"
    "map normal_relation (sn_relations sn) = sn_relations sn"
    using assms by (auto simp: sense_ok_def normal_fixed intro!: map_idI)
  with assms show ?thesis by (simp add: normal_sense_def sense_ok_def normal_freq_fixed)
qed

lemma normal_pos_fixed:
  assumes "pos_ok A gs po"
  shows "normal_pos po = po"
proof -
  have "map normal_form (po_forms po) = po_forms po" "map normal_structure (po_structures po) = po_structures po"
    "map normal_sense (po_senses po) = po_senses po"
    using assms by (auto simp: pos_ok_def normal_fixed normal_sense_fixed intro!: map_idI)
  then show ?thesis by (simp add: normal_pos_def)
qed

lemma normal_tree_fixed:
  assumes "tree_ok inp"
  shows "normal_tree inp = inp"
proof -
  have ok: "entry_ok (si_frequency inp) (si_mode inp) (si_dialects inp) (si_groups inp) (si_pos inp)"
    using assms by (simp add: tree_ok_def)
  have "map normal_group (si_groups inp) = si_groups inp" "map normal_pos (si_pos inp) = si_pos inp"
    using ok by (auto simp: entry_ok_def normal_fixed normal_pos_fixed intro!: map_idI)
  with ok show ?thesis by (simp add: normal_tree_def entry_ok_def normal_freq_fixed)
qed

lemma validate_fixed: "tree_ok inp \<Longrightarrow> validateTree inp = Inr inp"
  by (simp add: validateTree_iff normal_tree_fixed)

subsection \<open>Violations about links\<close>

text \<open>V10 is the one rule about other entries.\<close>

fun link_violation :: "violation \<Rightarrow> bool" where
  "link_violation (NeedTargetSense p si ri) = True"
| "link_violation _ = False"

abbreviation (input) only_links :: "violation list \<Rightarrow> bool" where
  "only_links vs \<equiv> \<forall>v \<in> set vs. link_violation v"

lemma set_complain [simp]: "set (complain b v) = (if b then {v} else {})"
  by (simp add: complain_def)

lemma only_links_enumerate:
  "(\<And>i x. x \<in> set xs \<Longrightarrow> only_links (f i x) \<longleftrightarrow> P x) \<Longrightarrow>
    only_links (concat (map (\<lambda>(i, x). f i x) (enumerate n xs))) \<longleftrightarrow> (\<forall>x \<in> set xs. P x)"
proof (induction xs arbitrary: n)
  case (Cons x xs)
  from Cons.IH [of "Suc n"] Cons.prems show ?case by (simp add: enumerate_simps ball_Un)
qed simp

lemma only_links_append: "only_links (xs @ ys) \<longleftrightarrow> only_links xs \<and> only_links ys"
  by (simp add: ball_Un)

lemma form_only_links: "only_links (form_violations p i f) \<longleftrightarrow> form_complete f"
proof -
  have "only_links (concat (map (\<lambda>(pi, pr). complain (pr_dict pr = []) (NeedDictPhonetic p i pi) @
       complain (pr_actual pr = []) (NeedActualPron p i pi)) (enumerate 1 (fm_prons f)))) \<longleftrightarrow>
     (\<forall>pr \<in> set (fm_prons f). pr_dict pr \<noteq> [] \<and> pr_actual pr \<noteq> [])"
    by (rule only_links_enumerate) simp
  then show ?thesis unfolding form_violations_def form_complete_def only_links_append by simp
qed

lemma structure_only_links: "only_links (structure_violations allowed p i g) \<longleftrightarrow> structure_complete allowed g"
  by (auto simp: structure_violations_def structure_complete_def split: option.splits)

lemma sense_only_links: "only_links (sense_violations p i sn) \<longleftrightarrow> sense_complete sn"
proof -
  have "only_links (concat (map (\<lambda>(di, d). complain (rt_empty (df_text d)) (EmptyDefinition p i di))
       (enumerate 1 (sn_definitions sn)))) \<longleftrightarrow> (\<forall>d \<in> set (sn_definitions sn). \<not> rt_empty (df_text d))"
    by (rule only_links_enumerate) simp
  moreover have "only_links (concat (map (\<lambda>(ri, r). complain (rl_word r \<noteq> None \<and> rl_sense r = None) (NeedTargetSense p i ri))
       (enumerate 1 (sn_relations sn)))) \<longleftrightarrow> (\<forall>r \<in> set (sn_relations sn). True)"
    by (rule only_links_enumerate) simp
  ultimately show ?thesis unfolding sense_violations_def sense_complete_def only_links_append by simp
qed

lemma pos_only_links: "only_links (pos_violations allowed po) \<longleftrightarrow> pos_complete allowed po"
proof -
  let ?p = "po_pos po"
  have "only_links (concat (map (\<lambda>(fi, f). form_violations ?p fi f) (enumerate 1 (po_forms po)))) \<longleftrightarrow>
      (\<forall>f \<in> set (po_forms po). form_complete f)"
    by (rule only_links_enumerate) (rule form_only_links)
  moreover have "only_links (concat (map (\<lambda>(gi, g). structure_violations allowed ?p gi g) (enumerate 1 (po_structures po)))) \<longleftrightarrow>
      (\<forall>g \<in> set (po_structures po). structure_complete allowed g)"
    by (rule only_links_enumerate) (rule structure_only_links)
  moreover have "only_links (concat (map (\<lambda>(si, sn). sense_violations ?p si sn) (enumerate 1 (po_senses po)))) \<longleftrightarrow>
      (\<forall>sn \<in> set (po_senses po). sense_complete sn)"
    by (rule only_links_enumerate) (rule sense_only_links)
  moreover have "only_links (concat (map (\<lambda>d. complain (base_count po d \<noteq> 1) (NeedBaseForm ?p d (base_count po d))) allowed)) \<longleftrightarrow>
      (\<forall>d \<in> set allowed. base_count po d = 1)"
    by auto
  ultimately show ?thesis
    unfolding pos_violations_def Let_def pos_complete_def only_links_append by auto
qed

lemma publishViolations_links:
  "only_links (publishViolations frequency mode ds pos) \<longleftrightarrow> content_complete frequency mode ds pos"
proof (cases "allowedDialects mode ds")
  case (Inl e)
  then have "\<not> dialects_ok mode ds" using allowedDialects_iff [of mode ds] by auto
  with Inl show ?thesis by (simp add: publishViolations_def content_complete_def)
next
  case (Inr A)
  then have d: "dialects_ok mode ds" "A = enabled_dialects mode ds" by (simp_all add: allowedDialects_iff)
  have "only_links (concat (map (pos_violations A) pos)) \<longleftrightarrow> (\<forall>po \<in> set pos. only_links (pos_violations A po))" by auto
  with Inr d show ?thesis
    unfolding publishViolations_def content_complete_def only_links_append pos_only_links by simp
qed

subsection \<open>The value of a frequency\<close>

lemma dec_val_hundred:
  assumes "allDigits i" and "length i \<le> 3" and "allDigits f" and "length f = 6"
  shows "dec_val i * 1000000 + dec_val f \<le> 100000000 \<longleftrightarrow>
    \<not> (length i = 3 \<and> i > ''100'' \<or> (length i = 3 \<and> i = ''100'') \<and> f \<noteq> ''000000'')"
proof -
  have f: "dec_val f < 1000000" using dec_val_less [OF assms(3)] assms(4) by simp
  have f0: "dec_val f = 0 \<longleftrightarrow> f = ''000000''"
    using dec_val_inj [of f "''000000''"] assms(3,4) dec_val_zeros [of 6] allDigits_zeros [of 6] by (auto simp: numeral_eq_Suc)
  have le: "dec_val i * 1000000 + dec_val f \<le> 100000000 \<longleftrightarrow> dec_val i < 100 \<or> dec_val i = 100 \<and> dec_val f = 0"
    using f by auto
  show ?thesis
  proof (cases "length i = 3")
    case True
    have "''100'' < i \<longleftrightarrow> 100 < dec_val i" using dec_order [of "''100''" i] assms(1) True allDigits_100 dec_val_100 by simp
    moreover have "i = ''100'' \<longleftrightarrow> dec_val i = 100"
      using dec_val_inj [of i "''100''"] assms(1) True allDigits_100 dec_val_100 by auto
    ultimately show ?thesis using True le f0 by auto
  next
    case False
    with assms(2) have "(10 :: nat) ^ length i \<le> 10 ^ 2" by (intro power_increasing) auto
    with dec_val_less [OF assms(1)] have "dec_val i < 100" by simp
    with False le show ?thesis by simp
  qed
qed

text \<open>The normal form is what the column prints for the value it reads.\<close>

lemma NormalizeFrequency_value:
  "NormalizeFrequency s = Inr t \<longleftrightarrow> length (fst (cut_dot (TrimSpace s))) \<le> 3 \<and>
     (\<exists>n. numeric_in (TrimSpace s) = Some n \<and> n \<le> 100000000 \<and> t = numeric_out n)"
proof -
  obtain i f where cut: "cut_dot (TrimSpace s) = (i, f)" by fastforce
  let ?f = "f @ replicate (6 - length f) CHR ''0''" and ?j = "dropWhile (\<lambda>c. c = CHR ''0'') i"
  let ?t = "(if ?j = [] then ''0'' else ?j) @ ''.'' @ ?f"
  let ?form = "i = [] \<or> length i > 3 \<or> \<not> allDigits i \<or> \<not> allDigits f \<or> length f > 6"
  let ?over = "length i = 3 \<and> i > ''100'' \<or> (length i = 3 \<and> i = ''100'') \<and> ?f \<noteq> ''000000''"
  have N: "NormalizeFrequency s = (if ?form then Inl (FreqFormat (TrimSpace s))
      else if ?over then Inl (FreqRange (TrimSpace s)) else Inr ?t)"
    unfolding NormalizeFrequency_def Let_def cut fst_conv snd_conv ..
  show ?thesis
  proof (cases ?form)
    case True
    then show ?thesis unfolding N cut fst_conv numeric_in_def Let_def snd_conv by auto
  next
    case False
    then have d: "i \<noteq> []" "length i \<le> 3" "allDigits i" "allDigits f" "length f \<le> 6" by auto
    have ff: "allDigits ?f" "length ?f = 6" using d by simp_all
    let ?n = "dec_val i * 1000000 + dec_val ?f"
    have "numeric_in (TrimSpace s) = Some (dec_val (i @ ?f))"
      using d unfolding numeric_in_def Let_def cut fst_conv snd_conv by simp
    then have n: "numeric_in (TrimSpace s) = Some ?n" using ff by (simp only: dec_val_append) simp
    have "plain_dec (if ?j = [] then ''0'' else ?j)" by (rule plain_dec_strip [OF d(3)])
    moreover have "dec_val (if ?j = [] then ''0'' else ?j) = dec_val i"
      using dec_val_strip [of i] by (cases "?j = []") (simp_all del: dropWhile_eq_Nil_conv)
    ultimately have "numeric_out ?n = ?t" using numeric_out_digits [OF _ ff] by metis
    moreover have "?n \<le> 100000000 \<longleftrightarrow> \<not> ?over" by (rule dec_val_hundred [OF d(3,2) ff])
    ultimately have eq: "numeric_out ?n = ?t" and le: "?n \<le> 100000000 \<longleftrightarrow> \<not> ?over" by blast+
    have one: "(\<exists>m. Some a = Some m \<and> m \<le> b \<and> t = numeric_out m) \<longleftrightarrow> a \<le> b \<and> t = numeric_out a" for a b by auto
    have r: "(\<exists>m. Some ?n = Some m \<and> m \<le> 100000000 \<and> t = numeric_out m) \<longleftrightarrow> \<not> ?over \<and> t = ?t"
      unfolding le [symmetric] eq [symmetric] by (rule one)
    show ?thesis
      unfolding N if_not_P [OF False] n cut fst_conv r by (cases ?over) (simp_all only: if_True if_False sum.inject sum.distinct d(2) simp_thms eq_commute [of t])
  qed
qed

end
