(* ===== verification/WordOrphans.thy ===== *)
theory WordOrphans
  imports WordLock WordFixed
begin

text \<open>
  What writes to one entry show in the others: a relation whose target is gone keeps its
  snapshot and loses the reference, and nothing else moves. And what a write with an outdated
  token shows: nothing.
\<close>

subsection \<open>Orphaned relations\<close>

text \<open>The senses \<open>S\<close> and the words \<open>W\<close> are gone.\<close>

definition orphan_relation :: "uuid set \<Rightarrow> uuid set \<Rightarrow> word_relation \<Rightarrow> word_relation" where
  "orphan_relation S W r = r\<lparr>rl_word := forget W (rl_word r), rl_sense := forget S (rl_sense r)\<rparr>"

definition orphaned :: "uuid set \<Rightarrow> uuid set \<Rightarrow> word_entry \<Rightarrow> word_entry" where
  "orphaned S W e = e\<lparr>we_pos := map (\<lambda>po. po\<lparr>po_senses := map (\<lambda>sn. sn\<lparr>sn_relations :=
     map (orphan_relation S W) (sn_relations sn)\<rparr>) (po_senses po)\<rparr>) (we_pos e)\<rparr>"

lemma forget_id: "set_option x \<inter> S = {} \<Longrightarrow> forget S x = x"
  by (cases x) (auto simp: forget_def)

lemma unlink_orphans:
  assumes "\<And>po sn. po \<in> set (we_pos e) \<Longrightarrow> sn \<in> set (po_senses po) \<Longrightarrow> set_option (sn_group sn) \<inter> D T_groups = {}"
    and "\<And>po sn x. po \<in> set (we_pos e) \<Longrightarrow> sn \<in> set (po_senses po) \<Longrightarrow> x \<in> set (sn_definitions sn) \<Longrightarrow>
      set_option (df_struct x) \<inter> D T_structs = {}"
  shows "unlink_words W (unlink_entry D e) = orphaned (D T_senses) W e"
proof -
  have rel: "unlink_relation_word W (unlink_relation S r) = orphan_relation S W r" for S r
    by (simp add: unlink_relation_word_def unlink_relation_def orphan_relation_def)
  have sense: "unlink_tree_sense D sn = sn\<lparr>sn_relations := map (unlink_relation (D T_senses)) (sn_relations sn)\<rparr>"
    if "po \<in> set (we_pos e)" "sn \<in> set (po_senses po)" for po sn
  proof -
    have "map (unlink_definition (D T_structs)) (sn_definitions sn) = sn_definitions sn"
      using assms(2) [OF that] by (intro map_idI) (simp add: unlink_definition_def forget_id)
    with assms(1) [OF that] show ?thesis by (simp add: unlink_tree_sense_def forget_id)
  qed
  have "unlink_pos D po = po\<lparr>po_senses := map (\<lambda>sn. sn\<lparr>sn_relations := map (unlink_relation (D T_senses)) (sn_relations sn)\<rparr>)
      (po_senses po)\<rparr>" if "po \<in> set (we_pos e)" for po
    using sense [OF that] by (simp add: unlink_pos_def)
  then show ?thesis
    by (auto simp: unlink_words_def unlink_entry_def orphaned_def rel o_def)
qed

text \<open>The references inside a well-formed entry are to its own nodes.\<close>

lemma own_references:
  assumes "entry j d = Some e" and "entry_wf e" and "po \<in> set (we_pos e)" and "sn \<in> set (po_senses po)"
  shows "set_option (sn_group sn) \<subseteq> set (scope T_groups j d)"
    and "x \<in> set (sn_definitions sn) \<Longrightarrow> set_option (df_struct x) \<subseteq> set (scope T_structs j d)"
proof -
  obtain w where w: "e = entry_of d w" "ww_id w = j" using assms(1) by (auto dest: entry_row)
  have bs: "body_sense sn \<in> set (po_senses (body_pos po))" using assms(4) by (simp add: body_pos_def)
  have wf: "pos_ok A (map sg_id (we_groups e)) (body_pos po)" if "A = enabled_dialects (we_mode e) (we_dialects e)" for A
    using assms(2,3) that by (simp add: entry_wf_def entry_ok_def)
  have s: "sense_ok (map sg_id (we_groups e)) (map gs_id (po_structures po)) (body_sense sn)"
    using wf [OF refl] bs by (auto simp: pos_ok_def body_pos_def)
  have "map sg_id (we_groups e) = map row_id (children j (w_groups d))"
    using w by (simp add: entry_of_def scan_group_def)
  then have "set (map sg_id (we_groups e)) \<subseteq> set (scope T_groups j d)"
    unfolding scope_below(1) using child_below [of _ j _ "{j}"] by auto
  with s show "set_option (sn_group sn) \<subseteq> set (scope T_groups j d)" by (simp add: sense_ok_def body_sense_def) blast
  obtain p where p: "p \<in> set (children j (w_pos d))" "po = pos_at d p"
    using assms(3) w by (auto simp: entry_of_def)
  have pp: "row_id p \<in> set (scope T_pos j d)" unfolding scope_below(2) by (rule child_below [OF p(1)]) simp
  have "map gs_id (po_structures po) = map row_id (children (row_id p) (w_structs d))"
    by (simp add: p(2) pos_at_def scan_pos_def structure_at_def scan_structure_def)
  then have "set (map gs_id (po_structures po)) \<subseteq> set (scope T_structs j d)"
    unfolding scope_below(5) using child_below [OF _ pp] by (auto simp del: scope.simps)
  moreover assume "x \<in> set (sn_definitions sn)"
  ultimately show "set_option (df_struct x) \<subseteq> set (scope T_structs j d)"
    using s by (simp add: sense_ok_def body_sense_def definition_ok_def) blast
qed

lemma unlink_foreign:
  assumes "entry j d = Some e" and "entry_wf e" and "\<And>T. D T \<inter> set (scope T j d) = {}"
  shows "unlink_words W (unlink_entry D e) = orphaned (D T_senses) W e"
proof (rule unlink_orphans)
  fix po sn assume ps: "po \<in> set (we_pos e)" "sn \<in> set (po_senses po)"
  show "set_option (sn_group sn) \<inter> D T_groups = {}"
    using own_references(1) [OF assms(1,2) ps] assms(3) [of T_groups] by blast
  show "set_option (df_struct x) \<inter> D T_structs = {}" if "x \<in> set (sn_definitions sn)" for x
    using own_references(2) [OF assms(1,2) ps that] assms(3) [of T_structs] by blast
qed

lemma saved_orphans:
  assumes "saved i inp now D d d'" and "db_ok d" and "distinct (tree_ids inp)" and "j \<noteq> i"
    and "\<And>e. entry j d = Some e \<Longrightarrow> entry_wf e"
  shows "entry j d' = map_option (orphaned (dropped d d') {}) (entry j d)"
proof (cases "entry j d")
  case None
  with saved_other [OF assms(1-4)] show ?thesis by simp
next
  case (Some e)
  have dis: "D T \<inter> set (scope T j d) = {}" for T
    using savedD(2) [OF assms(1), of T] scope_disjoint [OF db_ok_keys [OF assms(2)] assms(4), of T] by blast
  have "unlink_entry D e = orphaned (D T_senses) {} e"
    using unlink_foreign [OF Some assms(5) [OF Some] dis, of "{}"] by (simp add: unlink_words_none)
  with saved_other [OF assms(1-4)] Some dropped_senses [OF assms(1,3)] show ?thesis by simp
qed

lemma deleted_orphans:
  assumes "db_ok d" and "j \<notin> set is" and "\<And>e. entry j d = Some e \<Longrightarrow> entry_wf e"
  shows "entry j (delete_words is d) = map_option (orphaned (killed_words (set is) d T_senses) (set is)) (entry j d)"
proof (cases "entry j d")
  case (Some e)
  with deleted_entry [OF assms(1), of j "is"] assms(2)
    unlink_foreign [OF Some assms(3) [OF Some] killed_words_disjoint [OF assms(1,2)]] show ?thesis by simp
qed (use deleted_entry [OF assms(1), of j "is"] assms(2) in simp)

subsection \<open>Outdated tokens\<close>

lemma stale_body:
  assumes "save_body i inp w = (r, w')" and "\<And>e. entry i (tables w) = Some e \<Longrightarrow> we_updated_at e \<noteq> si_base inp"
  shows "(\<exists>er. r = Inl er) \<and> tables w' = tables w \<and>
    (next_fate w = Runs \<longrightarrow> r = Inl (if i \<in> word_ids (tables w) then ErrStale else word_ErrNotFound) \<and> w' = pop_fate w)"
proof -
  let ?q = "wquery (or_not_found ''lock word'') (\<lambda>d. case find_word i d of None \<Rightarrow> Inl NoRows | Some r \<Rightarrow> Inr (ww_updated_at r))"
  obtain q w1 where q: "?q w = (q, w1)" by fastforce
  have w1: "w1 = pop_fate w" and qe: "next_fate w = Runs \<longrightarrow> q = (case find_word i (tables w) of None \<Rightarrow> Inl word_ErrNotFound | Some r \<Rightarrow> Inr (ww_updated_at r))"
    using q by (auto simp: wquery_def pg_query_def pg_stmt_def or_not_found_def split: fate.splits option.splits sum.splits prod.splits if_splits)
  have qi: "find_word i (tables w) = Some x \<and> u = ww_updated_at x \<and> next_fate w = Runs" if "q = Inr u" "find_word i (tables w) = Some x" for u x
    using q that by (auto simp: wquery_Inr)
  have qn: "\<exists>x. find_word i (tables w) = Some x" if "q = Inr u" for u
    using q that by (auto simp: wquery_Inr split: option.splits)
  have ids: "i \<in> word_ids (tables w) \<longleftrightarrow> find_word i (tables w) \<noteq> None"
    by (auto simp: find_word_def find_None_iff)
  show ?thesis
  proof (cases q)
    case (Inl er)
    then have "r = Inl er" "w' = w1" using assms(1) q by (simp_all add: save_body_def wbind_def [of ?q])
    then show ?thesis using w1 qe Inl ids by (auto split: option.splits)
  next
    case (Inr u)
    obtain x where x: "find_word i (tables w) = Some x" using qn Inr by blast
    have "entry i (tables w) = Some (entry_of (tables w) x)" "we_updated_at (entry_of (tables w) x) = ww_updated_at x"
      using x by (simp_all add: entry_def entry_of_def scan_word_def)
    with assms(2) qi [OF Inr x] have "u \<noteq> si_base inp" by metis
    then have "r = Inl ErrStale" "w' = w1"
      using assms(1) q Inr by (simp_all add: save_body_def wbind_def [of ?q] wfail_def)
    then show ?thesis using w1 ids x by auto
  qed
qed

lemma stale_saveTree:
  assumes "word_saveTree i inp w = (r, w')" and "\<And>e. entry i (tables w) = Some e \<Longrightarrow> we_updated_at e \<noteq> si_base inp"
  shows "(\<exists>er. r = Inl er) \<and> tables w' = tables w \<and>
    (fates w = [] \<longrightarrow> r = Inl (if i \<in> word_ids (tables w) then ErrStale else word_ErrNotFound))"
proof -
  obtain r1 w1 where b: "save_body i inp (pop_fate w) = (r1, w1)" by fastforce
  note B = stale_body [OF b] assms(2)
  have S: "(\<exists>er. r1 = Inl er)" "tables w1 = tables w"
    "next_fate (pop_fate w) = Runs \<longrightarrow> r1 = Inl (if i \<in> word_ids (tables w) then ErrStale else word_ErrNotFound)"
    using B by simp_all
  have "(\<exists>er. r = Inl er) \<and> tables w' = tables w \<and> (next_fate w = Runs \<longrightarrow> r = r1)"
    using assms(1) b S(1) unfolding word_saveTree_def pg_tx_def by (auto split: if_splits)
  moreover have "next_fate w = Runs \<and> next_fate (pop_fate w) = Runs" if "fates w = []" using that by simp
  ultimately show ?thesis using S(3) by metis
qed

end
