(* ===== verification/WordDemo.thy ===== *)
theory WordDemo
  imports WordOrphans "HOL-Library.Code_Target_Nat"
begin

text \<open>
  A small wordlist to apply the properties to: an admin creates an entry, saves its tree and
  publishes it, and a second entry links to its sense.
\<close>

definition demo_pg :: pg_text where
  "demo_pg = \<lparr>pt_lower = (\<lambda>s. s), pt_key = (\<lambda>s. s)\<rparr>"

definition demo_word_db :: word_db where
  "demo_word_db = \<lparr>w_admins = [(1, ''Wang'')], w_words = [], w_groups = [], w_pos = [], w_forms = [], w_prons = [],
     w_structs = [], w_variants = [], w_senses = [], w_defs = [], w_sents = [], w_rels = []\<rparr>"

definition demo_words :: "word_db pgs" where
  "demo_words = \<lparr>tables = demo_word_db, fates = [], pg_now = 10\<rparr>"

abbreviation demo_sv :: "(word_db pgs) word_service" where
  "demo_sv \<equiv> NewService (word_repo demo_pg) None"

definition demo_text :: "string \<Rightarrow> rich_text" where
  "demo_text s = \<lparr>rt_version = 1, rt_text = s, rt_spans = None, rt_liaisons = None\<rparr>"

definition demo_sense :: "uuid \<Rightarrow> word_relation list \<Rightarrow> word_sense" where
  "demo_sense k rs = \<lparr>sn_id = k, sn_sub_pos = '' N-COUNT'', sn_level = ''A1'', sn_group = None, sn_frequency = ''5'',
     sn_context = False, sn_definitions = [\<lparr>df_id = k + 1, df_level = ''A1'', df_type = DefZH, df_text = demo_text ''shu'',
       df_struct = None, df_audio_url = [], df_audio_source = []\<rparr>],
     sn_sentences = [], sn_relations = rs\<rparr>"

text \<open>The tree of an entry whose node ids start at \<open>k\<close>.\<close>

definition demo_tree :: "uuid \<Rightarrow> time \<Rightarrow> word_relation list \<Rightarrow> save_input" where
  "demo_tree k base rs = \<lparr>si_base = base, si_frequency = ''012.5'', si_mode = ModeUnified, si_dialects = [], si_groups = [],
     si_pos = [\<lparr>po_id = k, po_pos = ''noun'',
       po_forms = [\<lparr>fm_id = k + 1, fm_dialect = DialectCommon, fm_type = FormTypeBase, fm_spelling = '' book '',
         fm_prons = [\<lparr>pr_id = k + 2, pr_dict = ''buk'', pr_actual = ''buk'', pr_style = [], pr_audio_url = [], pr_audio_source = []\<rparr>]\<rparr>],
       po_structures = [\<lparr>gs_id = k + 3, gs_variants = [\<lparr>gv_id = k + 4, gv_dialect = DialectCommon, gv_content = demo_text ''a book'',
         gv_audio_url = [], gv_audio_source = []\<rparr>]\<rparr>],
       po_senses = [demo_sense (k + 5) rs]\<rparr>]\<rparr>"

definition at :: "time \<Rightarrow> word_db pgs \<Rightarrow> word_db pgs" where
  "at t w = w\<lparr>pg_now := t\<rparr>"

text \<open>The entry 50 created, saved and published.\<close>

definition demo_created :: "word_db pgs" where
  "demo_created = snd (word_CreateShell demo_sv 50 1 ''book'' [] demo_words)"

definition demo_body :: save_input where
  "demo_body = normal_tree (demo_tree 100 10 [])"

definition demo_saved :: "word_db pgs" where
  "demo_saved = snd (save_commit demo_sv 50 demo_body (at 20 demo_created))"

definition demo_published :: "word_db pgs" where
  "demo_published = snd (word_Publish demo_sv 50 (at 30 demo_saved))"

text \<open>The entry 60, with a link to the sense 105 of the entry 50, published; then a save of the
  entry 50 whose tree has other nodes.\<close>

definition demo_link :: word_relation where
  "demo_link = \<lparr>rl_id = 250, rl_relation = ''synonym'', rl_word = Some 50, rl_sense = Some 105, rl_headword = [], rl_gloss = [],
     rl_score = 80\<rparr>"

definition demo_linked :: "word_db pgs" where
  "demo_linked = snd (word_Publish demo_sv 60 (at 60 (snd (word_Save demo_sv 60 (demo_tree 200 40 [demo_link])
     (at 50 (snd (word_CreateShell demo_sv 60 1 ''tome'' [] (at 40 demo_published))))))))"

definition demo_cut :: "word_db pgs" where
  "demo_cut = snd (word_Save demo_sv 50 (demo_tree 300 30 []) (at 70 demo_linked))"

lemma demo_word_inv: "word_inv demo_word_db"
  by (simp add: word_inv_def links_ok_def demo_word_db_def db_ok_rows keys_ok_def rows_ok_def)

lemma demo_entries: "words_ok 0 (\<lambda>j. entry j (tables demo_words))"
  by (simp add: words_ok_def demo_words_def entry_def find_word_def demo_word_db_def)

lemma demo_checks:
  "save_check demo_sv 50 (demo_tree 100 10 []) (at 20 demo_created) = (Inr demo_body, at 20 demo_created)"
  "map_option we_updated_at (entry 50 (tables demo_saved)) = Some 20"
  by code_simp+

lemma demo_publish_check:
  "publish_check demo_sv 50 (at 30 demo_saved) = (Inr (the (entry 50 (tables demo_saved))), at 30 demo_saved)"
  by code_simp

lemma demo_published_eq:
  "publish_commit demo_sv 50 (the (entry 50 (tables demo_saved))) (at 30 demo_saved) = (Inr (the (entry 50 (tables demo_published))), demo_published)"
  by code_simp

lemma demo_inv: "word_inv (tables demo_words)"
  using demo_word_inv by (simp add: demo_words_def)

text \<open>The run up to the save's write, and on to the publication.\<close>

lemma same_at [simp]: "same_tables w (at t w)" "pg_now (at t w) = t" "tables (at t w) = tables w"
  by (simp_all add: same_tables_def at_def)

lemma run_step: "wreach sv clk env c1 c2 \<Longrightarrow> wstep sv clk env c2 c3 \<Longrightarrow> wreach sv clk env c1 c3"
  by (rule rtranclp.rtrancl_into_rtrancl)

lemma demo_run_ticket: "(words_step demo_pg)\<^sup>*\<^sup>* (demo_words, 0, []) (at 20 demo_created, 10, [SaveT 50 demo_body])"
proof -
  let ?S = "words_step demo_pg"
  have a: "?S (demo_words, 0, []) (demo_created, 10, [])"
    using create_step [where s = demo_words and s' = demo_created and l = 0 and ts = "[]" and clk = pg_now, OF prod.collapse [symmetric, of "word_CreateShell demo_sv 50 1 ''book'' [] demo_words", folded demo_created_def]]
    by (simp add: demo_words_def)
  have b: "?S (demo_created, 10, []) (at 20 demo_created, 10, [])" by (rule env_step) simp
  have c: "?S (at 20 demo_created, 10, []) (at 20 demo_created, 10, [SaveT 50 demo_body])"
    by (rule save_read [OF demo_checks(1)]) (simp add: demo_tree_def)
  show ?thesis by (rule run_step [OF run_step [OF run_step [OF rtranclp.rtrancl_refl a] b] c])
qed

lemma demo_save_step: "words_step demo_pg (at 20 demo_created, 10, [SaveT 50 demo_body]) (demo_saved, 20, [])"
proof -
  have "save_commit demo_sv 50 demo_body (at 20 demo_created) = (fst (save_commit demo_sv 50 demo_body (at 20 demo_created)), demo_saved)"
    by (simp add: demo_saved_def)
  from save_write [OF _ this, where l = 10 and ts = "[SaveT 50 demo_body]" and clk = pg_now] show ?thesis by simp
qed

lemma demo_word_run: "(words_step demo_pg)\<^sup>*\<^sup>* (demo_words, 0, []) (demo_published, 30, [])"
proof -
  let ?S = "words_step demo_pg" and ?e = "the (entry 50 (tables demo_saved))"
  have a: "?S (demo_saved, 20, []) (at 30 demo_saved, 20, [])" by (rule env_step) simp
  have b: "?S (at 30 demo_saved, 20, []) (at 30 demo_saved, 20, [PubT 50 ?e])"
    by (rule publish_read [OF demo_publish_check])
  have c: "?S (at 30 demo_saved, 20, [PubT 50 ?e]) (demo_published, 30, [])"
    using publish_write [OF _ demo_published_eq, where l = 20 and ts = "[PubT 50 ?e]" and clk = pg_now] by simp
  show ?thesis by (rule run_step [OF run_step [OF run_step [OF run_step [OF demo_run_ticket demo_save_step] a] b] c])
qed

end
