(* ===== verification/WordProps.thy ===== *)
theory WordProps
  imports WordDemo
begin

text \<open>
  The properties of the wordlist, each with a witness where it has hypotheses.
\<close>

subsection \<open>What a successful save and deletion did\<close>

lemma Save_Inr:
  assumes "word_Save (NewService (word_repo L) None) i inp w = (Inr e', w')" and "word_inv (tables w)"
  obtains e D where "entry i (tables w) = Some e" and "check_body e inp = Inr (normal_tree inp)"
    and "tree_ok (normal_tree inp)" and "we_updated_at e = si_base inp"
    and "saved i (normal_tree inp) (pg_now w) D (tables w) (tables w')" and "entry i (tables w') = Some e'"
proof -
  let ?sv = "NewService (word_repo L) None"
  obtain v w1 where c: "save_check ?sv i inp w = (Inr v, w1)" and k: "save_commit ?sv i v w1 = (Inr e', w')"
    using assms(1) by (auto simp: word_Save_def wbind_Inr)
  from c obtain e where g: "word_getTree i w = (Inr e, w1)" and b: "check_body e inp = Inr v"
    by (auto simp: save_check_def NewService_def word_repo_def split: prod.splits sum.splits)
  from k obtain w2 w3 where s: "word_saveTree i v w1 = (Inr (), w2)" and g2: "word_getTree i w2 = (Inr e', w3)" and w': "w' = w3"
    by (auto simp: save_commit_def NewService_def word_repo_def split: prod.splits sum.splits if_splits)
  have v: "v = normal_tree inp" "tree_ok v" using check_body_Inr(1,2) [OF b] by (auto simp: validateTree_iff)
  have t: "tables w1 = tables w" "pg_now w1 = pg_now w" "tables w3 = tables w2"
    using getTree_tables [OF g] getTree_tables [OF g2] by simp_all
  have ok: "db_ok (tables w1)" using assms(2) t(1) by (simp add: word_inv_def)
  from saveTree_Inr(1) [OF s ok] obtain D where "saved i v (pg_now w1) D (tables w1) (tables w2)" by blast
  then have D: "saved i (normal_tree inp) (pg_now w) D (tables w) (tables w')" using v(1) t w' by simp
  have e: "entry i (tables w) = Some e" using getTree_Inr(2) [OF g] .
  from saveTree_Inr(3) [OF s ok] have "we_updated_at e = si_base v"
    using e t(1) by (auto simp: entry_def entry_of_def scan_word_def)
  then have "we_updated_at e = si_base inp" using v(1) by simp
  moreover have "entry i (tables w') = Some e'" using getTree_Inr(2) [OF g2] t(3) w' by simp
  ultimately show ?thesis using that [OF e _ _ _ D] b v by blast
qed

text \<open>The operations keep the integrity of the tables.\<close>

lemma kept_inv:
  assumes "word_inv (tables w)"
  shows "word_inv (tables (snd (word_CreateShell (NewService (word_repo L) None) nid cb h k w)))"
    and "word_inv (tables (snd (word_Save (NewService (word_repo L) None) i inp w)))"
    and "word_inv (tables (snd (word_Publish (NewService (word_repo L) None) i w)))"
proof -
  let ?sv = "NewService (word_repo L) None"
  show "word_inv (tables (snd (word_CreateShell ?sv nid cb h k w)))"
    using world.create_shell_effect [OF assms prod.collapse [symmetric]] by blast
  show "word_inv (tables (snd (word_Save ?sv i inp w)))"
  proof (cases "save_check ?sv i inp w")
    case (Pair r w1)
    note C = world.save_check_effect [OF assms Pair]
    show ?thesis
    proof (cases r)
      case (Inr v)
      from C(2) [OF Inr] have "tree_ok v" using check_body_Inr(2) by blast
      with world.save_commit_effect(1) [OF conjunct1 [OF C(1)] this prod.collapse [symmetric]] Pair Inr
      show ?thesis by (simp add: word_Save_def wbind_def)
    qed (use C(1) Pair in \<open>simp add: word_Save_def wbind_def\<close>)
  qed
  show "word_inv (tables (snd (word_Publish ?sv i w)))"
  proof (cases "publish_check ?sv i w")
    case (Pair r w1)
    note C = world.publish_check_effect [OF assms Pair]
    with world.publish_commit_effect(1) [OF conjunct1 [OF C(1)] prod.collapse [symmetric]] Pair
    show ?thesis by (cases r) (simp_all add: word_Publish_def wbind_def)
  qed
qed

lemma demo_saved_Save: "demo_saved = snd (word_Save demo_sv 50 (demo_tree 100 10 []) (at 20 demo_created))"
  by (simp add: word_Save_def wbind_def demo_checks demo_saved_def)

lemma demo_linked_inv: "word_inv (tables (at t demo_linked))"
  unfolding demo_linked_def demo_published_def demo_saved_Save demo_created_def
  by (rule kept_inv demo_inv | simp only: same_at)+

subsection \<open>Validation\<close>

text \<open>C16: \<open>validateTree\<close> accepts exactly the bodies whose normal form is a well-formed tree (node
  ids present and unique, references to own nodes, enums and bounds respected) and returns that
  normal form, which it accepts unchanged.\<close>

theorem validated_tree:
  "(validateTree inp = Inr out \<longleftrightarrow> out = normal_tree inp \<and> tree_ok out) \<and>
   (tree_ok out \<longleftrightarrow> si_base out \<noteq> zero_time \<and> validateTree out = Inr out)"
proof -
  have "tree_ok out \<longleftrightarrow> si_base out \<noteq> zero_time \<and> validateTree out = Inr out"
    using validate_fixed by (auto simp: validateTree_iff tree_ok_def [of out])
  then show ?thesis by (simp add: validateTree_iff)
qed

text \<open>C38: A frequency is accepted exactly when it reads as a decimal of at most three integer and
  six fraction digits worth at most 100 percent, and its normal form is the text the
  \<open>NUMERIC(12,6)\<close> column prints for that value.\<close>

theorem frequency_normal_form:
  "NormalizeFrequency s = Inr t \<longleftrightarrow> length (fst (cut_dot (TrimSpace s))) \<le> 3 \<and>
     (\<exists>n. numeric_in (TrimSpace s) = Some n \<and> n \<le> 100000000 \<and> t = numeric_out n)"
  by (rule NormalizeFrequency_value)

text \<open>C39: The publication check reports nothing exactly when the entry meets V1 to V9, stated
  without its loops, and every linked relation names a sense (V10).\<close>

theorem publish_rules:
  "publishViolations fr mode ds pos = [] \<longleftrightarrow> content_complete fr mode ds pos \<and> all_links pos"
  by (rule publishViolations_Nil)

subsection \<open>The published entries\<close>

text \<open>C4: In every state that interleaved creations, saves, publications and deletions reach, with
  any statements lost, a published entry is well-formed and the publication check finds nothing
  in it but relations whose target sense is gone.\<close>

theorem published_stays_complete:
  assumes "word_inv (tables w)" and "words_ok l (\<lambda>j. entry j (tables w))"
    and "(words_step L)\<^sup>*\<^sup>* (w, l, []) (w', l', ts)"
    and "entry i (tables w') = Some e" and "we_status e = StatusPublished"
  shows "entry_wf e \<and> list_all link_violation (publishViolations (we_frequency e) (we_mode e) (we_dialects e) (we_pos e))"
proof -
  have "sys_ok (\<lambda>w i. entry i (tables w)) (\<lambda>w. word_inv (tables w)) (w, l, [])" using assms(1,2) by (simp add: sys_ok_def)
  from world.reach_ok [OF assms(3) this] have "words_ok l' (\<lambda>j. entry j (tables w'))" by (simp add: sys_ok_def)
  with assms(4,5) show ?thesis unfolding words_ok_def list_all_iff publishViolations_links entry_complete_def by blast
qed

theorem published_stays_complete_witness:
  "entry_wf (the (entry 50 (tables demo_published))) \<and>
   list_all link_violation (publishViolations ''12.500000'' ModeUnified [] (we_pos (the (entry 50 (tables demo_published)))))"
proof -
  let ?e = "the (entry 50 (tables demo_published))"
  have e: "entry 50 (tables demo_published) = Some ?e" by code_simp
  have f: "we_status ?e = StatusPublished" "we_frequency ?e = ''12.500000''" "we_mode ?e = ModeUnified" "we_dialects ?e = []"
    by code_simp+
  from published_stays_complete [OF demo_inv demo_entries demo_word_run e f(1)] show ?thesis unfolding f .
qed

text \<open>C36: What a reader gets of an entry that was written since its creation is a body the
  validation accepts unchanged, whatever was written before.\<close>

theorem read_can_be_saved:
  assumes "word_inv (tables w)" and "words_ok l (\<lambda>j. entry j (tables w))"
    and "(words_step L)\<^sup>*\<^sup>* (w, l, []) (w', l', ts)"
    and "word_Get (NewService (word_repo L) None) i w' = (Inr e, w'')" and "we_updated_at e \<noteq> zero_time"
  shows "validateTree (body_of e) = Inr (body_of e)"
proof -
  have "sys_ok (\<lambda>w i. entry i (tables w)) (\<lambda>w. word_inv (tables w)) (w, l, [])" using assms(1,2) by (simp add: sys_ok_def)
  from world.reach_ok [OF assms(3) this] have "words_ok l' (\<lambda>j. entry j (tables w'))" by (simp add: sys_ok_def)
  moreover have "entry i (tables w') = Some e"
    using getTree_Inr(2) assms(4) by (simp add: word_Get_def NewService_def word_repo_def)
  ultimately have "entry_wf e" unfolding words_ok_def by blast
  with assms(5) have "tree_ok (body_of e)" by (simp add: entry_wf_tree)
  then show ?thesis by (rule validate_fixed)
qed

theorem read_can_be_saved_witness:
  "validateTree (body_of (the (entry 50 (tables demo_published)))) = Inr (body_of (the (entry 50 (tables demo_published))))"
proof -
  have g: "word_Get demo_sv 50 demo_published = (Inr (the (entry 50 (tables demo_published))), demo_published)" by code_simp
  have z: "we_updated_at (the (entry 50 (tables demo_published))) \<noteq> zero_time" by code_simp
  show ?thesis by (rule read_can_be_saved [OF demo_inv demo_entries demo_word_run g z])
qed

subsection \<open>Saves\<close>

text \<open>C13: A successful save answers with the entry as stored, which later reads return: the entry
  had the token the body named, its content is now the normal form of the body, the audio of
  kept nodes and the server's columns are as before, and relations carry resolved snapshots, an
  orphan the ones it had.\<close>

theorem save_then_get:
  assumes "word_Save (NewService (word_repo L) None) i inp w = (Inr e', w')" and "word_inv (tables w)"
  shows "\<exists>e. entry i (tables w) = Some e \<and> we_updated_at e = si_base inp \<and>
      e' = stored_entry (tables w) (tables w') (normal_tree inp) (pg_now w) e \<and>
      (fates w' = [] \<longrightarrow> word_Get (NewService (word_repo L) None) i w' = (Inr e', w'))"
proof -
  from assms obtain e D where e: "entry i (tables w) = Some e" "tree_ok (normal_tree inp)" "we_updated_at e = si_base inp"
    "saved i (normal_tree inp) (pg_now w) D (tables w) (tables w')" "entry i (tables w') = Some e'"
    by (rule Save_Inr)
  have "db_ok (tables w)" using assms(2) by (simp add: word_inv_def)
  with saved_entry [OF e(4) _ e(2,1)] e(5)
  have "e' = stored_entry (tables w) (tables w') (normal_tree inp) (pg_now w) e" by simp
  with e(1,3,5) show ?thesis
    by (simp add: word_Get_def NewService_def word_repo_def getTree_healthy)
qed

theorem save_then_get_witness:
  "\<exists>e. entry 50 (tables demo_linked) = Some e \<and> we_updated_at e = 30 \<and>
     the (entry 50 (tables demo_cut)) = stored_entry (tables demo_linked) (tables demo_cut) (normal_tree (demo_tree 300 30 [])) 70 e"
proof -
  have s: "word_Save demo_sv 50 (demo_tree 300 30 []) (at 70 demo_linked) = (Inr (the (entry 50 (tables demo_cut))), demo_cut)"
    by code_simp
  have b: "si_base (demo_tree 300 30 []) = 30" by (simp add: demo_tree_def)
  from save_then_get [OF s demo_linked_inv] show ?thesis unfolding same_at b by blast
qed

text \<open>C14: A successful save leaves every other entry as it was, except that relations to senses it
  dropped lose the reference and keep headword and gloss.\<close>

theorem save_leaves_others:
  assumes "word_Save (NewService (word_repo L) None) i inp w = (Inr e', w')" and "word_inv (tables w)" and "j \<noteq> i"
    and "\<And>e. entry j (tables w) = Some e \<Longrightarrow> entry_wf e"
  shows "entry j (tables w') = map_option (orphaned (dropped (tables w) (tables w')) {}) (entry j (tables w))"
proof -
  from assms(1,2) obtain e D where "tree_ok (normal_tree inp)" and D: "saved i (normal_tree inp) (pg_now w) D (tables w) (tables w')"
    by (rule Save_Inr)
  then have "distinct (tree_ids (normal_tree inp))" by (simp add: tree_ok_def)
  moreover have "db_ok (tables w)" using assms(2) by (simp add: word_inv_def)
  ultimately show ?thesis by (intro saved_orphans [OF D _ _ assms(3,4)])
qed

lemma demo_linked_wf: "entry j (tables (at t demo_linked)) = Some e \<Longrightarrow> entry_wf e"
proof -
  have ids: "word_ids (tables demo_linked) = {50, 60}" by code_simp
  have wf: "list_all (\<lambda>j. entry_wf (the (entry j (tables demo_linked)))) [50, 60]" by code_simp
  assume e: "entry j (tables (at t demo_linked)) = Some e"
  then have "j \<in> word_ids (tables demo_linked)" using entry_None [of j "tables demo_linked"] by auto
  with ids wf e show "entry_wf e" by auto
qed

theorem save_leaves_others_witness:
  "entry 60 (tables demo_cut) = map_option (orphaned (dropped (tables demo_linked) (tables demo_cut)) {}) (entry 60 (tables demo_linked)) \<and>
   105 \<in> dropped (tables demo_linked) (tables demo_cut)"
proof -
  have s: "word_Save demo_sv 50 (demo_tree 300 30 []) (at 70 demo_linked) = (Inr (the (entry 50 (tables demo_cut))), demo_cut)"
    by code_simp
  have d: "105 \<in> dropped (tables demo_linked) (tables demo_cut)" by code_simp
  have n: "(60 :: nat) \<noteq> 50" by simp
  have wf: "entry_wf e" if "entry 60 (tables (at 70 demo_linked)) = Some e" for e using that by (rule demo_linked_wf)
  from save_leaves_others [OF s demo_linked_inv n wf] d show ?thesis unfolding same_at by blast
qed

text \<open>The published entry 60 now has a relation without a sense, which publication would refuse.\<close>

lemma demo_link_lost:
  "map_option (\<lambda>e. (we_status e, publishViolations (we_frequency e) (we_mode e) (we_dialects e) (we_pos e)))
     (entry 60 (tables demo_cut)) = Some (StatusPublished, [NeedTargetSense ''noun'' 1 1])"
  by code_simp

subsection \<open>Deletion\<close>

lemma set_uniq_ids: "set (uniq_ids S is) = set is - S"
  by (induction S "is" rule: uniq_ids.induct) auto

lemma count_words:
  "distinct (map ww_id ws) \<Longrightarrow> length (filter (\<lambda>r. ww_id r \<in> A) ws) = card (A \<inter> set (map ww_id ws))"
proof (induction ws)
  case (Cons r ws)
  then show ?case by (cases "ww_id r \<in> A") (simp_all add: Int_insert_right)
qed simp

lemma killed_dropped:
  assumes "db_ok d"
  shows "killed_words (set is) d T_senses = dropped d (delete_words is d)"
proof -
  let ?K = "killed_words (set is) d T_senses"
  have "ids_of (w_senses (delete_words is d)) = ids_of (w_senses d) - ?K"
    unfolding delete_words_prune [OF db_ok_keys [OF assms]] by (simp del: killed_words_def)
  moreover have "?K \<subseteq> ids_of (w_senses d)"
    using killed_words_scope [of "set is" d T_senses] unfolding scope_below by (auto simp: below_def ids_of_def)
  ultimately show ?thesis unfolding dropped_def by blast
qed

text \<open>C37: A successful batch deletion answers with the number of named entries that existed, removes
  exactly these, and relations of the remaining entries to them become orphans that keep headword
  and gloss.\<close>

theorem batch_delete:
  assumes "word_BatchDelete (NewService (word_repo L) None) is w = (Inr n, w')" and "word_inv (tables w)"
    and "\<And>j e. entry j (tables w) = Some e \<Longrightarrow> entry_wf e"
  shows "n = card (set is \<inter> word_ids (tables w)) \<and>
    (\<forall>j. entry j (tables w') = (if j \<in> set is then None
       else map_option (orphaned (dropped (tables w) (tables w')) (set is)) (entry j (tables w))))"
proof -
  have "word_deleteMany (uniq_ids {} is) w = (Inr n, w')"
    using assms(1) by (simp add: word_BatchDelete_def NewService_def word_repo_def split: if_splits)
  then have n: "n = length (filter (\<lambda>r. ww_id r \<in> set (uniq_ids {} is)) (w_words (tables w)))"
    and t: "tables w' = delete_words (uniq_ids {} is) (tables w)"
    by (auto simp: word_deleteMany_def wstmt_Inr sql_word_delete_def)
  have ok: "db_ok (tables w)" using assms(2) by (simp add: word_inv_def)
  note u = set_uniq_ids [of "{}" "is", simplified]
  have "distinct (map ww_id (w_words (tables w)))" using db_ok_keys [OF ok] by (simp add: keys_ok_def)
  then have "n = card (set is \<inter> word_ids (tables w))" unfolding n u by (rule count_words)
  moreover have "entry j (tables w') = None" if "j \<in> set is" for j
    unfolding t deleted_entry [OF ok] using that u by simp
  moreover have "entry j (tables w') = map_option (orphaned (dropped (tables w) (tables w')) (set is)) (entry j (tables w))"
    if "j \<notin> set is" for j
    using deleted_orphans [OF ok, of j "uniq_ids {} is"] assms(3) that unfolding t u killed_dropped [OF ok, of "uniq_ids {} is", unfolded u] by blast
  ultimately show ?thesis by simp
qed

theorem batch_delete_witness:
  "\<exists>w'. word_BatchDelete demo_sv [50, 7, 50] demo_linked = (Inr 1, w') \<and> entry 50 (tables w') = None \<and>
     entry 60 (tables w') = map_option (orphaned (dropped (tables demo_linked) (tables w')) {50, 7}) (entry 60 (tables demo_linked))"
proof -
  let ?r = "word_BatchDelete demo_sv [50, 7, 50] demo_linked"
  have s: "?r = (Inr 1, snd ?r)" by code_simp
  have wf: "entry_wf e" if "entry j (tables demo_linked) = Some e" for j e
    using demo_linked_wf [where t = 0] that by simp
  have "set [50, 7, 50] = {50, 7 :: nat}" by auto
  with batch_delete [OF s demo_linked_inv [where t = 0, unfolded same_at] wf] s show ?thesis by auto
qed

text \<open>C5: Two saves with the same token never both succeed: once one has, in whatever state other
  requests lead to, another is refused and changes nothing, as stale on a healthy connection.\<close>

theorem no_lost_update:
  assumes "word_inv (tables w0)" and "words_ok l0 (\<lambda>j. entry j (tables w0))"
    and "(words_step L)\<^sup>*\<^sup>* (w0, l0, []) (w, l, ts)" and "SaveT i v \<in> set ts" and "l < pg_now w"
    and "save_commit (NewService (word_repo L) None) i v w = (Inr e, w1)"
    and "(words_step L)\<^sup>*\<^sup>* (w1, pg_now w, remove1 (SaveT i v) ts) (w2, l2, ts2)"
    and "si_base v2 = si_base v" and "save_commit (NewService (word_repo L) None) i v2 w2 = (r, w3)"
  shows "(\<exists>er. r = Inl er) \<and> tables w3 = tables w2 \<and>
    (fates w2 = [] \<longrightarrow> r = Inl (if i \<in> word_ids (tables w2) then ErrStale else word_ErrNotFound))"
proof -
  let ?wv = "\<lambda>w i. entry i (tables w)" and ?inv = "\<lambda>w. word_inv (tables w)"
  have "sys_ok ?wv ?inv (w0, l0, [])" using assms(1,2) by (simp add: sys_ok_def)
  from world.reach_ok [OF assms(3) this] have ok: "sys_ok ?wv ?inv (w, l, ts)" .
  then have I: "?inv w" and T: "tree_ok v" using assms(4) by (auto simp: sys_ok_def)
  from world.save_commit_effect(1) [OF I T assms(6)]
  have S: "?inv w1" "saved_view i v (pg_now w) (?wv w) (?wv w1)" by auto
  have spent: "we_updated_at x \<noteq> si_base v2" if "entry i (tables w2) = Some x" for x
    using world.token_spent [OF ok S(2) assms(5,4) S(1) assms(7) that] assms(8) by simp
  obtain u s where t: "word_saveTree i v2 w2 = (u, s)" by fastforce
  note U = stale_saveTree [OF t spent]
  then obtain er where er: "u = Inl er" by blast
  then have "r = Inl er" "w3 = s"
    using assms(9) t by (simp_all add: save_commit_def NewService_def word_repo_def)
  with U er show ?thesis by simp
qed

theorem no_lost_update_witness:
  "\<exists>w3. save_commit demo_sv 50 demo_body demo_saved = (Inl ErrStale, w3) \<and> tables w3 = tables demo_saved"
proof -
  have c: "save_commit demo_sv 50 demo_body (at 20 demo_created) = (Inr (the (entry 50 (tables demo_saved))), demo_saved)" by code_simp
  obtain r w3 where r: "save_commit demo_sv 50 demo_body demo_saved = (r, w3)" by fastforce
  have l: "(10 :: int) < pg_now (at 20 demo_created)" by simp
  have f: "fates demo_saved = []" "50 \<in> word_ids (tables demo_saved)" by code_simp+
  from no_lost_update [OF demo_inv demo_entries demo_run_ticket _ l c rtranclp.rtrancl_refl refl r] r f show ?thesis by simp
qed

end
