(* ===== verification/HandlerProps.thy ===== *)
theory HandlerProps
  imports WordHandler UserHandler AdminHandler WordProps AdminProps
begin

text \<open>
  The handlers behind the route table: an id a handler asks for was left by its gate, so no
  handler panics; pages are always in range; a rejected wordlist request changed nothing.
\<close>

subsection \<open>Handlers in their chains\<close>

text \<open>\<open>rd\<close> reads the request off the context; the ids are those the gates have set.\<close>

definition run_handler :: "(('w, 'b) gctx \<Rightarrow> request) \<Rightarrow> ('x, 'e, 'w) handler \<Rightarrow> ('w, 'b) chain" where
  "run_handler rd h c =
     (case h ((rd c)\<lparr>rq_keys := gc_keys c\<rparr>) (gc_world c) of
        (Panics, s) \<Rightarrow> Panicked (c\<lparr>gc_world := s\<rparr>)
      | (Reply r, s) \<Rightarrow> Done (write_status (rp_status r) (c\<lparr>gc_world := s\<rparr>)))"

text \<open>The id a handler asks for.\<close>

definition id_readers :: "(string \<times> string) list" where
  "id_readers =
     map (\<lambda>n. (n, ''auth.userID''))
       [''user.Me'', ''user.UpdateProfile'', ''user.RequestContactBindCode'', ''user.BindContact'',
        ''user.UpdateLearningSettings'', ''user.LogoutAll'', ''user.SwitchRole'', ''user.AddRole'',
        ''user.RequestAccountDeletion'', ''user.DeleteAccount''] @
     map (\<lambda>n. (n, ''auth.adminID'')) [''admin.LogoutAll'', ''admin.Profile'', ''word.Create'']"

fun has_id :: "(string \<rightharpoonup> gval) \<Rightarrow> string \<Rightarrow> bool" where
  "has_id ks k = (case ks k of Some (GUuid _) \<Rightarrow> True | _ \<Rightarrow> False)"

definition ids_there :: "string \<Rightarrow> (string \<rightharpoonup> gval) \<Rightarrow> bool" where
  "ids_there n ks \<longleftrightarrow> (case map_of id_readers n of None \<Rightarrow> True | Some k \<Rightarrow> has_id ks k)"

lemma ids_there_word [simp]: "ids_there ''word.Create'' ks = has_id ks ''auth.adminID''"
  and ids_there_admin [simp]: "ids_there ''admin.LogoutAll'' ks = has_id ks ''auth.adminID''"
    "ids_there ''admin.Profile'' ks = has_id ks ''auth.adminID''"
  by (simp_all add: ids_there_def id_readers_def)

lemma ids_there_user [simp]:
  "ids_there ''user.Me'' ks = has_id ks ''auth.userID''" "ids_there ''user.UpdateProfile'' ks = has_id ks ''auth.userID''"
  "ids_there ''user.RequestContactBindCode'' ks = has_id ks ''auth.userID''"
  "ids_there ''user.BindContact'' ks = has_id ks ''auth.userID''"
  "ids_there ''user.UpdateLearningSettings'' ks = has_id ks ''auth.userID''"
  "ids_there ''user.LogoutAll'' ks = has_id ks ''auth.userID''" "ids_there ''user.SwitchRole'' ks = has_id ks ''auth.userID''"
  "ids_there ''user.AddRole'' ks = has_id ks ''auth.userID''"
  "ids_there ''user.RequestAccountDeletion'' ks = has_id ks ''auth.userID''"
  "ids_there ''user.DeleteAccount'' ks = has_id ks ''auth.userID''"
  by (simp_all add: ids_there_def id_readers_def)

text \<open>What never panics.\<close>

definition no_panic :: "('s \<Rightarrow> ('b, 'e) answer \<times> 's) \<Rightarrow> bool" where
  "no_panic m \<longleftrightarrow> (\<forall>s s'. m s \<noteq> (Panics, s'))"

named_theorems calm_intros

lemma no_panic_reply [calm_intros]:
  "no_panic (\<lambda>s. (Reply r, s))" "no_panic (\<lambda>s. reply_to err rules f (m s))" "no_panic (\<lambda>s. word_reply_to g (m' s))"
  by (auto simp: no_panic_def reply_to_def word_reply_to_def split: sum.splits prod.splits)

lemma no_panic_json [calm_intros]: "(\<And>v. no_panic (k v)) \<Longrightarrow> no_panic (with_json dec err rq k)"
  by (auto simp: no_panic_def with_json_def split: sum.splits)

lemma no_panic_get [calm_intros]: "has_id (rq_keys rq) key \<Longrightarrow> (\<And>i. no_panic (k i)) \<Longrightarrow> no_panic (MustGet key rq k)"
  by (auto simp: no_panic_def MustGet_def split: option.splits gval.splits)

lemma no_panic_wordID [calm_intros]: "(\<And>i. no_panic (k i)) \<Longrightarrow> no_panic (wordID L rq k)"
  by (auto simp: no_panic_def wordID_def split: option.splits)

lemma no_panic_case [calm_intros]: "(\<And>a b. no_panic (f a b)) \<Longrightarrow> no_panic (case p of (a, b) \<Rightarrow> f a b)"
  by (cases p) simp

lemma no_panic_let [calm_intros]: "(\<And>a b. no_panic (f a b)) \<Longrightarrow> no_panic (\<lambda>s. case p of (a, b) \<Rightarrow> f a b s)"
  by (cases p) simp

lemma word_calm:
  "list_all (\<lambda>(n, h). \<forall>rq. ids_there n (rq_keys rq) \<longrightarrow> no_panic (h rq)) (word_handlers B sv D)"
  unfolding word_handlers_def list.pred_inject prod.case
proof (intro conjI allI impI list.pred_inject(1))
  fix rq
  show "ids_there ''word.Create'' (rq_keys rq) \<Longrightarrow> no_panic (word_Create_h B sv D rq)"
    unfolding word_Create_h_def by (intro calm_intros) simp
  show "no_panic (word_List_h sv D rq)" unfolding word_List_h_def [abs_def]
    by (auto simp: Let_def no_panic_def word_reply_to_def split: prod.splits option.splits sum.splits)
  show "no_panic (word_SaveContent_h B sv rq)" unfolding word_SaveContent_h_def
    by (intro calm_intros) (auto simp: no_panic_def word_reply_to_def split: prod.splits save_bind_err.splits sum.splits)
qed (unfold word_Stats_h_def [abs_def] word_BatchDelete_h_def word_RelatedSearch_h_def [abs_def] word_Get_h_def
    word_Publish_h_def word_Delete_h_def, (intro calm_intros)+)

lemma admin_calm:
  "list_all (\<lambda>(n, h). \<forall>rq. ids_there n (rq_keys rq) \<longrightarrow> no_panic (h rq)) (admin_handlers H D)"
  unfolding admin_handlers_def list.pred_inject prod.case
proof (intro conjI allI impI list.pred_inject(1))
  fix rq
  show "no_panic (admin_Refresh_h H D rq)" unfolding admin_Refresh_h_def [abs_def] no_panic_def
    by (auto split: option.splits sum.splits prod.splits)
  show "no_panic (admin_Logout_h H rq)" unfolding admin_Logout_h_def [abs_def] no_panic_def
    by (simp add: Let_def)
  show "no_panic (admin_SetAdminStatus_h H rq)" unfolding admin_SetAdminStatus_h_def [abs_def] no_panic_def with_json_def
    by (auto split: option.splits sum.splits prod.splits)
  show "no_panic (admin_ListAdmins_h H rq)" unfolding admin_ListAdmins_h_def [abs_def]
    by (simp add: no_panic_def Let_def split: prod.splits)
qed (unfold admin_Login_h_def admin_LogoutAll_h_def admin_Profile_h_def admin_CreateAdmin_h_def,
    (intro calm_intros; simp)+)

definition no_panic_code :: "('s \<Rightarrow> (('b, 'e) answer \<times> 's) option) \<Rightarrow> bool" where
  "no_panic_code m \<longleftrightarrow> (\<forall>s s'. m s \<noteq> Some (Panics, s'))"

lemma no_panic_sent [calm_intros]: "no_panic_code (\<lambda>s. sent_code rules (m s))"
  by (auto simp: no_panic_code_def sent_code_def user_reply_to_def)

lemma no_panic_code_body [calm_intros]: "(\<And>v. no_panic_code (k v)) \<Longrightarrow> no_panic_code (code_body dec rq k)"
  by (auto simp: no_panic_code_def code_body_def split: sum.splits)

lemma no_panic_code_user [calm_intros]:
  "has_id (rq_keys rq) ''auth.userID'' \<Longrightarrow> (\<And>i. no_panic_code (k i)) \<Longrightarrow> no_panic_code (code_user rq k)"
  by (auto simp: no_panic_code_def code_user_def split: option.splits gval.splits)

lemma no_panic_some: "no_panic_code (\<lambda>s. Some (m s)) = no_panic m"
  by (simp add: no_panic_code_def no_panic_def)

lemma user_calm:
  "list_all (\<lambda>(n, f). \<forall>rq. ids_there n (rq_keys rq) \<longrightarrow> no_panic_code (f rq)) (user_handlers H D)"
  unfolding user_handlers_def list.map list.pred_inject list_all_append prod.case no_panic_some
proof (intro conjI allI impI list.pred_inject(1))
  fix rq
  show "no_panic (user_Refresh_h H D rq)" unfolding user_Refresh_h_def [abs_def] no_panic_def
    by (auto split: option.splits sum.splits prod.splits)
  show "no_panic (user_Logout_h H rq)" unfolding user_Logout_h_def [abs_def] no_panic_def
    by (simp add: Let_def user_reply_to_def)
  show "ids_there ''user.Me'' (rq_keys rq) \<Longrightarrow> no_panic (user_Me_h H rq)" unfolding user_Me_h_def [abs_def] with_user_def [abs_def]
    by (intro calm_intros) (auto simp: no_panic_def user_reply_to_def split: option.splits sum.splits prod.splits)
qed (unfold user_Register_h_def user_Login_h_def user_LoginCode_h_def user_ResetPassword_h_def user_DeleteAccount_h_def
    user_LogoutAll_h_def user_SwitchRole_h_def user_AddRole_h_def user_UpdateLearningSettings_h_def
    user_UpdateProfile_h_def user_BindContact_h_def user_SendCode_h_def user_ForgotPassword_h_def
    user_RequestContactBindCode_h_def user_RequestAccountDeletion_h_def
    user_json_body_def [abs_def] with_user_def [abs_def] user_reply_to_def, (intro calm_intros; simp)+)

subsection \<open>The gates\<close>

fun gate_for :: "string \<Rightarrow> middleware" where
  "gate_for k = (if k = ''auth.userID'' then MAuth else MAdminAuth)"

definition gates :: "middleware set" where
  "gates = {MAuthLimit, MAuth, MAdminAuth, MSuperAdmin}"

definition gated :: "deps \<Rightarrow> route \<Rightarrow> bool" where
  "gated d rt \<longleftrightarrow> (\<exists>ms. rt_mws rt = engine_mws d @ ms \<and> set ms \<subseteq> gates \<and>
     (\<forall>k. map_of id_readers (rt_handler rt) = Some k \<longrightarrow> gate_for k \<in> set ms))"

lemma gated_group:
  assumes "set ms \<subseteq> gates"
    and "list_all (\<lambda>(m, p, h). case map_of id_readers h of None \<Rightarrow> True | Some k \<Rightarrow> gate_for k \<in> set ms) rs"
  shows "list_all (gated d) (group pre (engine_mws d @ ms) rs)"
  using assms by (fastforce simp: list_all_iff group_def gated_def split: option.splits simp del: gate_for.simps)

lemmas gated_engine = gated_group [where ms = "[]", simplified]

lemma gated_if: "list_all P xs \<Longrightarrow> list_all P (if b then xs else [])"
  by simp

lemma router_gated: "list_all (gated d) (NewRouter d)"
  unfolding NewRouter_def registerDocs_def public_routes_def authed_routes_def admin_auth_routes_def admin_routes_def
    list_all_append
  by (intro conjI gated_group gated_engine gated_if) ((simp add: gates_def; fail) | code_simp)+

lemma id_keys: "map_of id_readers n = Some k \<Longrightarrow> k = ''auth.userID'' \<or> k = ''auth.adminID''"
  using map_of_SomeD [of id_readers n k] unfolding id_readers_def by auto

text \<open>Behind its gates a chain ends without a panic and without a log line.\<close>

definition calm :: "('w, 'b) chain \<Rightarrow> ('w, 'b) gctx \<Rightarrow> bool" where
  "calm k c \<longleftrightarrow> (\<exists>c'. k c = Done c' \<and> gc_log c' = gc_log c)"

lemma calm_write: "k c = Done (write_status s c1) \<Longrightarrow> gc_log c1 = gc_log c \<Longrightarrow> calm k c"
  by (simp add: calm_def)

lemma gates_calm:
  assumes "\<And>c. (\<forall>k. need = Some k \<longrightarrow> has_id (gc_keys c) k) \<Longrightarrow> calm h c"
    and "set ms \<subseteq> gates" and "\<And>k. need = Some k \<Longrightarrow> k = ''auth.userID'' \<or> k = ''auth.adminID''"
    and "\<And>k. need = Some k \<Longrightarrow> gate_for k \<in> set ms \<or> has_id (gc_keys c) k"
  shows "calm (run_chain E d ms h) c"
  using assms(2,4)
proof (induction ms arbitrary: c)
  case Nil
  then show ?case using assms(1) [of c] by (simp add: run_chain_def)
next
  case (Cons m ms)
  let ?k = "run_chain E d ms h"
  have go: "calm ?k c'" if "\<And>k. need = Some k \<Longrightarrow> gate_for k = m \<or> has_id (gc_keys c) k \<Longrightarrow> has_id (gc_keys c') k" for c'
    using Cons.IH [of c'] Cons.prems that by auto
  have "calm (apply_mw E d m ?k) c"
  proof (cases m)
    case MAuthLimit
    have "calm ?k (c\<lparr>gc_limiter := l\<rparr>)" for l by (rule go) (use MAuthLimit in \<open>auto split: if_splits\<close>)
    then show ?thesis by (auto simp: MAuthLimit RateLimit_def Let_def calm_def split: prod.splits)
  next
    case MAuth
    have "calm ?k (c\<lparr>gc_keys := (gc_keys c)(''auth.userID'' \<mapsto> GUuid u, ''auth.role'' \<mapsto> r)\<rparr>)" for u r
      by (rule go) (use MAuth assms(3) in \<open>auto split: if_splits\<close>)
    then show ?thesis by (auto simp: MAuth AuthRequired_def calm_def split: option.splits sum.splits)
  next
    case MAdminAuth
    have "calm ?k (c\<lparr>gc_keys := (gc_keys c)(''auth.adminID'' \<mapsto> GUuid u, ''auth.adminLevel'' \<mapsto> r)\<rparr>)" for u r
      by (rule go) (use MAdminAuth assms(3) in \<open>auto split: if_splits\<close>)
    then show ?thesis by (auto simp: MAdminAuth AdminAuthRequired_def calm_def split: option.splits sum.splits)
  next
    case MSuperAdmin
    have "calm ?k c" by (rule go) (use MSuperAdmin in \<open>auto split: if_splits\<close>)
    then show ?thesis by (auto simp: MSuperAdmin RequireSuperAdmin_def calm_def)
  qed (use Cons.prems(1) in \<open>simp_all add: gates_def\<close>)
  then show ?case by (simp add: run_chain_Cons)
qed

fun panic_line :: "log_line \<Rightarrow> bool" where
  "panic_line (PanicRecovered _ _) = True"
| "panic_line (HttpRequest _ _ _ _) = False"

definition answered :: "('w, 'b) env \<Rightarrow> deps \<Rightarrow> route \<Rightarrow> ('w, 'b) chain \<Rightarrow> ('w, 'b) gctx \<Rightarrow> bool" where
  "answered E d rt k c \<longleftrightarrow> (\<exists>c' ls. run_chain E d (rt_mws rt) k c = Done c' \<and> gc_log c' = gc_log c @ ls \<and>
     list_all (\<lambda>(i, l). \<not> panic_line l) ls)"

lemma answered_route:
  assumes "tracing_laws E" and "rt \<in> set (NewRouter d)"
    and "\<And>c. ids_there (rt_handler rt) (gc_keys c) \<Longrightarrow> calm k c"
  shows "answered E d rt k c"
proof -
  obtain ms where ms: "rt_mws rt = engine_mws d @ ms" "set ms \<subseteq> gates"
    "\<And>k. map_of id_readers (rt_handler rt) = Some k \<Longrightarrow> gate_for k \<in> set ms"
    using router_gated [of d] assms(2) unfolding list_all_iff gated_def by blast
  have "calm (run_chain E d ms k) c" for c
  proof (rule gates_calm [OF _ ms(2), of "map_of id_readers (rt_handler rt)"])
    fix c :: "('a, 'b) gctx" assume "\<forall>k. map_of id_readers (rt_handler rt) = Some k \<longrightarrow> has_id (gc_keys c) k"
    then show "calm k c" by (intro assms(3)) (simp add: ids_there_def split: option.split)
  qed (use id_keys ms(3) in blast)+
  then obtain c1 where c1: "run_chain E d ms k (with_id E c) = Done c1" "gc_log c1 = gc_log c"
    unfolding calm_def using with_id_simps(8) [of E c] by metis
  then show ?thesis
    unfolding answered_def ms(1) run_chain_append engine_run [OF assms(1)]
    by (auto simp: MetricsMiddleware_def Recovery_def RequestLogger_def log_ctx_def)
qed

lemma run_handler_calm: "no_panic (h ((rd c)\<lparr>rq_keys := gc_keys c\<rparr>)) \<Longrightarrow> calm (run_handler rd h) c"
  by (auto simp: run_handler_def calm_def no_panic_def split: prod.splits answer.splits)

lemma run_handler_ids:
  assumes "list_all (\<lambda>(n, h). \<forall>rq. ids_there n (rq_keys rq) \<longrightarrow> no_panic (h rq)) hs" and "(n, h) \<in> set hs"
    and "ids_there n (gc_keys c)"
  shows "calm (run_handler rd h) c"
  using assms by (intro run_handler_calm) (auto simp: list_all_iff)

subsection \<open>Pages\<close>

definition filter_known :: "request \<Rightarrow> bool" where
  "filter_known rq \<longleftrightarrow>
     (rq_query rq ''kind'' = [] \<or> kind_valid (rq_query rq ''kind'')) \<and>
     (rq_query rq ''level'' = [] \<or> word_level_valid (rq_query rq ''level'')) \<and>
     (rq_query rq ''status'' = [] \<or> rq_query rq ''status'' = StatusDraft \<or> rq_query rq ''status'' = StatusPublished) \<and>
     (rq_query rq ''pos'' = [] \<or> rq_query rq ''pos'' \<in> set POSValues) \<and>
     query_time rq ''created_from'' \<noteq> None \<and> query_time rq ''created_to'' \<noteq> None"

lemma bad_bound_None: "bad_bound D rq = None \<longleftrightarrow> query_time rq ''created_from'' \<noteq> None \<and> query_time rq ''created_to'' \<noteq> None"
  by (auto simp: bad_bound_def)

lemma word_list_healthy:
  assumes "fates w = []" and "0 \<le> lf_limit f" and "0 \<le> lf_offset f"
  shows "word_list L f w = (Inr (map (scan_item (tables w)) (sql_page (nat (lf_limit f)) (nat (lf_offset f))
    (list_order (list_base L f (tables w)))), length (list_base L f (tables w))), w)"
  using assms by (simp add: word_list_def wbind_def wret_def wquery_healthy)

lemma word_page:
  assumes "fates w = []" and "page_of word_parseInt rq = (p, n)"
  shows "if filter_known rq
    then word_List_h (NewService (word_repo L) hook) D rq w =
      (Reply (json 200 (WB_page (map (scan_item (tables w)) (sql_page (nat n) (nat ((p - 1) * n))
         (list_order (list_base L (list_filter_of rq p n) (tables w))))) p n
         (length (list_base L (list_filter_of rq p n) (tables w))))), w)
    else (\<exists>b. word_List_h (NewService (word_repo L) hook) D rq w = (Reply (json 400 b), w))"
proof (cases "bad_bound D rq")
  case (Some q)
  then have "\<not> filter_known rq" using bad_bound_None [of D rq] by (auto simp: filter_known_def)
  with Some assms(2) show ?thesis by (auto simp: word_List_h_def)
next
  case None
  then have t: "filter_known rq \<longleftrightarrow>
      (lf_kind f = [] \<or> kind_valid (lf_kind f)) \<and> (lf_level f = [] \<or> word_level_valid (lf_level f)) \<and>
      (lf_status f = [] \<or> lf_status f = StatusDraft \<or> lf_status f = StatusPublished) \<and>
      (lf_pos f = [] \<or> lf_pos f \<in> set POSValues)" if "f = list_filter_of rq p n" for f
    using bad_bound_None [of D rq] by (simp add: filter_known_def list_filter_of_def that)
  let ?f = "list_filter_of rq p n"
  have f: "lf_limit ?f = n" "lf_offset ?f = (p - 1) * n" by (simp_all add: list_filter_of_def offset_of_def)
  have "0 \<le> n" "0 \<le> (p - 1) * n" using page_range [OF assms(2)] by (simp_all add: offset_of_def)
  note H = word_list_healthy [OF assms(1), of ?f L, unfolded f, OF this]
  show ?thesis
    unfolding t [OF refl] using None assms(2) H
    by (auto simp: word_List_h_def word_List_def NewService_def word_repo_def word_reply_to_def invalid_def word_respondErr_def)
qed

lemma sint_small: "0 \<le> x \<Longrightarrow> x < 2 ^ 38 \<Longrightarrow> sint (word_of_int x :: int64) = x"
  by (rule sint64_word_of_int) simp_all

lemma admin_page_healthy:
  assumes "fates w = []" and "page_of admin_parseInt rq = (p, n)"
  shows "admin_list pgl (admin_filter_of rq p n) w =
    (Inr (map scanAdmin (sql_page (nat n) (nat ((p - 1) * n)) (admin_matches pgl (admin_filter_of rq p n) (tables w))),
      length (filter (admin_match pgl (admin_filter_of rq p n)) (admins (tables w)))), w)"
proof -
  let ?f = "admin_filter_of rq p n"
  note R = page_range [OF assms(2)]
  have "sint (af_limit ?f) = n" using R(3,4) by (simp add: admin_filter_of_def sint_small)
  moreover have "af_offset ?f = word_of_int ((p - 1) * n)" by (simp add: admin_filter_of_def)
  then have "sint (af_offset ?f) = (p - 1) * n"
    using sint_small [of "(p - 1) * n"] R(5,6) by (simp only: offset_of_def)
  moreover have "0 \<le> n" "0 \<le> (p - 1) * n" using R by (simp_all add: offset_of_def)
  ultimately show ?thesis using assms(1)
    by (simp add: admin_list_def pg_query_healthy sql_admin_page_def not_less)
qed

subsection \<open>A concrete server\<close>

definition demo_word_lib :: word_lib where
  "demo_word_lib = \<lparr>wl_uuid = (\<lambda>s. if s = [] then None else Some 50), wl_create = (\<lambda>b. Inr (b, [])),
     wl_save = (\<lambda>b more. if more then Inl TooLarge else Inr demo_body), wl_ids = (\<lambda>b. Inl b)\<rparr>"

definition demo_word_draw :: word_draw where
  "demo_word_draw = \<lparr>wd_id = 60, wd_now = 20, wd_from_first = True\<rparr>"

definition demo_word_env :: "(word_db pgs, time option) env" where
  "demo_word_env = \<lparr>ev_jwt = demo_jwt, ev_rate = demo_rate, ev_newID = ''r1'', ev_tracing = id, ev_handler = (\<lambda>_. Done)\<rparr>"

definition demo_word_ctx :: "(word_db pgs, time option) gctx" where
  "demo_word_ctx = \<lparr>gc_method = ''POST'', gc_path = ''/x'', gc_fullPath = ''/x'', gc_headers = Map.empty, gc_ip = ''::1'',
     gc_now = 5, gc_requestID = [], gc_keys = Map.empty, gc_out = Map.empty, gc_status = 200, gc_written = False,
     gc_errors = [], gc_log = [], gc_requests = [], gc_limiter = NewIPRateLimiter 0 30 10 600000000,
     gc_world = demo_created\<rparr>"

definition demo_create_route :: route where
  "demo_create_route = \<lparr>rt_method = ''POST'', rt_path = [''api'', ''v1'', ''admin'', ''words''],
     rt_mws = engine_mws demo_deps @ [MAdminAuth], rt_handler = ''word.Create''\<rparr>"

text \<open>A request of the admin 1 with the body \<open>book\<close> and a page beyond all bounds.\<close>

definition demo_request :: request where
  "demo_request = \<lparr>rq_body = ''book'', rq_query = (\<lambda>k. if k = ''page'' then ''0'' else if k = ''page_size'' then ''1000'' else []),
     rq_param = (\<lambda>_. []), rq_cookie = (\<lambda>_. None), rq_keys = [''auth.adminID'' \<mapsto> GUuid 1]\<rparr>"

definition demo_admin_handler :: "(id_db pgs) admin_handler" where
  "demo_admin_handler = \<lparr>ah_svc = demo_admin_sv, ah_cookie = \<lparr>cc_secure = True, cc_maxAge = 10\<rparr>, ah_accessTTL = 10,
     ah_refreshTTL = 10, ah_bind = \<lparr>ab_login = (\<lambda>b. Inl b), ab_create = (\<lambda>b. Inl b), ab_status = (\<lambda>b. Inl b),
       ab_uuid = (\<lambda>_. None)\<rparr>\<rparr>"

lemma demo_created_inv: "word_inv (tables demo_created)"
  unfolding demo_created_def by (rule kept_inv(1) [OF demo_inv])

lemma demo_duplicate:
  "word_Create_h demo_word_lib demo_sv demo_word_draw demo_request demo_created =
     (Reply (json 409 (WB_error ''word already exists'')), demo_created)"
  by code_simp

lemma demo_pages: "page_of word_parseInt demo_request = (1, 100)" "page_of admin_parseInt demo_request = (1, 100)"
  "filter_known demo_request"
  by code_simp+

subsection \<open>Properties\<close>

text \<open>C11: No handler panics. Whatever a request carries, a route of the table leads through gates that
  leave the id its handler asks for with \<open>MustGet\<close>, so the wordlist, back-office and account
  handlers answer it and the log gets no panic (those that draw a code, as long as the draw ends).\<close>

theorem no_handler_panics:
  assumes "tracing_laws E" and "rt \<in> set (NewRouter d)"
  shows "((rt_handler rt, h) \<in> set (word_handlers B sv D) \<longrightarrow> answered E d rt (run_handler rd h) c) \<and>
    ((rt_handler rt, h') \<in> set (admin_handlers H D') \<longrightarrow> answered E d rt (run_handler rd h') c) \<and>
    ((rt_handler rt, f) \<in> set (user_handlers U D'') \<and> (\<forall>rq s. f rq s = Some (g rq s)) \<longrightarrow>
      answered E d rt (run_handler rd g) c)"
proof (intro conjI impI; (elim conjE)?)
  note A = answered_route [OF assms]
  show "answered E d rt (run_handler rd h) c" if "(rt_handler rt, h) \<in> set (word_handlers B sv D)"
    by (rule A, rule run_handler_ids [OF word_calm that])
  show "answered E d rt (run_handler rd h') c" if "(rt_handler rt, h') \<in> set (admin_handlers H D')"
    by (rule A, rule run_handler_ids [OF admin_calm that])
  show "answered E d rt (run_handler rd g) c"
    if "(rt_handler rt, f) \<in> set (user_handlers U D'')" "\<forall>rq s. f rq s = Some (g rq s)"
  proof (rule A, rule run_handler_calm)
    fix c :: "('a, 'b) gctx" assume "ids_there (rt_handler rt) (gc_keys c)"
    with user_calm [of U D''] that(1) have "no_panic_code (f ((rd c)\<lparr>rq_keys := gc_keys c\<rparr>))"
      by (auto simp: list_all_iff)
    then show "no_panic (g ((rd c)\<lparr>rq_keys := gc_keys c\<rparr>))"
      using that(2) by (simp add: no_panic_code_def no_panic_def)
  qed
qed

theorem no_handler_panics_witness:
  "answered demo_word_env demo_deps demo_create_route
     (run_handler (\<lambda>_. demo_request) (word_Create_h demo_word_lib demo_sv demo_word_draw)) demo_word_ctx"
proof -
  have t: "tracing_laws demo_word_env" by (simp add: tracing_laws_def demo_word_env_def)
  have r: "demo_create_route \<in> set (NewRouter demo_deps)"
    by (simp add: NewRouter_def admin_routes_def group_def demo_create_route_def)
  have "(rt_handler demo_create_route, word_Create_h demo_word_lib demo_sv demo_word_draw)
      \<in> set (word_handlers demo_word_lib demo_sv demo_word_draw)"
    by (simp add: word_handlers_def demo_create_route_def)
  with no_handler_panics [OF t r, of "word_Create_h demo_word_lib demo_sv demo_word_draw" demo_word_lib demo_sv
      demo_word_draw "\<lambda>_. demo_request" demo_word_ctx]
  show ?thesis by blast
qed

text \<open>C12: A rejected request changed nothing. When a wordlist handler answers with a 4xx status, the
  tables are as they were, whatever was lost on the way: no half-saved tree, no status flip, no
  deletion. (A 500 may hide a commit whose answer was lost.)\<close>

theorem rejection_changes_nothing:
  assumes "word_inv (tables w)" and "wsv_store sv = word_repo L" and "(n, h) \<in> set (word_handlers B sv D)"
    and "h rq w = (Reply rp, w')" and "400 \<le> rp_status rp" and "rp_status rp < 500"
  shows "tables w' = tables w"
  by (rule clean_words.handler_rejected [OF assms])

theorem rejection_changes_nothing_witness:
  "fst (word_Create_h demo_word_lib demo_sv demo_word_draw demo_request demo_created) =
     Reply (json 409 (WB_error ''word already exists'')) \<and>
   tables (snd (word_Create_h demo_word_lib demo_sv demo_word_draw demo_request demo_created)) = tables demo_created"
proof -
  let ?out = "word_Create_h demo_word_lib demo_sv demo_word_draw demo_request demo_created"
  have o: "?out = (Reply (json 409 (WB_error ''word already exists'')), snd ?out)" by (simp add: demo_duplicate)
  have "tables (snd ?out) = tables demo_created"
    by (rule rejection_changes_nothing [where h = "word_Create_h demo_word_lib demo_sv demo_word_draw" and sv = demo_sv
          and n = "''word.Create''" and B = demo_word_lib and D = demo_word_draw and L = demo_pg, OF demo_created_inv _ _ o])
      (simp_all add: NewService_def word_handlers_def)
  with arg_cong [OF o, of fst] show ?thesis by (simp only: fst_conv simp_thms)
qed

text \<open>C40: Pages. Whatever a query says, the two listings ask for a page between 1 and \<open>2 ^ 31\<close> of 1 to
  100 entries, and no product wraps around: on a healthy connection the wordlist answers that
  page of the matching entries with their number, or a 400 when the filter names a value that
  does not exist or an instant that is none; the admin directory answers its page.\<close>

theorem pages_in_range:
  assumes "fates w = []" and "page_of word_parseInt rq = (p, n)" and "page_of admin_parseInt rq = (p', n')"
    and "asv_store (ah_svc H) = admin_repo pgl" and "fates v = []"
  shows "1 \<le> p \<and> p \<le> 2 ^ 31 \<and> 1 \<le> n \<and> n \<le> 100 \<and> 1 \<le> p' \<and> p' \<le> 2 ^ 31 \<and> 1 \<le> n' \<and> n' \<le> 100 \<and>
    (if filter_known rq
     then word_List_h (NewService (word_repo L) hook) D rq w =
       (Reply (json 200 (WB_page (map (scan_item (tables w)) (sql_page (nat n) (nat ((p - 1) * n))
          (list_order (list_base L (list_filter_of rq p n) (tables w))))) p n
          (length (list_base L (list_filter_of rq p n) (tables w))))), w)
     else (\<exists>b. word_List_h (NewService (word_repo L) hook) D rq w = (Reply (json 400 b), w))) \<and>
    admin_ListAdmins_h H rq v =
      (Reply (json 200 (AB_page (map (\<lambda>r. admin_json_of (scanAdmin r)) (sql_page (nat n') (nat ((p' - 1) * n'))
         (admin_matches pgl (admin_filter_of rq p' n') (tables v)))) p' n'
         (length (filter (admin_match pgl (admin_filter_of rq p' n')) (admins (tables v)))))), v)"
  using page_range(1-4) [OF assms(2)] page_range(1-4) [OF assms(3)] word_page [OF assms(1,2)]
    admin_page_healthy [OF assms(5,3), of pgl] assms(3,4)
  by (simp add: admin_ListAdmins_h_def admin_List_def admin_repo_def reply_to_def comp_def)

theorem pages_in_range_witness:
  "(\<exists>items. word_List_h demo_sv demo_word_draw demo_request demo_created =
      (Reply (json 200 (WB_page items 1 100 1)), demo_created)) \<and>
   (\<exists>items. admin_ListAdmins_h demo_admin_handler demo_request demo_admin_w =
      (Reply (json 200 (AB_page items 1 100 1)), demo_admin_w))"
proof -
  have f: "fates demo_created = []" "fates demo_admin_w = []"
    and s: "asv_store (ah_svc demo_admin_handler) = admin_repo id"
    and n: "length (list_base demo_pg (list_filter_of demo_request 1 100) (tables demo_created)) = 1"
      "length (filter (admin_match id (admin_filter_of demo_request 1 100)) (admins (tables demo_admin_w))) = 1"
    by (code_simp, simp add: demo_admin_w_def, simp add: demo_admin_handler_def admin_wired_def, code_simp,
      simp add: demo_admin_w_def admin_match_def admin_filter_of_def demo_request_def)
  show ?thesis
    using pages_in_range [OF f(1) demo_pages(1,2) s f(2), of demo_pg None demo_word_draw] demo_pages(3) n by auto
qed

end
