(* ===== verification/Spec2Isabelle.thy ===== *)
theory Spec2Isabelle imports CoinProps AdminRace JsBase64 UserFlows HandlerProps begin

text \<open>
  A verification library for tsz-go, the back end of an English-learning service: an HTTP API
  over PostgreSQL, written in Go, that serves its own API documentation through a bundled copy
  of Swagger UI, which is the repository's JavaScript.

  THE PROGRAM. A request enters the middleware chain of \<open>internal/platform/httpserver\<close>, is
  matched against the route table, and reaches a handler that calls the service of its domain.
  A service (\<open>coin\<close>, \<open>session\<close>, \<open>otp\<close>, \<open>user\<close>, \<open>admin\<close>, \<open>word\<close>) holds the rules and calls its
  repository through an interface; a repository is hand-written SQL over the tables of
  \<open>internal/platform/database/migrations\<close>. The \<open>user\<close> and \<open>admin\<close> services issue access
  tokens (\<open>internal/auth\<close>) and refresh tokens (\<open>internal/session\<close>, over a table of their own
  realm); \<open>user\<close> checks one-time codes (\<open>internal/otp\<close>). \<open>cmd/server\<close> wires them.

  THE THEORIES, in the order they build on each other.

  Foundations. \<open>Prelude\<close>: identifiers, instants (microseconds, as the database stores them),
  64-bit integers, and the database session: tables, the server's clock, and the fate of every
  statement to come (it runs, is lost on the way, or runs and its answer is lost), so that the
  theorems cover lost connections and ambiguous commits. \<open>GoStrings\<close>, \<open>GoErrors\<close>, \<open>GoCrypto\<close>
  and \<open>SqlText\<close> model what is used of Go's \<open>strings\<close>, \<open>errors\<close>, \<open>crypto/sha256\<close>,
  \<open>encoding/hex\<close> and \<open>encoding/base64\<close>, and of SQL's \<open>LIKE\<close>.

  The JavaScript bundle. \<open>JsUtf8\<close>, \<open>JsBuffer\<close>, \<open>JsBase64\<close>: the UTF-8 and base64 codecs of the
  \<open>buffer\<close> and \<open>base64-js\<close> modules inside \<open>swagger-ui-bundle.js\<close> with \<open>btoa\<close> over them. A
  JavaScript string is a list of 16-bit words, a buffer a list of bytes; each function keeps
  the loops, chunks and budgets of the source. Proved: decoding inverts encoding, the chunked
  encoder equals the three-bytes-at-a-time reference of RFC 4648, and \<open>btoa\<close> of a text decodes
  to its UTF-8 bytes.

  The coin ledger (\<open>internal/coin\<close>). \<open>CoinModel\<close> the data, \<open>CoinRepo\<close> the repository (booking,
  reversal, listing, with its transactions and races), \<open>CoinService\<close> the service, \<open>CoinInv\<close> the
  invariant (each wallet is the sum of its ledger rows) and its preservation, \<open>CoinProps\<close> the
  properties over every sequence of calls.

  Refresh tokens. \<open>IdentityDb\<close> holds the tables of both realms. \<open>Session\<close>: the service and the
  two repositories; \<open>SessionInv\<close>: the contract of a token store as a locale, the service's
  lemmas inside it, its interpretation on both repositories; \<open>SessionProps\<close>: one device at a
  time, spent tokens stay dead, fresh ones work.

  One-time codes. \<open>Otp\<close>, \<open>OtpInv\<close>, \<open>OtpProps\<close>, in the same division: single use, lock-out
  after five guesses, cooldown and daily limit.

  Access tokens. \<open>Auth\<close>: \<open>internal/auth/token.go\<close> over the JWT library.

  Back-office accounts. \<open>Identity\<close> (what both realms share), \<open>AdminRepo\<close>, \<open>AdminService\<close>,
  \<open>AdminProps\<close>, and \<open>AdminRace\<close>, where the status change is an inductive step relation over
  any number of concurrent transactions with their advisory lock, and the last active super
  admin survives every interleaving.

  Web accounts. \<open>UserRepo\<close>: the account, its repository over five tables. \<open>UserSpec\<close>: what the
  store promises, as commands on a map of accounts; \<open>UserRefine\<close>: each repository method
  implements its command, lost statements included. \<open>UserService\<close>: the nineteen operations.
  \<open>UserInv\<close>: the contract of the account store as a locale and the service's lemmas in it;
  \<open>UserProps\<close>: the interpretations, the invariant over all runs, what the tokens entitle to.
  \<open>UserFlows\<close>: flows that cross components (registration then login, password reset with its
  code and sessions, account deletion).

  The wordlist (\<open>internal/word\<close>). \<open>WordModel\<close> the data with rich texts, frequencies and the error
  values; \<open>WordTree\<close> the validation of a submitted tree (which also normalizes it) and the
  publication rules; \<open>WordDb\<close> the eleven tables of migration 000018 with their keys, checks and
  delete actions; \<open>WordRepo\<close> the repository, its tree save with every statement in order.
  \<open>WordEntry\<close> defines \<open>entry\<close>, the tree a reader gets of an id, which everything after speaks of.
  \<open>WordUpsert\<close>, \<open>WordNodes\<close> and \<open>WordSave\<close> compute the effect of the save transaction on the rows,
  \<open>WordSaved\<close>, \<open>WordOthers\<close> and \<open>WordLinks\<close> its effect and that of deletions on the saved entry, on
  the others and on the links between them. \<open>WordInv\<close>: well-formed trees. \<open>WordService\<close>: the
  service, with \<open>Save\<close> and \<open>Publish\<close> split where other requests can come between. \<open>WordStore\<close>: the
  contract of a store as a locale, interpreted on the repository. \<open>WordSys\<close>: requests as an
  inductive step relation, the invariant of published entries in a locale over the contract.
  \<open>WordLock\<close>: the lock token. \<open>WordFixed\<close>: normal forms are fixed points. \<open>WordOrphans\<close>: what
  deletions leave. \<open>WordDemo\<close> a concrete wordlist, \<open>WordProps\<close> the properties.

  The HTTP edge. \<open>RateLimit\<close> (the per-IP throttle and its sweep, equal to a throttle that never
  forgets), \<open>Http\<close> (the middleware as functions that wrap the rest of the chain, panics
  included, and the probes), \<open>Router\<close> (the route table with the middleware of each route).
  \<open>GoTime\<close> (RFC 3339 instants and \<open>strconv.Atoi\<close>) and \<open>Handler\<close> (requests, replies, cookies, pages)
  carry the handlers, \<open>UserHandler\<close>, \<open>AdminHandler\<close> and \<open>WordHandler\<close>; the last states as a
  locale what a store owes a client that is told no. \<open>HandlerProps\<close>: the handlers behind their
  gates, pages, rejections.

  CONVENTIONS. A record of operations stands for a Go interface, a locale for its contract;
  every locale is interpreted on the model's own repositories and services. An error is a
  value of a sum; a handle on the database is state passed along. Go strings are byte strings
  in UTF-8. The draws of \<open>uuid.New\<close>, \<open>crypto/rand\<close> and \<open>time.Now\<close> are arguments. Where a
  property speaks of runs, the clock, the draws, the arguments and the fates are arbitrary.

  PARAMETERS. Code that is not in the repository is an argument, with what is relied upon as
  named laws and an instance that satisfies them: the JWT library (\<open>jwt_laws\<close>), bcrypt
  (\<open>bcrypt_laws\<close>), the token bucket of \<open>x/time/rate\<close>, gin's path matcher, the tracing handler,
  the text of a UUID and its parsing, the JSON binding of request bodies with its validator, the
  Unicode case tables, \<open>mail.ParseAddress\<close>, and what depends on the locale of the database (\<open>pg_text\<close>:
  lower-casing and the sort key of its collation).

  BOUNDS AND FUEL. All functions are total. The one loop that may not end, the rejection
  sampling of \<open>crypto/rand.Int\<close> behind the codes, runs over a finite list of draws and answers
  \<open>None\<close> when it is used up; \<open>generateCode_ok\<close> says when it is not. Integers that can wrap (coin
  amounts and balances, page offsets) are 64-bit words; the wordlist's offsets are integers, which
  \<open>page_range\<close> shows to stay below \<open>2 ^ 38\<close>.

  SIMPLIFICATIONS. Rich texts are kept in the JSON columns as the values they encode. The queries of
  one read transaction see one snapshot. Texts with a NUL character, which PostgreSQL rejects,
  count as failed statements. A reply carries its body as a value, not as JSON text.

  NOT MODELLED. Configuration, logging, tracing, the pool and the migration runner (set-up of
  third-party libraries); the latency histogram and the metrics page; the serving of static files;
  \<open>internal/apigen\<close> (generated); the rest of the Swagger UI bundle (third-party user interface).
\<close>

end
